(* ===== verification/Go_Prelude.thy ===== *)
theory Go_Prelude
  imports Main "HOL-Library.Word" "HOL-Library.AList" "HOL-Library.Char_ord"
    "HOL-Library.List_Lexorder" "HOL-Library.Product_Lexorder" "HOL-Library.Signed_Division"
begin

text \<open>
  What the components share of the Go language and its standard library:
  \<^item> an instant (\<open>time.Time\<close>) is an \<open>int\<close>, the nanoseconds since Go's zero instant, so that
    \<open>IsZero\<close> is equality with 0 and \<open>After\<close>, \<open>Before\<close>, \<open>Equal\<close> are the orders of \<open>int\<close>;
    a \<open>time.Duration\<close> is an \<open>int\<close> of nanoseconds;
  \<^item> a Go map is an association list with distinct keys, whose order stands for the unspecified
    order in which \<open>range\<close> visits it: \<open>go_get\<close> reads with the zero value of the value type,
    \<open>go_set\<close> stores, \<open>go_del\<close> deletes;
  \<^item> a returned \<open>error\<close> is a string in a sum or in an option;
  \<^item> a Go string is compared byte by byte, which is the lexicographic order of \<open>string\<close>.
  The lemmas on them are collected in \<open>go_map_simps\<close>.
\<close>

named_theorems go_map_simps

type_synonym gotime = int
type_synonym duration = int
type_synonym goerror = string
type_synonym uint64 = "64 word"
type_synonym ('k, 'v) gomap = "('k \<times> 'v) list"

abbreviation second :: duration where "second \<equiv> 1000000000"
abbreviation minute :: duration where "minute \<equiv> 60 * second"
abbreviation hour :: duration where "hour \<equiv> 60 * minute"

section \<open>Go maps\<close>

definition go_get :: "'v \<Rightarrow> ('k, 'v) gomap \<Rightarrow> 'k \<Rightarrow> 'v" where
  "go_get z m k = (case map_of m k of None \<Rightarrow> z | Some v \<Rightarrow> v)"

definition go_set :: "'k \<Rightarrow> 'v \<Rightarrow> ('k, 'v) gomap \<Rightarrow> ('k, 'v) gomap" where
  "go_set k v m = AList.update k v m"

definition go_del :: "'k \<Rightarrow> ('k, 'v) gomap \<Rightarrow> ('k, 'v) gomap" where
  "go_del k m = AList.delete k m"

definition go_wf :: "('k, 'v) gomap \<Rightarrow> bool" where
  "go_wf m = distinct (map fst m)"

lemma go_wf_Nil [simp]: "go_wf []"
  by (simp add: go_wf_def)

lemma go_wf_set [simp]: "go_wf m \<Longrightarrow> go_wf (go_set k v m)"
  by (simp add: go_wf_def go_set_def distinct_update)

lemma go_wf_del [simp]: "go_wf m \<Longrightarrow> go_wf (go_del k m)"
  by (simp add: go_wf_def go_del_def distinct_delete)

lemma map_of_go_set [go_map_simps]: "map_of (go_set k v m) = (map_of m)(k \<mapsto> v)"
  by (simp add: go_set_def update_conv')

lemma map_of_go_del [go_map_simps]: "map_of (go_del k m) = (map_of m)(k := None)"
  by (simp add: go_del_def delete_conv')

lemma map_of_fold_del: "map_of (fold go_del ks m) k = (if k \<in> set ks then None else map_of m k)"
  by (induction ks arbitrary: m) (auto simp: map_of_go_del)

lemma set_go_set: "set (go_set k v m) \<subseteq> insert (k, v) (set m)"
  by (induction m) (auto simp: go_set_def)

lemma list_all_go_set: "list_all P m \<Longrightarrow> P (k, v) \<Longrightarrow> list_all P (go_set k v m)"
  using set_go_set [of k v m] by (auto simp: list_all_iff)

lemma go_set_fresh: "k \<notin> fst ` set m \<Longrightarrow> go_set k v m = m @ [(k, v)]"
  by (induction m) (auto simp: go_set_def)

lemma fold_go_set_fresh:
  "distinct (map fst m @ map fst xs) \<Longrightarrow>
   fold (\<lambda>(k, v). go_set k (f k v)) xs m = m @ map (\<lambda>(k, v). (k, f k v)) xs"
proof (induction xs arbitrary: m)
  case (Cons x xs)
  obtain k v where x: "x = (k, v)" by (cases x)
  have "distinct (map fst (m @ [(k, f k v)]) @ map fst xs)" "k \<notin> fst ` set m"
    using Cons.prems by (auto simp: x)
  with Cons.IH [of "m @ [(k, f k v)]"] show ?case by (simp add: x go_set_fresh)
qed simp

lemma go_get_Nil [simp]: "go_get z [] k = z"
  by (simp add: go_get_def)

lemma go_get_set [go_map_simps]: "go_get z (go_set k v m) j = (if j = k then v else go_get z m j)"
  by (simp add: go_get_def map_of_go_set)

lemma go_get_del [go_map_simps]: "go_get z (go_del k m) j = (if j = k then z else go_get z m j)"
  by (simp add: go_get_def map_of_go_del)

lemma go_get_Cons [go_map_simps]: "go_get z ((k, v) # m) j = (if j = k then v else go_get z m j)"
  by (simp add: go_get_def)

lemma go_wf_Cons [simp]: "go_wf ((k, v) # m) \<longleftrightarrow> k \<notin> fst ` set m \<and> go_wf m"
  by (simp add: go_wf_def)

lemma go_get_notin: "k \<notin> fst ` set m \<Longrightarrow> go_get z m k = z"
  by (force simp: go_get_def map_of_eq_None_iff split: option.splits dest: map_of_SomeD)

lemma go_get_in: "go_wf m \<Longrightarrow> (k, v) \<in> set m \<Longrightarrow> go_get z m k = v"
  by (simp add: go_get_def go_wf_def)

section \<open>Decimal numerals\<close>

definition decimal_digit :: "nat \<Rightarrow> char" where
  "decimal_digit d = char_of (48 + d)"

fun decimal_nat :: "nat \<Rightarrow> string" where
  "decimal_nat n =
     (if n < 10 then [decimal_digit n] else decimal_nat (n div 10) @ [decimal_digit (n mod 10)])"

declare decimal_nat.simps [simp del]

text \<open>\<open>strconv.Itoa\<close>, which is also what \<open>%d\<close> and the JSON encoder print.\<close>

definition itoa :: "int \<Rightarrow> string" where
  "itoa i = (if i < 0 then ''-'' @ decimal_nat (nat (- i)) else decimal_nat (nat i))"

section \<open>JSON\<close>

text \<open>
  A JSON document; a number keeps its literal text and an instant its reading.
\<close>

datatype json =
  JNull | JBool bool | JNum string | JStr string | JTime gotime
| JArr "json list" | JObj "(string \<times> json) list"

type_synonym jobject = "(string, json) gomap"

section \<open>Options and sums used for errors\<close>

lemma sum_case_Inr_iff: "(case r of Inl e \<Rightarrow> False | Inr v \<Rightarrow> P v) \<longleftrightarrow> (\<exists>v. r = Inr v \<and> P v)"
  by (cases r) auto

lemma find_SomeD: "find P xs = Some x \<Longrightarrow> x \<in> set xs \<and> P x"
  by (auto simp: find_Some_iff)

section \<open>Machine integers\<close>

text \<open>
  \<open>int64\<close>, \<open>time.Duration\<close> and \<open>int\<close> have 64 bits and two's complement wrap-around: the result of
  an operation that can overflow is passed through \<open>wrap64\<close>. \<open>go_shl1 n\<close> is \<open>1 << n\<close>, which
  panics when the count is negative and is 0 when the bit leaves the word. Division truncates
  (\<open>sdiv\<close>), and a division by zero panics.
\<close>

definition wrap64 :: "int \<Rightarrow> int" where
  "wrap64 i = (i + 2 ^ 63) mod 2 ^ 64 - 2 ^ 63"

abbreviation int64_range :: "int \<Rightarrow> bool" where
  "int64_range i \<equiv> - (2 ^ 63) \<le> i \<and> i < 2 ^ 63"

definition go_shl1 :: "int \<Rightarrow> int option" where
  "go_shl1 n = (if n < 0 then None else Some (if n < 64 then wrap64 (2 ^ nat n) else 0))"

definition go_quot :: "int \<Rightarrow> int \<Rightarrow> int option" where
  "go_quot a b = (if b = 0 then None else Some (wrap64 (a sdiv b)))"

text \<open>\<open>Time.Sub\<close> saturates at the ends of \<open>Duration\<close>; \<open>Unix\<close> counts whole seconds from 1970.\<close>

definition time_Sub :: "gotime \<Rightarrow> gotime \<Rightarrow> duration" where
  "time_Sub t u = max (- (2 ^ 63)) (min (2 ^ 63 - 1) (t - u))"

definition time_Unix :: "gotime \<Rightarrow> int" where
  "time_Unix t = t div second - 62135596800"

lemma wrap64_range: "int64_range (wrap64 i)"
proof -
  have "0 \<le> (i + 2 ^ 63) mod (2 ^ 64 :: int)" "(i + 2 ^ 63) mod (2 ^ 64 :: int) < 2 ^ 64"
    by (rule pos_mod_sign, simp) (rule pos_mod_bound, simp)
  then show ?thesis
    unfolding wrap64_def by simp
qed

lemma wrap64_id [simp]: "int64_range i \<Longrightarrow> wrap64 i = i"
  unfolding wrap64_def by simp

lemma wrap64_step: "wrap64 (wrap64 a + b) = wrap64 (a + b)"
proof -
  have "((a + 2 ^ 63) mod 2 ^ 64 - 2 ^ 63 + b + 2 ^ 63) mod 2 ^ 64 = (a + b + 2 ^ 63) mod (2 ^ 64 :: int)"
    by (simp add: algebra_simps mod_add_right_eq)
  then show ?thesis by (simp only: wrap64_def)
qed

lemma go_shl1_None [simp]: "go_shl1 n = None \<longleftrightarrow> n < 0"
  by (simp add: go_shl1_def)

lemma go_shl1_SomeD: "go_shl1 n = Some m \<Longrightarrow> 0 \<le> n"
  by (simp add: go_shl1_def split: if_splits)

lemma go_shl1_small: "0 \<le> n \<Longrightarrow> n < 63 \<Longrightarrow> go_shl1 n = Some (2 ^ nat n)"
proof -
  assume n: "0 \<le> n" "n < 63"
  then have "(2::int) ^ nat n < 2 ^ 63"
    by (intro power_strict_increasing) auto
  moreover have "(0::int) \<le> 2 ^ nat n" by simp
  ultimately have "wrap64 (2 ^ nat n) = 2 ^ nat n"
    by (intro wrap64_id) linarith
  with n show ?thesis
    by (simp add: go_shl1_def)
qed

section \<open>Words\<close>

lemma unat_max_word: "unat (max a b :: uint64) = max (unat a) (unat b)"
  by (simp add: max_def word_le_nat_alt)

end
