(* ===== verification/Saga_Models.thy ===== *)
theory Saga_Models
  imports Go_Prelude
begin

text \<open>
  The data of the saga orchestrator, \<open>services/saga-orchestrator/internal/models/saga.go\<close>, and the
  world its operations run in. A \<open>uuid.UUID\<close> is its 128 bits. A JSON document (\<open>json.RawMessage\<close>,
  or a decoded \<open>map[string]interface{}\<close>) is a value of \<open>json\<close>; a number keeps its literal text and
  an instant its reading; an amount (\<open>float64\<close>) is the literal the encoder prints for it.
  \<open>World\<close> holds what lives outside the process: the three PostgreSQL tables,
  the Kafka log, the Redis keys with their expiry, the clock, the number of UUIDs drawn, and the schedule of the
  failures of external calls. \<open>Env\<close> holds the third-party functions the code calls
  (\<open>google/uuid\<close>) and the decoder of order data, as parameters of the model.
\<close>

section \<open>Statuses\<close>

text \<open>
  A status is a string in Go: \<open>SagaStatusOther\<close> is one that is none of the declared constants (the
  query parameter of an HTTP request can be any string).
\<close>

datatype SagaStatus =
  SagaStatusStarted | SagaStatusInProgress | SagaStatusCompleted
| SagaStatusFailed | SagaStatusCompensated | SagaStatusCancelled | SagaStatusOther string

datatype StepStatus =
  StepStatusPending | StepStatusInProgress | StepStatusCompleted
| StepStatusFailed | StepStatusCompensated | StepStatusSkipped

definition SagaStatus_of :: "string \<Rightarrow> SagaStatus" where
  "SagaStatus_of s =
     (if s = ''STARTED'' then SagaStatusStarted
      else if s = ''IN_PROGRESS'' then SagaStatusInProgress
      else if s = ''COMPLETED'' then SagaStatusCompleted
      else if s = ''FAILED'' then SagaStatusFailed
      else if s = ''COMPENSATED'' then SagaStatusCompensated
      else if s = ''CANCELLED'' then SagaStatusCancelled
      else SagaStatusOther s)"

definition SagaStatus_IsTerminal :: "SagaStatus \<Rightarrow> bool" where
  "SagaStatus_IsTerminal s =
     (s = SagaStatusCompleted \<or> s = SagaStatusFailed \<or> s = SagaStatusCompensated \<or>
      s = SagaStatusCancelled)"

definition StepStatus_IsTerminal :: "StepStatus \<Rightarrow> bool" where
  "StepStatus_IsTerminal s =
     (s = StepStatusCompleted \<or> s = StepStatusFailed \<or> s = StepStatusCompensated \<or>
      s = StepStatusSkipped)"

section \<open>Records\<close>

type_synonym uuid = "128 word"

record SagaInstance =
  si_ID :: uuid
  si_SagaType :: string
  si_SagaData :: json
  si_Status :: SagaStatus
  si_CurrentStep :: int
  si_CreatedAt :: gotime
  si_UpdatedAt :: gotime
  si_CompletedAt :: "gotime option"
  si_ErrorMessage :: "string option"
  si_RetryCount :: int
  si_MaxRetries :: int
  si_CorrelationID :: "string option"
  si_IdempotencyKey :: "string option"

record SagaStep =
  ss_ID :: uuid
  ss_SagaID :: uuid
  ss_StepName :: string
  ss_StepOrder :: int
  ss_Status :: StepStatus
  ss_InputData :: json
  ss_OutputData :: json
  ss_ErrorMessage :: "string option"
  ss_StartedAt :: "gotime option"
  ss_CompletedAt :: "gotime option"
  ss_RetryCount :: int
  ss_CompensationData :: json

record StepDefinition =
  sd_Name :: string
  sd_Order :: int
  sd_Action :: string
  sd_CompensationAction :: string
  sd_Timeout :: duration
  sd_MaxRetries :: int
  sd_RetryDelay :: duration
  sd_ContinueOnFailure :: bool
  sd_Metadata :: "(string, string) gomap"

record SagaDefinition =
  df_Type :: string
  df_Steps :: "StepDefinition list"
  df_Timeout :: duration
  df_MaxRetries :: int
  df_Metadata :: "(string, string) gomap"

record OrderItem =
  oi_SKU :: string
  oi_Quantity :: int
  oi_Price :: string

record Address =
  ad_Street :: string
  ad_City :: string
  ad_State :: string
  ad_PostalCode :: string
  ad_Country :: string

record OrderSagaData =
  od_OrderID :: uuid
  od_UserID :: uuid
  od_Items :: "OrderItem list"
  od_TotalAmount :: string
  od_Currency :: string
  od_PaymentMethod :: string
  od_ShippingAddress :: Address

record SagaEvent =
  ev_ID :: uuid
  ev_SagaID :: uuid
  ev_EventType :: string
  ev_EventData :: json
  ev_Timestamp :: gotime
  ev_CorrelationID :: string
  ev_CausationID :: string

record OutboxEvent =
  oe_ID :: uuid
  oe_AggregateID :: string
  oe_AggregateType :: string
  oe_EventType :: string
  oe_EventData :: json
  oe_CreatedAt :: gotime
  oe_ProcessedAt :: "gotime option"
  oe_Status :: string
  oe_RetryCount :: int
  oe_CorrelationID :: "string option"
  oe_CausationID :: "string option"
  oe_Version :: int

record CreateSagaRequest =
  rq_SagaType :: string
  rq_SagaData :: json
  rq_CorrelationID :: "string option"
  rq_IdempotencyKey :: "string option"

record SagaResponse =
  rs_ID :: uuid
  rs_SagaType :: string
  rs_Status :: SagaStatus
  rs_CurrentStep :: int
  rs_CreatedAt :: gotime
  rs_UpdatedAt :: gotime
  rs_CompletedAt :: "gotime option"
  rs_ErrorMessage :: "string option"
  rs_RetryCount :: int
  rs_CorrelationID :: "string option"
  rs_IdempotencyKey :: "string option"

record SagaListResponse =
  lr_Sagas :: "SagaResponse list"
  lr_TotalCount :: int
  lr_Page :: int
  lr_PageSize :: int

definition ToResponse :: "SagaInstance \<Rightarrow> SagaResponse" where
  "ToResponse s =
     \<lparr>rs_ID = si_ID s, rs_SagaType = si_SagaType s, rs_Status = si_Status s,
      rs_CurrentStep = si_CurrentStep s, rs_CreatedAt = si_CreatedAt s,
      rs_UpdatedAt = si_UpdatedAt s, rs_CompletedAt = si_CompletedAt s,
      rs_ErrorMessage = si_ErrorMessage s, rs_RetryCount = si_RetryCount s,
      rs_CorrelationID = si_CorrelationID s, rs_IdempotencyKey = si_IdempotencyKey s\<rparr>"

definition stringValue :: "string option \<Rightarrow> string" where
  "stringValue s = (case s of None \<Rightarrow> '''' | Some v \<Rightarrow> v)"

section \<open>The world outside the process\<close>

text \<open>What a Kafka record carries, and what a Redis key holds, as the value that was marshalled.\<close>

datatype Message = MSagaEvent SagaEvent | MJson json

datatype RedisValue = RSaga SagaInstance | RText string

record World =
  saga_instances :: "SagaInstance list"
  saga_steps :: "SagaStep list"
  outbox_events :: "OutboxEvent list"
  kafka_log :: "(string \<times> string \<times> Message) list"
  redis_keys :: "(string, RedisValue \<times> gotime option) gomap"
  clock :: gotime
  uuids_drawn :: nat
  faults :: "bool list"

record Env =
  uuid_New :: "nat \<Rightarrow> uuid"
  uuid_String :: "uuid \<Rightarrow> string"
  uuid_Parse :: "string \<Rightarrow> uuid option"
  decode_order :: "json \<Rightarrow> goerror + OrderSagaData"

text \<open>One external call: it fails when the schedule says so; past its end every call succeeds.\<close>

definition external_call :: "World \<Rightarrow> bool \<times> World" where
  "external_call w =
     (case faults w of [] \<Rightarrow> (False, w) | f # fs \<Rightarrow> (f, w\<lparr>faults := fs\<rparr>))"

definition new_uuid :: "Env \<Rightarrow> World \<Rightarrow> uuid \<times> World" where
  "new_uuid E w = (uuid_New E (uuids_drawn w), w\<lparr>uuids_drawn := Suc (uuids_drawn w)\<rparr>)"

end
