(* ===== verification/Saga_Repository.thy ===== *)
theory Saga_Repository
  imports Saga_Models
begin

text \<open>
  The PostgreSQL repositories, \<open>internal/repository/saga_repository.go\<close> and \<open>outbox_repository.go\<close>.
  Each method runs the SQL statement of its source on the tables of the \<open>World\<close>: an \<open>INSERT\<close> writes
  the listed columns and leaves the others null, an \<open>UPDATE\<close> writes the columns of its \<open>SET\<close> clause,
  and the primary keys, the unique idempotency key and the foreign key of
  \<open>infrastructure/docker/postgres/init.sql\<close> are enforced. Any statement can fail
  (\<open>external_call\<close>) and then changes no table. The trigger that stamps \<open>updated_at\<close> with the
  server's time is left out: the callers stamp it themselves. The two reports with an average
  (\<open>GetSagaMetrics\<close>, \<open>GetAverageSagaDuration\<close>) are not modelled. Rows that tie in an \<open>ORDER BY\<close> come in table order.
  An error is the fixed part of its message.

  The interface \<open>row_table\<close> states what the methods that address one row by its key promise; it is
  interpreted on the sagas, the steps and the outbox events.
\<close>

section \<open>Saga rows\<close>

definition repo_Create :: "SagaInstance \<Rightarrow> World \<Rightarrow> goerror option \<times> World" where
  "repo_Create saga w0 =
     (let (failed, w) = external_call w0 in
      if failed then (Some ''failed to create saga'', w)
      else if si_ID saga \<in> si_ID ` set (saga_instances w) \<or>
              (si_IdempotencyKey saga \<noteq> None \<and>
               si_IdempotencyKey saga \<in> si_IdempotencyKey ` set (saga_instances w))
      then (Some ''saga with idempotency key already exists'', w)
      else (None, w\<lparr>saga_instances := saga_instances w @
              [saga\<lparr>si_CompletedAt := None, si_ErrorMessage := None\<rparr>]\<rparr>))"

definition repo_GetByID :: "uuid \<Rightarrow> World \<Rightarrow> (goerror + SagaInstance) \<times> World" where
  "repo_GetByID i w0 =
     (let (failed, w) = external_call w0 in
      if failed then (Inl ''failed to get saga'', w)
      else case find (\<lambda>s. si_ID s = i) (saga_instances w) of
             None \<Rightarrow> (Inl ''saga not found'', w)
           | Some saga \<Rightarrow> (Inr saga, w))"

definition repo_GetByIdempotencyKey :: "string \<Rightarrow> World \<Rightarrow> (goerror + SagaInstance) \<times> World" where
  "repo_GetByIdempotencyKey key w0 =
     (let (failed, w) = external_call w0 in
      if failed then (Inl ''failed to get saga by idempotency key'', w)
      else case find (\<lambda>s. si_IdempotencyKey s = Some key) (saga_instances w) of
             None \<Rightarrow> (Inl ''saga not found with idempotency key'', w)
           | Some saga \<Rightarrow> (Inr saga, w))"

text \<open>The columns that the \<open>UPDATE\<close> of a saga writes.\<close>

definition saga_set :: "SagaInstance \<Rightarrow> SagaInstance \<Rightarrow> SagaInstance" where
  "saga_set saga row =
     row\<lparr>si_SagaData := si_SagaData saga, si_Status := si_Status saga,
         si_CurrentStep := si_CurrentStep saga, si_UpdatedAt := si_UpdatedAt saga,
         si_CompletedAt := si_CompletedAt saga, si_ErrorMessage := si_ErrorMessage saga,
         si_RetryCount := si_RetryCount saga\<rparr>"

definition repo_Update :: "SagaInstance \<Rightarrow> World \<Rightarrow> goerror option \<times> World" where
  "repo_Update saga w0 =
     (let (failed, w) = external_call w0 in
      if failed then (Some ''failed to update saga'', w)
      else if si_ID saga \<notin> si_ID ` set (saga_instances w) then (Some ''saga not found'', w)
      else (None, w\<lparr>saga_instances :=
              map (\<lambda>row. if si_ID row = si_ID saga then saga_set saga row else row)
                (saga_instances w)\<rparr>))"

text \<open>Deleting a saga deletes its steps (\<open>ON DELETE CASCADE\<close>).\<close>

definition delete_sagas :: "(SagaInstance \<Rightarrow> bool) \<Rightarrow> World \<Rightarrow> World" where
  "delete_sagas P w =
     w\<lparr>saga_instances := filter (\<lambda>s. \<not> P s) (saga_instances w),
       saga_steps := filter (\<lambda>t. \<not> (\<exists>s \<in> set (saga_instances w). P s \<and> si_ID s = ss_SagaID t))
         (saga_steps w)\<rparr>"

definition repo_Delete :: "uuid \<Rightarrow> World \<Rightarrow> goerror option \<times> World" where
  "repo_Delete i w0 =
     (let (failed, w) = external_call w0 in
      if failed then (Some ''failed to delete saga'', w)
      else if i \<notin> si_ID ` set (saga_instances w) then (Some ''saga not found'', w)
      else (None, delete_sagas (\<lambda>s. si_ID s = i) w))"

definition repo_List ::
  "int \<Rightarrow> int \<Rightarrow> SagaStatus option \<Rightarrow> World \<Rightarrow> (goerror + SagaInstance list \<times> int) \<times> World" where
  "repo_List limit offset status w0 =
     (let (failed, w1) = external_call w0;
          matching = filter (\<lambda>s. case status of None \<Rightarrow> True | Some st \<Rightarrow> si_Status s = st)
            (saga_instances w1)
      in if failed then (Inl ''failed to count sagas'', w1)
         else let (failed', w2) = external_call w1 in
           if failed' \<or> limit < 0 \<or> offset < 0 then (Inl ''failed to list sagas'', w2)
           else (Inr (take (nat limit) (drop (nat offset)
                   (sort_key (\<lambda>s. - si_CreatedAt s) matching)), int (length matching)), w2))"

definition repo_ListByCorrelationID ::
  "string \<Rightarrow> World \<Rightarrow> (goerror + SagaInstance list) \<times> World" where
  "repo_ListByCorrelationID correlationID w0 =
     (let (failed, w) = external_call w0 in
      if failed then (Inl ''failed to list sagas by correlation ID'', w)
      else (Inr (sort_key (\<lambda>s. - si_CreatedAt s)
              (filter (\<lambda>s. si_CorrelationID s = Some correlationID) (saga_instances w))), w))"

definition repo_CountSagasByStatus :: "SagaStatus \<Rightarrow> World \<Rightarrow> (goerror + int) \<times> World" where
  "repo_CountSagasByStatus status w0 =
     (let (failed, w) = external_call w0 in
      if failed then (Inl ''failed to count sagas by status'', w)
      else (Inr (int (length (filter (\<lambda>s. si_Status s = status) (saga_instances w)))), w))"

definition repo_CountSagasByType :: "string \<Rightarrow> World \<Rightarrow> (goerror + int) \<times> World" where
  "repo_CountSagasByType sagaType w0 =
     (let (failed, w) = external_call w0 in
      if failed then (Inl ''failed to count sagas by type'', w)
      else (Inr (int (length (filter (\<lambda>s. si_SagaType s = sagaType) (saga_instances w)))), w))"

text \<open>A null \<open>completed_at\<close> is not before anything.\<close>

definition repo_DeleteCompletedSagasBefore :: "gotime \<Rightarrow> World \<Rightarrow> (goerror + int) \<times> World" where
  "repo_DeleteCompletedSagasBefore before w0 =
     (let (failed, w) = external_call w0;
          P = (\<lambda>s. si_Status s = SagaStatusCompleted \<and>
                 (case si_CompletedAt s of None \<Rightarrow> False | Some t \<Rightarrow> t < before))
      in if failed then (Inl ''failed to delete completed sagas'', w)
         else (Inr (int (length (filter P (saga_instances w)))), delete_sagas P w))"

definition repo_DeleteFailedSagasBefore :: "gotime \<Rightarrow> World \<Rightarrow> (goerror + int) \<times> World" where
  "repo_DeleteFailedSagasBefore before w0 =
     (let (failed, w) = external_call w0;
          P = (\<lambda>s. si_Status s = SagaStatusFailed \<and> si_UpdatedAt s < before)
      in if failed then (Inl ''failed to delete failed sagas'', w)
         else (Inr (int (length (filter P (saga_instances w)))), delete_sagas P w))"

section \<open>Step rows\<close>

definition repo_CreateStep :: "SagaStep \<Rightarrow> World \<Rightarrow> goerror option \<times> World" where
  "repo_CreateStep step w0 =
     (let (failed, w) = external_call w0 in
      if failed \<or> ss_ID step \<in> ss_ID ` set (saga_steps w) \<or>
         ss_SagaID step \<notin> si_ID ` set (saga_instances w)
      then (Some ''failed to create saga step'', w)
      else (None, w\<lparr>saga_steps := saga_steps w @
              [step\<lparr>ss_OutputData := JNull, ss_ErrorMessage := None, ss_StartedAt := None,
                    ss_CompletedAt := None, ss_CompensationData := JNull\<rparr>]\<rparr>))"

text \<open>
  The JSON columns of a step are scanned into \<open>json.RawMessage\<close>, which \<open>database/sql\<close> refuses for \<open>NULL\<close>. \<open>JNull\<close> in
  a step is \<open>NULL\<close>: no operation stores the JSON value \<open>null\<close> there.
\<close>

definition scan_fails :: "SagaStep \<Rightarrow> bool" where
  "scan_fails t = (ss_InputData t = JNull \<or> ss_OutputData t = JNull \<or> ss_CompensationData t = JNull)"

definition repo_GetStep :: "uuid \<Rightarrow> World \<Rightarrow> (goerror + SagaStep) \<times> World" where
  "repo_GetStep i w0 =
     (let (failed, w) = external_call w0 in
      if failed then (Inl ''failed to get saga step'', w)
      else case find (\<lambda>t. ss_ID t = i) (saga_steps w) of
             None \<Rightarrow> (Inl ''saga step not found'', w)
           | Some step \<Rightarrow> (if scan_fails step then Inl ''failed to get saga step'' else Inr step, w))"

definition repo_GetSteps :: "uuid \<Rightarrow> World \<Rightarrow> (goerror + SagaStep list) \<times> World" where
  "repo_GetSteps sagaID w0 =
     (let (failed, w) = external_call w0 in
      if failed then (Inl ''failed to get saga steps'', w)
      else
        (let steps = sort_key ss_StepOrder (filter (\<lambda>t. ss_SagaID t = sagaID) (saga_steps w)) in
         if list_ex scan_fails steps then (Inl ''failed to scan saga step'', w) else (Inr steps, w)))"

text \<open>The columns that the \<open>UPDATE\<close> of a step writes.\<close>

definition step_set :: "SagaStep \<Rightarrow> SagaStep \<Rightarrow> SagaStep" where
  "step_set step row =
     row\<lparr>ss_Status := ss_Status step, ss_InputData := ss_InputData step,
         ss_OutputData := ss_OutputData step, ss_ErrorMessage := ss_ErrorMessage step,
         ss_StartedAt := ss_StartedAt step, ss_CompletedAt := ss_CompletedAt step,
         ss_RetryCount := ss_RetryCount step, ss_CompensationData := ss_CompensationData step\<rparr>"

definition repo_UpdateStep :: "SagaStep \<Rightarrow> World \<Rightarrow> goerror option \<times> World" where
  "repo_UpdateStep step w0 =
     (let (failed, w) = external_call w0 in
      if failed then (Some ''failed to update saga step'', w)
      else if ss_ID step \<notin> ss_ID ` set (saga_steps w) then (Some ''saga step not found'', w)
      else (None, w\<lparr>saga_steps :=
              map (\<lambda>row. if ss_ID row = ss_ID step then step_set step row else row)
                (saga_steps w)\<rparr>))"

definition repo_DeleteStep :: "uuid \<Rightarrow> World \<Rightarrow> goerror option \<times> World" where
  "repo_DeleteStep i w0 =
     (let (failed, w) = external_call w0 in
      if failed then (Some ''failed to delete saga step'', w)
      else if i \<notin> ss_ID ` set (saga_steps w) then (Some ''saga step not found'', w)
      else (None, w\<lparr>saga_steps := filter (\<lambda>t. ss_ID t \<noteq> i) (saga_steps w)\<rparr>))"

section \<open>Outbox rows\<close>

definition outbox_CreateEvent :: "OutboxEvent \<Rightarrow> World \<Rightarrow> goerror option \<times> World" where
  "outbox_CreateEvent event w0 =
     (let (failed, w) = external_call w0 in
      if failed \<or> oe_ID event \<in> oe_ID ` set (outbox_events w)
      then (Some ''failed to create outbox event'', w)
      else (None, w\<lparr>outbox_events := outbox_events w @ [event\<lparr>oe_ProcessedAt := None\<rparr>]\<rparr>))"

definition outbox_GetEvent :: "uuid \<Rightarrow> World \<Rightarrow> (goerror + OutboxEvent) \<times> World" where
  "outbox_GetEvent i w0 =
     (let (failed, w) = external_call w0 in
      if failed then (Inl ''failed to get outbox event'', w)
      else case find (\<lambda>e. oe_ID e = i) (outbox_events w) of
             None \<Rightarrow> (Inl ''outbox event not found'', w)
           | Some event \<Rightarrow> (Inr event, w))"

definition event_set :: "OutboxEvent \<Rightarrow> OutboxEvent \<Rightarrow> OutboxEvent" where
  "event_set event row =
     row\<lparr>oe_ProcessedAt := oe_ProcessedAt event, oe_Status := oe_Status event,
         oe_RetryCount := oe_RetryCount event\<rparr>"

definition outbox_UpdateEvent :: "OutboxEvent \<Rightarrow> World \<Rightarrow> goerror option \<times> World" where
  "outbox_UpdateEvent event w0 =
     (let (failed, w) = external_call w0 in
      if failed then (Some ''failed to update outbox event'', w)
      else if oe_ID event \<notin> oe_ID ` set (outbox_events w) then (Some ''outbox event not found'', w)
      else (None, w\<lparr>outbox_events :=
              map (\<lambda>row. if oe_ID row = oe_ID event then event_set event row else row)
                (outbox_events w)\<rparr>))"

definition outbox_DeleteEvent :: "uuid \<Rightarrow> World \<Rightarrow> goerror option \<times> World" where
  "outbox_DeleteEvent i w0 =
     (let (failed, w) = external_call w0 in
      if failed then (Some ''failed to delete outbox event'', w)
      else if i \<notin> oe_ID ` set (outbox_events w) then (Some ''outbox event not found'', w)
      else (None, w\<lparr>outbox_events := filter (\<lambda>e. oe_ID e \<noteq> i) (outbox_events w)\<rparr>))"

definition outbox_GetPendingEvents :: "int \<Rightarrow> World \<Rightarrow> (goerror + OutboxEvent list) \<times> World" where
  "outbox_GetPendingEvents limit w0 =
     (let (failed, w) = external_call w0 in
      if failed \<or> limit < 0 then (Inl ''failed to get pending outbox events'', w)
      else (Inr (take (nat limit) (sort_key oe_CreatedAt
              (filter (\<lambda>e. oe_Status e = ''PENDING'') (outbox_events w)))), w))"

definition outbox_GetEventsByStatus ::
  "string \<Rightarrow> int \<Rightarrow> int \<Rightarrow> World \<Rightarrow> (goerror + OutboxEvent list) \<times> World" where
  "outbox_GetEventsByStatus status limit offset w0 =
     (let (failed, w) = external_call w0 in
      if failed \<or> limit < 0 \<or> offset < 0 then (Inl ''failed to get outbox events by status'', w)
      else (Inr (take (nat limit) (drop (nat offset) (sort_key (\<lambda>e. - oe_CreatedAt e)
              (filter (\<lambda>e. oe_Status e = status) (outbox_events w))))), w))"

definition outbox_GetEventsByAggregateID ::
  "string \<Rightarrow> World \<Rightarrow> (goerror + OutboxEvent list) \<times> World" where
  "outbox_GetEventsByAggregateID aggregateID w0 =
     (let (failed, w) = external_call w0 in
      if failed then (Inl ''failed to get outbox events by aggregate ID'', w)
      else (Inr (sort_key oe_CreatedAt
              (filter (\<lambda>e. oe_AggregateID e = aggregateID) (outbox_events w))), w))"

definition outbox_CountEventsByStatus :: "string \<Rightarrow> World \<Rightarrow> (goerror + int) \<times> World" where
  "outbox_CountEventsByStatus status w0 =
     (let (failed, w) = external_call w0 in
      if failed then (Inl ''failed to count outbox events by status'', w)
      else (Inr (int (length (filter (\<lambda>e. oe_Status e = status) (outbox_events w)))), w))"

definition outbox_CountEventsByType :: "string \<Rightarrow> World \<Rightarrow> (goerror + int) \<times> World" where
  "outbox_CountEventsByType eventType w0 =
     (let (failed, w) = external_call w0 in
      if failed then (Inl ''failed to count outbox events by type'', w)
      else (Inr (int (length (filter (\<lambda>e. oe_EventType e = eventType) (outbox_events w)))), w))"

definition outbox_GetOldestPendingEvent ::
  "World \<Rightarrow> (goerror + OutboxEvent option) \<times> World" where
  "outbox_GetOldestPendingEvent w0 =
     (let (failed, w) = external_call w0 in
      if failed then (Inl ''failed to get oldest pending outbox event'', w)
      else case sort_key oe_CreatedAt
                  (filter (\<lambda>e. oe_Status e = ''PENDING'') (outbox_events w)) of
             [] \<Rightarrow> (Inr None, w)
           | event # _ \<Rightarrow> (Inr (Some event), w))"

definition outbox_DeleteProcessedEventsBefore :: "gotime \<Rightarrow> World \<Rightarrow> (goerror + int) \<times> World" where
  "outbox_DeleteProcessedEventsBefore before w0 =
     (let (failed, w) = external_call w0;
          P = (\<lambda>e. oe_Status e = ''PROCESSED'' \<and>
                 (case oe_ProcessedAt e of None \<Rightarrow> False | Some t \<Rightarrow> t < before))
      in if failed then (Inl ''failed to delete processed outbox events'', w)
         else (Inr (int (length (filter P (outbox_events w)))),
               w\<lparr>outbox_events := filter (\<lambda>e. \<not> P e) (outbox_events w)\<rparr>))"

definition outbox_DeleteFailedEventsBefore :: "gotime \<Rightarrow> World \<Rightarrow> (goerror + int) \<times> World" where
  "outbox_DeleteFailedEventsBefore before w0 =
     (let (failed, w) = external_call w0;
          P = (\<lambda>e. oe_Status e = ''FAILED'' \<and> oe_CreatedAt e < before)
      in if failed then (Inl ''failed to delete failed outbox events'', w)
         else (Inr (int (length (filter P (outbox_events w)))),
               w\<lparr>outbox_events := filter (\<lambda>e. \<not> P e) (outbox_events w)\<rparr>))"

section \<open>What the row operations promise\<close>

text \<open>
  A table whose rows are read and written by primary key. \<open>frozen r row\<close> says that \<open>r\<close> and \<open>row\<close>
  agree on the columns that an \<open>UPDATE\<close> does not write; \<open>store r row\<close> is the row after the
  \<open>UPDATE\<close>.
\<close>

definition replace_row :: "('r \<Rightarrow> uuid) \<Rightarrow> 'r \<Rightarrow> 'r list \<Rightarrow> 'r list" where
  "replace_row key r rows = map (\<lambda>row. if key row = key r then r else row) rows"

lemma replace_row_keys [simp]: "map key (replace_row key r rows) = map key rows"
  by (auto simp: replace_row_def)

lemma set_replace_row:
  "set (replace_row key r rows) =
     {row \<in> set rows. key row \<noteq> key r} \<union> (if key r \<in> key ` set rows then {r} else {})"
  by (induction rows) (auto simp: replace_row_def)

lemma replace_row_subset: "x \<in> set (replace_row key r rows) \<Longrightarrow> x = r \<or> x \<in> set rows"
  by (auto simp: replace_row_def)

lemma replace_row_other:
  "x \<in> set rows \<Longrightarrow> key x \<noteq> key r \<Longrightarrow> x \<in> set (replace_row key r rows)"
  by (auto simp: replace_row_def)

lemma replace_row_key_image [simp]: "key ` set (replace_row key r rows) = key ` set rows"
  by (metis list.set_map replace_row_keys)

lemma distinct_key_unique:
  "distinct (map key rows) \<Longrightarrow> x \<in> set rows \<Longrightarrow> y \<in> set rows \<Longrightarrow> key x = key y \<Longrightarrow> x = y"
  by (metis distinct_map inj_onD)

text \<open>Rewriting some of the rows one after the other is one map over the table.\<close>

lemma replace_rows_map:
  assumes "distinct (map key rows)" "set ts \<subseteq> set rows" "distinct (map key ts)"
    and f: "\<And>r. key (f r) = key r"
  shows "fold (\<lambda>t. replace_row key (f t)) ts rows = map (\<lambda>r. if r \<in> set ts then f r else r) rows"
  using assms(1-3)
proof (induction ts arbitrary: rows)
  case (Cons t ts)
  let ?rows = "replace_row key (f t) rows"
  have ne: "key x \<noteq> key t" if "x \<in> set ts" for x
    using Cons.prems(3) that by (metis distinct.simps(2) image_eqI list.set_map list.simps(9))
  have sub: "set ts \<subseteq> set ?rows"
  proof
    fix x assume x: "x \<in> set ts"
    then show "x \<in> set ?rows"
      using Cons.prems(2) ne[OF x] by (intro replace_row_other) (auto simp: f)
  qed
  have "fold (\<lambda>t. replace_row key (f t)) (t # ts) rows =
      map (\<lambda>r. if r \<in> set ts then f r else r) ?rows"
    using Cons.IH[OF _ sub] Cons.prems by simp
  also have "\<dots> = map (\<lambda>r. if r \<in> set (t # ts) then f r else r) rows"
  proof -
    have ft: "f t \<notin> set ts" using ne[of "f t"] f[of t] by auto
    have "(if (if key r = key (f t) then f t else r) \<in> set ts
            then f (if key r = key (f t) then f t else r) else (if key r = key (f t) then f t else r)) =
          (if r \<in> set (t # ts) then f r else r)" if r: "r \<in> set rows" for r
    proof (cases "key r = key t")
      case True
      then have "r = t" using Cons.prems(1,2) r distinct_key_unique[of key rows r t] by simp
      then show ?thesis using ft f by simp
    next
      case False
      then show ?thesis using f by auto
    qed
    then show ?thesis unfolding replace_row_def map_map comp_def by (intro map_cong) auto
  qed
  finally show ?case .
qed simp

locale row_table =
  fixes rows :: "World \<Rightarrow> 'r list"
    and key :: "'r \<Rightarrow> uuid"
    and get :: "uuid \<Rightarrow> World \<Rightarrow> (goerror + 'r) \<times> World"
    and upd :: "'r \<Rightarrow> World \<Rightarrow> goerror option \<times> World"
    and store :: "'r \<Rightarrow> 'r \<Rightarrow> 'r"
    and frozen :: "'r \<Rightarrow> 'r \<Rightarrow> bool"
  assumes get_rows: "get i w = (x, w') \<Longrightarrow> rows w' = rows w"
    and get_found: "get i w = (Inr r, w') \<Longrightarrow> find (\<lambda>row. key row = i) (rows w) = Some r"
    and upd_err: "upd r w = (Some e, w') \<Longrightarrow> rows w' = rows w"
    and upd_ok: "upd r w = (None, w') \<Longrightarrow>
      key r \<in> key ` set (rows w) \<and>
      rows w' = map (\<lambda>row. if key row = key r then store r row else row) (rows w)"
    and store_key: "key (store r row) = key row"
    and store_frozen: "frozen r row \<Longrightarrow> key r = key row \<and> store r row = r"
begin

lemma got_row: "get i w = (Inr r, w') \<Longrightarrow> r \<in> set (rows w) \<and> key r = i"
  using get_found[of i w r w'] by (auto simp: find_Some_iff)

lemma upd_keys: "upd r w = (e, w') \<Longrightarrow> map key (rows w') = map key (rows w)"
  by (cases e) (auto dest!: upd_err upd_ok simp: store_key)

lemma upd_replaces:
  assumes upd: "upd r w = (None, w')" and d: "distinct (map key (rows w))"
    and row: "row \<in> set (rows w)" and fr: "frozen r row"
  shows "rows w' = replace_row key r (rows w) \<and> r \<in> set (rows w')"
proof -
  from store_frozen[OF fr] have k: "key r = key row" and st: "store r row = r" by auto
  have "store r x = r" if "x \<in> set (rows w)" "key x = key r" for x
    using distinct_key_unique[OF d row that(1)] that(2) k st by simp
  then have eq: "rows w' = replace_row key r (rows w)"
    unfolding replace_row_def conjunct2[OF upd_ok[OF upd]] by (intro map_cong) auto
  moreover have "r \<in> set (rows w')" using row k by (auto simp: eq set_replace_row)
  ultimately show ?thesis by simp
qed

text \<open>Read your writes: what a \<open>get\<close> returns after a successful \<open>upd\<close>.\<close>

lemma get_after_upd:
  assumes upd: "upd r w = (None, w')" and d: "distinct (map key (rows w))"
    and row: "row \<in> set (rows w)" and fr: "frozen r row"
    and get: "get (key r) w' = (Inr r', w'')"
  shows "r' = r"
proof -
  have "r \<in> set (rows w')" by (rule conjunct2[OF upd_replaces[OF upd d row fr]])
  moreover have "distinct (map key (rows w'))" using upd_keys[OF upd] d by simp
  ultimately show ?thesis using got_row[OF get] by (metis distinct_key_unique)
qed

lemma get_frame:
  assumes upd: "upd r w = (e, w')" and d: "distinct (map key (rows w))"
    and i: "i \<noteq> key r" and get: "get i w' = (Inr r', w'')"
  shows "r' \<in> set (rows w) \<and> key r' = i"
  using got_row[OF get] i upd
  by (cases e) (auto dest!: upd_err upd_ok simp: store_key split: if_splits)

end

definition saga_frozen :: "SagaInstance \<Rightarrow> SagaInstance \<Rightarrow> bool" where
  "saga_frozen s row \<longleftrightarrow>
     si_ID s = si_ID row \<and> si_SagaType s = si_SagaType row \<and> si_CreatedAt s = si_CreatedAt row \<and>
     si_MaxRetries s = si_MaxRetries row \<and> si_CorrelationID s = si_CorrelationID row \<and>
     si_IdempotencyKey s = si_IdempotencyKey row"

definition step_frozen :: "SagaStep \<Rightarrow> SagaStep \<Rightarrow> bool" where
  "step_frozen t row \<longleftrightarrow>
     ss_ID t = ss_ID row \<and> ss_SagaID t = ss_SagaID row \<and> ss_StepName t = ss_StepName row \<and>
     ss_StepOrder t = ss_StepOrder row"

definition event_frozen :: "OutboxEvent \<Rightarrow> OutboxEvent \<Rightarrow> bool" where
  "event_frozen e row \<longleftrightarrow>
     oe_ID e = oe_ID row \<and> oe_AggregateID e = oe_AggregateID row \<and>
     oe_AggregateType e = oe_AggregateType row \<and> oe_EventType e = oe_EventType row \<and>
     oe_EventData e = oe_EventData row \<and> oe_CreatedAt e = oe_CreatedAt row \<and>
     oe_CorrelationID e = oe_CorrelationID row \<and> oe_CausationID e = oe_CausationID row \<and>
     oe_Version e = oe_Version row"

lemma external_call_tables [simp]:
  "external_call w = (b, w') \<Longrightarrow> saga_instances w' = saga_instances w"
  "external_call w = (b, w') \<Longrightarrow> saga_steps w' = saga_steps w"
  "external_call w = (b, w') \<Longrightarrow> outbox_events w' = outbox_events w"
  "external_call w = (b, w') \<Longrightarrow> kafka_log w' = kafka_log w"
  "external_call w = (b, w') \<Longrightarrow> redis_keys w' = redis_keys w"
  "external_call w = (b, w') \<Longrightarrow> clock w' = clock w"
  by (auto simp: external_call_def split: list.splits)

lemma external_call_fault_free: "faults w = [] \<Longrightarrow> external_call w = (False, w)"
  by (simp add: external_call_def)

interpretation saga_table: row_table saga_instances si_ID repo_GetByID repo_Update saga_set saga_frozen
  by unfold_locales
     (auto simp: repo_GetByID_def repo_Update_def saga_set_def saga_frozen_def
           split: prod.splits if_splits option.splits)

interpretation step_table: row_table saga_steps ss_ID repo_GetStep repo_UpdateStep step_set step_frozen
  by unfold_locales
     (auto simp: repo_GetStep_def repo_UpdateStep_def step_set_def step_frozen_def
           split: prod.splits if_splits option.splits)

interpretation event_table: row_table outbox_events oe_ID outbox_GetEvent outbox_UpdateEvent event_set
  event_frozen
  by unfold_locales
     (auto simp: outbox_GetEvent_def outbox_UpdateEvent_def event_set_def event_frozen_def
           split: prod.splits if_splits option.splits)

end
