(* ===== verification/Saga_Services.thy ===== *)
theory Saga_Services
  imports Saga_Repository
begin

text \<open>
  The services the orchestrator calls, \<open>internal/services/event_service.go\<close>,
  \<open>idempotency_service.go\<close> and \<open>compensation_service.go\<close>, with the Kafka producer of
  \<open>internal/infrastructure/kafka.go\<close>. Kafka is an append-only log and Redis a map of keys with an
  expiry. A production can fail before the broker has the record, or time out after it has it.
  Logging and tracing have no effect on the model.
\<close>

section \<open>Event service\<close>

definition KafkaProducer_Produce ::
  "string \<Rightarrow> string \<Rightarrow> Message \<Rightarrow> World \<Rightarrow> goerror option \<times> World" where
  "KafkaProducer_Produce topic key v w0 =
     (let (failed, w1) = external_call w0 in
      if failed then (Some ''failed to produce message'', w1)
      else let (refused, w2) = external_call w1 in
        if refused then (Some ''delivery failed'', w2)
        else let w3 = w2\<lparr>kafka_log := kafka_log w2 @ [(topic, key, v)]\<rparr>;
                 (late, w4) = external_call w3 in
          if late then (Some ''message delivery timeout'', w4) else (None, w4))"

definition PublishEventWithHeaders ::
  "string \<Rightarrow> string \<Rightarrow> Message \<Rightarrow> World \<Rightarrow> goerror option \<times> World" where
  "PublishEventWithHeaders topic key v w0 =
     (let (err, w) = KafkaProducer_Produce topic key v w0 in
      case err of
        Some e \<Rightarrow> (Some (''failed to publish event to topic '' @ topic @ '': '' @ e), w)
      | None \<Rightarrow> (None, w))"

definition PublishEvent :: "string \<Rightarrow> string \<Rightarrow> Message \<Rightarrow> World \<Rightarrow> goerror option \<times> World" where
  "PublishEvent topic key v w = PublishEventWithHeaders topic key v w"

section \<open>Idempotency service\<close>

definition idempotency_prefix :: string where
  "idempotency_prefix = ''idempotency:''"

text \<open>
  What Redis has under a key now. A positive \<open>ttl\<close> makes the key expire, 0 keeps it for ever and
  -1 (\<open>redis.KeepTTL\<close>) keeps the expiry it has.
\<close>

definition redis_lookup :: "string \<Rightarrow> World \<Rightarrow> (RedisValue \<times> gotime option) option" where
  "redis_lookup k w =
     (case map_of (redis_keys w) k of
        None \<Rightarrow> None
      | Some (v, None) \<Rightarrow> Some (v, None)
      | Some (v, Some t) \<Rightarrow> if clock w < t then Some (v, Some t) else None)"

definition redis_expiry :: "string \<Rightarrow> duration \<Rightarrow> World \<Rightarrow> gotime option" where
  "redis_expiry k ttl w =
     (if ttl > 0 then Some (clock w + ttl)
      else if ttl = -1 then (case redis_lookup k w of None \<Rightarrow> None | Some (_, e) \<Rightarrow> e)
      else None)"

definition StoreResult ::
  "string \<Rightarrow> RedisValue \<Rightarrow> duration \<Rightarrow> World \<Rightarrow> goerror option \<times> World" where
  "StoreResult key v ttl w0 =
     (let (failed, w) = external_call w0; k = idempotency_prefix @ key in
      if failed then (Some ''failed to store idempotency result'', w)
      else (None, w\<lparr>redis_keys := go_set k (v, redis_expiry k ttl w) (redis_keys w)\<rparr>))"

definition GetResult :: "string \<Rightarrow> World \<Rightarrow> (goerror + RedisValue) \<times> World" where
  "GetResult key w0 =
     (let (failed, w) = external_call w0 in
      if failed then (Inl ''failed to get idempotency result'', w)
      else case redis_lookup (idempotency_prefix @ key) w of
             None \<Rightarrow> (Inl ''idempotency key not found'', w)
           | Some (v, _) \<Rightarrow> (Inr v, w))"

definition DeleteResult :: "string \<Rightarrow> World \<Rightarrow> goerror option \<times> World" where
  "DeleteResult key w0 =
     (let (failed, w) = external_call w0 in
      if failed then (Some ''failed to delete idempotency result'', w)
      else (None, w\<lparr>redis_keys := go_del (idempotency_prefix @ key) (redis_keys w)\<rparr>))"

definition IsProcessed :: "string \<Rightarrow> World \<Rightarrow> (goerror + bool) \<times> World" where
  "IsProcessed key w0 =
     (let (failed, w) = external_call w0 in
      if failed then (Inl ''failed to check idempotency key'', w)
      else (Inr (redis_lookup (idempotency_prefix @ key) w \<noteq> None), w))"

text \<open>\<open>SET NX\<close>: only one caller gets the key until it expires.\<close>

definition MarkAsProcessing :: "string \<Rightarrow> duration \<Rightarrow> World \<Rightarrow> goerror option \<times> World" where
  "MarkAsProcessing key ttl w0 =
     (let (failed, w) = external_call w0; k = idempotency_prefix @ ''processing:'' @ key in
      if failed then (Some ''failed to mark as processing'', w)
      else if redis_lookup k w \<noteq> None then (Some ''idempotency key already being processed'', w)
      else (None, w\<lparr>redis_keys := go_set k (RText ''processing'', redis_expiry k ttl w)
                    (redis_keys w)\<rparr>))"

text \<open>
  \<open>TTL\<close> answers in whole seconds, rounded to the nearest; -1 is a key without expiry and -2 no key.
  A \<open>SCAN\<close> is the list of pages Redis returned until the cursor was 0.
\<close>

definition redis_ttl :: "string \<Rightarrow> World \<Rightarrow> duration" where
  "redis_ttl k w =
     (case redis_lookup k w of
        None \<Rightarrow> -2
      | Some (_, None) \<Rightarrow> -1
      | Some (_, Some t) \<Rightarrow> ((t - clock w + 500000000) div second) * second)"

fun cleanup_keys :: "string list \<Rightarrow> World \<Rightarrow> World" where
  "cleanup_keys [] w = w"
| "cleanup_keys (k # ks) w0 =
     (let (failed, w) = external_call w0; ttl = redis_ttl k w in
      if failed then cleanup_keys ks w
      else if ttl = -1 \<or> ttl = -2 then cleanup_keys ks w
      else if ttl < second then
        (let (failed', w') = external_call w in
         if failed' then cleanup_keys ks w'
         else cleanup_keys ks (w'\<lparr>redis_keys := go_del k (redis_keys w')\<rparr>))
      else cleanup_keys ks w)"

fun CleanupExpiredKeys :: "string list list \<Rightarrow> World \<Rightarrow> goerror option \<times> World" where
  "CleanupExpiredKeys [] w = (None, w)"
| "CleanupExpiredKeys (page # pages) w0 =
     (let (failed, w) = external_call w0 in
      if failed then (Some ''failed to scan idempotency keys'', w)
      else CleanupExpiredKeys pages (cleanup_keys page w))"

text \<open>\<open>contains\<close> of the source, written twice there with the same body: it is true of a proper
  prefix, of a proper suffix and of the string itself.\<close>

definition contains :: "string \<Rightarrow> string \<Rightarrow> bool" where
  "contains s substr =
     (length s \<ge> length substr \<and>
      (s = substr \<or>
       (length s > length substr \<and>
        (take (length substr) s = substr \<or> drop (length s - length substr) s = substr))))"

record KeyStats =
  total_keys :: int
  processing_keys :: int
  completed_keys :: int

fun GetStats_loop :: "string list list \<Rightarrow> int \<Rightarrow> int \<Rightarrow> World \<Rightarrow> (goerror + KeyStats) \<times> World" where
  "GetStats_loop [] t p w =
     (Inr \<lparr>total_keys = t, processing_keys = p, completed_keys = t - p\<rparr>, w)"
| "GetStats_loop (page # pages) t p w0 =
     (let (failed, w) = external_call w0 in
      if failed then (Inl ''failed to scan idempotency keys'', w)
      else GetStats_loop pages (t + int (length page))
             (p + int (length (filter (\<lambda>k. contains k ''processing:'') page))) w)"

definition GetStats :: "string list list \<Rightarrow> World \<Rightarrow> (goerror + KeyStats) \<times> World" where
  "GetStats pages w = GetStats_loop pages 0 0 w"

section \<open>Compensation service\<close>

text \<open>The encoder sorts the keys of a map; a UUID is encoded as its string.\<close>

definition mustMarshal :: "jobject \<Rightarrow> json" where
  "mustMarshal m = JObj (sort_key fst m)"

definition encode_item :: "OrderItem \<Rightarrow> json" where
  "encode_item i =
     JObj [(''sku'', JStr (oi_SKU i)), (''quantity'', JNum (itoa (oi_Quantity i))),
           (''price'', JNum (oi_Price i))]"

definition publishCompensationEvent ::
  "Env \<Rightarrow> SagaEvent \<Rightarrow> World \<Rightarrow> goerror option \<times> World" where
  "publishCompensationEvent E event w =
     PublishEvent ''saga-events'' (uuid_String E (ev_SagaID event)) (MSagaEvent event) w"

definition extractActionFromStepName :: "string \<Rightarrow> string" where
  "extractActionFromStepName stepName =
     (case map_of
        [(''reserve-inventory'', ''inventory.reserve''),
         (''process-payment'', ''payment.charge''),
         (''send-confirmation'', ''notification.send''),
         (''process-refund'', ''payment.refund''),
         (''restore-inventory'', ''inventory.restore''),
         (''send-refund-notification'', ''notification.send-refund'')] stepName of
        Some action \<Rightarrow> action
      | None \<Rightarrow> stepName)"

definition IsCompensationRequired :: "SagaStep \<Rightarrow> bool" where
  "IsCompensationRequired step =
     (if ss_Status step \<noteq> StepStatusCompleted then False
      else case map_of
             [(''inventory.reserve'', True), (''payment.charge'', True),
              (''payment.hold'', True), (''notification.send'', False)]
             (extractActionFromStepName (ss_StepName step)) of
             Some required \<Rightarrow> required
           | None \<Rightarrow> True)"

definition getCompletedStepsForCompensation :: "SagaInstance \<Rightarrow> SagaStep list" where
  "getCompletedStepsForCompensation saga = []"

definition getCompensationAction :: "string \<Rightarrow> string \<Rightarrow> string" where
  "getCompensationAction sagaType stepName =
     (case map_of
        [(''order-processing'',
            [(''reserve-inventory'', ''inventory.release''),
             (''process-payment'', ''payment.refund''),
             (''send-confirmation'', ''notification.cancel'')]),
         (''payment-refund'',
            [(''process-refund'', ''payment.reverse-refund''),
             (''restore-inventory'', ''inventory.reserve''),
             (''send-refund-notification'', ''notification.cancel'')])] sagaType of
        None \<Rightarrow> ''''
      | Some sagaMap \<Rightarrow>
          (case map_of sagaMap stepName of Some action \<Rightarrow> action | None \<Rightarrow> ''''))"

definition addOrderProcessingCompensationData ::
  "Env \<Rightarrow> SagaInstance \<Rightarrow> SagaStep \<Rightarrow> jobject \<Rightarrow> goerror option \<times> jobject" where
  "addOrderProcessingCompensationData E saga step data =
     (case decode_order E (si_SagaData saga) of
        Inl e \<Rightarrow> (Some ''failed to unmarshal order saga data'', data)
      | Inr od \<Rightarrow>
          (let d1 = go_set ''order_id'' (JStr (uuid_String E (od_OrderID od))) data;
               d2 = go_set ''user_id'' (JStr (uuid_String E (od_UserID od))) d1
           in (None,
               if ss_StepName step = ''reserve-inventory'' then
                 go_set ''items'' (JArr (map encode_item (od_Items od))) d2
               else if ss_StepName step = ''process-payment'' then
                 go_set ''payment_method'' (JStr (od_PaymentMethod od))
                   (go_set ''currency'' (JStr (od_Currency od))
                     (go_set ''amount'' (JNum (od_TotalAmount od)) d2))
               else if ss_StepName step = ''send-confirmation'' then
                 go_set ''recipient'' (JStr (uuid_String E (od_UserID od))) d2
               else d2)))"

definition addPaymentRefundCompensationData ::
  "SagaInstance \<Rightarrow> SagaStep \<Rightarrow> jobject \<Rightarrow> goerror option \<times> jobject" where
  "addPaymentRefundCompensationData saga step data = (None, data)"

definition addSagaSpecificCompensationData ::
  "Env \<Rightarrow> SagaInstance \<Rightarrow> SagaStep \<Rightarrow> jobject \<Rightarrow> goerror option \<times> jobject" where
  "addSagaSpecificCompensationData E saga step data =
     (if si_SagaType saga = ''order-processing''
      then addOrderProcessingCompensationData E saga step data
      else if si_SagaType saga = ''payment-refund''
      then addPaymentRefundCompensationData saga step data
      else (None, data))"

text \<open>The step is returned as the caller's object is after the call.\<close>

definition CompensateStep ::
  "Env \<Rightarrow> SagaInstance \<Rightarrow> SagaStep \<Rightarrow> World \<Rightarrow> goerror option \<times> SagaStep \<times> World" where
  "CompensateStep E saga step w0 =
     (let compensationAction = getCompensationAction (si_SagaType saga) (ss_StepName step) in
      if compensationAction = '''' then (None, step, w0)
      else
        let data0 = [(''saga_id'', JStr (uuid_String E (si_ID saga))),
                     (''step_id'', JStr (uuid_String E (ss_ID step))),
                     (''step_name'', JStr (ss_StepName step)),
                     (''compensation_action'', JStr compensationAction),
                     (''original_data'', ss_OutputData step),
                     (''timestamp'', JTime (clock w0))];
            (err, data) = addSagaSpecificCompensationData E saga step data0;
            (eid, w1) = new_uuid E w0;
            event = \<lparr>ev_ID = eid, ev_SagaID = si_ID saga,
                     ev_EventType = ''step.'' @ compensationAction @ ''.compensate'',
                     ev_EventData = mustMarshal data, ev_Timestamp = clock w1,
                     ev_CorrelationID = stringValue (si_CorrelationID saga),
                     ev_CausationID = uuid_String E (ss_ID step)\<rparr>;
            (err', w2) = publishCompensationEvent E event w1
        in case err' of
             Some e \<Rightarrow> (Some ''failed to publish compensation event'', step, w2)
           | None \<Rightarrow> (None, step\<lparr>ss_CompensationData := mustMarshal data\<rparr>, w2))"

definition markCompensationCompleted ::
  "Env \<Rightarrow> SagaInstance \<Rightarrow> World \<Rightarrow> goerror option \<times> World" where
  "markCompensationCompleted E saga w0 =
     (let (eid, w1) = new_uuid E w0;
          event = \<lparr>ev_ID = eid, ev_SagaID = si_ID saga,
                   ev_EventType = ''saga.compensation.completed'',
                   ev_EventData = si_SagaData saga, ev_Timestamp = clock w1,
                   ev_CorrelationID = stringValue (si_CorrelationID saga),
                   ev_CausationID = uuid_String E (si_ID saga)\<rparr>;
          (err, w2) = publishCompensationEvent E event w1
      in (None, w2))"

text \<open>The loop runs from the last completed step to the first.\<close>

fun compensate_steps :: "Env \<Rightarrow> SagaInstance \<Rightarrow> SagaStep list \<Rightarrow> World \<Rightarrow> World" where
  "compensate_steps E saga [] w = w"
| "compensate_steps E saga (step # steps) w =
     compensate_steps E saga steps
       (if IsCompensationRequired step then snd (snd (CompensateStep E saga step w)) else w)"

definition StartCompensation ::
  "Env \<Rightarrow> SagaInstance \<Rightarrow> World \<Rightarrow> goerror option \<times> World" where
  "StartCompensation E saga w0 =
     (let (eid, w1) = new_uuid E w0;
          event = \<lparr>ev_ID = eid, ev_SagaID = si_ID saga,
                   ev_EventType = ''saga.compensation.started'',
                   ev_EventData = si_SagaData saga, ev_Timestamp = clock w1,
                   ev_CorrelationID = stringValue (si_CorrelationID saga),
                   ev_CausationID = uuid_String E (si_ID saga)\<rparr>;
          (err, w2) = publishCompensationEvent E event w1;
          completedSteps = getCompletedStepsForCompensation saga
      in if completedSteps = [] then markCompensationCompleted E saga w2
         else markCompensationCompleted E saga
                (compensate_steps E saga (rev completedSteps) w2))"

end
