(* ===== verification/Saga_Orchestrator.thy ===== *)
theory Saga_Orchestrator
  imports Saga_Services
begin

text \<open>
  The operations of the saga orchestrator: \<open>internal/orchestrator/orchestrator.go\<close> (create, read,
  list, compensate, retry), \<open>processor.go\<close> (the processing loop's body) and \<open>consumer.go\<close> (the
  handlers of Kafka events). An operation takes the world and returns what the Go method returns
  and the world after it; a handler reads the clock of the world once. The objects that a method
  changes in place are the locals of its definition, since every caller drops them afterwards.
  A Kafka value is what \<open>json.Unmarshal\<close> makes of it: \<open>None\<close> is a value it rejects.
\<close>

section \<open>Saga definitions\<close>

definition order_processing_definition :: SagaDefinition where
  "order_processing_definition =
     \<lparr>df_Type = ''order-processing'',
      df_Steps =
        [\<lparr>sd_Name = ''reserve-inventory'', sd_Order = 1, sd_Action = ''inventory.reserve'',
          sd_CompensationAction = ''inventory.release'', sd_Timeout = 30 * second,
          sd_MaxRetries = 3, sd_RetryDelay = 5 * second, sd_ContinueOnFailure = False,
          sd_Metadata = []\<rparr>,
         \<lparr>sd_Name = ''process-payment'', sd_Order = 2, sd_Action = ''payment.charge'',
          sd_CompensationAction = ''payment.refund'', sd_Timeout = 30 * second,
          sd_MaxRetries = 3, sd_RetryDelay = 5 * second, sd_ContinueOnFailure = False,
          sd_Metadata = []\<rparr>,
         \<lparr>sd_Name = ''send-confirmation'', sd_Order = 3, sd_Action = ''notification.send'',
          sd_CompensationAction = ''notification.cancel'', sd_Timeout = 15 * second,
          sd_MaxRetries = 2, sd_RetryDelay = 3 * second, sd_ContinueOnFailure = True,
          sd_Metadata = []\<rparr>],
      df_Timeout = 5 * minute, df_MaxRetries = 3, df_Metadata = []\<rparr>"

definition payment_refund_definition :: SagaDefinition where
  "payment_refund_definition =
     \<lparr>df_Type = ''payment-refund'',
      df_Steps =
        [\<lparr>sd_Name = ''process-refund'', sd_Order = 1, sd_Action = ''payment.refund'',
          sd_CompensationAction = ''payment.reverse-refund'', sd_Timeout = 30 * second,
          sd_MaxRetries = 3, sd_RetryDelay = 5 * second, sd_ContinueOnFailure = False,
          sd_Metadata = []\<rparr>,
         \<lparr>sd_Name = ''restore-inventory'', sd_Order = 2, sd_Action = ''inventory.restore'',
          sd_CompensationAction = ''inventory.reserve'', sd_Timeout = 15 * second,
          sd_MaxRetries = 2, sd_RetryDelay = 3 * second, sd_ContinueOnFailure = False,
          sd_Metadata = []\<rparr>,
         \<lparr>sd_Name = ''send-refund-notification'', sd_Order = 3,
          sd_Action = ''notification.send-refund'',
          sd_CompensationAction = ''notification.cancel'', sd_Timeout = 15 * second,
          sd_MaxRetries = 2, sd_RetryDelay = 3 * second, sd_ContinueOnFailure = True,
          sd_Metadata = []\<rparr>],
      df_Timeout = 3 * minute, df_MaxRetries = 3, df_Metadata = []\<rparr>"

definition sagaDefinitions :: "(string, SagaDefinition) gomap" where
  "sagaDefinitions =
     [(''order-processing'', order_processing_definition),
      (''payment-refund'', payment_refund_definition)]"

definition getStepDefinition :: "string \<Rightarrow> string \<Rightarrow> StepDefinition option" where
  "getStepDefinition sagaType stepName =
     (case map_of sagaDefinitions sagaType of
        None \<Rightarrow> None
      | Some definition \<Rightarrow> find (\<lambda>d. sd_Name d = stepName) (df_Steps definition))"

section \<open>Creating, reading, compensating and retrying sagas\<close>

definition publishEvent :: "Env \<Rightarrow> SagaEvent \<Rightarrow> World \<Rightarrow> goerror option \<times> World" where
  "publishEvent E event w =
     PublishEvent ''saga-events'' (uuid_String E (ev_SagaID event)) (MSagaEvent event) w"

fun createSagaSteps ::
  "Env \<Rightarrow> SagaInstance \<Rightarrow> StepDefinition list \<Rightarrow> World \<Rightarrow> goerror option \<times> World" where
  "createSagaSteps E saga [] w = (None, w)"
| "createSagaSteps E saga (stepDef # stepDefs) w0 =
     (let (i, w1) = new_uuid E w0;
          step = \<lparr>ss_ID = i, ss_SagaID = si_ID saga, ss_StepName = sd_Name stepDef,
                  ss_StepOrder = sd_Order stepDef, ss_Status = StepStatusPending,
                  ss_InputData = JNull, ss_OutputData = JNull, ss_ErrorMessage = None,
                  ss_StartedAt = None, ss_CompletedAt = None, ss_RetryCount = 0,
                  ss_CompensationData = JNull\<rparr>;
          (err, w2) = repo_CreateStep step w1
      in case err of
           Some e \<Rightarrow> (Some ''failed to create step'', w2)
         | None \<Rightarrow> createSagaSteps E saga stepDefs w2)"

definition new_saga_instance ::
  "uuid \<Rightarrow> CreateSagaRequest \<Rightarrow> SagaDefinition \<Rightarrow> gotime \<Rightarrow> SagaInstance" where
  "new_saga_instance i req definition now =
     \<lparr>si_ID = i, si_SagaType = rq_SagaType req, si_SagaData = rq_SagaData req,
      si_Status = SagaStatusStarted, si_CurrentStep = 0, si_CreatedAt = now,
      si_UpdatedAt = now, si_CompletedAt = None, si_ErrorMessage = None, si_RetryCount = 0,
      si_MaxRetries = df_MaxRetries definition, si_CorrelationID = rq_CorrelationID req,
      si_IdempotencyKey = rq_IdempotencyKey req\<rparr>"

text \<open>The idempotency check at the start of \<open>CreateSaga\<close>: the cached saga when there is one.\<close>

definition cached_saga :: "CreateSagaRequest \<Rightarrow> World \<Rightarrow> SagaInstance option \<times> World" where
  "cached_saga req w0 =
     (case rq_IdempotencyKey req of
        None \<Rightarrow> (None, w0)
      | Some key \<Rightarrow>
          (let (existing, w1) = GetResult key w0 in
           case existing of
             Inr (RSaga saga) \<Rightarrow> (Some saga, w1)
           | _ \<Rightarrow> (None, w1)))"

definition CreateSaga ::
  "Env \<Rightarrow> CreateSagaRequest \<Rightarrow> World \<Rightarrow> (goerror + SagaInstance) \<times> World" where
  "CreateSaga E req w0 =
     (case cached_saga req w0 of
        (Some saga, w1) \<Rightarrow> (Inr saga, w1)
      | (None, w1) \<Rightarrow>
          (case map_of sagaDefinitions (rq_SagaType req) of
             None \<Rightarrow> (Inl ''unknown saga type'', w1)
           | Some definition \<Rightarrow>
               (let (i, w2) = new_uuid E w1;
                    saga = new_saga_instance i req definition (clock w2);
                    (err, w3) = repo_Create saga w2
                in case err of
                     Some e \<Rightarrow> (Inl ''failed to create saga'', w3)
                   | None \<Rightarrow>
                       (let (err', w4) = createSagaSteps E saga (df_Steps definition) w3 in
                        case err' of
                          Some e \<Rightarrow> (Inl ''failed to create saga steps'', w4)
                        | None \<Rightarrow>
                            (let w5 = (case rq_IdempotencyKey req of
                                         None \<Rightarrow> w4
                                       | Some key \<Rightarrow> snd (StoreResult key (RSaga saga) (24 * hour) w4));
                                 (eid, w6) = new_uuid E w5;
                                 event = \<lparr>ev_ID = eid, ev_SagaID = si_ID saga,
                                          ev_EventType = ''saga.started'',
                                          ev_EventData = rq_SagaData req,
                                          ev_Timestamp = clock w6,
                                          ev_CorrelationID = stringValue (rq_CorrelationID req),
                                          ev_CausationID = uuid_String E (si_ID saga)\<rparr>;
                                 (err'', w7) = publishEvent E event w6
                             in (Inr saga, w7))))))"

definition GetSaga :: "uuid \<Rightarrow> World \<Rightarrow> (goerror + SagaInstance) \<times> World" where
  "GetSaga sagaID w0 =
     (let (r, w) = repo_GetByID sagaID w0 in
      case r of Inl e \<Rightarrow> (Inl ''failed to get saga'', w) | Inr saga \<Rightarrow> (Inr saga, w))"

definition ListSagas ::
  "int \<Rightarrow> int \<Rightarrow> SagaStatus option \<Rightarrow> World \<Rightarrow> (goerror + SagaInstance list \<times> int) \<times> World" where
  "ListSagas limit offset status w0 =
     (let (r, w) = repo_List limit offset status w0 in
      case r of Inl e \<Rightarrow> (Inl ''failed to list sagas'', w) | Inr p \<Rightarrow> (Inr p, w))"

definition CompensateSaga :: "Env \<Rightarrow> uuid \<Rightarrow> string \<Rightarrow> World \<Rightarrow> goerror option \<times> World" where
  "CompensateSaga E sagaID reason w0 =
     (let (r, w1) = repo_GetByID sagaID w0 in
      case r of
        Inl e \<Rightarrow> (Some ''failed to get saga'', w1)
      | Inr saga0 \<Rightarrow>
          if SagaStatus_IsTerminal (si_Status saga0)
          then (Some ''cannot compensate saga in status'', w1)
          else
            let saga = saga0\<lparr>si_Status := SagaStatusFailed, si_UpdatedAt := clock w1,
                             si_ErrorMessage := Some reason\<rparr>;
                (err, w2) = repo_Update saga w1
            in case err of
                 Some e \<Rightarrow> (Some ''failed to update saga'', w2)
               | None \<Rightarrow>
                   (let (err', w3) = StartCompensation E saga w2 in
                    case err' of
                      Some e \<Rightarrow> (Some ''failed to start compensation'', w3)
                    | None \<Rightarrow> (None, w3)))"

fun reset_steps :: "int \<Rightarrow> SagaStep list \<Rightarrow> World \<Rightarrow> goerror option \<times> World" where
  "reset_steps fromStep [] w = (None, w)"
| "reset_steps fromStep (step # steps) w0 =
     (if ss_StepOrder step \<ge> fromStep then
        (let (err, w1) = repo_UpdateStep
               (step\<lparr>ss_Status := StepStatusPending, ss_StartedAt := None,
                     ss_CompletedAt := None, ss_ErrorMessage := None, ss_RetryCount := 0\<rparr>) w0
         in case err of
              Some e \<Rightarrow> (Some ''failed to reset step'', w1)
            | None \<Rightarrow> reset_steps fromStep steps w1)
      else reset_steps fromStep steps w0)"

definition resetSagaSteps :: "uuid \<Rightarrow> int \<Rightarrow> World \<Rightarrow> goerror option \<times> World" where
  "resetSagaSteps sagaID fromStep w0 =
     (let (r, w1) = repo_GetSteps sagaID w0 in
      case r of
        Inl e \<Rightarrow> (Some ''failed to get saga steps'', w1)
      | Inr steps \<Rightarrow> reset_steps fromStep steps w1)"

definition RetrySaga :: "uuid \<Rightarrow> int \<Rightarrow> World \<Rightarrow> goerror option \<times> World" where
  "RetrySaga sagaID fromStep w0 =
     (let (r, w1) = repo_GetByID sagaID w0 in
      case r of
        Inl e \<Rightarrow> (Some ''failed to get saga'', w1)
      | Inr saga0 \<Rightarrow>
          if si_Status saga0 \<noteq> SagaStatusFailed then (Some ''can only retry failed sagas'', w1)
          else if si_RetryCount saga0 \<ge> si_MaxRetries saga0
          then (Some ''saga has exceeded maximum retry count'', w1)
          else
            let saga = saga0\<lparr>si_Status := SagaStatusInProgress, si_CurrentStep := fromStep,
                             si_RetryCount := si_RetryCount saga0 + 1,
                             si_UpdatedAt := clock w1, si_ErrorMessage := None\<rparr>;
                (err, w2) = repo_Update saga w1
            in case err of
                 Some e \<Rightarrow> (Some ''failed to update saga'', w2)
               | None \<Rightarrow>
                   (let (err', w3) = resetSagaSteps sagaID fromStep w2 in
                    case err' of
                      Some e \<Rightarrow> (Some ''failed to reset saga steps'', w3)
                    | None \<Rightarrow> (None, w3)))"

section \<open>The processor\<close>

definition failSaga ::
  "Env \<Rightarrow> SagaInstance \<Rightarrow> string \<Rightarrow> World \<Rightarrow> goerror option \<times> World" where
  "failSaga E saga0 errorMsg w0 =
     (let saga = saga0\<lparr>si_Status := SagaStatusFailed, si_UpdatedAt := clock w0,
                       si_ErrorMessage := Some errorMsg\<rparr>;
          (err, w1) = repo_Update saga w0
      in case err of
           Some e \<Rightarrow> (Some ''failed to fail saga'', w1)
         | None \<Rightarrow> (None, snd (StartCompensation E saga w1)))"

definition timeoutSaga :: "Env \<Rightarrow> SagaInstance \<Rightarrow> World \<Rightarrow> goerror option \<times> World" where
  "timeoutSaga E saga w = failSaga E saga ''saga timeout exceeded'' w"

definition failStep ::
  "Env \<Rightarrow> SagaInstance \<Rightarrow> SagaStep \<Rightarrow> string \<Rightarrow> World \<Rightarrow> goerror option \<times> World" where
  "failStep E saga step0 errorMsg w0 =
     (let step1 = step0\<lparr>ss_Status := StepStatusFailed, ss_CompletedAt := Some (clock w0),
                        ss_ErrorMessage := Some errorMsg\<rparr>;
          (err, w1) = repo_UpdateStep step1 w0
      in case err of
           Some e \<Rightarrow> (Some ''failed to update failed step'', w1)
         | None \<Rightarrow>
             (let stepDef = getStepDefinition (si_SagaType saga) (ss_StepName step1) in
              if (case stepDef of None \<Rightarrow> False | Some d \<Rightarrow> ss_RetryCount step1 < sd_MaxRetries d)
              then
                (let (err', w2) = repo_UpdateStep
                       (step1\<lparr>ss_RetryCount := ss_RetryCount step1 + 1,
                              ss_Status := StepStatusPending, ss_StartedAt := None,
                              ss_CompletedAt := None, ss_ErrorMessage := None\<rparr>) w1
                 in case err' of
                      Some e \<Rightarrow> (Some ''failed to retry step'', w2)
                    | None \<Rightarrow> (None, w2))
              else if (case stepDef of None \<Rightarrow> False | Some d \<Rightarrow> sd_ContinueOnFailure d)
              then
                (let (err', w2) = repo_UpdateStep (step1\<lparr>ss_Status := StepStatusSkipped\<rparr>) w1
                 in case err' of
                      Some e \<Rightarrow> (Some ''failed to skip step'', w2)
                    | None \<Rightarrow> (None, w2))
              else failSaga E saga errorMsg w1))"

definition completeSaga :: "Env \<Rightarrow> SagaInstance \<Rightarrow> World \<Rightarrow> goerror option \<times> World" where
  "completeSaga E saga0 w0 =
     (let saga = saga0\<lparr>si_Status := SagaStatusCompleted, si_CompletedAt := Some (clock w0),
                       si_UpdatedAt := clock w0\<rparr>;
          (err, w1) = repo_Update saga w0
      in case err of
           Some e \<Rightarrow> (Some ''failed to complete saga'', w1)
         | None \<Rightarrow>
             (let event = \<lparr>ev_ID = si_ID saga, ev_SagaID = si_ID saga,
                           ev_EventType = ''saga.completed'', ev_EventData = si_SagaData saga,
                           ev_Timestamp = clock w1,
                           ev_CorrelationID = stringValue (si_CorrelationID saga),
                           ev_CausationID = uuid_String E (si_ID saga)\<rparr>
              in (None, snd (publishEvent E event w1))))"

definition executeStep ::
  "Env \<Rightarrow> SagaInstance \<Rightarrow> SagaStep \<Rightarrow> SagaDefinition \<Rightarrow> World \<Rightarrow> goerror option \<times> World" where
  "executeStep E saga0 step0 definition w0 =
     (case find (\<lambda>d. sd_Name d = ss_StepName step0) (df_Steps definition) of
        None \<Rightarrow> (Some ''step definition not found'', w0)
      | Some stepDef \<Rightarrow>
          (let step = step0\<lparr>ss_Status := StepStatusInProgress, ss_StartedAt := Some (clock w0)\<rparr>;
               (err, w1) = repo_UpdateStep step w0
           in case err of
                Some e \<Rightarrow> (Some ''failed to update step status'', w1)
              | None \<Rightarrow>
                  (let event = \<lparr>ev_ID = ss_ID step, ev_SagaID = si_ID saga0,
                                ev_EventType = ''step.'' @ sd_Action stepDef @ ''.execute'',
                                ev_EventData = si_SagaData saga0, ev_Timestamp = clock w1,
                                ev_CorrelationID = stringValue (si_CorrelationID saga0),
                                ev_CausationID = uuid_String E (si_ID saga0)\<rparr>;
                       (err', w2) = publishEvent E event w1
                   in case err' of
                        Some e \<Rightarrow> failStep E saga0 step e w2
                      | None \<Rightarrow>
                          (let saga = saga0\<lparr>si_CurrentStep := ss_StepOrder step,
                                            si_Status := SagaStatusInProgress,
                                            si_UpdatedAt := clock w2\<rparr>;
                               (err'', w3) = repo_Update saga w2
                           in case err'' of
                                Some e \<Rightarrow> (Some ''failed to update saga'', w3)
                              | None \<Rightarrow> (None, w3)))))"

definition step_done :: "SagaStep \<Rightarrow> bool" where
  "step_done t = (ss_Status t = StepStatusCompleted \<or> ss_Status t = StepStatusSkipped)"

definition processSaga :: "Env \<Rightarrow> SagaInstance \<Rightarrow> World \<Rightarrow> goerror option \<times> World" where
  "processSaga E saga w0 =
     (case map_of sagaDefinitions (si_SagaType saga) of
        None \<Rightarrow> (Some ''unknown saga type'', w0)
      | Some definition \<Rightarrow>
          if clock w0 - si_CreatedAt saga > df_Timeout definition then timeoutSaga E saga w0
          else
            let (r, w1) = repo_GetSteps (si_ID saga) w0 in
            case r of
              Inl e \<Rightarrow> (Some ''failed to get saga steps'', w1)
            | Inr steps \<Rightarrow>
                (case find (\<lambda>t. ss_StepOrder t = si_CurrentStep saga + 1 \<and>
                               ss_Status t = StepStatusPending) steps of
                   None \<Rightarrow> if list_all step_done steps then completeSaga E saga w1 else (None, w1)
                 | Some currentStep \<Rightarrow> executeStep E saga currentStep definition w1))"

text \<open>An error of one saga is logged and the loop goes on.\<close>

fun process_sagas :: "Env \<Rightarrow> SagaInstance list \<Rightarrow> World \<Rightarrow> World" where
  "process_sagas E [] w = w"
| "process_sagas E (saga # sagas) w = process_sagas E sagas (snd (processSaga E saga w))"

fun process_statuses :: "Env \<Rightarrow> SagaStatus list \<Rightarrow> World \<Rightarrow> goerror option \<times> World" where
  "process_statuses E [] w = (None, w)"
| "process_statuses E (status # statuses) w0 =
     (let (r, w1) = repo_List 100 0 (Some status) w0 in
      case r of
        Inl e \<Rightarrow> (Some ''failed to get pending sagas'', w1)
      | Inr (sagas, n) \<Rightarrow> process_statuses E statuses (process_sagas E sagas w1))"

definition processPendingSagas :: "Env \<Rightarrow> World \<Rightarrow> goerror option \<times> World" where
  "processPendingSagas E w = process_statuses E [SagaStatusStarted, SagaStatusInProgress] w"

section \<open>The event consumer\<close>

text \<open>A type assertion \<open>event[field].(string)\<close>.\<close>

definition string_field :: "jobject \<Rightarrow> string \<Rightarrow> string option" where
  "string_field event field =
     (case map_of event field of Some (JStr s) \<Rightarrow> Some s | _ \<Rightarrow> None)"

fun extract_from :: "Env \<Rightarrow> string list \<Rightarrow> jobject \<Rightarrow> goerror + uuid" where
  "extract_from E [] event = Inl ''saga ID not found in event''"
| "extract_from E (field # rest) event =
     (case string_field event field of
        Some idStr \<Rightarrow>
          (case uuid_Parse E idStr of
             Some i \<Rightarrow> Inr i
           | None \<Rightarrow> extract_from E rest event)
      | None \<Rightarrow> extract_from E rest event)"

definition extractSagaID :: "Env \<Rightarrow> jobject \<Rightarrow> goerror + uuid" where
  "extractSagaID E event = extract_from E [''saga_id'', ''correlation_id'', ''order_id''] event"

definition find_in_progress :: "string \<Rightarrow> SagaStep list \<Rightarrow> SagaStep option" where
  "find_in_progress stepName steps =
     find (\<lambda>s. ss_StepName s = stepName \<and> ss_Status s = StepStatusInProgress) steps"

definition completeStep :: "Env \<Rightarrow> jobject \<Rightarrow> string \<Rightarrow> World \<Rightarrow> goerror option \<times> World" where
  "completeStep E event stepName w0 =
     (case extractSagaID E event of
        Inl e \<Rightarrow> (Some e, w0)
      | Inr sagaID \<Rightarrow>
          (let (r, w1) = repo_GetByID sagaID w0 in
           case r of
             Inl e \<Rightarrow> (Some ''failed to get saga'', w1)
           | Inr saga \<Rightarrow>
               (let (r', w2) = repo_GetSteps sagaID w1 in
                case r' of
                  Inl e \<Rightarrow> (Some ''failed to get saga steps'', w2)
                | Inr steps \<Rightarrow>
                    (case find_in_progress stepName steps of
                       None \<Rightarrow> (None, w2)
                     | Some step \<Rightarrow>
                         (let (err, w3) = repo_UpdateStep
                                (step\<lparr>ss_Status := StepStatusCompleted,
                                      ss_CompletedAt := Some (clock w2),
                                      ss_OutputData := mustMarshal event\<rparr>) w2
                          in case err of
                               Some e \<Rightarrow> (Some ''failed to update step'', w3)
                             | None \<Rightarrow> (None, w3))))))"

definition failStepFromEvent ::
  "Env \<Rightarrow> jobject \<Rightarrow> string \<Rightarrow> World \<Rightarrow> goerror option \<times> World" where
  "failStepFromEvent E event stepName w0 =
     (case extractSagaID E event of
        Inl e \<Rightarrow> (Some e, w0)
      | Inr sagaID \<Rightarrow>
          (let (r, w1) = repo_GetByID sagaID w0 in
           case r of
             Inl e \<Rightarrow> (Some ''failed to get saga'', w1)
           | Inr saga \<Rightarrow>
               (let (r', w2) = repo_GetSteps sagaID w1 in
                case r' of
                  Inl e \<Rightarrow> (Some ''failed to get saga steps'', w2)
                | Inr steps \<Rightarrow>
                    (case find_in_progress stepName steps of
                       None \<Rightarrow> (None, w2)
                     | Some step \<Rightarrow>
                         failStep E saga step
                           (case string_field event ''error_message'' of
                              Some errMsg \<Rightarrow> errMsg
                            | None \<Rightarrow> ''step execution failed'') w2))))"

definition handleInventoryEvent ::
  "Env \<Rightarrow> jobject option \<Rightarrow> World \<Rightarrow> goerror option \<times> World" where
  "handleInventoryEvent E v w =
     (case v of
        None \<Rightarrow> (Some ''failed to unmarshal inventory event'', w)
      | Some event \<Rightarrow>
          (case string_field event ''event_type'' of
             None \<Rightarrow> (Some ''missing event_type in inventory event'', w)
           | Some eventType \<Rightarrow>
               if eventType = ''inventory.reserved'' then completeStep E event ''reserve-inventory'' w
               else if eventType = ''inventory.reservation_failed''
               then failStepFromEvent E event ''reserve-inventory'' w
               else if eventType = ''inventory.released''
               then completeStep E event ''restore-inventory'' w
               else (None, w)))"

definition handlePaymentEvent ::
  "Env \<Rightarrow> jobject option \<Rightarrow> World \<Rightarrow> goerror option \<times> World" where
  "handlePaymentEvent E v w =
     (case v of
        None \<Rightarrow> (Some ''failed to unmarshal payment event'', w)
      | Some event \<Rightarrow>
          (case string_field event ''event_type'' of
             None \<Rightarrow> (Some ''missing event_type in payment event'', w)
           | Some eventType \<Rightarrow>
               if eventType = ''payment.charged'' then completeStep E event ''process-payment'' w
               else if eventType = ''payment.charge_failed''
               then failStepFromEvent E event ''process-payment'' w
               else if eventType = ''payment.refunded''
               then completeStep E event ''process-refund'' w
               else (None, w)))"

definition handleNotificationEvent ::
  "Env \<Rightarrow> jobject option \<Rightarrow> World \<Rightarrow> goerror option \<times> World" where
  "handleNotificationEvent E v w =
     (case v of
        None \<Rightarrow> (Some ''failed to unmarshal notification event'', w)
      | Some event \<Rightarrow>
          (case string_field event ''event_type'' of
             None \<Rightarrow> (Some ''missing event_type in notification event'', w)
           | Some eventType \<Rightarrow>
               if eventType = ''notification.sent'' then completeStep E event ''send-confirmation'' w
               else if eventType = ''notification.send_failed''
               then failStepFromEvent E event ''send-confirmation'' w
               else (None, w)))"

definition handleSagaEvent ::
  "jobject option \<Rightarrow> World \<Rightarrow> goerror option \<times> World" where
  "handleSagaEvent v w = (None, w)"

definition handleEvent ::
  "Env \<Rightarrow> string \<Rightarrow> string \<Rightarrow> jobject option \<Rightarrow> World \<Rightarrow> goerror option \<times> World" where
  "handleEvent E topic key v w =
     (if topic = ''inventory-events'' then handleInventoryEvent E v w
      else if topic = ''payment-events'' then handlePaymentEvent E v w
      else if topic = ''notification-events'' then handleNotificationEvent E v w
      else if topic = ''saga-events'' then handleSagaEvent v w
      else (None, w))"

text \<open>
  The body of the consumer's loop over the messages it reads: a message whose handler fails is
  not committed and the loop goes on; a commit can fail and is only logged. The result is the
  list of the messages committed.
\<close>

fun KafkaConsumer_Subscribe ::
  "Env \<Rightarrow> (string \<times> string \<times> jobject option) list \<Rightarrow> World \<Rightarrow>
     (string \<times> string \<times> jobject option) list \<times> World" where
  "KafkaConsumer_Subscribe E [] w = ([], w)"
| "KafkaConsumer_Subscribe E ((topic, key, v) # msgs) w0 =
     (let (err, w1) = handleEvent E topic key v w0 in
      case err of
        Some e \<Rightarrow> KafkaConsumer_Subscribe E msgs w1
      | None \<Rightarrow>
          (let (failed, w2) = external_call w1;
               (committed, w3) = KafkaConsumer_Subscribe E msgs w2
           in (if failed then committed else (topic, key, v) # committed, w3)))"

end
