(* ===== verification/Step_Systems.thy ===== *)
theory Step_Systems
  imports Main
begin

text \<open>
  What the step relations of the components share. \<open>transition_system\<close> carries an invariant along the
  steps of a relation; \<open>event_machine\<close> does the same for a handler that is a function of the event
  and the state, and is a transition system whose steps are labelled with the events. They are
  interpreted on the saga tables, the circuit breaker and the Raft node.
\<close>

section \<open>Transition systems and their invariants\<close>

locale transition_system =
  fixes astep :: "'i \<Rightarrow> 's \<Rightarrow> 's \<Rightarrow> bool"
    and ainv :: "'s \<Rightarrow> bool"
  assumes ainv_step: "astep i s s' \<Longrightarrow> ainv s \<Longrightarrow> ainv s'"
begin

lemma ainv_run: "(astep i)\<^sup>*\<^sup>* s s' \<Longrightarrow> ainv s \<Longrightarrow> ainv s'"
  by (induction rule: rtranclp_induct) (auto intro: ainv_step)

lemma run_induct [consumes 2, case_names refl step]:
  assumes "(astep i)\<^sup>*\<^sup>* s s'" "ainv s" "P s"
    and "\<And>x y. ainv x \<Longrightarrow> P x \<Longrightarrow> astep i x y \<Longrightarrow> P y"
  shows "P s'"
  using assms(1)
proof (induction rule: rtranclp_induct)
  case (step y z)
  then show ?case using assms(2,4) ainv_run by blast
qed (rule assms(3))

end

section \<open>Handlers of events\<close>

locale event_machine =
  fixes handle :: "'e \<Rightarrow> 's \<Rightarrow> 's"
    and minv :: "'s \<Rightarrow> bool"
  assumes minv_handle: "minv s \<Longrightarrow> minv (handle e s)"
begin

lemma minv_run: "minv s \<Longrightarrow> minv (fold handle es s)"
  by (induction es arbitrary: s) (simp_all add: minv_handle)

lemma stable_run:
  assumes "minv s" "P s"
    and "\<And>e x. e \<in> set es \<Longrightarrow> minv x \<Longrightarrow> P x \<Longrightarrow> P (handle e x)"
  shows "P (fold handle es s)"
  using assms by (induction es arbitrary: s) (simp_all add: minv_handle)

end

sublocale event_machine \<subseteq> labelled: transition_system "\<lambda>e s s'. s' = handle e s" minv
  by unfold_locales (simp add: minv_handle)

end
