(* ===== verification/Saga_Spec.thy ===== *)
theory Saga_Spec
  imports Saga_Orchestrator Step_Systems
begin

text \<open>
  The abstract specification of the orchestrator: what a single statement may do to the rows of one
  saga. \<open>saga_move\<close> and \<open>step_move\<close> are the life cycles of a saga and of a step, \<open>db_step i\<close> one
  change of the rows of saga \<open>i\<close>, and \<open>db_inv\<close> the consistency of the tables. The interface
  \<open>transition_system\<close> of \<open>Step_Systems\<close> is interpreted on
  \<open>db_step\<close>. That the operations of the code refine this specification is shown in
  \<open>Saga_Refinement\<close>.
\<close>

section \<open>The life cycles\<close>

definition saga_active :: "SagaStatus \<Rightarrow> bool" where
  "saga_active st \<longleftrightarrow> st = SagaStatusStarted \<or> st = SagaStatusInProgress"

inductive step_move :: "SagaStatus \<Rightarrow> StepStatus \<Rightarrow> StepStatus \<Rightarrow> bool" where
  step_start: "saga_active st \<Longrightarrow> step_move st StepStatusPending StepStatusInProgress"
| step_complete: "step_move st StepStatusInProgress StepStatusCompleted"
| step_fail: "step_move st StepStatusInProgress StepStatusFailed"
| step_again: "step_move st StepStatusFailed StepStatusPending"
| step_skip: "step_move st StepStatusFailed StepStatusSkipped"
| step_reset: "step_move SagaStatusInProgress a StepStatusPending"

inductive saga_move :: "SagaStep list \<Rightarrow> SagaInstance \<Rightarrow> SagaInstance \<Rightarrow> bool" where
  saga_progress:
    "saga_active (si_Status s) \<Longrightarrow> si_Status s' = SagaStatusInProgress \<Longrightarrow>
     si_RetryCount s' = si_RetryCount s \<Longrightarrow> saga_move T s s'"
| saga_finish:
    "saga_active (si_Status s) \<Longrightarrow> \<forall>t \<in> set T. ss_SagaID t = si_ID s \<longrightarrow> step_done t \<Longrightarrow>
     si_Status s' = SagaStatusCompleted \<Longrightarrow> si_RetryCount s' = si_RetryCount s \<Longrightarrow>
     saga_move T s s'"
| saga_abort:
    "si_Status s \<noteq> SagaStatusCompleted \<Longrightarrow> si_Status s' = SagaStatusFailed \<Longrightarrow>
     si_RetryCount s' = si_RetryCount s \<Longrightarrow> saga_move T s s'"
| saga_retry:
    "si_Status s = SagaStatusFailed \<Longrightarrow> si_RetryCount s < si_MaxRetries s \<Longrightarrow>
     si_Status s' = SagaStatusInProgress \<Longrightarrow> si_RetryCount s' = si_RetryCount s + 1 \<Longrightarrow>
     saga_move T s s'"

inductive_simps saga_move_simp: "saga_move T s s'"
inductive_simps step_move_simp: "step_move st a b"

section \<open>Steps of the tables\<close>

type_synonym db = "SagaInstance list \<times> SagaStep list"

definition db_of :: "World \<Rightarrow> db" where
  "db_of w = (saga_instances w, saga_steps w)"

inductive db_step :: "uuid \<Rightarrow> db \<Rightarrow> db \<Rightarrow> bool" for i where
  new_saga:
    "si_ID s = i \<Longrightarrow> i \<notin> si_ID ` set S \<Longrightarrow> si_Status s = SagaStatusStarted \<Longrightarrow>
     si_RetryCount s = 0 \<Longrightarrow> si_MaxRetries s \<ge> 0 \<Longrightarrow> \<forall>t \<in> set T. ss_SagaID t \<noteq> i \<Longrightarrow>
     db_step i (S, T) (S @ [s], T)"
| new_step:
    "s \<in> set S \<Longrightarrow> si_ID s = i \<Longrightarrow> si_Status s = SagaStatusStarted \<Longrightarrow> ss_SagaID t = i \<Longrightarrow>
     ss_ID t \<notin> ss_ID ` set T \<Longrightarrow> ss_Status t = StepStatusPending \<Longrightarrow>
     db_step i (S, T) (S, T @ [t])"
| change_step:
    "s \<in> set S \<Longrightarrow> si_ID s = i \<Longrightarrow> t \<in> set T \<Longrightarrow> ss_SagaID t = i \<Longrightarrow> step_frozen t' t \<Longrightarrow>
     step_move (si_Status s) (ss_Status t) (ss_Status t') \<Longrightarrow>
     db_step i (S, T) (S, replace_row ss_ID t' T)"
| change_saga:
    "s \<in> set S \<Longrightarrow> si_ID s = i \<Longrightarrow> saga_frozen s' s \<Longrightarrow> saga_move T s s' \<Longrightarrow>
     db_step i (S, T) (replace_row si_ID s' S, T)"

inductive_cases db_stepE: "db_step i d d'"

definition saga_ok :: "SagaStep list \<Rightarrow> SagaInstance \<Rightarrow> bool" where
  "saga_ok T s \<longleftrightarrow>
     si_Status s \<in> {SagaStatusStarted, SagaStatusInProgress, SagaStatusCompleted, SagaStatusFailed} \<and>
     0 \<le> si_RetryCount s \<and> si_RetryCount s \<le> si_MaxRetries s \<and>
     (si_Status s = SagaStatusCompleted \<longrightarrow>
        (\<forall>t \<in> set T. ss_SagaID t = si_ID s \<longrightarrow> step_done t))"

definition db_inv :: "db \<Rightarrow> bool" where
  "db_inv d \<longleftrightarrow>
     distinct (map si_ID (fst d)) \<and> distinct (map ss_ID (snd d)) \<and>
     ss_SagaID ` set (snd d) \<subseteq> si_ID ` set (fst d) \<and> list_all (saga_ok (snd d)) (fst d)"

section \<open>The invariant\<close>

lemma saga_move_ok:
  "saga_move T s s' \<Longrightarrow> saga_frozen s' s \<Longrightarrow> saga_ok T s \<Longrightarrow> saga_ok T s'"
  by (auto simp: saga_move_simp saga_ok_def saga_frozen_def)

lemma step_move_not_done:
  "step_move st a b \<Longrightarrow> st \<noteq> SagaStatusInProgress \<Longrightarrow>
   a \<noteq> StepStatusCompleted \<and> a \<noteq> StepStatusSkipped"
  by (auto simp: step_move_simp)

lemma saga_ok_replace_step:
  assumes ok: "saga_ok T r" and t: "t \<in> set T" and fr: "step_frozen t' t"
    and undone: "si_ID r = ss_SagaID t \<Longrightarrow> si_Status r = SagaStatusCompleted \<Longrightarrow> \<not> step_done t"
  shows "saga_ok (replace_row ss_ID t' T) r"
proof -
  have "step_done x" if c: "si_Status r = SagaStatusCompleted"
    and x: "x \<in> set (replace_row ss_ID t' T)" "ss_SagaID x = si_ID r" for x
  proof -
    have old: "\<forall>y \<in> set T. ss_SagaID y = si_ID r \<longrightarrow> step_done y"
      using ok c by (simp add: saga_ok_def)
    from replace_row_subset[OF x(1)] show "step_done x"
    proof
      assume "x = t'"
      then have "ss_SagaID t = si_ID r" using x(2) fr by (simp add: step_frozen_def)
      then show ?thesis using old t undone c by auto
    qed (use old x(2) in simp)
  qed
  then show ?thesis using ok by (simp add: saga_ok_def)
qed

lemma db_inv_step:
  assumes st: "db_step i d d'" and inv: "db_inv d"
  shows "db_inv d'"
  using st
proof cases
  case (new_saga s S T)
  have "saga_ok T s" using new_saga by (simp add: saga_ok_def)
  then show ?thesis using inv new_saga by (auto simp: db_inv_def)
next
  case (new_step s S t T)
  have "saga_ok (T @ [t]) r" if r: "r \<in> set S" for r
  proof -
    have ok: "saga_ok T r" using inv new_step r by (simp add: db_inv_def list_all_iff)
    show ?thesis
    proof (cases "si_ID r = i")
      case True
      then have "r = s"
        using inv new_step r
        by (intro distinct_key_unique[of si_ID S r s]) (simp_all add: db_inv_def)
      then show ?thesis using ok new_step by (simp add: saga_ok_def)
    next
      case False
      then show ?thesis using ok new_step by (simp add: saga_ok_def)
    qed
  qed
  then show ?thesis using inv new_step by (auto simp: db_inv_def list_all_iff)
next
  case (change_step s S t T t')
  have "saga_ok (replace_row ss_ID t' T) r" if r: "r \<in> set S" for r
  proof (rule saga_ok_replace_step)
    show "saga_ok T r" using inv change_step r by (simp add: db_inv_def list_all_iff)
    show "\<not> step_done t" if "si_ID r = ss_SagaID t" "si_Status r = SagaStatusCompleted"
    proof -
      have "r = s"
        by (rule distinct_key_unique[of si_ID S]) (use inv change_step r that in \<open>simp_all add: db_inv_def\<close>)
      then show ?thesis using step_move_not_done[OF change_step(8)] that
        by (simp add: step_done_def)
    qed
  qed (use change_step in auto)
  moreover have sub: "ss_SagaID ` set (replace_row ss_ID t' T) \<subseteq> ss_SagaID ` set T"
  proof
    fix x assume "x \<in> ss_SagaID ` set (replace_row ss_ID t' T)"
    then obtain y where y: "y = t' \<or> y \<in> set T" and x: "x = ss_SagaID y"
      using replace_row_subset by fastforce
    from y show "x \<in> ss_SagaID ` set T"
    proof
      assume "y = t'"
      then have "x = ss_SagaID t" using x change_step by (simp add: step_frozen_def)
      then show ?thesis using imageI[OF \<open>t \<in> set T\<close>, of ss_SagaID] by simp
    qed (use x in simp)
  qed
  moreover have "ss_SagaID ` set T \<subseteq> si_ID ` set S"
    using inv change_step by (simp add: db_inv_def)
  note subset_trans[OF sub this]
  ultimately show ?thesis using inv change_step by (simp add: db_inv_def list_all_iff)
next
  case (change_saga s S s' T)
  have "saga_ok T s'" using inv change_saga saga_move_ok by (auto simp: db_inv_def list_all_iff)
  then show ?thesis using inv change_saga
    by (auto simp: db_inv_def list_all_iff dest!: replace_row_subset)
qed

interpretation db_system: transition_system db_step db_inv
  by unfold_locales (rule db_inv_step)

section \<open>Isolation and finality\<close>

text \<open>A run of steps of saga \<open>i\<close> leaves the rows of every other saga as they are.\<close>

definition rows_apart :: "uuid \<Rightarrow> db \<Rightarrow> SagaInstance list \<times> SagaStep list" where
  "rows_apart i d =
     (filter (\<lambda>s. si_ID s \<noteq> i) (fst d), filter (\<lambda>t. ss_SagaID t \<noteq> i) (snd d))"

lemma filter_replace_row:
  assumes "\<And>row. row \<in> set rows \<Longrightarrow> key row = key r \<Longrightarrow> \<not> P row" "\<not> P r"
  shows "filter P (replace_row key r rows) = filter P rows"
  using assms by (induction rows) (auto simp: replace_row_def)

lemma db_step_apart:
  assumes st: "db_step i d d'" and inv: "db_inv d"
  shows "rows_apart i d' = rows_apart i d"
  using st
proof cases
  case (change_step s S t T t')
  have "filter (\<lambda>t. ss_SagaID t \<noteq> i) (replace_row ss_ID t' T) = filter (\<lambda>t. ss_SagaID t \<noteq> i) T"
  proof (rule filter_replace_row)
    fix row assume "row \<in> set T" "ss_ID row = ss_ID t'"
    then have "row = t"
      using inv change_step
      by (intro distinct_key_unique[of ss_ID T row t]) (simp_all add: db_inv_def step_frozen_def)
    then show "\<not> ss_SagaID row \<noteq> i" using change_step by simp
  qed (use change_step in \<open>simp add: step_frozen_def\<close>)
  then show ?thesis using change_step by (simp add: rows_apart_def)
next
  case (change_saga s S s' T)
  then show ?thesis by (auto simp: rows_apart_def saga_frozen_def intro!: filter_replace_row)
qed (auto simp: rows_apart_def)

lemma db_run_apart:
  "(db_step i)\<^sup>*\<^sup>* d d' \<Longrightarrow> db_inv d \<Longrightarrow> rows_apart i d' = rows_apart i d"
  by (rule db_system.run_induct) (auto simp: db_step_apart)

lemma db_run_other_saga:
  assumes "(db_step i)\<^sup>*\<^sup>* d d'" "db_inv d" "s \<in> set (fst d)" "si_ID s \<noteq> i"
  shows "s \<in> set (fst d')"
proof -
  have "fst (rows_apart i d') = fst (rows_apart i d)" using db_run_apart assms by simp
  then have "s \<in> set (filter (\<lambda>s. si_ID s \<noteq> i) (fst d'))"
    using assms by (simp add: rows_apart_def)
  then show ?thesis by simp
qed

text \<open>A completed saga row is never changed again.\<close>

lemma db_step_completed:
  assumes st: "db_step i d d'" and inv: "db_inv d"
    and s: "s \<in> set (fst d)" "si_Status s = SagaStatusCompleted"
  shows "s \<in> set (fst d')"
  using st
proof cases
  case (change_saga r S r' T)
  have "si_ID s \<noteq> si_ID r'"
  proof
    assume "si_ID s = si_ID r'"
    then have "s = r"
      using inv s change_saga
      by (intro distinct_key_unique[of si_ID S s r]) (simp_all add: db_inv_def saga_frozen_def)
    then show False using change_saga s by (auto simp: saga_move_simp saga_active_def)
  qed
  then show ?thesis using s change_saga by (auto intro: replace_row_other)
qed (use s in auto)

lemma db_run_completed:
  "(db_step i)\<^sup>*\<^sup>* d d' \<Longrightarrow> db_inv d \<Longrightarrow> s \<in> set (fst d) \<Longrightarrow> si_Status s = SagaStatusCompleted \<Longrightarrow>
   s \<in> set (fst d')"
  by (rule db_system.run_induct[where P = "\<lambda>d. s \<in> set (fst d)"])
     (assumption | rule db_step_completed)+

text \<open>The retry counter of a saga never goes down, and its row is never removed.\<close>

lemma db_step_retry:
  assumes st: "db_step i d d'" and inv: "db_inv d" and s: "s \<in> set (fst d)"
  shows "\<exists>s' \<in> set (fst d'). saga_frozen s' s \<and> si_RetryCount s \<le> si_RetryCount s'"
  using st
proof cases
  case (change_saga r S r' T)
  show ?thesis
  proof (cases "si_ID s = si_ID r'")
    case True
    then have "s = r"
      using inv s change_saga
      by (intro distinct_key_unique[of si_ID S s r]) (simp_all add: db_inv_def saga_frozen_def)
    moreover have "r' \<in> set (replace_row si_ID r' S)"
      using change_saga by (auto simp: set_replace_row saga_frozen_def)
    ultimately show ?thesis using change_saga by (auto simp: saga_move_simp)
  next
    case False
    then show ?thesis using s change_saga
      by (auto intro!: bexI[of _ s] replace_row_other simp: saga_frozen_def)
  qed
qed (use s in \<open>auto intro!: bexI[of _ s] simp: saga_frozen_def\<close>)

lemma saga_frozen_trans: "saga_frozen a b \<Longrightarrow> saga_frozen b c \<Longrightarrow> saga_frozen a c"
  by (simp add: saga_frozen_def)

lemma db_run_retry:
  assumes "(db_step i)\<^sup>*\<^sup>* d d'" "db_inv d" "s \<in> set (fst d)"
  shows "\<exists>s' \<in> set (fst d'). saga_frozen s' s \<and> si_RetryCount s \<le> si_RetryCount s'"
proof (rule db_system.run_induct[OF assms(1,2),
    where P = "\<lambda>d. \<exists>s' \<in> set (fst d). saga_frozen s' s \<and> si_RetryCount s \<le> si_RetryCount s'"])
  show "\<exists>s' \<in> set (fst d). saga_frozen s' s \<and> si_RetryCount s \<le> si_RetryCount s'"
    using assms(3) by (auto simp: saga_frozen_def)
next
  fix x y
  assume "db_inv x" and st: "db_step i x y"
    and "\<exists>s' \<in> set (fst x). saga_frozen s' s \<and> si_RetryCount s \<le> si_RetryCount s'"
  then obtain s' where s': "s' \<in> set (fst x)" "saga_frozen s' s" "si_RetryCount s \<le> si_RetryCount s'"
    by auto
  with db_step_retry[OF st \<open>db_inv x\<close> s'(1)]
  show "\<exists>s' \<in> set (fst y). saga_frozen s' s \<and> si_RetryCount s \<le> si_RetryCount s'"
    using saga_frozen_trans by (meson order_trans)
qed

end
