(* ===== verification/Saga_Refinement.thy ===== *)
theory Saga_Refinement
  imports Saga_Spec
begin

text \<open>
  The operations of the orchestrator refine the specification: on consistent tables, every
  operation on saga \<open>i\<close> changes them by a run of \<open>db_step i\<close>. \<open>db_frame\<close> collects the calls that
  leave the two tables alone; \<open>UpdateStep_refines\<close> and \<open>Update_refines\<close> are the two writes, and
  the operations follow from them statement by statement.
\<close>

named_theorems db_frame

definition refines :: "uuid \<Rightarrow> World \<Rightarrow> World \<Rightarrow> bool" where
  "refines i w w' \<longleftrightarrow> (db_step i)\<^sup>*\<^sup>* (db_of w) (db_of w')"

section \<open>Calls that leave the tables alone\<close>

lemma external_call_db [db_frame]: "external_call w = (b, w') \<Longrightarrow> db_of w' = db_of w"
  by (simp add: db_of_def)

lemma new_uuid_db [db_frame]: "new_uuid E w = (i, w') \<Longrightarrow> db_of w' = db_of w"
  by (auto simp: new_uuid_def db_of_def)

lemma Produce_db: "KafkaProducer_Produce t k v w = (e, w') \<Longrightarrow> db_of w' = db_of w"
  by (auto simp: KafkaProducer_Produce_def db_of_def Let_def split: prod.splits if_splits)

lemma PublishEvent_db [db_frame]: "PublishEvent t k v w = (e, w') \<Longrightarrow> db_of w' = db_of w"
  by (auto simp: PublishEvent_def PublishEventWithHeaders_def Let_def
      split: prod.splits option.splits dest: Produce_db)

lemma publishEvent_db [db_frame]: "publishEvent E ev w = (e, w') \<Longrightarrow> db_of w' = db_of w"
  by (simp add: publishEvent_def PublishEvent_db)

lemma snd_publishEvent_db [simp]: "db_of (snd (publishEvent E ev w)) = db_of w"
  by (metis prod.collapse publishEvent_db)

lemma markCompensationCompleted_db [db_frame]:
  "markCompensationCompleted E s w = (e, w') \<Longrightarrow> db_of w' = db_of w"
  by (auto simp: markCompensationCompleted_def publishCompensationEvent_def Let_def
      split: prod.splits dest!: db_frame)

lemma CompensateStep_db: "db_of (snd (snd (CompensateStep E s t w))) = db_of w"
  by (auto simp: CompensateStep_def publishCompensationEvent_def Let_def
      split: prod.splits option.splits dest!: new_uuid_db PublishEvent_db)

lemma compensate_steps_db [simp]: "db_of (compensate_steps E s ts w) = db_of w"
  by (induction ts arbitrary: w) (simp_all add: CompensateStep_db)

lemma StartCompensation_db [db_frame]:
  "StartCompensation E s w = (e, w') \<Longrightarrow> db_of w' = db_of w"
  by (auto simp: StartCompensation_def publishCompensationEvent_def Let_def
      split: prod.splits if_splits dest!: new_uuid_db PublishEvent_db markCompensationCompleted_db)

lemma snd_StartCompensation_db [simp]: "db_of (snd (StartCompensation E s w)) = db_of w"
  by (metis prod.collapse StartCompensation_db)

lemma GetByID_db [db_frame]: "repo_GetByID i w = (r, w') \<Longrightarrow> db_of w' = db_of w"
  by (auto simp: repo_GetByID_def db_of_def split: prod.splits if_splits option.splits)

lemma GetSteps_db [db_frame]: "repo_GetSteps i w = (r, w') \<Longrightarrow> db_of w' = db_of w"
  by (auto simp: repo_GetSteps_def db_of_def Let_def split: prod.splits if_splits)

lemma List_db [db_frame]: "repo_List l o' st w = (r, w') \<Longrightarrow> db_of w' = db_of w"
  by (auto simp: repo_List_def db_of_def Let_def split: prod.splits if_splits)

lemma GetResult_db [db_frame]: "GetResult k w = (r, w') \<Longrightarrow> db_of w' = db_of w"
  by (auto simp: GetResult_def db_of_def split: prod.splits if_splits option.splits)

lemma StoreResult_db [simp]: "db_of (snd (StoreResult k v ttl w)) = db_of w"
  by (auto simp: StoreResult_def db_of_def Let_def split: prod.splits)

lemma cached_saga_db [db_frame]: "cached_saga req w = (r, w') \<Longrightarrow> db_of w' = db_of w"
  by (auto simp: cached_saga_def Let_def
      split: option.splits prod.splits sum.splits RedisValue.splits dest: GetResult_db)

section \<open>What the reads return\<close>

lemma GetByID_in: "repo_GetByID i w = (Inr s, w') \<Longrightarrow> s \<in> set (fst (db_of w)) \<and> si_ID s = i"
  using saga_table.got_row by (simp add: db_of_def)

lemma GetSteps_in:
  "repo_GetSteps i w = (Inr ts, w') \<Longrightarrow>
   set ts = {t \<in> set (snd (db_of w)). ss_SagaID t = i}"
  by (auto simp: repo_GetSteps_def db_of_def Let_def split: prod.splits if_splits)

lemma List_in:
  "repo_List l o' (Some st) w = (Inr (ss, n), w') \<Longrightarrow>
   \<forall>s \<in> set ss. s \<in> set (fst (db_of w)) \<and> si_Status s = st"
  by (auto simp: repo_List_def db_of_def Let_def
      split: prod.splits if_splits dest!: in_set_takeD in_set_dropD)

lemma List_distinct:
  assumes "repo_List l o' st w = (Inr (ss, n), w')" "distinct (map si_ID (fst (db_of w)))"
  shows "distinct (map si_ID ss)"
proof -
  define M where "M = filter (\<lambda>s. case st of None \<Rightarrow> True | Some x \<Rightarrow> si_Status s = x) (saga_instances w)"
  have "inj_on si_ID (set M)" and "distinct M"
    using assms(2) by (auto simp: M_def db_of_def distinct_map inj_on_def)
  then have "distinct (map si_ID (sort_key (\<lambda>s. - si_CreatedAt s) M))"
    by (simp add: distinct_map)
  moreover have "ss = take (nat l) (drop (nat o') (sort_key (\<lambda>s. - si_CreatedAt s) M))"
    using assms(1) by (auto simp: repo_List_def M_def Let_def split: prod.splits if_splits)
  ultimately show ?thesis by (simp add: take_map drop_map flip: take_map drop_map)
qed

section \<open>The two writes\<close>

lemma refines_refl [simp]: "db_of w' = db_of w \<Longrightarrow> refines i w w'"
  by (simp add: refines_def)

lemma refines_trans: "refines i w w' \<Longrightarrow> refines i w' w'' \<Longrightarrow> refines i w w''"
  unfolding refines_def by (rule rtranclp_trans)

lemma refines_inv: "refines i w w' \<Longrightarrow> db_inv (db_of w) \<Longrightarrow> db_inv (db_of w')"
  unfolding refines_def by (rule db_system.ainv_run)

lemma refines_step: "db_step i (db_of w) (db_of w') \<Longrightarrow> refines i w w'"
  unfolding refines_def by (rule r_into_rtranclp)

lemma UpdateStep_refines:
  assumes inv: "db_inv (db_of w)" and u: "repo_UpdateStep t w = (e, w')"
    and s: "s \<in> set (fst (db_of w))" "si_ID s = i"
    and row: "row \<in> set (snd (db_of w))" "ss_SagaID row = i" "step_frozen t row"
    and mv: "step_move (si_Status s) (ss_Status row) (ss_Status t)"
  shows "refines i w w' \<and> fst (db_of w') = fst (db_of w) \<and>
         (e = None \<longrightarrow> t \<in> set (snd (db_of w')))"
proof (cases e)
  case None
  have sagas: "saga_instances w' = saga_instances w"
    using u by (auto simp: repo_UpdateStep_def split: prod.splits if_splits)
  have r: "saga_steps w' = replace_row ss_ID t (saga_steps w) \<and> t \<in> set (saga_steps w')"
    by (rule step_table.upd_replaces[of t w w' row])
       (use u None inv row in \<open>simp_all add: db_inv_def db_of_def\<close>)
  have "db_step i (db_of w) (saga_instances w, replace_row ss_ID t (saga_steps w))"
    using s row mv unfolding db_of_def by (intro db_step.change_step[of s _ _ row]) simp_all
  then have "db_step i (db_of w) (db_of w')" using r sagas by (simp add: db_of_def)
  from refines_step[OF this] show ?thesis using conjunct2[OF r] sagas by (simp add: db_of_def)
next
  case (Some a)
  then have "db_of w' = db_of w"
    using u by (auto simp: repo_UpdateStep_def db_of_def split: prod.splits if_splits)
  then show ?thesis using Some by simp
qed

lemma Update_refines:
  assumes inv: "db_inv (db_of w)" and u: "repo_Update s' w = (e, w')"
    and s: "s \<in> set (fst (db_of w))" "si_ID s = i" "saga_frozen s' s"
    and mv: "saga_move (snd (db_of w)) s s'"
  shows "refines i w w' \<and> snd (db_of w') = snd (db_of w) \<and>
         (e = None \<longrightarrow> s' \<in> set (fst (db_of w')))"
proof (cases e)
  case None
  have steps: "saga_steps w' = saga_steps w"
    using u by (auto simp: repo_Update_def split: prod.splits if_splits)
  have r: "saga_instances w' = replace_row si_ID s' (saga_instances w) \<and> s' \<in> set (saga_instances w')"
    by (rule saga_table.upd_replaces[of s' w w' s])
       (use u None inv s in \<open>simp_all add: db_inv_def db_of_def\<close>)
  have "db_step i (db_of w) (replace_row si_ID s' (saga_instances w), saga_steps w)"
    using s mv unfolding db_of_def by (intro db_step.change_saga[of s]) simp_all
  then have "db_step i (db_of w) (db_of w')" using r steps by (simp add: db_of_def)
  from refines_step[OF this] show ?thesis using conjunct2[OF r] steps by (simp add: db_of_def)
next
  case (Some a)
  then have "db_of w' = db_of w"
    using u by (auto simp: repo_Update_def db_of_def split: prod.splits if_splits)
  then show ?thesis using Some by simp
qed

section \<open>The processor\<close>

lemma failSaga_refines:
  assumes inv: "db_inv (db_of w)" and f: "failSaga E s msg w = (e, w')"
    and s: "s \<in> set (fst (db_of w))" "si_ID s = i" "si_Status s \<noteq> SagaStatusCompleted"
  shows "refines i w w'"
proof -
  let ?s = "s\<lparr>si_Status := SagaStatusFailed, si_UpdatedAt := clock w, si_ErrorMessage := Some msg\<rparr>"
  obtain e1 w1 where u: "repo_Update ?s w = (e1, w1)" by fastforce
  have "refines i w w1"
    using Update_refines[OF inv u s(1,2)] s by (simp add: saga_frozen_def saga_move.saga_abort)
  moreover have "db_of w' = db_of w1"
    using f u by (cases e1) (auto simp: failSaga_def Let_def)
  ultimately show ?thesis by (simp add: refines_def)
qed

lemma completeSaga_refines:
  assumes inv: "db_inv (db_of w)" and c: "completeSaga E s w = (e, w')"
    and s: "s \<in> set (fst (db_of w))" "si_ID s = i" "saga_active (si_Status s)"
    and fin: "\<forall>t \<in> set (snd (db_of w)). ss_SagaID t = i \<longrightarrow> step_done t"
  shows "refines i w w'"
proof -
  let ?s = "s\<lparr>si_Status := SagaStatusCompleted, si_CompletedAt := Some (clock w),
              si_UpdatedAt := clock w\<rparr>"
  obtain e1 w1 where u: "repo_Update ?s w = (e1, w1)" by fastforce
  have "refines i w w1"
    using Update_refines[OF inv u s(1,2)] s fin by (simp add: saga_frozen_def saga_move.saga_finish)
  moreover have "db_of w' = db_of w1"
    using c u by (cases e1) (auto simp: completeSaga_def Let_def)
  ultimately show ?thesis by (simp add: refines_def)
qed

lemma failStep_refines:
  assumes inv: "db_inv (db_of w)" and f: "failStep E s t msg w = (e, w')"
    and s: "s \<in> set (fst (db_of w))" "si_ID s = i" "si_Status s \<noteq> SagaStatusCompleted"
    and t: "t \<in> set (snd (db_of w))" "ss_SagaID t = i" "ss_Status t = StepStatusInProgress"
  shows "refines i w w'"
proof -
  let ?t = "t\<lparr>ss_Status := StepStatusFailed, ss_CompletedAt := Some (clock w),
              ss_ErrorMessage := Some msg\<rparr>"
  obtain e1 w1 where u: "repo_UpdateStep ?t w = (e1, w1)" by fastforce
  have r1: "refines i w w1" and s1: "fst (db_of w1) = fst (db_of w)"
    and t1: "e1 = None \<Longrightarrow> ?t \<in> set (snd (db_of w1))"
    using UpdateStep_refines[OF inv u s(1,2) t(1,2)] t
    by (simp_all add: step_frozen_def step_move.step_fail)
  have inv1: "db_inv (db_of w1)" by (rule refines_inv[OF r1 inv])
  have again: "refines i w1 w2"
    if "e1 = None" "repo_UpdateStep x w1 = (e2, w2)" "step_frozen x ?t"
       "ss_Status x = StepStatusPending \<or> ss_Status x = StepStatusSkipped" for x e2 w2
    using UpdateStep_refines[OF inv1 that(2), of s i ?t] s s1 t t1[OF that(1)] that
    by (auto simp: step_move.step_again step_move.step_skip)
  have "refines i w1 w'"
  proof (cases e1)
    case None
    show ?thesis
      using f u None again s s1 inv1
      by (auto simp: failStep_def Let_def step_frozen_def
          split: prod.splits if_splits option.splits intro: failSaga_refines)
  next
    case (Some a)
    then show ?thesis using f u by (simp add: failStep_def Let_def)
  qed
  with r1 show ?thesis by (rule refines_trans)
qed

lemma executeStep_refines:
  assumes inv: "db_inv (db_of w)" and x: "executeStep E s t d w = (e, w')"
    and s: "s \<in> set (fst (db_of w))" "si_ID s = i" "saga_active (si_Status s)"
    and t: "t \<in> set (snd (db_of w))" "ss_SagaID t = i" "ss_Status t = StepStatusPending"
  shows "refines i w w'"
proof (cases "find (\<lambda>d. sd_Name d = ss_StepName t) (df_Steps d)")
  case None
  then show ?thesis using x by (simp add: executeStep_def)
next
  case (Some sd)
  let ?t = "t\<lparr>ss_Status := StepStatusInProgress, ss_StartedAt := Some (clock w)\<rparr>"
  obtain e1 w1 where u: "repo_UpdateStep ?t w = (e1, w1)" by fastforce
  have r1: "refines i w w1" and s1: "fst (db_of w1) = fst (db_of w)"
    and t1: "e1 = None \<Longrightarrow> ?t \<in> set (snd (db_of w1))"
    using UpdateStep_refines[OF inv u s(1,2) t(1,2)] s t
    by (simp_all add: step_frozen_def step_move.step_start)
  have inv1: "db_inv (db_of w1)" by (rule refines_inv[OF r1 inv])
  have nc: "si_Status s \<noteq> SagaStatusCompleted" using s by (auto simp: saga_active_def)
  have fails: "refines i w1 w'" if "e1 = None" "db_of w2 = db_of w1" "failStep E s ?t m w2 = (e, w')" for w2 m
  proof -
    have "refines i w2 w'"
      by (rule failStep_refines[OF _ that(3)]) (use that inv1 s s1 nc t t1 in simp_all)
    then show ?thesis using that by (simp add: refines_def)
  qed
  have moves: "refines i w1 w3"
    if "db_of w2 = db_of w1" "repo_Update (s\<lparr>si_CurrentStep := n, si_Status := SagaStatusInProgress,
        si_UpdatedAt := c\<rparr>) w2 = (e3, w3)" for w2 n c e3 w3
    using Update_refines[OF _ that(2), of s i] that(1) inv1 s s1
    by (simp add: saga_frozen_def saga_move.saga_progress refines_def)
  have "refines i w1 w'"
  proof (cases e1)
    case None
    show ?thesis
      using x u None Some fails moves
      by (auto simp: executeStep_def Let_def split: prod.splits option.splits dest: publishEvent_db)
  next
    case (Some a)
    then show ?thesis using x u \<open>find _ _ = Some sd\<close> by (simp add: executeStep_def Let_def)
  qed
  with r1 show ?thesis by (rule refines_trans)
qed

lemma processSaga_refines:
  assumes inv: "db_inv (db_of w)" and p: "processSaga E s w = (e, w')"
    and s: "s \<in> set (fst (db_of w))" "saga_active (si_Status s)"
  shows "refines (si_ID s) w w'"
proof (cases "map_of sagaDefinitions (si_SagaType s)")
  case None
  then show ?thesis using p by (simp add: processSaga_def)
next
  case (Some d)
  have nc: "si_Status s \<noteq> SagaStatusCompleted" using s by (auto simp: saga_active_def)
  obtain r w1 where g: "repo_GetSteps (si_ID s) w = (r, w1)" by fastforce
  have db: "db_of w1 = db_of w" by (rule GetSteps_db[OF g])
  have ref: "refines (si_ID s) w w' \<longleftrightarrow> refines (si_ID s) w1 w'" by (simp add: refines_def db)
  show ?thesis
  proof (cases "clock w - si_CreatedAt s > df_Timeout d")
    case True
    then have "failSaga E s ''saga timeout exceeded'' w = (e, w')"
      using p Some by (simp add: processSaga_def timeoutSaga_def)
    then show ?thesis by (rule failSaga_refines[OF inv]) (use s nc in simp_all)
  next
    case False
    note p' = p[unfolded processSaga_def Some, simplified, unfolded g, simplified]
    show ?thesis
    proof (cases r)
      case (Inl a)
      then show ?thesis using p' False db by simp
    next
      case (Inr ts)
      have ts: "set ts = {t \<in> set (snd (db_of w1)). ss_SagaID t = si_ID s}"
        using GetSteps_in[OF g[unfolded Inr]] db by simp
      show ?thesis
      proof (cases "find (\<lambda>t. ss_StepOrder t = si_CurrentStep s + 1 \<and>
                             ss_Status t = StepStatusPending) ts")
        case None
        then show ?thesis
          using p' False Inr db ts s inv
          by (auto simp: ref list_all_iff split: if_splits intro: completeSaga_refines[OF _ _ _ refl])
      next
        case (Some t)
        then have "t \<in> set ts" "ss_Status t = StepStatusPending"
          by (auto simp: find_Some_iff)
        then show ?thesis
          using p' False Inr Some db ts s inv
          by (auto simp: ref intro: executeStep_refines[OF _ _ _ refl])
      qed
    qed
  qed
qed

section \<open>Operations on several sagas\<close>

definition db_next :: "db \<Rightarrow> db \<Rightarrow> bool" where
  "db_next d d' \<longleftrightarrow> (\<exists>i. db_step i d d')"

definition evolves :: "World \<Rightarrow> World \<Rightarrow> bool" where
  "evolves w w' \<longleftrightarrow> db_next\<^sup>*\<^sup>* (db_of w) (db_of w')"

interpretation db_any: transition_system "\<lambda>_ :: unit. db_next" db_inv
  by unfold_locales (auto simp: db_next_def intro: db_inv_step)

lemma refines_evolves: "refines i w w' \<Longrightarrow> evolves w w'"
  unfolding refines_def evolves_def
  by (erule rtranclp_mono[THEN predicate2D, rotated]) (auto simp: db_next_def)

lemma evolves_refl [simp]: "db_of w' = db_of w \<Longrightarrow> evolves w w'"
  by (simp add: evolves_def)

lemma evolves_trans: "evolves w w' \<Longrightarrow> evolves w' w'' \<Longrightarrow> evolves w w''"
  unfolding evolves_def by (rule rtranclp_trans)

lemma evolves_inv: "evolves w w' \<Longrightarrow> db_inv (db_of w) \<Longrightarrow> db_inv (db_of w')"
  unfolding evolves_def by (rule db_any.ainv_run)

lemma process_sagas_evolves:
  assumes "db_inv (db_of w)" "distinct (map si_ID ss)"
    and "\<forall>s \<in> set ss. s \<in> set (fst (db_of w)) \<and> saga_active (si_Status s)"
  shows "evolves w (process_sagas E ss w)"
  using assms
proof (induction ss arbitrary: w)
  case (Cons s ss)
  obtain e w1 where p: "processSaga E s w = (e, w1)" by fastforce
  have r: "refines (si_ID s) w w1"
    by (rule processSaga_refines[OF _ p]) (use Cons.prems in auto)
  have "evolves w1 (process_sagas E ss w1)"
  proof (rule Cons.IH)
    show "db_inv (db_of w1)" by (rule refines_inv[OF r Cons.prems(1)])
    show "\<forall>x \<in> set ss. x \<in> set (fst (db_of w1)) \<and> saga_active (si_Status x)"
    proof
      fix x assume x: "x \<in> set ss"
      then have "si_ID x \<noteq> si_ID s"
        using Cons.prems(2) by (metis distinct.simps(2) image_eqI list.set_map list.simps(9))
      moreover have "x \<in> set (fst (db_of w))" "saga_active (si_Status x)"
        using Cons.prems(3) x by auto
      ultimately show "x \<in> set (fst (db_of w1)) \<and> saga_active (si_Status x)"
        using db_run_other_saga[OF r[unfolded refines_def] Cons.prems(1)] by blast
    qed
  qed (use Cons.prems in simp)
  then show ?case using refines_evolves[OF r] p evolves_trans by simp
qed simp

lemma process_statuses_evolves:
  assumes "db_inv (db_of w)" "\<forall>st \<in> set sts. saga_active st"
    and "process_statuses E sts w = (e, w')"
  shows "evolves w w'"
  using assms
proof (induction sts arbitrary: w)
  case (Cons st sts)
  obtain r w1 where l: "repo_List 100 0 (Some st) w = (r, w1)" by fastforce
  note db = List_db[OF l]
  show ?case
  proof (cases r)
    case (Inl a)
    then show ?thesis using Cons.prems(3) l db by simp
  next
    case (Inr b)
    obtain ss n where b: "b = (ss, n)" by fastforce
    let ?w2 = "process_sagas E ss w1"
    have ev: "evolves w1 ?w2"
      using List_in[OF l[unfolded Inr b]] List_distinct[OF l[unfolded Inr b]] Cons.prems db
      by (intro process_sagas_evolves) (auto simp: db_inv_def)
    have "evolves ?w2 w'"
      by (rule Cons.IH) (use ev evolves_inv Cons.prems l Inr b db in auto)
    then have "evolves w1 w'" by (rule evolves_trans[OF ev])
    then show ?thesis by (simp add: evolves_def db)
  qed
qed simp

lemma processPendingSagas_evolves:
  assumes "db_inv (db_of w)" "processPendingSagas E w = (e, w')"
  shows "evolves w w'"
  by (rule process_statuses_evolves[OF assms(1) _ assms(2)[unfolded processPendingSagas_def]])
     (simp add: saga_active_def)

section \<open>Creating, compensating and retrying\<close>

lemma Create_refines:
  assumes inv: "db_inv (db_of w)" and c: "repo_Create s w = (None, w')"
    and s: "si_Status s = SagaStatusStarted" "si_RetryCount s = 0" "si_MaxRetries s \<ge> 0"
      "si_CompletedAt s = None" "si_ErrorMessage s = None"
  shows "refines (si_ID s) w w' \<and> s \<in> set (fst (db_of w'))"
proof -
  have "s\<lparr>si_CompletedAt := None, si_ErrorMessage := None\<rparr> = s" using s by simp
  then have db: "db_of w' = (saga_instances w @ [s], saga_steps w)"
    and new: "si_ID s \<notin> si_ID ` set (saga_instances w)"
    using c by (auto simp: repo_Create_def db_of_def split: prod.splits if_splits)
  have "db_step (si_ID s) (saga_instances w, saga_steps w) (saga_instances w @ [s], saga_steps w)"
  proof (rule db_step.new_saga)
    have fk: "ss_SagaID ` set (saga_steps w) \<subseteq> si_ID ` set (saga_instances w)"
      using inv by (simp add: db_inv_def db_of_def)
    show "\<forall>t \<in> set (saga_steps w). ss_SagaID t \<noteq> si_ID s"
    proof
      fix t assume "t \<in> set (saga_steps w)"
      from subsetD[OF fk imageI[OF this]] show "ss_SagaID t \<noteq> si_ID s" using new by metis
    qed
  qed (use s new in simp_all)
  then show ?thesis using db refines_step by (simp add: db_of_def)
qed

lemma createSagaSteps_refines:
  assumes "db_inv (db_of w)" "createSagaSteps E s ds w = (e, w')"
    and "s \<in> set (fst (db_of w))" "si_Status s = SagaStatusStarted"
  shows "refines (si_ID s) w w'"
  using assms
proof (induction ds arbitrary: w)
  case (Cons d ds)
  obtain i w1 where n: "new_uuid E w = (i, w1)" by fastforce
  let ?t = "\<lparr>ss_ID = i, ss_SagaID = si_ID s, ss_StepName = sd_Name d,
             ss_StepOrder = sd_Order d, ss_Status = StepStatusPending,
             ss_InputData = JNull, ss_OutputData = JNull, ss_ErrorMessage = None,
             ss_StartedAt = None, ss_CompletedAt = None, ss_RetryCount = 0,
             ss_CompensationData = JNull\<rparr>"
  obtain e1 w2 where c: "repo_CreateStep ?t w1 = (e1, w2)" by fastforce
  note db1 = new_uuid_db[OF n]
  show ?case
  proof (cases e1)
    case None
    then have db2: "db_of w2 = (fst (db_of w), snd (db_of w) @ [?t])"
      and new: "i \<notin> ss_ID ` set (snd (db_of w))"
      using c db1 by (auto simp: repo_CreateStep_def db_of_def split: prod.splits if_splits)
    have "db_step (si_ID s) (fst (db_of w), snd (db_of w)) (db_of w2)"
      unfolding db2 using Cons.prems(3,4) new by (intro db_step.new_step[of s]) simp_all
    then have r: "refines (si_ID s) w w2" by (intro refines_step) simp
    have "refines (si_ID s) w2 w'"
      by (rule Cons.IH[OF refines_inv[OF r Cons.prems(1)]])
         (use Cons.prems n c None db2 in \<open>simp_all add: Let_def\<close>)
    with r show ?thesis by (rule refines_trans)
  next
    case (Some a)
    then have "db_of w2 = db_of w1"
      using c by (auto simp: repo_CreateStep_def db_of_def split: prod.splits if_splits)
    then show ?thesis using Cons.prems(2) n c Some db1 by (simp add: Let_def)
  qed
qed simp

lemma sagaDefinitions_retries: "map_of sagaDefinitions ty = Some d \<Longrightarrow> df_MaxRetries d = 3"
  by (auto simp: sagaDefinitions_def order_processing_definition_def payment_refund_definition_def
      split: if_splits)

lemma CompensateSaga_refines:
  assumes inv: "db_inv (db_of w)" and c: "CompensateSaga E i reason w = (e, w')"
  shows "refines i w w'"
proof -
  obtain r w1 where g: "repo_GetByID i w = (r, w1)" by fastforce
  note db = GetByID_db[OF g]
  show ?thesis
  proof (cases r)
    case (Inl a)
    then show ?thesis using c g db by (simp add: CompensateSaga_def Let_def)
  next
    case (Inr s)
    have s: "s \<in> set (fst (db_of w1))" "si_ID s = i"
      using GetByID_in[OF g[unfolded Inr]] db by auto
    let ?s = "s\<lparr>si_Status := SagaStatusFailed, si_UpdatedAt := clock w1,
                si_ErrorMessage := Some reason\<rparr>"
    obtain e1 w2 where u: "repo_Update ?s w1 = (e1, w2)" by fastforce
    have r: "refines i w1 w2" if "\<not> SagaStatus_IsTerminal (si_Status s)"
      using Update_refines[OF _ u s] inv db that
      by (simp add: saga_frozen_def saga_move.saga_abort SagaStatus_IsTerminal_def)
    have "db_of w' = (if SagaStatus_IsTerminal (si_Status s) then db_of w1 else db_of w2)"
      using c g Inr u
      by (auto simp: CompensateSaga_def Let_def split: if_splits option.splits prod.splits
          dest: StartCompensation_db)
    then show ?thesis using r db by (auto simp: refines_def split: if_splits)
  qed
qed

lemma UpdateStep_keeps:
  assumes u: "repo_UpdateStep t w = (e, w')" and row: "row \<in> set (snd (db_of w))"
  shows "\<exists>row' \<in> set (snd (db_of w')). step_frozen row' row"
proof -
  define f where "f = (\<lambda>row. if ss_ID row = ss_ID t then step_set t row else row)"
  have "saga_steps w' = (if e = None then map f (saga_steps w) else saga_steps w)"
    using u by (cases e) (auto simp: f_def dest: step_table.upd_ok step_table.upd_err)
  moreover have "step_frozen (f row) row" "step_frozen row row"
    by (simp_all add: f_def step_set_def step_frozen_def)
  ultimately show ?thesis using row unfolding db_of_def by (cases e) auto
qed

lemma reset_steps_refines:
  assumes "db_inv (db_of w)" "reset_steps from ts w = (e, w')"
    and "s \<in> set (fst (db_of w))" "si_Status s = SagaStatusInProgress"
    and "\<forall>t \<in> set ts. \<exists>row \<in> set (snd (db_of w)). step_frozen t row \<and> ss_SagaID row = si_ID s"
  shows "refines (si_ID s) w w'"
  using assms
proof (induction ts arbitrary: w)
  case (Cons t ts)
  show ?case
  proof (cases "ss_StepOrder t \<ge> from")
    case False
    then show ?thesis using Cons by simp
  next
    case True
    let ?t = "t\<lparr>ss_Status := StepStatusPending, ss_StartedAt := None, ss_CompletedAt := None,
                ss_ErrorMessage := None, ss_RetryCount := 0\<rparr>"
    obtain e1 w1 where u: "repo_UpdateStep ?t w = (e1, w1)" by fastforce
    obtain row where row: "row \<in> set (snd (db_of w))" "step_frozen t row" "ss_SagaID row = si_ID s"
      using Cons.prems(5) by auto
    have r: "refines (si_ID s) w w1" and s1: "fst (db_of w1) = fst (db_of w)"
      using UpdateStep_refines[OF Cons.prems(1) u Cons.prems(3) refl row(1,3)] row Cons.prems(4)
      by (simp_all add: step_frozen_def step_move.step_reset)
    show ?thesis
    proof (cases e1)
      case None
      have "refines (si_ID s) w1 w'"
      proof (rule Cons.IH[OF refines_inv[OF r Cons.prems(1)]])
        show "\<forall>t \<in> set ts. \<exists>row \<in> set (snd (db_of w1)). step_frozen t row \<and> ss_SagaID row = si_ID s"
        proof
          fix x assume "x \<in> set ts"
          then obtain row where "row \<in> set (snd (db_of w))" "step_frozen x row" "ss_SagaID row = si_ID s"
            using Cons.prems(5) by auto
          moreover from UpdateStep_keeps[OF u this(1)]
          obtain row' where "row' \<in> set (snd (db_of w1))" "step_frozen row' row" by blast
          ultimately show "\<exists>row \<in> set (snd (db_of w1)). step_frozen x row \<and> ss_SagaID row = si_ID s"
            by (intro bexI[of _ row']) (simp_all add: step_frozen_def)
        qed
      qed (use Cons.prems True u None s1 in \<open>simp_all add: Let_def\<close>)
      with r show ?thesis by (rule refines_trans)
    next
      case (Some a)
      then show ?thesis using Cons.prems(2) True u r by (simp add: Let_def)
    qed
  qed
qed simp

lemma RetrySaga_refines:
  assumes inv: "db_inv (db_of w)" and c: "RetrySaga i from w = (e, w')"
  shows "refines i w w'"
proof -
  obtain r w1 where g: "repo_GetByID i w = (r, w1)" by fastforce
  note db = GetByID_db[OF g]
  show ?thesis
  proof (cases r)
    case (Inl a)
    then show ?thesis using c g db by (simp add: RetrySaga_def Let_def)
  next
    case (Inr s)
    have s: "s \<in> set (fst (db_of w1))" "si_ID s = i"
      using GetByID_in[OF g[unfolded Inr]] db by auto
    let ?s = "s\<lparr>si_Status := SagaStatusInProgress, si_CurrentStep := from,
                si_RetryCount := si_RetryCount s + 1, si_UpdatedAt := clock w1,
                si_ErrorMessage := None\<rparr>"
    obtain e1 w2 where u: "repo_Update ?s w1 = (e1, w2)" by fastforce
    obtain e2 w3 where rs: "resetSagaSteps i from w2 = (e2, w3)" by fastforce
    show ?thesis
    proof (cases "si_Status s = SagaStatusFailed \<and> si_RetryCount s < si_MaxRetries s")
      case False
      then show ?thesis using c g Inr db by (auto simp: RetrySaga_def Let_def split: if_splits)
    next
      case True
      have r2: "refines i w1 w2" and s2: "e1 = None \<Longrightarrow> ?s \<in> set (fst (db_of w2))"
        using Update_refines[OF _ u s] inv db True
        by (simp_all add: saga_frozen_def saga_move.saga_retry)
      have inv2: "db_inv (db_of w2)" by (rule refines_inv[OF r2]) (simp add: inv db)
      have r3: "refines i w2 w3" if "e1 = None"
      proof -
        obtain q w2' where gs: "repo_GetSteps i w2 = (q, w2')" by fastforce
        note db' = GetSteps_db[OF gs]
        show ?thesis
        proof (cases q)
          case (Inl a)
          then show ?thesis using rs gs db' by (simp add: resetSagaSteps_def)
        next
          case (Inr ts)
          have "refines (si_ID ?s) w2' w3"
          proof (rule reset_steps_refines)
            show "db_inv (db_of w2')" using inv2 db' by simp
            show "reset_steps from ts w2' = (e2, w3)"
              using rs gs Inr by (simp add: resetSagaSteps_def)
            show "\<forall>t \<in> set ts. \<exists>row \<in> set (snd (db_of w2')). step_frozen t row \<and> ss_SagaID row = si_ID ?s"
              using GetSteps_in[OF gs[unfolded Inr]] db' s by (auto simp: step_frozen_def)
          qed (use s2 that db' in simp_all)
          then show ?thesis using s db' by (simp add: refines_def)
        qed
      qed
      have "w' = (if e1 = None then w3 else w2)"
        using c g Inr u rs True
        by (auto simp: RetrySaga_def Let_def split: option.splits)
      then have "refines i w1 w'" using r2 r3 refines_trans by auto
      then show ?thesis by (simp add: refines_def db)
    qed
  qed
qed

lemma CreateSaga_evolves:
  assumes inv: "db_inv (db_of w)" and c: "CreateSaga E req w = (r, w')"
  shows "evolves w w'"
proof -
  obtain ca w1 where ca: "cached_saga req w = (ca, w1)" by fastforce
  obtain i w2 where n: "new_uuid E w1 = (i, w2)" by fastforce
  have db: "db_of w2 = db_of w" "db_of w1 = db_of w"
    using cached_saga_db[OF ca] new_uuid_db[OF n] by auto
  show ?thesis
  proof (cases "ca = None \<and> map_of sagaDefinitions (rq_SagaType req) \<noteq> None")
    case False
    then show ?thesis using c ca db by (auto simp: CreateSaga_def split: option.splits)
  next
    case True
    then obtain d where d: "map_of sagaDefinitions (rq_SagaType req) = Some d" by auto
    let ?s = "new_saga_instance i req d (clock w2)"
    obtain e w3 where cr: "repo_Create ?s w2 = (e, w3)" by fastforce
    obtain e' w4 where st: "createSagaSteps E ?s (df_Steps d) w3 = (e', w4)" by fastforce
    show ?thesis
    proof (cases e)
      case None
      have r: "refines i w2 w3" and s: "?s \<in> set (fst (db_of w3))"
        using Create_refines[OF _ cr[unfolded None]] inv db sagaDefinitions_retries[OF d]
        by (simp_all add: new_saga_instance_def)
      have inv3: "db_inv (db_of w3)" by (rule refines_inv[OF r]) (simp add: inv db)
      have "refines (si_ID ?s) w3 w4"
        by (rule createSagaSteps_refines[OF inv3 st s]) (simp add: new_saga_instance_def)
      then have "refines i w2 w4" using r refines_trans by (simp add: new_saga_instance_def)
      moreover have "db_of w' = db_of w4"
        using c ca True d n cr None st
        by (auto simp: CreateSaga_def Let_def split: option.splits prod.splits
            dest!: new_uuid_db publishEvent_db)
      ultimately show ?thesis using refines_evolves[of i w2 w4] by (simp add: evolves_def db)
    next
      case (Some a)
      then have "w' = w3" and "db_of w3 = db_of w2"
        using c ca True d n cr
        by (auto simp: CreateSaga_def Let_def repo_Create_def db_of_def
            split: prod.splits if_splits)
      then show ?thesis using db by simp
    qed
  qed
qed

section \<open>The consumer\<close>

text \<open>Both handlers of a step look it up in the same way.\<close>

lemma in_progress_step:
  assumes g: "repo_GetByID i w = (Inr s, w1)" and gs: "repo_GetSteps i w1 = (Inr ts, w2)"
    and f: "find_in_progress nm ts = Some t"
  shows "db_of w2 = db_of w \<and> s \<in> set (fst (db_of w2)) \<and> si_ID s = i \<and>
    t \<in> set (snd (db_of w2)) \<and> ss_SagaID t = i \<and> ss_Status t = StepStatusInProgress"
proof -
  have "t \<in> set ts" "ss_Status t = StepStatusInProgress"
    using f by (auto simp: find_in_progress_def find_Some_iff)
  then show ?thesis using GetByID_in[OF g] GetSteps_in[OF gs] GetByID_db[OF g] GetSteps_db[OF gs]
    by auto
qed

lemma completeStep_refines:
  assumes inv: "db_inv (db_of w)" and c: "completeStep E ev nm w = (e, w')"
  shows "\<exists>i. refines i w w'"
proof (cases "extractSagaID E ev")
  case (Inl a)
  then show ?thesis using c by (auto simp: completeStep_def)
next
  case (Inr i)
  have upd: "refines i w w3"
    if "repo_GetByID i w = (Inr s, w1)" "repo_GetSteps i w1 = (Inr ts, w2)"
      "find_in_progress nm ts = Some t"
      "repo_UpdateStep (t\<lparr>ss_Status := StepStatusCompleted, ss_CompletedAt := Some n,
        ss_OutputData := out\<rparr>) w2 = (e3, w3)" for s ts t w1 w2 w3 e3 n out
    using in_progress_step[OF that(1,2,3)] UpdateStep_refines[OF _ that(4), of s i t] inv
    by (auto simp: refines_def step_frozen_def step_move.step_complete)
  have "refines i w w'"
    using c Inr upd
    by (auto simp: completeStep_def Let_def split: prod.splits sum.splits option.splits
        dest!: GetByID_db GetSteps_db)
  then show ?thesis by blast
qed

lemma in_progress_not_completed:
  assumes "db_inv d" "s \<in> set (fst d)" "t \<in> set (snd d)" "ss_SagaID t = si_ID s"
    "ss_Status t = StepStatusInProgress"
  shows "si_Status s \<noteq> SagaStatusCompleted"
proof
  assume "si_Status s = SagaStatusCompleted"
  then have "step_done t" using assms by (simp add: db_inv_def list_all_iff saga_ok_def)
  then show False using assms(5) by (simp add: step_done_def)
qed

lemma failStepFromEvent_refines:
  assumes inv: "db_inv (db_of w)" and c: "failStepFromEvent E ev nm w = (e, w')"
  shows "\<exists>i. refines i w w'"
proof (cases "extractSagaID E ev")
  case (Inl a)
  then show ?thesis using c by (auto simp: failStepFromEvent_def)
next
  case (Inr i)
  have fl: "refines i w w'"
    if "repo_GetByID i w = (Inr s, w1)" "repo_GetSteps i w1 = (Inr ts, w2)"
      "find_in_progress nm ts = Some t" "failStep E s t msg w2 = (e, w')" for s ts t w1 w2 msg
  proof -
    note p = in_progress_step[OF that(1,2,3)]
    have "si_Status s \<noteq> SagaStatusCompleted"
      by (rule in_progress_not_completed[of "db_of w2" s t]) (use p inv in auto)
    then have "refines i w2 w'"
      using p inv by (intro failStep_refines[OF _ that(4)]) auto
    then show ?thesis using p by (simp add: refines_def)
  qed
  have "refines i w w'"
    using c Inr fl
    by (auto simp: failStepFromEvent_def Let_def split: prod.splits sum.splits option.splits
        dest!: GetByID_db GetSteps_db)
  then show ?thesis by blast
qed

lemma handleEvent_evolves:
  assumes inv: "db_inv (db_of w)" and h: "handleEvent E topic key v w = (e, w')"
  shows "evolves w w'"
proof -
  have "evolves w w'" if "completeStep E ev nm w = (e, w')" for ev nm
    using completeStep_refines[OF inv that] refines_evolves by blast
  moreover have "evolves w w'" if "failStepFromEvent E ev nm w = (e, w')" for ev nm
    using failStepFromEvent_refines[OF inv that] refines_evolves by blast
  ultimately show ?thesis using h
    by (auto simp: handleEvent_def handleInventoryEvent_def handlePaymentEvent_def
        handleNotificationEvent_def handleSagaEvent_def split: if_splits option.splits)
qed

lemma Subscribe_evolves:
  "db_inv (db_of w) \<Longrightarrow> KafkaConsumer_Subscribe E msgs w = (c, w') \<Longrightarrow> evolves w w'"
proof (induction msgs arbitrary: c w)
  case (Cons m msgs)
  obtain topic key v where m: "m = (topic, key, v)" by (cases m)
  obtain err w1 where h: "handleEvent E topic key v w = (err, w1)" by fastforce
  have ev: "evolves w w1" by (rule handleEvent_evolves[OF Cons.prems(1) h])
  have inv1: "db_inv (db_of w1)" by (rule evolves_inv[OF ev Cons.prems(1)])
  have "evolves w1 w'"
  proof (cases err)
    case None
    obtain b w2 where x: "external_call w1 = (b, w2)" by fastforce
    obtain c' where "KafkaConsumer_Subscribe E msgs w2 = (c', w')"
      using Cons.prems(2) m h None x by (auto simp: Let_def split: prod.splits)
    then have "evolves w2 w'" using Cons.IH external_call_db[OF x] inv1 by simp
    then show ?thesis using external_call_db[OF x] by (simp add: evolves_def)
  next
    case (Some a)
    then show ?thesis using Cons.IH[OF inv1] Cons.prems(2) m h by simp
  qed
  with ev show ?case by (rule evolves_trans)
qed simp

end
