(* ===== verification/Saga_Outbox.thy ===== *)
theory Saga_Outbox
  imports Saga_Refinement
begin

text \<open>
  The transactional outbox, \<open>internal/orchestrator/outbox.go\<close>: its operations, the life cycle of an
  outbox row and the at-least-once guarantee, that a row marked \<open>PROCESSED\<close> has its record in the
  Kafka log. \<open>AddDate(0, 0, -7)\<close> is seven times 24 hours (UTC).
\<close>

section \<open>Operations\<close>

definition markEventAsFailed ::
  "OutboxEvent \<Rightarrow> string \<Rightarrow> World \<Rightarrow> goerror option \<times> World" where
  "markEventAsFailed event reason w0 =
     (let (err, w1) = outbox_UpdateEvent
            (event\<lparr>oe_Status := ''FAILED'', oe_ProcessedAt := Some (clock w0)\<rparr>) w0
      in case err of
           Some e \<Rightarrow> (Some ''failed to mark event as failed'', w1)
         | None \<Rightarrow> (None, w1))"

definition getTopicForEvent :: "OutboxEvent \<Rightarrow> string" where
  "getTopicForEvent event =
     (if oe_AggregateType event = ''saga'' then ''saga-events''
      else if oe_AggregateType event = ''inventory'' then ''inventory-events''
      else if oe_AggregateType event = ''payment'' then ''payment-events''
      else if oe_AggregateType event = ''notification'' then ''notification-events''
      else if contains (oe_EventType event) ''inventory'' then ''inventory-events''
      else if contains (oe_EventType event) ''payment'' then ''payment-events''
      else if contains (oe_EventType event) ''notification'' then ''notification-events''
      else if contains (oe_EventType event) ''saga'' then ''saga-events''
      else '''')"

definition outbox_key :: "OutboxEvent \<Rightarrow> string" where
  "outbox_key event =
     (case oe_CorrelationID event of None \<Rightarrow> oe_AggregateID event | Some c \<Rightarrow> c)"

definition processOutboxEvent :: "OutboxEvent \<Rightarrow> World \<Rightarrow> goerror option \<times> World" where
  "processOutboxEvent event w0 =
     (if oe_RetryCount event \<ge> 5 then markEventAsFailed event ''max retries exceeded'' w0
      else
        let topic = getTopicForEvent event in
        if topic = '''' then markEventAsFailed event ''unknown event type'' w0
        else
          let (err, w1) = PublishEvent topic (outbox_key event) (MJson (oe_EventData event)) w0 in
          case err of
            Some e \<Rightarrow>
              (Some ''failed to publish event'',
               snd (outbox_UpdateEvent (event\<lparr>oe_RetryCount := oe_RetryCount event + 1\<rparr>) w1))
          | None \<Rightarrow>
              (let (err', w2) = outbox_UpdateEvent
                     (event\<lparr>oe_Status := ''PROCESSED'', oe_ProcessedAt := Some (clock w1)\<rparr>) w1
               in case err' of
                    Some e \<Rightarrow> (Some ''failed to mark event as processed'', w2)
                  | None \<Rightarrow> (None, w2)))"

fun process_outbox_events :: "OutboxEvent list \<Rightarrow> World \<Rightarrow> World" where
  "process_outbox_events [] w = w"
| "process_outbox_events (event # events) w =
     process_outbox_events events (snd (processOutboxEvent event w))"

definition processOutboxEvents :: "World \<Rightarrow> goerror option \<times> World" where
  "processOutboxEvents w0 =
     (let (r, w1) = outbox_GetPendingEvents 100 w0 in
      case r of
        Inl e \<Rightarrow> (Some ''failed to get pending outbox events'', w1)
      | Inr events \<Rightarrow>
          if events = [] then (None, w1) else (None, process_outbox_events events w1))"

definition CreateOutboxEvent ::
  "Env \<Rightarrow> string \<Rightarrow> string \<Rightarrow> string \<Rightarrow> json \<Rightarrow> string option \<Rightarrow> string option \<Rightarrow> World \<Rightarrow>
   goerror option \<times> World" where
  "CreateOutboxEvent E aggregateID aggregateType eventType eventData correlationID causationID w0 =
     (let (i, w1) = new_uuid E w0;
          event = \<lparr>oe_ID = i, oe_AggregateID = aggregateID, oe_AggregateType = aggregateType,
                   oe_EventType = eventType, oe_EventData = eventData, oe_CreatedAt = clock w1,
                   oe_ProcessedAt = None, oe_Status = ''PENDING'', oe_RetryCount = 0,
                   oe_CorrelationID = correlationID, oe_CausationID = causationID,
                   oe_Version = 1\<rparr>;
          (err, w2) = outbox_CreateEvent event w1
      in case err of
           Some e \<Rightarrow> (Some ''failed to create outbox event'', w2)
         | None \<Rightarrow> (None, w2))"

definition CleanupProcessedEvents :: "World \<Rightarrow> goerror option \<times> World" where
  "CleanupProcessedEvents w0 =
     (let (r, w1) = outbox_DeleteProcessedEventsBefore (clock w0 - 7 * 24 * hour) w0 in
      case r of
        Inl e \<Rightarrow> (Some ''failed to cleanup processed events'', w1)
      | Inr n \<Rightarrow> (None, w1))"

record OutboxMetrics =
  pending_events :: int
  processed_events :: int
  failed_events :: int
  total_events :: int

definition GetOutboxMetrics :: "World \<Rightarrow> (goerror + OutboxMetrics) \<times> World" where
  "GetOutboxMetrics w0 =
     (let (r1, w1) = outbox_CountEventsByStatus ''PENDING'' w0 in
      case r1 of
        Inl e \<Rightarrow> (Inl ''failed to count pending events'', w1)
      | Inr pending \<Rightarrow>
          (let (r2, w2) = outbox_CountEventsByStatus ''PROCESSED'' w1 in
           case r2 of
             Inl e \<Rightarrow> (Inl ''failed to count processed events'', w2)
           | Inr processed \<Rightarrow>
               (let (r3, w3) = outbox_CountEventsByStatus ''FAILED'' w2 in
                case r3 of
                  Inl e \<Rightarrow> (Inl ''failed to count failed events'', w3)
                | Inr failed \<Rightarrow>
                    (Inr \<lparr>pending_events = pending, processed_events = processed,
                          failed_events = failed,
                          total_events = pending + processed + failed\<rparr>, w3))))"

section \<open>The invariant of the outbox\<close>

definition record_of :: "OutboxEvent \<Rightarrow> string \<times> string \<times> Message" where
  "record_of e = (getTopicForEvent e, outbox_key e, MJson (oe_EventData e))"

lemma record_of_frozen: "event_frozen e row \<Longrightarrow> record_of e = record_of row"
  by (simp add: event_frozen_def record_of_def getTopicForEvent_def outbox_key_def
      split: option.split)

definition event_ok :: "(string \<times> string \<times> Message) set \<Rightarrow> OutboxEvent \<Rightarrow> bool" where
  "event_ok L e \<longleftrightarrow>
     0 \<le> oe_RetryCount e \<and> oe_RetryCount e \<le> 5 \<and>
     (oe_Status e = ''PENDING'' \<and> oe_ProcessedAt e = None \<or>
      oe_Status e = ''PROCESSED'' \<and> oe_ProcessedAt e \<noteq> None \<and> record_of e \<in> L \<or>
      oe_Status e = ''FAILED'' \<and> oe_ProcessedAt e \<noteq> None)"

definition outbox_inv :: "World \<Rightarrow> bool" where
  "outbox_inv w \<longleftrightarrow>
     distinct (map oe_ID (outbox_events w)) \<and>
     list_all (event_ok (set (kafka_log w))) (outbox_events w)"

text \<open>Operations outside the outbox leave its rows alone and only append to the Kafka log.\<close>

definition grows :: "World \<Rightarrow> World \<Rightarrow> bool" where
  "grows w w' \<longleftrightarrow> outbox_events w' = outbox_events w \<and> set (kafka_log w) \<subseteq> set (kafka_log w')"

named_theorems grow_frame

lemma grows_refl [simp]: "grows w w"
  by (simp add: grows_def)

lemma grows_trans: "grows w w' \<Longrightarrow> grows w' w'' \<Longrightarrow> grows w w''"
  by (auto simp: grows_def)

lemma event_ok_new:
  "oe_RetryCount e = 0 \<Longrightarrow> oe_Status e = ''PENDING'' \<Longrightarrow> oe_ProcessedAt e = None \<Longrightarrow> event_ok L e"
  by (simp add: event_ok_def)

lemma event_ok_mono: "event_ok L e \<Longrightarrow> L \<subseteq> L' \<Longrightarrow> event_ok L' e"
  by (auto simp: event_ok_def)

lemma outbox_inv_grows: "grows w w' \<Longrightarrow> outbox_inv w \<Longrightarrow> outbox_inv w'"
  by (auto simp: grows_def outbox_inv_def list_all_iff intro: event_ok_mono)

lemma Produce_grows: "KafkaProducer_Produce t k v w = (e, w') \<Longrightarrow> grows w w'"
  by (auto simp: KafkaProducer_Produce_def grows_def Let_def split: prod.splits if_splits)

lemma Produce_logs: "KafkaProducer_Produce t k v w = (None, w') \<Longrightarrow> (t, k, v) \<in> set (kafka_log w')"
  by (auto simp: KafkaProducer_Produce_def Let_def split: prod.splits if_splits)

lemma PublishEvent_grows [grow_frame]: "PublishEvent t k v w = (e, w') \<Longrightarrow> grows w w'"
  by (auto simp: PublishEvent_def PublishEventWithHeaders_def Let_def
      split: prod.splits option.splits dest: Produce_grows)

lemma PublishEvent_logs: "PublishEvent t k v w = (None, w') \<Longrightarrow> (t, k, v) \<in> set (kafka_log w')"
  by (auto simp: PublishEvent_def PublishEventWithHeaders_def Let_def
      split: prod.splits option.splits dest: Produce_logs)

lemma UpdateEvent_inv:
  assumes inv: "outbox_inv w" and u: "outbox_UpdateEvent e w = (r, w')"
    and row: "row \<in> set (outbox_events w)" "event_frozen e row"
    and ok: "event_ok (set (kafka_log w)) e"
  shows "outbox_inv w'"
proof (cases r)
  case None
  have "kafka_log w' = kafka_log w"
    using u by (auto simp: outbox_UpdateEvent_def split: prod.splits if_splits)
  moreover have "outbox_events w' = replace_row oe_ID e (outbox_events w)"
    using event_table.upd_replaces[OF u[unfolded None] _ row] inv by (simp add: outbox_inv_def)
  ultimately show ?thesis using inv ok
    by (auto simp: outbox_inv_def list_all_iff dest!: replace_row_subset)
next
  case (Some a)
  then have "outbox_events w' = outbox_events w \<and> kafka_log w' = kafka_log w"
    using u by (auto simp: outbox_UpdateEvent_def split: prod.splits if_splits)
  then show ?thesis using inv by (simp add: outbox_inv_def)
qed

lemma UpdateEvent_others:
  assumes u: "outbox_UpdateEvent e w = (r, w')" and x: "x \<in> set (outbox_events w)"
    and ne: "oe_ID x \<noteq> oe_ID e"
  shows "x \<in> set (outbox_events w')"
proof (cases r)
  case None
  show ?thesis using event_table.upd_ok[OF u[unfolded None]] x ne
    by (auto simp: image_iff intro!: bexI[of _ x])
next
  case (Some a)
  then show ?thesis using event_table.upd_err u x by metis
qed

lemma processOutboxEvent_inv:
  assumes inv: "outbox_inv w" and ev: "ev \<in> set (outbox_events w)" "oe_Status ev = ''PENDING''"
    and p: "processOutboxEvent ev w = (r, w')"
  shows "outbox_inv w'"
proof -
  have ok: "event_ok (set (kafka_log w)) ev" using inv ev by (simp add: outbox_inv_def list_all_iff)
  have fail: "outbox_inv w'" if "markEventAsFailed ev m w = (r, w')" for m
  proof -
    let ?e = "ev\<lparr>oe_Status := ''FAILED'', oe_ProcessedAt := Some (clock w)\<rparr>"
    obtain e1 w1 where u: "outbox_UpdateEvent ?e w = (e1, w1)" by fastforce
    have "outbox_inv w1"
      by (rule UpdateEvent_inv[OF inv u ev(1)])
         (use ok in \<open>simp_all add: event_frozen_def event_ok_def\<close>)
    then show ?thesis using that u by (auto simp: markEventAsFailed_def Let_def split: option.splits)
  qed
  obtain e1 w1 where pub:
    "PublishEvent (getTopicForEvent ev) (outbox_key ev) (MJson (oe_EventData ev)) w = (e1, w1)"
    by fastforce
  have g: "grows w w1" by (rule PublishEvent_grows[OF pub])
  have inv1: "outbox_inv w1" and ev1: "ev \<in> set (outbox_events w1)"
    and ok1: "event_ok (set (kafka_log w1)) ev"
    using outbox_inv_grows[OF g inv] g ev ok event_ok_mono by (auto simp: grows_def)
  have upd: "outbox_inv w2"
    if "outbox_UpdateEvent e w1 = (r2, w2)" "event_frozen e ev" "event_ok (set (kafka_log w1)) e" for e r2 w2
    by (rule UpdateEvent_inv[OF inv1 that(1) ev1 that(2,3)])
  show ?thesis
  proof (cases "oe_RetryCount ev \<ge> 5 \<or> getTopicForEvent ev = ''''")
    case True
    then show ?thesis using p fail by (auto simp: processOutboxEvent_def split: if_splits)
  next
    case False
    then show ?thesis
    proof (cases e1)
      case None
      let ?e = "ev\<lparr>oe_Status := ''PROCESSED'', oe_ProcessedAt := Some (clock w1)\<rparr>"
      obtain e2 w2 where u: "outbox_UpdateEvent ?e w1 = (e2, w2)" by fastforce
      have fr: "event_frozen ?e ev" by (simp add: event_frozen_def)
      have "record_of ev \<in> set (kafka_log w1)"
        unfolding record_of_def by (rule PublishEvent_logs[OF pub[unfolded None]])
      then have "record_of ?e \<in> set (kafka_log w1)" by (simp only: record_of_frozen[OF fr])
      then have "outbox_inv w2" by (intro upd[OF u fr]) (use ok1 in \<open>simp add: event_ok_def\<close>)
      then show ?thesis using p False pub None u
        by (auto simp: processOutboxEvent_def Let_def split: option.splits)
    next
      case (Some a)
      let ?e = "ev\<lparr>oe_RetryCount := oe_RetryCount ev + 1\<rparr>"
      obtain e2 w2 where u: "outbox_UpdateEvent ?e w1 = (e2, w2)" by fastforce
      have "outbox_inv w2"
        by (rule upd[OF u]) (use ok1 ev False in \<open>simp_all add: event_frozen_def event_ok_def\<close>)
      then show ?thesis using p False pub Some u by (simp add: processOutboxEvent_def Let_def)
    qed
  qed
qed

text \<open>Every way through \<open>processOutboxEvent\<close> ends with one update of the event's row.\<close>

lemma processOutboxEvent_updates:
  assumes p: "processOutboxEvent ev w = (r, w')"
  shows "\<exists>w1 e r2. outbox_events w1 = outbox_events w \<and> event_frozen e ev \<and>
    outbox_UpdateEvent e w1 = (r2, w')"
proof -
  have updates: "\<exists>w1 e r2. outbox_events w1 = outbox_events w \<and> event_frozen e ev \<and>
      outbox_UpdateEvent e w1 = (r2, w')"
    if "outbox_events w1 = outbox_events w" "event_frozen e ev" "snd (outbox_UpdateEvent e w1) = w'" for w1 e
    using that by (metis prod.collapse)
  show ?thesis
  proof (cases "oe_RetryCount ev \<ge> 5 \<or> getTopicForEvent ev = ''''")
    case True
    let ?e = "ev\<lparr>oe_Status := ''FAILED'', oe_ProcessedAt := Some (clock w)\<rparr>"
    obtain m where "markEventAsFailed ev m w = (r, w')"
      using p True by (auto simp: processOutboxEvent_def split: if_splits)
    then have "snd (outbox_UpdateEvent ?e w) = w'"
      by (auto simp: markEventAsFailed_def split: option.splits prod.splits)
    moreover have "event_frozen ?e ev" by (simp add: event_frozen_def)
    ultimately show ?thesis using updates[of w ?e] by simp
  next
    case False
    obtain e1 w1 where pub:
      "PublishEvent (getTopicForEvent ev) (outbox_key ev) (MJson (oe_EventData ev)) w = (e1, w1)"
      by fastforce
    let ?e = "case e1 of None \<Rightarrow> ev\<lparr>oe_Status := ''PROCESSED'', oe_ProcessedAt := Some (clock w1)\<rparr>
              | Some _ \<Rightarrow> ev\<lparr>oe_RetryCount := oe_RetryCount ev + 1\<rparr>"
    have "snd (outbox_UpdateEvent ?e w1) = w'"
      using p False pub
      by (cases e1) (auto simp: processOutboxEvent_def split: option.splits prod.splits)
    moreover have "event_frozen ?e ev" by (simp add: event_frozen_def split: option.split)
    moreover have "outbox_events w1 = outbox_events w"
      using PublishEvent_grows[OF pub] by (simp add: grows_def)
    ultimately show ?thesis using updates[of w1 ?e] by simp
  qed
qed

lemma processOutboxEvent_others:
  assumes p: "processOutboxEvent ev w = (r, w')" and x: "x \<in> set (outbox_events w)"
    and ne: "oe_ID x \<noteq> oe_ID ev"
  shows "x \<in> set (outbox_events w')"
proof -
  obtain w1 e r2 where "outbox_events w1 = outbox_events w" "event_frozen e ev"
    "outbox_UpdateEvent e w1 = (r2, w')"
    using processOutboxEvent_updates[OF p] by auto
  then show ?thesis using UpdateEvent_others[of e w1 r2 w' x] x ne by (simp add: event_frozen_def)
qed

lemma process_outbox_events_inv:
  assumes "outbox_inv w" "distinct (map oe_ID evs)"
    and "\<forall>e \<in> set evs. e \<in> set (outbox_events w) \<and> oe_Status e = ''PENDING''"
  shows "outbox_inv (process_outbox_events evs w)"
  using assms
proof (induction evs arbitrary: w)
  case (Cons ev evs)
  obtain r w1 where p: "processOutboxEvent ev w = (r, w1)" by fastforce
  have "outbox_inv w1" by (rule processOutboxEvent_inv[OF _ _ _ p]) (use Cons.prems in auto)
  moreover have "e \<in> set (outbox_events w1) \<and> oe_Status e = ''PENDING''" if e: "e \<in> set evs" for e
  proof -
    have "oe_ID e \<noteq> oe_ID ev"
      using Cons.prems(2) e by (metis distinct.simps(2) image_eqI list.set_map list.simps(9))
    then show ?thesis using processOutboxEvent_others[OF p] Cons.prems(3) e by simp
  qed
  ultimately show ?case using Cons.IH Cons.prems(2) p by simp
qed simp

lemma GetPendingEvents_in:
  assumes g: "outbox_GetPendingEvents n w = (Inr evs, w')" and inv: "outbox_inv w"
  shows "distinct (map oe_ID evs) \<and>
    (\<forall>e \<in> set evs. e \<in> set (outbox_events w) \<and> oe_Status e = ''PENDING'')"
proof -
  define M where "M = sort_key oe_CreatedAt (filter (\<lambda>e. oe_Status e = ''PENDING'') (outbox_events w))"
  have evs: "evs = take (nat n) M"
    using g by (auto simp: outbox_GetPendingEvents_def M_def split: prod.splits if_splits)
  have "distinct (map oe_ID M)"
    using inv by (auto simp: M_def outbox_inv_def distinct_map inj_on_def)
  then have "distinct (map oe_ID evs)" by (simp add: evs flip: take_map)
  moreover have "set evs \<subseteq> set M" unfolding evs by (rule set_take_subset)
  then have "\<forall>e \<in> set evs. e \<in> set (outbox_events w) \<and> oe_Status e = ''PENDING''"
    unfolding M_def by auto
  ultimately show ?thesis by simp
qed

lemma processOutboxEvents_inv:
  assumes inv: "outbox_inv w" and p: "processOutboxEvents w = (r, w')"
  shows "outbox_inv w'"
proof -
  obtain q w1 where g: "outbox_GetPendingEvents 100 w = (q, w1)" by fastforce
  have same: "outbox_events w1 = outbox_events w" "kafka_log w1 = kafka_log w"
    using g by (auto simp: outbox_GetPendingEvents_def split: prod.splits if_splits)
  then have inv1: "outbox_inv w1" using inv by (simp add: outbox_inv_def)
  show ?thesis
  proof (cases q)
    case (Inr evs)
    have "outbox_inv (process_outbox_events evs w1)"
      using process_outbox_events_inv[OF inv1] GetPendingEvents_in[OF g[unfolded Inr] inv] same by simp
    then show ?thesis using p g Inr inv1 by (auto simp: processOutboxEvents_def split: if_splits)
  qed (use p g inv1 in \<open>auto simp: processOutboxEvents_def\<close>)
qed

lemma CreateOutboxEvent_inv:
  assumes inv: "outbox_inv w" and c: "CreateOutboxEvent E a b t d co ca w = (r, w')"
  shows "outbox_inv w'"
  using inv c
  by (auto simp: CreateOutboxEvent_def outbox_CreateEvent_def new_uuid_def Let_def outbox_inv_def
      event_ok_new list_all_iff split: prod.splits if_splits option.splits)

lemma CleanupProcessedEvents_inv:
  assumes inv: "outbox_inv w" and c: "CleanupProcessedEvents w = (r, w')"
  shows "outbox_inv w'"
  using inv c
  by (auto simp: CleanupProcessedEvents_def outbox_DeleteProcessedEventsBefore_def Let_def
      outbox_inv_def list_all_iff distinct_map inj_on_def split: prod.splits if_splits sum.splits)

end
