(* ===== verification/Saga_System.thy ===== *)
theory Saga_System
  imports Saga_Outbox
begin

text \<open>
  The orchestrator as a whole: the operations that its HTTP handlers, its processing loop, its
  consumer and its outbox workers run, in any order and with any schedule of failures of the
  external calls, from empty tables. The operations run one after the other. In the program they are goroutines
  without a common transaction; what can happen when they overlap is shown in \<open>Saga_Overlap\<close>.
\<close>

section \<open>Operations outside the outbox leave it alone\<close>

lemma repo_grows [grow_frame]:
  "repo_Create s w = (e, w') \<Longrightarrow> grows w w'"
  "repo_GetByID i w = (r, w') \<Longrightarrow> grows w w'"
  "repo_Update s w = (e, w') \<Longrightarrow> grows w w'"
  "repo_List l o' st w = (q, w') \<Longrightarrow> grows w w'"
  "repo_CreateStep t w = (e, w') \<Longrightarrow> grows w w'"
  "repo_GetSteps i w = (p, w') \<Longrightarrow> grows w w'"
  "repo_UpdateStep t w = (e, w') \<Longrightarrow> grows w w'"
  "new_uuid E w = (u, w') \<Longrightarrow> grows w w'"
  "external_call w = (b, w') \<Longrightarrow> grows w w'"
  "GetResult k w = (x, w') \<Longrightarrow> grows w w'"
  "StoreResult k v ttl w = (e, w') \<Longrightarrow> grows w w'"
  by (auto simp: grows_def repo_Create_def repo_GetByID_def repo_Update_def repo_List_def
      repo_CreateStep_def repo_GetSteps_def repo_UpdateStep_def new_uuid_def GetResult_def
      StoreResult_def Let_def split: prod.splits if_splits option.splits)

lemma publishEvent_grows [grow_frame]: "publishEvent E ev w = (e, w') \<Longrightarrow> grows w w'"
  by (simp add: publishEvent_def PublishEvent_grows)

lemma markCompensationCompleted_grows [grow_frame]:
  "markCompensationCompleted E s w = (e, w') \<Longrightarrow> grows w w'"
  by (auto simp: markCompensationCompleted_def publishCompensationEvent_def Let_def
      split: prod.splits dest!: grow_frame intro: grows_trans)

lemma StartCompensation_grows [grow_frame]: "StartCompensation E s w = (e, w') \<Longrightarrow> grows w w'"
  by (auto simp: StartCompensation_def publishCompensationEvent_def Let_def
      getCompletedStepsForCompensation_def split: prod.splits dest!: grow_frame;
      meson grows_trans)

lemma failSaga_grows [grow_frame]: "failSaga E s m w = (e, w') \<Longrightarrow> grows w w'"
proof -
  assume f: "failSaga E s m w = (e, w')"
  obtain w1 where "grows w w1" "w' = w1 \<or> (\<exists>s' e'. StartCompensation E s' w1 = (e', w'))"
    using f by (auto simp: failSaga_def Let_def split: prod.splits option.splits dest!: repo_grows)
       (metis prod.collapse)+
  then show ?thesis using StartCompensation_grows grows_trans by blast
qed

lemma failStep_grows [grow_frame]: "failStep E s t m w = (e, w') \<Longrightarrow> grows w w'"
  by (auto simp: failStep_def Let_def split: prod.splits option.splits if_splits
      dest!: grow_frame; meson grows_trans)

lemma completeSaga_grows [grow_frame]: "completeSaga E s w = (e, w') \<Longrightarrow> grows w w'"
  by (auto simp: completeSaga_def Let_def snd_def split: prod.splits option.splits
      dest!: grow_frame; meson grows_trans)

lemma executeStep_grows [grow_frame]: "executeStep E s t d w = (e, w') \<Longrightarrow> grows w w'"
  by (auto simp: executeStep_def Let_def split: prod.splits option.splits
      dest!: grow_frame; meson grows_trans)

lemma processSaga_grows [grow_frame]: "processSaga E s w = (e, w') \<Longrightarrow> grows w w'"
  by (auto simp: processSaga_def timeoutSaga_def Let_def
      split: prod.splits option.splits sum.splits if_splits dest!: grow_frame; meson grows_trans)

lemma process_sagas_grows: "grows w (process_sagas E ss w)"
proof (induction ss arbitrary: w)
  case (Cons s ss)
  then show ?case using processSaga_grows[of E s w] grows_trans by (metis prod.collapse process_sagas.simps(2))
qed simp

lemma process_statuses_grows: "process_statuses E sts w = (e, w') \<Longrightarrow> grows w w'"
proof (induction sts arbitrary: w)
  case (Cons st sts)
  then show ?case
    by (auto simp: Let_def split: prod.splits sum.splits dest!: repo_grows)
       (meson grows_trans process_sagas_grows)
qed simp

lemma createSagaSteps_grows [grow_frame]: "createSagaSteps E s ds w = (e, w') \<Longrightarrow> grows w w'"
proof (induction ds arbitrary: w)
  case (Cons d ds)
  then show ?case
    by (auto simp: Let_def split: prod.splits option.splits dest!: repo_grows; meson grows_trans)
qed simp

lemma cached_saga_grows [grow_frame]: "cached_saga req w = (r, w') \<Longrightarrow> grows w w'"
  by (auto simp: cached_saga_def Let_def
      split: option.splits prod.splits sum.splits RedisValue.splits dest: repo_grows)

lemma CreateSaga_grows: "CreateSaga E req w = (r, w') \<Longrightarrow> grows w w'"
  by (auto simp: CreateSaga_def Let_def snd_def split: prod.splits option.splits
      dest!: grow_frame; meson grows_trans)

lemma CompensateSaga_grows: "CompensateSaga E i m w = (r, w') \<Longrightarrow> grows w w'"
  by (auto simp: CompensateSaga_def Let_def split: prod.splits option.splits sum.splits if_splits
      dest!: grow_frame; meson grows_trans)

lemma reset_steps_grows: "reset_steps n ts w = (e, w') \<Longrightarrow> grows w w'"
proof (induction ts arbitrary: w)
  case (Cons t ts)
  then show ?case
    by (auto simp: Let_def split: prod.splits option.splits if_splits dest!: repo_grows;
        meson grows_trans)
qed simp

lemma RetrySaga_grows: "RetrySaga i n w = (r, w') \<Longrightarrow> grows w w'"
  by (auto simp: RetrySaga_def resetSagaSteps_def Let_def
      split: prod.splits option.splits sum.splits if_splits
      dest!: grow_frame reset_steps_grows; meson grows_trans)

lemma completeStep_grows: "completeStep E ev nm w = (r, w') \<Longrightarrow> grows w w'"
  by (auto simp: completeStep_def Let_def split: prod.splits option.splits sum.splits
      dest!: grow_frame; meson grows_trans)

lemma failStepFromEvent_grows: "failStepFromEvent E ev nm w = (r, w') \<Longrightarrow> grows w w'"
  by (auto simp: failStepFromEvent_def Let_def split: prod.splits option.splits sum.splits
      dest!: grow_frame; meson grows_trans)

lemma handleEvent_grows: "handleEvent E topic key v w = (r, w') \<Longrightarrow> grows w w'"
  by (auto simp: handleEvent_def handleInventoryEvent_def handlePaymentEvent_def
      handleNotificationEvent_def handleSagaEvent_def split: if_splits option.splits
      dest: completeStep_grows failStepFromEvent_grows)

lemma Subscribe_grows: "KafkaConsumer_Subscribe E msgs w = (c, w') \<Longrightarrow> grows w w'"
proof (induction msgs arbitrary: c w)
  case (Cons m msgs)
  then show ?case
    by (cases m)
       (auto simp: Let_def split: prod.splits option.splits dest!: handleEvent_grows repo_grows;
        meson grows_trans)
qed simp

section \<open>The outbox leaves the sagas alone\<close>

lemma UpdateEvent_db: "outbox_UpdateEvent e w = (r, w') \<Longrightarrow> db_of w' = db_of w"
  by (auto simp: outbox_UpdateEvent_def db_of_def split: prod.splits if_splits)

lemma processOutboxEvent_db: "processOutboxEvent ev w = (r, w') \<Longrightarrow> db_of w' = db_of w"
  by (auto simp: processOutboxEvent_def markEventAsFailed_def Let_def snd_def
      split: prod.splits if_splits option.splits dest!: UpdateEvent_db PublishEvent_db)

lemma process_outbox_events_db: "db_of (process_outbox_events evs w) = db_of w"
proof (induction evs arbitrary: w)
  case (Cons ev evs)
  then show ?case using processOutboxEvent_db[of ev w] by (metis prod.collapse process_outbox_events.simps(2))
qed simp

lemma processOutboxEvents_db: "processOutboxEvents w = (r, w') \<Longrightarrow> db_of w' = db_of w"
  by (auto simp: processOutboxEvents_def outbox_GetPendingEvents_def Let_def process_outbox_events_db
      split: prod.splits if_splits dest!: external_call_db)

lemma CreateOutboxEvent_db: "CreateOutboxEvent E a b t d co ca w = (r, w') \<Longrightarrow> db_of w' = db_of w"
  by (auto simp: CreateOutboxEvent_def outbox_CreateEvent_def new_uuid_def db_of_def Let_def
      split: prod.splits if_splits option.splits)

lemma CleanupProcessedEvents_db: "CleanupProcessedEvents w = (r, w') \<Longrightarrow> db_of w' = db_of w"
  by (auto simp: CleanupProcessedEvents_def outbox_DeleteProcessedEventsBefore_def db_of_def Let_def
      split: prod.splits if_splits sum.splits)

section \<open>Runs of the system\<close>

datatype SystemOp =
  OpCreateSaga CreateSagaRequest
| OpCompensateSaga uuid string
| OpRetrySaga uuid int
| OpProcessorTick
| OpConsume "(string \<times> string \<times> jobject option) list"
| OpCreateOutboxEvent string string string json "string option" "string option"
| OpOutboxTick
| OpCleanupTick
| OpTimePasses nat

fun run_operation :: "Env \<Rightarrow> SystemOp \<Rightarrow> World \<Rightarrow> World" where
  "run_operation E (OpCreateSaga req) w = snd (CreateSaga E req w)"
| "run_operation E (OpCompensateSaga i reason) w = snd (CompensateSaga E i reason w)"
| "run_operation E (OpRetrySaga i fromStep) w = snd (RetrySaga i fromStep w)"
| "run_operation E OpProcessorTick w = snd (processPendingSagas E w)"
| "run_operation E (OpConsume msgs) w = snd (KafkaConsumer_Subscribe E msgs w)"
| "run_operation E (OpCreateOutboxEvent a b t d co ca) w = snd (CreateOutboxEvent E a b t d co ca w)"
| "run_operation E OpOutboxTick w = snd (processOutboxEvents w)"
| "run_operation E OpCleanupTick w = snd (CleanupProcessedEvents w)"
| "run_operation E (OpTimePasses n) w = w\<lparr>clock := clock w + int n\<rparr>"

definition run_operations :: "Env \<Rightarrow> SystemOp list \<Rightarrow> World \<Rightarrow> World" where
  "run_operations E ops w = fold (run_operation E) ops w"

definition initial_world :: "bool list \<Rightarrow> gotime \<Rightarrow> World" where
  "initial_world fs now =
     \<lparr>saga_instances = [], saga_steps = [], outbox_events = [], kafka_log = [], redis_keys = [],
      clock = now, uuids_drawn = 0, faults = fs\<rparr>"

lemma operation_evolves:
  assumes inv: "db_inv (db_of w)"
  shows "evolves w (run_operation E op w)"
proof (cases op)
  case OpCreateSaga
  then show ?thesis using CreateSaga_evolves[OF inv surjective_pairing] by simp
next
  case OpCompensateSaga
  then show ?thesis using refines_evolves[OF CompensateSaga_refines[OF inv surjective_pairing]] by simp
next
  case OpRetrySaga
  then show ?thesis using refines_evolves[OF RetrySaga_refines[OF inv surjective_pairing]] by simp
next
  case OpProcessorTick
  then show ?thesis using processPendingSagas_evolves[OF inv surjective_pairing] by simp
next
  case OpConsume
  then show ?thesis using Subscribe_evolves[OF inv surjective_pairing] by simp
next
  case OpCreateOutboxEvent
  then show ?thesis using evolves_refl[OF CreateOutboxEvent_db[OF surjective_pairing]] by simp
next
  case OpOutboxTick
  then show ?thesis using evolves_refl[OF processOutboxEvents_db[OF surjective_pairing]] by simp
next
  case OpCleanupTick
  then show ?thesis using evolves_refl[OF CleanupProcessedEvents_db[OF surjective_pairing]] by simp
next
  case OpTimePasses
  then show ?thesis by (simp add: db_of_def)
qed

lemma operation_outbox_inv:
  assumes inv: "outbox_inv w"
  shows "outbox_inv (run_operation E op w)"
proof (cases op)
  case OpCreateSaga
  then show ?thesis using outbox_inv_grows[OF CreateSaga_grows[OF surjective_pairing] inv] by simp
next
  case OpCompensateSaga
  then show ?thesis using outbox_inv_grows[OF CompensateSaga_grows[OF surjective_pairing] inv] by simp
next
  case OpRetrySaga
  then show ?thesis using outbox_inv_grows[OF RetrySaga_grows[OF surjective_pairing] inv] by simp
next
  case OpProcessorTick
  then show ?thesis using outbox_inv_grows[OF process_statuses_grows[OF surjective_pairing] inv]
    by (simp add: processPendingSagas_def del: process_statuses.simps)
next
  case OpConsume
  then show ?thesis using outbox_inv_grows[OF Subscribe_grows[OF surjective_pairing] inv] by simp
next
  case OpCreateOutboxEvent
  then show ?thesis using CreateOutboxEvent_inv[OF inv surjective_pairing] by simp
next
  case OpOutboxTick
  then show ?thesis using processOutboxEvents_inv[OF inv surjective_pairing] by simp
next
  case OpCleanupTick
  then show ?thesis using CleanupProcessedEvents_inv[OF inv surjective_pairing] by simp
next
  case OpTimePasses
  then show ?thesis using inv by (simp add: outbox_inv_def)
qed

lemma operations_evolve:
  "db_inv (db_of w) \<Longrightarrow> evolves w (run_operations E ops w)"
proof (induction ops arbitrary: w)
  case (Cons op ops)
  note ev = operation_evolves[OF Cons.prems, of E op]
  show ?case
    using Cons.IH[OF evolves_inv[OF ev Cons.prems]] evolves_trans[OF ev] by (simp add: run_operations_def)
qed (simp add: run_operations_def)

lemma operations_outbox_inv: "outbox_inv w \<Longrightarrow> outbox_inv (run_operations E ops w)"
proof (induction ops arbitrary: w)
  case (Cons op ops)
  show ?case
    using Cons.IH[OF operation_outbox_inv[OF Cons.prems]] by (simp add: run_operations_def)
qed (simp add: run_operations_def)

lemma initial_world_inv: "db_inv (db_of (initial_world fs now)) \<and> outbox_inv (initial_world fs now)"
  by (simp add: initial_world_def db_inv_def db_of_def outbox_inv_def)

lemma run_operations_append:
  "run_operations E (ops @ ops') w = run_operations E ops' (run_operations E ops w)"
  by (simp add: run_operations_def)

lemma evolves_completed:
  assumes ev: "evolves w w'" and inv: "db_inv (db_of w)"
    and s: "s \<in> set (fst (db_of w))" "si_Status s = SagaStatusCompleted"
  shows "s \<in> set (fst (db_of w'))"
  by (rule db_any.run_induct[OF ev[unfolded evolves_def] inv, where P = "\<lambda>d. s \<in> set (fst d)"])
     (use s db_step_completed in \<open>auto simp: db_next_def\<close>)

end
