(* ===== verification/Saga_Properties.thy ===== *)
theory Saga_Properties
  imports Saga_System "HOL-Library.Sublist"
begin

text \<open>
  The properties of the saga orchestrator, for operations that do not overlap: consistency of its tables over every run, refinement of
  the life cycles, isolation of sagas, idempotent creation, the outcome of every branch of step
  failure, timeout and completion, and the guarantees of the outbox and of the idempotency keys.
  \<open>fault_free\<close> collects what the external calls do when none of them fails.
\<close>

named_theorems fault_free

section \<open>External calls that do not fail\<close>

lemma Produce_ok: "faults w = [] \<Longrightarrow>
    KafkaProducer_Produce t k v w = (None, w\<lparr>kafka_log := kafka_log w @ [(t, k, v)]\<rparr>)"
  by (simp add: KafkaProducer_Produce_def external_call_def)

lemma PublishEvent_ok [fault_free]: "faults w = [] \<Longrightarrow>
    PublishEvent t k v w = (None, w\<lparr>kafka_log := kafka_log w @ [(t, k, v)]\<rparr>)"
  by (simp add: PublishEvent_def PublishEventWithHeaders_def Produce_ok)

lemma Update_ok [fault_free]:
  "faults w = [] \<Longrightarrow> distinct (map si_ID (saga_instances w)) \<Longrightarrow> row \<in> set (saga_instances w) \<Longrightarrow>
   saga_frozen s row \<Longrightarrow>
   repo_Update s w = (None, w\<lparr>saga_instances := replace_row si_ID s (saga_instances w)\<rparr>)"
proof -
  assume a: "faults w = []" "distinct (map si_ID (saga_instances w))"
    "row \<in> set (saga_instances w)" "saga_frozen s row"
  then have "si_ID s \<in> si_ID ` set (saga_instances w)"
    using imageI[OF a(3), of si_ID] by (simp add: saga_frozen_def)
  then obtain w' where u: "repo_Update s w = (None, w')" and
    w': "w' = w\<lparr>saga_instances := saga_instances w'\<rparr>"
    using a(1) by (simp add: repo_Update_def external_call_def)
  show ?thesis using saga_table.upd_replaces[OF u a(2-4)] u w' by simp
qed

lemma UpdateStep_ok [fault_free]:
  "faults w = [] \<Longrightarrow> distinct (map ss_ID (saga_steps w)) \<Longrightarrow> row \<in> set (saga_steps w) \<Longrightarrow>
   step_frozen t row \<Longrightarrow>
   repo_UpdateStep t w = (None, w\<lparr>saga_steps := replace_row ss_ID t (saga_steps w)\<rparr>)"
proof -
  assume a: "faults w = []" "distinct (map ss_ID (saga_steps w))"
    "row \<in> set (saga_steps w)" "step_frozen t row"
  then have "ss_ID t \<in> ss_ID ` set (saga_steps w)"
    using imageI[OF a(3), of ss_ID] by (simp add: step_frozen_def)
  then obtain w' where u: "repo_UpdateStep t w = (None, w')" and
    w': "w' = w\<lparr>saga_steps := saga_steps w'\<rparr>"
    using a(1) by (simp add: repo_UpdateStep_def external_call_def)
  show ?thesis using step_table.upd_replaces[OF u a(2-4)] u w' by simp
qed

text \<open>No step of the saga has a \<open>NULL\<close> in a column that is scanned into \<open>json.RawMessage\<close>.\<close>

definition readable :: "uuid \<Rightarrow> World \<Rightarrow> bool" where
  "readable i w = list_all (\<lambda>t. ss_SagaID t = i \<longrightarrow> \<not> scan_fails t) (saga_steps w)"

lemma GetSteps_ok [fault_free]: "faults w = [] \<Longrightarrow> readable i w \<Longrightarrow>
   repo_GetSteps i w =
     (Inr (sort_key ss_StepOrder (filter (\<lambda>t. ss_SagaID t = i) (saga_steps w))), w)"
  by (auto simp: repo_GetSteps_def external_call_def readable_def list_ex_iff list_all_iff)

lemma GetSteps_readable: "repo_GetSteps i w = (Inr ts, w') \<Longrightarrow> readable i w"
proof -
  assume g: "repo_GetSteps i w = (Inr ts, w')"
  obtain b w1 where e: "external_call w = (b, w1)" by fastforce
  then have st: "saga_steps w1 = saga_steps w" by (cases "faults w") (auto simp: external_call_def)
  have "\<not> list_ex scan_fails (sort_key ss_StepOrder (filter (\<lambda>t. ss_SagaID t = i) (saga_steps w)))"
    using g unfolding repo_GetSteps_def Let_def e prod.case st by (simp split: if_splits)
  then show ?thesis by (simp add: readable_def list_ex_iff list_all_iff)
qed

lemma find_key:
  "distinct (map key rows) \<Longrightarrow> x \<in> set rows \<Longrightarrow> find (\<lambda>r. key r = key x) rows = Some x"
  by (induction rows) (auto simp: rev_image_eqI)

lemma GetByID_ok [fault_free]:
  "faults w = [] \<Longrightarrow> distinct (map si_ID (saga_instances w)) \<Longrightarrow> s \<in> set (saga_instances w) \<Longrightarrow>
   repo_GetByID (si_ID s) w = (Inr s, w)"
  by (simp add: repo_GetByID_def external_call_def find_key)

lemma UpdateEvent_ok [fault_free]:
  "faults w = [] \<Longrightarrow> distinct (map oe_ID (outbox_events w)) \<Longrightarrow> row \<in> set (outbox_events w) \<Longrightarrow>
   event_frozen e row \<Longrightarrow>
   outbox_UpdateEvent e w = (None, w\<lparr>outbox_events := replace_row oe_ID e (outbox_events w)\<rparr>)"
proof -
  assume a: "faults w = []" "distinct (map oe_ID (outbox_events w))"
    "row \<in> set (outbox_events w)" "event_frozen e row"
  then have "oe_ID e \<in> oe_ID ` set (outbox_events w)"
    using imageI[OF a(3), of oe_ID] by (simp add: event_frozen_def)
  then obtain w' where u: "outbox_UpdateEvent e w = (None, w')" and
    w': "w' = w\<lparr>outbox_events := outbox_events w'\<rparr>"
    using a(1) by (simp add: outbox_UpdateEvent_def external_call_def)
  show ?thesis using event_table.upd_replaces[OF u a(2-4)] u w' by simp
qed

text \<open>Compensation, as the source has it, only announces its start and its end.\<close>

definition compensation_event :: "Env \<Rightarrow> uuid \<Rightarrow> string \<Rightarrow> SagaInstance \<Rightarrow> gotime \<Rightarrow> SagaEvent" where
  "compensation_event E i ty s now =
     \<lparr>ev_ID = i, ev_SagaID = si_ID s, ev_EventType = ty, ev_EventData = si_SagaData s,
      ev_Timestamp = now, ev_CorrelationID = stringValue (si_CorrelationID s),
      ev_CausationID = uuid_String E (si_ID s)\<rparr>"

definition compensation_records ::
  "Env \<Rightarrow> SagaInstance \<Rightarrow> World \<Rightarrow> (string \<times> string \<times> Message) list" where
  "compensation_records E s w =
     [(''saga-events'', uuid_String E (si_ID s), MSagaEvent (compensation_event E
        (uuid_New E (uuids_drawn w)) ''saga.compensation.started'' s (clock w))),
      (''saga-events'', uuid_String E (si_ID s), MSagaEvent (compensation_event E
        (uuid_New E (Suc (uuids_drawn w))) ''saga.compensation.completed'' s (clock w)))]"

lemma StartCompensation_ok [fault_free]: "faults w = [] \<Longrightarrow>
   StartCompensation E s w =
     (None, w\<lparr>kafka_log := kafka_log w @ compensation_records E s w,
              uuids_drawn := uuids_drawn w + 2\<rparr>)"
  by (simp add: StartCompensation_def markCompensationCompleted_def publishCompensationEvent_def
      getCompletedStepsForCompensation_def new_uuid_def PublishEvent_ok compensation_records_def
      compensation_event_def Let_def)

lemma failSaga_ok [fault_free]:
  assumes "faults w = []" "distinct (map si_ID (saga_instances w))" "s \<in> set (saga_instances w)"
    and f: "f = s\<lparr>si_Status := SagaStatusFailed, si_UpdatedAt := clock w, si_ErrorMessage := Some m\<rparr>"
  shows "failSaga E s m w =
     (None, w\<lparr>saga_instances := replace_row si_ID f (saga_instances w),
              kafka_log := kafka_log w @ compensation_records E f w,
              uuids_drawn := uuids_drawn w + 2\<rparr>)"
proof -
  have "saga_frozen f s" by (simp add: f saga_frozen_def)
  note u = Update_ok[OF assms(1-3) this, unfolded f]
  show ?thesis using assms(1) unfolding failSaga_def Let_def u f
    by (simp add: StartCompensation_ok compensation_records_def compensation_event_def)
qed

section \<open>A concrete environment\<close>

text \<open>
  An instance of the parameters for concrete runs: the n-th UUID is n + 1, written in unary, and
  no document is an order.
\<close>

definition example_env :: Env where
  "example_env =
     \<lparr>uuid_New = (\<lambda>n. word_of_nat (Suc n)),
      uuid_String = (\<lambda>u. replicate (unat u) (CHR ''i'')),
      uuid_Parse = (\<lambda>s. Some (word_of_nat (length s))),
      decode_order = (\<lambda>j. Inl ''not an order'')\<rparr>"

definition example_request :: CreateSagaRequest where
  "example_request =
     \<lparr>rq_SagaType = ''order-processing'', rq_SagaData = JNull, rq_CorrelationID = None,
      rq_IdempotencyKey = Some ''key''\<rparr>"

definition example_event :: "string \<Rightarrow> jobject option" where
  "example_event ty = Some [(''event_type'', JStr ty), (''saga_id'', JStr ''i'')]"

text \<open>
  A saga whose first step could not be created is completed by the next tick, without any step. A saga with steps
  cannot be read back, because the steps have \<open>NULL\<close> columns: \<open>fill_columns\<close> is a world in which they have data.
\<close>

definition example_run :: "SystemOp list" where
  "example_run = [OpCreateSaga example_request, OpProcessorTick]"

definition example_faults :: "bool list" where
  "example_faults = [False, False, True]"

definition fill_columns :: "World \<Rightarrow> World" where
  "fill_columns w =
     w\<lparr>saga_steps := map (\<lambda>t. t\<lparr>ss_InputData := JObj [], ss_OutputData := JObj [], ss_CompensationData := JObj []\<rparr>)
        (saga_steps w)\<rparr>"

lemma fill_columns_inv: "db_inv (db_of w) \<Longrightarrow> db_inv (db_of (fill_columns w))"
  by (auto simp: db_inv_def db_of_def fill_columns_def saga_ok_def step_done_def list_all_iff comp_def)

definition created_world :: World where
  "created_world = run_operations example_env [OpCreateSaga example_request] (initial_world [] 1000)"

section \<open>Runs of the whole system\<close>

text \<open>C1: while operations do not overlap, whatever they are, their order, the schedule of failed external calls and the UUIDs
  drawn, the tables of a system that started with empty tables, or with any consistent ones, are consistent: the keys are unique, every step
  belongs to a saga, no saga has more retries than its maximum, a completed saga has only
  completed or skipped steps, and every saga is STARTED, IN_PROGRESS, COMPLETED or FAILED, so
  that COMPENSATED and CANCELLED are never reached.\<close>

theorem tables_always_consistent:
  assumes "w = initial_world fs now \<or> db_inv (db_of w)"
  shows "db_inv (db_of (run_operations E ops w))"
  using assms evolves_inv[OF operations_evolve] initial_world_inv by blast

theorem tables_always_consistent_witness:
  "db_inv (db_of (run_operations example_env [OpProcessorTick, OpProcessorTick] (fill_columns created_world)))"
proof (rule tables_always_consistent[of _ "[]" 0], rule disjI2, rule fill_columns_inv)
  show "db_inv (db_of created_world)"
    unfolding created_world_def using evolves_inv[OF operations_evolve] initial_world_inv by blast
qed

text \<open>C3: every operation refines the life cycles of sagas and steps: it changes the two tables by
  a sequence of allowed changes, each of the rows of one saga.\<close>

theorem operation_refines_life_cycle:
  assumes "db_inv (db_of w)"
  shows "db_next\<^sup>*\<^sup>* (db_of w) (db_of (run_operation E op w))"
  using operation_evolves[OF assms] by (simp add: evolves_def)

theorem operation_refines_life_cycle_witness:
  "db_next\<^sup>*\<^sup>* (db_of (initial_world [False, True] 0))
     (db_of (run_operation example_env (OpCreateSaga example_request) (initial_world [False, True] 0)))"
  by (rule operation_refines_life_cycle) (use initial_world_inv in blast)

text \<open>C2: while operations do not overlap, COMPLETED is final: in every run from empty or other consistent tables the row of a
  completed saga is never changed again, whatever is run afterwards.\<close>

theorem completed_saga_is_final:
  assumes "w = initial_world fs now \<or> db_inv (db_of w)"
    and "s \<in> set (saga_instances (run_operations E ops w))" "si_Status s = SagaStatusCompleted"
  shows "s \<in> set (saga_instances (run_operations E (ops @ ops') w))"
proof -
  have inv: "db_inv (db_of (run_operations E ops w))"
    using assms(1) evolves_inv[OF operations_evolve] initial_world_inv by blast
  show ?thesis
    using evolves_completed[OF operations_evolve[OF inv] inv, of s E ops'] assms
    by (simp add: run_operations_append db_of_def)
qed

theorem completed_saga_is_final_witness:
  "\<exists>s \<in> set (saga_instances (run_operations example_env example_run (initial_world example_faults 1000))).
     si_Status s = SagaStatusCompleted \<and>
     s \<in> set (saga_instances (run_operations example_env
       (example_run @ [OpCompensateSaga 1 ''late'', OpRetrySaga 1 0]) (initial_world example_faults 1000)))"
proof (rule bexI, intro conjI)
  let ?S = "saga_instances (run_operations example_env example_run (initial_world example_faults 1000))"
  show c: "si_Status (hd ?S) = SagaStatusCompleted" by code_simp
  show m: "hd ?S \<in> set ?S" by code_simp
  show "hd ?S \<in> set (saga_instances (run_operations example_env
       (example_run @ [OpCompensateSaga 1 ''late'', OpRetrySaga 1 0]) (initial_world example_faults 1000)))"
    by (rule completed_saga_is_final[OF disjI1[OF refl] m c])
qed

text \<open>processing one saga changes no row of another saga and no step of another saga.\<close>

theorem processing_is_isolated:
  assumes "db_inv (db_of w)" "s \<in> set (saga_instances w)" "saga_active (si_Status s)"
  shows "rows_apart (si_ID s) (db_of (snd (processSaga E s w))) = rows_apart (si_ID s) (db_of w)"
  using db_run_apart processSaga_refines[OF assms(1) surjective_pairing] assms
  by (simp add: refines_def db_of_def)

theorem processing_is_isolated_witness:
  "rows_apart 1 (db_of (snd (processSaga example_env (hd (saga_instances created_world)) created_world))) =
   rows_apart 1 (db_of created_world)"
proof -
  have inv: "db_inv (db_of created_world)"
    unfolding created_world_def using evolves_inv[OF operations_evolve] initial_world_inv by blast
  have m: "hd (saga_instances created_world) \<in> set (saga_instances created_world)"
    and i: "si_ID (hd (saga_instances created_world)) = 1"
    and a: "saga_active (si_Status (hd (saga_instances created_world)))"
    unfolding saga_active_def by code_simp+
  show ?thesis using processing_is_isolated[OF inv m a, of example_env] unfolding i .
qed

text \<open>C4: the outbox delivers at least once and gives up after five retries: in every run, an event
  row marked PROCESSED has its record in the Kafka log under its topic and key, an event is pending
  exactly as long as it has no processing time, and its retry counter stays between 0 and 5.\<close>

theorem outbox_rows_consistent:
  assumes "e \<in> set (outbox_events (run_operations E ops (initial_world fs now)))"
  shows "(oe_Status e = ''PROCESSED'' \<longrightarrow>
            (getTopicForEvent e, outbox_key e, MJson (oe_EventData e))
              \<in> set (kafka_log (run_operations E ops (initial_world fs now)))) \<and>
         (oe_Status e = ''PENDING'' \<longleftrightarrow> oe_ProcessedAt e = None) \<and>
         0 \<le> oe_RetryCount e \<and> oe_RetryCount e \<le> 5"
proof -
  have "outbox_inv (run_operations E ops (initial_world fs now))"
    using operations_outbox_inv initial_world_inv by blast
  then have "event_ok (set (kafka_log (run_operations E ops (initial_world fs now)))) e"
    using assms by (simp add: outbox_inv_def list_all_iff)
  then show ?thesis by (auto simp: event_ok_def record_of_def)
qed

definition example_outbox_run :: "SystemOp list" where
  "example_outbox_run =
     [OpCreateOutboxEvent ''order-7'' ''payment'' ''payment.requested'' JNull None None, OpOutboxTick]"

theorem outbox_rows_consistent_witness:
  "\<exists>e \<in> set (outbox_events (run_operations example_env example_outbox_run (initial_world [] 5))).
     oe_Status e = ''PROCESSED'' \<and>
     (getTopicForEvent e, outbox_key e, MJson (oe_EventData e))
       \<in> set (kafka_log (run_operations example_env example_outbox_run (initial_world [] 5)))"
proof (rule bexI, intro conjI)
  let ?S = "outbox_events (run_operations example_env example_outbox_run (initial_world [] 5))"
  show p: "oe_Status (hd ?S) = ''PROCESSED''" by code_simp
  show m: "hd ?S \<in> set ?S" by code_simp
  show "(getTopicForEvent (hd ?S), outbox_key (hd ?S), MJson (oe_EventData (hd ?S)))
       \<in> set (kafka_log (run_operations example_env example_outbox_run (initial_world [] 5)))"
    using outbox_rows_consistent[OF m] p by blast
qed

section \<open>Functional behaviour of the processor\<close>

definition failed_step :: "gotime \<Rightarrow> string \<Rightarrow> SagaStep \<Rightarrow> SagaStep" where
  "failed_step now m t =
     t\<lparr>ss_Status := StepStatusFailed, ss_CompletedAt := Some now, ss_ErrorMessage := Some m\<rparr>"

definition retried_step :: "SagaStep \<Rightarrow> SagaStep" where
  "retried_step t =
     t\<lparr>ss_RetryCount := ss_RetryCount t + 1, ss_Status := StepStatusPending, ss_StartedAt := None,
       ss_CompletedAt := None, ss_ErrorMessage := None\<rparr>"

definition aborted_saga :: "gotime \<Rightarrow> string \<Rightarrow> SagaInstance \<Rightarrow> SagaInstance" where
  "aborted_saga now m s =
     s\<lparr>si_Status := SagaStatusFailed, si_UpdatedAt := now, si_ErrorMessage := Some m\<rparr>"

definition step_retryable :: "SagaInstance \<Rightarrow> SagaStep \<Rightarrow> bool" where
  "step_retryable s t =
     (case getStepDefinition (si_SagaType s) (ss_StepName t) of
        None \<Rightarrow> False | Some d \<Rightarrow> ss_RetryCount t < sd_MaxRetries d)"

definition step_optional :: "SagaInstance \<Rightarrow> SagaStep \<Rightarrow> bool" where
  "step_optional s t =
     (case getStepDefinition (si_SagaType s) (ss_StepName t) of
        None \<Rightarrow> False | Some d \<Rightarrow> sd_ContinueOnFailure d)"

lemma replace_row_twice:
  "key x = key y \<Longrightarrow> replace_row key x (replace_row key y rows) = replace_row key x rows"
  by (simp add: replace_row_def)

text \<open>The two updates of a step that fails and is then given another status.\<close>

lemma fail_then_update:
  assumes "faults w = []" "distinct (map ss_ID (saga_steps w))" "t \<in> set (saga_steps w)"
    and "step_frozen t' t" "step_frozen x t'"
  shows "repo_UpdateStep t' w = (None, w\<lparr>saga_steps := replace_row ss_ID t' (saga_steps w)\<rparr>) \<and>
    repo_UpdateStep x (w\<lparr>saga_steps := replace_row ss_ID t' (saga_steps w)\<rparr>) =
      (None, w\<lparr>saga_steps := replace_row ss_ID x (saga_steps w)\<rparr>)"
proof -
  let ?w1 = "w\<lparr>saga_steps := replace_row ss_ID t' (saga_steps w)\<rparr>"
  have "t' \<in> set (saga_steps ?w1)"
    using assms(3,4) by (auto simp: set_replace_row step_frozen_def)
  then have "repo_UpdateStep x ?w1 = (None, ?w1\<lparr>saga_steps := replace_row ss_ID x (saga_steps ?w1)\<rparr>)"
    using assms by (intro UpdateStep_ok[of _ t']) simp_all
  moreover have "ss_ID x = ss_ID t'" using assms(5) by (simp add: step_frozen_def)
  ultimately show ?thesis using UpdateStep_ok[OF assms(1-4)] by (simp add: replace_row_twice)
qed

text \<open>the outcome of a failed step when no external call fails. A step with retries left goes
  back to PENDING with its counter incremented; otherwise a step that may fail is SKIPPED; otherwise
  the step is FAILED, the saga is FAILED with the error message, and the start and the end of a
  compensation are announced.\<close>

theorem fail_step_outcome:
  assumes "faults w = []" "db_inv (db_of w)" "s \<in> set (saga_instances w)" "t \<in> set (saga_steps w)"
  shows "failStep E s t m w =
    (None,
     if step_retryable s t
     then w\<lparr>saga_steps := replace_row ss_ID (retried_step t) (saga_steps w)\<rparr>
     else if step_optional s t
     then w\<lparr>saga_steps := replace_row ss_ID
              ((failed_step (clock w) m t)\<lparr>ss_Status := StepStatusSkipped\<rparr>) (saga_steps w)\<rparr>
     else w\<lparr>saga_steps := replace_row ss_ID (failed_step (clock w) m t) (saga_steps w),
            saga_instances := replace_row si_ID (aborted_saga (clock w) m s) (saga_instances w),
            kafka_log := kafka_log w @ compensation_records E (aborted_saga (clock w) m s) w,
            uuids_drawn := uuids_drawn w + 2\<rparr>)"
proof -
  let ?f = "failed_step (clock w) m t"
  let ?w1 = "w\<lparr>saga_steps := replace_row ss_ID ?f (saga_steps w)\<rparr>"
  have dist: "distinct (map ss_ID (saga_steps w))" "distinct (map si_ID (saga_instances w))"
    using assms(2) by (simp_all add: db_inv_def db_of_def)
  have fr: "step_frozen ?f t" by (simp add: failed_step_def step_frozen_def)
  note u = fail_then_update[OF assms(1) dist(1) assms(4) fr]
  have fs: "failSaga E s m ?w1 = (None, ?w1\<lparr>
       saga_instances := replace_row si_ID (aborted_saga (clock w) m s) (saga_instances ?w1),
       kafka_log := kafka_log ?w1 @ compensation_records E (aborted_saga (clock w) m s) ?w1,
       uuids_drawn := uuids_drawn ?w1 + 2\<rparr>)"
    by (rule failSaga_ok) (use assms(1,3) dist in \<open>simp_all add: aborted_saga_def\<close>)
  have retry: "?f\<lparr>ss_RetryCount := ss_RetryCount t + 1, ss_Status := StepStatusPending,
      ss_StartedAt := None, ss_CompletedAt := None, ss_ErrorMessage := None\<rparr> = retried_step t"
    by (simp add: failed_step_def retried_step_def)
  have frs: "step_frozen (retried_step t) ?f" "step_frozen (?f\<lparr>ss_Status := StepStatusSkipped\<rparr>) ?f"
    by (simp_all add: failed_step_def retried_step_def step_frozen_def)
  have names: "ss_StepName ?f = ss_StepName t" "ss_RetryCount ?f = ss_RetryCount t"
    by (simp_all add: failed_step_def)
  have step_class: "step_retryable s ?f = step_retryable s t" "step_optional s ?f = step_optional s t"
    by (simp_all add: step_retryable_def step_optional_def names split: option.split)
  show ?thesis
    unfolding failStep_def failed_step_def[symmetric] Let_def names retry
      conjunct1[OF u[OF frs(1)]] prod.case option.case step_retryable_def[symmetric]
      step_optional_def[symmetric] conjunct2[OF u[OF frs(1)]] conjunct2[OF u[OF frs(2)]] fs
    by (simp add: compensation_records_def step_class)
qed

theorem fail_step_outcome_witness:
  "map ss_RetryCount (saga_steps (snd (failStep example_env (hd (saga_instances created_world))
      (hd (saga_steps created_world)) ''no stock'' created_world))) = [1, 0, 0]"
proof -
  have inv: "db_inv (db_of created_world)"
    unfolding created_world_def using evolves_inv[OF operations_evolve] initial_world_inv by blast
  have h: "faults created_world = []" "hd (saga_instances created_world) \<in> set (saga_instances created_world)"
    "hd (saga_steps created_world) \<in> set (saga_steps created_world)" by code_simp+
  show ?thesis unfolding fail_step_outcome[OF h(1) inv h(2,3)] by code_simp
qed

text \<open>a saga older than its definition's timeout is failed by the processor: its row becomes
  FAILED, no step row changes, and the only records published are the start and the end of the
  compensation, with no compensation of any step.\<close>

theorem timed_out_saga_fails:
  assumes "faults w = []" "db_inv (db_of w)" "s \<in> set (saga_instances w)"
    and "map_of sagaDefinitions (si_SagaType s) = Some d"
    and "df_Timeout d < clock w - si_CreatedAt s"
  shows "processSaga E s w =
    (None, w\<lparr>saga_instances := replace_row si_ID
                (aborted_saga (clock w) ''saga timeout exceeded'' s) (saga_instances w),
             kafka_log := kafka_log w @
               compensation_records E (aborted_saga (clock w) ''saga timeout exceeded'' s) w,
             uuids_drawn := uuids_drawn w + 2\<rparr>)"
proof -
  have "distinct (map si_ID (saga_instances w))" using assms(2) by (simp add: db_inv_def db_of_def)
  then show ?thesis
    using failSaga_ok[OF assms(1) _ assms(3) refl] assms(4,5)
    by (simp add: processSaga_def timeoutSaga_def aborted_saga_def)
qed

theorem timed_out_saga_fails_witness:
  "map si_Status (saga_instances (snd (processSaga example_env (hd (saga_instances created_world))
     (created_world\<lparr>clock := 1000 + 6 * minute\<rparr>)))) = [SagaStatusFailed]"
proof -
  let ?w = "created_world\<lparr>clock := 1000 + 6 * minute\<rparr>" and ?s = "hd (saga_instances created_world)"
  have "db_inv (db_of created_world)"
    unfolding created_world_def using evolves_inv[OF operations_evolve] initial_world_inv by blast
  then have inv: "db_inv (db_of ?w)" by (simp add: db_of_def)
  have h: "faults ?w = []" "?s \<in> set (saga_instances ?w)"
    "map_of sagaDefinitions (si_SagaType ?s) = Some order_processing_definition"
    "df_Timeout order_processing_definition < clock ?w - si_CreatedAt ?s" by code_simp+
  show ?thesis unfolding timed_out_saga_fails[OF h(1) inv h(2-4)] by code_simp
qed

definition completed_saga :: "gotime \<Rightarrow> SagaInstance \<Rightarrow> SagaInstance" where
  "completed_saga now s =
     s\<lparr>si_Status := SagaStatusCompleted, si_CompletedAt := Some now, si_UpdatedAt := now\<rparr>"

text \<open>a saga that has not timed out, whose steps can be read and are all completed or skipped, is completed by
  the next visit of the processor, which publishes saga.completed; this includes a saga that has no
  steps at all.\<close>

theorem finished_saga_completes:
  assumes "faults w = []" "db_inv (db_of w)" "s \<in> set (saga_instances w)"
    and "map_of sagaDefinitions (si_SagaType s) = Some d"
    and "clock w - si_CreatedAt s \<le> df_Timeout d"
    and "list_all (\<lambda>t. ss_SagaID t = si_ID s \<longrightarrow> step_done t) (saga_steps w)" "readable (si_ID s) w"
  shows "processSaga E s w =
    (None, w\<lparr>saga_instances := replace_row si_ID (completed_saga (clock w) s) (saga_instances w),
             kafka_log := kafka_log w @
               [(''saga-events'', uuid_String E (si_ID s), MSagaEvent
                 \<lparr>ev_ID = si_ID s, ev_SagaID = si_ID s, ev_EventType = ''saga.completed'',
                  ev_EventData = si_SagaData s, ev_Timestamp = clock w,
                  ev_CorrelationID = stringValue (si_CorrelationID s),
                  ev_CausationID = uuid_String E (si_ID s)\<rparr>)]\<rparr>)"
proof -
  let ?ts = "sort_key ss_StepOrder (filter (\<lambda>t. ss_SagaID t = si_ID s) (saga_steps w))"
  have fin: "\<forall>t \<in> set ?ts. step_done t" using assms(6) by (auto simp: list_all_iff)
  then have "find (\<lambda>t. ss_StepOrder t = si_CurrentStep s + 1 \<and> ss_Status t = StepStatusPending) ?ts = None"
    by (auto simp: find_None_iff step_done_def)
  moreover have "list_all step_done ?ts" using fin by (simp add: list_all_iff)
  moreover have "distinct (map si_ID (saga_instances w))"
    using assms(2) by (simp add: db_inv_def db_of_def)
  then have "repo_Update (completed_saga (clock w) s) w =
      (None, w\<lparr>saga_instances := replace_row si_ID (completed_saga (clock w) s) (saga_instances w)\<rparr>)"
    by (rule Update_ok[OF assms(1) _ assms(3)]) (simp add: completed_saga_def saga_frozen_def)
  ultimately show ?thesis
    using assms(1,4,5,7)
    by (simp add: processSaga_def GetSteps_ok completeSaga_def completed_saga_def publishEvent_def
        PublishEvent_ok Let_def)
qed

definition stepless_world :: World where
  "stepless_world =
     run_operations example_env [OpCreateSaga example_request] (initial_world [False, False, True] 1000)"

theorem finished_saga_completes_witness:
  "saga_steps stepless_world = [] \<and>
   map si_Status (saga_instances (snd (processSaga example_env (hd (saga_instances stepless_world))
     stepless_world))) = [SagaStatusCompleted]"
proof
  let ?s = "hd (saga_instances stepless_world)"
  show "saga_steps stepless_world = []" by code_simp
  have inv: "db_inv (db_of stepless_world)"
    unfolding stepless_world_def using evolves_inv[OF operations_evolve] initial_world_inv by blast
  have h: "faults stepless_world = []" "?s \<in> set (saga_instances stepless_world)"
    "map_of sagaDefinitions (si_SagaType ?s) = Some order_processing_definition"
    "clock stepless_world - si_CreatedAt ?s \<le> df_Timeout order_processing_definition"
    "list_all (\<lambda>t. ss_SagaID t = si_ID ?s \<longrightarrow> step_done t) (saga_steps stepless_world)" "readable (si_ID ?s) stepless_world"
    by code_simp+
  show "map si_Status (saga_instances (snd (processSaga example_env ?s stepless_world))) = [SagaStatusCompleted]"
    unfolding finished_saga_completes[OF h(1) inv h(2-6)] by code_simp
qed

section \<open>Creating sagas\<close>

text \<open>The steps that \<open>createSagaSteps\<close> inserts when the UUIDs start at the n-th.\<close>

definition pending_step :: "Env \<Rightarrow> uuid \<Rightarrow> nat \<Rightarrow> StepDefinition \<Rightarrow> SagaStep" where
  "pending_step E sid n d =
     \<lparr>ss_ID = uuid_New E n, ss_SagaID = sid, ss_StepName = sd_Name d, ss_StepOrder = sd_Order d,
      ss_Status = StepStatusPending, ss_InputData = JNull, ss_OutputData = JNull,
      ss_ErrorMessage = None, ss_StartedAt = None, ss_CompletedAt = None, ss_RetryCount = 0,
      ss_CompensationData = JNull\<rparr>"

fun pending_steps :: "Env \<Rightarrow> uuid \<Rightarrow> nat \<Rightarrow> StepDefinition list \<Rightarrow> SagaStep list" where
  "pending_steps E sid n [] = []"
| "pending_steps E sid n (d # ds) = pending_step E sid n d # pending_steps E sid (Suc n) ds"

lemma pending_steps_ids:
  "map ss_ID (pending_steps E sid n ds) = map (uuid_New E) [n..<n + length ds]"
  by (induction ds arbitrary: n) (simp_all add: pending_step_def upt_conv_Cons del: upt_Suc)

lemma createSagaSteps_ok:
  assumes "faults w = []" "si_ID s \<in> si_ID ` set (saga_instances w)"
    and "distinct (map ss_ID (saga_steps w) @ map (uuid_New E) [uuids_drawn w..<uuids_drawn w + length ds])"
  shows "createSagaSteps E s ds w =
    (None, w\<lparr>saga_steps := saga_steps w @ pending_steps E (si_ID s) (uuids_drawn w) ds,
             uuids_drawn := uuids_drawn w + length ds\<rparr>)"
  using assms
proof (induction ds arbitrary: w)
  case (Cons d ds)
  let ?t = "pending_step E (si_ID s) (uuids_drawn w) d"
  let ?w1 = "w\<lparr>uuids_drawn := Suc (uuids_drawn w), saga_steps := saga_steps w @ [?t]\<rparr>"
  have new: "uuid_New E (uuids_drawn w) \<notin> ss_ID ` set (saga_steps w)"
    using Cons.prems(3) by (simp add: upt_conv_Cons del: upt_Suc)
  have "createSagaSteps E s (d # ds) w = createSagaSteps E s ds ?w1"
    using Cons.prems(1,2) new
    by (simp add: new_uuid_def repo_CreateStep_def external_call_def pending_step_def Let_def)
  also have "\<dots> = (None, ?w1\<lparr>saga_steps := saga_steps ?w1 @ pending_steps E (si_ID s) (uuids_drawn ?w1) ds,
      uuids_drawn := uuids_drawn ?w1 + length ds\<rparr>)"
    by (rule Cons.IH)
       (use Cons.prems in \<open>simp_all add: pending_step_def upt_conv_Cons del: upt_Suc\<close>)
  finally show ?case by simp
qed simp

text \<open>What \<open>CreateSaga\<close> does when it has nothing cached and no external call fails.\<close>

lemma CreateSaga_ok:
  assumes "faults w = []" "cached_saga req w = (None, w)"
    and d: "map_of sagaDefinitions (rq_SagaType req) = Some d"
    and s: "s = new_saga_instance (uuid_New E (uuids_drawn w)) req d (clock w)"
    and new: "si_ID s \<notin> si_ID ` set (saga_instances w)"
      "rq_IdempotencyKey req = None \<or> rq_IdempotencyKey req \<notin> si_IdempotencyKey ` set (saga_instances w)"
      "distinct (map ss_ID (saga_steps w) @
         map (uuid_New E) [Suc (uuids_drawn w)..<Suc (uuids_drawn w) + length (df_Steps d)])"
  shows "\<exists>w'. CreateSaga E req w = (Inr s, w') \<and>
    db_of w' = (saga_instances w @ [s],
                saga_steps w @ pending_steps E (si_ID s) (Suc (uuids_drawn w)) (df_Steps d)) \<and>
    (\<exists>ev. kafka_log w' = kafka_log w @ [(''saga-events'', uuid_String E (si_ID s), MSagaEvent ev)] \<and>
          ev_EventType ev = ''saga.started'' \<and> ev_SagaID ev = si_ID s) \<and>
    redis_keys w' = (case rq_IdempotencyKey req of None \<Rightarrow> redis_keys w
      | Some k \<Rightarrow> go_set (idempotency_prefix @ k) (RSaga s, Some (clock w + 24 * hour)) (redis_keys w)) \<and>
    faults w' = []"
proof -
  let ?s = "new_saga_instance (uuid_New E (uuids_drawn w)) req d (clock w)"
  let ?w3 = "w\<lparr>uuids_drawn := Suc (uuids_drawn w), saga_instances := saga_instances w @ [?s]\<rparr>"
  have ID: "si_ID ?s = uuid_New E (uuids_drawn w)" "si_IdempotencyKey ?s = rq_IdempotencyKey req"
    "?s\<lparr>si_CompletedAt := None, si_ErrorMessage := None\<rparr> = ?s"
    by (simp_all add: new_saga_instance_def)
  have cr: "repo_Create ?s (w\<lparr>uuids_drawn := Suc (uuids_drawn w)\<rparr>) = (None, ?w3)"
    using assms(1) new(1,2) ID unfolding s by (auto simp: repo_Create_def external_call_def)
  have st: "createSagaSteps E ?s (df_Steps d) ?w3 =
      (None, ?w3\<lparr>saga_steps := saga_steps ?w3 @ pending_steps E (si_ID ?s) (uuids_drawn ?w3) (df_Steps d),
                 uuids_drawn := uuids_drawn ?w3 + length (df_Steps d)\<rparr>)"
    by (rule createSagaSteps_ok) (use assms(1) new(3) in simp_all)
  show ?thesis
    unfolding s CreateSaga_def assms(2) prod.case option.case d new_uuid_def Let_def
    using assms(1)
    by (simp add: cr st db_of_def publishEvent_def PublishEvent_ok StoreResult_def
        external_call_def redis_expiry_def split: option.split)
qed

text \<open>a saga request that is not cached creates, when no external call fails and the UUIDs are
  fresh, one STARTED saga and its definition's steps, all PENDING and in the definition's order,
  and announces it with one saga.started record.\<close>

theorem create_saga_creates:
  assumes "faults w = []" "cached_saga req w = (None, w)"
    and "map_of sagaDefinitions (rq_SagaType req) = Some d"
    and "uuid_New E (uuids_drawn w) \<notin> si_ID ` set (saga_instances w)"
    and "rq_IdempotencyKey req = None \<or> rq_IdempotencyKey req \<notin> si_IdempotencyKey ` set (saga_instances w)"
    and "distinct (map ss_ID (saga_steps w) @
           map (uuid_New E) [Suc (uuids_drawn w)..<Suc (uuids_drawn w) + length (df_Steps d)])"
  shows "\<exists>s w'. CreateSaga E req w = (Inr s, w') \<and>
    s = new_saga_instance (uuid_New E (uuids_drawn w)) req d (clock w) \<and>
    saga_instances w' = saga_instances w @ [s] \<and>
    saga_steps w' = saga_steps w @ pending_steps E (si_ID s) (Suc (uuids_drawn w)) (df_Steps d) \<and>
    (\<exists>ev. kafka_log w' = kafka_log w @ [(''saga-events'', uuid_String E (si_ID s), MSagaEvent ev)] \<and>
          ev_EventType ev = ''saga.started'')"
proof -
  let ?s = "new_saga_instance (uuid_New E (uuids_drawn w)) req d (clock w)"
  have "si_ID ?s \<notin> si_ID ` set (saga_instances w)" using assms(4) by (simp add: new_saga_instance_def)
  from CreateSaga_ok[OF assms(1-3) refl this assms(5,6)] show ?thesis by (auto simp: db_of_def)
qed

theorem create_saga_creates_witness:
  "\<exists>s w'. CreateSaga example_env example_request (initial_world [] 1000) = (Inr s, w') \<and>
    length (saga_instances w') = 1"
proof -
  have h: "faults (initial_world [] 1000) = []"
    "cached_saga example_request (initial_world [] 1000) = (None, initial_world [] 1000)"
    "map_of sagaDefinitions (rq_SagaType example_request) = Some order_processing_definition"
    "uuid_New example_env (uuids_drawn (initial_world [] 1000)) \<notin> si_ID ` set (saga_instances (initial_world [] 1000))"
    "rq_IdempotencyKey example_request = None \<or>
     rq_IdempotencyKey example_request \<notin> si_IdempotencyKey ` set (saga_instances (initial_world [] 1000))"
    "distinct (map ss_ID (saga_steps (initial_world [] 1000)) @
       map (uuid_New example_env) [Suc (uuids_drawn (initial_world [] 1000))..<Suc (uuids_drawn (initial_world [] 1000))
         + length (df_Steps order_processing_definition)])" by code_simp+
  show ?thesis using create_saga_creates[OF h] by (auto simp: initial_world_def)
qed

lemma createSagaSteps_quiet:
  "createSagaSteps E s ds w = (e, w') \<Longrightarrow> faults w = [] \<Longrightarrow>
   faults w' = [] \<and> redis_keys w' = redis_keys w \<and> clock w' = clock w"
proof (induction ds arbitrary: w)
  case (Cons d ds)
  obtain i w1 where n: "new_uuid E w = (i, w1)" by fastforce
  then have w1: "faults w1 = []" "redis_keys w1 = redis_keys w" "clock w1 = clock w"
    using Cons.prems(2) by (auto simp: new_uuid_def)
  have q: "faults w2 = [] \<and> redis_keys w2 = redis_keys w1 \<and> clock w2 = clock w1"
    if "repo_CreateStep t w1 = (e2, w2)" for t e2 w2
    using that w1(1) by (auto simp: repo_CreateStep_def external_call_def split: if_splits)
  show ?case using Cons.prems Cons.IH n w1 q
    by (auto simp: Let_def split: prod.splits option.splits)
qed simp

lemma CreateSaga_stores:
  assumes "faults w = []" "rq_IdempotencyKey req = Some k"
    and "redis_lookup (idempotency_prefix @ k) w = None"
    and c: "CreateSaga E req w = (Inr s, w')"
  shows "map_of (redis_keys w') (idempotency_prefix @ k) = Some (RSaga s, Some (clock w + 24 * hour))"
proof -
  have ca: "cached_saga req w = (None, w)"
    using assms(1-3) by (simp add: cached_saga_def GetResult_def external_call_def)
  obtain d where d: "map_of sagaDefinitions (rq_SagaType req) = Some d"
    using c ca by (auto simp: CreateSaga_def split: option.splits)
  let ?w2 = "w\<lparr>uuids_drawn := Suc (uuids_drawn w)\<rparr>"
  let ?s = "new_saga_instance (uuid_New E (uuids_drawn w)) req d (clock w)"
  obtain e3 w3 where cr: "repo_Create ?s ?w2 = (e3, w3)" by fastforce
  have w3: "faults w3 = []" "redis_keys w3 = redis_keys w" "clock w3 = clock w"
    using cr assms(1) by (auto simp: repo_Create_def external_call_def split: if_splits)
  obtain e4 w4 where st: "createSagaSteps E ?s (df_Steps d) w3 = (e4, w4)" by fastforce
  have w4: "faults w4 = []" "redis_keys w4 = redis_keys w" "clock w4 = clock w"
    using createSagaSteps_quiet[OF st w3(1)] w3 by auto
  have ok: "e3 = None" "e4 = None" and s: "s = ?s"
    using c ca d cr st by (auto simp: CreateSaga_def new_uuid_def Let_def split: option.splits prod.splits)
  have "redis_keys w' = go_set (idempotency_prefix @ k) (RSaga ?s, Some (clock w + 24 * hour)) (redis_keys w)"
    using c ca d cr st ok w4 assms(2)
    by (auto simp: CreateSaga_def new_uuid_def Let_def StoreResult_def external_call_def
        redis_expiry_def publishEvent_def PublishEvent_ok)
  then show ?thesis by (simp add: s map_of_go_set)
qed



section \<open>Events, retries and pages\<close>

lemma distinct_name:
  assumes "distinct (map f (filter P xs))" "x \<in> set xs" "y \<in> set xs" "P x" "P y" "f x = f y"
  shows "x = y"
  using assms by (auto simp: distinct_map dest: inj_onD)

text \<open>a completion event delivered twice has the effect of one delivery: the second one finds no
  step in progress and changes nothing, when the steps of the saga have different names.\<close>

theorem duplicate_completion_ignored:
  assumes "faults w = []" "db_inv (db_of w)" "extractSagaID E event = Inr i"
    and "distinct (map ss_StepName (filter (\<lambda>t. ss_SagaID t = i) (saga_steps w)))"
    and "completeStep E event nm w = (None, w1)"
  shows "completeStep E event nm w1 = (None, w1)"
proof -
  have dist: "distinct (map ss_ID (saga_steps w))" "distinct (map si_ID (saga_instances w))"
    using assms(2) by (simp_all add: db_inv_def db_of_def)
  let ?ts = "\<lambda>w. sort_key ss_StepOrder (filter (\<lambda>t. ss_SagaID t = i) (saga_steps w))"
  obtain s where s: "repo_GetByID i w = (Inr s, w)"
    using assms(1,3,5) by (auto simp: completeStep_def repo_GetByID_def external_call_def
        split: option.splits)
  have step: "completeStep E event nm v = (case find_in_progress nm (?ts v) of
       None \<Rightarrow> (None, v)
     | Some t \<Rightarrow> (let (e, v') = repo_UpdateStep (t\<lparr>ss_Status := StepStatusCompleted,
           ss_CompletedAt := Some (clock v), ss_OutputData := mustMarshal event\<rparr>) v
         in case e of Some x \<Rightarrow> (Some ''failed to update step'', v') | None \<Rightarrow> (None, v')))"
    if "faults v = []" "repo_GetByID i v = (Inr s, v)" "readable i v" for v
    using that assms(3) by (simp add: completeStep_def GetSteps_ok)
  have rd: "readable i w"
    using assms(3,5) s GetSteps_readable[of i w] by (auto simp: completeStep_def Let_def split: prod.splits sum.splits)
  show ?thesis
  proof (cases "find_in_progress nm (?ts w)")
    case None
    then show ?thesis using assms(5) step[OF assms(1) s rd] by simp
  next
    case (Some t)
    let ?t = "t\<lparr>ss_Status := StepStatusCompleted, ss_CompletedAt := Some (clock w),
                ss_OutputData := mustMarshal event\<rparr>"
    have t: "t \<in> set (saga_steps w)" "ss_SagaID t = i" "ss_StepName t = nm"
      using find_SomeD[OF Some[unfolded find_in_progress_def]] by auto
    have w1: "w1 = w\<lparr>saga_steps := replace_row ss_ID ?t (saga_steps w)\<rparr>"
      using assms(5) step[OF assms(1) s rd] Some
        UpdateStep_ok[OF assms(1) dist(1) t(1), of ?t] by (simp add: step_frozen_def)
    have "find_in_progress nm (?ts w1) = None"
    proof (rule ccontr)
      assume "find_in_progress nm (?ts w1) \<noteq> None"
      then obtain x where x: "x \<in> set (replace_row ss_ID ?t (saga_steps w))" "ss_SagaID x = i"
        "ss_StepName x = nm" "ss_Status x = StepStatusInProgress"
        by (auto simp: find_in_progress_def find_None_iff w1)
      then have "x \<in> set (saga_steps w)" "ss_ID x \<noteq> ss_ID t" by (auto simp: set_replace_row split: if_splits)
      moreover have "x = t"
        by (rule distinct_name[OF assms(4)]) (use x t \<open>x \<in> set (saga_steps w)\<close> in simp_all)
      ultimately show False by simp
    qed
    moreover have "repo_GetByID i w1 = (Inr s, w1)"
      using s assms(1) by (auto simp: w1 repo_GetByID_def external_call_def split: option.splits)
    moreover have "readable i w1"
      using rd t by (auto simp: w1 readable_def list_all_iff set_replace_row scan_fails_def mustMarshal_def split: if_splits)
    ultimately show ?thesis using step[of w1] assms(1) by (simp add: w1)
  qed
qed

definition started_world :: World where
  "started_world = run_operations example_env [OpProcessorTick] (fill_columns created_world)"

lemma created_inv: "db_inv (db_of created_world)"
  unfolding created_world_def using evolves_inv[OF operations_evolve] initial_world_inv by blast

lemma started_inv: "db_inv (db_of started_world)"
  unfolding started_world_def using evolves_inv[OF operations_evolve] fill_columns_inv[OF created_inv] by blast

theorem duplicate_completion_ignored_witness:
  "completeStep example_env (the (example_event ''inventory.reserved'')) ''reserve-inventory''
     (snd (completeStep example_env (the (example_event ''inventory.reserved'')) ''reserve-inventory''
        started_world)) =
   (None, snd (completeStep example_env (the (example_event ''inventory.reserved''))
      ''reserve-inventory'' started_world))"
proof (rule duplicate_completion_ignored)
  show "faults started_world = []" by code_simp
  show "db_inv (db_of started_world)" by (rule started_inv)
  show "extractSagaID example_env (the (example_event ''inventory.reserved'')) = Inr 1" by code_simp
  show "distinct (map ss_StepName (filter (\<lambda>t. ss_SagaID t = 1) (saga_steps started_world)))" by code_simp
  show "completeStep example_env (the (example_event ''inventory.reserved'')) ''reserve-inventory''
      started_world = (None, snd (completeStep example_env (the (example_event ''inventory.reserved''))
      ''reserve-inventory'' started_world))" by code_simp
qed

definition reset_step :: "SagaStep \<Rightarrow> SagaStep" where
  "reset_step t =
     t\<lparr>ss_Status := StepStatusPending, ss_StartedAt := None, ss_CompletedAt := None,
       ss_ErrorMessage := None, ss_RetryCount := 0\<rparr>"

lemma reset_steps_ok:
  assumes "faults w = []" "distinct (map ss_ID (saga_steps w))" "set ts \<subseteq> set (saga_steps w)"
    "distinct (map ss_ID ts)"
  shows "reset_steps n ts w =
    (None, w\<lparr>saga_steps := fold (\<lambda>t. replace_row ss_ID (reset_step t))
       (filter (\<lambda>t. ss_StepOrder t \<ge> n) ts) (saga_steps w)\<rparr>)"
  using assms
proof (induction ts arbitrary: w)
  case (Cons t ts)
  show ?case
  proof (cases "ss_StepOrder t \<ge> n")
    case True
    let ?w1 = "w\<lparr>saga_steps := replace_row ss_ID (reset_step t) (saga_steps w)\<rparr>"
    have "repo_UpdateStep (reset_step t) w = (None, ?w1)"
      by (rule UpdateStep_ok[of w t]) (use Cons.prems in \<open>simp_all add: reset_step_def step_frozen_def\<close>)
    moreover have "set ts \<subseteq> set (saga_steps ?w1)"
    proof
      fix x assume x: "x \<in> set ts"
      then have "ss_ID x \<noteq> ss_ID t"
        using Cons.prems(4) by (metis distinct.simps(2) image_eqI list.set_map list.simps(9))
      then show "x \<in> set (saga_steps ?w1)"
        using x Cons.prems(3) by (auto simp: reset_step_def intro!: replace_row_other)
    qed
    ultimately show ?thesis using True Cons.IH[of ?w1] Cons.prems by (simp add: reset_step_def Let_def)
  qed (use Cons in simp)
qed simp

text \<open>the outcome of a retry when no external call fails and the steps can be read: a saga that is not FAILED, or has used
  up its retries, is refused and nothing changes; otherwise it is IN_PROGRESS again with one more
  retry and the given current step, and exactly its steps from that order on are PENDING again with
  their counters at zero.\<close>

theorem retry_saga_outcome:
  assumes "faults w = []" "db_inv (db_of w)" "s \<in> set (saga_instances w)" "readable (si_ID s) w"
  shows "RetrySaga (si_ID s) fromStep w =
    (if si_Status s \<noteq> SagaStatusFailed then (Some ''can only retry failed sagas'', w)
     else if si_RetryCount s \<ge> si_MaxRetries s
     then (Some ''saga has exceeded maximum retry count'', w)
     else (None, w\<lparr>
       saga_instances := replace_row si_ID
         (s\<lparr>si_Status := SagaStatusInProgress, si_CurrentStep := fromStep,
            si_RetryCount := si_RetryCount s + 1, si_UpdatedAt := clock w,
            si_ErrorMessage := None\<rparr>) (saga_instances w),
       saga_steps := map (\<lambda>t. if ss_SagaID t = si_ID s \<and> ss_StepOrder t \<ge> fromStep
                              then reset_step t else t) (saga_steps w)\<rparr>))"
proof -
  have dist: "distinct (map ss_ID (saga_steps w))" "distinct (map si_ID (saga_instances w))"
    using assms(2) by (simp_all add: db_inv_def db_of_def)
  let ?s = "s\<lparr>si_Status := SagaStatusInProgress, si_CurrentStep := fromStep,
              si_RetryCount := si_RetryCount s + 1, si_UpdatedAt := clock w, si_ErrorMessage := None\<rparr>"
  let ?w1 = "w\<lparr>saga_instances := replace_row si_ID ?s (saga_instances w)\<rparr>"
  let ?ts = "sort_key ss_StepOrder (filter (\<lambda>t. ss_SagaID t = si_ID s) (saga_steps w))"
  have g: "repo_GetByID (si_ID s) w = (Inr s, w)" by (rule GetByID_ok[OF assms(1) dist(2) assms(3)])
  have u: "repo_Update ?s w = (None, ?w1)"
    by (rule Update_ok[OF assms(1) dist(2) assms(3)]) (simp add: saga_frozen_def)
  have dts: "distinct (map ss_ID ?ts)" using dist(1) by (auto simp: distinct_map inj_on_def)
  have r: "resetSagaSteps (si_ID s) fromStep ?w1 = (None, ?w1\<lparr>saga_steps :=
      map (\<lambda>t. if ss_SagaID t = si_ID s \<and> ss_StepOrder t \<ge> fromStep then reset_step t else t)
        (saga_steps w)\<rparr>)"
  proof -
    have "fold (\<lambda>t. replace_row ss_ID (reset_step t)) (filter (\<lambda>t. ss_StepOrder t \<ge> fromStep) ?ts)
        (saga_steps w) =
      map (\<lambda>t. if t \<in> set (filter (\<lambda>t. ss_StepOrder t \<ge> fromStep) ?ts) then reset_step t else t)
        (saga_steps w)"
      by (rule replace_rows_map)
         (use dist dts in \<open>auto simp: reset_step_def distinct_map_filter\<close>)
    then show ?thesis
      using assms(1,4) reset_steps_ok[of ?w1 ?ts fromStep] dist dts readable_def[of "si_ID s"]
      by (auto simp: resetSagaSteps_def GetSteps_ok intro!: map_cong)
  qed
  show ?thesis using r by (simp add: RetrySaga_def g u Let_def)
qed

definition failed_world :: World where
  "failed_world = run_operations example_env [OpCompensateSaga 1 ''no''] started_world"

theorem retry_saga_outcome_witness:
  "map ss_Status (saga_steps (snd (RetrySaga 1 2 failed_world))) =
     [StepStatusInProgress, StepStatusPending, StepStatusPending]"
proof -
  have inv: "db_inv (db_of failed_world)"
    unfolding failed_world_def using evolves_inv[OF operations_evolve] started_inv by blast
  have h: "faults failed_world = []" "readable (si_ID (hd (saga_instances failed_world))) failed_world" "hd (saga_instances failed_world) \<in> set (saga_instances failed_world)"
    "si_ID (hd (saga_instances failed_world)) = 1" by code_simp+
  show ?thesis unfolding retry_saga_outcome[OF h(1) inv h(3) h(2), of 2, unfolded h(4)] by code_simp
qed

text \<open>a saga row reads back as it was last written.\<close>

theorem saga_read_your_writes:
  assumes "db_inv (db_of w)" "s \<in> set (saga_instances w)" "saga_frozen s' s"
    and "repo_Update s' w = (None, w1)" "repo_GetByID (si_ID s) w1 = (Inr r, w2)"
  shows "r = s'"
proof -
  have "si_ID s' = si_ID s" using assms(3) by (simp add: saga_frozen_def)
  then show ?thesis
    using saga_table.get_after_upd[OF assms(4) _ assms(2,3)] assms(1,5)
    by (simp add: db_inv_def db_of_def)
qed

theorem saga_read_your_writes_witness:
  "\<exists>r w2. repo_GetByID 1 (snd (repo_Update ((hd (saga_instances created_world))\<lparr>si_CurrentStep := 2\<rparr>)
      created_world)) = (Inr r, w2) \<and> r = (hd (saga_instances created_world))\<lparr>si_CurrentStep := 2\<rparr>"
proof -
  let ?s = "hd (saga_instances created_world)"
  let ?w1 = "snd (repo_Update (?s\<lparr>si_CurrentStep := 2\<rparr>) created_world)"
  have inv: "db_inv (db_of created_world)"
    unfolding created_world_def using evolves_inv[OF operations_evolve] initial_world_inv by blast
  have h: "?s \<in> set (saga_instances created_world)" "saga_frozen (?s\<lparr>si_CurrentStep := 2\<rparr>) ?s"
    "repo_Update (?s\<lparr>si_CurrentStep := 2\<rparr>) created_world = (None, ?w1)"
    "repo_GetByID (si_ID ?s) ?w1 = (Inr (hd (saga_instances ?w1)), ?w1)" "si_ID ?s = 1" by code_simp+
  have "hd (saga_instances ?w1) = ?s\<lparr>si_CurrentStep := 2\<rparr>"
    by (rule saga_read_your_writes[OF inv h(1-4)])
  then show ?thesis using h(4,5) by (intro exI[of _ "hd (saga_instances ?w1)"] exI[of _ ?w1]) simp
qed

fun page_rows :: "(goerror + SagaInstance list \<times> int) \<times> World \<Rightarrow> SagaInstance list" where
  "page_rows (Inr (ss, n), w) = ss"
| "page_rows (Inl e, w) = []"

definition listed_rows :: "SagaStatus option \<Rightarrow> World \<Rightarrow> SagaInstance list" where
  "listed_rows status w =
     sort_key (\<lambda>s. - si_CreatedAt s)
       (filter (\<lambda>s. case status of None \<Rightarrow> True | Some st \<Rightarrow> si_Status s = st) (saga_instances w))"

text \<open>consecutive pages of the list of sagas, when nothing changes in between, are consecutive
  pieces of the sagas with the status asked for, the newest first: no saga is left out and none is
  listed twice.\<close>

theorem list_pages_consecutive:
  assumes "faults w = []"
  shows "concat (map (\<lambda>k. page_rows (ListSagas (int l) (int (k * l)) status w)) [0..<n]) =
         take (n * l) (listed_rows status w)"
proof (induction n)
  case (Suc n)
  have "\<not> int n * int l < 0" by (simp add: not_less)
  then have "page_rows (ListSagas (int l) (int (n * l)) status w) =
      take l (drop (n * l) (listed_rows status w))"
    using assms by (simp add: ListSagas_def repo_List_def external_call_def listed_rows_def Let_def nat_mult_distrib)
  moreover have "take (Suc n * l) (listed_rows status w) =
      take (n * l) (listed_rows status w) @ take l (drop (n * l) (listed_rows status w))"
    by (metis add.commute mult_Suc take_add)
  ultimately show ?case using Suc by simp
qed simp

theorem list_pages_consecutive_witness:
  "map si_ID (concat (map (\<lambda>k. page_rows (ListSagas (int 1) (int (k * 1)) None created_world)) [0..<3])) = [1]"
proof -
  have f: "faults created_world = []" by code_simp
  show ?thesis unfolding list_pages_consecutive[OF f] by code_simp
qed

definition started_step :: "gotime \<Rightarrow> SagaStep \<Rightarrow> SagaStep" where
  "started_step now t = t\<lparr>ss_Status := StepStatusInProgress, ss_StartedAt := Some now\<rparr>"

definition advanced_saga :: "gotime \<Rightarrow> int \<Rightarrow> SagaInstance \<Rightarrow> SagaInstance" where
  "advanced_saga now n s =
     s\<lparr>si_CurrentStep := n, si_Status := SagaStatusInProgress, si_UpdatedAt := now\<rparr>"

lemma find_unique:
  assumes "distinct (map f xs)" "x \<in> set xs" "Q x"
  shows "find (\<lambda>y. f y = f x \<and> Q y) xs = Some x"
  using assms by (induction xs) (auto simp: rev_image_eqI)

text \<open>a visit of the processor to a saga that has not timed out and whose steps can be read starts the step after its current
  one when that step is PENDING, and publishes the step's execute event, whatever the status of the
  other steps: neither the current step nor an earlier one has to be completed, and a step at or
  before the current one is never started.\<close>

theorem visit_starts_next_step:
  assumes "faults w = []" "db_inv (db_of w)" "s \<in> set (saga_instances w)"
    and "map_of sagaDefinitions (si_SagaType s) = Some d"
    and "clock w - si_CreatedAt s \<le> df_Timeout d"
    and "t \<in> set (saga_steps w)" "ss_SagaID t = si_ID s" "ss_Status t = StepStatusPending"
    and "ss_StepOrder t = si_CurrentStep s + 1"
    and "distinct (map ss_StepOrder (filter (\<lambda>x. ss_SagaID x = si_ID s) (saga_steps w)))"
    and "find (\<lambda>x. sd_Name x = ss_StepName t) (df_Steps d) = Some sd" "readable (si_ID s) w"
  shows "processSaga E s w =
    (None, w\<lparr>saga_steps := replace_row ss_ID (started_step (clock w) t) (saga_steps w),
             saga_instances := replace_row si_ID (advanced_saga (clock w) (ss_StepOrder t) s) (saga_instances w),
             kafka_log := kafka_log w @
               [(''saga-events'', uuid_String E (si_ID s), MSagaEvent
                 \<lparr>ev_ID = ss_ID t, ev_SagaID = si_ID s,
                  ev_EventType = ''step.'' @ sd_Action sd @ ''.execute'',
                  ev_EventData = si_SagaData s, ev_Timestamp = clock w,
                  ev_CorrelationID = stringValue (si_CorrelationID s),
                  ev_CausationID = uuid_String E (si_ID s)\<rparr>)]\<rparr>)"
proof -
  have dist: "distinct (map ss_ID (saga_steps w))" "distinct (map si_ID (saga_instances w))"
    using assms(2) by (simp_all add: db_inv_def db_of_def)
  let ?ts = "sort_key ss_StepOrder (filter (\<lambda>x. ss_SagaID x = si_ID s) (saga_steps w))"
  let ?t = "started_step (clock w) t"
  let ?s = "advanced_saga (clock w) (ss_StepOrder t) s"
  let ?w1 = "w\<lparr>saga_steps := replace_row ss_ID ?t (saga_steps w)\<rparr>"
  have "distinct (map ss_StepOrder ?ts)" using assms(10) by (auto simp: distinct_map inj_on_def)
  then have fnd: "find (\<lambda>x. ss_StepOrder x = si_CurrentStep s + 1 \<and> ss_Status x = StepStatusPending) ?ts = Some t"
    using find_unique[of ss_StepOrder ?ts t "\<lambda>x. ss_Status x = StepStatusPending"] assms(6-9) by simp
  have u1: "repo_UpdateStep ?t w = (None, ?w1)"
    by (rule UpdateStep_ok[OF assms(1) dist(1) assms(6)]) (simp add: started_step_def step_frozen_def)
  have u2: "repo_Update ?s v = (None, v\<lparr>saga_instances := replace_row si_ID ?s (saga_instances w)\<rparr>)"
    if "saga_instances v = saga_instances w" "faults v = []" for v
    using Update_ok[of v s ?s] that dist(2) assms(3) by (simp add: advanced_saga_def saga_frozen_def)
  have names: "ss_ID ?t = ss_ID t" "ss_StepOrder ?t = ss_StepOrder t" by (simp_all add: started_step_def)
  have "executeStep E s t d w = (None, w\<lparr>saga_steps := replace_row ss_ID ?t (saga_steps w),
             saga_instances := replace_row si_ID ?s (saga_instances w),
             kafka_log := kafka_log w @
               [(''saga-events'', uuid_String E (si_ID s), MSagaEvent
                 \<lparr>ev_ID = ss_ID t, ev_SagaID = si_ID s,
                  ev_EventType = ''step.'' @ sd_Action sd @ ''.execute'',
                  ev_EventData = si_SagaData s, ev_Timestamp = clock w,
                  ev_CorrelationID = stringValue (si_CorrelationID s),
                  ev_CausationID = uuid_String E (si_ID s)\<rparr>)]\<rparr>)"
    using assms(1) unfolding executeStep_def assms(11) option.case started_step_def[symmetric] Let_def
      u1 prod.case names
    by (simp add: publishEvent_def PublishEvent_ok advanced_saga_def[symmetric] u2)
  then show ?thesis using assms(1,4,5,12) fnd by (simp add: processSaga_def GetSteps_ok)
qed

theorem visit_starts_next_step_witness:
  "map ss_Status (saga_steps started_world) = [StepStatusInProgress, StepStatusInProgress, StepStatusPending] \<and>
   map ss_Status (saga_steps (snd (processSaga example_env (hd (saga_instances started_world)) started_world))) =
     [StepStatusInProgress, StepStatusInProgress, StepStatusInProgress]"
proof
  let ?s = "hd (saga_instances started_world)" and ?t = "saga_steps started_world ! 2"
  show "map ss_Status (saga_steps started_world) = [StepStatusInProgress, StepStatusInProgress, StepStatusPending]"
    by code_simp
  note inv = started_inv
  have h: "faults started_world = []" "?s \<in> set (saga_instances started_world)"
    "map_of sagaDefinitions (si_SagaType ?s) = Some order_processing_definition"
    "clock started_world - si_CreatedAt ?s \<le> df_Timeout order_processing_definition"
    "?t \<in> set (saga_steps started_world)" "ss_SagaID ?t = si_ID ?s" "ss_Status ?t = StepStatusPending"
    "ss_StepOrder ?t = si_CurrentStep ?s + 1"
    "distinct (map ss_StepOrder (filter (\<lambda>x. ss_SagaID x = si_ID ?s) (saga_steps started_world)))"
    "find (\<lambda>x. sd_Name x = ss_StepName ?t) (df_Steps order_processing_definition) =
       Some (df_Steps order_processing_definition ! 2)" "readable (si_ID ?s) started_world" by code_simp+
  show "map ss_Status (saga_steps (snd (processSaga example_env ?s started_world))) =
     [StepStatusInProgress, StepStatusInProgress, StepStatusInProgress]"
    unfolding visit_starts_next_step[OF h(1) inv h(2-11)] by code_simp
qed

section \<open>Outbox and idempotency keys\<close>

definition processed_event :: "gotime \<Rightarrow> OutboxEvent \<Rightarrow> OutboxEvent" where
  "processed_event now e = e\<lparr>oe_Status := ''PROCESSED'', oe_ProcessedAt := Some now\<rparr>"

lemma processOutboxEvent_ok:
  assumes "faults w = []" "distinct (map oe_ID (outbox_events w))" "e \<in> set (outbox_events w)"
    "oe_RetryCount e < 5" "getTopicForEvent e \<noteq> ''''"
  shows "processOutboxEvent e w =
    (None, w\<lparr>kafka_log := kafka_log w @ [record_of e],
             outbox_events := replace_row oe_ID (processed_event (clock w) e) (outbox_events w)\<rparr>)"
proof -
  let ?w1 = "w\<lparr>kafka_log := kafka_log w @ [record_of e]\<rparr>"
  have "outbox_UpdateEvent (processed_event (clock w) e) ?w1 =
      (None, ?w1\<lparr>outbox_events := replace_row oe_ID (processed_event (clock w) e) (outbox_events ?w1)\<rparr>)"
    by (rule UpdateEvent_ok[of _ e]) (use assms in \<open>simp_all add: processed_event_def event_frozen_def\<close>)
  then show ?thesis using assms
    by (simp add: processOutboxEvent_def PublishEvent_ok record_of_def processed_event_def Let_def)
qed

lemma process_outbox_events_ok:
  assumes "faults w = []" "distinct (map oe_ID (outbox_events w))" "set es \<subseteq> set (outbox_events w)"
    "distinct (map oe_ID es)" "\<forall>e \<in> set es. oe_RetryCount e < 5 \<and> getTopicForEvent e \<noteq> ''''"
  shows "process_outbox_events es w =
    w\<lparr>kafka_log := kafka_log w @ map record_of es,
      outbox_events := fold (\<lambda>e. replace_row oe_ID (processed_event (clock w) e)) es (outbox_events w)\<rparr>"
  using assms
proof (induction es arbitrary: w)
  case (Cons e es)
  let ?w1 = "w\<lparr>kafka_log := kafka_log w @ [record_of e],
               outbox_events := replace_row oe_ID (processed_event (clock w) e) (outbox_events w)\<rparr>"
  have "processOutboxEvent e w = (None, ?w1)"
    by (rule processOutboxEvent_ok) (use Cons.prems in auto)
  moreover have "set es \<subseteq> set (outbox_events ?w1)"
  proof
    fix x assume x: "x \<in> set es"
    then have "oe_ID x \<noteq> oe_ID e"
      using Cons.prems(4) by (metis distinct.simps(2) image_eqI list.set_map list.simps(9))
    then show "x \<in> set (outbox_events ?w1)"
      using x Cons.prems(3) by (auto simp: processed_event_def intro!: replace_row_other)
  qed
  ultimately show ?case using Cons.IH[of ?w1] Cons.prems by simp
qed simp

text \<open>one run of the outbox processor without failures drains it: when at most 100 events are
  pending, each with a known topic and fewer than five retries, all of them are published in the
  order of their creation and none is pending afterwards.\<close>

theorem outbox_tick_drains:
  assumes "faults w = []" "outbox_inv w"
    and "length (filter (\<lambda>e. oe_Status e = ''PENDING'') (outbox_events w)) \<le> 100"
    and "list_all (\<lambda>e. oe_Status e = ''PENDING'' \<longrightarrow> oe_RetryCount e < 5 \<and> getTopicForEvent e \<noteq> '''')
           (outbox_events w)"
  shows "processOutboxEvents w =
    (None, w\<lparr>kafka_log := kafka_log w @ map record_of (sort_key oe_CreatedAt
               (filter (\<lambda>e. oe_Status e = ''PENDING'') (outbox_events w))),
             outbox_events := map (\<lambda>e. if oe_Status e = ''PENDING'' then processed_event (clock w) e else e)
               (outbox_events w)\<rparr>)"
proof -
  let ?es = "sort_key oe_CreatedAt (filter (\<lambda>e. oe_Status e = ''PENDING'') (outbox_events w))"
  have dist: "distinct (map oe_ID (outbox_events w))" using assms(2) by (simp add: outbox_inv_def)
  then have de: "distinct (map oe_ID ?es)" by (auto simp: distinct_map inj_on_def)
  have g: "outbox_GetPendingEvents 100 w = (Inr ?es, w)"
    using assms(1,3) by (simp add: outbox_GetPendingEvents_def external_call_def)
  have p: "process_outbox_events ?es w =
    w\<lparr>kafka_log := kafka_log w @ map record_of ?es,
      outbox_events := fold (\<lambda>e. replace_row oe_ID (processed_event (clock w) e)) ?es (outbox_events w)\<rparr>"
    by (rule process_outbox_events_ok) (use assms dist de in \<open>auto simp: list_all_iff\<close>)
  have "fold (\<lambda>e. replace_row oe_ID (processed_event (clock w) e)) ?es (outbox_events w) =
      map (\<lambda>e. if e \<in> set ?es then processed_event (clock w) e else e) (outbox_events w)"
    by (rule replace_rows_map) (use dist de in \<open>auto simp: processed_event_def\<close>)
  also have "\<dots> = map (\<lambda>e. if oe_Status e = ''PENDING'' then processed_event (clock w) e else e)
      (outbox_events w)"
    by (intro map_cong) auto
  finally have f: "fold (\<lambda>e. replace_row oe_ID (processed_event (clock w) e)) ?es (outbox_events w) =
      map (\<lambda>e. if oe_Status e = ''PENDING'' then processed_event (clock w) e else e) (outbox_events w)" .
  have "process_outbox_events ?es w = w" if "?es = []" using that by simp
  then have "processOutboxEvents w = (None, process_outbox_events ?es w)"
    by (simp add: processOutboxEvents_def g)
  then show ?thesis unfolding p f .
qed

definition outbox_world :: World where
  "outbox_world = run_operations example_env
     [OpCreateOutboxEvent ''order-7'' ''payment'' ''payment.requested'' JNull None None]
     (initial_world [] 5)"

theorem outbox_tick_drains_witness:
  "map oe_Status (outbox_events (snd (processOutboxEvents outbox_world))) = [''PROCESSED''] \<and>
   map fst (kafka_log (snd (processOutboxEvents outbox_world))) = [''payment-events'']"
proof -
  have inv: "outbox_inv outbox_world"
    unfolding outbox_world_def using operations_outbox_inv initial_world_inv by blast
  have h: "faults outbox_world = []"
    "length (filter (\<lambda>e. oe_Status e = ''PENDING'') (outbox_events outbox_world)) \<le> 100"
    "list_all (\<lambda>e. oe_Status e = ''PENDING'' \<longrightarrow> oe_RetryCount e < 5 \<and> getTopicForEvent e \<noteq> '''')
       (outbox_events outbox_world)" by code_simp+
  show ?thesis unfolding outbox_tick_drains[OF h(1) inv h(2,3)] by code_simp
qed

text \<open>what the helper contains decides: the second string is a prefix or a suffix of the first.
  An occurrence in the middle does not count.\<close>

theorem contains_is_prefix_or_suffix: "contains s t \<longleftrightarrow> prefix t s \<or> suffix t s"
proof -
  have p: "prefix t s \<longleftrightarrow> take (length t) s = t"
    by (metis append_eq_conv_conj append_take_drop_id prefix_def)
  have q: "suffix t s \<longleftrightarrow> length t \<le> length s \<and> drop (length s - length t) s = t"
    by (metis add_diff_cancel_right' append_eq_conv_conj append_take_drop_id length_append suffix_def
        suffix_length_le)
  have "take (length t) s = t \<Longrightarrow> length t \<le> length s" by (metis length_take min.cobounded1)
  then show ?thesis unfolding p q contains_def by (cases "length s = length t") auto
qed

text \<open>two callers cannot both mark a key as being processed: after one has, every other attempt
  before the mark expires returns an error, whether Redis answers or not.\<close>

theorem mark_processing_exclusive:
  assumes "MarkAsProcessing key ttl w = (None, w1)" "0 < ttl"
    and "redis_keys v = redis_keys w1" "clock v < clock w + ttl"
  shows "\<exists>e. fst (MarkAsProcessing key ttl' v) = Some e"
proof -
  let ?k = "idempotency_prefix @ ''processing:'' @ key"
  have "map_of (redis_keys w1) ?k = Some (RText ''processing'', Some (clock w + ttl))"
    using assms(1,2) by (auto simp: MarkAsProcessing_def redis_expiry_def map_of_go_set Let_def
        split: prod.splits if_splits)
  then have "redis_lookup ?k x \<noteq> None" if "redis_keys x = redis_keys v" "clock x = clock v" for x
    using assms(3,4) that by (simp add: redis_lookup_def)
  then show ?thesis by (auto simp: MarkAsProcessing_def Let_def split: prod.split)
qed

theorem mark_processing_exclusive_witness:
  "\<exists>e. fst (MarkAsProcessing ''job'' minute
      (snd (MarkAsProcessing ''job'' minute (initial_world [] 0)))) = Some e"
proof (rule mark_processing_exclusive)
  show "MarkAsProcessing ''job'' minute (initial_world [] 0) =
    (None, snd (MarkAsProcessing ''job'' minute (initial_world [] 0)))" by code_simp
  show "(0::duration) < minute" by simp
  show "clock (snd (MarkAsProcessing ''job'' minute (initial_world [] 0))) < clock (initial_world [] 0) + minute"
    by code_simp
qed simp

section \<open>Behaviours worth knowing\<close>

text \<open>A step that fails by an event goes back to PENDING, but the processor only looks at the step
  after the current one: however many ticks follow, the failed step is not executed again.\<close>

lemma failed_step_not_rerun:
  "map ss_Status (saga_steps (run_operations example_env
     [OpConsume [(''inventory-events'', '''', example_event ''inventory.reservation_failed'')],
      OpProcessorTick, OpProcessorTick, OpProcessorTick] started_world)) =
   [StepStatusPending, StepStatusInProgress, StepStatusInProgress]"
  by code_simp

text \<open>A retry from step 2 makes the processor go on with step 3.\<close>

lemma retry_skips_its_step:
  "map ss_Status (saga_steps (run_operations example_env
     [OpRetrySaga 1 2, OpProcessorTick] failed_world)) =
   [StepStatusInProgress, StepStatusPending, StepStatusInProgress]"
  by code_simp

end
