(* ===== verification/Go_Env.thy ===== *)
theory Go_Env
  imports Go_Prelude
begin

text \<open>
  What the configuration code of several services shares: parsing of numbers and booleans
  (\<open>strconv\<close>), splitting of strings, and the helpers that read an environment variable with a
  default. The environment is a function from names to values, the empty string for a variable that
  is not set. \<open>time.ParseDuration\<close> is an argument of the definitions that use it.
\<close>

section \<open>Numbers\<close>

definition is_digit :: "char \<Rightarrow> bool" where
  "is_digit c \<longleftrightarrow> 48 \<le> (of_char c :: nat) \<and> (of_char c :: nat) \<le> 57"

fun digits_value :: "nat \<Rightarrow> string \<Rightarrow> nat" where
  "digits_value acc [] = acc"
| "digits_value acc (c # cs) = digits_value (10 * acc + (of_char c - 48)) cs"

definition parse_digits :: "string \<Rightarrow> nat option" where
  "parse_digits s = (if s \<noteq> [] \<and> list_all is_digit s then Some (digits_value 0 s) else None)"

definition strconv_Atoi :: "string \<Rightarrow> int option" where
  "strconv_Atoi s =
     (let (neg, ds) = (case s of
            [] \<Rightarrow> (False, [])
          | c # cs \<Rightarrow> if c = CHR ''-'' then (True, cs)
                      else if c = CHR ''+'' then (False, cs) else (False, s))
      in case parse_digits ds of
           None \<Rightarrow> None
         | Some n \<Rightarrow>
             (let i = (if neg then - int n else int n) in
              if - (2 ^ 63) \<le> i \<and> i < 2 ^ 63 then Some i else None))"

text \<open>A digit of \<open>encoding/hex\<close> and of the verb \<open>%x\<close>.\<close>

definition hex_digit :: "nat \<Rightarrow> char" where
  "hex_digit n = ''0123456789abcdef'' ! n"

section \<open>Decimal round trip\<close>

lemma digits_value_append: "digits_value acc (xs @ ys) = digits_value (digits_value acc xs) ys"
  by (induction xs arbitrary: acc) simp_all

lemma decimal_digit_value:
  "d < 10 \<Longrightarrow> is_digit (decimal_digit d) \<and> of_char (decimal_digit d) - (48 :: nat) = d"
  by (simp add: is_digit_def decimal_digit_def)

lemma decimal_nat_digits: "list_all is_digit (decimal_nat n) \<and> decimal_nat n \<noteq> []"
proof (induction n rule: decimal_nat.induct)
  case (1 n)
  then show ?case
    by (subst (1 2) decimal_nat.simps) (auto simp: decimal_digit_value)
qed

lemma digits_value_decimal: "digits_value 0 (decimal_nat n) = n"
proof (induction n rule: decimal_nat.induct)
  case (1 n)
  show ?case
  proof (cases "n < 10")
    case True
    then show ?thesis by (subst decimal_nat.simps) (simp add: decimal_digit_value)
  next
    case False
    then show ?thesis using 1
      by (subst decimal_nat.simps) (simp add: decimal_digit_value digits_value_append)
  qed
qed

lemma parse_digits_decimal: "parse_digits (decimal_nat n) = Some n"
  using decimal_nat_digits[of n] by (simp add: parse_digits_def digits_value_decimal)

lemma decimal_nat_head: "\<exists>c cs. decimal_nat n = c # cs \<and> c \<noteq> CHR ''-'' \<and> c \<noteq> CHR ''+''"
proof -
  obtain c cs where "decimal_nat n = c # cs" using decimal_nat_digits[of n] by (cases "decimal_nat n") auto
  moreover have "is_digit c" using decimal_nat_digits[of n] calculation by simp
  ultimately show ?thesis by (auto simp: is_digit_def)
qed

lemma itoa_inject: "0 \<le> i \<Longrightarrow> 0 \<le> j \<Longrightarrow> itoa i = itoa j \<Longrightarrow> i = j"
  by (metis digits_value_decimal eq_nat_nat_iff itoa_def not_less)

lemma itoa_digits: "0 \<le> i \<Longrightarrow> list_all is_digit (itoa i)"
  using decimal_nat_digits [of "nat i"] by (simp add: itoa_def)

lemma Atoi_itoa:
  assumes "- (2 ^ 63) \<le> i" "i < 2 ^ 63"
  shows "strconv_Atoi (itoa i) = Some i"
proof (cases "i < 0")
  case True
  then show ?thesis using assms by (simp add: strconv_Atoi_def itoa_def parse_digits_decimal)
next
  case False
  obtain c cs where c: "decimal_nat (nat i) = c # cs" "c \<noteq> CHR ''-''" "c \<noteq> CHR ''+''"
    using decimal_nat_head by blast
  then show ?thesis using assms False parse_digits_decimal[of "nat i"]
    by (simp add: strconv_Atoi_def itoa_def)
qed

lemma Atoi_range: "strconv_Atoi s = Some i \<Longrightarrow> i \<le> 2 ^ 63 - 1"
  by (auto simp: strconv_Atoi_def Let_def split: option.splits if_splits list.splits)

section \<open>Booleans and lists\<close>

definition strconv_ParseBool :: "string \<Rightarrow> bool option" where
  "strconv_ParseBool s =
     (if s \<in> {''1'', ''t'', ''T'', ''TRUE'', ''true'', ''True''} then Some True
      else if s \<in> {''0'', ''f'', ''F'', ''FALSE'', ''false'', ''False''} then Some False
      else None)"

fun strings_Split :: "char \<Rightarrow> string \<Rightarrow> string list" where
  "strings_Split sep [] = [[]]"
| "strings_Split sep (c # cs) =
     (if c = sep then [] # strings_Split sep cs
      else case strings_Split sep cs of [] \<Rightarrow> [[c]] | x # xs \<Rightarrow> (c # x) # xs)"

fun strings_Join :: "char \<Rightarrow> string list \<Rightarrow> string" where
  "strings_Join sep [] = []"
| "strings_Join sep [x] = x"
| "strings_Join sep (x # y # xs) = x @ sep # strings_Join sep (y # xs)"

lemma strings_Split_nonempty [simp]: "strings_Split sep s \<noteq> []"
  by (induction s) (auto split: list.splits)

lemma Split_no_sep: "sep \<notin> set x \<Longrightarrow> strings_Split sep x = [x]"
  by (induction x) auto

lemma Split_append: "sep \<notin> set x \<Longrightarrow> strings_Split sep (x @ sep # s) = x # strings_Split sep s"
  by (induction x) auto

lemma Split_Join:
  "xs \<noteq> [] \<Longrightarrow> \<forall>x \<in> set xs. sep \<notin> set x \<Longrightarrow> strings_Split sep (strings_Join sep xs) = xs"
  by (induction sep xs rule: strings_Join.induct) (auto simp: Split_no_sep Split_append)

lemma separator_inject:
  assumes "x @ sep # xs = y @ sep # ys" "sep \<notin> set x" "sep \<notin> set y"
  shows "x = y \<and> xs = ys"
  using assms by (auto simp: append_eq_append_conv2 Cons_eq_append_conv append_eq_Cons_conv)

section \<open>Environment variables\<close>

type_synonym environ = "string \<Rightarrow> string"

definition getEnv :: "environ \<Rightarrow> string \<Rightarrow> string \<Rightarrow> string" where
  "getEnv env key defaultValue = (if env key \<noteq> '''' then env key else defaultValue)"

definition getEnvInt :: "environ \<Rightarrow> string \<Rightarrow> int \<Rightarrow> int" where
  "getEnvInt env key defaultValue =
     (if env key \<noteq> ''''
      then (case strconv_Atoi (env key) of Some intValue \<Rightarrow> intValue | None \<Rightarrow> defaultValue)
      else defaultValue)"

definition getEnvBool :: "environ \<Rightarrow> string \<Rightarrow> bool \<Rightarrow> bool" where
  "getEnvBool env key defaultValue =
     (if env key \<noteq> ''''
      then (case strconv_ParseBool (env key) of Some boolValue \<Rightarrow> boolValue | None \<Rightarrow> defaultValue)
      else defaultValue)"

definition getEnvDuration ::
  "(string \<Rightarrow> duration option) \<Rightarrow> environ \<Rightarrow> string \<Rightarrow> duration \<Rightarrow> duration" where
  "getEnvDuration ParseDuration env key defaultValue =
     (if env key \<noteq> ''''
      then (case ParseDuration (env key) of Some d \<Rightarrow> d | None \<Rightarrow> defaultValue)
      else defaultValue)"

section \<open>The list of cluster nodes\<close>

text \<open>\<open>nodeID:host:port,...\<close>, as two services parse it.\<close>

fun parse_cluster_nodes ::
  "string list \<Rightarrow> (string, string) gomap \<Rightarrow> goerror + (string, string) gomap" where
  "parse_cluster_nodes [] nodes = Inr nodes"
| "parse_cluster_nodes (node # rest) nodes =
     (case strings_Split CHR '':'' node of
        [nodeID, host, port] \<Rightarrow>
          parse_cluster_nodes rest (go_set nodeID (host @ '':'' @ port) nodes)
      | _ \<Rightarrow> Inl (''invalid cluster node format: '' @ node @ '' (expected nodeID:host:port)''))"

lemma parse_cluster_nodes_wf:
  "parse_cluster_nodes xs m = Inr m' \<Longrightarrow> go_wf m \<Longrightarrow> go_wf m'"
  by (induction xs m rule: parse_cluster_nodes.induct) (auto split: list.splits)

text \<open>The text form of a list of nodes, and that it parses to that list.\<close>

fun show_node :: "string \<times> string \<times> string \<Rightarrow> string" where
  "show_node (nodeID, host, port) = strings_Join CHR '':'' [nodeID, host, port]"

definition plain :: "string \<Rightarrow> bool" where
  "plain s = (CHR '':'' \<notin> set s \<and> CHR '','' \<notin> set s)"

lemma parse_show_nodes:
  assumes "list_all (\<lambda>(i, h, p). plain i \<and> plain h \<and> plain p) ns"
    and "distinct (map fst m @ map fst ns)"
  shows "parse_cluster_nodes (map show_node ns) m = Inr (m @ map (\<lambda>(i, h, p). (i, h @ '':'' @ p)) ns)"
  using assms
proof (induction ns arbitrary: m)
  case (Cons n ns)
  obtain i h p where n: "n = (i, h, p)" by (cases n)
  have "strings_Split CHR '':'' (show_node n) = [i, h, p]"
    using Cons.prems(1) by (simp add: n Split_append Split_no_sep plain_def)
  moreover have "go_set i (h @ '':'' @ p) m = m @ [(i, h @ '':'' @ p)]"
    using Cons.prems(2) by (intro go_set_fresh) (auto simp: n)
  ultimately show ?case
    using Cons.IH [of "m @ [(i, h @ '':'' @ p)]"] Cons.prems by (auto simp: n)
qed simp

lemma show_node_no_comma: "plain i \<Longrightarrow> plain h \<Longrightarrow> plain p \<Longrightarrow> CHR '','' \<notin> set (show_node (i, h, p))"
  by (auto simp: plain_def)

end
