(* ===== verification/Saga_Handler.thy ===== *)
theory Saga_Handler
  imports Saga_Properties Go_Env
begin

text \<open>
  The HTTP handlers, \<open>internal/handlers/saga_handler.go\<close>: the status code and the body of every
  branch. What gin makes of a request body (\<open>ShouldBindJSON\<close>) is an argument, \<open>None\<close> when it
  rejects it; the path and query parameters are strings. \<open>strconv.Atoi\<close> takes an optional sign
  and decimal digits in the range of a 64-bit \<open>int\<close>.
\<close>

section \<open>Handlers\<close>

datatype HttpBody =
  BodyError string
| BodySaga SagaResponse
| BodySagas SagaListResponse
| BodyDone string uuid

definition handler_CreateSaga ::
  "Env \<Rightarrow> CreateSagaRequest option \<Rightarrow> World \<Rightarrow> (nat \<times> HttpBody) \<times> World" where
  "handler_CreateSaga E body w0 =
     (case body of
        None \<Rightarrow> ((400, BodyError ''Invalid request body''), w0)
      | Some req \<Rightarrow>
          (let (r, w) = CreateSaga E req w0 in
           case r of
             Inl e \<Rightarrow> ((500, BodyError ''Failed to create saga''), w)
           | Inr saga \<Rightarrow> ((201, BodySaga (ToResponse saga)), w)))"

definition handler_GetSaga :: "Env \<Rightarrow> string \<Rightarrow> World \<Rightarrow> (nat \<times> HttpBody) \<times> World" where
  "handler_GetSaga E sagaIDStr w0 =
     (case uuid_Parse E sagaIDStr of
        None \<Rightarrow> ((400, BodyError ''Invalid saga ID''), w0)
      | Some sagaID \<Rightarrow>
          (let (r, w) = GetSaga sagaID w0 in
           case r of
             Inl e \<Rightarrow> ((404, BodyError ''Saga not found''), w)
           | Inr saga \<Rightarrow> ((200, BodySaga (ToResponse saga)), w)))"

definition handler_ListSagas ::
  "string option \<Rightarrow> string option \<Rightarrow> string \<Rightarrow> World \<Rightarrow> (nat \<times> HttpBody) \<times> World" where
  "handler_ListSagas limitQuery offsetQuery statusStr w0 =
     (let limitStr = (case limitQuery of None \<Rightarrow> ''20'' | Some s \<Rightarrow> s);
          offsetStr = (case offsetQuery of None \<Rightarrow> ''0'' | Some s \<Rightarrow> s)
      in case strconv_Atoi limitStr of
           None \<Rightarrow> ((400, BodyError ''Invalid limit parameter''), w0)
         | Some limit \<Rightarrow>
             if limit \<le> 0 \<or> limit > 100 then ((400, BodyError ''Invalid limit parameter''), w0)
             else case strconv_Atoi offsetStr of
                    None \<Rightarrow> ((400, BodyError ''Invalid offset parameter''), w0)
                  | Some offset \<Rightarrow>
                      if offset < 0 then ((400, BodyError ''Invalid offset parameter''), w0)
                      else
                        let status = (if statusStr \<noteq> '''' then Some (SagaStatus_of statusStr) else None);
                            (r, w) = ListSagas limit offset status w0
                        in case r of
                             Inl e \<Rightarrow> ((500, BodyError ''Failed to list sagas''), w)
                           | Inr (sagas, n) \<Rightarrow>
                               ((200, BodySagas \<lparr>lr_Sagas = map ToResponse sagas,
                                   lr_TotalCount = n, lr_Page = offset div limit + 1,
                                   lr_PageSize = limit\<rparr>), w))"

definition handler_CompensateSaga ::
  "Env \<Rightarrow> string \<Rightarrow> string option \<Rightarrow> World \<Rightarrow> (nat \<times> HttpBody) \<times> World" where
  "handler_CompensateSaga E sagaIDStr body w0 =
     (case uuid_Parse E sagaIDStr of
        None \<Rightarrow> ((400, BodyError ''Invalid saga ID''), w0)
      | Some sagaID \<Rightarrow>
          (case body of
             None \<Rightarrow> ((400, BodyError ''Invalid request body''), w0)
           | Some reason \<Rightarrow>
               (let (err, w) = CompensateSaga E sagaID reason w0 in
                case err of
                  Some e \<Rightarrow> ((500, BodyError ''Failed to compensate saga''), w)
                | None \<Rightarrow> ((200, BodyDone ''Saga compensation initiated'' sagaID), w))))"

definition handler_RetrySaga ::
  "Env \<Rightarrow> string \<Rightarrow> int option \<Rightarrow> World \<Rightarrow> (nat \<times> HttpBody) \<times> World" where
  "handler_RetrySaga E sagaIDStr body w0 =
     (case uuid_Parse E sagaIDStr of
        None \<Rightarrow> ((400, BodyError ''Invalid saga ID''), w0)
      | Some sagaID \<Rightarrow>
          (case body of
             None \<Rightarrow> ((400, BodyError ''Invalid request body''), w0)
           | Some fromStep \<Rightarrow>
               (let (err, w) = RetrySaga sagaID fromStep w0 in
                case err of
                  Some e \<Rightarrow> ((500, BodyError ''Failed to retry saga''), w)
                | None \<Rightarrow> ((200, BodyDone ''Saga retry initiated'' sagaID), w))))"

section \<open>Numbers in queries\<close>

text \<open>the decimal numeral that is printed for a 64-bit integer parses back to that integer.\<close>

theorem atoi_itoa:
  assumes "- (2 ^ 63) \<le> i" "i < 2 ^ 63"
  shows "strconv_Atoi (itoa i) = Some i"
  using assms by (rule Atoi_itoa)

theorem atoi_itoa_witness: "strconv_Atoi (itoa (- 2048)) = Some (- 2048)"
  by (rule atoi_itoa) simp_all

definition number_within :: "int \<Rightarrow> int \<Rightarrow> string \<Rightarrow> int option" where
  "number_within lo hi s =
     (case strconv_Atoi s of None \<Rightarrow> None | Some i \<Rightarrow> if lo \<le> i \<and> i \<le> hi then Some i else None)"

definition asked_status :: "string \<Rightarrow> SagaStatus option" where
  "asked_status st = (if st = '''' then None else Some (SagaStatus_of st))"

text \<open>what the list endpoint answers when no external call fails: a limit that is not a number
  from 1 to 100, or an offset that is not a 64-bit number from 0 on, is answered with 400; otherwise
  the answer has the sagas with the status from the offset on, at most limit of them, their total
  number, and the page number of the offset.\<close>

theorem list_endpoint:
  assumes "faults w = []"
  shows "handler_ListSagas (Some ls) (Some os) st w =
    (case number_within 1 100 ls of
       None \<Rightarrow> (400, BodyError ''Invalid limit parameter'')
     | Some l \<Rightarrow>
         (case number_within 0 (2 ^ 63 - 1) os of
            None \<Rightarrow> (400, BodyError ''Invalid offset parameter'')
          | Some k \<Rightarrow>
              (200, BodySagas
                 \<lparr>lr_Sagas = map ToResponse (take (nat l) (drop (nat k) (listed_rows (asked_status st) w))),
                  lr_TotalCount = int (length (listed_rows (asked_status st) w)),
                  lr_Page = k div l + 1, lr_PageSize = l\<rparr>)), w)"
proof -
  have l: "ListSagas l k (asked_status st) w =
      (Inr (take (nat l) (drop (nat k) (listed_rows (asked_status st) w)),
            int (length (listed_rows (asked_status st) w))), w)" if "1 \<le> l" "0 \<le> k" for l k
    using assms that by (simp add: ListSagas_def repo_List_def external_call_def listed_rows_def Let_def)
  have st: "(if st \<noteq> '''' then Some (SagaStatus_of st) else None) = asked_status st"
    by (simp add: asked_status_def)
  show ?thesis
    unfolding handler_ListSagas_def Let_def st
    by (auto simp: number_within_def l split: option.split dest: Atoi_range)
qed

theorem list_endpoint_witness:
  "handler_ListSagas (Some ''5'') (Some ''0'') '''' created_world =
     ((200, BodySagas \<lparr>lr_Sagas = map ToResponse (saga_instances created_world), lr_TotalCount = 1,
        lr_Page = 1, lr_PageSize = 5\<rparr>), created_world)"
proof -
  have f: "faults created_world = []" by code_simp
  show ?thesis unfolding list_endpoint[OF f] by code_simp
qed

end
