(* ===== verification/Saga_Overlap.thy ===== *)
theory Saga_Overlap
  imports Saga_Properties
begin

text \<open>
  Two limits of the orchestrator. Steps are created with \<open>NULL\<close> columns that cannot be scanned into \<open>json.RawMessage\<close>, so that no
  step is ever started. And the operations are not transactions: the HTTP handlers, the processor and the consumer are
  goroutines, and one that runs between two statements of another breaks the properties of \<open>Saga_Properties\<close>, which are
  about operations that do not overlap. \<open>CompensateSaga_after_read\<close> is what \<open>CompensateSaga\<close> does after its first statement.
\<close>

section \<open>No step is ever started\<close>

definition stuck :: "World \<Rightarrow> bool" where
  "stuck w = list_all (\<lambda>t. scan_fails t \<and> ss_Status t = StepStatusPending) (saga_steps w)"

lemma db_steps: "db_of w' = db_of w \<Longrightarrow> saga_steps w' = saga_steps w"
  by (simp add: db_of_def)

lemma stuck_steps: "stuck w \<Longrightarrow> saga_steps w' = saga_steps w \<Longrightarrow> stuck w'"
  by (simp add: stuck_def)

lemma GetSteps_stuck:
  assumes "stuck w" "repo_GetSteps i w = (r, w')"
  shows "r = Inr [] \<or> (\<exists>e. r = Inl e)"
proof (cases r)
  case (Inr ts)
  then have "readable i w" using GetSteps_readable assms(2) by blast
  then have "{t \<in> set (saga_steps w). ss_SagaID t = i} = {}"
    using assms(1) by (auto simp: readable_def stuck_def list_all_iff)
  moreover have "set ts = {t \<in> set (saga_steps w). ss_SagaID t = i}"
    using GetSteps_in[of i w ts w'] assms(2) Inr by (simp add: db_of_def)
  ultimately show ?thesis using Inr by (metis set_empty)
qed simp

lemma Update_steps: "repo_Update s w = (e, w') \<Longrightarrow> saga_steps w' = saga_steps w"
  by (auto simp: repo_Update_def dest!: external_call_db db_steps split: prod.splits if_splits)

lemma failSaga_steps: "failSaga E s m w = (e, w') \<Longrightarrow> saga_steps w' = saga_steps w"
  using db_steps[OF snd_StartCompensation_db]
  by (auto simp: failSaga_def Let_def split: prod.splits option.splits dest!: Update_steps)

lemma completeSaga_steps: "completeSaga E s w = (e, w') \<Longrightarrow> saga_steps w' = saga_steps w"
  by (auto simp: completeSaga_def Let_def publishEvent_def snd_def split: prod.splits option.splits
      dest!: Update_steps PublishEvent_db db_steps)

lemma processSaga_stuck: "stuck w \<Longrightarrow> stuck (snd (processSaga E s w))"
proof (rule stuck_steps, assumption)
  assume st: "stuck w"
  obtain r w1 where g: "repo_GetSteps (si_ID s) w = (r, w1)" by fastforce
  note w1 = db_steps[OF GetSteps_db[OF g]]
  show "saga_steps (snd (processSaga E s w)) = saga_steps w"
    using GetSteps_stuck[OF st g] g w1 completeSaga_steps[of E s w1] failSaga_steps[of E s "''saga timeout exceeded''" w]
    by (auto simp: processSaga_def timeoutSaga_def split: option.split) (metis prod.collapse)+
qed

lemma process_sagas_stuck: "stuck w \<Longrightarrow> stuck (process_sagas E ss w)"
  by (induction ss arbitrary: w) (simp_all add: processSaga_stuck)

lemma process_statuses_stuck: "stuck w \<Longrightarrow> stuck (snd (process_statuses E sts w))"
proof (induction sts arbitrary: w)
  case (Cons st sts)
  obtain r w1 where l: "repo_List 100 0 (Some st) w = (r, w1)" by fastforce
  have "stuck w1" using stuck_steps[OF Cons.prems db_steps[OF List_db[OF l]]] .
  then show ?case using Cons.IH l process_sagas_stuck by (auto simp: split: sum.split)
qed simp

lemma CreateStep_stuck:
  assumes "repo_CreateStep t w = (e, w')" "stuck w" "ss_InputData t = JNull" "ss_Status t = StepStatusPending"
  shows "stuck w'"
proof -
  obtain b w1 where x: "external_call w = (b, w1)" by fastforce
  show ?thesis using assms(1) stuck_steps[OF assms(2) db_steps[OF external_call_db[OF x]]] assms(3,4)
    by (auto simp: repo_CreateStep_def x Let_def stuck_def scan_fails_def split: if_splits)
qed

lemma createSagaSteps_stuck: "stuck w \<Longrightarrow> stuck (snd (createSagaSteps E s ds w))"
proof (induction ds arbitrary: w)
  case (Cons d ds)
  obtain i w1 where n: "new_uuid E w = (i, w1)" by fastforce
  have "stuck w1" using stuck_steps[OF Cons.prems db_steps[OF new_uuid_db[OF n]]] .
  then show ?case using Cons.IH n CreateStep_stuck by (auto simp: Let_def split: prod.split option.split)
qed simp

lemma Create_steps: "repo_Create s w = (e, w') \<Longrightarrow> saga_steps w' = saga_steps w"
  by (auto simp: repo_Create_def dest!: external_call_db db_steps split: prod.splits if_splits)

lemma CreateSaga_stuck: "stuck w \<Longrightarrow> stuck (snd (CreateSaga E req w))"
proof -
  assume st: "stuck w"
  obtain c w1 where c: "cached_saga req w = (c, w1)" by fastforce
  have w1: "stuck w1" using stuck_steps[OF st db_steps[OF cached_saga_db[OF c]]] .
  show ?thesis
  proof (cases "c = None \<and> map_of sagaDefinitions (rq_SagaType req) \<noteq> None")
    case False
    then show ?thesis using c w1 by (auto simp: CreateSaga_def split: option.split)
  next
    case True
    then obtain d where d: "map_of sagaDefinitions (rq_SagaType req) = Some d" by blast
    obtain i w2 where n: "new_uuid E w1 = (i, w2)" by fastforce
    let ?s = "new_saga_instance i req d (clock w2)"
    obtain e3 w3 where cr: "repo_Create ?s w2 = (e3, w3)" by fastforce
    have w3: "stuck w3"
      using stuck_steps[OF stuck_steps[OF w1 db_steps[OF new_uuid_db[OF n]]] Create_steps[OF cr]] .
    obtain e4 w4 where st4: "createSagaSteps E ?s (df_Steps d) w3 = (e4, w4)" by fastforce
    have w4: "stuck w4" using createSagaSteps_stuck[OF w3, of E ?s "df_Steps d"] st4 by simp
    let ?w5 = "case rq_IdempotencyKey req of None \<Rightarrow> w4 | Some key \<Rightarrow> snd (StoreResult key (RSaga ?s) (24 * hour) w4)"
    have w5: "stuck ?w5"
      by (cases "rq_IdempotencyKey req") (use w4 stuck_steps[OF w4 db_steps[OF StoreResult_db]] in simp_all)
    obtain j w6 where n6: "new_uuid E ?w5 = (j, w6)" by fastforce
    have w6: "stuck w6" using stuck_steps[OF w5 db_steps[OF new_uuid_db[OF n6]]] .
    have p: "stuck (snd (publishEvent E ev w6))" for ev
      using stuck_steps[OF w6 db_steps[OF PublishEvent_db[OF surjective_pairing]]] unfolding publishEvent_def .
    show ?thesis using True c n d cr st4 n6 w3 w4 p
      by (auto simp: CreateSaga_def Let_def split: option.split prod.splits) (metis snd_conv)+
  qed
qed

lemma CompensateSaga_stuck: "stuck w \<Longrightarrow> stuck (snd (CompensateSaga E i m w))"
proof (rule stuck_steps, assumption)
  obtain r w1 where g: "repo_GetByID i w = (r, w1)" by fastforce
  note w1 = db_steps[OF GetByID_db[OF g]]
  have u: "saga_steps (snd (repo_Update s w1)) = saga_steps w" for s
    using Update_steps[OF surjective_pairing, of s w1] w1 by simp
  have "saga_steps (snd (StartCompensation E s (snd (repo_Update s' w1)))) = saga_steps w" for s s'
    using db_steps[OF snd_StartCompensation_db] u by simp
  then show "saga_steps (snd (CompensateSaga E i m w)) = saga_steps w"
    using g w1 u by (auto simp: CompensateSaga_def Let_def split: sum.split prod.split option.split) (metis snd_conv)+
qed

lemma RetrySaga_stuck: "stuck w \<Longrightarrow> stuck (snd (RetrySaga i n w))"
proof (rule stuck_steps, assumption)
  assume st: "stuck w"
  obtain r w1 where g: "repo_GetByID i w = (r, w1)" by fastforce
  note w1 = db_steps[OF GetByID_db[OF g]]
  have u: "saga_steps (snd (repo_Update s w1)) = saga_steps w" for s
    using Update_steps[OF surjective_pairing, of s w1] w1 by simp
  have z: "saga_steps (snd (resetSagaSteps i n v)) = saga_steps w" if v: "saga_steps v = saga_steps w" for v
  proof -
    obtain q v1 where q: "repo_GetSteps i v = (q, v1)" by fastforce
    show ?thesis using GetSteps_stuck[OF stuck_steps[OF st v] q] q db_steps[OF GetSteps_db[OF q]] v
      by (auto simp: resetSagaSteps_def)
  qed
  show "saga_steps (snd (RetrySaga i n w)) = saga_steps w"
    using g w1 u z[OF u] by (auto simp: RetrySaga_def Let_def split: sum.split prod.split option.split) (metis snd_conv)+
qed

lemma event_stuck:
  assumes st: "stuck w"
  shows "stuck (snd (completeStep E ev nm w))" "stuck (snd (failStepFromEvent E ev nm w))"
proof -
  have h: "saga_steps (snd (completeStep E ev nm w)) = saga_steps w \<and> saga_steps (snd (failStepFromEvent E ev nm w)) = saga_steps w"
  proof (cases "extractSagaID E ev")
    case (Inr i)
    obtain r w1 where g: "repo_GetByID i w = (r, w1)" by fastforce
    note w1 = db_steps[OF GetByID_db[OF g]]
    obtain q w2 where q: "repo_GetSteps i w1 = (q, w2)" by fastforce
    show ?thesis using Inr g w1 q GetSteps_stuck[OF stuck_steps[OF st w1] q] db_steps[OF GetSteps_db[OF q]]
      by (auto simp: completeStep_def failStepFromEvent_def find_in_progress_def split: sum.split)
  qed (simp add: completeStep_def failStepFromEvent_def)
  show "stuck (snd (completeStep E ev nm w))" "stuck (snd (failStepFromEvent E ev nm w))"
    using stuck_steps[OF st] h by blast+
qed

lemma handleEvent_stuck: "stuck w \<Longrightarrow> stuck (snd (handleEvent E topic key v w))"
  by (auto simp: handleEvent_def handleInventoryEvent_def handlePaymentEvent_def handleNotificationEvent_def
      handleSagaEvent_def event_stuck split: option.split)

lemma Subscribe_stuck: "stuck w \<Longrightarrow> stuck (snd (KafkaConsumer_Subscribe E msgs w))"
proof (induction msgs arbitrary: w)
  case (Cons m msgs)
  obtain topic key v where m: "m = (topic, key, v)" by (cases m)
  obtain e w1 where h: "handleEvent E topic key v w = (e, w1)" by fastforce
  have w1: "stuck w1" using handleEvent_stuck[OF Cons.prems, of E topic key v] h by simp
  obtain b w2 where x: "external_call w1 = (b, w2)" by fastforce
  have "stuck w2" using stuck_steps[OF w1 db_steps[OF external_call_db[OF x]]] .
  then show ?case using Cons.IH w1 h x by (auto simp: m Let_def split: option.split prod.split) (metis snd_conv)
qed simp

lemma operation_stuck: "stuck w \<Longrightarrow> stuck (run_operation E op w)"
proof (cases op)
  case OpCreateOutboxEvent
  assume "stuck w"
  then show ?thesis using OpCreateOutboxEvent stuck_steps[OF _ db_steps[OF CreateOutboxEvent_db[OF surjective_pairing]]] by simp
next
  case OpOutboxTick
  assume "stuck w"
  then show ?thesis using OpOutboxTick stuck_steps[OF _ db_steps[OF processOutboxEvents_db[OF surjective_pairing]]] by simp
next
  case OpCleanupTick
  assume "stuck w"
  then show ?thesis using OpCleanupTick stuck_steps[OF _ db_steps[OF CleanupProcessedEvents_db[OF surjective_pairing]]] by simp
next
  case OpProcessorTick
  assume "stuck w"
  then show ?thesis using OpProcessorTick process_statuses_stuck by (simp add: processPendingSagas_def del: process_statuses.simps)
qed (simp_all add: CreateSaga_stuck CompensateSaga_stuck RetrySaga_stuck Subscribe_stuck, simp add: stuck_def)

lemma operations_stuck: "stuck w \<Longrightarrow> stuck (run_operations E ops w)"
  by (induction ops arbitrary: w) (simp_all add: run_operations_def operation_stuck)

text \<open>
  No step of a saga is ever started. A step is created with \<open>NULL\<close> in its output and compensation columns, which cannot be scanned
  when the steps of its saga are read. In every run from empty tables in which operations do not overlap, with any failures, every
  step stays \<open>PENDING\<close> and reading the steps of its saga fails.
\<close>
theorem no_step_is_started:
  assumes "t \<in> set (saga_steps (run_operations E ops (initial_world fs now)))"
  shows "ss_Status t = StepStatusPending \<and>
    (\<exists>e. fst (repo_GetSteps (ss_SagaID t) (run_operations E ops (initial_world fs now))) = Inl e)"
proof -
  let ?w = "run_operations E ops (initial_world fs now)"
  have st: "stuck ?w" by (rule operations_stuck) (simp add: stuck_def initial_world_def)
  obtain r w' where g: "repo_GetSteps (ss_SagaID t) ?w = (r, w')" by fastforce
  have "r \<noteq> Inr []" using GetSteps_in[of "ss_SagaID t" ?w "[]" w'] g assms by (auto simp: db_of_def)
  then show ?thesis using GetSteps_stuck[OF st g] g st assms by (auto simp: stuck_def list_all_iff)
qed

theorem no_step_is_started_witness:
  "\<exists>t \<in> set (saga_steps (run_operations example_env [OpCreateSaga example_request, OpProcessorTick, OpProcessorTick] (initial_world [] 1000))).
     ss_Status t = StepStatusPending"
proof (rule bexI)
  let ?S = "saga_steps (run_operations example_env [OpCreateSaga example_request, OpProcessorTick, OpProcessorTick] (initial_world [] 1000))"
  show m: "hd ?S \<in> set ?S" by code_simp
  show "ss_Status (hd ?S) = StepStatusPending" using no_step_is_started[OF m] by blast
qed

section \<open>Operations that overlap\<close>

definition CompensateSaga_after_read :: "Env \<Rightarrow> string \<Rightarrow> SagaInstance \<Rightarrow> World \<Rightarrow> goerror option \<times> World" where
  "CompensateSaga_after_read E reason saga0 w1 =
     (if SagaStatus_IsTerminal (si_Status saga0)
      then (Some ''cannot compensate saga in status'', w1)
      else
        let saga = saga0\<lparr>si_Status := SagaStatusFailed, si_UpdatedAt := clock w1, si_ErrorMessage := Some reason\<rparr>;
            (err, w2) = repo_Update saga w1
        in case err of
             Some e \<Rightarrow> (Some ''failed to update saga'', w2)
           | None \<Rightarrow>
               (let (err', w3) = StartCompensation E saga w2 in
                case err' of
                  Some e \<Rightarrow> (Some ''failed to start compensation'', w3)
                | None \<Rightarrow> (None, w3)))"

lemma CompensateSaga_split:
  "CompensateSaga E i reason w =
     (case repo_GetByID i w of
        (Inl e, w1) \<Rightarrow> (Some ''failed to get saga'', w1)
      | (Inr saga, w1) \<Rightarrow> CompensateSaga_after_read E reason saga w1)"
  by (simp add: CompensateSaga_def CompensateSaga_after_read_def Let_def split: prod.split sum.split)

text \<open>
  A compensation that has read an active saga overwrites its completion. When the saga is completed, by the processor, between the two
  statements of \<open>CompensateSaga\<close>, its row goes from \<open>COMPLETED\<close> to \<open>FAILED\<close>.
\<close>
theorem compensation_overwrites_completion:
  assumes "faults w = []" "db_inv (db_of w)" "\<not> SagaStatus_IsTerminal (si_Status saga)"
    and "row \<in> set (saga_instances w)" "si_Status row = SagaStatusCompleted" "saga_frozen saga row"
  shows "\<exists>w'. CompensateSaga_after_read E reason saga w = (None, w') \<and>
    map_option si_Status (find (\<lambda>s. si_ID s = si_ID row) (saga_instances w')) = Some SagaStatusFailed"
proof -
  let ?f = "saga\<lparr>si_Status := SagaStatusFailed, si_UpdatedAt := clock w, si_ErrorMessage := Some reason\<rparr>"
  have dist: "distinct (map si_ID (saga_instances w))" using assms(2) by (simp add: db_inv_def db_of_def)
  have "saga_frozen ?f row" using assms(6) by (simp add: saga_frozen_def)
  note u = Update_ok[OF assms(1) dist assms(4) this]
  have id: "si_ID ?f = si_ID row" using assms(6) by (simp add: saga_frozen_def)
  have "?f \<in> set (replace_row si_ID ?f (saga_instances w))" using assms(4) id by (auto simp: set_replace_row)
  moreover have "distinct (map si_ID (replace_row si_ID ?f (saga_instances w)))" using dist by simp
  ultimately have "find (\<lambda>s. si_ID s = si_ID row) (replace_row si_ID ?f (saga_instances w)) = Some ?f"
    using find_key[of si_ID "replace_row si_ID ?f (saga_instances w)" ?f] id by simp
  then show ?thesis using assms(1,3) u by (simp add: CompensateSaga_after_read_def Let_def StartCompensation_ok)
qed

theorem compensation_overwrites_completion_witness:
  "\<exists>w'. CompensateSaga_after_read example_env ''no'' (hd (saga_instances stepless_world))
      (run_operations example_env [OpProcessorTick] stepless_world) = (None, w') \<and>
    map_option si_Status (find (\<lambda>s. si_ID s = 1) (saga_instances w')) = Some SagaStatusFailed"
proof -
  let ?w = "run_operations example_env [OpProcessorTick] stepless_world"
  let ?r = "hd (saga_instances ?w)"
  have "db_inv (db_of stepless_world)"
    unfolding stepless_world_def using evolves_inv[OF operations_evolve] initial_world_inv by blast
  then have inv: "db_inv (db_of ?w)" using evolves_inv[OF operations_evolve] by blast
  have h: "faults ?w = []" "\<not> SagaStatus_IsTerminal (si_Status (hd (saga_instances stepless_world)))" "?r \<in> set (saga_instances ?w)"
    "si_Status ?r = SagaStatusCompleted" "saga_frozen (hd (saga_instances stepless_world)) ?r" "si_ID ?r = 1" by code_simp+
  show ?thesis using compensation_overwrites_completion[OF h(1) inv h(2-5), of example_env "''no''"] unfolding h(6) .
qed

text \<open>
  A tick of the processor between the two inserts of \<open>CreateSaga\<close> completes the saga before it has steps; the steps are then
  inserted, all \<open>PENDING\<close>.
\<close>

lemma tick_during_creation_completes:
  "let s = new_saga_instance 1 example_request order_processing_definition 1000;
       w1 = snd (repo_Create s (initial_world [] 1000));
       w2 = snd (processPendingSagas example_env w1);
       w3 = snd (createSagaSteps example_env s (df_Steps order_processing_definition) w2)
   in map si_Status (saga_instances w3) = [SagaStatusCompleted] \<and>
      map ss_Status (saga_steps w3) = [StepStatusPending, StepStatusPending, StepStatusPending]"
  by code_simp

end
