(* ===== verification/CRDT_Interface.thy ===== *)
theory CRDT_Interface
  imports Go_Prelude
begin

text \<open>
  The contract of a state-based CRDT, the Go interface \<open>CRDT\<close> of
  \<open>services/sync-service/internal/crdt/registry.go\<close> (and its namesake in the geo-replicated
  datastore): merging two well-formed states joins what the states mean in a semilattice. The
  locale derives once what every implementation then gets: replicas that received the same states,
  in any order and any number of times, agree, and a state that was merged stays absorbed.
\<close>

locale state_crdt = semilattice join
  for join :: "'l \<Rightarrow> 'l \<Rightarrow> 'l" +
  fixes merge :: "'s \<Rightarrow> 's \<Rightarrow> 's"
    and meaning :: "'s \<Rightarrow> 'l"
    and ok :: "'s \<Rightarrow> bool"
  assumes ok_merge: "ok x \<Longrightarrow> ok y \<Longrightarrow> ok (merge x y)"
    and meaning_merge: "ok x \<Longrightarrow> ok y \<Longrightarrow> meaning (merge x y) = join (meaning x) (meaning y)"
begin

lemma merge_commutes:
  "ok x \<Longrightarrow> ok y \<Longrightarrow> meaning (merge x y) = meaning (merge y x)"
  by (simp add: meaning_merge commute)

lemma merge_assoc:
  "ok x \<Longrightarrow> ok y \<Longrightarrow> ok z \<Longrightarrow> meaning (merge (merge x y) z) = meaning (merge x (merge y z))"
  by (simp add: meaning_merge ok_merge assoc)

lemma merge_idem: "ok x \<Longrightarrow> meaning (merge x x) = meaning x"
  by (simp add: meaning_merge idem)

lemma merge_absorbs:
  "ok x \<Longrightarrow> ok y \<Longrightarrow> meaning (merge (merge x y) y) = meaning (merge x y)"
  by (simp add: meaning_merge ok_merge assoc idem)

lemma ok_deliveries: "ok s \<Longrightarrow> \<forall>x \<in> set xs. ok x \<Longrightarrow> ok (foldl merge s xs)"
  by (induction xs arbitrary: s) (auto intro: ok_merge)

lemma meaning_deliveries:
  "ok s \<Longrightarrow> \<forall>x \<in> set xs. ok x \<Longrightarrow>
   meaning (foldl merge s xs) = fold join (map meaning xs) (meaning s)"
proof (induction xs arbitrary: s)
  case Nil
  then show ?case by simp
next
  case (Cons x xs)
  then have "ok (merge s x)" by (simp add: ok_merge)
  with Cons show ?case by (simp add: meaning_merge commute)
qed

end

text \<open>The join of a non-empty finite set of meanings, from the library's semilattice theory.\<close>

sublocale state_crdt \<subseteq> join_set: semilattice_set join ..

context state_crdt
begin

lemma meaning_deliveries_set:
  assumes "ok s" "\<forall>x \<in> set xs. ok x"
  shows "meaning (foldl merge s xs) = join_set.F (meaning ` set (s # xs))"
proof -
  have "fold join (map meaning xs) (meaning s) = join_set.F (set (meaning s # map meaning xs))"
    by (rule join_set.set_eq_fold [symmetric])
  then show ?thesis
    by (simp add: meaning_deliveries [OF assms])
qed

lemma deliveries_converge:
  assumes "ok r" "\<forall>x \<in> set xs. ok x" "ok s" "\<forall>y \<in> set ys. ok y"
    and "set (r # xs) = set (s # ys)"
  shows "meaning (foldl merge r xs) = meaning (foldl merge s ys)"
  by (simp only: meaning_deliveries_set [OF assms(1,2)] meaning_deliveries_set [OF assms(3,4)]
      assms(5))

lemma deliveries_absorb:
  assumes "ok s" "\<forall>x \<in> set xs. ok x" "x \<in> set xs"
  shows "meaning (merge (foldl merge s xs) x) = meaning (foldl merge s xs)"
proof -
  have "foldl merge s (xs @ [x]) = merge (foldl merge s xs) x" by simp
  moreover have "meaning (foldl merge s (xs @ [x])) = meaning (foldl merge s xs)"
    using assms by (intro deliveries_converge) auto
  ultimately show ?thesis by simp
qed

end

end
