(* ===== verification/Sync_CRDT.thy ===== *)
theory Sync_CRDT
  imports CRDT_Interface
begin

text \<open>
  The CRDTs of the offline-sync service, \<open>services/sync-service/internal/crdt/lww_register.go\<close>:
  the last-write-wins register, the grow-only counter and the increment/decrement counter, with
  every method of the three types. A value of Go type \<open>interface{}\<close> is an \<open>'v option\<close>, \<open>None\<close>
  being nil; \<open>uint64\<close> is a 64-bit word and wraps. The clock reading of \<open>time.Now()\<close> is an argument.
\<close>

section \<open>LWWRegister\<close>

record 'v LWWRegister =
  lww_value :: "'v option"
  lww_timestamp :: gotime
  lww_nodeID :: string

record 'v LWWRegisterState =
  State_Value :: "'v option"
  State_Timestamp :: gotime
  State_NodeID :: string

definition NewLWWRegister :: "gotime \<Rightarrow> 'v LWWRegister" where
  "NewLWWRegister now = \<lparr>lww_value = None, lww_timestamp = now, lww_nodeID = ''''\<rparr>"

definition NewLWWRegisterWithValue :: "gotime \<Rightarrow> 'v option \<Rightarrow> string \<Rightarrow> 'v LWWRegister" where
  "NewLWWRegisterWithValue now value nodeID =
     \<lparr>lww_value = value, lww_timestamp = now, lww_nodeID = nodeID\<rparr>"

definition LWW_Set :: "gotime \<Rightarrow> 'v option \<Rightarrow> string \<Rightarrow> 'v LWWRegister \<Rightarrow> 'v LWWRegister" where
  "LWW_Set now value nodeID r =
     r\<lparr>lww_value := value, lww_timestamp := now, lww_nodeID := nodeID\<rparr>"

definition LWW_Get :: "'v LWWRegister \<Rightarrow> 'v option" where
  "LWW_Get r = lww_value r"

definition LWW_GetTimestamp :: "'v LWWRegister \<Rightarrow> gotime" where
  "LWW_GetTimestamp r = lww_timestamp r"

definition LWW_GetNodeID :: "'v LWWRegister \<Rightarrow> string" where
  "LWW_GetNodeID r = lww_nodeID r"

definition LWW_Merge :: "'v LWWRegister \<Rightarrow> 'v LWWRegister \<Rightarrow> 'v LWWRegister" where
  "LWW_Merge r other =
     (if lww_timestamp other > lww_timestamp r then
        r\<lparr>lww_value := lww_value other, lww_timestamp := lww_timestamp other,
          lww_nodeID := lww_nodeID other\<rparr>
      else if lww_timestamp other = lww_timestamp r then
        (if lww_nodeID other > lww_nodeID r then
           r\<lparr>lww_value := lww_value other, lww_timestamp := lww_timestamp other,
             lww_nodeID := lww_nodeID other\<rparr>
         else r)
      else r)"

definition LWW_State :: "'v LWWRegister \<Rightarrow> 'v LWWRegisterState" where
  "LWW_State r = \<lparr>State_Value = lww_value r, State_Timestamp = lww_timestamp r,
     State_NodeID = lww_nodeID r\<rparr>"

definition LWW_Clone :: "'v LWWRegister \<Rightarrow> 'v LWWRegister" where
  "LWW_Clone r = \<lparr>lww_value = lww_value r, lww_timestamp = lww_timestamp r,
     lww_nodeID = lww_nodeID r\<rparr>"

definition LWW_Validate :: "'v LWWRegister \<Rightarrow> goerror option" where
  "LWW_Validate r = (if lww_timestamp r = 0 then Some ''timestamp cannot be zero'' else None)"

text \<open>\<open>encoding/json\<close> is an encoder of the exported state and a decoder that may fail.\<close>

definition LWW_MarshalJSON :: "('v LWWRegisterState \<Rightarrow> 'b) \<Rightarrow> 'v LWWRegister \<Rightarrow> 'b" where
  "LWW_MarshalJSON enc r = enc (LWW_State r)"

definition LWW_UnmarshalJSON ::
  "('b \<Rightarrow> goerror + 'v LWWRegisterState) \<Rightarrow> 'b \<Rightarrow> 'v LWWRegister \<Rightarrow> goerror + 'v LWWRegister" where
  "LWW_UnmarshalJSON dec data r =
     (case dec data of
        Inl err \<Rightarrow> Inl err
      | Inr state \<Rightarrow> Inr (r\<lparr>lww_value := State_Value state,
          lww_timestamp := State_Timestamp state, lww_nodeID := State_NodeID state\<rparr>))"

section \<open>GCounter\<close>

record GCounter =
  counters :: "(string, uint64) gomap"

definition NewGCounter :: GCounter where
  "NewGCounter = \<lparr>counters = []\<rparr>"

definition GC_Increment :: "string \<Rightarrow> uint64 \<Rightarrow> GCounter \<Rightarrow> GCounter" where
  "GC_Increment nodeID delta c =
     c\<lparr>counters := go_set nodeID (go_get 0 (counters c) nodeID + delta) (counters c)\<rparr>"

fun sum_range :: "uint64 \<Rightarrow> (string, uint64) gomap \<Rightarrow> uint64" where
  "sum_range acc [] = acc"
| "sum_range acc ((_, count) # rest) = sum_range (acc + count) rest"

definition GC_Value :: "GCounter \<Rightarrow> uint64" where
  "GC_Value c = sum_range 0 (counters c)"

text \<open>The loop \<open>for nodeID, count := range other\<close> that keeps the larger count of each node.\<close>

fun merge_max :: "(string, uint64) gomap \<Rightarrow> (string, uint64) gomap \<Rightarrow> (string, uint64) gomap" where
  "merge_max m [] = m"
| "merge_max m ((nodeID, count) # rest) =
     merge_max (if go_get 0 m nodeID < count then go_set nodeID count m else m) rest"

definition GC_Merge :: "GCounter \<Rightarrow> GCounter \<Rightarrow> GCounter" where
  "GC_Merge c other = c\<lparr>counters := merge_max (counters c) (counters other)\<rparr>"

text \<open>The loop that copies a map entry by entry into a fresh map.\<close>

fun copy_range :: "('k, 'v) gomap \<Rightarrow> ('k, 'v) gomap \<Rightarrow> ('k, 'v) gomap" where
  "copy_range acc [] = acc"
| "copy_range acc ((k, v) # rest) = copy_range (go_set k v acc) rest"

definition GC_State :: "GCounter \<Rightarrow> (string, uint64) gomap" where
  "GC_State c = copy_range [] (counters c)"

definition GC_Clone :: "GCounter \<Rightarrow> GCounter" where
  "GC_Clone c = \<lparr>counters = copy_range [] (counters c)\<rparr>"

fun validate_range :: "(string, uint64) gomap \<Rightarrow> goerror option" where
  "validate_range [] = None"
| "validate_range ((nodeID, count) # rest) =
     (if nodeID = '''' then Some ''node ID cannot be empty''
      else if count < 0 then Some ''counter value cannot be negative''
      else validate_range rest)"

definition GC_Validate :: "GCounter \<Rightarrow> goerror option" where
  "GC_Validate c = validate_range (counters c)"

section \<open>PNCounter\<close>

record PNCounter =
  positive :: GCounter
  negative :: GCounter

record PNCounterState =
  PNState_positive :: "(string, uint64) gomap"
  PNState_negative :: "(string, uint64) gomap"
  PNState_value :: int

definition NewPNCounter :: PNCounter where
  "NewPNCounter = \<lparr>positive = NewGCounter, negative = NewGCounter\<rparr>"

definition PN_Increment :: "string \<Rightarrow> uint64 \<Rightarrow> PNCounter \<Rightarrow> PNCounter" where
  "PN_Increment nodeID delta c = c\<lparr>positive := GC_Increment nodeID delta (positive c)\<rparr>"

definition PN_Decrement :: "string \<Rightarrow> uint64 \<Rightarrow> PNCounter \<Rightarrow> PNCounter" where
  "PN_Decrement nodeID delta c = c\<lparr>negative := GC_Increment nodeID delta (negative c)\<rparr>"

text \<open>\<open>int64(x) - int64(y)\<close>: the 64-bit difference, read as two's complement.\<close>

definition PN_Value :: "PNCounter \<Rightarrow> int" where
  "PN_Value c = sint (GC_Value (positive c) - GC_Value (negative c))"

definition PN_Merge :: "PNCounter \<Rightarrow> PNCounter \<Rightarrow> PNCounter" where
  "PN_Merge c other =
     c\<lparr>positive := GC_Merge (positive c) (positive other),
       negative := GC_Merge (negative c) (negative other)\<rparr>"

definition PN_State :: "PNCounter \<Rightarrow> PNCounterState" where
  "PN_State c = \<lparr>PNState_positive = GC_State (positive c),
     PNState_negative = GC_State (negative c), PNState_value = PN_Value c\<rparr>"

definition PN_Clone :: "PNCounter \<Rightarrow> PNCounter" where
  "PN_Clone c = \<lparr>positive = GC_Clone (positive c), negative = GC_Clone (negative c)\<rparr>"

definition PN_Validate :: "PNCounter \<Rightarrow> goerror option" where
  "PN_Validate c =
     (case GC_Validate (positive c) of
        Some err \<Rightarrow> Some (''positive counter validation failed: '' @ err)
      | None \<Rightarrow>
          (case GC_Validate (negative c) of
             Some err \<Rightarrow> Some (''negative counter validation failed: '' @ err)
           | None \<Rightarrow> None))"

section \<open>Lemmas: the register\<close>

definition lww_stamp :: "'v LWWRegister \<Rightarrow> gotime \<times> string" where
  "lww_stamp r = (lww_timestamp r, lww_nodeID r)"

text \<open>
  A write is identified by its timestamp and its node: \<open>written w\<close> says that the register holds
  the value that the write with its stamp wrote.
\<close>

definition written :: "(gotime \<times> string \<Rightarrow> 'v option) \<Rightarrow> 'v LWWRegister \<Rightarrow> bool" where
  "written w r = (lww_value r = w (lww_stamp r))"

lemmas lww_defs = LWW_Merge_def lww_stamp_def written_def

lemma written_eqI:
  "written w r \<Longrightarrow> written w s \<Longrightarrow> lww_stamp r = lww_stamp s \<Longrightarrow> r = s"
  by (cases r; cases s) (auto simp: written_def lww_stamp_def)

lemma LWW_Merge_cases: "LWW_Merge r s = r \<or> LWW_Merge r s = s"
  by (cases r; cases s) (simp add: LWW_Merge_def)

lemma LWW_Merge_stamp: "lww_stamp (LWW_Merge r s) = max (lww_stamp r) (lww_stamp s)"
  by (auto simp: lww_defs max_def less_eq_prod_def)

lemma written_Merge: "written w r \<Longrightarrow> written w s \<Longrightarrow> written w (LWW_Merge r s)"
  using LWW_Merge_cases [of r s] by auto

interpretation lww: state_crdt max LWW_Merge lww_stamp "written w"
  for w :: "gotime \<times> string \<Rightarrow> 'v option"
  by unfold_locales
    (simp_all add: max.assoc max.commute written_Merge LWW_Merge_stamp)

section \<open>Lemmas: the counters\<close>

definition node_count :: "GCounter \<Rightarrow> string \<Rightarrow> uint64" where
  "node_count c = go_get 0 (counters c)"

definition gc_wf :: "GCounter \<Rightarrow> bool" where
  "gc_wf c = go_wf (counters c)"

lemma go_wf_merge_max: "go_wf m \<Longrightarrow> go_wf (merge_max m other)"
  by (induction m other rule: merge_max.induct) simp_all

lemma go_get_merge_max:
  "go_wf other \<Longrightarrow> go_get 0 (merge_max m other) n = max (go_get 0 m n) (go_get 0 other n)"
proof (induction m other rule: merge_max.induct)
  case (1 m)
  then show ?case by (simp add: max_def)
next
  case (2 m nodeID count rest)
  then have "go_get 0 rest nodeID = 0" by (simp add: go_get_notin)
  with 2 show ?case by (auto simp: go_map_simps max_def word_neq_0_conv [symmetric])
qed

lemma node_count_Merge:
  "gc_wf other \<Longrightarrow> node_count (GC_Merge c other) n = max (node_count c n) (node_count other n)"
  by (simp add: node_count_def gc_wf_def GC_Merge_def go_get_merge_max)

lemma gc_wf_Merge: "gc_wf c \<Longrightarrow> gc_wf (GC_Merge c other)"
  by (simp add: gc_wf_def GC_Merge_def go_wf_merge_max)

lemma gc_wf_Increment: "gc_wf c \<Longrightarrow> gc_wf (GC_Increment n d c)"
  by (simp add: gc_wf_def GC_Increment_def)

lemma gc_wf_New: "gc_wf NewGCounter"
  by (simp add: gc_wf_def NewGCounter_def)

lemma node_count_Increment:
  "node_count (GC_Increment n d c) m = (if m = n then node_count c n + d else node_count c m)"
  by (simp add: node_count_def GC_Increment_def go_map_simps)

definition pointwise_max :: "(string \<Rightarrow> uint64) \<Rightarrow> (string \<Rightarrow> uint64) \<Rightarrow> string \<Rightarrow> uint64" where
  "pointwise_max f g = (\<lambda>n. max (f n) (g n))"

interpretation pointwise: semilattice pointwise_max
  by unfold_locales (auto simp: pointwise_max_def fun_eq_iff max.assoc max.commute max.left_commute)

interpretation gcounter: state_crdt pointwise_max GC_Merge node_count gc_wf
  by unfold_locales (auto simp: gc_wf_Merge node_count_Merge pointwise_max_def fun_eq_iff)

text \<open>The sum over a map is the sum of the counts over any set that covers its keys.\<close>

lemma sum_range_acc: "sum_range t m = t + sum_list (map snd m)"
  by (induction t m rule: sum_range.induct) (simp_all add: add.assoc)

lemma sum_list_covering:
  "go_wf m \<Longrightarrow> finite S \<Longrightarrow> fst ` set m \<subseteq> S \<Longrightarrow>
   sum_list (map snd m) = (\<Sum>n \<in> S. go_get (0::uint64) m n)"
proof (induction m arbitrary: S)
  case Nil
  then show ?case by simp
next
  case (Cons kv m)
  obtain k v where kv: "kv = (k, v)" by fastforce
  from Cons.prems kv have k: "k \<notin> fst ` set m" "go_wf m" "k \<in> S" "fst ` set m \<subseteq> S - {k}"
    by auto
  have "(\<Sum>n \<in> S. go_get 0 (kv # m) n) = v + (\<Sum>n \<in> S - {k}. go_get 0 (kv # m) n)"
    using Cons.prems(2) k(3) by (simp add: kv sum.remove go_map_simps)
  also have "(\<Sum>n \<in> S - {k}. go_get 0 (kv # m) n) = (\<Sum>n \<in> S - {k}. go_get 0 m n)"
    by (rule sum.cong) (auto simp: kv go_map_simps)
  also have "\<dots> = sum_list (map snd m)"
    using Cons.IH [of "S - {k}"] Cons.prems(2) k by simp
  finally show ?case by (simp add: kv)
qed

lemma GC_Value_covering:
  "gc_wf c \<Longrightarrow> finite S \<Longrightarrow> fst ` set (counters c) \<subseteq> S \<Longrightarrow>
   GC_Value c = (\<Sum>n \<in> S. node_count c n)"
  by (simp add: GC_Value_def sum_range_acc gc_wf_def node_count_def sum_list_covering)

lemma GC_Value_cong:
  assumes "gc_wf c" "gc_wf d" "node_count c = node_count d"
  shows "GC_Value c = GC_Value d"
proof -
  let ?S = "fst ` set (counters c) \<union> fst ` set (counters d)"
  have "GC_Value c = (\<Sum>n \<in> ?S. node_count c n)"
    using assms(1) by (rule GC_Value_covering) auto
  also have "\<dots> = GC_Value d"
    using assms(2,3) GC_Value_covering [of d ?S] by simp
  finally show ?thesis .
qed

lemma GC_Value_Increment:
  assumes "gc_wf c"
  shows "GC_Value (GC_Increment n d c) = GC_Value c + d"
proof -
  let ?S = "insert n (fst ` set (counters c))"
  let ?c' = "GC_Increment n d c"
  have keys: "fst ` set (counters ?c') \<subseteq> ?S"
    by (auto simp: GC_Increment_def go_set_def dom_update)
  have "GC_Value ?c' = (\<Sum>k \<in> ?S. node_count ?c' k)"
    using keys by (intro GC_Value_covering gc_wf_Increment assms) auto
  also have "\<dots> = node_count ?c' n + (\<Sum>k \<in> ?S - {n}. node_count ?c' k)"
    by (intro sum.remove) auto
  also have "(\<Sum>k \<in> ?S - {n}. node_count ?c' k) = (\<Sum>k \<in> ?S - {n}. node_count c k)"
    by (rule sum.cong) (auto simp: node_count_Increment)
  also have "node_count ?c' n + \<dots> = d + (node_count c n + (\<Sum>k \<in> ?S - {n}. node_count c k))"
    by (simp add: node_count_Increment)
  also have "node_count c n + (\<Sum>k \<in> ?S - {n}. node_count c k) = (\<Sum>k \<in> ?S. node_count c k)"
    by (rule sum.remove [symmetric]) auto
  also have "\<dots> = GC_Value c"
    by (rule GC_Value_covering [symmetric, OF assms]) auto
  finally show ?thesis by (simp add: add.commute)
qed

lemma unat_sum_range:
  "unat (sum_range 0 m) = (\<Sum>(_, k) \<leftarrow> m. unat k) mod 2 ^ 64"
proof -
  have "unat (sum_list (map snd m) :: uint64) = (\<Sum>(_, k) \<leftarrow> m. unat k) mod 2 ^ 64"
  proof (induction m)
    case Nil
    then show ?case by simp
  next
    case (Cons x m)
    then show ?case
      by (cases x) (simp add: unat_word_ariths mod_add_right_eq)
  qed
  then show ?thesis by (simp add: sum_range_acc)
qed

lemma map_of_rev: "distinct (map fst m) \<Longrightarrow> map_of (rev m) = map_of m"
  by (rule map_of_eqI) (auto simp: rev_map [symmetric])

lemma copy_range_lookup: "map_of (copy_range acc m) k =
    (case map_of (rev m) k of None \<Rightarrow> map_of acc k | Some v \<Rightarrow> Some v)"
  by (induction acc m rule: copy_range.induct)
    (auto simp: go_map_simps map_add_def split: option.splits)

lemma node_count_Clone: "gc_wf c \<Longrightarrow> node_count (GC_Clone c) = node_count c"
  by (auto simp: node_count_def GC_Clone_def go_get_def copy_range_lookup gc_wf_def go_wf_def
      map_of_rev fun_eq_iff split: option.splits)

lemma validate_range_None: "validate_range m = None \<longleftrightarrow> '''' \<notin> fst ` set m"
  by (induction m rule: validate_range.induct) auto

definition pn_wf :: "PNCounter \<Rightarrow> bool" where
  "pn_wf c = (gc_wf (positive c) \<and> gc_wf (negative c))"

definition pn_counts :: "PNCounter \<Rightarrow> (string \<Rightarrow> uint64) \<times> (string \<Rightarrow> uint64)" where
  "pn_counts c = (node_count (positive c), node_count (negative c))"

definition pair_max ::
  "(string \<Rightarrow> uint64) \<times> (string \<Rightarrow> uint64) \<Rightarrow> (string \<Rightarrow> uint64) \<times> (string \<Rightarrow> uint64) \<Rightarrow>
   (string \<Rightarrow> uint64) \<times> (string \<Rightarrow> uint64)" where
  "pair_max p q = (pointwise_max (fst p) (fst q), pointwise_max (snd p) (snd q))"

interpretation pncounter: state_crdt pair_max PN_Merge pn_counts pn_wf
  by unfold_locales
    (auto simp: pair_max_def pointwise.assoc pointwise.commute
      pointwise.left_commute pn_wf_def pn_counts_def PN_Merge_def
      gc_wf_Merge gcounter.meaning_merge)

section \<open>Properties\<close>

text \<open>
  C6: two replicas of a last-write-wins register that hold and received between them the same set of
  registers, in any order and with any duplicates, end with the very same register (value,
  timestamp and node), provided a stamp (timestamp and node) identifies a write.
\<close>

theorem lww_replicas_converge:
  assumes "written w r" "\<forall>x \<in> set xs. written w x" "written w s" "\<forall>y \<in> set ys. written w y"
    and "set (r # xs) = set (s # ys)"
  shows "foldl LWW_Merge r xs = foldl LWW_Merge s ys"
proof (rule written_eqI)
  show "written w (foldl LWW_Merge r xs)"
    using assms(1,2) by (rule lww.ok_deliveries)
  show "written w (foldl LWW_Merge s ys)"
    using assms(3,4) by (rule lww.ok_deliveries)
  show "lww_stamp (foldl LWW_Merge r xs) = lww_stamp (foldl LWW_Merge s ys)"
    using assms by (rule lww.deliveries_converge)
qed

definition ex_write :: "gotime \<times> string \<Rightarrow> nat option" where
  "ex_write st = (if st = (5, ''b'') then Some 2 else if st = (5, ''a'') then Some 1 else None)"

definition ex_reg :: "gotime \<Rightarrow> string \<Rightarrow> nat option \<Rightarrow> nat LWWRegister" where
  "ex_reg t n v = NewLWWRegisterWithValue t v n"

lemma written_ex_reg: "written ex_write (ex_reg 5 ''a'' (Some 1))"
    "written ex_write (ex_reg 5 ''b'' (Some 2))" "written ex_write (ex_reg 3 ''c'' None)"
  by (simp_all add: written_def lww_stamp_def ex_reg_def ex_write_def NewLWWRegisterWithValue_def)

theorem lww_replicas_converge_witness:
  "foldl LWW_Merge (ex_reg 5 ''a'' (Some 1)) [ex_reg 5 ''b'' (Some 2), ex_reg 3 ''c'' None] =
   foldl LWW_Merge (ex_reg 3 ''c'' None)
     [ex_reg 5 ''a'' (Some 1), ex_reg 5 ''b'' (Some 2), ex_reg 5 ''a'' (Some 1)]"
  by (rule lww_replicas_converge [where w = ex_write]) (simp_all add: written_ex_reg [simplified] insert_commute)

text \<open>
  a merge of registers never invents a write: the result is one of the two registers, the one
  with the larger (timestamp, node) stamp.
\<close>

theorem lww_merge_is_latest:
  "LWW_Merge r s \<in> {r, s} \<and> lww_stamp (LWW_Merge r s) = max (lww_stamp r) (lww_stamp s)"
  using LWW_Merge_cases [of r s] by (simp add: LWW_Merge_stamp)

text \<open>
  grow-only counters that hold and received the same set of states agree on the count of every
  node and on \<open>Value()\<close>.
\<close>

theorem gcounter_replicas_converge:
  assumes "gc_wf c" "\<forall>x \<in> set xs. gc_wf x" "gc_wf d" "\<forall>y \<in> set ys. gc_wf y"
    and "set (c # xs) = set (d # ys)"
  shows "node_count (foldl GC_Merge c xs) = node_count (foldl GC_Merge d ys) \<and>
    GC_Value (foldl GC_Merge c xs) = GC_Value (foldl GC_Merge d ys)"
proof
  show counts: "node_count (foldl GC_Merge c xs) = node_count (foldl GC_Merge d ys)"
    using assms by (rule gcounter.deliveries_converge)
  show "GC_Value (foldl GC_Merge c xs) = GC_Value (foldl GC_Merge d ys)"
    by (intro GC_Value_cong counts gcounter.ok_deliveries assms)
qed

definition ex_gc :: "string \<Rightarrow> uint64 \<Rightarrow> GCounter" where
  "ex_gc n d = GC_Increment n d NewGCounter"

lemma gc_wf_ex_gc: "gc_wf (ex_gc n d)"
  by (simp add: ex_gc_def gc_wf_Increment gc_wf_New)

theorem gcounter_replicas_converge_witness:
  "node_count (foldl GC_Merge (ex_gc ''a'' 3) [ex_gc ''b'' 4]) =
   node_count (foldl GC_Merge (ex_gc ''b'' 4) [ex_gc ''a'' 3, ex_gc ''b'' 4]) \<and>
   GC_Value (foldl GC_Merge (ex_gc ''a'' 3) [ex_gc ''b'' 4]) =
   GC_Value (foldl GC_Merge (ex_gc ''b'' 4) [ex_gc ''a'' 3, ex_gc ''b'' 4])"
  by (rule gcounter_replicas_converge) (auto simp: gc_wf_ex_gc)

text \<open>
  \<open>Value()\<close> of a grow-only counter is the sum of the counts of its entries modulo 2 to the 64th, and
  \<open>Increment\<close> adds exactly its delta to it (in 64-bit arithmetic).
\<close>

theorem gcounter_value_sum:
  assumes "gc_wf c"
  shows "unat (GC_Value c) = (\<Sum>(_, k) \<leftarrow> counters c. unat k) mod 2 ^ 64 \<and>
    GC_Value (GC_Increment n d c) = GC_Value c + d"
  using GC_Value_Increment [OF assms] by (simp add: GC_Value_def [of c] unat_sum_range)

theorem gcounter_value_sum_witness:
  "unat (GC_Value (ex_gc ''a'' 3)) = (\<Sum>(_, k) \<leftarrow> counters (ex_gc ''a'' 3). unat k) mod 2 ^ 64 \<and>
    GC_Value (GC_Increment ''b'' 7 (ex_gc ''a'' 3)) = GC_Value (ex_gc ''a'' 3) + 7"
  by (rule gcounter_value_sum) (rule gc_wf_ex_gc)

text \<open>
  increment/decrement counters converge like grow-only ones, and one \<open>Decrement\<close> after one
  \<open>Increment\<close> of the same amount, at any nodes, restores \<open>Value()\<close>.
\<close>

theorem pncounter_converges_and_cancels:
  assumes "pn_wf c" "\<forall>x \<in> set xs. pn_wf x" "pn_wf d" "\<forall>y \<in> set ys. pn_wf y"
    and "set (c # xs) = set (d # ys)"
  shows "PN_Value (foldl PN_Merge c xs) = PN_Value (foldl PN_Merge d ys) \<and>
    PN_Value (PN_Decrement m k (PN_Increment n k c)) = PN_Value c"
proof -
  let ?c = "foldl PN_Merge c xs" and ?d = "foldl PN_Merge d ys"
  have "pn_counts ?c = pn_counts ?d"
    using assms by (rule pncounter.deliveries_converge)
  moreover have "pn_wf ?c" "pn_wf ?d"
    using assms by (simp_all add: pncounter.ok_deliveries)
  ultimately have "GC_Value (positive ?c) = GC_Value (positive ?d)"
    "GC_Value (negative ?c) = GC_Value (negative ?d)"
    by (auto simp: pn_counts_def pn_wf_def intro: GC_Value_cong)
  moreover have "gc_wf (positive c)" "gc_wf (negative c)"
    using assms(1) by (simp_all add: pn_wf_def)
  ultimately show ?thesis
    by (simp add: PN_Value_def PN_Increment_def PN_Decrement_def GC_Value_Increment)
qed

theorem pncounter_converges_and_cancels_witness:
  "PN_Value (foldl PN_Merge (PN_Increment ''a'' 5 NewPNCounter) [PN_Decrement ''b'' 2 NewPNCounter]) =
   PN_Value (foldl PN_Merge (PN_Decrement ''b'' 2 NewPNCounter) [PN_Increment ''a'' 5 NewPNCounter]) \<and>
   PN_Value (PN_Decrement ''x'' 9 (PN_Increment ''y'' 9 (PN_Increment ''a'' 5 NewPNCounter))) =
   PN_Value (PN_Increment ''a'' 5 NewPNCounter)"
  by (rule pncounter_converges_and_cancels)
    (auto simp: pn_wf_def PN_Increment_def PN_Decrement_def NewPNCounter_def gc_wf_Increment gc_wf_New)

end
