(* ===== verification/Sync_Registry.thy ===== *)
theory Sync_Registry
  imports Sync_CRDT
begin

text \<open>
  \<open>services/sync-service/internal/crdt/registry.go\<close>: the \<open>CRDT\<close> interface as the sum of its three
  implementations in the repository, the registry of factories, vector clocks with their comparison,
  the operation log and the default conflict resolver. A Go map of clocks is an association list
  with distinct keys; the two loops of \<open>Compare\<close> are the recursions \<open>compare_own\<close> and
  \<open>compare_other\<close>. The mutexes only serialise the methods and have no counterpart.
\<close>

section \<open>The CRDT interface\<close>

datatype 'v CRDT = CLWWRegister "'v LWWRegister" | CGCounter GCounter | CPNCounter PNCounter

fun CRDT_Merge :: "'v CRDT \<Rightarrow> 'v CRDT \<Rightarrow> goerror + 'v CRDT" where
  "CRDT_Merge (CLWWRegister r) (CLWWRegister s) = Inr (CLWWRegister (LWW_Merge r s))"
| "CRDT_Merge (CGCounter c) (CGCounter d) = Inr (CGCounter (GC_Merge c d))"
| "CRDT_Merge (CPNCounter c) (CPNCounter d) = Inr (CPNCounter (PN_Merge c d))"
| "CRDT_Merge _ _ = Inl ''cannot merge different CRDT types''"

fun CRDT_Clone :: "'v CRDT \<Rightarrow> 'v CRDT" where
  "CRDT_Clone (CLWWRegister r) = CLWWRegister (LWW_Clone r)"
| "CRDT_Clone (CGCounter c) = CGCounter (GC_Clone c)"
| "CRDT_Clone (CPNCounter c) = CPNCounter (PN_Clone c)"

fun CRDT_Type :: "'v CRDT \<Rightarrow> string" where
  "CRDT_Type (CLWWRegister r) = ''LWWRegister''"
| "CRDT_Type (CGCounter c) = ''GCounter''"
| "CRDT_Type (CPNCounter c) = ''PNCounter''"

fun CRDT_Validate :: "'v CRDT \<Rightarrow> goerror option" where
  "CRDT_Validate (CLWWRegister r) = LWW_Validate r"
| "CRDT_Validate (CGCounter c) = GC_Validate c"
| "CRDT_Validate (CPNCounter c) = PN_Validate c"

section \<open>The registry\<close>

text \<open>A \<open>CRDTFactory\<close> reads the clock and builds an instance.\<close>

record 'v Registry =
  factories :: "(string, gotime \<Rightarrow> 'v CRDT) gomap"

definition NewRegistry :: "'v Registry" where
  "NewRegistry = \<lparr>factories = []\<rparr>"

definition RegisterCRDT :: "string \<Rightarrow> (gotime \<Rightarrow> 'v CRDT) \<Rightarrow> 'v Registry \<Rightarrow> 'v Registry" where
  "RegisterCRDT typeName factory r = r\<lparr>factories := go_set typeName factory (factories r)\<rparr>"

definition CreateCRDT :: "gotime \<Rightarrow> string \<Rightarrow> 'v Registry \<Rightarrow> goerror + 'v CRDT" where
  "CreateCRDT now typeName r =
     (case map_of (factories r) typeName of
        None \<Rightarrow> Inl (''unknown CRDT type: '' @ typeName)
      | Some factory \<Rightarrow> Inr (factory now))"

definition GetRegisteredTypes :: "'v Registry \<Rightarrow> string list" where
  "GetRegisteredTypes r = map fst (factories r)"

section \<open>Vector clocks\<close>

type_synonym VectorClock = "(string, uint64) gomap"

datatype Ordering = Before | After | Equal | Concurrent

fun Ordering_String :: "Ordering \<Rightarrow> string" where
  "Ordering_String Before = ''before''"
| "Ordering_String After = ''after''"
| "Ordering_String Equal = ''equal''"
| "Ordering_String Concurrent = ''concurrent''"

definition NewVectorClock :: VectorClock where
  "NewVectorClock = []"

definition VC_Increment :: "string \<Rightarrow> VectorClock \<Rightarrow> VectorClock" where
  "VC_Increment nodeID vc = go_set nodeID (go_get 0 vc nodeID + 1) vc"

definition VC_Update :: "VectorClock \<Rightarrow> VectorClock \<Rightarrow> VectorClock" where
  "VC_Update vc other = merge_max vc other"

fun compare_own :: "VectorClock \<Rightarrow> VectorClock \<Rightarrow> bool \<times> bool \<Rightarrow> bool \<times> bool" where
  "compare_own other [] flags = flags"
| "compare_own other ((nodeID, timestamp) # rest) (lessOrEqual, greaterOrEqual) =
     (let otherTimestamp = (case map_of other nodeID of None \<Rightarrow> 0 | Some t \<Rightarrow> t)
      in compare_own other rest
           (if timestamp > otherTimestamp then False else lessOrEqual,
            if timestamp < otherTimestamp then False else greaterOrEqual))"

fun compare_other :: "VectorClock \<Rightarrow> VectorClock \<Rightarrow> bool \<Rightarrow> bool" where
  "compare_other vc [] lessOrEqual = lessOrEqual"
| "compare_other vc ((nodeID, otherTimestamp) # rest) lessOrEqual =
     compare_other vc rest
       (if map_of vc nodeID = None \<and> otherTimestamp > 0 then False else lessOrEqual)"

definition VC_Compare :: "VectorClock \<Rightarrow> VectorClock \<Rightarrow> Ordering" where
  "VC_Compare vc other =
     (let (le, greaterOrEqual) = compare_own other vc (True, True);
          lessOrEqual = compare_other vc other le
      in if lessOrEqual \<and> greaterOrEqual then Equal
         else if lessOrEqual then Before
         else if greaterOrEqual then After
         else Concurrent)"

definition VC_Clone :: "VectorClock \<Rightarrow> VectorClock" where
  "VC_Clone vc = copy_range [] vc"

section \<open>The operation log\<close>

record 'd Operation =
  op_Type :: string
  op_NodeID :: string
  op_Timestamp :: uint64
  op_VectorClock :: VectorClock
  op_Data :: 'd

record 'd OperationLog =
  operations :: "'d Operation list"

definition NewOperationLog :: "'d OperationLog" where
  "NewOperationLog = \<lparr>operations = []\<rparr>"

definition AddOperation :: "'d Operation \<Rightarrow> 'd OperationLog \<Rightarrow> 'd OperationLog" where
  "AddOperation oper ol = ol\<lparr>operations := operations ol @ [oper]\<rparr>"

definition GetOperations :: "'d OperationLog \<Rightarrow> 'd Operation list" where
  "GetOperations ol = operations ol"

fun since_loop :: "VectorClock \<Rightarrow> 'd Operation list \<Rightarrow> 'd Operation list \<Rightarrow> 'd Operation list" where
  "since_loop since result [] = result"
| "since_loop since result (oper # rest) =
     since_loop since
       (if VC_Compare (op_VectorClock oper) since = After then result @ [oper] else result) rest"

definition GetOperationsSince :: "VectorClock \<Rightarrow> 'd OperationLog \<Rightarrow> 'd Operation list" where
  "GetOperationsSince since ol = since_loop since [] (operations ol)"

fun prune_loop :: "VectorClock \<Rightarrow> 'd Operation list \<Rightarrow> 'd Operation list \<Rightarrow> 'd Operation list" where
  "prune_loop before remaining [] = remaining"
| "prune_loop before remaining (oper # rest) =
     prune_loop before
       (if VC_Compare (op_VectorClock oper) before \<noteq> Before then remaining @ [oper] else remaining)
       rest"

definition Prune :: "VectorClock \<Rightarrow> 'd OperationLog \<Rightarrow> 'd OperationLog" where
  "Prune before ol = ol\<lparr>operations := prune_loop before [] (operations ol)\<rparr>"

section \<open>Conflict resolution\<close>

datatype ConflictResolutionStrategy =
  LastWriteWins | FirstWriteWins | Manual | StrategyCRDT | StrategyMerge

fun Strategy_String :: "ConflictResolutionStrategy \<Rightarrow> string" where
  "Strategy_String LastWriteWins = ''last_write_wins''"
| "Strategy_String FirstWriteWins = ''first_write_wins''"
| "Strategy_String Manual = ''manual''"
| "Strategy_String StrategyCRDT = ''crdt''"
| "Strategy_String StrategyMerge = ''merge''"

text \<open>
  The two results of the Go function, the CRDT (nil is \<open>None\<close>) and the error. A failed merge leaves
  the clone of the local state as it was, and both are returned.
\<close>

definition merge_into_clone :: "'v CRDT \<Rightarrow> 'v CRDT \<Rightarrow> 'v CRDT option \<times> goerror option" where
  "merge_into_clone local remote =
     (let result = CRDT_Clone local
      in case CRDT_Merge result remote of
           Inl err \<Rightarrow> (Some result, Some err)
         | Inr merged \<Rightarrow> (Some merged, None))"

fun ResolveConflict ::
  "'v CRDT \<Rightarrow> 'v CRDT \<Rightarrow> ConflictResolutionStrategy \<Rightarrow> 'v CRDT option \<times> goerror option" where
  "ResolveConflict local remote StrategyCRDT = merge_into_clone local remote"
| "ResolveConflict local remote LastWriteWins = (Some (CRDT_Clone remote), None)"
| "ResolveConflict local remote FirstWriteWins = (Some (CRDT_Clone local), None)"
| "ResolveConflict local remote StrategyMerge = merge_into_clone local remote"
| "ResolveConflict local remote strategy =
     (None, Some (''unsupported conflict resolution strategy: '' @ Strategy_String strategy))"

section \<open>Lemmas: vector clocks\<close>

abbreviation vc_read :: "VectorClock \<Rightarrow> string \<Rightarrow> uint64" where
  "vc_read \<equiv> go_get 0"

text \<open>The causal order of clocks, and the comparison it defines.\<close>

definition vc_leq :: "VectorClock \<Rightarrow> VectorClock \<Rightarrow> bool" where
  "vc_leq a b = (\<forall>n. vc_read a n \<le> vc_read b n)"

definition causal_order :: "VectorClock \<Rightarrow> VectorClock \<Rightarrow> Ordering" where
  "causal_order a b =
     (if vc_leq a b \<and> vc_leq b a then Equal else if vc_leq a b then Before
      else if vc_leq b a then After else Concurrent)"

text \<open>Every node that has ticked in \<open>other\<close> has an entry in \<open>vc\<close>.\<close>

definition covers :: "VectorClock \<Rightarrow> VectorClock \<Rightarrow> bool" where
  "covers vc other = (\<forall>n. vc_read other n > 0 \<longrightarrow> map_of vc n \<noteq> None)"

text \<open>\<open>vc\<close> is at least \<open>other\<close> at the nodes it has an entry for.\<close>

definition own_geq :: "VectorClock \<Rightarrow> VectorClock \<Rightarrow> bool" where
  "own_geq vc other = (\<forall>n. map_of vc n \<noteq> None \<longrightarrow> vc_read other n \<le> vc_read vc n)"

lemma compare_own_spec:
  "compare_own other m (le, ge) =
     (le \<and> (\<forall>(n, t) \<in> set m. t \<le> vc_read other n), ge \<and> (\<forall>(n, t) \<in> set m. vc_read other n \<le> t))"
  by (induction other m "(le, ge)" arbitrary: le ge rule: compare_own.induct)
    (auto simp: Let_def go_get_def not_less)

lemma compare_other_spec:
  "compare_other vc m le \<longleftrightarrow> le \<and> (\<forall>(n, t) \<in> set m. map_of vc n = None \<longrightarrow> t = 0)"
  by (induction vc m le rule: compare_other.induct) (auto simp: word_neq_0_conv [symmetric])

lemma vc_read_entries:
  assumes "go_wf m"
  shows "(\<forall>(n, t) \<in> set m. P n t) \<longleftrightarrow> (\<forall>n. map_of m n \<noteq> None \<longrightarrow> P n (vc_read m n))"
proof
  assume *: "\<forall>(n, t) \<in> set m. P n t"
  show "\<forall>n. map_of m n \<noteq> None \<longrightarrow> P n (vc_read m n)"
    using * by (fastforce simp: go_get_def dest: map_of_SomeD)
next
  assume *: "\<forall>n. map_of m n \<noteq> None \<longrightarrow> P n (vc_read m n)"
  show "\<forall>(n, t) \<in> set m. P n t"
  proof clarify
    fix n t assume "(n, t) \<in> set m"
    then have "map_of m n = Some t" using assms by (simp add: go_wf_def)
    with * show "P n t" by (force simp: go_get_def)
  qed
qed

lemma vc_read_absent: "map_of m n = None \<Longrightarrow> vc_read m n = 0"
  by (simp add: go_get_def)

lemma own_le_iff:
  "go_wf vc \<Longrightarrow> (\<forall>(n, t) \<in> set vc. t \<le> vc_read other n) \<longleftrightarrow> vc_leq vc other"
  by (auto simp: vc_read_entries vc_leq_def) (metis vc_read_absent option.exhaust word_zero_le)

lemma own_ge_iff:
  "go_wf vc \<Longrightarrow> (\<forall>(n, t) \<in> set vc. vc_read other n \<le> t) \<longleftrightarrow> own_geq vc other"
  by (simp add: vc_read_entries own_geq_def)

lemma covers_iff:
  "go_wf other \<Longrightarrow> (\<forall>(n, t) \<in> set other. map_of vc n = None \<longrightarrow> t = 0) \<longleftrightarrow> covers vc other"
  by (auto simp: vc_read_entries covers_def word_neq_0_conv [symmetric])
    (metis vc_read_absent option.exhaust)

text \<open>What \<open>Compare\<close> computes, in terms of the readings of the two clocks.\<close>

lemma VC_Compare_spec:
  assumes "go_wf vc" "go_wf other"
  shows "VC_Compare vc other =
    (let le = vc_leq vc other \<and> covers vc other;
         ge = own_geq vc other
     in if le \<and> ge then Equal else if le then Before else if ge then After else Concurrent)"
  using assms
  by (simp only: VC_Compare_def compare_own_spec compare_other_spec own_le_iff own_ge_iff covers_iff
      Let_def case_prod_conv simp_thms)

lemma covers_ge_iff:
  "covers vc other \<Longrightarrow> own_geq vc other \<longleftrightarrow> vc_leq other vc"
  by (auto simp: covers_def vc_leq_def own_geq_def) (metis vc_read_absent option.exhaust word_gt_0 word_zero_le)

interpretation vclock: state_crdt pointwise_max VC_Update vc_read go_wf
  by unfold_locales
    (auto simp: VC_Update_def go_wf_merge_max go_get_merge_max pointwise_max_def fun_eq_iff)

lemma vc_read_Update: "go_wf other \<Longrightarrow> vc_read (VC_Update vc other) n = max (vc_read vc n) (vc_read other n)"
  by (simp add: VC_Update_def go_get_merge_max)

lemma since_loop_filter:
  "since_loop since result ops =
   result @ filter (\<lambda>oper. VC_Compare (op_VectorClock oper) since = After) ops"
  by (induction since result ops rule: since_loop.induct) simp_all

lemma prune_loop_filter:
  "prune_loop before remaining ops =
   remaining @ filter (\<lambda>oper. VC_Compare (op_VectorClock oper) before \<noteq> Before) ops"
  by (induction before remaining ops rule: prune_loop.induct) simp_all

section \<open>Properties\<close>

text \<open>
  on clocks where the receiver has an entry for every node that has ticked in the other clock,
  \<open>Compare\<close> is the causal order of vector clocks.
\<close>

theorem vc_compare_causal:
  assumes "go_wf vc" "go_wf other" "covers vc other"
  shows "VC_Compare vc other = causal_order vc other"
  using assms by (simp add: VC_Compare_spec covers_ge_iff causal_order_def Let_def)

theorem vc_compare_causal_witness:
  "VC_Compare [(''a'', 1), (''b'', 2)] [(''b'', 5), (''a'', 1)] =
   causal_order [(''a'', 1), (''b'', 2)] [(''b'', 5), (''a'', 1)]"
  by (rule vc_compare_causal) (auto simp: covers_def go_map_simps split: if_splits)

text \<open>
  when a node that has ticked in the other clock has no entry in the receiver, \<open>Compare\<close> never
  answers \<open>Before\<close> or \<open>Equal\<close>, not even for a clock that is causally before the other: it answers \<open>After\<close>
  when no entry of the receiver is behind, and \<open>Concurrent\<close> otherwise. In particular the empty
  clock compares as \<open>After\<close> with every clock that has ticked.
\<close>

theorem vc_compare_missing_node:
  assumes "go_wf vc" "go_wf other" "\<not> covers vc other"
  shows "VC_Compare vc other = (if own_geq vc other then After else Concurrent) \<and>
    (vc_leq vc other \<longrightarrow> causal_order vc other = Before)"
proof
  show "VC_Compare vc other = (if own_geq vc other then After else Concurrent)"
    using assms by (simp add: VC_Compare_spec Let_def)
  from assms(3) obtain n where "vc_read other n > 0" "map_of vc n = None"
    by (auto simp: covers_def)
  then have "\<not> vc_leq other vc"
    by (auto simp: vc_leq_def vc_read_absent not_le intro!: exI [of _ n])
  then show "vc_leq vc other \<longrightarrow> causal_order vc other = Before"
    by (simp add: causal_order_def)
qed

theorem vc_compare_missing_node_witness:
  "VC_Compare [] [(''b'', 1)] = After \<and> causal_order [] [(''b'', 1)] = Before"
proof -
  have "own_geq [] [(''b'', 1)]" "vc_leq [] [(''b'', 1)]"
    by (simp_all add: own_geq_def vc_leq_def)
  moreover have "\<not> covers [] [(''b'', 1)]" by (auto simp: covers_def go_map_simps)
  ultimately show ?thesis using vc_compare_missing_node [of "[]" "[(''b'', 1)]"] by simp
qed

text \<open>
  \<open>Update\<close> computes the least upper bound of two clocks in the causal order, and clocks that
  absorbed the same set of clocks read the same at every node.
\<close>

theorem vc_update_lub:
  assumes "go_wf vc" "go_wf other" "go_wf ub" "\<forall>c \<in> set cs. go_wf c"
    and "set (vc # cs) = set (other # ds)"
  shows "vc_leq vc (VC_Update vc other) \<and> vc_leq other (VC_Update vc other) \<and>
    (vc_leq vc ub \<and> vc_leq other ub \<longrightarrow> vc_leq (VC_Update vc other) ub) \<and>
    vc_read (foldl VC_Update vc cs) = vc_read (foldl VC_Update other ds)"
proof -
  have "\<forall>d \<in> set ds. go_wf d" using assms by (metis list.set_intros(2) set_ConsD)
  then have "vc_read (foldl VC_Update vc cs) = vc_read (foldl VC_Update other ds)"
    using assms by (intro vclock.deliveries_converge)
  then show ?thesis
    using assms by (simp add: vc_leq_def vc_read_Update)
qed

theorem vc_update_lub_witness:
  "vc_leq [(''a'', 1)] (VC_Update [(''a'', 1)] [(''b'', 2)]) \<and>
   vc_leq [(''b'', 2)] (VC_Update [(''a'', 1)] [(''b'', 2)]) \<and>
   vc_leq (VC_Update [(''a'', 1)] [(''b'', 2)]) [(''a'', 4), (''b'', 3)]"
proof -
  have "vc_leq [(''a'', 1)] [(''a'', 4), (''b'', 3)]" "vc_leq [(''b'', 2)] [(''a'', 4), (''b'', 3)]"
    by (simp_all add: vc_leq_def go_map_simps)
  then show ?thesis
    using vc_update_lub [of "[(''a'', 1)]" "[(''b'', 2)]" "[(''a'', 4), (''b'', 3)]" "[[(''b'', 2)]]" "[[(''a'', 1)]]"]
    by auto
qed

text \<open>
  pruning keeps the operations that \<open>Compare\<close> does not place before the given clock, in log order, so
  pruning twice is pruning once; an operation whose clock lacks a node that has ticked in the
  given clock is never pruned, and \<open>GetOperationsSince\<close> returns a sublist of what pruning keeps.
\<close>

theorem prune_keeps:
  "operations (Prune b ol) = filter (\<lambda>oper. VC_Compare (op_VectorClock oper) b \<noteq> Before) (operations ol) \<and>
   Prune b (Prune b ol) = Prune b ol \<and>
   (\<forall>oper. oper \<in> set (operations ol) \<and> go_wf (op_VectorClock oper) \<and> go_wf b \<and>
      \<not> covers (op_VectorClock oper) b \<longrightarrow> oper \<in> set (operations (Prune b ol))) \<and>
   GetOperationsSince b ol = GetOperationsSince b (Prune b ol)"
  by (auto simp: Prune_def prune_loop_filter GetOperationsSince_def since_loop_filter VC_Compare_spec
      Let_def intro!: filter_cong)

definition ex_op :: "nat Operation" where
  "ex_op = \<lparr>op_Type = ''set'', op_NodeID = ''a'', op_Timestamp = 1, op_VectorClock = [], op_Data = 0\<rparr>"

theorem prune_keeps_witness:
  "ex_op \<in> set (operations (Prune [(''b'', 1)] (AddOperation ex_op NewOperationLog)))"
proof -
  have "ex_op \<in> set (operations (AddOperation ex_op NewOperationLog))"
    by (simp add: AddOperation_def)
  moreover have "\<not> covers (op_VectorClock ex_op) [(''b'', 1)]"
    by (auto simp: ex_op_def covers_def go_map_simps)
  moreover have "go_wf (op_VectorClock ex_op)" by (simp add: ex_op_def)
  moreover have "go_wf [(''b'', 1 :: uint64)]" by simp
  ultimately show ?thesis
    using prune_keeps [of "[(''b'', 1)]" "AddOperation ex_op NewOperationLog"] by blast
qed

text \<open>
  the default conflict resolver, branch by branch. With the strategies \<open>crdt\<close> and \<open>merge\<close>, counters of
  one kind are joined node by node and registers keep the later write; states of different kinds
  leave the local state and report the merge error; last-write-wins takes the remote state and
  first-write-wins the local one; the manual strategy is refused.
\<close>

theorem resolve_conflict_branches:
  fixes r r' :: "'v LWWRegister" and l e :: "'v CRDT"
  assumes "s \<in> {StrategyCRDT, StrategyMerge}" "gc_wf c" "gc_wf d"
  shows "(\<exists>m. ResolveConflict (CGCounter c :: 'v CRDT) (CGCounter d) s = (Some (CGCounter m), None) \<and>
      node_count m = pointwise_max (node_count c) (node_count d)) \<and>
    ResolveConflict (CLWWRegister r) (CLWWRegister r') s = (Some (CLWWRegister (LWW_Merge r r')), None) \<and>
    (\<exists>m. ResolveConflict (CGCounter c) (CLWWRegister r) s =
      (Some (CGCounter m), Some ''cannot merge different CRDT types'') \<and> node_count m = node_count c) \<and>
    ResolveConflict l e LastWriteWins = (Some (CRDT_Clone e), None) \<and>
    ResolveConflict l e FirstWriteWins = (Some (CRDT_Clone l), None) \<and>
    ResolveConflict l e Manual = (None, Some ''unsupported conflict resolution strategy: manual'')"
proof -
  have "node_count (GC_Merge (GC_Clone c) d) = pointwise_max (node_count c) (node_count d)"
    using assms by (simp add: fun_eq_iff node_count_Merge node_count_Clone pointwise_max_def)
  moreover have "LWW_Clone r = r" by (simp add: LWW_Clone_def)
  ultimately show ?thesis
    using assms by (auto simp: merge_into_clone_def node_count_Clone)
qed

theorem resolve_conflict_branches_witness:
  "(\<exists>m. ResolveConflict (CGCounter (ex_gc ''a'' 3)) (CGCounter (ex_gc ''b'' 4)) StrategyMerge =
      (Some (CGCounter m :: nat CRDT), None) \<and>
      node_count m = pointwise_max (node_count (ex_gc ''a'' 3)) (node_count (ex_gc ''b'' 4)))"
  using resolve_conflict_branches [of StrategyMerge "ex_gc ''a'' 3" "ex_gc ''b'' 4"
      "NewLWWRegister 1 :: nat LWWRegister" "NewLWWRegister 2"]
  by (simp add: gc_wf_ex_gc)

end
