(* ===== verification/Outbox_Publisher.thy ===== *)
theory Outbox_Publisher
  imports Go_Prelude
begin

text \<open>
  The outbox publisher's event, \<open>services/outbox-publisher/internal/domain/outbox_event.go\<close>: the
  event, its constructor and setters, and the methods that move it through its life cycle. A method
  reads the clock at most once; the reading is its argument \<open>now\<close>. \<open>MarkFailed\<close> is \<open>None\<close> where the
  shift by a negative retry count panics. The service that drives the events is not in the
  repository: \<open>run_event\<close> applies any sequence of the state-changing methods.

  The lemmas show which fields each method keeps, the invariant that ties the status to the
  counters and the instants, that a chain of failures and retries ends, and the exact backoff
  with the retry count from which its \<open>int64\<close> nanoseconds wrap.
\<close>

section \<open>The event\<close>

type_synonym OutboxEventStatus = string

abbreviation OutboxEventStatusPending :: OutboxEventStatus where
  "OutboxEventStatusPending \<equiv> ''pending''"
abbreviation OutboxEventStatusProcessing :: OutboxEventStatus where
  "OutboxEventStatusProcessing \<equiv> ''processing''"
abbreviation OutboxEventStatusProcessed :: OutboxEventStatus where
  "OutboxEventStatusProcessed \<equiv> ''processed''"
abbreviation OutboxEventStatusFailed :: OutboxEventStatus where
  "OutboxEventStatusFailed \<equiv> ''failed''"
abbreviation OutboxEventStatusDeadLetter :: OutboxEventStatus where
  "OutboxEventStatusDeadLetter \<equiv> ''dead_letter''"

definition OutboxEventStatuses :: "OutboxEventStatus list" where
  "OutboxEventStatuses =
     [OutboxEventStatusPending, OutboxEventStatusProcessing, OutboxEventStatusProcessed,
      OutboxEventStatusFailed, OutboxEventStatusDeadLetter]"

record PublisherEvent =
  pe_ID :: string
  pe_AggregateID :: string
  pe_AggregateType :: string
  pe_EventType :: string
  pe_EventData :: json
  pe_Metadata :: "jobject option"
  pe_CreatedAt :: gotime
  pe_ProcessedAt :: "gotime option"
  pe_Status :: OutboxEventStatus
  pe_RetryCount :: int
  pe_MaxRetries :: int
  pe_NextRetryAt :: "gotime option"
  pe_ErrorMessage :: string
  pe_Topic :: string
  pe_PartitionKey :: string
  pe_Headers :: "(string, string) gomap option"
  pe_Source :: string

section \<open>Constructor and setters\<close>

text \<open>
  \<open>marshalled\<close> is what \<open>json.Marshal\<close> makes of the event data, \<open>uid\<close> the new UUID in text form.
\<close>

definition NewOutboxEvent ::
  "string \<Rightarrow> gotime \<Rightarrow> string \<Rightarrow> string \<Rightarrow> string \<Rightarrow> goerror + json \<Rightarrow> string \<Rightarrow> string \<Rightarrow>
   goerror + PublisherEvent" where
  "NewOutboxEvent uid now aggregateID aggregateType eventType marshalled topic source =
     (case marshalled of
        Inl err \<Rightarrow> Inl err
      | Inr eventDataBytes \<Rightarrow>
          Inr \<lparr>pe_ID = uid, pe_AggregateID = aggregateID, pe_AggregateType = aggregateType,
               pe_EventType = eventType, pe_EventData = eventDataBytes, pe_Metadata = Some [],
               pe_CreatedAt = now, pe_ProcessedAt = None, pe_Status = OutboxEventStatusPending,
               pe_RetryCount = 0, pe_MaxRetries = 5, pe_NextRetryAt = None, pe_ErrorMessage = '''',
               pe_Topic = topic, pe_PartitionKey = '''', pe_Headers = Some [],
               pe_Source = source\<rparr>)"

definition WithMetadata :: "string \<Rightarrow> json \<Rightarrow> PublisherEvent \<Rightarrow> PublisherEvent" where
  "WithMetadata key value e =
     (let m = (case pe_Metadata e of None \<Rightarrow> [] | Some m \<Rightarrow> m)
      in e\<lparr>pe_Metadata := Some (go_set key value m)\<rparr>)"

definition WithPartitionKey :: "string \<Rightarrow> PublisherEvent \<Rightarrow> PublisherEvent" where
  "WithPartitionKey key e = e\<lparr>pe_PartitionKey := key\<rparr>"

definition WithHeader :: "string \<Rightarrow> string \<Rightarrow> PublisherEvent \<Rightarrow> PublisherEvent" where
  "WithHeader key value e =
     (let h = (case pe_Headers e of None \<Rightarrow> [] | Some h \<Rightarrow> h)
      in e\<lparr>pe_Headers := Some (go_set key value h)\<rparr>)"

definition WithMaxRetries :: "int \<Rightarrow> PublisherEvent \<Rightarrow> PublisherEvent" where
  "WithMaxRetries maxRetries e = e\<lparr>pe_MaxRetries := maxRetries\<rparr>"

section \<open>Life cycle\<close>

definition MarkProcessing :: "PublisherEvent \<Rightarrow> PublisherEvent" where
  "MarkProcessing e = e\<lparr>pe_Status := OutboxEventStatusProcessing\<rparr>"

definition MarkProcessed :: "gotime \<Rightarrow> PublisherEvent \<Rightarrow> PublisherEvent" where
  "MarkProcessed now e =
     e\<lparr>pe_Status := OutboxEventStatusProcessed, pe_ProcessedAt := Some now, pe_ErrorMessage := ''''\<rparr>"

definition MarkFailed :: "gotime \<Rightarrow> string \<Rightarrow> PublisherEvent \<Rightarrow> PublisherEvent option" where
  "MarkFailed now errorMessage e0 =
     (let e = e0\<lparr>pe_RetryCount := wrap64 (pe_RetryCount e0 + 1), pe_ErrorMessage := errorMessage\<rparr>
      in if pe_RetryCount e \<ge> pe_MaxRetries e
         then Some (e\<lparr>pe_Status := OutboxEventStatusDeadLetter\<rparr>)
         else (case go_shl1 (pe_RetryCount e) of
                 None \<Rightarrow> None
               | Some backoffMinutes \<Rightarrow>
                   Some (e\<lparr>pe_Status := OutboxEventStatusFailed,
                            pe_NextRetryAt := Some (now + wrap64 (backoffMinutes * minute))\<rparr>)))"

definition CanRetry :: "gotime \<Rightarrow> PublisherEvent \<Rightarrow> bool" where
  "CanRetry now e =
     (if pe_Status e \<noteq> OutboxEventStatusFailed then False
      else case pe_NextRetryAt e of None \<Rightarrow> True | Some t \<Rightarrow> now > t)"

definition ResetForRetry :: "PublisherEvent \<Rightarrow> PublisherEvent" where
  "ResetForRetry e = e\<lparr>pe_Status := OutboxEventStatusPending, pe_NextRetryAt := None\<rparr>"

definition IsProcessed_event :: "PublisherEvent \<Rightarrow> bool" where
  "IsProcessed_event e = (pe_Status e = OutboxEventStatusProcessed)"

definition IsFailed :: "PublisherEvent \<Rightarrow> bool" where
  "IsFailed e = (pe_Status e = OutboxEventStatusFailed)"

definition IsDeadLetter :: "PublisherEvent \<Rightarrow> bool" where
  "IsDeadLetter e = (pe_Status e = OutboxEventStatusDeadLetter)"

text \<open>Any sequence of the state-changing methods, each with its reading of the clock.\<close>

datatype EventMethod =
  EMarkProcessing | EMarkProcessed gotime | EMarkFailed gotime string | EResetForRetry

fun event_method :: "EventMethod \<Rightarrow> PublisherEvent \<Rightarrow> PublisherEvent option" where
  "event_method EMarkProcessing e = Some (MarkProcessing e)"
| "event_method (EMarkProcessed now) e = Some (MarkProcessed now e)"
| "event_method (EMarkFailed now msg) e = MarkFailed now msg e"
| "event_method EResetForRetry e = Some (ResetForRetry e)"

fun run_event :: "EventMethod list \<Rightarrow> PublisherEvent \<Rightarrow> PublisherEvent option" where
  "run_event [] e = Some e"
| "run_event (m # ms) e = (case event_method m e of None \<Rightarrow> None | Some e' \<Rightarrow> run_event ms e')"

fun failures :: "EventMethod list \<Rightarrow> int" where
  "failures [] = 0"
| "failures (EMarkFailed now msg # ms) = 1 + failures ms"
| "failures (m # ms) = failures ms"

section \<open>The life-cycle invariant\<close>

definition event_wf :: "PublisherEvent \<Rightarrow> bool" where
  "event_wf e =
     (pe_Status e \<in> set OutboxEventStatuses \<and>
      0 \<le> pe_RetryCount e \<and> pe_RetryCount e < 2 ^ 63 \<and> - (2 ^ 63) < pe_MaxRetries e \<and>
      (IsProcessed_event e \<longrightarrow> pe_ProcessedAt e \<noteq> None) \<and>
      (IsFailed e \<longrightarrow> pe_RetryCount e < pe_MaxRetries e \<and> pe_NextRetryAt e \<noteq> None) \<and>
      (IsDeadLetter e \<longrightarrow> pe_MaxRetries e \<le> pe_RetryCount e))"

lemmas event_status_defs = IsProcessed_event_def IsFailed_def IsDeadLetter_def OutboxEventStatuses_def
lemmas event_setters = MarkProcessing_def MarkProcessed_def ResetForRetry_def

lemma MarkFailed_count:
  assumes "MarkFailed now msg e = Some e'" "0 \<le> pe_RetryCount e" "pe_RetryCount e < 2 ^ 63"
    "- (2 ^ 63) < pe_MaxRetries e"
  shows "pe_RetryCount e' = pe_RetryCount e + 1 \<and> pe_RetryCount e' < 2 ^ 63"
proof (cases "pe_RetryCount e + 1 < 2 ^ 63")
  case True
  then have "wrap64 (pe_RetryCount e + 1) = pe_RetryCount e + 1"
    using assms(2) by (intro wrap64_id) simp
  then show ?thesis
    using assms(1) True by (auto simp: MarkFailed_def Let_def split: if_splits option.splits)
next
  case False
  then have "pe_RetryCount e = 2 ^ 63 - 1"
    using assms(3) by simp
  then have "wrap64 (pe_RetryCount e + 1) = - (2 ^ 63)"
    by (simp add: wrap64_def)
  then show ?thesis
    using assms(1,4) by (simp add: MarkFailed_def Let_def go_shl1_def)
qed

lemma MarkFailed_outcome:
  assumes "MarkFailed now msg e = Some e'"
  shows "pe_MaxRetries e' = pe_MaxRetries e \<and> pe_ErrorMessage e' = msg \<and>
         (if pe_MaxRetries e \<le> pe_RetryCount e' then IsDeadLetter e'
          else IsFailed e' \<and> pe_NextRetryAt e' \<noteq> None \<and> 0 \<le> pe_RetryCount e')"
  using assms
  by (auto simp: MarkFailed_def Let_def IsFailed_def IsDeadLetter_def dest: go_shl1_SomeD
           split: if_split_asm option.split_asm)

lemma MarkFailed_defined:
  assumes "0 \<le> pe_RetryCount e" "pe_RetryCount e + 1 < 2 ^ 63"
  shows "MarkFailed now msg e \<noteq> None"
proof -
  have "wrap64 (pe_RetryCount e + 1) = pe_RetryCount e + 1"
    using assms by (intro wrap64_id) simp
  then show ?thesis
    using assms by (simp add: MarkFailed_def Let_def go_shl1_def)
qed

lemma event_wf_MarkFailed:
  assumes "MarkFailed now msg e = Some e'" "event_wf e"
  shows "event_wf e' \<and> pe_RetryCount e' = pe_RetryCount e + 1"
proof -
  have count: "pe_RetryCount e' = pe_RetryCount e + 1 \<and> pe_RetryCount e' < 2 ^ 63"
    by (rule MarkFailed_count [OF assms(1)]) (use assms(2) in \<open>simp_all add: event_wf_def\<close>)
  then show ?thesis
    using MarkFailed_outcome [OF assms(1)] assms(2)
    by (auto simp: event_wf_def event_status_defs split: if_splits)
qed

lemma event_wf_setters [simp]:
  "event_wf e \<Longrightarrow> event_wf (MarkProcessing e)"
  "event_wf e \<Longrightarrow> event_wf (MarkProcessed now e)"
  "event_wf e \<Longrightarrow> event_wf (ResetForRetry e)"
  by (simp_all add: event_wf_def event_setters event_status_defs)

lemma event_wf_method:
  assumes "event_method m e = Some e'" "event_wf e"
  shows "event_wf e' \<and> pe_RetryCount e' = pe_RetryCount e + failures [m] \<and>
         pe_MaxRetries e' = pe_MaxRetries e"
proof (cases m)
  case (EMarkFailed now msg)
  then show ?thesis
    using assms event_wf_MarkFailed [of now msg e e'] MarkFailed_outcome [of now msg e e'] by simp
next
  case EMarkProcessing
  then show ?thesis
    using assms event_wf_setters(1) [of e] by (clarsimp simp del: event_wf_setters) (simp add: event_setters)
next
  case (EMarkProcessed now)
  then show ?thesis
    using assms event_wf_setters(2) [of e now] by (clarsimp simp del: event_wf_setters) (simp add: event_setters)
next
  case EResetForRetry
  then show ?thesis
    using assms event_wf_setters(3) [of e] by (clarsimp simp del: event_wf_setters) (simp add: event_setters)
qed

lemma failures_Cons: "failures (m # ms) = failures [m] + failures ms"
  by (cases m) simp_all

lemma failures_nonneg: "0 \<le> failures ms"
  by (induction ms rule: failures.induct) simp_all

lemma event_wf_run:
  assumes "run_event ms e = Some e'" "event_wf e"
  shows "event_wf e' \<and> pe_RetryCount e' = pe_RetryCount e + failures ms \<and>
         pe_MaxRetries e' = pe_MaxRetries e"
  using assms
proof (induction ms arbitrary: e)
  case Nil
  then show ?case by simp
next
  case (Cons m ms)
  then obtain e1 where e1: "event_method m e = Some e1" "run_event ms e1 = Some e'"
    by (auto split: option.splits)
  show ?case
    using Cons.IH [OF e1(2)] event_wf_method [OF e1(1) Cons.prems(2)] failures_Cons [of m ms]
    by simp
qed

lemma run_event_defined:
  assumes "event_wf e" "pe_RetryCount e + failures ms < 2 ^ 63"
  shows "\<exists>e'. run_event ms e = Some e'"
  using assms
proof (induction ms arbitrary: e)
  case Nil
  then show ?case by simp
next
  case (Cons m ms)
  have "event_method m e \<noteq> None"
  proof (cases m)
    case (EMarkFailed now msg)
    then show ?thesis
      using Cons.prems failures_nonneg [of ms] MarkFailed_defined [of e now msg]
      by (simp add: event_wf_def)
  qed simp_all
  then obtain e1 where e1: "event_method m e = Some e1" by blast
  then show ?case
    using Cons.IH [of e1] event_wf_method [OF e1 Cons.prems(1)] Cons.prems(2) failures_Cons [of m ms]
    by simp
qed

section \<open>Properties\<close>

text \<open>C13: From a new event with any limit of retries above the least \<open>int64\<close>, any sequence of the life-cycle methods
  with fewer than 2^63 failures runs without panic, and afterwards the retry count is the number of
  failures, a processed event has its instant, a failed event has retries left and an instant for
  the next one, and a dead-letter event has used up its retries.\<close>

theorem publisher_event_life_cycle:
  assumes "NewOutboxEvent uid t agg aggType evType data topic source = Inr e0"
    and "- (2 ^ 63) < maxRetries" and "failures ms < 2 ^ 63"
  shows "\<exists>e. run_event ms (WithMaxRetries maxRetries e0) = Some e \<and>
             pe_Status e \<in> set OutboxEventStatuses \<and> pe_RetryCount e = failures ms \<and>
             (IsProcessed_event e \<longrightarrow> pe_ProcessedAt e \<noteq> None) \<and>
             (IsFailed e \<longrightarrow> failures ms < maxRetries \<and> pe_NextRetryAt e \<noteq> None) \<and>
             (IsDeadLetter e \<longrightarrow> maxRetries \<le> failures ms)"
proof -
  let ?e = "WithMaxRetries maxRetries e0"
  have e: "event_wf ?e" "pe_RetryCount ?e = 0" "pe_MaxRetries ?e = maxRetries"
    using assms(1,2)
    by (auto simp: NewOutboxEvent_def WithMaxRetries_def event_wf_def event_status_defs
             split: sum.splits)
  from e(1) assms(3) obtain e' where e': "run_event ms ?e = Some e'"
    using run_event_defined [of ?e ms] e(2) by auto
  from event_wf_run [OF e' e(1)] e(2,3) e' show ?thesis
    by (auto simp: event_wf_def)
qed

definition retries_left :: "PublisherEvent \<Rightarrow> nat" where
  "retries_left e =
     (if int64_range (pe_RetryCount e) then nat (pe_MaxRetries e - pe_RetryCount e)
      else Suc (nat (pe_MaxRetries e)))"

lemma retries_left_decreases:
  assumes "MarkFailed now msg e = Some e'" "IsFailed e'"
  shows "retries_left (ResetForRetry e') < retries_left e"
proof -
  have count: "pe_RetryCount e' = wrap64 (pe_RetryCount e + 1)"
    using assms(1) by (auto simp: MarkFailed_def Let_def split: if_splits option.splits)
  have lt: "0 \<le> pe_RetryCount e'" "pe_RetryCount e' < pe_MaxRetries e" "pe_MaxRetries e' = pe_MaxRetries e"
    using MarkFailed_outcome [OF assms(1)] assms(2)
    by (auto simp: IsFailed_def IsDeadLetter_def split: if_splits)
  have left: "retries_left (ResetForRetry e') = nat (pe_MaxRetries e - pe_RetryCount e')"
    using wrap64_range [of "pe_RetryCount e + 1"] lt(3)
    by (simp add: retries_left_def ResetForRetry_def count)
  show ?thesis
  proof (cases "int64_range (pe_RetryCount e)")
    case True
    have "pe_RetryCount e' = pe_RetryCount e + 1"
    proof (cases "pe_RetryCount e = 2 ^ 63 - 1")
      case True
      then show ?thesis using lt(1) count by (simp add: wrap64_def)
    next
      case False
      then show ?thesis using True count by simp
    qed
    then show ?thesis using True lt left by (simp add: retries_left_def)
  next
    case False
    then have "retries_left e = Suc (nat (pe_MaxRetries e))" by (simp only: retries_left_def if_False)
    then show ?thesis using lt left by simp
  qed
qed

text \<open>An event cannot fail and be reset for a retry forever: there is no infinite sequence of
  events in which each is the previous one after a failure that left it retryable and a reset.\<close>

theorem failure_retry_terminates:
  "wf {(ResetForRetry e', e) |e e'. \<exists>now msg. MarkFailed now msg e = Some e' \<and> IsFailed e'}"
  by (rule wf_subset [OF wf_measure [of retries_left]]) (auto intro: retries_left_decreases)

lemma wrap64_minutes: "0 \<le> p \<Longrightarrow> p \<le> 2 ^ 27 \<Longrightarrow> wrap64 (p * minute) = p * minute"
  by (rule wrap64_id) simp

text \<open>The \<open>k\<close>-th failure of an event that has retries left schedules the next attempt exactly
  2^k minutes later when \<open>k\<close> is at most 27, and the event can be retried exactly after that instant;
  the 28th failure overflows the 64-bit nanoseconds and schedules it before the failure.\<close>

theorem backoff_is_exponential_up_to_27:
  assumes "pe_RetryCount e = k - 1" and "1 \<le> k" and "k \<le> 28" and "k < pe_MaxRetries e"
  shows "\<exists>e' next. MarkFailed now msg e = Some e' \<and> pe_NextRetryAt e' = Some next \<and>
           (\<forall>later. CanRetry later e' = (next < later)) \<and>
           (if k \<le> 27 then next = now + 2 ^ nat k * minute else next < now)"
proof -
  have "wrap64 (pe_RetryCount e + 1) = k"
    using assms by (simp add: wrap64_id)
  moreover have "go_shl1 k = Some (2 ^ nat k)"
    using assms by (intro go_shl1_small) simp_all
  ultimately obtain e' where e': "MarkFailed now msg e = Some e'" "IsFailed e'"
      "pe_NextRetryAt e' = Some (now + wrap64 (2 ^ nat k * minute))"
    using assms by (auto simp: MarkFailed_def Let_def IsFailed_def)
  have "wrap64 (2 ^ nat k * minute) = 2 ^ nat k * minute" if "k \<le> 27"
  proof (rule wrap64_minutes)
    show "(2::int) ^ nat k \<le> 2 ^ 27"
      using that by (intro power_increasing) auto
  qed simp
  moreover have "wrap64 (2 ^ nat k * minute) < 0" if "\<not> k \<le> 27"
  proof -
    have "k = 28" using that assms by simp
    then show ?thesis by (simp add: wrap64_def)
  qed
  ultimately show ?thesis
    using e' by (auto simp: CanRetry_def IsFailed_def)
qed

text \<open>A concrete event, used to apply the properties.\<close>

definition example_event :: PublisherEvent where
  "example_event =
     projr (NewOutboxEvent ''e-1'' 0 ''acc-7'' ''Account'' ''MoneyDeposited'' (Inr JNull)
              ''account-events'' ''bank'')"

theorem publisher_event_life_cycle_witness:
  "\<exists>e. run_event [EMarkProcessing, EMarkFailed 10 ''x'', EResetForRetry, EMarkFailed 20 ''y'']
         (WithMaxRetries 2 example_event) = Some e \<and> pe_RetryCount e = 2 \<and> IsDeadLetter e"
proof -
  have "NewOutboxEvent ''e-1'' 0 ''acc-7'' ''Account'' ''MoneyDeposited'' (Inr JNull)
          ''account-events'' ''bank'' = Inr example_event"
    by (simp add: NewOutboxEvent_def example_event_def)
  from publisher_event_life_cycle [OF this, of 2
      "[EMarkProcessing, EMarkFailed 10 ''x'', EResetForRetry, EMarkFailed 20 ''y'']"]
  obtain e where "run_event [EMarkProcessing, EMarkFailed 10 ''x'', EResetForRetry, EMarkFailed 20 ''y'']
         (WithMaxRetries 2 example_event) = Some e" "pe_RetryCount e = 2"
    by auto
  then show ?thesis
    by (auto simp: MarkProcessing_def MarkFailed_def ResetForRetry_def WithMaxRetries_def example_event_def
        NewOutboxEvent_def IsDeadLetter_def go_shl1_def)
qed

theorem backoff_witness:
  "\<exists>e' next. MarkFailed 100 ''x'' example_event = Some e' \<and> pe_NextRetryAt e' = Some next \<and>
     next = 100 + 2 * minute"
  using backoff_is_exponential_up_to_27 [of example_event 1 100 "''x''"]
  by (auto simp: example_event_def NewOutboxEvent_def)

end
