(* ===== verification/Go_Float.thy ===== *)
theory Go_Float
  imports Go_Prelude Complex_Main "HOL-Library.Log_Nat"
begin

text \<open>
  Go's \<open>float64\<close>: a finite value is the rational number it denotes, and an arithmetic operation is
  the exact one followed by \<open>fl\<close>, which rounds to 53 significant bits, to the nearest value and to
  the even one in a tie. The exponent is not bounded: the programs that use this theory compute with seconds,
  loads and rates, far from the overflow threshold and from the subnormal numbers. \<open>go_int64\<close> is
  the conversion to \<open>int64\<close>, which truncates; out of range it gives the least \<open>int64\<close>, as amd64 does.
  The lemmas give the relative error of a rounding and the values it keeps.
\<close>

type_synonym float64 = rat

definition round_half_even :: "rat \<Rightarrow> int" where
  "round_half_even y =
     (let f = \<lfloor>y\<rfloor>; r = y - of_int f in
      if r < 1 / 2 then f else if r > 1 / 2 then f + 1 else if even f then f else f + 1)"

definition fl_exp :: "rat \<Rightarrow> int" where
  "fl_exp x =
     (let (p, q) = quotient_of x; e = bitlen p - bitlen q - 53
      in if x < 2 ^ 53 * 2 powi e then e else e + 1)"

definition fl :: "rat \<Rightarrow> float64" where
  "fl x =
     (if x = 0 then 0
      else let e = fl_exp \<bar>x\<bar> in of_int (round_half_even (x / 2 powi e)) * 2 powi e)"

definition go_trunc :: "rat \<Rightarrow> int" where
  "go_trunc x = (if x < 0 then - \<lfloor>- x\<rfloor> else \<lfloor>x\<rfloor>)"

definition go_int64 :: "float64 \<Rightarrow> int" where
  "go_int64 x = (if int64_range (go_trunc x) then go_trunc x else - (2 ^ 63))"

text \<open>\<open>Duration.Seconds\<close> adds the whole seconds and the remaining nanoseconds as floats.\<close>

definition Seconds :: "duration \<Rightarrow> float64" where
  "Seconds d =
     fl (fl (of_int (d sdiv second)) + fl (fl (of_int (d smod second)) / 1000000000))"

section \<open>Rounding\<close>

lemma round_half_even_error: "\<bar>of_int (round_half_even y) - y\<bar> \<le> 1 / 2"
proof -
  have "of_int \<lfloor>y\<rfloor> \<le> y" "y < of_int \<lfloor>y\<rfloor> + 1"
    by linarith+
  then show ?thesis
    unfolding round_half_even_def Let_def by (simp add: abs_le_iff)
qed

lemma round_half_even_int [simp]: "round_half_even (of_int n) = n"
  by (simp add: round_half_even_def)

lemma bitlen_powi_bounds:
  assumes "0 < n"
  shows "2 powi (bitlen n - 1) \<le> rat_of_int n" "rat_of_int n < 2 powi bitlen n"
proof -
  have pos: "1 \<le> bitlen n"
    using assms bitlen_eq_zero_iff [of n] bitlen_nonneg [of n] by linarith
  have "rat_of_int (2 ^ nat (bitlen n - 1)) \<le> of_int n" "of_int n < rat_of_int (2 ^ nat (bitlen n))"
    using bitlen_bounds [OF assms] by (simp_all only: of_int_le_iff of_int_less_iff)
  then show "2 powi (bitlen n - 1) \<le> rat_of_int n" "rat_of_int n < 2 powi bitlen n"
    using pos by (simp_all add: power_int_nonneg_exp)
qed

lemma fl_exp_bounds:
  assumes "0 < x"
  shows "2 ^ 52 * 2 powi fl_exp x \<le> x" "x < 2 ^ 53 * 2 powi fl_exp x"
proof -
  obtain p q where pq: "quotient_of x = (p, q)" by fastforce
  then have q: "0 < q" and x: "x = of_int p / of_int q"
    by (simp_all add: quotient_of_denom_pos quotient_of_div)
  with assms have p: "0 < p" by (simp add: zero_less_divide_iff)
  let ?e = "bitlen p - bitlen q - 53"
  have lo: "2 powi (bitlen p - 1) / 2 powi bitlen q \<le> x"
    unfolding x using bitlen_powi_bounds [OF p] bitlen_powi_bounds [OF q] q p
    by (intro frac_le) simp_all
  have hi: "x < 2 powi bitlen p / 2 powi (bitlen q - 1)"
    unfolding x using bitlen_powi_bounds [OF p] bitlen_powi_bounds [OF q] q p
    by (intro frac_less) simp_all
  have "2 powi (bitlen p - 1) / 2 powi bitlen q = 2 ^ 52 * (2::rat) powi ?e"
  proof -
    have "bitlen p - 1 - bitlen q = 52 + ?e" by simp
    then show ?thesis by (metis power_int_add power_int_diff power_int_numeral zero_neq_numeral)
  qed
  moreover have "2 powi bitlen p / 2 powi (bitlen q - 1) = 2 ^ 54 * (2::rat) powi ?e"
  proof -
    have "bitlen p - (bitlen q - 1) = 54 + ?e" by simp
    then show ?thesis by (metis power_int_add power_int_diff power_int_numeral zero_neq_numeral)
  qed
  moreover have "(2::rat) powi (?e + 1) = 2 * 2 powi ?e"
    by (subst power_int_add) (simp, simp only: power_int_1_right mult.commute)
  moreover have "fl_exp x = (if x < 2 ^ 53 * 2 powi ?e then ?e else ?e + 1)"
    by (simp add: fl_exp_def pq)
  ultimately show "2 ^ 52 * 2 powi fl_exp x \<le> x" "x < 2 ^ 53 * 2 powi fl_exp x"
    using lo hi by (simp_all split: if_splits)
qed

lemma fl_0 [simp]: "fl 0 = 0"
  by (simp add: fl_def)

lemma fl_error: "\<bar>fl x - x\<bar> \<le> \<bar>x\<bar> / 2 ^ 53"
proof (cases "x = 0")
  case False
  define u :: rat where "u = 2 powi fl_exp \<bar>x\<bar>"
  have u: "0 < u" by (simp add: u_def)
  have flx: "fl x = of_int (round_half_even (x / u)) * u"
    using False by (simp add: fl_def u_def Let_def)
  have "fl x - x = (of_int (round_half_even (x / u)) - x / u) * u"
    using u by (simp add: flx algebra_simps)
  then have "\<bar>fl x - x\<bar> = \<bar>of_int (round_half_even (x / u)) - x / u\<bar> * u"
    using u by (simp add: abs_mult)
  also have "\<dots> \<le> 1 / 2 * u"
    using round_half_even_error u by (intro mult_right_mono) simp_all
  also have "\<dots> \<le> \<bar>x\<bar> / 2 ^ 53"
    using fl_exp_bounds(1) [of "\<bar>x\<bar>"] False by (simp add: u_def)
  finally show ?thesis .
qed simp

lemma fl_nonneg: "0 \<le> x \<Longrightarrow> 0 \<le> fl x"
  using fl_error [of x] by (simp add: abs_if split: if_splits)

lemma fl_upper: "0 \<le> x \<Longrightarrow> fl x \<le> x * (1 + 1 / 2 ^ 53)"
  using fl_error [of x] by (simp add: algebra_simps abs_if split: if_splits)

lemma fl_lower: "0 \<le> x \<Longrightarrow> x * (1 - 1 / 2 ^ 53) \<le> fl x"
  using fl_error [of x] by (simp add: algebra_simps abs_if split: if_splits)

lemma fl_of_int:
  assumes "\<bar>n\<bar> \<le> 2 ^ 52"
  shows "fl (of_int n) = of_int n"
proof (cases "n = 0")
  case False
  let ?e = "fl_exp \<bar>rat_of_int n\<bar>"
  have "2 ^ 52 * 2 powi ?e \<le> \<bar>rat_of_int n\<bar>"
    using False by (intro fl_exp_bounds(1)) simp
  also have "\<dots> = rat_of_int \<bar>n\<bar>" by simp
  also have "\<dots> \<le> rat_of_int (2 ^ 52)" using assms by (simp only: of_int_le_iff)
  finally have "(2::rat) powi ?e \<le> 2 powi 0" by simp
  then have e: "?e \<le> 0"
    by (rule power_int_le_imp_le_exp [rotated]) simp_all
  then have "rat_of_int n / 2 powi ?e = of_int (n * 2 ^ nat (- ?e))"
    by (simp add: power_int_def field_simps)
  then have "of_int (round_half_even (rat_of_int n / 2 powi ?e)) * 2 powi ?e = rat_of_int n"
    by (simp only: round_half_even_int) (use e in \<open>simp add: power_int_def field_simps\<close>)
  then show ?thesis
    using False by (simp add: fl_def Let_def)
qed simp

lemma go_trunc_nonneg: "0 \<le> x \<Longrightarrow> go_trunc x = \<lfloor>x\<rfloor>"
  by (simp add: go_trunc_def)

section \<open>Order and representable values\<close>

lemma round_half_even_mono: "x \<le> y \<Longrightarrow> round_half_even x \<le> round_half_even y"
proof -
  assume xy: "x \<le> y"
  then have "\<lfloor>x\<rfloor> \<le> \<lfloor>y\<rfloor>" by (rule floor_mono)
  moreover have "\<lfloor>z\<rfloor> \<le> round_half_even z" "round_half_even z \<le> \<lfloor>z\<rfloor> + 1" for z
    by (simp_all add: round_half_even_def Let_def)
  ultimately have "round_half_even x \<le> round_half_even y" if "\<lfloor>x\<rfloor> < \<lfloor>y\<rfloor>"
    using that by (meson add1_zle_eq order_trans)
  moreover have "round_half_even x \<le> round_half_even y" if "\<lfloor>x\<rfloor> = \<lfloor>y\<rfloor>"
    using that xy by (simp add: round_half_even_def Let_def)
  ultimately show ?thesis using \<open>\<lfloor>x\<rfloor> \<le> \<lfloor>y\<rfloor>\<close> by linarith
qed

lemma powi2_le_iff: "(2::rat) powi a \<le> 2 powi b \<longleftrightarrow> a \<le> b"
  using power_int_strict_increasing [of b a "2::rat"] power_int_increasing [of a b "2::rat"] by (auto simp: not_le [symmetric])

lemma fl_pos: "0 < x \<Longrightarrow> fl x = of_int (round_half_even (x / 2 powi fl_exp x)) * 2 powi fl_exp x"
  by (simp add: fl_def Let_def)

lemma fl_neg: "x < 0 \<Longrightarrow> fl x < 0"
proof -
  assume "x < 0"
  then have "\<bar>x\<bar> / 2 ^ 53 < - x" by simp
  with fl_error [of x] show ?thesis by linarith
qed

lemma fl_mono:
  assumes "0 \<le> x" "x \<le> y"
  shows "fl x \<le> fl y"
proof (cases "x = 0")
  case True
  then show ?thesis using fl_nonneg assms by simp
next
  case False
  with assms have pos: "0 < x" "0 < y" by simp_all
  let ?e = "fl_exp x" and ?d = "fl_exp y"
  have "2 ^ 52 * 2 powi ?e < (2 ^ 53 * 2 powi ?d :: rat)"
    using fl_exp_bounds(1) [OF pos(1)] fl_exp_bounds(2) [OF pos(2)] assms(2) by linarith
  then have "(2::rat) powi ?e < 2 powi (?d + 1)" by (simp add: power_int_add)
  then have "?e < ?d + 1" using powi2_le_iff [of "?d + 1" ?e] by linarith
  then consider "?e = ?d" | "?e + 1 \<le> ?d" by linarith
  then show ?thesis
  proof cases
    case 1
    have "x / 2 powi ?e \<le> y / 2 powi ?e" using assms by (intro divide_right_mono) simp_all
    then have "round_half_even (x / 2 powi ?e) \<le> round_half_even (y / 2 powi ?e)" by (rule round_half_even_mono)
    then show ?thesis
      unfolding fl_pos [OF pos(1)] fl_pos [OF pos(2)] 1 [symmetric] by (intro mult_right_mono) simp_all
  next
    case 2
    have "x / 2 powi ?e \<le> of_int (2 ^ 53)" "of_int (2 ^ 52) \<le> y / 2 powi ?d"
      using fl_exp_bounds(2) [OF pos(1)] fl_exp_bounds(1) [OF pos(2)] by (simp_all add: field_simps)
    then have "round_half_even (x / 2 powi ?e) \<le> 2 ^ 53" "2 ^ 52 \<le> round_half_even (y / 2 powi ?d)"
      using round_half_even_mono round_half_even_int by metis+
    then have "rat_of_int (round_half_even (x / 2 powi ?e)) \<le> 2 ^ 53" "2 ^ 52 \<le> rat_of_int (round_half_even (y / 2 powi ?d))"
      by (simp_all add: of_int_le_numeral_power_cancel_iff numeral_power_le_of_int_cancel_iff)
    then have "fl x \<le> 2 ^ 53 * 2 powi ?e" "2 ^ 52 * 2 powi ?d \<le> fl y"
      unfolding fl_pos [OF pos(1)] fl_pos [OF pos(2)] by (simp_all add: mult_right_mono)
    moreover have "2 ^ 53 * 2 powi ?e = (2 ^ 52 * 2 powi (?e + 1) :: rat)" by (simp add: power_int_add)
    moreover have "(2 ^ 52 :: rat) * 2 powi (?e + 1) \<le> 2 ^ 52 * 2 powi ?d"
      using 2 by (intro mult_left_mono power_int_increasing) simp_all
    ultimately show ?thesis by order
  qed
qed

text \<open>Rounding keeps the values that it gives.\<close>

lemma fl_repr:
  assumes "0 < n" "n \<le> 2 ^ 53"
  shows "fl (of_int n * 2 powi e) = of_int n * 2 powi e"
proof -
  define x :: rat where "x = of_int n * 2 powi e"
  have x: "0 < x" using assms by (simp add: x_def)
  let ?E = "fl_exp x"
  have "rat_of_int n \<le> of_int (2 ^ 53)" using assms(2) by (simp only: of_int_le_iff)
  then have "x \<le> 2 ^ 53 * 2 powi e" by (simp add: x_def mult_right_mono)
  with fl_exp_bounds(1) [OF x] have "(2::rat) powi ?E \<le> 2 powi (e + 1)"
    by (simp add: power_int_add)
  then have "?E \<le> e + 1" by (simp only: powi2_le_iff)
  then consider "?E \<le> e" | "?E = e + 1" by linarith
  then have "\<exists>k. x / 2 powi ?E = of_int k"
  proof cases
    case 1
    then have "x / 2 powi ?E = of_int (n * 2 ^ nat (e - ?E))"
      by (simp add: x_def power_int_diff [symmetric] power_int_nonneg_exp flip: times_divide_eq_right)
    then show ?thesis ..
  next
    case 2
    then have "2 ^ 53 * 2 powi e \<le> rat_of_int n * 2 powi e"
      using fl_exp_bounds(1) [OF x] by (simp add: x_def power_int_add)
    then have "rat_of_int (2 ^ 53) \<le> of_int n" by simp
    then have "2 ^ 53 \<le> n" by (simp only: of_int_le_iff)
    with assms have "n = 2 ^ 53" by simp
    then have "x / 2 powi ?E = of_int (2 ^ 52)" using 2 by (simp add: x_def power_int_add)
    then show ?thesis ..
  qed
  then have "of_int (round_half_even (x / 2 powi ?E)) = x / 2 powi ?E" by auto
  then show ?thesis unfolding x_def [symmetric] fl_pos [OF x] by simp
qed

lemma fl_idem: "0 \<le> x \<Longrightarrow> fl (fl x) = fl x"
proof (cases "x = 0")
  case False
  assume "0 \<le> x"
  with False have x: "0 < x" by simp
  let ?n = "round_half_even (x / 2 powi fl_exp x)"
  have "of_int (2 ^ 52) \<le> x / 2 powi fl_exp x" "x / 2 powi fl_exp x \<le> of_int (2 ^ 53)"
    using fl_exp_bounds [OF x] by (simp_all add: field_simps)
  then have "2 ^ 52 \<le> ?n" "?n \<le> 2 ^ 53"
    using round_half_even_mono round_half_even_int by metis+
  then show ?thesis
    using fl_repr [of ?n "fl_exp x"] unfolding fl_pos [OF x] by simp
qed simp

end
