(* ===== verification/Rate_Limiter.thy ===== *)
theory Rate_Limiter
  imports Go_Float Step_Systems
begin

text \<open>
  The rate limiter, \<open>distributed-rate-limiter/services/rate-limiter/main.go\<close>: token buckets,
  sliding windows, adaptive limiters, circuit breakers, the load shedder, the controller that holds
  them and its HTTP handlers. A method's readings of the clock and its random draws are its
  arguments. Counters and token counts are \<open>int64\<close> with \<open>wrap64\<close>, float computations round with
  \<open>fl\<close>; \<open>None\<close> is a run-time panic (an index out of range or a division by zero). The mutexes make each method
  one atomic step. Prometheus gauges and the histogram are not part of the state, its three
  counters are.
\<close>

section \<open>Data\<close>

record RateLimitRequest =
  rq_Key :: string
  rq_Tokens :: int
  rq_Metadata :: jobject

record RateLimitResponse =
  rr_Allowed :: bool
  rr_Remaining :: int
  rr_ResetTime :: int
  rr_RetryAfter :: int

record RateLimitPolicy =
  rp_Name :: string
  rp_Algorithm :: string
  rp_Limit :: int
  rp_Window :: string
  rp_Burst :: int
  rp_Dimensions :: "string list"
  rp_Priority :: string
  rp_Metadata :: "(string, string) gomap"

record TokenBucket =
  tb_Capacity :: int
  tb_Tokens :: int
  tb_RefillRate :: int
  tb_LastRefill :: gotime

record SlidingWindow =
  sw_WindowSize :: duration
  sw_Buckets :: "int list"
  sw_BucketSize :: duration
  sw_StartTime :: gotime

record AdaptiveRateLimiter =
  al_BaseRate :: int
  al_CurrentRate :: int
  al_LoadThreshold :: float64
  al_AdjustmentRate :: float64

record CircuitBreaker =
  cb_State :: string
  cb_FailureCount :: int
  cb_SuccessCount :: int
  cb_FailureThreshold :: int
  cb_RecoveryThreshold :: int
  cb_Timeout :: duration
  cb_LastFailure :: gotime

record PriorityLevel =
  pl_Level :: int
  pl_Multiplier :: float64

record LoadShedder =
  ls_LoadThreshold :: float64
  ls_SheddingRate :: float64
  ls_PriorityLevels :: "PriorityLevel list"

record SystemLoad =
  sl_CPU :: float64
  sl_Memory :: float64
  sl_Network :: float64
  sl_Overall :: float64

record RateLimiterController =
  rl_mode :: string
  rl_nodeID :: string
  rl_policies :: "(string, RateLimitPolicy) gomap"
  rl_tokenBuckets :: "(string, TokenBucket) gomap"
  rl_slidingWindows :: "(string, SlidingWindow) gomap"
  rl_adaptiveLimiters :: "(string, AdaptiveRateLimiter) gomap"
  rl_circuitBreakers :: "(string, CircuitBreaker) gomap"
  rl_loadShedder :: LoadShedder
  rl_systemLoad :: SystemLoad
  rl_requestsTotal :: nat
  rl_requestsAllowed :: nat
  rl_requestsDenied :: nat

section \<open>Utility functions\<close>

definition rl_min :: "int \<Rightarrow> int \<Rightarrow> int" where
  "rl_min a b = (if a < b then a else b)"

definition rl_max :: "int \<Rightarrow> int \<Rightarrow> int" where
  "rl_max a b = (if a > b then a else b)"

section \<open>The controller's initial state\<close>

definition sample_policies :: "RateLimitPolicy list" where
  "sample_policies =
     [\<lparr>rp_Name = ''api-rate-limit'', rp_Algorithm = ''token_bucket'', rp_Limit = 1000,
       rp_Window = ''1m'', rp_Burst = 100, rp_Dimensions = [''user_id'', ''api_key''],
       rp_Priority = ''high'', rp_Metadata = []\<rparr>,
      \<lparr>rp_Name = ''user-rate-limit'', rp_Algorithm = ''sliding_window'', rp_Limit = 500,
       rp_Window = ''1m'', rp_Burst = 50, rp_Dimensions = [''user_id''],
       rp_Priority = ''medium'', rp_Metadata = []\<rparr>,
      \<lparr>rp_Name = ''ip-rate-limit'', rp_Algorithm = ''adaptive'', rp_Limit = 100,
       rp_Window = ''1m'', rp_Burst = 20, rp_Dimensions = [''ip_address''],
       rp_Priority = ''low'', rp_Metadata = []\<rparr>]"

definition initializeSamplePolicies :: "RateLimiterController \<Rightarrow> RateLimiterController" where
  "initializeSamplePolicies rlc =
     fold (\<lambda>policy r. r\<lparr>rl_policies := go_set (rp_Name policy) policy (rl_policies r)\<rparr>)
       sample_policies rlc"

definition NewRateLimiterController :: "string \<Rightarrow> string \<Rightarrow> RateLimiterController" where
  "NewRateLimiterController mode nodeID =
     initializeSamplePolicies
       \<lparr>rl_mode = (if mode \<noteq> '''' then mode else ''controller''),
        rl_nodeID = (if nodeID \<noteq> '''' then nodeID else ''controller''),
        rl_policies = [], rl_tokenBuckets = [], rl_slidingWindows = [], rl_adaptiveLimiters = [],
        rl_circuitBreakers = [],
        rl_loadShedder =
          \<lparr>ls_LoadThreshold = fl (8 / 10), ls_SheddingRate = fl (1 / 10),
           ls_PriorityLevels =
             [\<lparr>pl_Level = 1, pl_Multiplier = fl (1 / 10)\<rparr>,
              \<lparr>pl_Level = 2, pl_Multiplier = fl (5 / 10)\<rparr>,
              \<lparr>pl_Level = 3, pl_Multiplier = 1\<rparr>]\<rparr>,
        rl_systemLoad = \<lparr>sl_CPU = 0, sl_Memory = 0, sl_Network = 0, sl_Overall = 0\<rparr>,
        rl_requestsTotal = 0, rl_requestsAllowed = 0, rl_requestsDenied = 0\<rparr>"

section \<open>Token buckets\<close>

definition refill_tokens :: "duration \<Rightarrow> int \<Rightarrow> int" where
  "refill_tokens d rate = go_int64 (fl (Seconds d * fl (of_int rate)))"

definition TokenBucket_Allow :: "gotime \<Rightarrow> int \<Rightarrow> TokenBucket \<Rightarrow> bool \<times> TokenBucket" where
  "TokenBucket_Allow now tokens tb0 =
     (let newTokens = refill_tokens (time_Sub now (tb_LastRefill tb0)) (tb_RefillRate tb0);
          tb = tb0\<lparr>tb_Tokens := rl_min (tb_Capacity tb0) (wrap64 (tb_Tokens tb0 + newTokens)),
                   tb_LastRefill := now\<rparr>
      in if tb_Tokens tb \<ge> tokens
         then (True, tb\<lparr>tb_Tokens := wrap64 (tb_Tokens tb - tokens)\<rparr>)
         else (False, tb))"

definition TokenBucket_GetRemaining :: "TokenBucket \<Rightarrow> int" where
  "TokenBucket_GetRemaining tb = tb_Tokens tb"

section \<open>Sliding windows\<close>

definition sw_cleanup :: "SlidingWindow \<Rightarrow> SlidingWindow option" where
  "sw_cleanup sw =
     (case go_quot (sw_WindowSize sw) (sw_BucketSize sw) of
        None \<Rightarrow> None
      | Some bucketsToKeep \<Rightarrow>
          let n = int (length (sw_Buckets sw)) in
          if n > bucketsToKeep
          then if bucketsToKeep < 0 then None
               else Some (sw\<lparr>sw_Buckets := drop (nat (n - bucketsToKeep)) (sw_Buckets sw)\<rparr>)
          else Some sw)"

definition getCurrentBucket :: "gotime \<Rightarrow> SlidingWindow \<Rightarrow> (int \<times> SlidingWindow) option" where
  "getCurrentBucket now sw =
     (case go_quot (time_Sub now (sw_StartTime sw)) (sw_BucketSize sw) of
        None \<Rightarrow> None
      | Some bucketIndex \<Rightarrow>
          Some (bucketIndex,
                sw\<lparr>sw_Buckets := sw_Buckets sw @
                     replicate (nat (bucketIndex + 1 - int (length (sw_Buckets sw)))) 0\<rparr>))"

definition SlidingWindow_Allow :: "gotime \<Rightarrow> int \<Rightarrow> SlidingWindow \<Rightarrow> (bool \<times> SlidingWindow) option" where
  "SlidingWindow_Allow now limit sw0 =
     (case sw_cleanup sw0 of
        None \<Rightarrow> None
      | Some sw \<Rightarrow>
          if fold (\<lambda>count t. wrap64 (t + count)) (sw_Buckets sw) 0 < limit
          then (case getCurrentBucket now sw of
                  None \<Rightarrow> None
                | Some (i, sw1) \<Rightarrow>
                    if i < 0 then None
                    else Some (True, sw1\<lparr>sw_Buckets := (sw_Buckets sw1)
                           [nat i := wrap64 (sw_Buckets sw1 ! nat i + 1)]\<rparr>))
          else Some (False, sw))"

section \<open>Adaptive limiters\<close>

definition UpdateRate :: "float64 \<Rightarrow> AdaptiveRateLimiter \<Rightarrow> AdaptiveRateLimiter" where
  "UpdateRate systemLoad arl =
     (let adjustment = fl (fl (of_int (al_CurrentRate arl)) * al_AdjustmentRate arl)
      in if systemLoad > al_LoadThreshold arl
         then arl\<lparr>al_CurrentRate := rl_max (al_BaseRate arl sdiv 4)
                                      (wrap64 (al_CurrentRate arl - go_int64 adjustment))\<rparr>
         else arl\<lparr>al_CurrentRate := rl_min (wrap64 (al_BaseRate arl * 2))
                                      (wrap64 (al_CurrentRate arl + go_int64 adjustment))\<rparr>)"

definition GetCurrentRate :: "AdaptiveRateLimiter \<Rightarrow> int" where
  "GetCurrentRate arl = al_CurrentRate arl"

section \<open>Circuit breakers\<close>

definition CircuitBreaker_Allow :: "gotime \<Rightarrow> CircuitBreaker \<Rightarrow> bool \<times> CircuitBreaker" where
  "CircuitBreaker_Allow now cb =
     (if cb_State cb = ''closed'' then (True, cb)
      else if cb_State cb = ''open'' then
        (if time_Sub now (cb_LastFailure cb) > cb_Timeout cb
         then (True, cb\<lparr>cb_State := ''half_open''\<rparr>)
         else (False, cb))
      else if cb_State cb = ''half_open'' then (True, cb)
      else (False, cb))"

definition RecordSuccess :: "CircuitBreaker \<Rightarrow> CircuitBreaker" where
  "RecordSuccess cb0 =
     (let cb = cb0\<lparr>cb_SuccessCount := wrap64 (cb_SuccessCount cb0 + 1)\<rparr>
      in if cb_State cb = ''half_open'' \<and> cb_SuccessCount cb \<ge> cb_RecoveryThreshold cb
         then cb\<lparr>cb_State := ''closed'', cb_FailureCount := 0, cb_SuccessCount := 0\<rparr>
         else cb)"

definition RecordFailure :: "gotime \<Rightarrow> CircuitBreaker \<Rightarrow> CircuitBreaker" where
  "RecordFailure now cb0 =
     (let cb = cb0\<lparr>cb_FailureCount := wrap64 (cb_FailureCount cb0 + 1), cb_LastFailure := now\<rparr>
      in if cb_FailureCount cb \<ge> cb_FailureThreshold cb then cb\<lparr>cb_State := ''open''\<rparr> else cb)"

section \<open>Load shedding\<close>

text \<open>\<open>rnd\<close> is the value \<open>random.Float64\<close> draws.\<close>

definition ShouldShed :: "float64 \<Rightarrow> int \<Rightarrow> float64 \<Rightarrow> LoadShedder \<Rightarrow> bool option" where
  "ShouldShed rnd priority systemLoad ls =
     (if systemLoad \<le> ls_LoadThreshold ls then Some False
      else let overload = fl (systemLoad - ls_LoadThreshold ls);
               sheddingProb = fl (overload * ls_SheddingRate ls)
           in if priority < int (length (ls_PriorityLevels ls))
              then if priority < 0 then None
                   else Some (rnd < fl (sheddingProb * pl_Multiplier (ls_PriorityLevels ls ! nat priority)))
              else Some (rnd < sheddingProb))"

section \<open>Background tasks, one tick each\<close>

definition monitorSystemLoad ::
  "float64 \<Rightarrow> float64 \<Rightarrow> float64 \<Rightarrow> RateLimiterController \<Rightarrow> RateLimiterController" where
  "monitorSystemLoad r1 r2 r3 rlc =
     (let cpu = fl (fl (3 / 10) + fl (r1 * fl (4 / 10)));
          memory = fl (fl (4 / 10) + fl (r2 * fl (3 / 10)));
          network = fl (fl (2 / 10) + fl (r3 * fl (3 / 10)))
      in rlc\<lparr>rl_systemLoad := \<lparr>sl_CPU = cpu, sl_Memory = memory, sl_Network = network,
                                sl_Overall = fl (fl (fl (cpu + memory) + network) / 3)\<rparr>\<rparr>)"

definition syncTokenBuckets :: "RateLimiterController \<Rightarrow> (string \<times> TokenBucket \<times> duration) list" where
  "syncTokenBuckets rlc =
     map (\<lambda>(key, bucket). (''bucket:'' @ key, bucket, minute)) (rl_tokenBuckets rlc)"

definition updateAdaptiveRates :: "RateLimiterController \<Rightarrow> RateLimiterController" where
  "updateAdaptiveRates rlc =
     rlc\<lparr>rl_adaptiveLimiters :=
          map (\<lambda>(k, limiter). (k, UpdateRate (sl_Overall (rl_systemLoad rlc)) limiter))
            (rl_adaptiveLimiters rlc)\<rparr>"

section \<open>Handlers\<close>

definition new_bucket :: "gotime \<Rightarrow> TokenBucket" where
  "new_bucket now = \<lparr>tb_Capacity = 1000, tb_Tokens = 1000, tb_RefillRate = 100, tb_LastRefill = now\<rparr>"

text \<open>\<open>now1\<close> is the reading for a new bucket, \<open>now2\<close> the one of \<open>Allow\<close>.\<close>

definition applyRateLimit ::
  "gotime \<Rightarrow> gotime \<Rightarrow> string \<Rightarrow> int \<Rightarrow> RateLimiterController \<Rightarrow> bool \<times> RateLimiterController" where
  "applyRateLimit now1 now2 key tokens rlc =
     (let bucket = (case map_of (rl_tokenBuckets rlc) key of Some b \<Rightarrow> b | None \<Rightarrow> new_bucket now1);
          (allowed, bucket') = TokenBucket_Allow now2 tokens bucket
      in (allowed, rlc\<lparr>rl_tokenBuckets := go_set key bucket' (rl_tokenBuckets rlc)\<rparr>))"

definition rl_getRemaining :: "string \<Rightarrow> RateLimiterController \<Rightarrow> int" where
  "rl_getRemaining key rlc =
     (case map_of (rl_tokenBuckets rlc) key of
        Some bucket \<Rightarrow> TokenBucket_GetRemaining bucket
      | None \<Rightarrow> 0)"

definition getPriority :: "jobject \<Rightarrow> int" where
  "getPriority metadata =
     (case map_of metadata ''priority'' of
        Some (JStr p) \<Rightarrow>
          if p = ''high'' then 0 else if p = ''medium'' then 1 else if p = ''low'' then 2 else 2
      | _ \<Rightarrow> 2)"

datatype RateLimitBody = BodyError goerror | BodyLimit RateLimitResponse | BodyMessage string

text \<open>
  A request's body is what \<open>ShouldBindJSON\<close> makes of it, an error or a request; \<open>now3\<close> is the
  reading for the reset time of the answer.
\<close>

definition checkRateLimit ::
  "float64 \<Rightarrow> gotime \<Rightarrow> gotime \<Rightarrow> gotime \<Rightarrow> goerror + RateLimitRequest \<Rightarrow> RateLimiterController \<Rightarrow>
   (int \<times> RateLimitBody \<times> RateLimiterController) option" where
  "checkRateLimit rnd now1 now2 now3 body rlc0 =
     (case body of
        Inl err \<Rightarrow> Some (400, BodyError err, rlc0)
      | Inr req \<Rightarrow>
          let rlc = rlc0\<lparr>rl_requestsTotal := rl_requestsTotal rlc0 + 1\<rparr>;
              denied = BodyLimit \<lparr>rr_Allowed = False, rr_Remaining = 0,
                                  rr_ResetTime = time_Unix (now3 + minute), rr_RetryAfter = 60\<rparr>
          in case ShouldShed rnd (getPriority (rq_Metadata req)) (sl_Overall (rl_systemLoad rlc))
                    (rl_loadShedder rlc) of
               None \<Rightarrow> None
             | Some True \<Rightarrow>
                 Some (429, denied, rlc\<lparr>rl_requestsDenied := rl_requestsDenied rlc + 1\<rparr>)
             | Some False \<Rightarrow>
                 let (allowed, rlc1) = applyRateLimit now1 now2 (rq_Key req) (rq_Tokens req) rlc in
                 if allowed
                 then Some (200, BodyLimit \<lparr>rr_Allowed = True,
                              rr_Remaining = rl_getRemaining (rq_Key req) rlc1,
                              rr_ResetTime = time_Unix (now3 + minute), rr_RetryAfter = 0\<rparr>,
                            rlc1\<lparr>rl_requestsAllowed := rl_requestsAllowed rlc1 + 1\<rparr>)
                 else Some (429, denied, rlc1\<lparr>rl_requestsDenied := rl_requestsDenied rlc1 + 1\<rparr>))"

definition createPolicy ::
  "goerror + RateLimitPolicy \<Rightarrow> RateLimiterController \<Rightarrow> int \<times> RateLimitBody \<times> RateLimiterController" where
  "createPolicy body rlc =
     (case body of
        Inl err \<Rightarrow> (400, BodyError err, rlc)
      | Inr policy \<Rightarrow>
          (201, BodyMessage ''Policy created successfully'',
           rlc\<lparr>rl_policies := go_set (rp_Name policy) policy (rl_policies rlc)\<rparr>))"

record RateLimitMetrics =
  mt_system_load :: SystemLoad
  mt_policies :: nat
  mt_buckets :: nat
  mt_bucket :: "(string \<times> int \<times> int \<times> int) option"

definition rl_getMetrics :: "string \<Rightarrow> RateLimiterController \<Rightarrow> RateLimitMetrics" where
  "rl_getMetrics key rlc =
     \<lparr>mt_system_load = rl_systemLoad rlc, mt_policies = length (rl_policies rlc),
      mt_buckets = length (rl_tokenBuckets rlc),
      mt_bucket =
        (if key \<noteq> ''''
         then (case map_of (rl_tokenBuckets rlc) key of
                 Some bucket \<Rightarrow>
                   Some (key, TokenBucket_GetRemaining bucket, tb_Capacity bucket, tb_RefillRate bucket)
               | None \<Rightarrow> None)
         else None)\<rparr>"

definition rl_healthCheck :: "gotime \<Rightarrow> RateLimiterController \<Rightarrow> string \<times> string \<times> string \<times> int" where
  "rl_healthCheck now rlc = (''healthy'', rl_mode rlc, rl_nodeID rlc, time_Unix now)"

section \<open>Refilling\<close>

lemma Seconds_bounds:
  assumes "0 \<le> d" "d < 2 ^ 63"
  shows "0 \<le> Seconds d" "Seconds d \<le> of_int d / 1000000000 * (1 + 1 / 2 ^ 53) ^ 2"
proof -
  let ?s = "d div second" and ?n = "d mod second" and ?u = "1 + 1 / 2 ^ 53 :: rat"
  have "?s \<le> 2 ^ 63 div second"
    using assms(2) by (intro zdiv_mono1) simp_all
  then have "0 \<le> ?s" "?s \<le> 2 ^ 52" "0 \<le> ?n" "?n \<le> 2 ^ 52"
    using assms(1) pos_mod_bound [of second d] by (simp_all add: pos_imp_zdiv_nonneg_iff)
  then have fls: "fl (of_int ?s) = of_int ?s" "fl (of_int ?n) = of_int ?n" and nn: "0 \<le> ?s" "0 \<le> ?n"
    by (simp_all add: fl_of_int)
  have sec: "Seconds d = fl (of_int ?s + fl (of_int ?n / 1000000000))"
    using assms(1) fls
    by (simp add: Seconds_def signed_divide_int_def signed_modulo_int_def sgn_if minus_div_mult_eq_mod [symmetric])
  have "0 \<le> rat_of_int ?n / 1000000000"
    using nn by simp
  then have q: "0 \<le> fl (of_int ?n / 1000000000)" "fl (of_int ?n / 1000000000) \<le> of_int ?n / 1000000000 * ?u"
    by (rule fl_nonneg, intro fl_upper)
  show "0 \<le> Seconds d"
    using q nn by (simp add: sec fl_nonneg)
  have "Seconds d \<le> (of_int ?s + fl (of_int ?n / 1000000000)) * ?u"
    unfolding sec using q nn by (intro fl_upper) simp
  also have "\<dots> \<le> (of_int ?s + of_int ?n / 1000000000) * ?u * ?u"
    using q nn by (intro mult_right_mono) (simp_all add: algebra_simps)
  also have "of_int ?s + of_int ?n / 1000000000 = (rat_of_int d / 1000000000)"
  proof -
    have "rat_of_int d = rat_of_int (1000000000 * ?s + ?n)"
      by (simp only: mult_div_mod_eq)
    also have "\<dots> = 1000000000 * rat_of_int ?s + rat_of_int ?n"
      by (simp only: of_int_add of_int_mult of_int_numeral)
    finally show ?thesis by (simp add: add_divide_distrib)
  qed
  finally show "Seconds d \<le> of_int d / 1000000000 * ?u ^ 2"
    by (simp add: power2_eq_square mult.assoc)
qed

lemma refill_product_bounds:
  assumes "0 \<le> d" "d < 2 ^ 63"
  shows "0 \<le> fl (Seconds d * 100)" "fl (Seconds d * 100) \<le> of_int d / 10000000 * (1 + 1 / 2 ^ 51)"
proof -
  let ?u = "1 + 1 / 2 ^ 53 :: rat"
  show "0 \<le> fl (Seconds d * 100)"
    using Seconds_bounds [OF assms] by (simp add: fl_nonneg)
  have "fl (Seconds d * 100) \<le> Seconds d * 100 * ?u"
    using Seconds_bounds [OF assms] by (intro fl_upper) simp
  also have "\<dots> \<le> of_int d / 1000000000 * ?u ^ 2 * 100 * ?u"
    using Seconds_bounds [OF assms] by (intro mult_right_mono) simp_all
  also have "\<dots> = of_int d / 10000000 * ?u ^ 3"
    by (simp add: power2_eq_square power3_eq_cube)
  also have "\<dots> \<le> of_int d / 10000000 * (1 + 1 / 2 ^ 51)"
    using assms(1) by (intro mult_left_mono) (simp_all add: power3_eq_cube)
  finally show "fl (Seconds d * 100) \<le> of_int d / 10000000 * (1 + 1 / 2 ^ 51)" .
qed

lemma refill_tokens_floor:
  assumes "0 \<le> d" "d < 2 ^ 63"
  shows "refill_tokens d 100 = \<lfloor>fl (Seconds d * 100)\<rfloor>" "0 \<le> refill_tokens d 100" "refill_tokens d 100 < 2 ^ 62"
proof -
  let ?y = "fl (Seconds d * 100)"
  have "rat_of_int d \<le> 2 ^ 63"
    using assms(2) of_int_le_iff [of d "2 ^ 63", where ?'a = rat] by simp
  then have "?y < 2 ^ 62"
    using refill_product_bounds(2) [OF assms] by simp
  moreover have y0: "0 \<le> ?y" by (rule refill_product_bounds(1) [OF assms])
  ultimately have "0 \<le> \<lfloor>?y\<rfloor>" "\<lfloor>?y\<rfloor> < 2 ^ 62"
    by (simp_all add: floor_less_iff)
  moreover have "fl (rat_of_int 100) = 100"
    using fl_of_int [of 100] by simp
  ultimately show "refill_tokens d 100 = \<lfloor>?y\<rfloor>" "0 \<le> refill_tokens d 100" "refill_tokens d 100 < 2 ^ 62"
    using y0 by (simp_all add: refill_tokens_def go_int64_def go_trunc_nonneg)
qed

lemma refill_never_early:
  assumes "0 \<le> d" "d \<le> 10 * second"
  shows "refill_tokens d 100 * second \<le> 100 * d"
proof -
  let ?y = "fl (Seconds d * 100)"
  have d: "0 \<le> d" "d < 2 ^ 63" using assms by simp_all
  have dr: "rat_of_int d \<le> 10000000000"
    using assms(2) of_int_le_iff [of d "10000000000", where ?'a = rat] by simp
  have "rat_of_int (refill_tokens d 100) \<le> ?y"
    by (simp add: refill_tokens_floor(1) [OF d])
  also have "\<dots> < (rat_of_int d + 1) / 10000000"
    using refill_product_bounds(2) [OF d] dr by (simp add: field_simps)
  finally have "rat_of_int (refill_tokens d 100 * 10000000) < rat_of_int (d + 1)"
    by (simp add: field_simps)
  then have "refill_tokens d 100 * 10000000 < d + 1"
    by (simp only: of_int_less_iff)
  then show ?thesis by simp
qed

section \<open>Token buckets keep their bounds\<close>

definition bucket_ok :: "gotime \<Rightarrow> TokenBucket \<Rightarrow> bool" where
  "bucket_ok t tb =
     (tb_Capacity tb = 1000 \<and> tb_RefillRate tb = 100 \<and> 0 \<le> tb_Tokens tb \<and> tb_Tokens tb \<le> 1000 \<and>
      tb_LastRefill tb \<le> t)"

lemma TokenBucket_Allow_cases:
  assumes "bucket_ok now tb" "0 \<le> k" "TokenBucket_Allow now k tb = (ok, tb')"
  shows "bucket_ok now tb' \<and> tb_LastRefill tb' = now \<and>
         tb_Tokens tb' + (if ok then k else 0) =
           min 1000 (tb_Tokens tb + refill_tokens (time_Sub now (tb_LastRefill tb)) 100)"
proof -
  let ?n = "refill_tokens (time_Sub now (tb_LastRefill tb)) 100"
  have "0 \<le> time_Sub now (tb_LastRefill tb)" "time_Sub now (tb_LastRefill tb) < 2 ^ 63"
    using assms(1) by (simp_all add: time_Sub_def bucket_ok_def)
  note n = refill_tokens_floor(2,3) [OF this]
  have w: "wrap64 (tb_Tokens tb + ?n) = tb_Tokens tb + ?n"
    using n assms(1) by (intro wrap64_id) (simp add: bucket_ok_def)
  let ?m = "min 1000 (tb_Tokens tb + ?n)"
  define m where "m = ?m"
  have m: "0 \<le> m" "m \<le> 1000" using n assms(1) by (simp_all add: m_def bucket_ok_def)
  have tb': "(ok, tb') = (if k \<le> m then (True, tb\<lparr>tb_Tokens := wrap64 (m - k), tb_LastRefill := now\<rparr>)
                          else (False, tb\<lparr>tb_Tokens := m, tb_LastRefill := now\<rparr>))"
  proof -
    have "rl_min 1000 (wrap64 (tb_Tokens tb + ?n)) = m"
      unfolding w by (simp add: m_def rl_min_def min_def)
    moreover have "tb_Capacity tb = 1000" "tb_RefillRate tb = 100"
      using assms(1) by (simp_all add: bucket_ok_def)
    ultimately have "TokenBucket_Allow now k tb =
        (if k \<le> m then (True, tb\<lparr>tb_Tokens := wrap64 (m - k), tb_LastRefill := now\<rparr>)
         else (False, tb\<lparr>tb_Tokens := m, tb_LastRefill := now\<rparr>))"
      by (simp only: TokenBucket_Allow_def Let_def) simp
    with assms(3) show ?thesis by simp
  qed
  show ?thesis
  proof (cases "k \<le> m")
    case True
    then have "wrap64 (m - k) = m - k"
      using m assms(2) by (intro wrap64_id) simp
    then show ?thesis
      using True tb' m assms(1,2) by (simp add: bucket_ok_def m_def [symmetric])
  next
    case False
    then show ?thesis
      using tb' m assms(1) by (simp add: bucket_ok_def m_def [symmetric])
  qed
qed

lemma TokenBucket_Allow_potential:
  assumes "bucket_ok now tb" "0 \<le> k" "TokenBucket_Allow now k tb = (ok, tb')"
  shows "(tb_Tokens tb' + (if ok then k else 0)) * second
           \<le> tb_Tokens tb * second + 100 * (now - tb_LastRefill tb)"
proof -
  let ?d = "now - tb_LastRefill tb"
  have c: "tb_Tokens tb' + (if ok then k else 0) =
           min 1000 (tb_Tokens tb + refill_tokens (time_Sub now (tb_LastRefill tb)) 100)"
    using TokenBucket_Allow_cases [OF assms] by blast
  have d: "0 \<le> ?d" "0 \<le> tb_Tokens tb" using assms(1) by (simp_all add: bucket_ok_def)
  show ?thesis
  proof (cases "?d \<le> 10 * second")
    case True
    then have "time_Sub now (tb_LastRefill tb) = ?d"
      using d by (simp add: time_Sub_def)
    then show ?thesis
      using refill_never_early [OF d(1) True] by (simp add: c min_def)
  next
    case False
    then show ?thesis
      unfolding c using d by (simp add: min_def)
  qed
qed

section \<open>Sequences of requests\<close>

type_synonym limit_request = "gotime \<times> gotime \<times> string \<times> int"

fun run_limits :: "limit_request list \<Rightarrow> RateLimiterController \<Rightarrow> bool list \<times> RateLimiterController" where
  "run_limits [] rlc = ([], rlc)"
| "run_limits ((now1, now2, key, tokens) # rs) rlc =
     (let (ok, rlc1) = applyRateLimit now1 now2 key tokens rlc; (oks, rlc2) = run_limits rs rlc1
      in (ok # oks, rlc2))"

fun admitted :: "string \<Rightarrow> limit_request list \<Rightarrow> bool list \<Rightarrow> int" where
  "admitted key ((now1, now2, k, tokens) # rs) (ok # oks) =
     (if ok \<and> k = key then tokens else 0) + admitted key rs oks"
| "admitted key _ _ = 0"

fun clock_readings :: "limit_request list \<Rightarrow> gotime list" where
  "clock_readings [] = []"
| "clock_readings ((now1, now2, k, tokens) # rs) = now1 # now2 # clock_readings rs"

definition buckets_ok :: "gotime \<Rightarrow> RateLimiterController \<Rightarrow> bool" where
  "buckets_ok t rlc = list_all (\<lambda>(k, b). bucket_ok t b) (rl_tokenBuckets rlc)"

definition credit :: "string \<Rightarrow> gotime \<Rightarrow> RateLimiterController \<Rightarrow> int" where
  "credit key t rlc =
     (case map_of (rl_tokenBuckets rlc) key of
        None \<Rightarrow> 1000 * second
      | Some b \<Rightarrow> tb_Tokens b * second + 100 * (t - tb_LastRefill b))"

lemma bucket_ok_later: "bucket_ok t b \<Longrightarrow> t \<le> u \<Longrightarrow> bucket_ok u b"
  by (simp add: bucket_ok_def)

lemma buckets_ok_lookup: "buckets_ok t rlc \<Longrightarrow> map_of (rl_tokenBuckets rlc) key = Some b \<Longrightarrow> bucket_ok t b"
  by (auto simp: buckets_ok_def list_all_iff dest: map_of_SomeD)

lemma buckets_ok_set:
  assumes "buckets_ok t rlc" "bucket_ok u b" "t \<le> u"
  shows "buckets_ok u (rlc\<lparr>rl_tokenBuckets := go_set key b (rl_tokenBuckets rlc)\<rparr>)"
proof -
  have "list_all (\<lambda>(k, b). bucket_ok u b) (rl_tokenBuckets rlc)"
    using assms(1,3) by (auto simp: buckets_ok_def elim!: list.pred_mono_strong intro: bucket_ok_later)
  then show ?thesis
    using assms(2) by (simp add: buckets_ok_def list_all_go_set)
qed

lemma applyRateLimit_step:
  assumes "buckets_ok t rlc" "t \<le> now1" "now1 \<le> now2" "0 \<le> k"
    and "applyRateLimit now1 now2 key k rlc = (ok, rlc')"
  shows "buckets_ok now2 rlc'"
    and "credit j now2 rlc' + (if ok \<and> key = j then k else 0) * second
           \<le> credit j t rlc + 100 * (now2 - t)"
proof -
  define b where "b = (case map_of (rl_tokenBuckets rlc) key of Some b \<Rightarrow> b | None \<Rightarrow> new_bucket now1)"
  obtain b' where a: "TokenBucket_Allow now2 k b = (ok, b')"
      and rlc': "rlc' = rlc\<lparr>rl_tokenBuckets := go_set key b' (rl_tokenBuckets rlc)\<rparr>"
    using assms(5) by (simp add: applyRateLimit_def b_def [symmetric] split: prod.splits)
  have b: "bucket_ok now2 b \<and> tb_Tokens b * second + 100 * (now2 - tb_LastRefill b)
             \<le> credit key t rlc + 100 * (now2 - t)"
  proof (cases "map_of (rl_tokenBuckets rlc) key")
    case None
    then show ?thesis
      using assms(2,3) by (simp add: b_def credit_def new_bucket_def bucket_ok_def)
  next
    case (Some b1)
    then show ?thesis
      using bucket_ok_later [OF buckets_ok_lookup [OF assms(1) Some], of now2] assms(2,3)
      by (simp add: b_def credit_def)
  qed
  note b = conjunct1 [OF b] conjunct2 [OF b]
  note c = TokenBucket_Allow_cases [OF b(1) assms(4) a]
  show "buckets_ok now2 rlc'"
    unfolding rlc' using c assms(1-3) by (intro buckets_ok_set [of t]) auto
  show "credit j now2 rlc' + (if ok \<and> key = j then k else 0) * second
           \<le> credit j t rlc + 100 * (now2 - t)"
  proof (cases "key = j")
    case True
    then show ?thesis
      using TokenBucket_Allow_potential [OF b(1) assms(4) a] b(2) c
      by (simp add: credit_def rlc' map_of_go_set algebra_simps split: if_splits)
  next
    case False
    then show ?thesis
      using assms(2,3) by (simp add: credit_def rlc' map_of_go_set split: option.splits)
  qed
qed

lemma admitted_bounded:
  assumes "sorted (t # clock_readings rs @ [u])" "list_all (\<lambda>(_, _, _, k). 0 \<le> k) rs"
    "buckets_ok t rlc"
  shows "admitted key rs (fst (run_limits rs rlc)) * second \<le> credit key t rlc + 100 * (u - t)"
  using assms
proof (induction rs arbitrary: t rlc)
  case Nil
  then show ?case
    by (auto simp: credit_def bucket_ok_def dest: buckets_ok_lookup split: option.splits)
next
  case (Cons r rs)
  obtain now1 now2 k n where r: "r = (now1, now2, k, n)" by (cases r)
  obtain ok rlc1 where s: "applyRateLimit now1 now2 k n rlc = (ok, rlc1)" by fastforce
  have t: "t \<le> now1" "now1 \<le> now2" "0 \<le> n" "sorted (now2 # clock_readings rs @ [u])"
    using Cons.prems by (simp_all add: r)
  note step = applyRateLimit_step [OF Cons.prems(3) t(1-3) s]
  have "admitted key rs (fst (run_limits rs rlc1)) * second \<le> credit key now2 rlc1 + 100 * (u - now2)"
    using Cons.prems(2) t(4) step(1) by (intro Cons.IH) (simp_all add: r)
  moreover have "fst (run_limits (r # rs) rlc) = ok # fst (run_limits rs rlc1)"
    by (simp add: r s split: prod.splits)
  ultimately show ?case
    using step(2) [of key] by (simp add: r algebra_simps)
qed

text \<open>After a request a bucket holds at most its capacity, less what it granted.\<close>

lemma applyRateLimit_capped:
  assumes "buckets_ok t rlc" "t \<le> now1" "now1 \<le> now2" "0 \<le> k"
    and "applyRateLimit now1 now2 key k rlc = (ok, rlc')"
  shows "credit key now2 rlc' + (if ok then k else 0) * second \<le> 1000 * second"
proof -
  define b where "b = (case map_of (rl_tokenBuckets rlc) key of Some b \<Rightarrow> b | None \<Rightarrow> new_bucket now1)"
  obtain b' where a: "TokenBucket_Allow now2 k b = (ok, b')"
      and rlc': "rlc' = rlc\<lparr>rl_tokenBuckets := go_set key b' (rl_tokenBuckets rlc)\<rparr>"
    using assms(5) by (simp add: applyRateLimit_def b_def [symmetric] split: prod.splits)
  have "bucket_ok now2 b"
  proof (cases "map_of (rl_tokenBuckets rlc) key")
    case None
    then show ?thesis using assms(3) by (simp add: b_def new_bucket_def bucket_ok_def)
  next
    case (Some b1)
    then show ?thesis using bucket_ok_later [OF buckets_ok_lookup [OF assms(1) Some], of now2] assms(2,3) by (simp add: b_def)
  qed
  from TokenBucket_Allow_cases [OF this assms(4) a]
  have "tb_LastRefill b' = now2" "tb_Tokens b' + (if ok then k else 0) \<le> 1000" by linarith+
  then show ?thesis by (simp add: credit_def rlc' map_of_go_set)
qed

lemma run_limits_ok:
  assumes "sorted (t # clock_readings rs @ [u])" "list_all (\<lambda>(_, _, _, k). 0 \<le> k) rs" "buckets_ok t rlc"
  shows "buckets_ok u (snd (run_limits rs rlc))"
  using assms
proof (induction rs arbitrary: t rlc)
  case Nil
  then show ?case by (auto simp: buckets_ok_def elim!: list.pred_mono_strong intro: bucket_ok_later)
next
  case (Cons r rs)
  obtain now1 now2 k n where r: "r = (now1, now2, k, n)" by (cases r)
  obtain ok rlc1 where s: "applyRateLimit now1 now2 k n rlc = (ok, rlc1)" by fastforce
  have t: "t \<le> now1" "now1 \<le> now2" "0 \<le> n" "sorted (now2 # clock_readings rs @ [u])"
    using Cons.prems by (simp_all add: r)
  note step = applyRateLimit_step(1) [OF Cons.prems(3) t(1-3) s]
  have "snd (run_limits (r # rs) rlc) = snd (run_limits rs rlc1)" by (simp add: r s split: prod.split)
  then show ?case using Cons.IH [OF t(4) _ step] Cons.prems(2) by simp
qed

text \<open>From any state of the buckets: until the first request for the key its bucket gives nothing, and then it holds at most its capacity.\<close>

lemma admitted_capped:
  assumes "sorted (t # clock_readings rs @ [u])" "list_all (\<lambda>(_, _, _, k). 0 \<le> k) rs" "buckets_ok t rlc"
  shows "admitted key rs (fst (run_limits rs rlc)) * second \<le> 1000 * second + 100 * (u - t)"
  using assms
proof (induction rs arbitrary: t rlc)
  case (Cons r rs)
  obtain now1 now2 k n where r: "r = (now1, now2, k, n)" by (cases r)
  obtain ok rlc1 where s: "applyRateLimit now1 now2 k n rlc = (ok, rlc1)" by fastforce
  have t: "t \<le> now1" "now1 \<le> now2" "0 \<le> n" "sorted (now2 # clock_readings rs @ [u])"
    using Cons.prems by (simp_all add: r)
  have rest: "list_all (\<lambda>(_, _, _, k). 0 \<le> k) rs" using Cons.prems(2) by simp
  note ok = applyRateLimit_step(1) [OF Cons.prems(3) t(1-3) s]
  have f: "fst (run_limits (r # rs) rlc) = ok # fst (run_limits rs rlc1)" by (simp add: r s split: prod.splits)
  show ?case
  proof (cases "k = key")
    case True
    have "admitted key rs (fst (run_limits rs rlc1)) * second \<le> credit key now2 rlc1 + 100 * (u - now2)"
      by (rule admitted_bounded [OF t(4) rest ok])
    moreover have "credit key now2 rlc1 + (if ok then n else 0) * second \<le> 1000 * second"
      using applyRateLimit_capped [OF Cons.prems(3) t(1-3) s] True by simp
    moreover have "admitted key (r # rs) (fst (run_limits (r # rs) rlc)) = (if ok then n else 0) + admitted key rs (fst (run_limits rs rlc1))"
      using True by (simp only: f) (simp add: r)
    ultimately show ?thesis using t by (simp add: algebra_simps split: if_splits)
  next
    case False
    then have "admitted key (r # rs) (fst (run_limits (r # rs) rlc)) = admitted key rs (fst (run_limits rs rlc1))"
      by (simp only: f) (simp add: r)
    then show ?thesis using Cons.IH [OF t(4) rest ok] t by simp
  qed
qed simp

section \<open>The circuit breaker as an automaton\<close>

datatype BreakerEvent = BAllow gotime | BSuccess | BFailure gotime

fun breaker_handle :: "BreakerEvent \<Rightarrow> CircuitBreaker \<Rightarrow> CircuitBreaker" where
  "breaker_handle (BAllow now) cb = snd (CircuitBreaker_Allow now cb)"
| "breaker_handle BSuccess cb = RecordSuccess cb"
| "breaker_handle (BFailure now) cb = RecordFailure now cb"

text \<open>The automaton: which state an event can lead to, and on which condition.\<close>

inductive breaker_edge :: "CircuitBreaker \<Rightarrow> BreakerEvent \<Rightarrow> string \<Rightarrow> string \<Rightarrow> bool" for cb where
  stay: "breaker_edge cb e q q"
| trip: "cb_FailureThreshold cb \<le> wrap64 (cb_FailureCount cb + 1) \<Longrightarrow>
         breaker_edge cb (BFailure now) q ''open''"
| probe: "cb_Timeout cb < time_Sub now (cb_LastFailure cb) \<Longrightarrow>
          breaker_edge cb (BAllow now) ''open'' ''half_open''"
| recover: "cb_RecoveryThreshold cb \<le> wrap64 (cb_SuccessCount cb + 1) \<Longrightarrow>
            breaker_edge cb BSuccess ''half_open'' ''closed''"

definition breaker_inv :: "CircuitBreaker \<Rightarrow> bool" where
  "breaker_inv cb =
     (cb_State cb \<in> {''closed'', ''open'', ''half_open''} \<and> 1 \<le> cb_FailureThreshold cb \<and>
      (cb_State cb = ''closed'' \<longrightarrow> cb_FailureCount cb < cb_FailureThreshold cb))"

lemma breaker_handle_edge:
  "breaker_inv cb \<Longrightarrow> breaker_edge cb e (cb_State cb) (cb_State (breaker_handle e cb))"
  by (cases e)
     (auto simp: CircuitBreaker_Allow_def RecordSuccess_def RecordFailure_def Let_def
           intro: breaker_edge.intros)

lemma breaker_inv_handle: "breaker_inv cb \<Longrightarrow> breaker_inv (breaker_handle e cb)"
  by (cases e)
     (simp_all add: breaker_inv_def CircuitBreaker_Allow_def RecordSuccess_def RecordFailure_def
        Let_def, blast)

interpretation breaker: event_machine breaker_handle breaker_inv
  by unfold_locales (rule breaker_inv_handle)

text \<open>An open breaker stays open, and answers no, until its timeout or the next failure.\<close>

definition holds_open :: "CircuitBreaker \<Rightarrow> BreakerEvent \<Rightarrow> bool" where
  "holds_open cb e =
     (case e of BAllow now \<Rightarrow> time_Sub now (cb_LastFailure cb) \<le> cb_Timeout cb
              | BSuccess \<Rightarrow> True
              | BFailure now \<Rightarrow> False)"

lemma open_run:
  assumes "breaker_inv cb" "cb_State cb = ''open''" "\<And>e. e \<in> set es \<Longrightarrow> holds_open cb e"
  shows "cb_State (fold breaker_handle es cb) = ''open'' \<and>
         cb_LastFailure (fold breaker_handle es cb) = cb_LastFailure cb \<and>
         cb_Timeout (fold breaker_handle es cb) = cb_Timeout cb"
proof (rule breaker.stable_run [OF assms(1)])
  fix e x
  assume "e \<in> set es" "breaker_inv x" and x: "cb_State x = ''open'' \<and> cb_LastFailure x = cb_LastFailure cb \<and>
    cb_Timeout x = cb_Timeout cb"
  then have "holds_open cb e" using assms(3) by blast
  then show "cb_State (breaker_handle e x) = ''open'' \<and>
      cb_LastFailure (breaker_handle e x) = cb_LastFailure cb \<and>
      cb_Timeout (breaker_handle e x) = cb_Timeout cb"
    using x by (cases e) (simp_all add: holds_open_def CircuitBreaker_Allow_def RecordSuccess_def Let_def)
qed (use assms(2) in simp)

section \<open>Adaptive limiters stay in their range\<close>

definition adaptive_ok :: "AdaptiveRateLimiter \<Rightarrow> bool" where
  "adaptive_ok a =
     (0 \<le> al_BaseRate a \<and> al_BaseRate a < 2 ^ 40 \<and> 0 \<le> al_AdjustmentRate a \<and> al_AdjustmentRate a \<le> 1 \<and>
      al_BaseRate a div 4 \<le> al_CurrentRate a \<and> al_CurrentRate a \<le> 2 * al_BaseRate a)"

lemma adjustment_bounds:
  assumes "0 \<le> c" "c < 2 ^ 41" "0 \<le> r" "r \<le> 1"
  shows "0 \<le> go_int64 (fl (fl (of_int c) * r)) \<and> go_int64 (fl (fl (of_int c) * r)) < 2 ^ 42"
proof -
  have c: "fl (of_int c) = of_int c" "rat_of_int c < 2 ^ 41"
    using assms(1,2) of_int_less_iff [of c "2 ^ 41", where ?'a = rat] by (simp_all add: fl_of_int)
  have p: "0 \<le> rat_of_int c * r" "rat_of_int c * r \<le> rat_of_int c"
    using assms by (simp_all add: mult_left_le)
  then have "0 \<le> fl (rat_of_int c * r)" "fl (rat_of_int c * r) < 2 ^ 42"
    using fl_upper [OF p(1)] c(2) by (simp_all add: fl_nonneg)
  then have "0 \<le> \<lfloor>fl (rat_of_int c * r)\<rfloor>" "\<lfloor>fl (rat_of_int c * r)\<rfloor> < 2 ^ 42"
    by (simp_all add: floor_less_iff)
  then show ?thesis
    using \<open>0 \<le> fl (rat_of_int c * r)\<close> c(1) by (simp add: go_int64_def go_trunc_nonneg)
qed

lemma UpdateRate_ok:
  assumes "adaptive_ok a"
  shows "adaptive_ok (UpdateRate load a)"
proof -
  let ?b = "al_BaseRate a" and ?c = "al_CurrentRate a"
  let ?d = "go_int64 (fl (fl (of_int ?c) * al_AdjustmentRate a))"
  have a: "0 \<le> ?b" "?b < 2 ^ 40" "?b div 4 \<le> ?c" "?c \<le> 2 * ?b" "0 \<le> ?c"
    using assms pos_imp_zdiv_nonneg_iff [of 4 ?b] by (auto simp: adaptive_ok_def)
  have d: "0 \<le> ?d" "?d < 2 ^ 42"
    using adjustment_bounds [of ?c "al_AdjustmentRate a"] a assms by (simp_all add: adaptive_ok_def)
  have w: "wrap64 (?c - ?d) = ?c - ?d" "wrap64 (?c + ?d) = ?c + ?d" "wrap64 (?b * 2) = ?b * 2"
    using a d by (simp_all add: wrap64_id)
  have s: "?b sdiv 4 = ?b div 4" "?b div 4 \<le> 2 * ?b"
    using a by (simp_all add: signed_divide_int_def sgn_if)
  show ?thesis
    using assms a d s
    by (simp add: adaptive_ok_def UpdateRate_def Let_def w rl_min_def rl_max_def)
qed

section \<open>The sliding window forgets\<close>

text \<open>
  After two windows the list is longer than twice the number \<open>k\<close> of buckets to keep, and the
  cleanup, which drops buckets by position, moves what it keeps to the front, from where the next
  cleanup drops it: only the latest request is still counted.
\<close>

definition forgetful :: "int \<Rightarrow> SlidingWindow \<Rightarrow> bool" where
  "forgetful k sw =
     (0 < sw_BucketSize sw \<and> 0 \<le> sw_WindowSize sw \<and> sw_WindowSize sw < 2 ^ 63 \<and>
      sw_WindowSize sw div sw_BucketSize sw = k \<and> 1 \<le> k \<and>
      (\<exists>xs n. int (length xs) \<le> k \<and> 2 * k \<le> int (length xs + n) + 1 \<and>
              sw_Buckets sw = xs @ replicate n 0 @ [1]))"

lemma go_quot_pos:
  assumes "0 \<le> a" "a < 2 ^ 63" "0 < b"
  shows "go_quot a b = Some (a div b)" "0 \<le> a div b" "a div b < 2 ^ 63"
proof -
  have "a div b \<le> a" using assms int_div_less_self [of a b] by (cases "a = 0"; cases "b = 1") auto
  then show q: "0 \<le> a div b" "a div b < 2 ^ 63"
    using assms by (simp_all add: pos_imp_zdiv_nonneg_iff)
  then show "go_quot a b = Some (a div b)"
    using assms by (simp add: go_quot_def signed_divide_int_def sgn_if)
qed

lemma funpow_wrap64_0: "(wrap64 ^^ n) 0 = 0"
  by (induction n) simp_all

lemma cleanup_forgets:
  assumes "forgetful k sw"
  shows "sw_cleanup sw = Some (sw\<lparr>sw_Buckets := replicate (nat (k - 1)) 0 @ [1]\<rparr>)"
proof -
  obtain xs n where xs: "int (length xs) \<le> k" "2 * k \<le> int (length xs + n) + 1"
      "sw_Buckets sw = xs @ replicate n 0 @ [1]"
    and w: "0 < sw_BucketSize sw" "0 \<le> sw_WindowSize sw" "sw_WindowSize sw < 2 ^ 63"
      "sw_WindowSize sw div sw_BucketSize sw = k" "1 \<le> k"
    using assms by (auto simp: forgetful_def)
  let ?m = "nat (int (length (sw_Buckets sw)) - k)"
  have q: "go_quot (sw_WindowSize sw) (sw_BucketSize sw) = Some k"
    using go_quot_pos(1) [OF w(2,3,1)] w(4) by simp
  have "?m = length xs + (n + 1 - nat k)" "n + 1 - nat k \<le> n"
    using xs w(5) by (simp_all add: nat_diff_distrib')
  then have "drop ?m (sw_Buckets sw) = replicate (n - (n + 1 - nat k)) 0 @ [1]"
    by (simp add: xs(3))
  moreover have "n - (n + 1 - nat k) = nat (k - 1)"
    using xs w(5) by linarith
  ultimately show ?thesis
    using q xs w(5) by (simp add: sw_cleanup_def Let_def)
qed

text \<open>The bucket index of an instant.\<close>

definition bucket_index :: "SlidingWindow \<Rightarrow> gotime \<Rightarrow> int" where
  "bucket_index sw now = (now - sw_StartTime sw) div sw_BucketSize sw"

definition late_for :: "int \<Rightarrow> SlidingWindow \<Rightarrow> gotime \<Rightarrow> bool" where
  "late_for k sw now =
     (sw_StartTime sw \<le> now \<and> now - sw_StartTime sw < 2 ^ 63 \<and> 2 * k \<le> bucket_index sw now + 1)"

lemma getCurrentBucket_late:
  assumes "late_for k sw now" "0 < sw_BucketSize sw"
  shows "getCurrentBucket now sw =
           Some (bucket_index sw now,
                 sw\<lparr>sw_Buckets := sw_Buckets sw @
                     replicate (nat (bucket_index sw now + 1 - int (length (sw_Buckets sw)))) 0\<rparr>)"
proof -
  have "time_Sub now (sw_StartTime sw) = now - sw_StartTime sw"
    using assms(1) by (simp add: late_for_def time_Sub_def)
  then show ?thesis
    using go_quot_pos(1) [of "now - sw_StartTime sw" "sw_BucketSize sw"] assms
    by (simp add: getCurrentBucket_def late_for_def bucket_index_def)
qed

lemma admitted_is_forgetful:
  assumes "late_for k sw now" "int (length (sw_Buckets sw)) \<le> k" "1 \<le> k"
    and w: "0 < sw_BucketSize sw" "0 \<le> sw_WindowSize sw" "sw_WindowSize sw < 2 ^ 63"
      "sw_WindowSize sw div sw_BucketSize sw = k"
  shows "\<exists>sw1. getCurrentBucket now sw = Some (bucket_index sw now, sw1) \<and> 0 \<le> bucket_index sw now \<and>
           forgetful k (sw1\<lparr>sw_Buckets := (sw_Buckets sw1)[nat (bucket_index sw now) :=
              wrap64 (sw_Buckets sw1 ! nat (bucket_index sw now) + 1)]\<rparr>)"
proof -
  let ?i = "bucket_index sw now" and ?l = "length (sw_Buckets sw)"
  define n where "n = nat (?i - int ?l)"
  have i: "2 * k \<le> ?i + 1" using assms(1) by (simp add: late_for_def)
  then have n: "nat (?i + 1 - int ?l) = Suc n" "nat ?i = ?l + n"
    using assms(2,3) by (simp_all add: n_def)
  let ?bs = "sw_Buckets sw @ replicate (Suc n) 0"
  have rep: "replicate (Suc n) (0::int) = replicate n 0 @ [0]"
    by (simp add: replicate_append_same)
  have "?bs[nat ?i := wrap64 (?bs ! nat ?i + 1)] = sw_Buckets sw @ replicate n 0 @ [1]"
    unfolding rep n(2) by (simp add: nth_append list_update_append)
  moreover have "2 * k \<le> int (?l + n) + 1"
    using i n(2) assms(3) by linarith
  ultimately show ?thesis
    using getCurrentBucket_late [OF assms(1) w(1)] w assms(2,3) i n(1)
    by (auto simp: forgetful_def)
qed

lemma forgetful_admits:
  assumes "forgetful k sw" "late_for k sw now" "2 \<le> limit"
  shows "\<exists>sw'. SlidingWindow_Allow now limit sw = Some (True, sw') \<and> forgetful k sw' \<and>
           sw_StartTime sw' = sw_StartTime sw \<and> sw_BucketSize sw' = sw_BucketSize sw"
proof -
  let ?sw = "sw\<lparr>sw_Buckets := replicate (nat (k - 1)) 0 @ [1]\<rparr>"
  have "late_for k ?sw now" "int (length (sw_Buckets ?sw)) \<le> k" "1 \<le> k" "0 < sw_BucketSize ?sw"
      "0 \<le> sw_WindowSize ?sw" "sw_WindowSize ?sw < 2 ^ 63"
      "sw_WindowSize ?sw div sw_BucketSize ?sw = k"
    using assms(1,2) by (auto simp: forgetful_def late_for_def bucket_index_def)
  from admitted_is_forgetful [OF this] getCurrentBucket_late [OF this(1,4)] cleanup_forgets [OF assms(1)] assms(3)
  show ?thesis
    by (auto simp: SlidingWindow_Allow_def funpow_wrap64_0)
qed

fun run_window :: "gotime list \<Rightarrow> int \<Rightarrow> SlidingWindow \<Rightarrow> (bool list \<times> SlidingWindow) option" where
  "run_window [] limit sw = Some ([], sw)"
| "run_window (now # nows) limit sw =
     (case SlidingWindow_Allow now limit sw of
        None \<Rightarrow> None
      | Some (ok, sw1) \<Rightarrow>
          (case run_window nows limit sw1 of
             None \<Rightarrow> None
           | Some (oks, sw2) \<Rightarrow> Some (ok # oks, sw2)))"

lemma forgetful_run:
  assumes "forgetful k sw" "list_all (late_for k sw) nows" "2 \<le> limit"
  shows "\<exists>sw'. run_window nows limit sw = Some (replicate (length nows) True, sw')"
  using assms(1,2)
proof (induction nows arbitrary: sw)
  case (Cons now nows)
  then obtain sw1 where sw1: "SlidingWindow_Allow now limit sw = Some (True, sw1)" "forgetful k sw1"
      "sw_StartTime sw1 = sw_StartTime sw" "sw_BucketSize sw1 = sw_BucketSize sw"
    using forgetful_admits [of k sw now limit] assms(3) by auto
  then have "list_all (late_for k sw1) nows"
    using Cons.prems(2) by (simp add: late_for_def bucket_index_def list_all_iff)
  with Cons.IH [OF sw1(2)] sw1(1) show ?case by auto
qed simp

lemma sw_cleanup_keeps:
  assumes "0 < sw_BucketSize sw" "0 \<le> sw_WindowSize sw" "sw_WindowSize sw < 2 ^ 63"
    "sw_WindowSize sw div sw_BucketSize sw = k" "1 \<le> k"
  shows "\<exists>sw0. sw_cleanup sw = Some sw0 \<and> int (length (sw_Buckets sw0)) \<le> k \<and>
           sw_StartTime sw0 = sw_StartTime sw \<and> sw_BucketSize sw0 = sw_BucketSize sw \<and>
           sw_WindowSize sw0 = sw_WindowSize sw"
  using go_quot_pos(1) [OF assms(2,3,1)] assms(4,5)
  by (cases "k < int (length (sw_Buckets sw))") (simp_all add: sw_cleanup_def)

section \<open>The check endpoint\<close>

definition shedder_ok :: "RateLimiterController \<Rightarrow> bool" where
  "shedder_ok rlc = (3 \<le> length (ls_PriorityLevels (rl_loadShedder rlc)))"

lemma getPriority_range: "getPriority m \<in> {0, 1, 2}"
  by (auto simp: getPriority_def split: option.splits json.splits)

lemma ShouldShed_total:
  assumes "shedder_ok rlc"
  shows "\<exists>b. ShouldShed rnd (getPriority m) load (rl_loadShedder rlc) = Some b"
  using getPriority_range [of m] assms by (auto simp: ShouldShed_def shedder_ok_def Let_def)

lemma applyRateLimit_fields:
  assumes "applyRateLimit now1 now2 key k rlc = (ok, rlc')"
  shows "rl_requestsTotal rlc' = rl_requestsTotal rlc \<and> rl_requestsAllowed rlc' = rl_requestsAllowed rlc \<and>
         rl_requestsDenied rlc' = rl_requestsDenied rlc \<and> rl_loadShedder rlc' = rl_loadShedder rlc"
  using assms by (auto simp: applyRateLimit_def Let_def split: prod.splits)

definition balanced :: "RateLimiterController \<Rightarrow> bool" where
  "balanced rlc = (rl_requestsTotal rlc = rl_requestsAllowed rlc + rl_requestsDenied rlc)"

section \<open>Properties\<close>

text \<open>C7: However clients interleave their requests on the keys of a controller, as long as requests are served one after the
  other and none asks for a negative number of tokens, what one key is granted between any two instants, whatever was requested before, is
  at most the capacity of 1000 tokens plus 100 tokens for each second between them; the floating-point
  rounding of the refill never grants a token early.\<close>

theorem token_bucket_admission_bound:
  assumes "sorted (clock_readings before @ t0 # clock_readings rs @ [t1])"
    and "list_all (\<lambda>(_, _, _, tokens). 0 \<le> tokens) (before @ rs)"
  shows "admitted key rs (fst (run_limits rs (snd (run_limits before (NewRateLimiterController mode nodeID))))) * second
           \<le> 1000 * second + 100 * (t1 - t0)"
proof -
  let ?c = "NewRateLimiterController mode nodeID"
  obtain t where t: "sorted (t # clock_readings before @ [t0])"
    using assms(1) by (cases "clock_readings before") (auto simp: sorted_append)
  have "rl_tokenBuckets ?c = []"
    by (simp add: NewRateLimiterController_def initializeSamplePolicies_def sample_policies_def)
  then have "buckets_ok t ?c" by (simp add: buckets_ok_def)
  from run_limits_ok [OF t _ this] assms(2) have "buckets_ok t0 (snd (run_limits before ?c))" by simp
  from admitted_capped [OF _ _ this] assms show ?thesis by (simp add: sorted_append)
qed

theorem token_bucket_admission_witness:
  "admitted ''k'' [(5, 7, ''j'', 900), (7, 9, ''k'', 600)]
     (fst (run_limits [(5, 7, ''j'', 900), (7, 9, ''k'', 600)]
        (snd (run_limits [(0, 5, ''k'', 600)] (NewRateLimiterController ''edge'' ''n1''))))) * second \<le> 1000 * second + 100 * (10 - 5)"
  by (rule token_bucket_admission_bound) simp_all

text \<open>A circuit breaker that starts closed with a positive threshold is, after any sequence of calls, in one of its
  three states, closed only while its failures are below the threshold, and every further call
  follows the automaton: it opens only by a failure that reaches the threshold, probes only by a
  call after the timeout, and closes only by a success that reaches the recovery threshold.\<close>

theorem breaker_follows_automaton:
  assumes "cb_State cb0 = ''closed''" and "cb_FailureCount cb0 = 0" and "1 \<le> cb_FailureThreshold cb0"
    and "cb = fold breaker_handle es cb0"
  shows "cb_State cb \<in> {''closed'', ''open'', ''half_open''} \<and>
         (cb_State cb = ''closed'' \<longrightarrow> cb_FailureCount cb < cb_FailureThreshold cb) \<and>
         breaker_edge cb e (cb_State cb) (cb_State (breaker_handle e cb))"
proof -
  have "breaker_inv cb"
    unfolding assms(4) by (rule breaker.minv_run) (use assms in \<open>simp add: breaker_inv_def\<close>)
  with breaker_handle_edge [OF this] show ?thesis
    by (simp add: breaker_inv_def)
qed

definition example_breaker :: CircuitBreaker where
  "example_breaker =
     \<lparr>cb_State = ''closed'', cb_FailureCount = 0, cb_SuccessCount = 0, cb_FailureThreshold = 2,
      cb_RecoveryThreshold = 1, cb_Timeout = 10, cb_LastFailure = 0\<rparr>"

theorem breaker_follows_automaton_witness:
  "cb_State (fold breaker_handle [BFailure 1, BFailure 2] example_breaker) = ''open'' \<and>
   breaker_edge (fold breaker_handle [BFailure 1, BFailure 2] example_breaker) (BAllow 20)
     ''open'' ''half_open''"
  using breaker_follows_automaton [of example_breaker
      "fold breaker_handle [BFailure 1, BFailure 2] example_breaker" "[BFailure 1, BFailure 2]" "BAllow 20"]
  by (simp add: example_breaker_def RecordFailure_def CircuitBreaker_Allow_def time_Sub_def)

text \<open>An open circuit breaker answers no to every call up to its timeout, whatever successes are
  recorded in between, and lets the first call after the timeout through.\<close>

theorem open_breaker_rejects_until_timeout:
  assumes "breaker_inv cb" and "cb_State cb = ''open''" and "list_all (holds_open cb) es"
  shows "fst (CircuitBreaker_Allow now (fold breaker_handle es cb)) \<longleftrightarrow>
           cb_Timeout cb < time_Sub now (cb_LastFailure cb)"
  using open_run [OF assms(1,2), of es] assms(3) by (simp add: CircuitBreaker_Allow_def list_all_iff)

theorem open_breaker_witness:
  "\<not> fst (CircuitBreaker_Allow 9 (fold breaker_handle [BAllow 5, BSuccess]
      (example_breaker\<lparr>cb_State := ''open''\<rparr>)))"
  using open_breaker_rejects_until_timeout [of "example_breaker\<lparr>cb_State := ''open''\<rparr>" "[BAllow 5, BSuccess]" 9]
  by (simp add: breaker_inv_def example_breaker_def holds_open_def time_Sub_def)

text \<open>A sliding window with \<open>k\<close> buckets stops limiting after two windows: once a call at a bucket
  index of at least 2k - 1 has been admitted, every later call is admitted, for any limit of at
  least 2 and however many calls there are.\<close>

theorem sliding_window_stops_limiting:
  assumes "0 < sw_BucketSize sw" and "0 \<le> sw_WindowSize sw" and "sw_WindowSize sw < 2 ^ 63"
    and "sw_WindowSize sw div sw_BucketSize sw = k" and "1 \<le> k"
    and "SlidingWindow_Allow now limit sw = Some (True, sw1)" and "late_for k sw now" and "2 \<le> limit"
    and "list_all (late_for k sw) nows"
  shows "\<exists>sw'. run_window nows limit sw1 = Some (replicate (length nows) True, sw')"
proof -
  obtain sw0 where sw0: "sw_cleanup sw = Some sw0" "int (length (sw_Buckets sw0)) \<le> k"
      "sw_StartTime sw0 = sw_StartTime sw" "sw_BucketSize sw0 = sw_BucketSize sw"
      "sw_WindowSize sw0 = sw_WindowSize sw"
    using sw_cleanup_keeps [OF assms(1-5)] by blast
  have late: "late_for k sw0 n = late_for k sw n" for n
    by (simp add: late_for_def bucket_index_def sw0)
  have "forgetful k sw1 \<and> sw_StartTime sw1 = sw_StartTime sw \<and> sw_BucketSize sw1 = sw_BucketSize sw"
    using admitted_is_forgetful [of k sw0 now] getCurrentBucket_late [of k sw0 now] assms sw0 late
    by (auto simp: SlidingWindow_Allow_def split: if_splits)
  moreover from this have "list_all (late_for k sw1) nows"
    using assms(9) by (simp add: late_for_def bucket_index_def list_all_iff)
  ultimately show ?thesis
    using forgetful_run assms(8) by blast
qed

definition example_window :: SlidingWindow where
  "example_window = \<lparr>sw_WindowSize = 20, sw_Buckets = [], sw_BucketSize = 10, sw_StartTime = 0\<rparr>"

theorem sliding_window_witness:
  "\<exists>sw'. run_window [36, 37, 38] 2 (snd (the (SlidingWindow_Allow 35 2 example_window)))
           = Some ([True, True, True], sw')"
  using sliding_window_stops_limiting [of example_window 2 35 2
      "snd (the (SlidingWindow_Allow 35 2 example_window))" "[36, 37, 38]"]
  by (simp add: example_window_def SlidingWindow_Allow_def sw_cleanup_def getCurrentBucket_def go_quot_def
      time_Sub_def late_for_def bucket_index_def signed_divide_int_def sgn_if numeral_eq_Suc)

text \<open>The check endpoint of a controller with its three priority levels never panics; it answers
  400 exactly when the request cannot be decoded, without counting it, otherwise 200 or 429
  with the matching body, and the numbers of allowed and denied requests add up to the total.\<close>

theorem check_endpoint_total:
  assumes "shedder_ok rlc" and "balanced rlc"
  shows "\<exists>code answer rlc'. checkRateLimit rnd now1 now2 now3 body rlc = Some (code, answer, rlc') \<and>
           shedder_ok rlc' \<and> balanced rlc' \<and>
           (case body of
              Inl err \<Rightarrow> code = 400 \<and> answer = BodyError err \<and> rlc' = rlc
            | Inr req \<Rightarrow> rl_requestsTotal rlc' = rl_requestsTotal rlc + 1 \<and>
                (\<exists>r. answer = BodyLimit r \<and> code = (if rr_Allowed r then 200 else 429) \<and>
                     rr_RetryAfter r = (if rr_Allowed r then 0 else 60)))"
proof (cases body)
  case (Inr req)
  let ?rlc = "rlc\<lparr>rl_requestsTotal := rl_requestsTotal rlc + 1\<rparr>"
  obtain b where b: "ShouldShed rnd (getPriority (rq_Metadata req)) (sl_Overall (rl_systemLoad ?rlc))
      (rl_loadShedder ?rlc) = Some b"
    using ShouldShed_total [OF assms(1), of rnd "rq_Metadata req" "sl_Overall (rl_systemLoad rlc)"] by auto
  obtain ok rlc1 where a: "applyRateLimit now1 now2 (rq_Key req) (rq_Tokens req) ?rlc = (ok, rlc1)"
    by fastforce
  from applyRateLimit_fields [OF a] assms b a Inr show ?thesis
    by (cases b; cases ok) (simp_all add: checkRateLimit_def Let_def balanced_def shedder_ok_def)
qed (use assms in \<open>simp add: checkRateLimit_def\<close>)

theorem check_endpoint_witness:
  "\<exists>answer rlc'. checkRateLimit 0 0 0 0
     (Inr \<lparr>rq_Key = ''k'', rq_Tokens = 1001, rq_Metadata = []\<rparr>) (NewRateLimiterController ''edge'' ''n1'')
       = Some (429, answer, rlc')"
proof -
  let ?c = "NewRateLimiterController ''edge'' ''n1''" and ?b = "Inr \<lparr>rq_Key = ''k'', rq_Tokens = 1001, rq_Metadata = []\<rparr>"
  have "shedder_ok ?c" "balanced ?c"
    by (simp_all add: shedder_ok_def balanced_def NewRateLimiterController_def initializeSamplePolicies_def
        sample_policies_def)
  from check_endpoint_total [OF this, of 0 0 0 0 ?b]
  obtain code answer rlc' where "checkRateLimit 0 0 0 0 ?b ?c = Some (code, answer, rlc')"
    by auto
  moreover from this have "code = 429"
    by (simp add: checkRateLimit_def NewRateLimiterController_def initializeSamplePolicies_def sample_policies_def
        ShouldShed_def applyRateLimit_def TokenBucket_Allow_def new_bucket_def time_Sub_def refill_tokens_def
        Seconds_def rl_min_def go_int64_def go_trunc_def fl_nonneg)
  ultimately show ?thesis by blast
qed

end
