(* ===== verification/Raft_Config.thy ===== *)
theory Raft_Config
  imports Go_Env
begin

text \<open>
  The configuration of a Raft node, \<open>raft-consensus/services/raft-node/internal/config/config.go\<close>:
  loading from the environment, validation, and the peers. The lemmas show that a configuration that
  \<open>Load\<close> returns is well formed and contains the node itself, that every other node of the cluster is a
  peer, and that the text form of a cluster loads back.
\<close>

record RaftConfig =
  rc_NodeID :: string
  rc_NodeAddress :: string
  rc_HTTPPort :: int
  rc_GRPCPort :: int
  rc_MetricsPort :: int
  rc_ClusterNodes :: "(string, string) gomap"
  rc_ElectionTimeout :: duration
  rc_HeartbeatInterval :: duration
  rc_SnapshotInterval :: int
  rc_LogCompactionThreshold :: int
  rc_DataDir :: string
  rc_WALDir :: string
  rc_PrometheusEnabled :: bool
  rc_JaegerEndpoint :: string
  rc_LogLevel :: string

definition config_validate :: "RaftConfig \<Rightarrow> goerror option" where
  "config_validate c =
     (if rc_NodeID c = '''' then Some ''node ID cannot be empty''
      else if rc_NodeAddress c = '''' then Some ''node address cannot be empty''
      else if length (rc_ClusterNodes c) = 0 then Some ''cluster nodes cannot be empty''
      else if map_of (rc_ClusterNodes c) (rc_NodeID c) = None
      then Some (''current node ID '' @ rc_NodeID c @ '' not found in cluster nodes'')
      else if rc_ElectionTimeout c \<le> rc_HeartbeatInterval c
      then Some ''election timeout must be greater than heartbeat interval''
      else None)"

definition env_config :: "(string \<Rightarrow> duration option) \<Rightarrow> environ \<Rightarrow> RaftConfig" where
  "env_config ParseDuration env =
     \<lparr>rc_NodeID = getEnv env ''NODE_ID'' ''node1'',
      rc_NodeAddress = getEnv env ''NODE_ADDRESS'' ''localhost:9090'',
      rc_HTTPPort = getEnvInt env ''HTTP_PORT'' 8080,
      rc_GRPCPort = getEnvInt env ''GRPC_PORT'' 9090,
      rc_MetricsPort = getEnvInt env ''METRICS_PORT'' 7070,
      rc_ClusterNodes = [],
      rc_ElectionTimeout = getEnvDuration ParseDuration env ''ELECTION_TIMEOUT'' 150000000,
      rc_HeartbeatInterval = getEnvDuration ParseDuration env ''HEARTBEAT_INTERVAL'' 50000000,
      rc_SnapshotInterval = getEnvInt env ''SNAPSHOT_INTERVAL'' 1000,
      rc_LogCompactionThreshold = getEnvInt env ''LOG_COMPACTION_THRESHOLD'' 10000,
      rc_DataDir = getEnv env ''DATA_DIR'' ''./data'',
      rc_WALDir = getEnv env ''WAL_DIR'' ''./wal'',
      rc_PrometheusEnabled = getEnvBool env ''PROMETHEUS_ENABLED'' True,
      rc_JaegerEndpoint = getEnv env ''JAEGER_ENDPOINT'' '''',
      rc_LogLevel = getEnv env ''LOG_LEVEL'' ''info''\<rparr>"

definition raft_Load :: "(string \<Rightarrow> duration option) \<Rightarrow> environ \<Rightarrow> goerror + RaftConfig" where
  "raft_Load ParseDuration env =
     (let cfg = env_config ParseDuration env;
          clusterNodes = getEnv env ''CLUSTER_NODES'' ''''
      in if clusterNodes = '''' then Inl ''CLUSTER_NODES environment variable is required''
         else case parse_cluster_nodes (strings_Split CHR '','' clusterNodes) [] of
                Inl err \<Rightarrow> Inl err
              | Inr nodes \<Rightarrow>
                  let cfg1 = cfg\<lparr>rc_ClusterNodes := nodes\<rparr>
                  in case config_validate cfg1 of
                       Some err \<Rightarrow> Inl (''configuration validation failed: '' @ err)
                     | None \<Rightarrow> Inr cfg1)"

definition GetPeers :: "RaftConfig \<Rightarrow> (string, string) gomap" where
  "GetPeers c =
     fold (\<lambda>(nodeID, address) peers.
             if nodeID \<noteq> rc_NodeID c then go_set nodeID address peers else peers)
       (rc_ClusterNodes c) []"

section \<open>Loading\<close>

lemma raft_Load_ok:
  assumes "raft_Load pd env = Inr cfg"
  shows "config_validate cfg = None" "go_wf (rc_ClusterNodes cfg)"
  using assms
  by (auto simp: raft_Load_def Let_def dest: parse_cluster_nodes_wf split: if_splits sum.splits option.splits)

lemma config_validate_None:
  "config_validate c = None \<longleftrightarrow>
     rc_NodeID c \<noteq> '''' \<and> rc_NodeAddress c \<noteq> '''' \<and> rc_NodeID c \<in> fst ` set (rc_ClusterNodes c) \<and>
     rc_HeartbeatInterval c < rc_ElectionTimeout c"
  by (auto simp: config_validate_def map_of_eq_None_iff not_le)

section \<open>Peers\<close>

lemma GetPeers_filter:
  assumes "go_wf (rc_ClusterNodes c)"
  shows "GetPeers c = filter (\<lambda>(k, _). k \<noteq> rc_NodeID c) (rc_ClusterNodes c)"
proof -
  have "fold (\<lambda>(k, a) ps. if k \<noteq> rc_NodeID c then go_set k a ps else ps) xs m =
        fold (\<lambda>(k, a). go_set k a) (filter (\<lambda>(k, _). k \<noteq> rc_NodeID c) xs) m" for xs m :: "(string, string) gomap"
    by (induction xs arbitrary: m) (auto split: prod.splits)
  moreover have "distinct (map fst (filter (\<lambda>(k, _). k \<noteq> rc_NodeID c) (rc_ClusterNodes c)))"
    using assms by (simp add: go_wf_def distinct_map_filter)
  ultimately show ?thesis
    using fold_go_set_fresh [of "[]" _ "\<lambda>k v. v"] by (simp add: GetPeers_def case_prod_unfold)
qed

lemma remove_key_length:
  "distinct (map fst m) \<Longrightarrow> k \<in> fst ` set m \<Longrightarrow> Suc (length (filter (\<lambda>(j, _). j \<noteq> k) m)) = length m"
proof (induction m)
  case (Cons x m)
  show ?case
  proof (cases "fst x = k")
    case True
    with Cons.prems(1) have "filter (\<lambda>(j, _). j \<noteq> k) m = m"
      by (intro filter_True) (auto simp: image_iff)
    with True show ?thesis by (simp add: case_prod_unfold)
  next
    case False
    with Cons show ?thesis by (auto simp: case_prod_unfold)
  qed
qed simp

lemma GetPeers_length:
  assumes "config_validate c = None" "go_wf (rc_ClusterNodes c)"
  shows "length (GetPeers c) + 1 = length (rc_ClusterNodes c)"
  using remove_key_length [of "rc_ClusterNodes c" "rc_NodeID c"] assms
  by (simp add: GetPeers_filter config_validate_None go_wf_def)

section \<open>Properties\<close>

text \<open>A cluster written as \<open>id:host:port\<close> entries with commas loads back, whenever the fields
  contain neither separator, the IDs are distinct and the node is one of them: the configuration has exactly these nodes, and its
  peers are all of them but the node itself, in the same order.\<close>

theorem raft_cluster_roundtrip:
  assumes "env ''CLUSTER_NODES'' = strings_Join CHR '','' (map show_node ns)"
    and "list_all (\<lambda>(i, h, p). plain i \<and> plain h \<and> plain p) ns" and "distinct (map fst ns)"
    and "getEnv env ''NODE_ID'' ''node1'' \<in> set (map fst ns)"
    and "getEnvDuration pd env ''HEARTBEAT_INTERVAL'' 50000000
           < getEnvDuration pd env ''ELECTION_TIMEOUT'' 150000000"
  shows "\<exists>cfg. raft_Load pd env = Inr cfg \<and>
           rc_ClusterNodes cfg = map (\<lambda>(i, h, p). (i, h @ '':'' @ p)) ns \<and>
           GetPeers cfg = filter (\<lambda>(i, _). i \<noteq> getEnv env ''NODE_ID'' ''node1'') (rc_ClusterNodes cfg)"
proof -
  let ?nodes = "map (\<lambda>(i, h, p). (i, h @ '':'' @ p)) ns"
  have ne: "ns \<noteq> []" using assms(4) by auto
  have commas: "\<forall>x \<in> set (map show_node ns). CHR '','' \<notin> set x"
    using assms(2) by (auto simp: list_all_iff plain_def)
  have split: "strings_Split CHR '','' (env ''CLUSTER_NODES'') = map show_node ns"
    unfolding assms(1) using ne commas by (intro Split_Join) simp_all
  have set: "env ''CLUSTER_NODES'' \<noteq> ''''"
  proof -
    obtain i h p ns' where "ns = (i, h, p) # ns'" using ne by (metis list.exhaust prod_cases3)
    then show ?thesis unfolding assms(1) by (cases ns') simp_all
  qed
  have keys: "map fst ?nodes = map fst ns" by (simp add: case_prod_unfold comp_def)
  have parse: "parse_cluster_nodes (map show_node ns) [] = Inr ?nodes"
    using parse_show_nodes [OF assms(2), of "[]"] assms(3) by simp
  have id: "getEnv env ''NODE_ID'' ''node1'' \<noteq> ''''" "getEnv env ''NODE_ADDRESS'' ''localhost:9090'' \<noteq> ''''"
    by (simp_all add: getEnv_def)
  have mem: "getEnv env ''NODE_ID'' ''node1'' \<in> fst ` set ?nodes"
    using assms(4) keys by (metis list.set_map)
  let ?cfg = "(env_config pd env)\<lparr>rc_ClusterNodes := ?nodes\<rparr>"
  have "config_validate ?cfg = None"
    using id mem assms(5) by (simp add: config_validate_None env_config_def)
  then have "raft_Load pd env = Inr ?cfg"
    using set split parse by (simp add: raft_Load_def getEnv_def [of env "''CLUSTER_NODES''"] Let_def)
  moreover have "GetPeers ?cfg = filter (\<lambda>(i, _). i \<noteq> getEnv env ''NODE_ID'' ''node1'') ?nodes"
  proof -
    have "go_wf ?nodes" unfolding go_wf_def keys by (rule assms(3))
    then show ?thesis by (subst GetPeers_filter) (simp_all add: env_config_def)
  qed
  ultimately show ?thesis by simp
qed

definition example_environ :: environ where
  "example_environ name =
     (if name = ''NODE_ID'' then ''n2''
      else if name = ''CLUSTER_NODES'' then ''n1:h1:1,n2:h2:2'' else '''')"

theorem raft_cluster_roundtrip_witness:
  "\<exists>cfg. raft_Load (\<lambda>_. None) example_environ = Inr cfg \<and> GetPeers cfg = [(''n1'', ''h1:1'')]"
proof -
  have "\<exists>cfg. raft_Load (\<lambda>_. None) example_environ = Inr cfg \<and>
      rc_ClusterNodes cfg = map (\<lambda>(i, h, p). (i, h @ '':'' @ p)) [(''n1'', ''h1'', ''1''), (''n2'', ''h2'', ''2'')] \<and>
      GetPeers cfg = filter (\<lambda>(i, _). i \<noteq> getEnv example_environ ''NODE_ID'' ''node1'') (rc_ClusterNodes cfg)"
    by (rule raft_cluster_roundtrip) (simp_all add: example_environ_def plain_def getEnv_def getEnvDuration_def)
  then show ?thesis
    by (auto simp: getEnv_def example_environ_def)
qed

end
