(* ===== verification/Raft_Node.thy ===== *)
theory Raft_Node
  imports Raft_Config Step_Systems
begin

text \<open>
  The Raft node, \<open>raft-consensus/services/raft-node/internal/raft/node.go\<close>, and the HTTP handlers of \<open>main.go\<close>. Each section of
  code under the mutex is one function on the node. A function that starts goroutines returns them;
  \<open>raft_step\<close> lets the iterations of the main loop, the client operations and the sections of the running
  goroutines follow each other in any order, and keeps the votes that peers have granted. What the random generator draws is an
  argument: \<open>r\<close> for the timeout, \<open>requestVote\<close> for the answers of the peers. \<open>None\<close> is a run-time panic.
  As it is written the main loop panics at once (\<open>raft_run_panics\<close>), because the heartbeat timer is \<open>nil\<close>; the runs below
  start with any two timers, and take no iteration of the loop while one of them is \<open>nil\<close>.

  The lemmas show the invariant of a node along every run, that only a strict majority makes a leader, that
  a leader never steps down, and what the client operations do.
\<close>

section \<open>Data\<close>

datatype RaftState = Follower | Candidate | Leader

definition State_String :: "RaftState \<Rightarrow> string" where
  "State_String s =
     (case s of Follower \<Rightarrow> ''Follower'' | Candidate \<Rightarrow> ''Candidate'' | Leader \<Rightarrow> ''Leader'')"

record LogEntry =
  le_Term :: int
  le_Index :: int
  le_Command :: string
  le_Data :: string

record NodeState =
  ns_State :: RaftState
  ns_Term :: int
  ns_LeaderID :: string
  ns_CommitIndex :: int
  ns_LogLength :: int

record Peer =
  peer_ID :: string
  peer_Address :: string

text \<open>A timer pointer is \<open>None\<close> while it is \<open>nil\<close>; \<open>rn_stopCh\<close> says whether the channel is closed.\<close>

datatype Timer = Armed duration | Stopped

record RaftNode =
  rn_config :: RaftConfig
  rn_currentTerm :: int
  rn_votedFor :: string
  rn_log :: "LogEntry list"
  rn_state :: RaftState
  rn_leaderID :: string
  rn_commitIndex :: int
  rn_lastApplied :: int
  rn_nextIndex :: "(string, int) gomap"
  rn_matchIndex :: "(string, int) gomap"
  rn_stateMachine :: "(string, string) gomap"
  rn_electionTimer :: "Timer option"
  rn_heartbeatTimer :: "Timer option"
  rn_stopCh :: bool
  rn_peers :: "(string, Peer) gomap"

text \<open>
  A goroutine of the node: an election that has not read the term yet, an election that waits for the votes
  with the term it read, or a round of heartbeats.
\<close>

datatype Goroutine = GElection | GVotes int int | GHeartbeats

section \<open>Construction\<close>

definition loadState :: "RaftNode \<Rightarrow> RaftNode" where
  "loadState n = n\<lparr>rn_currentTerm := 0, rn_votedFor := '''', rn_log := []\<rparr>"

definition saveState :: "RaftNode \<Rightarrow> RaftNode" where
  "saveState n = n"

definition NewNode :: "RaftConfig \<Rightarrow> RaftNode" where
  "NewNode cfg =
     loadState
       \<lparr>rn_config = cfg, rn_currentTerm = 0, rn_votedFor = '''', rn_log = [], rn_state = Follower,
        rn_leaderID = '''', rn_commitIndex = 0, rn_lastApplied = 0, rn_nextIndex = [],
        rn_matchIndex = [], rn_stateMachine = [], rn_electionTimer = None, rn_heartbeatTimer = None,
        rn_stopCh = False,
        rn_peers = fold (\<lambda>(nodeID, address). go_set nodeID \<lparr>peer_ID = nodeID, peer_Address = address\<rparr>)
                     (GetPeers cfg) []\<rparr>"

section \<open>Timers\<close>

definition resetElectionTimer :: "int \<Rightarrow> RaftNode \<Rightarrow> RaftNode option" where
  "resetElectionTimer r n =
     (let t = rc_ElectionTimeout (rn_config n) in
      if t \<le> 0 then None else Some (n\<lparr>rn_electionTimer := Some (Armed (wrap64 (t + r)))\<rparr>))"

definition resetHeartbeatTimer :: "RaftNode \<Rightarrow> RaftNode" where
  "resetHeartbeatTimer n = n\<lparr>rn_heartbeatTimer := Some (Armed (rc_HeartbeatInterval (rn_config n)))\<rparr>"

definition handleElectionTimeout :: "int \<Rightarrow> RaftNode \<Rightarrow> (RaftNode \<times> Goroutine list) option" where
  "handleElectionTimeout r n =
     (if rn_state n = Leader then Some (n, [])
      else let n1 = n\<lparr>rn_state := Candidate, rn_currentTerm := wrap64 (rn_currentTerm n + 1),
                      rn_votedFor := rc_NodeID (rn_config n), rn_leaderID := ''''\<rparr>
           in case resetElectionTimer r (saveState n1) of
                None \<Rightarrow> None
              | Some n2 \<Rightarrow> Some (n2, [GElection]))"

definition handleHeartbeatTimeout :: "RaftNode \<Rightarrow> RaftNode \<times> Goroutine list" where
  "handleHeartbeatTimeout n =
     (if rn_state n \<noteq> Leader then (n, []) else (resetHeartbeatTimer n, [GHeartbeats]))"

text \<open>
  \<open>run_select\<close> is the \<open>select\<close> of the main loop: it evaluates the channels of both timers before it
  waits, so a timer that is still \<open>nil\<close> is dereferenced. \<open>event\<close> says which channel is ready.
\<close>

datatype RunEvent = RunStop | RunElection int | RunHeartbeat

definition run_select :: "RunEvent \<Rightarrow> RaftNode \<Rightarrow> (RaftNode \<times> Goroutine list) option" where
  "run_select event n =
     (if rn_electionTimer n = None \<or> rn_heartbeatTimer n = None then None
      else case event of
             RunStop \<Rightarrow> Some (n, [])
           | RunElection r \<Rightarrow> handleElectionTimeout r n
           | RunHeartbeat \<Rightarrow> Some (handleHeartbeatTimeout n))"

definition Start_node :: "int \<Rightarrow> RaftNode \<Rightarrow> RaftNode option" where
  "Start_node r n = resetElectionTimer r n"

definition Stop_node :: "RaftNode \<Rightarrow> RaftNode option" where
  "Stop_node n =
     (if rn_stopCh n then None
      else Some (n\<lparr>rn_stopCh := True,
                    rn_electionTimer := map_option (\<lambda>_. Stopped) (rn_electionTimer n),
                    rn_heartbeatTimer := map_option (\<lambda>_. Stopped) (rn_heartbeatTimer n)\<rparr>))"

section \<open>Elections\<close>

definition becomeLeader :: "RaftNode \<Rightarrow> RaftNode \<times> Goroutine list" where
  "becomeLeader n =
     (let lastLogIndex = int (length (rn_log n));
          ids = map fst (rn_peers n);
          n1 = n\<lparr>rn_state := Leader, rn_leaderID := rc_NodeID (rn_config n),
                 rn_nextIndex := fold (\<lambda>p. go_set p lastLogIndex) ids (rn_nextIndex n),
                 rn_matchIndex := fold (\<lambda>p. go_set p 0) ids (rn_matchIndex n)\<rparr>
      in (resetHeartbeatTimer n1, [GHeartbeats]))"

text \<open>The first section reads the term, the second counts the votes that were granted.\<close>

definition last_log_position :: "RaftNode \<Rightarrow> int \<times> int" where
  "last_log_position n =
     (let lastLogIndex = int (length (rn_log n)) - 1
      in (lastLogIndex, if lastLogIndex \<ge> 0 then le_Term (rn_log n ! nat lastLogIndex) else 0))"

definition startElection_read :: "(string \<Rightarrow> int \<times> int \<times> int \<Rightarrow> bool) \<Rightarrow> RaftNode \<Rightarrow> Goroutine" where
  "startElection_read requestVote n =
     (let term = rn_currentTerm n;
          votes = 1 + int (length (filter (\<lambda>p. requestVote p (term, last_log_position n))
                                     (map fst (rn_peers n))))
      in GVotes term votes)"

definition startElection_finish :: "int \<Rightarrow> int \<Rightarrow> RaftNode \<Rightarrow> RaftNode \<times> Goroutine list" where
  "startElection_finish term votes n =
     (let totalNodes = int (length (rn_peers n)) + 1 in
      if rn_state n = Candidate \<and> rn_currentTerm n = term \<and> votes > totalNodes div 2
      then becomeLeader n else (n, []))"

section \<open>Client and administration operations\<close>

definition GetState :: "RaftNode \<Rightarrow> NodeState" where
  "GetState n =
     \<lparr>ns_State = rn_state n, ns_Term = rn_currentTerm n, ns_LeaderID = rn_leaderID n,
      ns_CommitIndex = rn_commitIndex n, ns_LogLength = int (length (rn_log n))\<rparr>"

record NodeInfo =
  ni_id :: string
  ni_address :: string
  ni_state :: string
  ni_term :: int
  ni_self :: bool

definition GetNodes :: "RaftNode \<Rightarrow> (string, NodeInfo) gomap" where
  "GetNodes n =
     fold (\<lambda>(peerID, peer). go_set peerID
             \<lparr>ni_id = peer_ID peer, ni_address = peer_Address peer, ni_state = ''Unknown'',
              ni_term = 0, ni_self = False\<rparr>)
       (rn_peers n)
       [(rc_NodeID (rn_config n),
         \<lparr>ni_id = rc_NodeID (rn_config n), ni_address = rc_NodeAddress (rn_config n),
          ni_state = State_String (rn_state n), ni_term = rn_currentTerm n, ni_self = True\<rparr>)]"

definition raft_Get :: "string \<Rightarrow> RaftNode \<Rightarrow> goerror + string" where
  "raft_Get key n =
     (case map_of (rn_stateMachine n) key of
        None \<Rightarrow> Inl (''key not found: '' @ key)
      | Some value \<Rightarrow> Inr value)"

definition raft_Put :: "string \<Rightarrow> string \<Rightarrow> RaftNode \<Rightarrow> goerror option \<times> RaftNode" where
  "raft_Put key value n =
     (if rn_state n \<noteq> Leader then (Some ''not the leader'', n)
      else (None, n\<lparr>rn_stateMachine := go_set key value (rn_stateMachine n)\<rparr>))"

definition raft_Delete :: "string \<Rightarrow> RaftNode \<Rightarrow> goerror option \<times> RaftNode" where
  "raft_Delete key n =
     (if rn_state n \<noteq> Leader then (Some ''not the leader'', n)
      else (None, n\<lparr>rn_stateMachine := go_del key (rn_stateMachine n)\<rparr>))"

definition AddNode :: "string \<Rightarrow> string \<Rightarrow> RaftNode \<Rightarrow> goerror option" where
  "AddNode nodeID address n = Some ''membership changes not implemented yet''"

definition RemoveNode :: "string \<Rightarrow> RaftNode \<Rightarrow> goerror option" where
  "RemoveNode nodeID n = Some ''membership changes not implemented yet''"

definition TakeSnapshot :: "RaftNode \<Rightarrow> goerror option" where
  "TakeSnapshot n = Some ''snapshotting not implemented yet''"

definition CompactLog :: "RaftNode \<Rightarrow> goerror option" where
  "CompactLog n = Some ''log compaction not implemented yet''"

section \<open>HTTP handlers\<close>

datatype RaftBody = RError goerror | RValue string string | RDeleted string | RMessage string

definition http_getValue :: "string \<Rightarrow> RaftNode \<Rightarrow> int \<times> RaftBody" where
  "http_getValue key n =
     (case raft_Get key n of Inl err \<Rightarrow> (404, RError err) | Inr value \<Rightarrow> (200, RValue key value))"

definition http_putValue ::
  "string \<Rightarrow> goerror + string \<Rightarrow> RaftNode \<Rightarrow> (int \<times> RaftBody) \<times> RaftNode" where
  "http_putValue key body n =
     (case body of
        Inl err \<Rightarrow> ((400, RError err), n)
      | Inr value \<Rightarrow>
          (case raft_Put key value n of
             (Some err, n') \<Rightarrow> ((500, RError err), n')
           | (None, n') \<Rightarrow> ((200, RValue key value), n')))"

definition http_deleteValue :: "string \<Rightarrow> RaftNode \<Rightarrow> (int \<times> RaftBody) \<times> RaftNode" where
  "http_deleteValue key n =
     (case raft_Delete key n of
        (Some err, n') \<Rightarrow> ((500, RError err), n')
      | (None, n') \<Rightarrow> ((200, RDeleted key), n'))"

definition http_addNode :: "goerror + string \<times> string \<Rightarrow> RaftNode \<Rightarrow> int \<times> RaftBody" where
  "http_addNode body n =
     (case body of
        Inl err \<Rightarrow> (400, RError err)
      | Inr (nodeID, address) \<Rightarrow>
          (case AddNode nodeID address n of
             Some err \<Rightarrow> (500, RError err)
           | None \<Rightarrow> (200, RMessage ''Node added successfully'')))"

definition http_removeNode :: "string \<Rightarrow> RaftNode \<Rightarrow> int \<times> RaftBody" where
  "http_removeNode nodeID n =
     (case RemoveNode nodeID n of
        Some err \<Rightarrow> (500, RError err)
      | None \<Rightarrow> (200, RMessage ''Node removed successfully''))"

definition http_takeSnapshot :: "RaftNode \<Rightarrow> int \<times> RaftBody" where
  "http_takeSnapshot n =
     (case TakeSnapshot n of
        Some err \<Rightarrow> (500, RError err)
      | None \<Rightarrow> (200, RMessage ''Snapshot taken successfully''))"

definition http_compactLog :: "RaftNode \<Rightarrow> int \<times> RaftBody" where
  "http_compactLog n =
     (case CompactLog n of
        Some err \<Rightarrow> (500, RError err)
      | None \<Rightarrow> (200, RMessage ''Log compacted successfully''))"

section \<open>Interleaving\<close>

text \<open>
  The third component is the history of the votes that peers have granted, with their terms: it is not a part of the node and
  does not depend on how the node counts.
\<close>

type_synonym raft_system = "RaftNode \<times> Goroutine list \<times> (string \<times> int) list"

definition granted_votes :: "(string \<Rightarrow> int \<times> int \<times> int \<Rightarrow> bool) \<Rightarrow> RaftNode \<Rightarrow> (string \<times> int) list" where
  "granted_votes requestVote n =
     map (\<lambda>p. (p, rn_currentTerm n))
       (filter (\<lambda>p. requestVote p (rn_currentTerm n, last_log_position n)) (map fst (rn_peers n)))"

inductive raft_step :: "raft_system \<Rightarrow> raft_system \<Rightarrow> bool" where
  main_loop:
    "run_select event n = Some (n', new) \<Longrightarrow> raft_step (n, G, V) (n', new @ G, V)"
| election_reads:
    "raft_step (n, G @ GElection # H, V) (n, G @ startElection_read requestVote n # H, V @ granted_votes requestVote n)"
| election_ends:
    "startElection_finish term votes n = (n', new) \<Longrightarrow>
     raft_step (n, G @ GVotes term votes # H, V) (n', new @ G @ H, V)"
| heartbeats_end: "raft_step (n, G @ GHeartbeats # H, V) (n, G @ H, V)"
| client_put: "raft_Put key value n = (err, n') \<Longrightarrow> raft_step (n, G, V) (n', G, V)"
| client_delete: "raft_Delete key n = (err, n') \<Longrightarrow> raft_step (n, G, V) (n', G, V)"

text \<open>A new node with any timers.\<close>

definition node_with :: "Timer option \<Rightarrow> Timer option \<Rightarrow> RaftConfig \<Rightarrow> RaftNode" where
  "node_with electionTimer heartbeatTimer cfg =
     (NewNode cfg)\<lparr>rn_electionTimer := electionTimer, rn_heartbeatTimer := heartbeatTimer\<rparr>"

inductive_cases raft_stepE: "raft_step s s'"

section \<open>The invariant of a node\<close>

lemmas raft_handler_defs =
  handleElectionTimeout_def handleHeartbeatTimeout_def startElection_finish_def becomeLeader_def
  resetElectionTimer_def resetHeartbeatTimer_def saveState_def raft_Put_def raft_Delete_def Let_def

text \<open>What no handler changes.\<close>

definition raft_fixed :: "RaftNode \<Rightarrow> RaftConfig \<times> (string, Peer) gomap \<times> LogEntry list \<times> int \<times> int" where
  "raft_fixed n = (rn_config n, rn_peers n, rn_log n, rn_commitIndex n, rn_lastApplied n)"

text \<open>What the state of a node says about its other fields.\<close>

definition raft_role :: "RaftNode \<Rightarrow> bool" where
  "raft_role n =
     (case rn_state n of
        Follower \<Rightarrow> rn_currentTerm n = 0 \<and> rn_votedFor n = '''' \<and> rn_leaderID n = '''' \<and> rn_stateMachine n = []
      | Candidate \<Rightarrow> rn_votedFor n = rc_NodeID (rn_config n) \<and> rn_leaderID n = '''' \<and> rn_stateMachine n = []
      | Leader \<Rightarrow> rn_votedFor n = rc_NodeID (rn_config n) \<and> rn_leaderID n = rc_NodeID (rn_config n) \<and>
          (\<forall>p \<in> set (map fst (rn_peers n)). go_get (-1) (rn_nextIndex n) p = int (length (rn_log n)) \<and>
             go_get (-1) (rn_matchIndex n) p = 0))"

text \<open>The votes that an election has counted were granted, in its term, by different peers, but for its own.\<close>

definition voters :: "RaftNode \<Rightarrow> (string \<times> int) list \<Rightarrow> int \<Rightarrow> string set" where
  "voters n V term = {p \<in> fst ` set (rn_peers n). (p, term) \<in> set V}"

definition thread_ok :: "RaftNode \<Rightarrow> (string \<times> int) list \<Rightarrow> Goroutine \<Rightarrow> bool" where
  "thread_ok n V g = (case g of GVotes term votes \<Rightarrow> votes \<le> int (card (voters n V term)) + 1 | _ \<Rightarrow> True)"

definition raft_inv :: "raft_system \<Rightarrow> bool" where
  "raft_inv s = (case s of (n, G, V) \<Rightarrow> raft_role n \<and> go_wf (rn_peers n) \<and> list_all (thread_ok n V) G)"

lemma go_get_fold_set:
  "go_get z (fold (\<lambda>p. go_set p v) ps m) q = (if q \<in> set ps then v else go_get z m q)"
  by (induction ps arbitrary: m) (auto simp: go_get_set)

lemma handleElectionTimeout_role:
  assumes "handleElectionTimeout r n = Some (n', new)" "raft_role n"
  shows "raft_role n' \<and> raft_fixed n' = raft_fixed n \<and> list_all (thread_ok n' V) new"
  using assms
  by (cases "rn_state n")
     (auto simp: raft_handler_defs raft_role_def raft_fixed_def thread_ok_def split: if_splits)

lemma handleHeartbeatTimeout_role:
  assumes "handleHeartbeatTimeout n = (n', new)" "raft_role n"
  shows "raft_role n' \<and> raft_fixed n' = raft_fixed n \<and> list_all (thread_ok n' V) new"
  using assms
  by (cases "rn_state n")
     (auto simp: raft_handler_defs raft_role_def raft_fixed_def thread_ok_def split: if_splits)

lemma startElection_finish_role:
  assumes "startElection_finish term votes n = (n', new)" "raft_role n"
  shows "raft_role n' \<and> raft_fixed n' = raft_fixed n \<and> list_all (thread_ok n' V) new"
  using assms
  by (cases "rn_state n")
     (auto simp: raft_handler_defs raft_role_def raft_fixed_def thread_ok_def go_get_fold_set split: if_splits)

lemma client_role:
  assumes "raft_Put key value n = (err, n') \<or> raft_Delete key n = (err, n')" "raft_role n"
  shows "raft_role n' \<and> raft_fixed n' = raft_fixed n"
  using assms
  by (cases "rn_state n")
     (auto simp: raft_handler_defs raft_role_def raft_fixed_def split: if_splits)

lemma run_select_role:
  assumes "run_select event n = Some (n', new)" "raft_role n"
  shows "raft_role n' \<and> raft_fixed n' = raft_fixed n \<and> list_all (thread_ok n' V) new"
  using assms handleElectionTimeout_role [of _ n n' new V] handleHeartbeatTimeout_role [of n n' new V]
  by (cases event) (auto simp: run_select_def split: if_splits)

lemma thread_ok_fixed: "raft_fixed n' = raft_fixed n \<Longrightarrow> thread_ok n' = thread_ok n"
  by (intro ext) (simp add: thread_ok_def voters_def raft_fixed_def split: Goroutine.split)

lemma thread_ok_more:
  assumes "thread_ok n V g"
  shows "thread_ok n (V @ W) g"
proof (cases g)
  case (GVotes trm votes)
  have "card (voters n V trm) \<le> card (voters n (V @ W) trm)"
    by (rule card_mono) (auto simp: voters_def)
  then show ?thesis using assms GVotes by (simp add: thread_ok_def)
qed (simp_all add: thread_ok_def)

lemma startElection_read_ok:
  assumes "go_wf (rn_peers n)"
  shows "thread_ok n (V @ granted_votes requestVote n) (startElection_read requestVote n)"
proof -
  let ?P = "\<lambda>p. requestVote p (rn_currentTerm n, last_log_position n)"
  have d: "distinct (filter ?P (map fst (rn_peers n)))" using assms by (simp add: go_wf_def)
  have "length (filter ?P (map fst (rn_peers n))) = card (set (filter ?P (map fst (rn_peers n))))"
    using distinct_card [OF d] by simp
  also have "\<dots> \<le> card (voters n (V @ granted_votes requestVote n) (rn_currentTerm n))"
    by (rule card_mono) (auto simp: voters_def granted_votes_def)
  finally show ?thesis by (simp add: thread_ok_def startElection_read_def Let_def)
qed

lemma raft_step_inv: "raft_step s s' \<Longrightarrow> raft_inv s \<Longrightarrow> raft_inv s' \<and> raft_fixed (fst s') = raft_fixed (fst s)"
proof (induction rule: raft_step.induct)
  case (main_loop event n n' new G V)
  then show ?case
    using run_select_role [of event n n' new V] thread_ok_fixed [of n' n] by (simp add: raft_inv_def) (simp add: raft_fixed_def)
next
  case (election_reads n G H V requestVote)
  then show ?case
    using startElection_read_ok [of n V requestVote] thread_ok_more [of n V]
    by (auto simp: raft_inv_def list_all_iff)
next
  case (election_ends trm votes n n' new G H V)
  then show ?case
    using startElection_finish_role [of trm votes n n' new V] thread_ok_fixed [of n' n] by (simp add: raft_inv_def) (simp add: raft_fixed_def)
next
  case (client_put key v n err n' G V)
  then show ?case
    using client_role [of key v n err n'] thread_ok_fixed [of n' n] by (simp add: raft_inv_def) (simp add: raft_fixed_def)
next
  case (client_delete key n err n' G V)
  then show ?case
    using client_role [of key _ n err n'] thread_ok_fixed [of n' n] by (simp add: raft_inv_def) (simp add: raft_fixed_def)
qed (simp_all add: raft_inv_def)

interpretation raft: transition_system "\<lambda>_ :: unit. raft_step" raft_inv
  by unfold_locales (simp add: raft_step_inv)

lemma go_wf_fold_set: "go_wf m \<Longrightarrow> go_wf (fold (\<lambda>(k, v). go_set k (f k v)) xs m)"
  by (induction xs arbitrary: m) auto

lemma raft_inv_start: "raft_inv (node_with te th cfg, [], [])"
  using go_wf_fold_set [of "[]" "\<lambda>nodeID address. \<lparr>peer_ID = nodeID, peer_Address = address\<rparr>" "GetPeers cfg"]
  by (simp add: raft_inv_def raft_role_def node_with_def NewNode_def loadState_def)

lemma raft_run_fixed: "raft_step\<^sup>*\<^sup>* s s' \<Longrightarrow> raft_inv s \<Longrightarrow> raft_fixed (fst s') = raft_fixed (fst s)"
  by (rule raft.run_induct) (auto dest: raft_step_inv)

lemma raft_fixed_start: "raft_fixed (node_with te th cfg) = raft_fixed (NewNode cfg)"
  by (simp add: node_with_def raft_fixed_def)

section \<open>Leadership\<close>

lemma handleElectionTimeout_leader:
  "handleElectionTimeout r n = Some (n', new) \<Longrightarrow> rn_state n' = Leader \<longleftrightarrow> rn_state n = Leader"
  by (auto simp: raft_handler_defs split: if_splits)

lemma handleElectionTimeout_final:
  "rn_state n = Leader \<Longrightarrow> handleElectionTimeout r n = Some (n, [])"
  by (simp add: handleElectionTimeout_def)

lemma run_select_leader:
  "run_select event n = Some (n', new) \<Longrightarrow> rn_state n' = Leader \<longleftrightarrow> rn_state n = Leader"
  by (cases event) (auto simp: run_select_def handleHeartbeatTimeout_def resetHeartbeatTimer_def handleElectionTimeout_leader split: if_splits)

lemma run_select_final:
  "run_select event n = Some (n', new) \<Longrightarrow> rn_state n = Leader \<Longrightarrow> rn_state n' = Leader \<and> rn_currentTerm n' = rn_currentTerm n"
  by (cases event) (auto simp: run_select_def handleHeartbeatTimeout_def resetHeartbeatTimer_def handleElectionTimeout_final split: if_splits)

lemma heartbeat_keeps_term:
  "handleHeartbeatTimeout n = (n', new) \<Longrightarrow> rn_state n' = rn_state n \<and> rn_currentTerm n' = rn_currentTerm n"
  by (auto simp: handleHeartbeatTimeout_def resetHeartbeatTimer_def split: if_splits)

lemma client_keeps_term:
  "raft_Put key v n = (err, n') \<Longrightarrow> rn_state n' = rn_state n \<and> rn_currentTerm n' = rn_currentTerm n"
  "raft_Delete key n = (err, n') \<Longrightarrow> rn_state n' = rn_state n \<and> rn_currentTerm n' = rn_currentTerm n"
  by (auto simp: raft_Put_def raft_Delete_def split: if_splits)

lemma finish_keeps_leader:
  "startElection_finish t votes n = (n', new) \<Longrightarrow> rn_state n = Leader \<Longrightarrow>
   rn_state n' = Leader \<and> rn_currentTerm n' = rn_currentTerm n"
  by (simp add: startElection_finish_def)

lemmas keeps_term = heartbeat_keeps_term client_keeps_term

text \<open>A node becomes leader only when an election of its current term ends with a strict majority.\<close>

lemma leader_by_majority:
  assumes "raft_step s s'" "rn_state (fst s) \<noteq> Leader" "rn_state (fst s') = Leader"
  shows "\<exists>votes. GVotes (rn_currentTerm (fst s)) votes \<in> set (fst (snd s)) \<and>
           int (length (rn_peers (fst s))) + 1 < 2 * votes \<and>
           rn_state (fst s) = Candidate \<and> rn_currentTerm (fst s') = rn_currentTerm (fst s)"
  using assms
proof (induction rule: raft_step.induct)
  case (election_ends trm votes n n' new G H V)
  then show ?case
    by (intro exI [of _ votes]) (auto simp: startElection_finish_def becomeLeader_def resetHeartbeatTimer_def Let_def split: if_splits)
qed (simp_all add: run_select_leader keeps_term)

lemma leader_stays:
  assumes "raft_step s s'" "rn_state (fst s) = Leader"
  shows "rn_state (fst s') = Leader \<and> rn_currentTerm (fst s') = rn_currentTerm (fst s)"
  using assms
  by (induction rule: raft_step.induct)
     (simp_all add: run_select_final keeps_term finish_keeps_leader)

lemma leader_stays_run:
  "raft_step\<^sup>*\<^sup>* s s' \<Longrightarrow> rn_state (fst s) = Leader \<Longrightarrow>
   rn_state (fst s') = Leader \<and> rn_currentTerm (fst s') = rn_currentTerm (fst s)"
  by (induction rule: rtranclp_induct) (auto dest: leader_stays)

section \<open>The cluster\<close>

lemma NewNode_peers:
  assumes "go_wf (rc_ClusterNodes cfg)"
  shows "rn_peers (NewNode cfg) =
           map (\<lambda>(k, a). (k, \<lparr>peer_ID = k, peer_Address = a\<rparr>)) (GetPeers cfg)"
proof -
  have "distinct (map fst (GetPeers cfg))"
    using assms by (simp add: GetPeers_filter go_wf_def distinct_map_filter)
  then show ?thesis
    using fold_go_set_fresh [of "[]" "GetPeers cfg" "\<lambda>k a. \<lparr>peer_ID = k, peer_Address = a\<rparr>"]
    by (simp add: NewNode_def loadState_def)
qed

text \<open>In a validated configuration the node and its peers are the whole cluster.\<close>

lemma cluster_size:
  assumes "config_validate cfg = None" "go_wf (rc_ClusterNodes cfg)"
  shows "length (rn_peers (NewNode cfg)) + 1 = length (rc_ClusterNodes cfg)"
  using GetPeers_length [OF assms] assms(2) by (simp add: NewNode_peers)

text \<open>A node with timers whose peers all grant their votes is elected by three steps.\<close>

lemma election_succeeds:
  assumes "0 < rc_ElectionTimeout cfg"
  shows "\<exists>n G V n' G'. raft_step\<^sup>*\<^sup>* (node_with (Some Stopped) (Some Stopped) cfg, [], []) (n, G, V) \<and> rn_state n = Candidate \<and>
    raft_step (n, G, V) (n', G', V) \<and> rn_state n' = Leader \<and> rn_currentTerm n' = 1"
proof -
  let ?n = "node_with (Some Stopped) (Some Stopped) cfg"
  obtain n1 where n1: "run_select (RunElection 0) ?n = Some (n1, [GElection])"
      "rn_state n1 = Candidate" "rn_currentTerm n1 = 1"
    using assms by (simp add: run_select_def raft_handler_defs node_with_def NewNode_def loadState_def)
  let ?votes = "1 + int (length (rn_peers n1))" and ?V = "granted_votes (\<lambda>_ _. True) n1"
  have g: "startElection_read (\<lambda>_ _. True) n1 = GVotes 1 ?votes"
    by (simp add: startElection_read_def n1)
  have "(int (length (rn_peers n1)) + 1) div 2 < ?votes"
    by simp
  then obtain n2 G where n2: "startElection_finish 1 ?votes n1 = (n2, G)" "rn_state n2 = Leader" "rn_currentTerm n2 = 1"
    using n1 by (simp add: startElection_finish_def becomeLeader_def resetHeartbeatTimer_def Let_def)
  have "raft_step (?n, [], []) (n1, [GElection], [])"
    using main_loop [OF n1(1), of "[]" "[]"] by simp
  moreover have "raft_step (n1, [GElection], []) (n1, [GVotes 1 ?votes], ?V)"
    using election_reads [of n1 "[]" "[]" "[]" "\<lambda>_ _. True"] g by simp
  moreover have "raft_step (n1, [GVotes 1 ?votes], ?V) (n2, G, ?V)"
    using election_ends [OF n2(1), of "[]" "[]" ?V] by simp
  ultimately show ?thesis
    using n1 n2 by (meson rtranclp.rtrancl_into_rtrancl rtranclp.rtrancl_refl)
qed

section \<open>Client operations\<close>

datatype ClientOp = CPut string string | CDelete string

fun client_op :: "ClientOp \<Rightarrow> RaftNode \<Rightarrow> goerror option \<times> RaftNode" where
  "client_op (CPut key v) n = raft_Put key v n"
| "client_op (CDelete key) n = raft_Delete key n"

fun run_client :: "ClientOp list \<Rightarrow> RaftNode \<Rightarrow> goerror option list \<times> RaftNode" where
  "run_client [] n = ([], n)"
| "run_client (c # cs) n =
     (let (err, n1) = client_op c n; (errs, n2) = run_client cs n1 in (err # errs, n2))"

text \<open>The abstract state machine: a map from keys to values.\<close>

fun map_op :: "ClientOp \<Rightarrow> (string \<rightharpoonup> string) \<Rightarrow> (string \<rightharpoonup> string)" where
  "map_op (CPut key v) m = m(key \<mapsto> v)"
| "map_op (CDelete key) m = m(key := None)"

lemma client_op_refines:
  assumes "client_op c n = (err, n')"
  shows "rn_state n' = rn_state n \<and>
         (if rn_state n = Leader
          then err = None \<and> map_of (rn_stateMachine n') = map_op c (map_of (rn_stateMachine n))
          else err = Some ''not the leader'' \<and> n' = n)"
  using assms by (cases c) (auto simp: raft_Put_def raft_Delete_def go_map_simps split: if_splits)

lemma run_client_refines:
  assumes "run_client cs n = (errs, n')"
  shows "if rn_state n = Leader
         then errs = replicate (length cs) None \<and>
              map_of (rn_stateMachine n') = fold map_op cs (map_of (rn_stateMachine n))
         else errs = replicate (length cs) (Some ''not the leader'') \<and> n' = n"
  using assms
proof (induction cs arbitrary: n errs)
  case (Cons c cs)
  obtain err n1 where c: "client_op c n = (err, n1)" by fastforce
  obtain errs1 where r: "run_client cs n1 = (errs1, n')" "errs = err # errs1"
    using Cons.prems c by (auto split: prod.splits)
  show ?case
    using Cons.IH [OF r(1)] client_op_refines [OF c] r(2) by (auto split: if_splits)
qed simp

section \<open>Properties\<close>

text \<open>C39: Along every interleaving of timeouts, elections, heartbeats and client operations from a new
  node with any timers, its configuration is kept, its log is empty and nothing is committed, and its state says
  what it knows: a follower is in term 0 and knows no leader, a candidate has voted for
  itself, a leader names itself and tracks every peer, and only a leader holds data.\<close>

theorem raft_node_states:
  assumes "raft_step\<^sup>*\<^sup>* (node_with te th cfg, [], []) (n, G, V)"
  shows "rn_config n = cfg \<and> rn_log n = [] \<and> rn_commitIndex n = 0 \<and> rn_lastApplied n = 0 \<and>
         (rn_state n = Follower \<longrightarrow> rn_currentTerm n = 0 \<and> rn_votedFor n = '''') \<and>
         (rn_state n \<noteq> Follower \<longrightarrow> rn_votedFor n = rc_NodeID cfg) \<and>
         rn_leaderID n = (if rn_state n = Leader then rc_NodeID cfg else '''') \<and>
         (rn_state n = Leader \<longrightarrow> (\<forall>p \<in> set (map fst (rn_peers n)). map_of (rn_nextIndex n) p = Some 0 \<and>
            map_of (rn_matchIndex n) p = Some 0)) \<and>
         (rn_stateMachine n \<noteq> [] \<longrightarrow> rn_state n = Leader)"
proof -
  have "raft_inv (n, G, V)"
    using raft.ainv_run [OF assms raft_inv_start] .
  moreover have "raft_fixed n = raft_fixed (NewNode cfg)"
    using raft_run_fixed [OF assms raft_inv_start] by (simp add: raft_fixed_start)
  moreover have "go_get (-1) m p = 0 \<longleftrightarrow> map_of m p = Some 0" for m :: "(string, int) gomap" and p
    by (auto simp: go_get_def split: option.splits)
  ultimately show ?thesis
    by (cases "rn_state n") (auto simp: raft_inv_def raft_role_def raft_fixed_def NewNode_def loadState_def)
qed

text \<open>C9: With a validated configuration, when a node becomes leader, more than half of the nodes of the cluster have voted for it in
  its term: the node itself and different other nodes whose granted votes for that term are in the history; and once it is leader it
  stays leader of the same term whatever happens. The node starts with any timers.\<close>

theorem raft_leadership:
  assumes "config_validate cfg = None" and "go_wf (rc_ClusterNodes cfg)"
    and "raft_step\<^sup>*\<^sup>* (node_with te th cfg, [], []) (n, G, V)" and "raft_step (n, G, V) (n', G', V')"
    and "raft_step\<^sup>*\<^sup>* (n', G', V') (n'', G'', V'')" and "rn_state n' = Leader"
  shows "(rn_state n \<noteq> Leader \<longrightarrow>
            length (rc_ClusterNodes cfg) < 2 * (card {p \<in> fst ` set (rc_ClusterNodes cfg). p \<noteq> rc_NodeID cfg \<and> (p, rn_currentTerm n') \<in> set V} + 1)) \<and>
         rn_state n'' = Leader \<and> rn_currentTerm n'' = rn_currentTerm n'"
proof -
  have p: "rn_peers n = rn_peers (NewNode cfg)"
    using raft_run_fixed [OF assms(3) raft_inv_start] by (simp add: raft_fixed_start) (simp add: raft_fixed_def)
  then have size: "int (length (rn_peers n)) + 1 = int (length (rc_ClusterNodes cfg))"
    using cluster_size [OF assms(1,2)] by (metis of_nat_1 of_nat_add)
  have ids: "fst ` set (rn_peers n) = {p \<in> fst ` set (rc_ClusterNodes cfg). p \<noteq> rc_NodeID cfg}"
    unfolding p NewNode_peers [OF assms(2)] GetPeers_filter [OF assms(2)] by (simp add: image_image case_prod_beta) force
  have "length (rc_ClusterNodes cfg) < 2 * (card {p \<in> fst ` set (rc_ClusterNodes cfg). p \<noteq> rc_NodeID cfg \<and> (p, rn_currentTerm n') \<in> set V} + 1)"
    if nl: "rn_state n \<noteq> Leader"
  proof -
    obtain votes where v: "GVotes (rn_currentTerm n) votes \<in> set G" "int (length (rn_peers n)) + 1 < 2 * votes" "rn_currentTerm n' = rn_currentTerm n"
      using leader_by_majority [OF assms(4)] nl assms(6) by auto
    have "thread_ok n V (GVotes (rn_currentTerm n) votes)"
      using raft.ainv_run [OF assms(3) raft_inv_start] v(1) by (auto simp: raft_inv_def list_all_iff)
    then have "votes \<le> int (card (voters n V (rn_currentTerm n))) + 1" by (simp add: thread_ok_def)
    moreover have "voters n V (rn_currentTerm n) = {p \<in> fst ` set (rc_ClusterNodes cfg). p \<noteq> rc_NodeID cfg \<and> (p, rn_currentTerm n') \<in> set V}"
      unfolding voters_def ids v(3) by blast
    ultimately show ?thesis using v(2) size by (simp add: algebra_simps)
  qed
  then show ?thesis using leader_stays_run [OF assms(5)] assms(6) by simp
qed

text \<open>C40: On a leader every put and delete succeeds, and gets read the map that the puts and
  deletes describe, in order; on any other node every put and delete is refused with the error that it is
  not the leader and nothing changes, while gets are served from the map that it holds.\<close>

theorem raft_client_refines_map:
  "(if rn_state n = Leader then fst (run_client cs n) = replicate (length cs) None
    else run_client cs n = (replicate (length cs) (Some ''not the leader''), n)) \<and>
   (\<forall>key. raft_Get key (snd (run_client cs n)) =
      (case fold map_op (if rn_state n = Leader then cs else []) (map_of (rn_stateMachine n)) key of
         None \<Rightarrow> Inl (''key not found: '' @ key) | Some v \<Rightarrow> Inr v))"
  using run_client_refines [of cs n "fst (run_client cs n)" "snd (run_client cs n)"]
  by (auto simp: raft_Get_def prod_eq_iff)

text \<open>The main loop of a node that has just been started panics at once: the heartbeat timer is
  only created when the node becomes leader, and the loop dereferences it before it waits.\<close>

theorem raft_run_panics:
  assumes "Start_node r (NewNode cfg) = Some n"
  shows "run_select event n = None"
  using assms
  by (auto simp: Start_node_def resetElectionTimer_def run_select_def NewNode_def loadState_def Let_def
           split: if_splits)

section \<open>Witnesses\<close>

definition example_cluster :: RaftConfig where
  "example_cluster =
     \<lparr>rc_NodeID = ''n1'', rc_NodeAddress = ''h1:1'', rc_HTTPPort = 8080, rc_GRPCPort = 9090,
      rc_MetricsPort = 7070,
      rc_ClusterNodes = [(''n1'', ''h1:1''), (''n2'', ''h2:1''), (''n3'', ''h3:1'')],
      rc_ElectionTimeout = 150000000, rc_HeartbeatInterval = 50000000,
      rc_SnapshotInterval = 1000, rc_LogCompactionThreshold = 10000, rc_DataDir = ''./data'',
      rc_WALDir = ''./wal'', rc_PrometheusEnabled = True, rc_JaegerEndpoint = '''',
      rc_LogLevel = ''info''\<rparr>"

lemma example_election:
  obtains n G V n' G' where "raft_step\<^sup>*\<^sup>* (node_with (Some Stopped) (Some Stopped) example_cluster, [], []) (n, G, V)"
    "rn_state n = Candidate" "raft_step (n, G, V) (n', G', V)" "rn_state n' = Leader" "rn_currentTerm n' = 1"
proof -
  have "0 < rc_ElectionTimeout example_cluster" by (simp add: example_cluster_def)
  from election_succeeds [OF this] that show ?thesis by meson
qed

theorem raft_node_states_witness:
  "\<exists>n G V. raft_step\<^sup>*\<^sup>* (node_with (Some Stopped) (Some Stopped) example_cluster, [], []) (n, G, V) \<and> rn_leaderID n = ''n1''"
proof (rule example_election)
  fix n G V n' G'
  assume n: "raft_step\<^sup>*\<^sup>* (node_with (Some Stopped) (Some Stopped) example_cluster, [], []) (n, G, V)"
    "raft_step (n, G, V) (n', G', V)" "rn_state n' = Leader"
  have r: "raft_step\<^sup>*\<^sup>* (node_with (Some Stopped) (Some Stopped) example_cluster, [], []) (n', G', V)"
    using rtranclp.rtrancl_into_rtrancl [OF n(1,2)] .
  have "rn_leaderID n' = ''n1''" using raft_node_states [OF r] n(3) by (simp add: example_cluster_def)
  with r show ?thesis by blast
qed

theorem raft_leadership_witness:
  "\<exists>n G V n' G'. raft_step\<^sup>*\<^sup>* (node_with (Some Stopped) (Some Stopped) example_cluster, [], []) (n, G, V) \<and>
     raft_step (n, G, V) (n', G', V) \<and> rn_state n' = Leader \<and>
     length (rc_ClusterNodes example_cluster) < 2 * (card {p \<in> fst ` set (rc_ClusterNodes example_cluster). p \<noteq> ''n1'' \<and> (p, 1) \<in> set V} + 1)"
proof (rule example_election)
  fix n G V n' G'
  assume n: "raft_step\<^sup>*\<^sup>* (node_with (Some Stopped) (Some Stopped) example_cluster, [], []) (n, G, V)"
    "rn_state n = Candidate" "raft_step (n, G, V) (n', G', V)" "rn_state n' = Leader" "rn_currentTerm n' = 1"
  have c: "config_validate example_cluster = None" "go_wf (rc_ClusterNodes example_cluster)" "rc_NodeID example_cluster = ''n1''"
    by (simp_all add: config_validate_def example_cluster_def)
  have "length (rc_ClusterNodes example_cluster) < 2 * (card {p \<in> fst ` set (rc_ClusterNodes example_cluster). p \<noteq> ''n1'' \<and> (p, 1) \<in> set V} + 1)"
    using raft_leadership [OF c(1,2) n(1,3) rtranclp.rtrancl_refl n(4)] n(2) unfolding c(3) n(5) by simp
  with n show ?thesis by blast
qed

theorem raft_run_panics_witness:
  "run_select (RunElection 5) (the (Start_node 7 (NewNode example_cluster))) = None"
  by (rule raft_run_panics [of 7 example_cluster])
     (simp add: Start_node_def resetElectionTimer_def NewNode_def loadState_def example_cluster_def)

end
