(* ===== verification/Raft_Storage.thy ===== *)
theory Raft_Storage
  imports Raft_Node "HOL-Library.Multiset"
begin

text \<open>
  The storage of a Raft node, \<open>raft-consensus/services/raft-node/internal/storage/storage.go\<close>. RocksDB and
  the JSON codec of the stored values are not in the repository: they are the records \<open>RocksDB\<close> (the
  calls the code makes, on a database of any type) and \<open>Codec\<close>, arguments of every definition that
  uses them. \<open>rocks_laws\<close> states what RocksDB documents of a database whose calls succeed: it is an ordered
  map per column family, an iterator visits the keys in byte order, and a batch applies its
  operations in order. A \<open>nil\<close> and an empty \<open>Data\<close> of an entry are the same string. A property that needs it assumes of the codec that the values written decode to themselves.

  The lemmas show the round trips of the term, the vote and the log, which entries a
  truncation leaves, and which index the log ends with.
\<close>

section \<open>RocksDB and the codec\<close>

datatype ColumnFamily = CFState | CFLog | CFSnapshot | CFSM

datatype BatchOp = BPut ColumnFamily string string | BDelete ColumnFamily string

record 'db RocksDB =
  db_Get :: "ColumnFamily \<Rightarrow> string \<Rightarrow> 'db \<Rightarrow> goerror + string option"
  db_Put :: "ColumnFamily \<Rightarrow> string \<Rightarrow> string \<Rightarrow> 'db \<Rightarrow> goerror option \<times> 'db"
  db_Delete :: "ColumnFamily \<Rightarrow> string \<Rightarrow> 'db \<Rightarrow> goerror option \<times> 'db"
  db_Write :: "BatchOp list \<Rightarrow> 'db \<Rightarrow> goerror option \<times> 'db"
  db_Scan :: "ColumnFamily \<Rightarrow> 'db \<Rightarrow> (string \<times> string) list"

record SnapshotMetadata =
  sm_Index :: int
  sm_Term :: int

record Snapshot =
  sn_Metadata :: SnapshotMetadata
  sn_StateMachine :: "(string, string) gomap"

record Codec =
  enc_int :: "int \<Rightarrow> string"
  dec_int :: "string \<Rightarrow> goerror + int"
  enc_str :: "string \<Rightarrow> string"
  dec_str :: "string \<Rightarrow> goerror + string"
  enc_entry :: "LogEntry \<Rightarrow> string"
  dec_entry :: "string \<Rightarrow> goerror + LogEntry"
  enc_snapshot :: "Snapshot \<Rightarrow> string"
  dec_snapshot :: "string \<Rightarrow> goerror + Snapshot"
  dec_put :: "string \<Rightarrow> goerror + string \<times> string"
  dec_key :: "string \<Rightarrow> goerror + string"

section \<open>Persistent state\<close>

definition GetCurrentTerm :: "'db RocksDB \<Rightarrow> Codec \<Rightarrow> 'db \<Rightarrow> goerror + int" where
  "GetCurrentTerm db C s =
     (case db_Get db CFState ''current_term'' s of
        Inl err \<Rightarrow> Inl err
      | Inr None \<Rightarrow> Inr 0
      | Inr (Some v) \<Rightarrow>
          (case dec_int C v of
             Inl err \<Rightarrow> Inl (''failed to unmarshal current term: '' @ err)
           | Inr t \<Rightarrow> Inr t))"

definition SetCurrentTerm :: "'db RocksDB \<Rightarrow> Codec \<Rightarrow> int \<Rightarrow> 'db \<Rightarrow> goerror option \<times> 'db" where
  "SetCurrentTerm db C t s = db_Put db CFState ''current_term'' (enc_int C t) s"

definition GetVotedFor :: "'db RocksDB \<Rightarrow> Codec \<Rightarrow> 'db \<Rightarrow> goerror + string" where
  "GetVotedFor db C s =
     (case db_Get db CFState ''voted_for'' s of
        Inl err \<Rightarrow> Inl err
      | Inr None \<Rightarrow> Inr ''''
      | Inr (Some v) \<Rightarrow>
          (case dec_str C v of
             Inl err \<Rightarrow> Inl (''failed to unmarshal voted for: '' @ err)
           | Inr n \<Rightarrow> Inr n))"

definition SetVotedFor :: "'db RocksDB \<Rightarrow> Codec \<Rightarrow> string \<Rightarrow> 'db \<Rightarrow> goerror option \<times> 'db" where
  "SetVotedFor db C nodeID s = db_Put db CFState ''voted_for'' (enc_str C nodeID) s"

section \<open>Log\<close>

definition log_key :: "int \<Rightarrow> string" where
  "log_key index = ''log_'' @ itoa index"

text \<open>
  \<open>fmt.Sscanf\<close> with the format \<open>log_%d\<close>: the literal, an optional sign and the longest run of digits, which
  must not be empty; what follows is not read. (Blanks before the number, which the verb would skip,
  do not occur in keys.)
\<close>

definition sscanf_log :: "string \<Rightarrow> int option" where
  "sscanf_log key =
     (if take 4 key \<noteq> ''log_'' then None
      else let rest = drop 4 key;
               (neg, ds) = (case rest of
                  [] \<Rightarrow> (False, [])
                | c # cs \<Rightarrow> if c = CHR ''-'' then (True, cs)
                            else if c = CHR ''+'' then (False, cs) else (False, rest))
           in case parse_digits (takeWhile is_digit ds) of
                None \<Rightarrow> None
              | Some n \<Rightarrow>
                  (let i = (if neg then - int n else int n) in if int64_range i then Some i else None))"

definition GetLogEntry :: "'db RocksDB \<Rightarrow> Codec \<Rightarrow> int \<Rightarrow> 'db \<Rightarrow> goerror + LogEntry" where
  "GetLogEntry db C index s =
     (case db_Get db CFLog (log_key index) s of
        Inl err \<Rightarrow> Inl err
      | Inr None \<Rightarrow> Inl (''log entry not found at index '' @ itoa index)
      | Inr (Some v) \<Rightarrow>
          (case dec_entry C v of
             Inl err \<Rightarrow> Inl (''failed to unmarshal log entry: '' @ err)
           | Inr entry \<Rightarrow> Inr entry))"

definition AppendLogEntry :: "'db RocksDB \<Rightarrow> Codec \<Rightarrow> LogEntry \<Rightarrow> 'db \<Rightarrow> goerror option \<times> 'db" where
  "AppendLogEntry db C entry s = db_Put db CFLog (log_key (le_Index entry)) (enc_entry C entry) s"

definition AppendLogEntries :: "'db RocksDB \<Rightarrow> Codec \<Rightarrow> LogEntry list \<Rightarrow> 'db \<Rightarrow> goerror option \<times> 'db" where
  "AppendLogEntries db C entries s =
     db_Write db (map (\<lambda>entry. BPut CFLog (log_key (le_Index entry)) (enc_entry C entry)) entries) s"

text \<open>
  The loop from \<open>startIndex\<close> to \<open>endIndex\<close>; a capacity below zero makes \<open>make\<close> panic, which is
  \<open>None\<close>.
\<close>

fun get_entries :: "'db RocksDB \<Rightarrow> Codec \<Rightarrow> int list \<Rightarrow> 'db \<Rightarrow> goerror + LogEntry list" where
  "get_entries db C [] s = Inr []"
| "get_entries db C (i # is) s =
     (case GetLogEntry db C i s of
        Inl err \<Rightarrow> Inl err
      | Inr entry \<Rightarrow>
          (case get_entries db C is s of
             Inl err \<Rightarrow> Inl err
           | Inr entries \<Rightarrow> Inr (entry # entries)))"

definition GetLogEntries ::
  "'db RocksDB \<Rightarrow> Codec \<Rightarrow> int \<Rightarrow> int \<Rightarrow> 'db \<Rightarrow> (goerror + LogEntry list) option" where
  "GetLogEntries db C startIndex endIndex s =
     (if wrap64 (endIndex - startIndex + 1) < 0 then None
      else Some (get_entries db C [startIndex..endIndex] s))"

definition GetLastLogIndex :: "'db RocksDB \<Rightarrow> 'db \<Rightarrow> goerror + int" where
  "GetLastLogIndex db s =
     (let kvs = db_Scan db CFLog s in
      if kvs = [] then Inr (-1)
      else case sscanf_log (fst (last kvs)) of
             None \<Rightarrow> Inl (''failed to parse log index from key '' @ fst (last kvs))
           | Some index \<Rightarrow> Inr index)"

definition GetLastLogTerm :: "'db RocksDB \<Rightarrow> Codec \<Rightarrow> 'db \<Rightarrow> goerror + int" where
  "GetLastLogTerm db C s =
     (case GetLastLogIndex db s of
        Inl err \<Rightarrow> Inl err
      | Inr lastIndex \<Rightarrow>
          if lastIndex = -1 then Inr 0
          else case GetLogEntry db C lastIndex s of
                 Inl err \<Rightarrow> Inl err
               | Inr entry \<Rightarrow> Inr (le_Term entry))"

fun truncate_batch :: "int \<Rightarrow> string list \<Rightarrow> BatchOp list" where
  "truncate_batch index [] = []"
| "truncate_batch index (key # keys) =
     (case sscanf_log key of
        None \<Rightarrow> []
      | Some entryIndex \<Rightarrow>
          (if entryIndex \<ge> index then [BDelete CFLog key] else []) @ truncate_batch index keys)"

definition TruncateLog :: "'db RocksDB \<Rightarrow> int \<Rightarrow> 'db \<Rightarrow> goerror option \<times> 'db" where
  "TruncateLog db index s =
     db_Write db
       (truncate_batch index
          (dropWhile (\<lambda>key. key < log_key index) (map fst (db_Scan db CFLog s)))) s"

section \<open>Snapshots and state machine\<close>

definition SaveSnapshot :: "'db RocksDB \<Rightarrow> Codec \<Rightarrow> Snapshot \<Rightarrow> 'db \<Rightarrow> goerror option \<times> 'db" where
  "SaveSnapshot db C snapshot s =
     db_Put db CFSnapshot (''snapshot_'' @ itoa (sm_Index (sn_Metadata snapshot)))
       (enc_snapshot C snapshot) s"

definition LoadSnapshot :: "'db RocksDB \<Rightarrow> Codec \<Rightarrow> 'db \<Rightarrow> goerror + Snapshot" where
  "LoadSnapshot db C s =
     (let kvs = db_Scan db CFSnapshot s in
      if kvs = [] then Inl ''no snapshots found''
      else case dec_snapshot C (snd (last kvs)) of
             Inl err \<Rightarrow> Inl (''failed to unmarshal snapshot: '' @ err)
           | Inr snapshot \<Rightarrow> Inr snapshot)"

definition GetSnapshotMetadata :: "'db RocksDB \<Rightarrow> Codec \<Rightarrow> 'db \<Rightarrow> goerror + SnapshotMetadata" where
  "GetSnapshotMetadata db C s =
     (case LoadSnapshot db C s of Inl err \<Rightarrow> Inl err | Inr snapshot \<Rightarrow> Inr (sn_Metadata snapshot))"

definition ApplyEntry :: "'db RocksDB \<Rightarrow> Codec \<Rightarrow> LogEntry \<Rightarrow> 'db \<Rightarrow> goerror option \<times> 'db" where
  "ApplyEntry db C entry s =
     (if le_Command entry = ''PUT'' then
        (case dec_put C (le_Data entry) of
           Inl err \<Rightarrow> (Some (''failed to unmarshal PUT command: '' @ err), s)
         | Inr (key, v) \<Rightarrow> db_Put db CFSM key v s)
      else if le_Command entry = ''DELETE'' then
        (case dec_key C (le_Data entry) of
           Inl err \<Rightarrow> (Some (''failed to unmarshal DELETE command: '' @ err), s)
         | Inr key \<Rightarrow> db_Delete db CFSM key s)
      else (Some (''unknown command: '' @ le_Command entry), s))"

definition GetStateMachine :: "'db RocksDB \<Rightarrow> 'db \<Rightarrow> (string, string) gomap" where
  "GetStateMachine db s = fold (\<lambda>(k, v). go_set k v) (db_Scan db CFSM s) []"

definition SetStateMachine :: "'db RocksDB \<Rightarrow> (string, string) gomap \<Rightarrow> 'db \<Rightarrow> goerror option \<times> 'db" where
  "SetStateMachine db state s =
     db_Write db
       (map (\<lambda>(k, v). BDelete CFSM k) (db_Scan db CFSM s) @ map (\<lambda>(k, v). BPut CFSM k v) state) s"

section \<open>What the code relies on\<close>

fun batch_effect :: "ColumnFamily \<Rightarrow> BatchOp list \<Rightarrow> (string \<rightharpoonup> string) \<Rightarrow> (string \<rightharpoonup> string)" where
  "batch_effect cf [] m = m"
| "batch_effect cf (BPut f k v # bs) m = batch_effect cf bs (if f = cf then m(k \<mapsto> v) else m)"
| "batch_effect cf (BDelete f k # bs) m = batch_effect cf bs (if f = cf then m(k := None) else m)"

definition db_map :: "'db RocksDB \<Rightarrow> ColumnFamily \<Rightarrow> 'db \<Rightarrow> (string \<rightharpoonup> string)" where
  "db_map db cf s = map_of (db_Scan db cf s)"

definition rocks_laws :: "'db RocksDB \<Rightarrow> bool" where
  "rocks_laws db \<longleftrightarrow>
     (\<forall>cf s. sorted_wrt (<) (map fst (db_Scan db cf s))) \<and>
     (\<forall>cf k s. db_Get db cf k s = Inr (db_map db cf s k)) \<and>
     (\<forall>cf k v s s'. db_Put db cf k v s = (None, s') \<longrightarrow>
        (\<forall>f. db_map db f s' = (if f = cf then (db_map db f s)(k \<mapsto> v) else db_map db f s))) \<and>
     (\<forall>cf k s s'. db_Delete db cf k s = (None, s') \<longrightarrow>
        (\<forall>f. db_map db f s' = (if f = cf then (db_map db f s)(k := None) else db_map db f s))) \<and>
     (\<forall>bs s s'. db_Write db bs s = (None, s') \<longrightarrow> (\<forall>f. db_map db f s' = batch_effect f bs (db_map db f s)))"

section \<open>Keys of the log\<close>

lemma takeWhile_digits [simp]: "takeWhile is_digit (decimal_nat n) = decimal_nat n"
  using decimal_nat_digits [of n] by (auto simp: takeWhile_eq_all_conv list_all_iff)

lemma sscanf_log_key:
  assumes "int64_range i"
  shows "sscanf_log (log_key i) = Some i"
proof (cases "i < 0")
  case True
  then show ?thesis
    using assms by (simp add: sscanf_log_def log_key_def itoa_def parse_digits_decimal)
next
  case False
  obtain c cs where c: "decimal_nat (nat i) = c # cs" "c \<noteq> CHR ''-''" "c \<noteq> CHR ''+''"
    using decimal_nat_head by blast
  have c2: "takeWhile is_digit (c # cs) = c # cs" "parse_digits (c # cs) = Some (nat i)"
    using takeWhile_digits [of "nat i"] parse_digits_decimal [of "nat i"] by (simp_all only: c(1))
  show ?thesis
    using assms False by (simp add: sscanf_log_def log_key_def itoa_def c c2 del: takeWhile.simps)
qed

lemma log_key_inject: "int64_range i \<Longrightarrow> int64_range j \<Longrightarrow> log_key i = log_key j \<longleftrightarrow> i = j"
  using sscanf_log_key by (metis option.inject)

text \<open>Numerals of the same number of digits are ordered as the numbers.\<close>

lemma snoc_less:
  "length xs = length ys \<Longrightarrow> xs @ [a] < ys @ [b] \<longleftrightarrow> xs < ys \<or> xs = ys \<and> a < (b :: char)"
  by (induction xs ys rule: list_induct2) auto

lemma decimal_digit_less: "a < 10 \<Longrightarrow> b < 10 \<Longrightarrow> decimal_digit a < decimal_digit b \<longleftrightarrow> a < b"
  by (simp add: decimal_digit_def less_char_def)

lemma decimal_nat_snoc:
  "10 \<le> n \<Longrightarrow> decimal_nat n = decimal_nat (n div 10) @ [decimal_digit (n mod 10)]"
  by (subst decimal_nat.simps) simp

lemma decimal_nat_one: "n < 10 \<Longrightarrow> decimal_nat n = [decimal_digit n]"
  by (subst decimal_nat.simps) simp

lemma decimal_nat_two: "10 \<le> n \<Longrightarrow> 2 \<le> length (decimal_nat n)"
  using decimal_nat_digits [of "n div 10"] by (simp add: decimal_nat_snoc Suc_le_eq)

lemma decimal_nat_single: "length (decimal_nat n) = 1 \<longleftrightarrow> n < 10"
  using decimal_nat_two [of n] by (cases "n < 10") (simp_all add: decimal_nat_one)

lemma decimal_nat_inject: "decimal_nat m = decimal_nat n \<longleftrightarrow> m = n"
  using digits_value_decimal by metis

lemma ten_lex: "b < 10 \<Longrightarrow> d < 10 \<Longrightarrow> a < c \<or> a = c \<and> b < d \<longleftrightarrow> 10 * a + b < 10 * c + (d :: nat)"
  by auto

lemma decimal_nat_less:
  "length (decimal_nat m) = length (decimal_nat n) \<Longrightarrow> decimal_nat m < decimal_nat n \<longleftrightarrow> m < n"
proof (induction m arbitrary: n rule: decimal_nat.induct)
  case (1 m)
  consider "m < 10" "n < 10" | "10 \<le> m" "10 \<le> n"
    using 1(2) decimal_nat_single [of m] decimal_nat_single [of n] by (metis not_less)
  then show ?case
  proof cases
    case 1
    then show ?thesis by (simp add: decimal_nat_one decimal_digit_less)
  next
    case 2
    have len: "length (decimal_nat (m div 10)) = length (decimal_nat (n div 10))"
      using 1(2) 2 by (simp add: decimal_nat_snoc)
    have "decimal_nat m < decimal_nat n \<longleftrightarrow>
        m div 10 < n div 10 \<or> m div 10 = n div 10 \<and> m mod 10 < n mod 10"
      using 1(1) [OF _ len] 2 len
      by (simp add: decimal_nat_snoc snoc_less decimal_nat_inject decimal_digit_less)
    also have "\<dots> \<longleftrightarrow> m < n"
      using ten_lex [of "m mod 10" "n mod 10" "m div 10" "n div 10"] by simp
    finally show ?thesis .
  qed
qed

lemma log_key_less:
  assumes "0 \<le> i" "0 \<le> j" "length (itoa i) = length (itoa j)"
  shows "log_key i < log_key j \<longleftrightarrow> i < j"
  using decimal_nat_less [of "nat i" "nat j"] assms by (auto simp: log_key_def itoa_def)

section \<open>Batches\<close>

lemma batch_effect_append:
  "batch_effect cf (bs @ cs) m = batch_effect cf cs (batch_effect cf bs m)"
  by (induction cf bs m rule: batch_effect.induct) simp_all

lemma batch_effect_puts:
  "batch_effect cf (map (\<lambda>e. BPut cf (k e) (v e)) es) m = fold (\<lambda>e m. m(k e \<mapsto> v e)) es m"
  by (induction es arbitrary: m) simp_all

lemma batch_effect_deletes:
  "batch_effect cf (map (BDelete cf) ks) m x = (if x \<in> set ks then None else m x)"
  by (induction ks arbitrary: m) simp_all

lemma fold_upd_notin: "x \<notin> k ` set es \<Longrightarrow> fold (\<lambda>e m. m(k e \<mapsto> v e)) es m x = m x"
  by (induction es arbitrary: m) simp_all

lemma fold_upd_in:
  "distinct (map k es) \<Longrightarrow> e \<in> set es \<Longrightarrow> fold (\<lambda>e m. m(k e \<mapsto> v e)) es m (k e) = Some (v e)"
proof (induction es arbitrary: m)
  case (Cons x es)
  show ?case
  proof (cases "e = x")
    case True
    then have "k e \<notin> k ` set es" using Cons.prems by auto
    then have "fold (\<lambda>e m. m(k e \<mapsto> v e)) es (m(k x \<mapsto> v x)) (k e) = Some (v e)"
      using True fold_upd_notin [of "k e" k es v "m(k x \<mapsto> v x)"] by simp
    then show ?thesis by (simp del: fun_upd_apply)
  next
    case False
    then show ?thesis using Cons by simp
  qed
qed simp

section \<open>Reading the log back\<close>

lemma get_entries_all:
  assumes "\<And>e. e \<in> set es \<Longrightarrow> GetLogEntry db C (le_Index e) s = Inr e"
  shows "get_entries db C (map le_Index es) s = Inr es"
  using assms by (induction es) simp_all

lemma GetLogEntry_map:
  "rocks_laws db \<Longrightarrow> GetLogEntry db C i s =
     (case db_map db CFLog s (log_key i) of
        None \<Rightarrow> Inl (''log entry not found at index '' @ itoa i)
      | Some v \<Rightarrow> (case dec_entry C v of Inl err \<Rightarrow> Inl (''failed to unmarshal log entry: '' @ err) | Inr e \<Rightarrow> Inr e))"
  by (simp add: GetLogEntry_def rocks_laws_def split: option.splits)

lemma AppendLogEntries_map:
  assumes "rocks_laws db" "AppendLogEntries db C es s = (None, s')"
  shows "db_map db CFLog s' =
           fold (\<lambda>e m. m(log_key (le_Index e) \<mapsto> enc_entry C e)) es (db_map db CFLog s)"
proof -
  have "db_map db CFLog s' =
      batch_effect CFLog (map (\<lambda>e. BPut CFLog (log_key (le_Index e)) (enc_entry C e)) es) (db_map db CFLog s)"
    using assms unfolding rocks_laws_def AppendLogEntries_def by blast
  then show ?thesis by (simp only: batch_effect_puts)
qed

section \<open>Truncation\<close>

text \<open>Every key of the log column family is one that the code wrote.\<close>

definition log_ok :: "'db RocksDB \<Rightarrow> 'db \<Rightarrow> bool" where
  "log_ok db s = (\<forall>key \<in> set (map fst (db_Scan db CFLog s)). \<exists>i. int64_range i \<and> key = log_key i)"

definition log_indices :: "'db RocksDB \<Rightarrow> 'db \<Rightarrow> int set" where
  "log_indices db s = {i. int64_range i \<and> db_map db CFLog s (log_key i) \<noteq> None}"

lemma truncate_batch_keys:
  assumes "\<forall>key \<in> set keys. \<exists>i. int64_range i \<and> key = log_key i"
  shows "truncate_batch n keys = map (BDelete CFLog) (filter (\<lambda>key. n \<le> the (sscanf_log key)) keys)"
  using assms by (induction keys) (auto simp: sscanf_log_key)

lemma set_dropWhile_sorted:
  "sorted_wrt (<) xs \<Longrightarrow> set (dropWhile (\<lambda>x. x < p) xs) = {x \<in> set xs. \<not> x < (p :: 'a :: linorder)}"
  by (induction xs) (auto simp: not_less intro: less_le_trans order.trans)

lemma in_scan_iff: "k \<in> fst ` set (db_Scan db cf s) \<longleftrightarrow> db_map db cf s k \<noteq> None"
  by (simp add: db_map_def map_of_eq_None_iff)

lemma TruncateLog_map:
  assumes laws: "rocks_laws db" and ok: "log_ok db s" and tr: "TruncateLog db n s = (None, s')" and i: "int64_range i"
  shows "db_map db CFLog s' (log_key i) =
           (if n \<le> i \<and> \<not> log_key i < log_key n then None else db_map db CFLog s (log_key i))"
proof -
  let ?keys = "map fst (db_Scan db CFLog s)"
  let ?tail = "dropWhile (\<lambda>key. key < log_key n) ?keys"
  let ?del = "filter (\<lambda>key. n \<le> the (sscanf_log key)) ?tail"
  have "set ?tail \<subseteq> set ?keys" by (auto dest: set_dropWhileD)
  with ok have "truncate_batch n ?tail = map (BDelete CFLog) ?del"
    by (intro truncate_batch_keys) (auto simp: log_ok_def)
  moreover have "db_Write db (truncate_batch n ?tail) s = (None, s')"
    using tr by (simp only: TruncateLog_def)
  ultimately have "db_map db CFLog s' = batch_effect CFLog (map (BDelete CFLog) ?del) (db_map db CFLog s)"
    using laws unfolding rocks_laws_def by (simp only:)
  then have "db_map db CFLog s' (log_key i) = (if log_key i \<in> set ?del then None else db_map db CFLog s (log_key i))"
    by (simp only: batch_effect_deletes)
  moreover have "sorted_wrt (<) ?keys" using laws by (simp add: rocks_laws_def)
  then have "log_key i \<in> set ?del \<longleftrightarrow>
      db_map db CFLog s (log_key i) \<noteq> None \<and> n \<le> i \<and> \<not> log_key i < log_key n"
    using sscanf_log_key [OF i] in_scan_iff [of "log_key i" db CFLog s] set_dropWhile_sorted [of ?keys "log_key n"]
    by auto
  ultimately show ?thesis by auto
qed

section \<open>The last entry\<close>

lemma sorted_wrt_last: "sorted_wrt (<) xs \<Longrightarrow> x \<in> set xs \<Longrightarrow> x \<le> last (xs :: 'a :: linorder list)"
proof (induction xs)
  case (Cons y ys)
  then show ?case by (cases "ys = []") (auto simp: less_imp_le)
qed simp

lemma GetLastLogIndex_last:
  assumes laws: "rocks_laws db" and ok: "log_ok db s" and ne: "db_Scan db CFLog s \<noteq> []"
  shows "\<exists>i. GetLastLogIndex db s = Inr i \<and> i \<in> log_indices db s \<and>
           (\<forall>j \<in> log_indices db s. log_key j \<le> log_key i)"
proof -
  let ?keys = "map fst (db_Scan db CFLog s)"
  have lst: "last ?keys = fst (last (db_Scan db CFLog s))" using ne by (simp add: last_map)
  have mem: "last ?keys \<in> set ?keys" using ne by (metis last_in_set map_is_Nil_conv)
  with ok obtain i where i: "int64_range i" "last ?keys = log_key i" by (auto simp: log_ok_def)
  have "GetLastLogIndex db s = Inr i"
    using ne i lst sscanf_log_key [OF i(1)] by (simp add: GetLastLogIndex_def Let_def)
  moreover have "i \<in> log_indices db s"
    using mem i in_scan_iff [of "log_key i" db CFLog s] by (simp add: log_indices_def)
  moreover have "sorted_wrt (<) ?keys" using laws by (simp add: rocks_laws_def)
  then have "\<forall>j \<in> log_indices db s. log_key j \<le> log_key i"
    using sorted_wrt_last [of ?keys] in_scan_iff [of _ db CFLog s] i(2) by (auto simp: log_indices_def)
  ultimately show ?thesis by blast
qed

section \<open>Properties\<close>

text \<open>C38: A batch of consecutive log entries that was appended reads back as it was written, and the
  entries at all other indices are kept.\<close>

theorem log_append_roundtrip:
  assumes "rocks_laws db" and "\<forall>e \<in> set es. dec_entry C (enc_entry C e) = Inr e"
    and "AppendLogEntries db C es s = (None, s')"
    and "map le_Index es = [lo..hi]" and "0 \<le> lo" and "lo \<le> hi" and "hi < 2 ^ 63 - 1"
  shows "GetLogEntries db C lo hi s' = Some (Inr es) \<and>
         (\<forall>i. int64_range i \<and> \<not> (lo \<le> i \<and> i \<le> hi) \<longrightarrow> GetLogEntry db C i s' = GetLogEntry db C i s)"
proof -
  let ?k = "\<lambda>e. log_key (le_Index e)"
  have idx: "int64_range (le_Index e) \<and> lo \<le> le_Index e \<and> le_Index e \<le> hi" if "e \<in> set es" for e
  proof -
    have "le_Index e \<in> set [lo..hi]" using that by (metis assms(4) imageI list.set_map)
    then show ?thesis using assms(5,7) by simp
  qed
  have m: "db_map db CFLog s' = fold (\<lambda>e m. m(?k e \<mapsto> enc_entry C e)) es (db_map db CFLog s)"
    by (rule AppendLogEntries_map [OF assms(1,3)])
  have "inj_on le_Index (set es)" "distinct es"
    using assms(4) by (metis distinct_map distinct_upto)+
  then have "distinct (map ?k es)"
    using idx log_key_inject by (auto simp: distinct_map inj_on_def)
  then have "GetLogEntry db C (le_Index e) s' = Inr e" if "e \<in> set es" for e
    using that assms(2) fold_upd_in [of ?k es e "enc_entry C" "db_map db CFLog s"]
    by (simp add: GetLogEntry_map [OF assms(1)] m)
  then have "get_entries db C [lo..hi] s' = Inr es"
    using get_entries_all [of es db C s'] assms(4) by simp
  moreover have "wrap64 (hi - lo + 1) = hi - lo + 1"
    using assms(5-7) by (intro wrap64_id) simp
  moreover have "GetLogEntry db C i s' = GetLogEntry db C i s"
    if "int64_range i" "\<not> (lo \<le> i \<and> i \<le> hi)" for i
  proof -
    have "log_key i \<notin> ?k ` set es"
      using idx that log_key_inject by blast
    then show ?thesis
      by (simp add: GetLogEntry_map [OF assms(1)] m fold_upd_notin)
  qed
  ultimately show ?thesis
    using assms(6) by (simp add: GetLogEntries_def)
qed

text \<open>Truncating the log from an index on removes exactly the entries whose index is at least that
  and whose key does not come before its key in byte order. When all indices have as many digits as the given one, these
  are the entries from the index on; an index with more digits can come first, and is kept.\<close>

theorem truncate_log_exact:
  assumes "rocks_laws db" and "log_ok db s" and "TruncateLog db n s = (None, s')"
  shows "log_indices db s' = log_indices db s - {i. n \<le> i \<and> log_key n \<le> log_key i} \<and>
         (0 \<le> n \<and> (\<forall>i \<in> log_indices db s. 0 \<le> i \<and> length (itoa i) = length (itoa n)) \<longrightarrow>
            log_indices db s' = {i \<in> log_indices db s. i < n})"
proof -
  have exact: "log_indices db s' = log_indices db s - {i. n \<le> i \<and> log_key n \<le> log_key i}"
    using TruncateLog_map [OF assms] by (auto simp: log_indices_def not_less split: if_splits)
  moreover have "log_key n \<le> log_key i \<longleftrightarrow> n \<le> i"
    if "0 \<le> n" "0 \<le> i" "length (itoa i) = length (itoa n)" for i
    using log_key_less [of i n] that by (metis linorder_not_less)
  ultimately show ?thesis by (auto simp: not_le)
qed

text \<open>The index that the storage reports for the last entry is the one whose key comes last in
  byte order; it is the greatest index of the log when all indices have the same number of digits.\<close>

theorem last_log_index_by_key:
  assumes "rocks_laws db" and "log_ok db s" and "db_Scan db CFLog s \<noteq> []"
  shows "\<exists>i. GetLastLogIndex db s = Inr i \<and> i \<in> log_indices db s \<and>
           (\<forall>j \<in> log_indices db s. log_key j \<le> log_key i \<and>
              (0 \<le> i \<and> 0 \<le> j \<and> length (itoa j) = length (itoa i) \<longrightarrow> j \<le> i))"
proof -
  obtain i where i: "GetLastLogIndex db s = Inr i" "i \<in> log_indices db s"
      "\<forall>j \<in> log_indices db s. log_key j \<le> log_key i"
    using GetLastLogIndex_last [OF assms] by blast
  have "j \<le> i" if "j \<in> log_indices db s" "0 \<le> i" "0 \<le> j" "length (itoa j) = length (itoa i)" for j
    using i(3) that log_key_less [of i j] by (metis linorder_not_less)
  with i show ?thesis by blast
qed

section \<open>An ordered map as database\<close>

text \<open>A database of association lists, to apply the properties.\<close>

type_synonym list_state = "ColumnFamily \<Rightarrow> (string, string) gomap"

fun list_batch :: "BatchOp list \<Rightarrow> list_state \<Rightarrow> list_state" where
  "list_batch [] s = s"
| "list_batch (BPut f k v # bs) s = list_batch bs (s(f := go_set k v (s f)))"
| "list_batch (BDelete f k # bs) s = list_batch bs (s(f := go_del k (s f)))"

definition list_db :: "list_state RocksDB" where
  "list_db =
     \<lparr>db_Get = (\<lambda>cf k s. Inr (map_of (s cf) k)),
      db_Put = (\<lambda>cf k v s. (None, list_batch [BPut cf k v] s)),
      db_Delete = (\<lambda>cf k s. (None, list_batch [BDelete cf k] s)),
      db_Write = (\<lambda>bs s. (None, list_batch bs s)),
      db_Scan = (\<lambda>cf s. sort_key fst (AList.clearjunk (s cf)))\<rparr>"

lemma distinct_sort_key_fst: "distinct (map fst (sort_key fst m)) = distinct (map fst m)"
proof -
  have "mset (map fst (sort_key fst m)) = mset (map fst m)" by simp
  then show ?thesis by (metis distinct_count_atmost_1 mset_eq_setD)
qed

lemma map_of_sort_key: "distinct (map fst m) \<Longrightarrow> map_of (sort_key fst m) = map_of m"
  by (subst map_of_inject_set) (simp_all add: distinct_sort_key_fst)

lemma list_db_map: "db_map list_db cf s = map_of (s cf)"
  by (simp add: db_map_def list_db_def map_of_sort_key distinct_clearjunk map_of_clearjunk)

lemma list_batch_map: "map_of (list_batch bs s cf) = batch_effect cf bs (map_of (s cf))"
proof (induction bs arbitrary: s)
  case (Cons b bs)
  then show ?case by (cases b) (simp_all add: map_of_go_set map_of_go_del fun_upd_def)
qed simp

lemma list_db_laws: "rocks_laws list_db"
proof -
  have "sorted_wrt (<) (map fst (sort_key fst (AList.clearjunk m)))" for m :: "(string, string) gomap"
  proof -
    have "sorted (map fst (sort_key fst (AList.clearjunk m)))" by simp
    moreover have "distinct (map fst (sort_key fst (AList.clearjunk m)))"
      by (simp add: distinct_sort_key_fst distinct_clearjunk)
    ultimately show ?thesis by (simp only: strict_sorted_iff)
  qed
  then have "sorted_wrt (<) (map fst (db_Scan list_db cf s))" for cf s
    by (simp add: list_db_def)
  moreover have "db_Get list_db cf k s = Inr (db_map list_db cf s k)" for cf k s
    unfolding list_db_map by (simp add: list_db_def)
  moreover have "db_map list_db f s' = batch_effect f bs (db_map list_db f s)"
    if "db_Write list_db bs s = (None, s')" for f bs s s'
    using that unfolding list_db_map by (auto simp: list_db_def list_batch_map)
  moreover have "db_map list_db f s' = (if f = cf then (db_map list_db f s)(k \<mapsto> v) else db_map list_db f s)"
    if "db_Put list_db cf k v s = (None, s')" for f cf k v s s'
    using that unfolding list_db_map by (auto simp: list_db_def go_map_simps)
  moreover have "db_map list_db f s' = (if f = cf then (db_map list_db f s)(k := None) else db_map list_db f s)"
    if "db_Delete list_db cf k s = (None, s')" for f cf k s s'
    using that unfolding list_db_map by (auto simp: list_db_def go_map_simps)
  ultimately show ?thesis
    unfolding rocks_laws_def by blast
qed

text \<open>A codec that stores one known entry, and a log with the indices 9 and 10.\<close>

definition example_entry :: LogEntry where
  "example_entry = \<lparr>le_Term = 1, le_Index = 0, le_Command = ''PUT'', le_Data = ''x''\<rparr>"

definition example_codec :: Codec where
  "example_codec =
     \<lparr>enc_int = itoa, dec_int = (\<lambda>v. case strconv_Atoi v of None \<Rightarrow> Inl ''bad'' | Some t \<Rightarrow> Inr t),
      enc_str = (\<lambda>n. n), dec_str = Inr, enc_entry = (\<lambda>e. itoa (le_Index e)),
      dec_entry = (\<lambda>v. case strconv_Atoi v of None \<Rightarrow> Inl ''bad'' | Some i \<Rightarrow> Inr (example_entry\<lparr>le_Index := i\<rparr>)),
      enc_snapshot = (\<lambda>_. ''s''), dec_snapshot = (\<lambda>_. Inl ''bad''),
      dec_put = (\<lambda>_. Inl ''bad''), dec_key = (\<lambda>_. Inl ''bad'')\<rparr>"

definition example_log :: list_state where
  "example_log = (\<lambda>cf. if cf = CFLog then [(log_key 9, ''9''), (log_key 10, ''10'')] else [])"

lemma itoa_numerals: "itoa 9 = ''9''" "itoa 10 = ''10''"
  by code_simp+

lemma example_log_scan: "db_Scan list_db CFLog example_log = [(log_key 10, ''10''), (log_key 9, ''9'')]"
  by (simp add: list_db_def example_log_def log_key_def itoa_numerals less_char_def)

lemma example_log_ok: "log_ok list_db example_log"
  unfolding log_ok_def example_log_scan by (auto intro: exI [of _ 9] exI [of _ 10])

theorem log_append_roundtrip_witness:
  "GetLogEntries list_db example_codec 0 0 (snd (AppendLogEntries list_db example_codec [example_entry] example_log))
     = Some (Inr [example_entry])"
proof -
  have "dec_entry example_codec (enc_entry example_codec example_entry) = Inr example_entry"
    using Atoi_itoa [of 0] by (simp add: example_codec_def example_entry_def)
  moreover have "AppendLogEntries list_db example_codec [example_entry] example_log =
      (None, snd (AppendLogEntries list_db example_codec [example_entry] example_log))"
    by (simp add: AppendLogEntries_def list_db_def)
  ultimately show ?thesis
    using log_append_roundtrip [OF list_db_laws, of "[example_entry]" example_codec example_log _ 0 0]
    by (simp add: example_entry_def)
qed

theorem truncate_log_exact_witness:
  "10 \<in> log_indices list_db (snd (TruncateLog list_db 9 example_log)) \<and>
   9 \<notin> log_indices list_db (snd (TruncateLog list_db 9 example_log))"
proof -
  have "TruncateLog list_db 9 example_log = (None, snd (TruncateLog list_db 9 example_log))"
    by (simp add: TruncateLog_def list_db_def)
  from truncate_log_exact [OF list_db_laws example_log_ok this]
  have "log_indices list_db (snd (TruncateLog list_db 9 example_log)) =
      log_indices list_db example_log - {i. 9 \<le> i \<and> log_key 9 \<le> log_key i}" by blast
  moreover have "10 \<in> log_indices list_db example_log"
    by (simp add: log_indices_def list_db_map example_log_def)
  moreover have "\<not> log_key 9 \<le> log_key 10"
    by (simp add: log_key_def itoa_numerals less_char_def)
  ultimately show ?thesis by simp
qed

theorem last_log_index_witness: "GetLastLogIndex list_db example_log = Inr 9"
proof -
  obtain i where i: "GetLastLogIndex list_db example_log = Inr i"
    using last_log_index_by_key [OF list_db_laws example_log_ok] example_log_scan by auto
  moreover have "sscanf_log (log_key 9) = Some 9" by (rule sscanf_log_key) simp
  ultimately show ?thesis
    by (simp add: GetLastLogIndex_def example_log_scan)
qed

end
