(* ===== verification/KV_Store.thy ===== *)
theory KV_Store
  imports Go_Env
begin

text \<open>
  The distributed key-value store: \<open>distributed-kv-store/services/kvstore-node/internal/config/config.go\<close>,
  the store of \<open>internal/kvstore/store.go\<close> that sends each operation to an engine by its consistency level, and
  the HTTP handlers of \<open>main.go\<close>. The Raft engine, the quorum engine and the local storage are packages that are not in
  the repository: they are the record \<open>Engines\<close>, functions on a world of any type, an argument of every definition
  that calls them. A store field that points to an engine is the flag that it was created. The background loops
  are their ticks.

  The lemmas show that a validated configuration has overlapping quorums in the modes that promise
  strong consistency, and that a store built from one never lacks the engine an operation needs.
\<close>

section \<open>Configuration\<close>

type_synonym ConsistencyMode = string

abbreviation StrongConsistency :: ConsistencyMode where "StrongConsistency \<equiv> ''strong''"
abbreviation EventualConsistency :: ConsistencyMode where "EventualConsistency \<equiv> ''eventual''"
abbreviation HybridConsistency :: ConsistencyMode where "HybridConsistency \<equiv> ''hybrid''"

record KVConfig =
  kc_NodeID :: string
  kc_NodeAddress :: string
  kc_HTTPPort :: int
  kc_GRPCPort :: int
  kc_MetricsPort :: int
  kc_ClusterNodes :: "(string, string) gomap"
  kc_ConsistencyMode :: ConsistencyMode
  kc_ReplicationFactor :: int
  kc_ReadQuorum :: int
  kc_WriteQuorum :: int
  kc_EnableRaft :: bool
  kc_EnableQuorum :: bool
  kc_HintedHandoffEnabled :: bool
  kc_ReadRepairEnabled :: bool
  kc_AntiEntropyEnabled :: bool
  kc_RequestTimeout :: duration
  kc_HintedHandoffTimeout :: duration
  kc_ReadRepairInterval :: duration
  kc_AntiEntropyInterval :: duration
  kc_DataDir :: string
  kc_PrometheusEnabled :: bool
  kc_JaegerEndpoint :: string
  kc_LogLevel :: string

definition kv_validate :: "KVConfig \<Rightarrow> goerror option" where
  "kv_validate c =
     (if kc_NodeID c = '''' then Some ''node ID cannot be empty''
      else if kc_NodeAddress c = '''' then Some ''node address cannot be empty''
      else if length (kc_ClusterNodes c) = 0 then Some ''cluster nodes cannot be empty''
      else if map_of (kc_ClusterNodes c) (kc_NodeID c) = None
      then Some (''current node ID '' @ kc_NodeID c @ '' not found in cluster nodes'')
      else if kc_ConsistencyMode c \<notin> {StrongConsistency, EventualConsistency, HybridConsistency}
      then Some (''invalid consistency mode: '' @ kc_ConsistencyMode c)
      else if kc_ReadQuorum c < 1 \<or> kc_ReadQuorum c > kc_ReplicationFactor c
      then Some ''read quorum must be between 1 and replication factor''
      else if kc_WriteQuorum c < 1 \<or> kc_WriteQuorum c > kc_ReplicationFactor c
      then Some ''write quorum must be between 1 and replication factor''
      else if (kc_ConsistencyMode c = StrongConsistency \<or> kc_ConsistencyMode c = HybridConsistency) \<and>
              wrap64 (kc_ReadQuorum c + kc_WriteQuorum c) \<le> kc_ReplicationFactor c
      then Some ''for strong consistency, read quorum + write quorum must be > replication factor''
      else if kc_ConsistencyMode c = StrongConsistency \<and> \<not> kc_EnableRaft c
      then Some ''strong consistency mode requires Raft to be enabled''
      else if kc_ConsistencyMode c = EventualConsistency \<and> \<not> kc_EnableQuorum c
      then Some ''eventual consistency mode requires quorum to be enabled''
      else None)"

definition kv_env_config :: "(string \<Rightarrow> duration option) \<Rightarrow> environ \<Rightarrow> KVConfig" where
  "kv_env_config ParseDuration env =
     \<lparr>kc_NodeID = getEnv env ''NODE_ID'' ''kvstore-node1'',
      kc_NodeAddress = getEnv env ''NODE_ADDRESS'' ''localhost:9090'',
      kc_HTTPPort = getEnvInt env ''HTTP_PORT'' 8080,
      kc_GRPCPort = getEnvInt env ''GRPC_PORT'' 9090,
      kc_MetricsPort = getEnvInt env ''METRICS_PORT'' 7070,
      kc_ClusterNodes = [],
      kc_ConsistencyMode = getEnv env ''CONSISTENCY_MODE'' ''hybrid'',
      kc_ReplicationFactor = getEnvInt env ''REPLICATION_FACTOR'' 3,
      kc_ReadQuorum = getEnvInt env ''READ_QUORUM'' 2,
      kc_WriteQuorum = getEnvInt env ''WRITE_QUORUM'' 2,
      kc_EnableRaft = getEnvBool env ''ENABLE_RAFT'' True,
      kc_EnableQuorum = getEnvBool env ''ENABLE_QUORUM'' True,
      kc_HintedHandoffEnabled = getEnvBool env ''HINTED_HANDOFF_ENABLED'' True,
      kc_ReadRepairEnabled = getEnvBool env ''READ_REPAIR_ENABLED'' True,
      kc_AntiEntropyEnabled = getEnvBool env ''ANTI_ENTROPY_ENABLED'' True,
      kc_RequestTimeout = getEnvDuration ParseDuration env ''REQUEST_TIMEOUT'' (5 * second),
      kc_HintedHandoffTimeout = getEnvDuration ParseDuration env ''HINTED_HANDOFF_TIMEOUT'' (10 * second),
      kc_ReadRepairInterval = getEnvDuration ParseDuration env ''READ_REPAIR_INTERVAL'' (60 * second),
      kc_AntiEntropyInterval = getEnvDuration ParseDuration env ''ANTI_ENTROPY_INTERVAL'' (300 * second),
      kc_DataDir = getEnv env ''DATA_DIR'' ''./data'',
      kc_PrometheusEnabled = getEnvBool env ''PROMETHEUS_ENABLED'' True,
      kc_JaegerEndpoint = getEnv env ''JAEGER_ENDPOINT'' '''',
      kc_LogLevel = getEnv env ''LOG_LEVEL'' ''info''\<rparr>"

definition kv_Load :: "(string \<Rightarrow> duration option) \<Rightarrow> environ \<Rightarrow> goerror + KVConfig" where
  "kv_Load ParseDuration env =
     (let cfg = kv_env_config ParseDuration env;
          clusterNodes = getEnv env ''CLUSTER_NODES'' ''''
      in if clusterNodes = '''' then Inl ''CLUSTER_NODES environment variable is required''
         else case parse_cluster_nodes (strings_Split CHR '','' clusterNodes) [] of
                Inl err \<Rightarrow> Inl err
              | Inr nodes \<Rightarrow>
                  let cfg1 = cfg\<lparr>kc_ClusterNodes := nodes\<rparr>
                  in case kv_validate cfg1 of
                       Some err \<Rightarrow> Inl (''configuration validation failed: '' @ err)
                     | None \<Rightarrow> Inr cfg1)"

definition kv_GetPeers :: "KVConfig \<Rightarrow> (string, string) gomap" where
  "kv_GetPeers c =
     fold (\<lambda>(nodeID, address) peers.
             if nodeID \<noteq> kc_NodeID c then go_set nodeID address peers else peers)
       (kc_ClusterNodes c) []"

definition IsStrongConsistencyEnabled :: "KVConfig \<Rightarrow> bool" where
  "IsStrongConsistencyEnabled c =
     (kc_ConsistencyMode c = StrongConsistency \<or> kc_ConsistencyMode c = HybridConsistency)"

definition IsEventualConsistencyEnabled :: "KVConfig \<Rightarrow> bool" where
  "IsEventualConsistencyEnabled c =
     (kc_ConsistencyMode c = EventualConsistency \<or> kc_ConsistencyMode c = HybridConsistency)"

definition GetConsistencyLevel :: "KVConfig \<Rightarrow> string \<Rightarrow> string" where
  "GetConsistencyLevel c requestedLevel =
     (if kc_ConsistencyMode c = HybridConsistency
      then if requestedLevel \<in> {''strong'', ''eventual'', ''local''} then requestedLevel else ''eventual''
      else if kc_ConsistencyMode c = StrongConsistency then ''strong''
      else if kc_ConsistencyMode c = EventualConsistency then ''eventual''
      else ''eventual'')"

section \<open>The store\<close>

record 'w Engines =
  raft_NewEngine :: "KVConfig \<Rightarrow> 'w \<Rightarrow> goerror option \<times> 'w"
  quorum_NewEngine :: "KVConfig \<Rightarrow> 'w \<Rightarrow> goerror option \<times> 'w"
  raft_StartE :: "'w \<Rightarrow> goerror option \<times> 'w"
  quorum_StartE :: "'w \<Rightarrow> goerror option \<times> 'w"
  raft_StopE :: "'w \<Rightarrow> 'w"
  quorum_StopE :: "'w \<Rightarrow> 'w"
  raft_GetE :: "string \<Rightarrow> 'w \<Rightarrow> (goerror + string \<times> int) \<times> 'w"
  raft_PutE :: "string \<Rightarrow> string \<Rightarrow> 'w \<Rightarrow> (goerror + int) \<times> 'w"
  raft_PutIfVersionE :: "string \<Rightarrow> string \<Rightarrow> int \<Rightarrow> 'w \<Rightarrow> (goerror + int) \<times> 'w"
  raft_DeleteE :: "string \<Rightarrow> 'w \<Rightarrow> goerror option \<times> 'w"
  raft_BatchE :: "json list \<Rightarrow> 'w \<Rightarrow> (goerror + json list) \<times> 'w"
  quorum_GetE :: "string \<Rightarrow> int \<Rightarrow> 'w \<Rightarrow> (goerror + string \<times> int) \<times> 'w"
  quorum_PutE :: "string \<Rightarrow> string \<Rightarrow> int \<Rightarrow> 'w \<Rightarrow> (goerror + int) \<times> 'w"
  quorum_PutIfVersionE :: "string \<Rightarrow> string \<Rightarrow> int \<Rightarrow> int \<Rightarrow> 'w \<Rightarrow> (goerror + int) \<times> 'w"
  quorum_DeleteE :: "string \<Rightarrow> int \<Rightarrow> 'w \<Rightarrow> goerror option \<times> 'w"
  quorum_BatchE :: "json list \<Rightarrow> int \<Rightarrow> 'w \<Rightarrow> (goerror + json list) \<times> 'w"
  storage_GetE :: "string \<Rightarrow> 'w \<Rightarrow> (goerror + string \<times> int) \<times> 'w"
  quorum_PerformReadRepair :: "'w \<Rightarrow> 'w"
  quorum_PerformAntiEntropy :: "'w \<Rightarrow> 'w"

record KVStore =
  ks_config :: KVConfig
  ks_raftEngine :: bool
  ks_quorumEngine :: bool
  ks_operationCount :: "(string, int) gomap"
  ks_lastOperation :: gotime
  ks_readRepairTicker :: "duration option"
  ks_antiEntropyTicker :: "duration option"
  ks_stopCh :: bool

definition NewStore :: "'w Engines \<Rightarrow> KVConfig \<Rightarrow> 'w \<Rightarrow> (goerror + KVStore) \<times> 'w" where
  "NewStore E cfg w0 =
     (let store = \<lparr>ks_config = cfg, ks_raftEngine = False, ks_quorumEngine = False,
                   ks_operationCount = [], ks_lastOperation = 0, ks_readRepairTicker = None,
                   ks_antiEntropyTicker = None, ks_stopCh = False\<rparr>;
          (raftErr, w1) = (if IsStrongConsistencyEnabled cfg then raft_NewEngine E cfg w0 else (None, w0))
      in case raftErr of
           Some err \<Rightarrow> (Inl (''failed to initialize Raft engine: '' @ err), w1)
         | None \<Rightarrow>
             let store1 = store\<lparr>ks_raftEngine := IsStrongConsistencyEnabled cfg\<rparr>;
                 (quorumErr, w2) = (if IsEventualConsistencyEnabled cfg then quorum_NewEngine E cfg w1 else (None, w1))
             in case quorumErr of
                  Some err \<Rightarrow> (Inl (''failed to initialize Quorum engine: '' @ err), w2)
                | None \<Rightarrow> (Inr (store1\<lparr>ks_quorumEngine := IsEventualConsistencyEnabled cfg\<rparr>), w2))"

text \<open>\<open>time.NewTicker\<close> panics on an interval that is not positive: \<open>None\<close>.\<close>

definition startBackgroundProcesses :: "KVStore \<Rightarrow> KVStore option" where
  "startBackgroundProcesses s0 =
     (let c = ks_config s0 in
      if kc_ReadRepairEnabled c \<and> kc_ReadRepairInterval c \<le> 0 then None
      else let s = (if kc_ReadRepairEnabled c
                    then s0\<lparr>ks_readRepairTicker := Some (kc_ReadRepairInterval c)\<rparr> else s0)
           in if kc_AntiEntropyEnabled c \<and> kc_AntiEntropyInterval c \<le> 0 then None
              else Some (if kc_AntiEntropyEnabled c
                         then s\<lparr>ks_antiEntropyTicker := Some (kc_AntiEntropyInterval c)\<rparr> else s))"

definition kv_Start :: "'w Engines \<Rightarrow> KVStore \<Rightarrow> 'w \<Rightarrow> (goerror option \<times> KVStore \<times> 'w) option" where
  "kv_Start E s w0 =
     (let (raftErr, w1) = (if ks_raftEngine s then raft_StartE E w0 else (None, w0))
      in case raftErr of
           Some err \<Rightarrow> Some (Some (''failed to start Raft engine: '' @ err), s, w1)
         | None \<Rightarrow>
             let (quorumErr, w2) = (if ks_quorumEngine s then quorum_StartE E w1 else (None, w1))
             in case quorumErr of
                  Some err \<Rightarrow> Some (Some (''failed to start Quorum engine: '' @ err), s, w2)
                | None \<Rightarrow>
                    (case startBackgroundProcesses s of
                       None \<Rightarrow> None
                     | Some s' \<Rightarrow> Some (None, s', w2)))"

text \<open>Stopping twice closes a closed channel, a panic.\<close>

definition kv_Stop :: "'w Engines \<Rightarrow> KVStore \<Rightarrow> 'w \<Rightarrow> (KVStore \<times> 'w) option" where
  "kv_Stop E s w0 =
     (if ks_stopCh s then None
      else let w1 = (if ks_raftEngine s then raft_StopE E w0 else w0);
               w2 = (if ks_quorumEngine s then quorum_StopE E w1 else w1)
           in Some (s\<lparr>ks_stopCh := True\<rparr>, w2))"

definition count_operation :: "string \<Rightarrow> gotime \<Rightarrow> KVStore \<Rightarrow> KVStore" where
  "count_operation name now s =
     s\<lparr>ks_operationCount := go_set name (wrap64 (go_get 0 (ks_operationCount s) name + 1)) (ks_operationCount s),
       ks_lastOperation := now\<rparr>"

definition getStrong :: "'w Engines \<Rightarrow> string \<Rightarrow> KVStore \<Rightarrow> 'w \<Rightarrow> (goerror + string \<times> int) \<times> 'w" where
  "getStrong E key s w =
     (if \<not> ks_raftEngine s then (Inl ''strong consistency not enabled'', w) else raft_GetE E key w)"

definition getEventual :: "'w Engines \<Rightarrow> string \<Rightarrow> KVStore \<Rightarrow> 'w \<Rightarrow> (goerror + string \<times> int) \<times> 'w" where
  "getEventual E key s w =
     (if \<not> ks_quorumEngine s then (Inl ''eventual consistency not enabled'', w)
      else quorum_GetE E key (kc_ReadQuorum (ks_config s)) w)"

definition getLocal :: "'w Engines \<Rightarrow> string \<Rightarrow> KVStore \<Rightarrow> 'w \<Rightarrow> (goerror + string \<times> int) \<times> 'w" where
  "getLocal E key s w = storage_GetE E key w"

definition putStrong :: "'w Engines \<Rightarrow> string \<Rightarrow> string \<Rightarrow> KVStore \<Rightarrow> 'w \<Rightarrow> (goerror + int) \<times> 'w" where
  "putStrong E key v s w =
     (if \<not> ks_raftEngine s then (Inl ''strong consistency not enabled'', w) else raft_PutE E key v w)"

definition putEventual :: "'w Engines \<Rightarrow> string \<Rightarrow> string \<Rightarrow> KVStore \<Rightarrow> 'w \<Rightarrow> (goerror + int) \<times> 'w" where
  "putEventual E key v s w =
     (if \<not> ks_quorumEngine s then (Inl ''eventual consistency not enabled'', w)
      else quorum_PutE E key v (kc_WriteQuorum (ks_config s)) w)"

definition putIfVersionStrong ::
  "'w Engines \<Rightarrow> string \<Rightarrow> string \<Rightarrow> int \<Rightarrow> KVStore \<Rightarrow> 'w \<Rightarrow> (goerror + int) \<times> 'w" where
  "putIfVersionStrong E key v expected s w =
     (if \<not> ks_raftEngine s then (Inl ''strong consistency not enabled'', w)
      else raft_PutIfVersionE E key v expected w)"

definition putIfVersionEventual ::
  "'w Engines \<Rightarrow> string \<Rightarrow> string \<Rightarrow> int \<Rightarrow> KVStore \<Rightarrow> 'w \<Rightarrow> (goerror + int) \<times> 'w" where
  "putIfVersionEventual E key v expected s w =
     (if \<not> ks_quorumEngine s then (Inl ''eventual consistency not enabled'', w)
      else quorum_PutIfVersionE E key v expected (kc_WriteQuorum (ks_config s)) w)"

definition deleteStrong :: "'w Engines \<Rightarrow> string \<Rightarrow> KVStore \<Rightarrow> 'w \<Rightarrow> goerror option \<times> 'w" where
  "deleteStrong E key s w =
     (if \<not> ks_raftEngine s then (Some ''strong consistency not enabled'', w) else raft_DeleteE E key w)"

definition deleteEventual :: "'w Engines \<Rightarrow> string \<Rightarrow> KVStore \<Rightarrow> 'w \<Rightarrow> goerror option \<times> 'w" where
  "deleteEventual E key s w =
     (if \<not> ks_quorumEngine s then (Some ''eventual consistency not enabled'', w)
      else quorum_DeleteE E key (kc_WriteQuorum (ks_config s)) w)"

definition batchStrong :: "'w Engines \<Rightarrow> json list \<Rightarrow> KVStore \<Rightarrow> 'w \<Rightarrow> (goerror + json list) \<times> 'w" where
  "batchStrong E ops s w =
     (if \<not> ks_raftEngine s then (Inl ''strong consistency not enabled'', w) else raft_BatchE E ops w)"

definition batchEventual :: "'w Engines \<Rightarrow> json list \<Rightarrow> KVStore \<Rightarrow> 'w \<Rightarrow> (goerror + json list) \<times> 'w" where
  "batchEventual E ops s w =
     (if \<not> ks_quorumEngine s then (Inl ''eventual consistency not enabled'', w)
      else quorum_BatchE E ops (kc_WriteQuorum (ks_config s)) w)"

definition kv_Get ::
  "'w Engines \<Rightarrow> gotime \<Rightarrow> string \<Rightarrow> string \<Rightarrow> KVStore \<Rightarrow> 'w \<Rightarrow> (goerror + string \<times> int) \<times> KVStore \<times> 'w" where
  "kv_Get E now key level s0 w0 =
     (let s = count_operation ''get'' now s0;
          actualLevel = GetConsistencyLevel (ks_config s) level;
          (r, w) = (if actualLevel = ''strong'' then getStrong E key s w0
                    else if actualLevel = ''eventual'' then getEventual E key s w0
                    else if actualLevel = ''local'' then getLocal E key s w0
                    else getEventual E key s w0)
      in (r, s, w))"

definition kv_Put ::
  "'w Engines \<Rightarrow> gotime \<Rightarrow> string \<Rightarrow> string \<Rightarrow> string \<Rightarrow> KVStore \<Rightarrow> 'w \<Rightarrow> (goerror + int) \<times> KVStore \<times> 'w" where
  "kv_Put E now key v level s0 w0 =
     (let s = count_operation ''put'' now s0;
          actualLevel = GetConsistencyLevel (ks_config s) level;
          (r, w) = (if actualLevel = ''strong'' then putStrong E key v s w0
                    else if actualLevel = ''eventual'' then putEventual E key v s w0
                    else putEventual E key v s w0)
      in (r, s, w))"

definition kv_PutIfVersion ::
  "'w Engines \<Rightarrow> gotime \<Rightarrow> string \<Rightarrow> string \<Rightarrow> int \<Rightarrow> string \<Rightarrow> KVStore \<Rightarrow> 'w \<Rightarrow>
   (goerror + int) \<times> KVStore \<times> 'w" where
  "kv_PutIfVersion E now key v expected level s0 w0 =
     (let s = count_operation ''put_if_version'' now s0;
          actualLevel = GetConsistencyLevel (ks_config s) level;
          (r, w) = (if actualLevel = ''strong'' then putIfVersionStrong E key v expected s w0
                    else if actualLevel = ''eventual'' then putIfVersionEventual E key v expected s w0
                    else putIfVersionEventual E key v expected s w0)
      in (r, s, w))"

definition kv_Delete ::
  "'w Engines \<Rightarrow> gotime \<Rightarrow> string \<Rightarrow> string \<Rightarrow> KVStore \<Rightarrow> 'w \<Rightarrow> goerror option \<times> KVStore \<times> 'w" where
  "kv_Delete E now key level s0 w0 =
     (let s = count_operation ''delete'' now s0;
          actualLevel = GetConsistencyLevel (ks_config s) level;
          (r, w) = (if actualLevel = ''strong'' then deleteStrong E key s w0
                    else if actualLevel = ''eventual'' then deleteEventual E key s w0
                    else deleteEventual E key s w0)
      in (r, s, w))"

definition kv_Batch ::
  "'w Engines \<Rightarrow> gotime \<Rightarrow> json list \<Rightarrow> string \<Rightarrow> KVStore \<Rightarrow> 'w \<Rightarrow> (goerror + json list) \<times> KVStore \<times> 'w" where
  "kv_Batch E now ops level s0 w0 =
     (let s = count_operation ''batch'' now s0;
          actualLevel = GetConsistencyLevel (ks_config s) level;
          (r, w) = (if actualLevel = ''strong'' then batchStrong E ops s w0
                    else if actualLevel = ''eventual'' then batchEventual E ops s w0
                    else batchEventual E ops s w0)
      in (r, s, w))"

definition performReadRepair :: "'w Engines \<Rightarrow> KVStore \<Rightarrow> 'w \<Rightarrow> 'w" where
  "performReadRepair E s w = (if ks_quorumEngine s then quorum_PerformReadRepair E w else w)"

definition performAntiEntropy :: "'w Engines \<Rightarrow> KVStore \<Rightarrow> 'w \<Rightarrow> 'w" where
  "performAntiEntropy E s w = (if ks_quorumEngine s then quorum_PerformAntiEntropy E w else w)"

text \<open>The two triggers start a goroutine; the second component is what it runs.\<close>

definition TriggerReadRepair :: "'w Engines \<Rightarrow> KVStore \<Rightarrow> goerror option \<times> ('w \<Rightarrow> 'w)" where
  "TriggerReadRepair E s =
     (if \<not> ks_quorumEngine s then (Some ''quorum engine not available'', \<lambda>w. w)
      else (None, performReadRepair E s))"

definition TriggerAntiEntropy :: "'w Engines \<Rightarrow> KVStore \<Rightarrow> goerror option \<times> ('w \<Rightarrow> 'w)" where
  "TriggerAntiEntropy E s =
     (if \<not> ks_quorumEngine s then (Some ''quorum engine not available'', \<lambda>w. w)
      else (None, performAntiEntropy E s))"

section \<open>HTTP handlers\<close>

datatype KVBody =
  KError goerror
| KValue string string int string string
| KDeleted string string string
| KResults "json list" string string

definition consistency_query :: "string option \<Rightarrow> string" where
  "consistency_query q = (case q of None \<Rightarrow> ''eventual'' | Some level \<Rightarrow> level)"

definition kv_getValue ::
  "'w Engines \<Rightarrow> gotime \<Rightarrow> string \<Rightarrow> string option \<Rightarrow> KVStore \<Rightarrow> 'w \<Rightarrow> (int \<times> KVBody) \<times> KVStore \<times> 'w" where
  "kv_getValue E now key query s0 w0 =
     (let level = consistency_query query; (r, s, w) = kv_Get E now key level s0 w0
      in (case r of
            Inl err \<Rightarrow> (404, KError err)
          | Inr (v, version) \<Rightarrow> (200, KValue key v version level (kc_NodeID (ks_config s))), s, w))"

text \<open>\<open>body\<close> is what \<open>ShouldBindJSON\<close> makes of the request, \<open>ifVersion\<close> the query parameter.\<close>

definition kv_putValue ::
  "'w Engines \<Rightarrow> gotime \<Rightarrow> string \<Rightarrow> string option \<Rightarrow> string \<Rightarrow> goerror + string \<Rightarrow> KVStore \<Rightarrow> 'w \<Rightarrow>
   (int \<times> KVBody) \<times> KVStore \<times> 'w" where
  "kv_putValue E now key query ifVersion body s0 w0 =
     (let level = consistency_query query in
      case body of
        Inl err \<Rightarrow> ((400, KError err), s0, w0)
      | Inr v \<Rightarrow>
          if ifVersion \<noteq> '''' \<and> strconv_Atoi ifVersion = None
          then ((400, KError ''invalid if-version parameter''), s0, w0)
          else let (r, s, w) =
                     (if ifVersion \<noteq> ''''
                      then kv_PutIfVersion E now key v (the (strconv_Atoi ifVersion)) level s0 w0
                      else kv_Put E now key v level s0 w0)
               in (case r of
                     Inl err \<Rightarrow> (500, KError err)
                   | Inr version \<Rightarrow> (200, KValue key v version level (kc_NodeID (ks_config s))), s, w))"

definition kv_deleteValue ::
  "'w Engines \<Rightarrow> gotime \<Rightarrow> string \<Rightarrow> string option \<Rightarrow> KVStore \<Rightarrow> 'w \<Rightarrow> (int \<times> KVBody) \<times> KVStore \<times> 'w" where
  "kv_deleteValue E now key query s0 w0 =
     (let level = consistency_query query; (r, s, w) = kv_Delete E now key level s0 w0
      in (case r of
            Some err \<Rightarrow> (500, KError err)
          | None \<Rightarrow> (200, KDeleted key level (kc_NodeID (ks_config s))), s, w))"

definition kv_batchOperations ::
  "'w Engines \<Rightarrow> gotime \<Rightarrow> string option \<Rightarrow> goerror + json list \<Rightarrow> KVStore \<Rightarrow> 'w \<Rightarrow>
   (int \<times> KVBody) \<times> KVStore \<times> 'w" where
  "kv_batchOperations E now query body s0 w0 =
     (let level = consistency_query query in
      case body of
        Inl err \<Rightarrow> ((400, KError err), s0, w0)
      | Inr ops \<Rightarrow>
          let (r, s, w) = kv_Batch E now ops level s0 w0
          in (case r of
                Inl err \<Rightarrow> (500, KError err)
              | Inr results \<Rightarrow> (200, KResults results level (kc_NodeID (ks_config s))), s, w))"

section \<open>Validated configurations\<close>

lemma getEnvInt_range: "int64_range d \<Longrightarrow> int64_range (getEnvInt env name d)"
  by (auto simp: getEnvInt_def strconv_Atoi_def Let_def split: option.splits if_splits list.splits)

lemma kv_Load_ok:
  assumes "kv_Load pd env = Inr cfg"
  shows "kv_validate cfg = None" "int64_range (kc_ReadQuorum cfg)" "int64_range (kc_WriteQuorum cfg)"
    "int64_range (kc_ReplicationFactor cfg)"
proof -
  obtain nodes where cfg: "cfg = (kv_env_config pd env)\<lparr>kc_ClusterNodes := nodes\<rparr>" "kv_validate cfg = None"
    using assms by (auto simp: kv_Load_def Let_def split: if_splits sum.splits option.splits)
  then show "kv_validate cfg = None" by simp
  show "int64_range (kc_ReadQuorum cfg)" "int64_range (kc_WriteQuorum cfg)"
    "int64_range (kc_ReplicationFactor cfg)"
    unfolding cfg(1) kv_env_config_def KVConfig.simps by (rule getEnvInt_range; simp)+
qed

lemma kv_validate_quorums:
  assumes "kv_validate c = None"
  shows "kc_ConsistencyMode c \<in> {StrongConsistency, EventualConsistency, HybridConsistency}"
    "1 \<le> kc_ReadQuorum c" "kc_ReadQuorum c \<le> kc_ReplicationFactor c"
    "1 \<le> kc_WriteQuorum c" "kc_WriteQuorum c \<le> kc_ReplicationFactor c"
    "IsStrongConsistencyEnabled c \<Longrightarrow> kc_ReplicationFactor c < wrap64 (kc_ReadQuorum c + kc_WriteQuorum c)"
  using assms by (simp_all add: kv_validate_def IsStrongConsistencyEnabled_def not_le not_less split: if_split_asm)

lemma wrap64_sum_greater:
  assumes "1 \<le> a" "1 \<le> b" "a \<le> n" "b \<le> n" "n < 2 ^ 63" "n < wrap64 (a + b)"
  shows "n < a + b"
proof (rule ccontr)
  assume "\<not> n < a + b"
  then have "wrap64 (a + b) = a + b"
    using assms(1,2,5) by (intro wrap64_id) simp
  with assms(6) \<open>\<not> n < a + b\<close> show False by simp
qed

lemma sets_overlap:
  assumes "finite N" "R \<subseteq> N" "W \<subseteq> N" "card N < card R + card W"
  shows "R \<inter> W \<noteq> {}"
proof
  assume "R \<inter> W = {}"
  then have "card R + card W = card (R \<union> W)"
    using assms finite_subset [of R N] finite_subset [of W N] by (simp add: card_Un_disjoint)
  also have "\<dots> \<le> card N"
    using assms by (intro card_mono) auto
  finally show False using assms(4) by simp
qed

section \<open>Stores\<close>

text \<open>What \<open>NewStore\<close> establishes and every operation keeps.\<close>

definition store_ok :: "KVConfig \<Rightarrow> KVStore \<Rightarrow> bool" where
  "store_ok cfg s =
     (ks_config s = cfg \<and> ks_raftEngine s = IsStrongConsistencyEnabled cfg \<and>
      ks_quorumEngine s = IsEventualConsistencyEnabled cfg)"

lemma NewStore_ok: "NewStore E cfg w = (Inr s, w') \<Longrightarrow> store_ok cfg s"
  by (auto simp: NewStore_def Let_def store_ok_def split: option.splits prod.splits)

lemma count_operation_ok [simp]: "store_ok cfg (count_operation name now s) = store_ok cfg s"
  by (simp add: store_ok_def count_operation_def)

lemma level_served:
  assumes "kv_validate cfg = None"
  shows "(GetConsistencyLevel cfg level = ''strong'' \<longrightarrow> IsStrongConsistencyEnabled cfg) \<and>
         (GetConsistencyLevel cfg level = ''eventual'' \<longrightarrow> IsEventualConsistencyEnabled cfg) \<and>
         (GetConsistencyLevel cfg level = ''local'' \<longrightarrow> kc_ConsistencyMode cfg = HybridConsistency) \<and>
         GetConsistencyLevel cfg level \<in> {''strong'', ''eventual'', ''local''}"
  using kv_validate_quorums(1) [OF assms]
  by (auto simp: GetConsistencyLevel_def IsStrongConsistencyEnabled_def IsEventualConsistencyEnabled_def)

lemmas engine_defs =
  getStrong_def getEventual_def getLocal_def putStrong_def putEventual_def putIfVersionStrong_def
  putIfVersionEventual_def deleteStrong_def deleteEventual_def

lemma dispatch_operations:
  assumes "kv_validate cfg = None" and "store_ok cfg s"
    and "level = GetConsistencyLevel cfg requested"
  shows "kv_Get E now key requested s w =
           (let (r, w') = (if level = ''strong'' then raft_GetE E key w
                           else if level = ''local'' then storage_GetE E key w
                           else quorum_GetE E key (kc_ReadQuorum cfg) w)
            in (r, count_operation ''get'' now s, w'))"
    and "kv_Put E now key v requested s w =
           (let (r, w') = (if level = ''strong'' then raft_PutE E key v w
                           else quorum_PutE E key v (kc_WriteQuorum cfg) w)
            in (r, count_operation ''put'' now s, w'))"
    and "kv_PutIfVersion E now key v expected requested s w =
           (let (r, w') = (if level = ''strong'' then raft_PutIfVersionE E key v expected w
                           else quorum_PutIfVersionE E key v expected (kc_WriteQuorum cfg) w)
            in (r, count_operation ''put_if_version'' now s, w'))"
    and "kv_Delete E now key requested s w =
           (let (e, w') = (if level = ''strong'' then raft_DeleteE E key w
                           else quorum_DeleteE E key (kc_WriteQuorum cfg) w)
            in (e, count_operation ''delete'' now s, w'))"
proof -
  have c: "ks_config (count_operation name now s) = cfg"
      "ks_raftEngine (count_operation name now s) = IsStrongConsistencyEnabled cfg"
      "ks_quorumEngine (count_operation name now s) = IsEventualConsistencyEnabled cfg" for name
    using assms(2) by (simp_all add: store_ok_def count_operation_def)
  have hybrid: "kc_ConsistencyMode cfg = HybridConsistency \<Longrightarrow> IsEventualConsistencyEnabled cfg"
    by (simp add: IsEventualConsistencyEnabled_def)
  show "kv_Get E now key requested s w =
           (let (r, w') = (if level = ''strong'' then raft_GetE E key w
                           else if level = ''local'' then storage_GetE E key w
                           else quorum_GetE E key (kc_ReadQuorum cfg) w)
            in (r, count_operation ''get'' now s, w'))"
    using level_served [OF assms(1), of requested] assms(3) by (auto simp: kv_Get_def c engine_defs)
  show "kv_Put E now key v requested s w =
           (let (r, w') = (if level = ''strong'' then raft_PutE E key v w
                           else quorum_PutE E key v (kc_WriteQuorum cfg) w)
            in (r, count_operation ''put'' now s, w'))"
    using level_served [OF assms(1), of requested] assms(3) hybrid by (auto simp: kv_Put_def c engine_defs)
  show "kv_PutIfVersion E now key v expected requested s w =
           (let (r, w') = (if level = ''strong'' then raft_PutIfVersionE E key v expected w
                           else quorum_PutIfVersionE E key v expected (kc_WriteQuorum cfg) w)
            in (r, count_operation ''put_if_version'' now s, w'))"
    using level_served [OF assms(1), of requested] assms(3) hybrid by (auto simp: kv_PutIfVersion_def c engine_defs)
  show "kv_Delete E now key requested s w =
           (let (e, w') = (if level = ''strong'' then raft_DeleteE E key w
                           else quorum_DeleteE E key (kc_WriteQuorum cfg) w)
            in (e, count_operation ''delete'' now s, w'))"
    using level_served [OF assms(1), of requested] assms(3) hybrid by (auto simp: kv_Delete_def c engine_defs)
qed

section \<open>Properties\<close>

text \<open>C8: In a configuration that loads in a mode with strong consistency, every read quorum
  meets every write quorum, whatever 64-bit numbers the environment gives.\<close>

theorem kv_quorums_overlap:
  assumes "kv_Load pd env = Inr cfg" and "IsStrongConsistencyEnabled cfg"
    and "finite replicas" and "int (card replicas) = kc_ReplicationFactor cfg"
    and "R \<subseteq> replicas" and "int (card R) = kc_ReadQuorum cfg"
    and "W \<subseteq> replicas" and "int (card W) = kc_WriteQuorum cfg"
  shows "R \<inter> W \<noteq> {}"
proof (rule sets_overlap [OF assms(3,5,7)])
  note ok = kv_Load_ok [OF assms(1)]
  note q = kv_validate_quorums [OF ok(1)]
  have "kc_ReplicationFactor cfg < kc_ReadQuorum cfg + kc_WriteQuorum cfg"
    using q(2-5) ok(4) q(6) [OF assms(2)] by (intro wrap64_sum_greater) simp_all
  then show "card replicas < card R + card W"
    using assms(4,6,8) by linarith
qed

text \<open>A store created from a validated configuration always has the engine an operation needs: a read, a write, a
  conditional write and a delete are answered by the Raft engine when the level is strong, by the quorum
  engine with the configured quorum otherwise, reads at level local by the storage, and never with
  the error that the level is not enabled; the operation is counted once.\<close>

theorem kv_dispatch:
  assumes "kv_validate cfg = None" and "NewStore E cfg w0 = (Inr s, w)"
    and "level = GetConsistencyLevel cfg requested"
  shows "kv_Get E now key requested s w =
           (let (r, w') = (if level = ''strong'' then raft_GetE E key w
                           else if level = ''local'' then storage_GetE E key w
                           else quorum_GetE E key (kc_ReadQuorum cfg) w)
            in (r, count_operation ''get'' now s, w')) \<and>
         kv_Put E now key v requested s w =
           (let (r, w') = (if level = ''strong'' then raft_PutE E key v w
                           else quorum_PutE E key v (kc_WriteQuorum cfg) w)
            in (r, count_operation ''put'' now s, w')) \<and>
         kv_PutIfVersion E now key v expected requested s w =
           (let (r, w') = (if level = ''strong'' then raft_PutIfVersionE E key v expected w
                           else quorum_PutIfVersionE E key v expected (kc_WriteQuorum cfg) w)
            in (r, count_operation ''put_if_version'' now s, w')) \<and>
         kv_Delete E now key requested s w =
           (let (e, w') = (if level = ''strong'' then raft_DeleteE E key w
                           else quorum_DeleteE E key (kc_WriteQuorum cfg) w)
            in (e, count_operation ''delete'' now s, w'))"
  using NewStore_ok [OF assms(2)] assms(1,3) by (intro conjI dispatch_operations)

section \<open>Witnesses\<close>

definition kv_environ :: environ where
  "kv_environ name =
     (if name = ''NODE_ID'' then ''n1''
      else if name = ''CLUSTER_NODES'' then ''n1:h1:1,n2:h2:2,n3:h3:3'' else '''')"

definition example_kv_config :: KVConfig where
  "example_kv_config =
     (kv_env_config (\<lambda>_. None) kv_environ)
       \<lparr>kc_ClusterNodes := [(''n1'', ''h1:1''), (''n2'', ''h2:2''), (''n3'', ''h3:3'')]\<rparr>"

text \<open>Engines that count their calls: the Raft engine in the first number, the others in the second.\<close>

definition counting_engines :: "(nat \<times> nat) Engines" where
  "counting_engines =
     \<lparr>raft_NewEngine = (\<lambda>cfg w. (None, w)), quorum_NewEngine = (\<lambda>cfg w. (None, w)),
      raft_StartE = (\<lambda>w. (None, w)), quorum_StartE = (\<lambda>w. (None, w)), raft_StopE = (\<lambda>w. w),
      quorum_StopE = (\<lambda>w. w), raft_GetE = (\<lambda>key (a, b). (Inr (''r'', 1), (a + 1, b))),
      raft_PutE = (\<lambda>key v (a, b). (Inr 1, (a + 1, b))),
      raft_PutIfVersionE = (\<lambda>key v n (a, b). (Inr n, (a + 1, b))),
      raft_DeleteE = (\<lambda>key (a, b). (None, (a + 1, b))),
      raft_BatchE = (\<lambda>ops (a, b). (Inr [], (a + 1, b))),
      quorum_GetE = (\<lambda>key q (a, b). (Inr (''q'', q), (a, b + 1))),
      quorum_PutE = (\<lambda>key v q (a, b). (Inr q, (a, b + 1))),
      quorum_PutIfVersionE = (\<lambda>key v n q (a, b). (Inr n, (a, b + 1))),
      quorum_DeleteE = (\<lambda>key q (a, b). (None, (a, b + 1))),
      quorum_BatchE = (\<lambda>ops q (a, b). (Inr [], (a, b + 1))),
      storage_GetE = (\<lambda>key (a, b). (Inr (''s'', 0), (a, b + 1))),
      quorum_PerformReadRepair = (\<lambda>w. w), quorum_PerformAntiEntropy = (\<lambda>w. w)\<rparr>"

lemma example_kv_valid: "kv_validate example_kv_config = None"
  by (simp add: kv_validate_def example_kv_config_def kv_env_config_def getEnv_def getEnvInt_def
      getEnvBool_def kv_environ_def wrap64_def)

lemma example_kv_load: "kv_Load (\<lambda>_. None) kv_environ = Inr example_kv_config"
proof -
  have "parse_cluster_nodes (strings_Split CHR '','' ''n1:h1:1,n2:h2:2,n3:h3:3'') [] =
      Inr [(''n1'', ''h1:1''), (''n2'', ''h2:2''), (''n3'', ''h3:3'')]"
    by (simp add: go_set_def)
  then show ?thesis
    using example_kv_valid
    by (simp add: kv_Load_def Let_def example_kv_config_def getEnv_def [of kv_environ "''CLUSTER_NODES''"] kv_environ_def)
qed

theorem kv_quorums_overlap_witness: "{0, 1 :: nat} \<inter> {1, 2} \<noteq> {}"
proof (rule kv_quorums_overlap [OF example_kv_load, where replicas = "{0, 1, 2}"])
  show "IsStrongConsistencyEnabled example_kv_config"
    by (simp add: IsStrongConsistencyEnabled_def example_kv_config_def kv_env_config_def getEnv_def kv_environ_def)
qed (simp_all add: example_kv_config_def kv_env_config_def getEnvInt_def kv_environ_def)

theorem kv_dispatch_witness:
  "\<exists>s. kv_Get counting_engines 5 ''k'' ''strong'' s (0, 0) =
     (Inr (''r'', 1), count_operation ''get'' 5 s, (1, 0))"
proof -
  have e: "raft_NewEngine counting_engines = (\<lambda>cfg w. (None, w))"
      "quorum_NewEngine counting_engines = (\<lambda>cfg w. (None, w))"
      "raft_GetE counting_engines = (\<lambda>key (a, b). (Inr (''r'', 1), (a + 1, b)))"
    by (simp_all add: counting_engines_def)
  have mode: "kc_ConsistencyMode example_kv_config = HybridConsistency"
    by (simp add: example_kv_config_def kv_env_config_def getEnv_def kv_environ_def)
  obtain s where s: "NewStore counting_engines example_kv_config (0, 0) = (Inr s, (0, 0))"
    by (simp add: NewStore_def e mode IsStrongConsistencyEnabled_def IsEventualConsistencyEnabled_def)
  have "GetConsistencyLevel example_kv_config ''strong'' = ''strong''"
    by (simp add: GetConsistencyLevel_def mode)
  with kv_dispatch [OF example_kv_valid s refl, of 5 "''k''" "''strong''"]
  show ?thesis by (auto simp: e)
qed

end
