(* ===== verification/Event_Bus.thy ===== *)
theory Event_Bus
  imports Go_Float
begin

text \<open>
  The cross-system event bus: the unified event and its filter,
  \<open>cross-system-integration/shared/events/unified_event.go\<close>, and the router,
  \<open>cross-system-integration/services/event-bus/internal/router/event_router.go\<close>. \<open>BusWorld\<close> holds what the router
  reaches through its clients: the Kafka log, the Redis keys with their value and time to live, the Redis lists and
  the published messages, and the schedule of the calls that fail. A value that the code
  stores as JSON is kept decoded. The number a JSON literal denotes is given by the argument \<open>number\<close>. Strings are
  valid UTF-8. \<open>None\<close> is a panic, the assignment to a \<open>nil\<close> map. The order of a Go map is the order of its
  association list.

  The lemmas show what a routed event leaves in the Kafka log call by call, that a failed delivery does not stop the
  others, and when the stored rules are not consulted.
\<close>

section \<open>Events\<close>

record MLContext =
  ml_ModelVersion :: string
  ml_FeatureVector :: "float64 list"
  ml_PredictionScore :: float64
  ml_Confidence :: float64
  ml_Metadata :: jobject

record EventMetadata =
  em_Version :: string
  em_Priority :: string
  em_Tags :: "string list"
  em_TTL :: "duration option"
  em_RetryCount :: int
  em_MaxRetries :: int
  em_Properties :: "jobject option"

record UnifiedEvent =
  ue_ID :: string
  ue_Type :: string
  ue_Source :: string
  ue_Timestamp :: gotime
  ue_CorrelationID :: string
  ue_CausationID :: string
  ue_Data :: "jobject option"
  ue_Metadata :: EventMetadata
  ue_MLContext :: "MLContext option"

definition NewUnifiedEvent ::
  "string \<Rightarrow> string \<Rightarrow> gotime \<Rightarrow> string \<Rightarrow> string \<Rightarrow> jobject option \<Rightarrow> UnifiedEvent" where
  "NewUnifiedEvent uid cid now eventType source data =
     \<lparr>ue_ID = uid, ue_Type = eventType, ue_Source = source, ue_Timestamp = now, ue_CorrelationID = cid,
      ue_CausationID = '''', ue_Data = data,
      ue_Metadata = \<lparr>em_Version = ''1.0'', em_Priority = ''normal'', em_Tags = [], em_TTL = None,
                     em_RetryCount = 0, em_MaxRetries = 0, em_Properties = None\<rparr>,
      ue_MLContext = None\<rparr>"

definition WithCorrelationID :: "string \<Rightarrow> UnifiedEvent \<Rightarrow> UnifiedEvent" where
  "WithCorrelationID cid e = e\<lparr>ue_CorrelationID := cid\<rparr>"

definition WithCausationID :: "string \<Rightarrow> UnifiedEvent \<Rightarrow> UnifiedEvent" where
  "WithCausationID cid e = e\<lparr>ue_CausationID := cid\<rparr>"

definition WithPriority :: "string \<Rightarrow> UnifiedEvent \<Rightarrow> UnifiedEvent" where
  "WithPriority p e = e\<lparr>ue_Metadata := (ue_Metadata e)\<lparr>em_Priority := p\<rparr>\<rparr>"

definition WithTags :: "string list \<Rightarrow> UnifiedEvent \<Rightarrow> UnifiedEvent" where
  "WithTags tags e = e\<lparr>ue_Metadata := (ue_Metadata e)\<lparr>em_Tags := em_Tags (ue_Metadata e) @ tags\<rparr>\<rparr>"

definition WithTTL :: "duration \<Rightarrow> UnifiedEvent \<Rightarrow> UnifiedEvent" where
  "WithTTL ttl e = e\<lparr>ue_Metadata := (ue_Metadata e)\<lparr>em_TTL := Some ttl\<rparr>\<rparr>"

definition WithMLContext :: "MLContext option \<Rightarrow> UnifiedEvent \<Rightarrow> UnifiedEvent" where
  "WithMLContext c e = e\<lparr>ue_MLContext := c\<rparr>"

definition WithProperty :: "string \<Rightarrow> json \<Rightarrow> UnifiedEvent \<Rightarrow> UnifiedEvent" where
  "WithProperty key v e =
     (let m = (case em_Properties (ue_Metadata e) of None \<Rightarrow> [] | Some m \<Rightarrow> m)
      in e\<lparr>ue_Metadata := (ue_Metadata e)\<lparr>em_Properties := Some (go_set key v m)\<rparr>\<rparr>)"

definition IsExpired :: "gotime \<Rightarrow> UnifiedEvent \<Rightarrow> bool" where
  "IsExpired now e =
     (case em_TTL (ue_Metadata e) of None \<Rightarrow> False | Some ttl \<Rightarrow> time_Sub now (ue_Timestamp e) > ttl)"

definition ShouldRetry :: "UnifiedEvent \<Rightarrow> bool" where
  "ShouldRetry e = (em_RetryCount (ue_Metadata e) < em_MaxRetries (ue_Metadata e))"

definition IncrementRetry :: "UnifiedEvent \<Rightarrow> UnifiedEvent" where
  "IncrementRetry e =
     e\<lparr>ue_Metadata := (ue_Metadata e)\<lparr>em_RetryCount := wrap64 (em_RetryCount (ue_Metadata e) + 1)\<rparr>\<rparr>"

definition event_Validate :: "UnifiedEvent \<Rightarrow> goerror option" where
  "event_Validate e =
     (if ue_ID e = '''' then Some ''event ID is required''
      else if ue_Type e = '''' then Some ''event type is required''
      else if ue_Source e = '''' then Some ''event source is required''
      else if ue_Timestamp e = 0 then Some ''event timestamp is required''
      else if ue_CorrelationID e = '''' then Some ''correlation ID is required''
      else if ue_Data e = None then Some ''event data is required''
      else None)"

text \<open>\<open>time.Time\<close> has a JSON form in the years 0 to 9999 only; instants count nanoseconds from the first of
  January of the year 1, the zero time. The other fields always have one. \<open>json_event\<close> is the event that the JSON
  text of an event denotes: \<open>properties\<close> is left out when the map is empty (\<open>omitempty\<close>), and reads back as \<open>nil\<close>;
  \<open>data\<close> is always written, \<open>null\<close> for \<open>nil\<close>.\<close>

definition json_time :: "gotime \<Rightarrow> bool" where
  "json_time t = (- (366 * 86400 * second) \<le> t \<and> t < 3652059 * 86400 * second)"

definition json_event :: "UnifiedEvent \<Rightarrow> UnifiedEvent" where
  "json_event e =
     e\<lparr>ue_Metadata := (ue_Metadata e)\<lparr>em_Properties :=
          (case em_Properties (ue_Metadata e) of Some (p # ps) \<Rightarrow> Some (p # ps) | _ \<Rightarrow> None)\<rparr>\<rparr>"

definition event_ToJSON :: "UnifiedEvent \<Rightarrow> UnifiedEvent option" where
  "event_ToJSON e = (if json_time (ue_Timestamp e) then Some (json_event e) else None)"

definition zero_event :: UnifiedEvent where
  "zero_event =
     \<lparr>ue_ID = '''', ue_Type = '''', ue_Source = '''', ue_Timestamp = 0, ue_CorrelationID = '''',
      ue_CausationID = '''', ue_Data = None,
      ue_Metadata = \<lparr>em_Version = '''', em_Priority = '''', em_Tags = [], em_TTL = None,
                     em_RetryCount = 0, em_MaxRetries = 0, em_Properties = None\<rparr>,
      ue_MLContext = None\<rparr>"

text \<open>\<open>Clone\<close> ignores the error of \<open>Marshal\<close>: the copy is then the zero event.\<close>

definition event_Clone :: "UnifiedEvent \<Rightarrow> UnifiedEvent" where
  "event_Clone e = (case event_ToJSON e of None \<Rightarrow> zero_event | Some e' \<Rightarrow> e')"

definition GetDataField :: "string \<Rightarrow> UnifiedEvent \<Rightarrow> json option" where
  "GetDataField key e = (case ue_Data e of None \<Rightarrow> None | Some m \<Rightarrow> map_of m key)"

definition GetDataString :: "string \<Rightarrow> UnifiedEvent \<Rightarrow> string \<times> bool" where
  "GetDataString key e = (case GetDataField key e of Some (JStr s) \<Rightarrow> (s, True) | _ \<Rightarrow> ('''', False))"

definition GetDataInt :: "(string \<Rightarrow> float64) \<Rightarrow> string \<Rightarrow> UnifiedEvent \<Rightarrow> int \<times> bool" where
  "GetDataInt number key e =
     (case GetDataField key e of Some (JNum l) \<Rightarrow> (go_int64 (number l), True) | _ \<Rightarrow> (0, False))"

definition GetDataFloat :: "(string \<Rightarrow> float64) \<Rightarrow> string \<Rightarrow> UnifiedEvent \<Rightarrow> float64 \<times> bool" where
  "GetDataFloat number key e =
     (case GetDataField key e of Some (JNum l) \<Rightarrow> (number l, True) | _ \<Rightarrow> (0, False))"

definition GetDataBool :: "string \<Rightarrow> UnifiedEvent \<Rightarrow> bool \<times> bool" where
  "GetDataBool key e = (case GetDataField key e of Some (JBool b) \<Rightarrow> (b, True) | _ \<Rightarrow> (False, False))"

section \<open>Filters\<close>

record TimeRange =
  tr_Start :: gotime
  tr_End :: gotime

record EventFilter =
  ef_Types :: "string list"
  ef_Sources :: "string list"
  ef_Tags :: "string list"
  ef_MinPriority :: string
  ef_CorrelationID :: string
  ef_TimeRange :: "TimeRange option"

definition isPriorityHigherOrEqual :: "string \<Rightarrow> string \<Rightarrow> bool" where
  "isPriorityHigherOrEqual p1 p2 =
     (let priorities = [(''low'', 1), (''normal'', 2), (''high'', 3), (''critical'', 4 :: int)]
      in go_get 0 priorities p1 \<ge> go_get 0 priorities p2)"

definition Matches :: "EventFilter \<Rightarrow> UnifiedEvent \<Rightarrow> bool" where
  "Matches f event =
     (if length (ef_Types f) > 0 \<and> \<not> list_ex (\<lambda>t. ue_Type event = t) (ef_Types f) then False
      else if length (ef_Sources f) > 0 \<and> \<not> list_ex (\<lambda>s. ue_Source event = s) (ef_Sources f) then False
      else if length (ef_Tags f) > 0 \<and>
              \<not> list_all (\<lambda>filterTag. list_ex (\<lambda>eventTag. eventTag = filterTag) (em_Tags (ue_Metadata event)))
                 (ef_Tags f) then False
      else if ef_MinPriority f \<noteq> '''' \<and>
              \<not> isPriorityHigherOrEqual (em_Priority (ue_Metadata event)) (ef_MinPriority f) then False
      else if ef_CorrelationID f \<noteq> '''' \<and> ue_CorrelationID event \<noteq> ef_CorrelationID f then False
      else case ef_TimeRange f of
             None \<Rightarrow> True
           | Some r \<Rightarrow> \<not> (ue_Timestamp event < tr_Start r \<or> ue_Timestamp event > tr_End r))"

section \<open>Rules and the world\<close>

record RetryPolicy =
  rt_MaxRetries :: int
  rt_InitialDelay :: duration
  rt_MaxDelay :: duration
  rt_BackoffFactor :: float64

record Destination =
  ds_Type :: string
  ds_Config :: jobject
  ds_Enabled :: bool
  ds_RetryPolicy :: "RetryPolicy option"

record TransformRule =
  tf_AddFields :: jobject
  tf_RemoveFields :: "string list"
  tf_RenameFields :: "(string, string) gomap"
  tf_Script :: string

record RoutingRule =
  ru_ID :: string
  ru_Name :: string
  ru_Description :: string
  ru_Filter :: EventFilter
  ru_Destinations :: "Destination list"
  ru_Transform :: "TransformRule option"
  ru_Enabled :: bool
  ru_CreatedAt :: gotime
  ru_UpdatedAt :: gotime

record BusMessage =
  bm_Topic :: string
  bm_Key :: string
  bm_Value :: UnifiedEvent
  bm_Time :: gotime
  bm_Headers :: "(string \<times> string) list"

datatype RedisValue = RedisRule RoutingRule | RedisEvent UnifiedEvent | RedisOther string

record BusWorld =
  bw_kafka :: "BusMessage list"
  bw_redis :: "(string, RedisValue \<times> duration) gomap"
  bw_lists :: "(string, UnifiedEvent list) gomap"
  bw_published :: "(string \<times> UnifiedEvent) list"
  bw_fails :: "bool list"

text \<open>The outcome of the next external call: the head of the schedule, success when it is empty.\<close>

definition bus_call :: "BusWorld \<Rightarrow> bool \<times> BusWorld" where
  "bus_call w = (case bw_fails w of [] \<Rightarrow> (False, w) | b # bs \<Rightarrow> (b, w\<lparr>bw_fails := bs\<rparr>))"

type_synonym EventRouter = "(string, RoutingRule) gomap"

definition NewEventRouter :: EventRouter where
  "NewEventRouter = []"

section \<open>Destinations\<close>

definition config_string :: "string \<Rightarrow> Destination \<Rightarrow> string option" where
  "config_string name d = (case map_of (ds_Config d) name of Some (JStr s) \<Rightarrow> Some s | _ \<Rightarrow> None)"

definition kafka_message :: "UnifiedEvent \<Rightarrow> UnifiedEvent \<Rightarrow> Destination \<Rightarrow> string \<Rightarrow> BusMessage" where
  "kafka_message event eventData d topic =
     (let message = \<lparr>bm_Topic = topic, bm_Key = ue_ID event, bm_Value = eventData, bm_Time = ue_Timestamp event,
                     bm_Headers = [(''event-type'', ue_Type event), (''event-source'', ue_Source event),
                                   (''correlation-id'', ue_CorrelationID event)]\<rparr>
      in case config_string ''partition_key'' d of
           None \<Rightarrow> message
         | Some partitionKey \<Rightarrow>
             (case GetDataField partitionKey event of
                Some (JStr s) \<Rightarrow> message\<lparr>bm_Key := s\<rparr>
              | _ \<Rightarrow> message))"

definition routeToKafka :: "UnifiedEvent \<Rightarrow> Destination \<Rightarrow> BusWorld \<Rightarrow> goerror option \<times> BusWorld" where
  "routeToKafka event d w0 =
     (case config_string ''topic'' d of
        None \<Rightarrow> (Some ''kafka destination missing topic configuration'', w0)
      | Some topic \<Rightarrow>
          (case event_ToJSON event of
             None \<Rightarrow> (Some ''failed to serialize event'', w0)
           | Some eventData \<Rightarrow>
               let (failed, w) = bus_call w0 in
               if failed then (Some ''kafka error'', w)
               else (None, w\<lparr>bw_kafka := bw_kafka w @ [kafka_message event eventData d topic]\<rparr>)))"

definition routeToHTTP :: "UnifiedEvent \<Rightarrow> Destination \<Rightarrow> goerror option" where
  "routeToHTTP event d = Some ''HTTP routing not implemented yet''"

definition routeToWebhook :: "UnifiedEvent \<Rightarrow> Destination \<Rightarrow> goerror option" where
  "routeToWebhook event d = Some ''webhook routing not implemented yet''"

definition routeToDatabase :: "UnifiedEvent \<Rightarrow> Destination \<Rightarrow> goerror option" where
  "routeToDatabase event d = Some ''database routing not implemented yet''"

text \<open>\<open>strings.ReplaceAll\<close> for a pattern that is not empty, as all patterns of the code are.\<close>

function replace_all :: "string \<Rightarrow> string \<Rightarrow> string \<Rightarrow> string" where
  "replace_all old new s =
     (if old = [] \<or> s = [] then s
      else if take (length old) s = old then new @ replace_all old new (drop (length old) s)
      else hd s # replace_all old new (tl s))"
  by pat_completeness auto
termination
  by (relation "measure (\<lambda>(_, _, s). length s)") (auto simp: neq_Nil_conv)

declare replace_all.simps [simp del]

fun replace_fields :: "jobject \<Rightarrow> string \<Rightarrow> string" where
  "replace_fields [] result = result"
| "replace_fields ((key, v) # rest) result =
     replace_fields rest
       (case v of JStr s \<Rightarrow> replace_all (''{event.data.'' @ key @ ''}'') s result | _ \<Rightarrow> result)"

definition replacePlaceholders :: "string \<Rightarrow> UnifiedEvent \<Rightarrow> string" where
  "replacePlaceholders template event =
     replace_fields (case ue_Data event of None \<Rightarrow> [] | Some m \<Rightarrow> m)
       (replace_all ''{event.correlation_id}'' (ue_CorrelationID event)
         (replace_all ''{event.source}'' (ue_Source event)
           (replace_all ''{event.type}'' (ue_Type event)
             (replace_all ''{event.id}'' (ue_ID event) template))))"

definition redis_operation :: "Destination \<Rightarrow> string" where
  "redis_operation d = (case config_string ''operation'' d of None \<Rightarrow> ''set'' | Some s \<Rightarrow> s)"

definition routeToRedis ::
  "(string \<Rightarrow> float64) \<Rightarrow> UnifiedEvent \<Rightarrow> Destination \<Rightarrow> BusWorld \<Rightarrow> goerror option \<times> BusWorld" where
  "routeToRedis number event d w0 =
     (case config_string ''key'' d of
        None \<Rightarrow> (Some ''redis destination missing key configuration'', w0)
      | Some template \<Rightarrow>
          (case event_ToJSON event of
             None \<Rightarrow> (Some ''failed to serialize event'', w0)
           | Some eventData \<Rightarrow>
               let key = replacePlaceholders template event; operation = redis_operation d
               in if operation \<notin> {''set'', ''lpush'', ''rpush'', ''publish''}
                  then (Some (''unsupported Redis operation: '' @ operation), w0)
                  else let (failed, w) = bus_call w0 in
                       if failed then (Some ''redis error'', w)
                       else if operation = ''set'' then
                         let ttl = (case map_of (ds_Config d) ''ttl'' of
                                      Some (JNum l) \<Rightarrow> wrap64 (go_int64 (number l) * second)
                                    | _ \<Rightarrow> 0)
                         in (None, w\<lparr>bw_redis := go_set key (RedisEvent eventData, ttl) (bw_redis w)\<rparr>)
                       else if operation = ''lpush'' then
                         (None, w\<lparr>bw_lists := go_set key (eventData # go_get [] (bw_lists w) key) (bw_lists w)\<rparr>)
                       else if operation = ''rpush'' then
                         (None, w\<lparr>bw_lists := go_set key (go_get [] (bw_lists w) key @ [eventData]) (bw_lists w)\<rparr>)
                       else (None, w\<lparr>bw_published := bw_published w @ [(key, eventData)]\<rparr>)))"

definition routeToDestination ::
  "(string \<Rightarrow> float64) \<Rightarrow> UnifiedEvent \<Rightarrow> Destination \<Rightarrow> BusWorld \<Rightarrow> goerror option \<times> BusWorld" where
  "routeToDestination number event d w =
     (if ds_Type d = ''kafka'' then routeToKafka event d w
      else if ds_Type d = ''http'' then (routeToHTTP event d, w)
      else if ds_Type d = ''webhook'' then (routeToWebhook event d, w)
      else if ds_Type d = ''database'' then (routeToDatabase event d, w)
      else if ds_Type d = ''redis'' then routeToRedis number event d w
      else (Some (''unsupported destination type: '' @ ds_Type d), w))"

section \<open>Transformation\<close>

fun rename_fields :: "(string, string) gomap \<Rightarrow> jobject \<Rightarrow> jobject" where
  "rename_fields [] m = m"
| "rename_fields ((oldKey, newKey) # rest) m =
     rename_fields rest
       (case map_of m oldKey of None \<Rightarrow> m | Some v \<Rightarrow> go_del oldKey (go_set newKey v m))"

definition applyTransformation :: "UnifiedEvent \<Rightarrow> TransformRule \<Rightarrow> UnifiedEvent option" where
  "applyTransformation event t =
     (let e = event_Clone event in
      case ue_Data e of
        None \<Rightarrow> if tf_AddFields t = [] then Some e else None
      | Some m \<Rightarrow>
          let m1 = fold (\<lambda>(k, v). go_set k v) (tf_AddFields t) m;
              m2 = fold go_del (tf_RemoveFields t) m1;
              m3 = rename_fields (tf_RenameFields t) m2
          in Some (e\<lparr>ue_Data := Some m3\<rparr>))"

section \<open>Routing\<close>

fun route_destinations ::
  "(string \<Rightarrow> float64) \<Rightarrow> UnifiedEvent \<Rightarrow> Destination list \<Rightarrow> BusWorld \<Rightarrow> BusWorld" where
  "route_destinations number event [] w = w"
| "route_destinations number event (d # ds) w =
     route_destinations number event ds
       (if ds_Enabled d then snd (routeToDestination number event d w) else w)"

definition routeToRule ::
  "(string \<Rightarrow> float64) \<Rightarrow> UnifiedEvent \<Rightarrow> RoutingRule \<Rightarrow> BusWorld \<Rightarrow> BusWorld option" where
  "routeToRule number event rule w =
     (case (case ru_Transform rule of None \<Rightarrow> Some event | Some t \<Rightarrow> applyTransformation event t) of
        None \<Rightarrow> None
      | Some transformedEvent \<Rightarrow> Some (route_destinations number transformedEvent (ru_Destinations rule) w))"

definition findMatchingRules :: "UnifiedEvent \<Rightarrow> EventRouter \<Rightarrow> RoutingRule list" where
  "findMatchingRules event er =
     filter (\<lambda>rule. ru_Enabled rule \<and> Matches (ru_Filter rule) event) (map snd er)"

definition rule_prefix :: string where
  "rule_prefix = ''routing:rule:''"

fun load_rules :: "string list \<Rightarrow> EventRouter \<Rightarrow> BusWorld \<Rightarrow> EventRouter \<times> BusWorld" where
  "load_rules [] er w = (er, w)"
| "load_rules (key # keys) er w0 =
     (let (failed, w) = bus_call w0 in
      if failed then load_rules keys er w
      else case map_of (bw_redis w) key of
             Some (RedisRule rule, ttl) \<Rightarrow> load_rules keys (go_set (ru_ID rule) rule er) w
           | _ \<Rightarrow> load_rules keys er w)"

definition loadRoutingRules :: "EventRouter \<Rightarrow> BusWorld \<Rightarrow> goerror option \<times> EventRouter \<times> BusWorld" where
  "loadRoutingRules er w0 =
     (let (failed, w) = bus_call w0 in
      if failed then (Some ''failed to get routing rule keys'', er, w)
      else let (er', w') = load_rules (filter (\<lambda>k. take (length rule_prefix) k = rule_prefix) (map fst (bw_redis w))) er w
           in (None, er', w'))"

fun route_rules ::
  "(string \<Rightarrow> float64) \<Rightarrow> UnifiedEvent \<Rightarrow> RoutingRule list \<Rightarrow> BusWorld \<Rightarrow> BusWorld option" where
  "route_rules number event [] w = Some w"
| "route_rules number event (rule # rules) w =
     (case routeToRule number event rule w of None \<Rightarrow> None | Some w' \<Rightarrow> route_rules number event rules w')"

definition RouteEvent ::
  "(string \<Rightarrow> float64) \<Rightarrow> UnifiedEvent \<Rightarrow> EventRouter \<Rightarrow> BusWorld \<Rightarrow>
   (goerror option \<times> EventRouter \<times> BusWorld) option" where
  "RouteEvent number event er0 w0 =
     (let (err, er, w) = (if length er0 = 0 then loadRoutingRules er0 w0 else (None, er0, w0)) in
      case err of
        Some e \<Rightarrow> Some (Some (''failed to load routing rules: '' @ e), er, w)
      | None \<Rightarrow>
          (case route_rules number event (findMatchingRules event er) w of
             None \<Rightarrow> None
           | Some w' \<Rightarrow> Some (None, er, w')))"

section \<open>Administration of rules\<close>

definition store_rule :: "RoutingRule \<Rightarrow> EventRouter \<Rightarrow> BusWorld \<Rightarrow> goerror option \<times> EventRouter \<times> BusWorld" where
  "store_rule rule er w0 =
     (let (failed, w) = bus_call w0 in
      if failed then (Some ''failed to store routing rule'', er, w)
      else (None, go_set (ru_ID rule) rule er,
            w\<lparr>bw_redis := go_set (rule_prefix @ ru_ID rule) (RedisRule rule, 0) (bw_redis w)\<rparr>))"

definition AddRoutingRule ::
  "gotime \<Rightarrow> gotime \<Rightarrow> RoutingRule \<Rightarrow> EventRouter \<Rightarrow> BusWorld \<Rightarrow> goerror option \<times> EventRouter \<times> BusWorld" where
  "AddRoutingRule now1 now2 rule er w = store_rule (rule\<lparr>ru_CreatedAt := now1, ru_UpdatedAt := now2\<rparr>) er w"

definition UpdateRoutingRule ::
  "gotime \<Rightarrow> RoutingRule \<Rightarrow> EventRouter \<Rightarrow> BusWorld \<Rightarrow> goerror option \<times> EventRouter \<times> BusWorld" where
  "UpdateRoutingRule now rule er w = store_rule (rule\<lparr>ru_UpdatedAt := now\<rparr>) er w"

definition DeleteRoutingRule :: "string \<Rightarrow> EventRouter \<Rightarrow> BusWorld \<Rightarrow> goerror option \<times> EventRouter \<times> BusWorld" where
  "DeleteRoutingRule ruleID er w0 =
     (let (failed, w) = bus_call w0 in
      if failed then (Some ''failed to delete routing rule'', er, w)
      else (None, go_del ruleID er, w\<lparr>bw_redis := go_del (rule_prefix @ ruleID) (bw_redis w)\<rparr>))"

definition GetRoutingRules :: "EventRouter \<Rightarrow> (string, RoutingRule) gomap" where
  "GetRoutingRules er = er"

section \<open>What routing delivers\<close>

text \<open>The calls of a client that a rule makes for an event, in order: \<open>Some\<close> message for a write to Kafka and \<open>None\<close>
  for a Redis command. A destination that is disabled, not implemented or without its configuration makes none.\<close>

definition rule_event :: "RoutingRule \<Rightarrow> UnifiedEvent \<Rightarrow> UnifiedEvent option" where
  "rule_event rule event =
     (case ru_Transform rule of None \<Rightarrow> Some event | Some t \<Rightarrow> applyTransformation event t)"

definition destination_calls :: "UnifiedEvent \<Rightarrow> Destination \<Rightarrow> BusMessage option list" where
  "destination_calls event d =
     (if \<not> ds_Enabled d \<or> \<not> json_time (ue_Timestamp event) then []
      else if ds_Type d = ''kafka''
      then (case config_string ''topic'' d of
              None \<Rightarrow> []
            | Some topic \<Rightarrow> [Some (kafka_message event (json_event event) d topic)])
      else if ds_Type d = ''redis'' \<and> config_string ''key'' d \<noteq> None \<and>
              redis_operation d \<in> {''set'', ''lpush'', ''rpush'', ''publish''} then [None]
      else [])"

definition rule_calls :: "UnifiedEvent \<Rightarrow> RoutingRule \<Rightarrow> BusMessage option list" where
  "rule_calls event rule =
     concat (map (destination_calls (the (rule_event rule event))) (ru_Destinations rule))"

text \<open>The messages that reach Kafka when the calls run against a schedule of failures: those whose own call does not
  fail. Where the schedule ends, calls succeed.\<close>

fun survivors :: "bool list \<Rightarrow> 'a option list \<Rightarrow> 'a list" where
  "survivors fs [] = []"
| "survivors fs (c # cs) =
     (if fs \<noteq> [] \<and> hd fs then [] else case c of None \<Rightarrow> [] | Some m \<Rightarrow> [m]) @ survivors (tl fs) cs"

lemma survivors_append: "survivors fs (xs @ ys) = survivors fs xs @ survivors (drop (length xs) fs) ys"
  by (induction xs arbitrary: fs) (simp_all add: drop_Suc)

lemma survivors_no_failure: "survivors [] cs = List.map_filter id cs"
  by (induction cs) (auto simp: List.map_filter_simps split: option.splits)

text \<open>\<open>delivers w w' cs\<close>: between two worlds the calls \<open>cs\<close> were made, in order, each with its own outcome.\<close>

definition delivers :: "BusWorld \<Rightarrow> BusWorld \<Rightarrow> BusMessage option list \<Rightarrow> bool" where
  "delivers w w' cs =
     (bw_kafka w' = bw_kafka w @ survivors (bw_fails w) cs \<and> bw_fails w' = drop (length cs) (bw_fails w))"

lemma delivers_refl: "delivers w w []"
  by (simp add: delivers_def)

lemma delivers_trans: "delivers w w1 ms \<Longrightarrow> delivers w1 w2 ns \<Longrightarrow> delivers w w2 (ms @ ns)"
  by (simp add: delivers_def survivors_append add.commute)

lemma bus_call_outcome: "bus_call w = (failed, w1) \<Longrightarrow>
  bw_kafka w1 = bw_kafka w \<and> bw_fails w1 = tl (bw_fails w) \<and> failed = (bw_fails w \<noteq> [] \<and> hd (bw_fails w))"
  by (auto simp: bus_call_def split: list.splits)

lemma routeToKafka_delivers:
  assumes "ds_Enabled d" "ds_Type d = ''kafka''"
  shows "delivers w (snd (routeToKafka event d w)) (destination_calls event d)"
proof -
  obtain failed w1 where c: "bus_call w = (failed, w1)" by fastforce
  from bus_call_outcome [OF c] assms show ?thesis
    by (auto simp: routeToKafka_def destination_calls_def delivers_def event_ToJSON_def c drop_Suc split: option.splits)
qed

lemma routeToRedis_delivers:
  assumes "ds_Enabled d" "ds_Type d = ''redis''"
  shows "delivers w (snd (routeToRedis number event d w)) (destination_calls event d)"
proof -
  obtain failed w1 where c: "bus_call w = (failed, w1)" by fastforce
  from bus_call_outcome [OF c] assms show ?thesis
    by (auto simp: routeToRedis_def destination_calls_def delivers_def event_ToJSON_def Let_def c drop_Suc
        split: option.splits)
qed

lemma routeToDestination_delivers:
  "ds_Enabled d \<Longrightarrow> delivers w (snd (routeToDestination number event d w)) (destination_calls event d)"
  using routeToKafka_delivers [of d w event] routeToRedis_delivers [of d w number event]
  by (auto simp: routeToDestination_def destination_calls_def delivers_refl)

lemma route_destinations_delivers:
  "delivers w (route_destinations number event ds w) (concat (map (destination_calls event) ds))"
proof (induction ds arbitrary: w)
  case (Cons d ds)
  show ?case
  proof (cases "ds_Enabled d")
    case True
    then show ?thesis
      using delivers_trans [OF routeToDestination_delivers Cons.IH] by simp
  next
    case False
    then have "destination_calls event d = []" by (simp add: destination_calls_def)
    then show ?thesis using False Cons.IH by simp
  qed
qed (simp add: delivers_refl)

lemma event_Clone_json: "json_time (ue_Timestamp e) \<Longrightarrow> event_Clone e = json_event e"
  by (simp add: event_Clone_def event_ToJSON_def)

lemma json_event_Data [simp]: "ue_Data (json_event e) = ue_Data e"
  by (simp add: json_event_def)

lemma applyTransformation_Some:
  "ue_Data event \<noteq> None \<Longrightarrow> json_time (ue_Timestamp event) \<Longrightarrow>
   \<exists>e m. applyTransformation event t = Some e \<and> ue_Data e = Some m"
  by (auto simp: applyTransformation_def event_Clone_json Let_def)

lemma routeToRule_delivers:
  assumes "ue_Data event \<noteq> None" "json_time (ue_Timestamp event)"
  shows "\<exists>w'. routeToRule number event rule w = Some w' \<and> delivers w w' (rule_calls event rule)"
proof -
  obtain e where e: "rule_event rule event = Some e"
    using applyTransformation_Some [OF assms] by (fastforce simp: rule_event_def split: option.splits)
  then show ?thesis
    using route_destinations_delivers [of w number e "ru_Destinations rule"]
    by (simp add: routeToRule_def rule_event_def rule_calls_def)
qed

lemma route_rules_delivers:
  assumes "ue_Data event \<noteq> None" "json_time (ue_Timestamp event)"
  shows "\<exists>w'. route_rules number event rules w = Some w' \<and> delivers w w' (concat (map (rule_calls event) rules))"
proof (induction rules arbitrary: w)
  case (Cons rule rules)
  obtain w1 where w1: "routeToRule number event rule w = Some w1" "delivers w w1 (rule_calls event rule)"
    using routeToRule_delivers [OF assms] by blast
  obtain w2 where w2: "route_rules number event rules w1 = Some w2"
      "delivers w1 w2 (concat (map (rule_calls event) rules))"
    using Cons.IH by blast
  show ?case using w1 w2 delivers_trans [OF w1(2) w2(2)] by simp
qed (simp add: delivers_refl)

section \<open>Transformations\<close>

lemma map_of_fold_set:
  "go_wf xs \<Longrightarrow> map_of (fold (\<lambda>(k, v). go_set k v) xs m) k =
     (case map_of xs k of Some v \<Rightarrow> Some v | None \<Rightarrow> map_of m k)"
proof (induction xs arbitrary: m)
  case (Cons x xs)
  obtain a b where x: "x = (a, b)" by (cases x)
  have "a \<notin> fst ` set xs" "go_wf xs" using Cons.prems by (auto simp: x)
  then have "map_of xs a = None" by (simp add: map_of_eq_None_iff)
  then show ?case
    using Cons.IH [OF \<open>go_wf xs\<close>] by (auto simp: x map_of_go_set split: option.splits)
qed simp

text \<open>Without renamings, an added field wins over the event's own and a removed field is gone.\<close>

lemma transformation_fields:
  assumes "applyTransformation event t = Some e" "ue_Data event = Some m" "go_wf (tf_AddFields t)"
    "tf_RenameFields t = []" "json_time (ue_Timestamp event)"
  shows "GetDataField k e =
           (if k \<in> set (tf_RemoveFields t) then None
            else case map_of (tf_AddFields t) k of Some v \<Rightarrow> Some v | None \<Rightarrow> map_of m k)"
  using assms
  by (auto simp: applyTransformation_def event_Clone_json Let_def GetDataField_def map_of_fold_del map_of_fold_set)

section \<open>Properties\<close>

text \<open>C12: Routing an event that has data and a time that JSON can print, with rules in the cache, returns no error. It
  makes, rule by rule and destination by destination, one call for every enabled destination of every enabled rule that
  matches, as far as the destination is implemented and configured, whatever the outcome of the earlier calls; each call meets the next outcome of
  the schedule of failures, and Kafka receives exactly the messages whose own call does not fail, in this order:
  all of them when no call fails.\<close>

theorem route_event_delivers:
  assumes "er \<noteq> []" and "ue_Data event \<noteq> None" and "json_time (ue_Timestamp event)"
    and "cs = concat (map (rule_calls event) (findMatchingRules event er))"
  shows "\<exists>w'. RouteEvent number event er w = Some (None, er, w') \<and>
           bw_kafka w' = bw_kafka w @ survivors (bw_fails w) cs \<and>
           bw_fails w' = drop (length cs) (bw_fails w) \<and>
           (bw_fails w = [] \<longrightarrow> bw_kafka w' = bw_kafka w @ List.map_filter id cs)"
proof -
  obtain w' where "route_rules number event (findMatchingRules event er) w = Some w'" "delivers w w' cs"
    using route_rules_delivers [OF assms(2,3)] unfolding assms(4) by blast
  then show ?thesis
    using assms(1) by (auto simp: RouteEvent_def delivers_def survivors_no_failure)
qed

text \<open>When a rule is added to a router that has not routed anything yet, the rules that Redis holds are not
  loaded by the next event: whatever they are, the event is only routed by the added rule.\<close>

theorem added_rule_hides_stored_rules:
  assumes "AddRoutingRule t1 t2 rule NewEventRouter w = (None, er, w1)" and "ue_Data event \<noteq> None"
    and "json_time (ue_Timestamp event)"
  shows "\<exists>w'. RouteEvent number event er w1 = Some (None, er, w') \<and>
           (delivers w1 w' [] \<or> delivers w1 w' (rule_calls event (rule\<lparr>ru_CreatedAt := t1, ru_UpdatedAt := t2\<rparr>)))"
proof -
  let ?rule = "rule\<lparr>ru_CreatedAt := t1, ru_UpdatedAt := t2\<rparr>"
  have er: "er = [(ru_ID rule, ?rule)]"
    using assms(1) by (auto simp: AddRoutingRule_def store_rule_def NewEventRouter_def go_set_def split: prod.splits if_splits)
  have one: "concat (map (rule_calls event) (findMatchingRules event er)) \<in> {[], rule_calls event ?rule}"
    by (simp add: findMatchingRules_def er)
  obtain w' where w': "route_rules number event (findMatchingRules event er) w1 = Some w'"
      "delivers w1 w' (concat (map (rule_calls event) (findMatchingRules event er)))"
    using route_rules_delivers [OF assms(2,3)] by blast
  have "er \<noteq> []" by (simp add: er)
  then have "RouteEvent number event er w1 = Some (None, er, w')"
    using w'(1) by (simp add: RouteEvent_def)
  moreover have "delivers w1 w' [] \<or> delivers w1 w' (rule_calls event ?rule)"
    using w'(2) one by (metis insertE singletonD)
  ultimately show ?thesis by blast
qed

section \<open>Witnesses\<close>

definition example_rule :: RoutingRule where
  "example_rule =
     \<lparr>ru_ID = ''r1'', ru_Name = ''n'', ru_Description = ''d'',
      ru_Filter = \<lparr>ef_Types = [''saga.started''], ef_Sources = [], ef_Tags = [], ef_MinPriority = '''',
                   ef_CorrelationID = '''', ef_TimeRange = None\<rparr>,
      ru_Destinations = [\<lparr>ds_Type = ''http'', ds_Config = [], ds_Enabled = True, ds_RetryPolicy = None\<rparr>,
                         \<lparr>ds_Type = ''kafka'', ds_Config = [(''topic'', JStr ''t1'')], ds_Enabled = True,
                          ds_RetryPolicy = None\<rparr>,
                         \<lparr>ds_Type = ''kafka'', ds_Config = [(''topic'', JStr ''t2'')], ds_Enabled = True,
                          ds_RetryPolicy = None\<rparr>],
      ru_Transform = None, ru_Enabled = True, ru_CreatedAt = 0, ru_UpdatedAt = 0\<rparr>"

definition example_bus :: BusWorld where
  "example_bus = \<lparr>bw_kafka = [], bw_redis = [(''routing:rule:r0'', (RedisRule example_rule, 0))],
                  bw_lists = [], bw_published = [], bw_fails = []\<rparr>"

definition example_unified :: UnifiedEvent where
  "example_unified = NewUnifiedEvent ''e1'' ''c1'' 5 ''saga.started'' ''microservices'' (Some [])"

text \<open>The first of two Kafka writes fails; the second message arrives.\<close>

theorem route_event_delivers_witness:
  "\<exists>w' m. RouteEvent (\<lambda>_. 0) example_unified [(''r1'', example_rule)] (example_bus\<lparr>bw_fails := [True, False]\<rparr>) =
     Some (None, [(''r1'', example_rule)], w') \<and> bw_kafka w' = [m] \<and> bm_Topic m = ''t2'' \<and> bw_fails w' = []"
proof -
  let ?er = "[(''r1'', example_rule)]"
  have r: "findMatchingRules example_unified ?er = [example_rule]"
    by (simp add: findMatchingRules_def example_rule_def Matches_def example_unified_def NewUnifiedEvent_def)
  have j: "json_time (ue_Timestamp example_unified)" "ue_Data example_unified \<noteq> None"
    by (simp_all add: json_time_def example_unified_def NewUnifiedEvent_def)
  then obtain m1 m2 where "rule_calls example_unified example_rule = [Some m1, Some m2]" "bm_Topic m2 = ''t2''"
    by (simp add: rule_calls_def rule_event_def example_rule_def destination_calls_def config_string_def
        kafka_message_def)
  moreover have "bw_kafka example_bus = []"
    by (simp add: example_bus_def)
  ultimately show ?thesis
    using route_event_delivers [OF _ j(2) j(1) refl, of ?er "\<lambda>_. 0" "example_bus\<lparr>bw_fails := [True, False]\<rparr>"] r
    by auto
qed

theorem added_rule_hides_stored_rules_witness:
  "\<exists>er w1 w'. AddRoutingRule 1 2 (example_rule\<lparr>ru_Enabled := False\<rparr>) NewEventRouter example_bus = (None, er, w1) \<and>
     RouteEvent (\<lambda>_. 0) example_unified er w1 = Some (None, er, w')"
proof -
  obtain er w1 where "AddRoutingRule 1 2 (example_rule\<lparr>ru_Enabled := False\<rparr>) NewEventRouter example_bus = (None, er, w1)"
    by (simp add: AddRoutingRule_def store_rule_def bus_call_def example_bus_def)
  moreover have "ue_Data example_unified \<noteq> None" "json_time (ue_Timestamp example_unified)"
    by (simp_all add: json_time_def example_unified_def NewUnifiedEvent_def)
  ultimately show ?thesis
    using added_rule_hides_stored_rules by blast
qed

end
