(* ===== verification/Geo_Store.thy ===== *)
theory Geo_Store
  imports CRDT_Interface Step_Systems
begin

text \<open>
  The CRDT store of the geo-replicated data store,
  \<open>geo-replicated-datastore/services/geodatastore-node/internal/crdt/store.go\<close>. The CRDT implementations and the
  storage are not in the repository: a CRDT is a value of any type \<open>'c\<close> with the functions of the record
  \<open>CRDTOps\<close> (the methods of the interface, the constructors and the counter methods the store calls), the storage is
  \<open>Put\<close> on a world of any type \<open>'w\<close>; both are arguments of the definitions that use them. A method that changes its receiver
  returns it. \<open>None\<close> is a panic.

  The lemmas show when two clocks are in conflict, that the store's clock only grows and absorbs a remote
  clock, what the operations do to clocks and versions, and how conflicts are resolved.
\<close>

section \<open>Data\<close>

type_synonym GeoClock = "(string, int) gomap"

datatype CRDTKind = KGCounter | KPNCounter | KOther

record 'c CRDTOps =
  co_Type :: "'c \<Rightarrow> string"
  co_Merge :: "'c \<Rightarrow> 'c \<Rightarrow> goerror option \<times> 'c"
  co_Clone :: "'c \<Rightarrow> 'c"
  co_GetVectorClock :: "'c \<Rightarrow> GeoClock"
  co_SetVectorClock :: "GeoClock \<Rightarrow> 'c \<Rightarrow> 'c"
  co_Serialize :: "'c \<Rightarrow> goerror + string"
  co_kind :: "'c \<Rightarrow> CRDTKind"
  co_Value :: "'c \<Rightarrow> int"
  co_Increment :: "string \<Rightarrow> int \<Rightarrow> 'c \<Rightarrow> 'c"
  co_Decrement :: "string \<Rightarrow> int \<Rightarrow> 'c \<Rightarrow> 'c"
  co_NewGCounter :: "string \<Rightarrow> int \<Rightarrow> 'c"
  co_NewPNCounter :: "string \<Rightarrow> int \<Rightarrow> 'c"
  co_NewGSet :: 'c
  co_NewTwoPSet :: 'c
  co_NewORSet :: "string \<Rightarrow> 'c"
  co_NewLWWRegister :: "string \<Rightarrow> json \<Rightarrow> 'c"
  co_NewMVRegister :: "string \<Rightarrow> json \<Rightarrow> 'c"

type_synonym 'w storage_put = "string \<Rightarrow> string \<Rightarrow> 'w \<Rightarrow> goerror option \<times> 'w"

record GeoMetadata =
  gm_Type :: string
  gm_Key :: string
  gm_NodeID :: string
  gm_Region :: string
  gm_CreatedAt :: gotime
  gm_UpdatedAt :: gotime
  gm_VectorClock :: GeoClock
  gm_Version :: int

record 'c Conflict =
  cf_ID :: string
  cf_Key :: string
  cf_Type :: string
  cf_Values :: "'c list"
  cf_DetectedAt :: gotime
  cf_Resolved :: bool
  cf_Resolution :: string

record 'c GeoStore =
  gs_NodeID :: string
  gs_Region :: string
  gs_crdts :: "(string, 'c) gomap"
  gs_metadata :: "(string, GeoMetadata) gomap"
  gs_conflicts :: "(string, 'c Conflict) gomap"
  gs_vectorClock :: GeoClock
  gs_startTime :: gotime

definition NewGeoStore :: "string \<Rightarrow> string \<Rightarrow> gotime \<Rightarrow> 'c GeoStore" where
  "NewGeoStore nodeID region now =
     \<lparr>gs_NodeID = nodeID, gs_Region = region, gs_crdts = [], gs_metadata = [], gs_conflicts = [],
      gs_vectorClock = [(nodeID, 0)], gs_startTime = now\<rparr>"

section \<open>Clocks\<close>

definition copyVectorClock :: "'c GeoStore \<Rightarrow> GeoClock" where
  "copyVectorClock s = fold (\<lambda>(node, clock). go_set node clock) (gs_vectorClock s) []"

definition tick :: "'c GeoStore \<Rightarrow> 'c GeoStore" where
  "tick s =
     s\<lparr>gs_vectorClock := go_set (gs_NodeID s) (wrap64 (go_get 0 (gs_vectorClock s) (gs_NodeID s) + 1))
                          (gs_vectorClock s)\<rparr>"

fun merge_clock :: "GeoClock \<Rightarrow> GeoClock \<Rightarrow> GeoClock" where
  "merge_clock [] m = m"
| "merge_clock ((node, remoteClock) # rest) m =
     merge_clock rest
       (case map_of m node of
          None \<Rightarrow> go_set node remoteClock m
        | Some localClock \<Rightarrow> if remoteClock > localClock then go_set node remoteClock m else m)"

definition mergeVectorClock :: "GeoClock \<Rightarrow> 'c GeoStore \<Rightarrow> 'c GeoStore" where
  "mergeVectorClock remote s = s\<lparr>gs_vectorClock := merge_clock remote (gs_vectorClock s)\<rparr>"

definition hasConflict :: "GeoClock \<Rightarrow> GeoClock \<Rightarrow> bool" where
  "hasConflict local remote =
     (let allNodes = remdups (map fst local @ map fst remote);
          localDominates = list_ex (\<lambda>node. go_get 0 local node > go_get 0 remote node) allNodes;
          remoteDominates = list_ex (\<lambda>node. go_get 0 remote node > go_get 0 local node) allNodes
      in localDominates \<and> remoteDominates)"

section \<open>Persistence\<close>

text \<open>\<open>marshal\<close> is \<open>json.Marshal\<close> on the metadata of a key, \<open>None\<close> when there is none.\<close>

definition persistCRDT ::
  "'c CRDTOps \<Rightarrow> 'w storage_put \<Rightarrow> (GeoMetadata option \<Rightarrow> goerror + string) \<Rightarrow> string \<Rightarrow> 'c \<Rightarrow> 'c GeoStore \<Rightarrow>
   'w \<Rightarrow> goerror option \<times> 'w" where
  "persistCRDT C Put marshal key c s w0 =
     (case co_Serialize C c of
        Inl err \<Rightarrow> (Some (''failed to serialize CRDT: '' @ err), w0)
      | Inr data \<Rightarrow>
          (case marshal (map_of (gs_metadata s) key) of
             Inl err \<Rightarrow> (Some (''failed to serialize metadata: '' @ err), w0)
           | Inr metadataData \<Rightarrow>
               (case Put (''crdt:'' @ key) data w0 of
                  (Some err, w1) \<Rightarrow> (Some (''failed to store CRDT: '' @ err), w1)
                | (None, w1) \<Rightarrow>
                    (case Put (''metadata:'' @ key) metadataData w1 of
                       (Some err, w2) \<Rightarrow> (Some (''failed to store metadata: '' @ err), w2)
                     | (None, w2) \<Rightarrow> (None, w2)))))"

section \<open>Creation\<close>

text \<open>What the three creating operations share; \<open>t1\<close>, \<open>t2\<close> are their readings of the clock.\<close>

definition insert_crdt ::
  "'c CRDTOps \<Rightarrow> 'w storage_put \<Rightarrow> (GeoMetadata option \<Rightarrow> goerror + string) \<Rightarrow> gotime \<Rightarrow> gotime \<Rightarrow> string \<Rightarrow>
   string \<Rightarrow> 'c \<Rightarrow> 'c GeoStore \<Rightarrow> 'w \<Rightarrow> goerror option \<times> 'c GeoStore \<times> 'w" where
  "insert_crdt C Put marshal t1 t2 key typ c0 s0 w0 =
     (let s1 = tick s0;
          c = co_SetVectorClock C (copyVectorClock s1) c0;
          md = \<lparr>gm_Type = typ, gm_Key = key, gm_NodeID = gs_NodeID s1, gm_Region = gs_Region s1,
                gm_CreatedAt = t1, gm_UpdatedAt = t2, gm_VectorClock = copyVectorClock s1, gm_Version = 1\<rparr>;
          s = s1\<lparr>gs_crdts := go_set key c (gs_crdts s1), gs_metadata := go_set key md (gs_metadata s1)\<rparr>;
          (err, w) = persistCRDT C Put marshal key c s w0
      in (err, s, w))"

definition CreateCounter ::
  "'c CRDTOps \<Rightarrow> 'w storage_put \<Rightarrow> (GeoMetadata option \<Rightarrow> goerror + string) \<Rightarrow> gotime \<Rightarrow> gotime \<Rightarrow> string \<Rightarrow>
   string \<Rightarrow> int \<Rightarrow> 'c GeoStore \<Rightarrow> 'w \<Rightarrow> goerror option \<times> 'c GeoStore \<times> 'w" where
  "CreateCounter C Put marshal t1 t2 key counterType initialValue s w =
     (if map_of (gs_crdts s) key \<noteq> None
      then (Some (''CRDT with key '' @ key @ '' already exists''), s, w)
      else if counterType = ''g_counter''
      then insert_crdt C Put marshal t1 t2 key counterType (co_NewGCounter C (gs_NodeID s) initialValue) s w
      else if counterType = ''pn_counter''
      then insert_crdt C Put marshal t1 t2 key counterType (co_NewPNCounter C (gs_NodeID s) initialValue) s w
      else (Some (''unsupported counter type: '' @ counterType), s, w))"

definition CreateSet ::
  "'c CRDTOps \<Rightarrow> 'w storage_put \<Rightarrow> (GeoMetadata option \<Rightarrow> goerror + string) \<Rightarrow> gotime \<Rightarrow> gotime \<Rightarrow> string \<Rightarrow>
   string \<Rightarrow> 'c GeoStore \<Rightarrow> 'w \<Rightarrow> goerror option \<times> 'c GeoStore \<times> 'w" where
  "CreateSet C Put marshal t1 t2 key setType s w =
     (if map_of (gs_crdts s) key \<noteq> None
      then (Some (''CRDT with key '' @ key @ '' already exists''), s, w)
      else if setType = ''g_set'' then insert_crdt C Put marshal t1 t2 key setType (co_NewGSet C) s w
      else if setType = ''2p_set'' then insert_crdt C Put marshal t1 t2 key setType (co_NewTwoPSet C) s w
      else if setType = ''or_set''
      then insert_crdt C Put marshal t1 t2 key setType (co_NewORSet C (gs_NodeID s)) s w
      else (Some (''unsupported set type: '' @ setType), s, w))"

definition CreateRegister ::
  "'c CRDTOps \<Rightarrow> 'w storage_put \<Rightarrow> (GeoMetadata option \<Rightarrow> goerror + string) \<Rightarrow> gotime \<Rightarrow> gotime \<Rightarrow> string \<Rightarrow>
   string \<Rightarrow> json \<Rightarrow> 'c GeoStore \<Rightarrow> 'w \<Rightarrow> goerror option \<times> 'c GeoStore \<times> 'w" where
  "CreateRegister C Put marshal t1 t2 key registerType initialValue s w =
     (if map_of (gs_crdts s) key \<noteq> None
      then (Some (''CRDT with key '' @ key @ '' already exists''), s, w)
      else if registerType = ''lww_register''
      then insert_crdt C Put marshal t1 t2 key registerType (co_NewLWWRegister C (gs_NodeID s) initialValue) s w
      else if registerType = ''mv_register''
      then insert_crdt C Put marshal t1 t2 key registerType (co_NewMVRegister C (gs_NodeID s) initialValue) s w
      else (Some (''unsupported register type: '' @ registerType), s, w))"

section \<open>Counters\<close>

definition GetCounter :: "'c CRDTOps \<Rightarrow> string \<Rightarrow> 'c GeoStore \<Rightarrow> goerror + int \<times> GeoMetadata" where
  "GetCounter C key s =
     (case map_of (gs_crdts s) key of
        None \<Rightarrow> Inl (''counter with key '' @ key @ '' not found'')
      | Some c \<Rightarrow>
          (case map_of (gs_metadata s) key of
             None \<Rightarrow> Inl (''metadata for key '' @ key @ '' not found'')
           | Some md \<Rightarrow>
               if co_kind C c = KGCounter \<or> co_kind C c = KPNCounter then Inr (co_Value C c, md)
               else Inl (''key '' @ key @ '' is not a counter'')))"

text \<open>The counter after a change, or the error of a decrement or of another type.\<close>

definition change_counter :: "'c CRDTOps \<Rightarrow> string \<Rightarrow> string \<Rightarrow> int \<Rightarrow> 'c \<Rightarrow> goerror + 'c" where
  "change_counter C nodeID key v c =
     (case co_kind C c of
        KGCounter \<Rightarrow> if v < 0 then Inl ''cannot decrement G-Counter'' else Inr (co_Increment C nodeID v c)
      | KPNCounter \<Rightarrow> if v \<ge> 0 then Inr (co_Increment C nodeID v c) else Inr (co_Decrement C nodeID (wrap64 (- v)) c)
      | KOther \<Rightarrow> Inl (''key '' @ key @ '' is not a counter''))"

definition IncrementCounter ::
  "'c CRDTOps \<Rightarrow> 'w storage_put \<Rightarrow> (GeoMetadata option \<Rightarrow> goerror + string) \<Rightarrow> gotime \<Rightarrow> string \<Rightarrow> int \<Rightarrow>
   'c GeoStore \<Rightarrow> 'w \<Rightarrow> ((goerror + int) \<times> 'c GeoStore \<times> 'w) option" where
  "IncrementCounter C Put marshal now key v s0 w0 =
     (case map_of (gs_crdts s0) key of
        None \<Rightarrow> Some (Inl (''counter with key '' @ key @ '' not found''), s0, w0)
      | Some c0 \<Rightarrow>
          let s1 = tick s0 in
          case change_counter C (gs_NodeID s1) key v c0 of
            Inl err \<Rightarrow> Some (Inl err, s1, w0)
          | Inr c1 \<Rightarrow>
              (case map_of (gs_metadata s1) key of
                 None \<Rightarrow> None
               | Some md \<Rightarrow>
                   let md' = md\<lparr>gm_UpdatedAt := now, gm_VectorClock := copyVectorClock s1,
                                gm_Version := wrap64 (gm_Version md + 1)\<rparr>;
                       c2 = co_SetVectorClock C (copyVectorClock s1) c1;
                       s2 = s1\<lparr>gs_crdts := go_set key c2 (gs_crdts s1),
                                gs_metadata := go_set key md' (gs_metadata s1)\<rparr>;
                       (err, w) = persistCRDT C Put marshal key c2 s2 w0
                   in Some (case err of Some e \<Rightarrow> Inl e | None \<Rightarrow> Inr (co_Value C c1), s2, w)))"

section \<open>Merging\<close>

text \<open>\<open>t0\<close> names the conflict (\<open>UnixNano\<close>), \<open>t1\<close> is its detection time, \<open>t2\<close> the update time.\<close>

definition MergeCRDT ::
  "'c CRDTOps \<Rightarrow> 'w storage_put \<Rightarrow> (GeoMetadata option \<Rightarrow> goerror + string) \<Rightarrow> int \<Rightarrow> gotime \<Rightarrow> gotime \<Rightarrow>
   string \<Rightarrow> 'c \<Rightarrow> GeoMetadata \<Rightarrow> 'c GeoStore \<Rightarrow> 'w \<Rightarrow> (goerror option \<times> 'c GeoStore \<times> 'w) option" where
  "MergeCRDT C Put marshal t0 t1 t2 key remote rmd s0 w0 =
     (case map_of (gs_crdts s0) key of
        None \<Rightarrow>
          let s = s0\<lparr>gs_crdts := go_set key (co_Clone C remote) (gs_crdts s0),
                     gs_metadata := go_set key rmd (gs_metadata s0)\<rparr>;
              (err, w) = persistCRDT C Put marshal key remote s w0
          in Some (err, s, w)
      | Some local \<Rightarrow>
          (case map_of (gs_metadata s0) key of
             None \<Rightarrow> None
           | Some lmd \<Rightarrow>
               let cid = key @ ''_'' @ itoa t0;
                   s1 = (if hasConflict (gm_VectorClock lmd) (gm_VectorClock rmd)
                         then s0\<lparr>gs_conflicts := go_set cid
                                  \<lparr>cf_ID = cid, cf_Key = key, cf_Type = co_Type C local,
                                   cf_Values = [co_Clone C local, co_Clone C remote], cf_DetectedAt = t1,
                                   cf_Resolved = False, cf_Resolution = ''''\<rparr> (gs_conflicts s0)\<rparr>
                         else s0)
               in case co_Merge C local remote of
                    (Some err, local1) \<Rightarrow>
                      Some (Some (''failed to merge CRDT: '' @ err),
                            s1\<lparr>gs_crdts := go_set key local1 (gs_crdts s1)\<rparr>, w0)
                  | (None, local1) \<Rightarrow>
                      let s2 = mergeVectorClock (gm_VectorClock rmd) s1;
                          local2 = co_SetVectorClock C (copyVectorClock s2) local1;
                          lmd' = lmd\<lparr>gm_UpdatedAt := t2, gm_VectorClock := copyVectorClock s2,
                                     gm_Version := wrap64 (gm_Version lmd + 1)\<rparr>;
                          s3 = s2\<lparr>gs_crdts := go_set key local2 (gs_crdts s2),
                                  gs_metadata := go_set key lmd' (gs_metadata s2)\<rparr>;
                          (err, w) = persistCRDT C Put marshal key local2 s3 w0
                      in Some (err, s3, w)))"

section \<open>Conflicts\<close>

definition max_time :: "GeoClock \<Rightarrow> int" where
  "max_time clock = fold (\<lambda>(_, t) m. if t > m then t else m) clock 0"

fun latest_crdt :: "'c CRDTOps \<Rightarrow> 'c list \<Rightarrow> 'c option \<times> int \<Rightarrow> 'c option \<times> int" where
  "latest_crdt C [] acc = acc"
| "latest_crdt C (c # cs) (latest, latestTime) =
     (let m = max_time (co_GetVectorClock C c) in
      latest_crdt C cs (if m > latestTime then (Some c, m) else (latest, latestTime)))"

definition resolveLWW :: "'c CRDTOps \<Rightarrow> 'c list \<Rightarrow> 'c option" where
  "resolveLWW C values = map_option (co_Clone C) (fst (latest_crdt C values (None, 0)))"

definition resolveMV :: "'c CRDTOps \<Rightarrow> 'c list \<Rightarrow> 'c option" where
  "resolveMV C values = (case values of [] \<Rightarrow> None | c # _ \<Rightarrow> Some (co_Clone C c))"

definition resolveMerge :: "'c CRDTOps \<Rightarrow> 'c list \<Rightarrow> 'c option" where
  "resolveMerge C values =
     (case values of
        [] \<Rightarrow> None
      | c # cs \<Rightarrow> Some (fold (\<lambda>v r. snd (co_Merge C r v)) cs (co_Clone C c)))"

text \<open>
  A resolution that is \<open>nil\<close> panics: \<open>resolveLWW\<close> dereferences it, and the others are dereferenced when
  the result is persisted.
\<close>

definition GeoResolveConflict ::
  "'c CRDTOps \<Rightarrow> 'w storage_put \<Rightarrow> (GeoMetadata option \<Rightarrow> goerror + string) \<Rightarrow> string \<Rightarrow> string \<Rightarrow>
   'c GeoStore \<Rightarrow> 'w \<Rightarrow> (goerror option \<times> 'c GeoStore \<times> 'w) option" where
  "GeoResolveConflict C Put marshal conflictID strategy s0 w0 =
     (case map_of (gs_conflicts s0) conflictID of
        None \<Rightarrow> Some (Some (''conflict '' @ conflictID @ '' not found''), s0, w0)
      | Some conflict \<Rightarrow>
          if cf_Resolved conflict
          then Some (Some (''conflict '' @ conflictID @ '' already resolved''), s0, w0)
          else if strategy \<notin> {''lww'', ''mv'', ''merge''}
          then Some (Some (''unsupported resolution strategy: '' @ strategy), s0, w0)
          else case (if strategy = ''lww'' then resolveLWW C (cf_Values conflict)
                     else if strategy = ''mv'' then resolveMV C (cf_Values conflict)
                     else resolveMerge C (cf_Values conflict)) of
                 None \<Rightarrow> None
               | Some resolved \<Rightarrow>
                   let s = s0\<lparr>gs_crdts := go_set (cf_Key conflict) resolved (gs_crdts s0),
                              gs_conflicts := go_set conflictID
                                (conflict\<lparr>cf_Resolved := True, cf_Resolution := strategy\<rparr>) (gs_conflicts s0)\<rparr>;
                       (err, w) = persistCRDT C Put marshal (cf_Key conflict) resolved s w0
                   in Some (err, s, w))"

section \<open>Reports\<close>

definition GetConflicts :: "'c GeoStore \<Rightarrow> (string, 'c Conflict) gomap" where
  "GetConflicts s = fold (\<lambda>(i, c). go_set i c) (gs_conflicts s) []"

definition GetVectorClocks :: "'c GeoStore \<Rightarrow> (string, GeoClock) gomap" where
  "GetVectorClocks s = fold (\<lambda>(k, md). go_set k (gm_VectorClock md)) (gs_metadata s) []"

definition GetVectorClockSizes :: "'c GeoStore \<Rightarrow> (string, int) gomap" where
  "GetVectorClockSizes s = fold (\<lambda>(k, md). go_set k (int (length (gm_VectorClock md)))) (gs_metadata s) []"

record GeoStats =
  gt_total_crdts :: int
  gt_total_conflicts :: int
  gt_vector_clock_size :: int
  gt_crdt_types :: "(string, int) gomap"

definition GeoGetStats :: "'c GeoStore \<Rightarrow> GeoStats" where
  "GeoGetStats s =
     \<lparr>gt_total_crdts = int (length (gs_crdts s)), gt_total_conflicts = int (length (gs_conflicts s)),
      gt_vector_clock_size = int (length (gs_vectorClock s)),
      gt_crdt_types = fold (\<lambda>(_, md) m. go_set (gm_Type md) (go_get 0 m (gm_Type md) + 1) m) (gs_metadata s) []\<rparr>"

section \<open>The order of clocks\<close>

text \<open>The causal order of vector clocks; a node that is absent counts as 0.\<close>

definition clock_le :: "GeoClock \<Rightarrow> GeoClock \<Rightarrow> bool" where
  "clock_le a b \<longleftrightarrow> (\<forall>n. go_get 0 a n \<le> go_get 0 b n)"

definition clock_ok :: "GeoClock \<Rightarrow> bool" where
  "clock_ok c \<longleftrightarrow> go_wf c \<and> (\<forall>n. 0 \<le> go_get 0 c n)"

lemma clock_le_refl [simp]: "clock_le a a"
  by (simp add: clock_le_def)

lemma clock_le_trans [trans]: "clock_le a b \<Longrightarrow> clock_le b c \<Longrightarrow> clock_le a c"
  unfolding clock_le_def by (meson order_trans)

lemma clock_ok_Cons: "clock_ok ((n, t) # c) \<Longrightarrow> 0 \<le> t \<and> n \<notin> fst ` set c \<and> clock_ok c"
proof -
  assume ok: "clock_ok ((n, t) # c)"
  then have n: "n \<notin> fst ` set c" and wf: "go_wf c" by (simp_all add: clock_ok_def)
  have "0 \<le> t" using ok [unfolded clock_ok_def, THEN conjunct2, rule_format, of n] by (simp add: go_map_simps)
  moreover have "0 \<le> go_get 0 c j" for j
    using ok [unfolded clock_ok_def, THEN conjunct2, rule_format, of j] n
    by (cases "j = n") (simp_all add: go_map_simps go_get_notin)
  ultimately show ?thesis using n wf by (simp add: clock_ok_def)
qed

lemma copyVectorClock_id: "go_wf (gs_vectorClock s) \<Longrightarrow> copyVectorClock s = gs_vectorClock s"
  using fold_go_set_fresh [of "[]" "gs_vectorClock s" "\<lambda>_ v. v"]
  by (simp add: copyVectorClock_def go_wf_def)

lemma go_get_merge_clock:
  "clock_ok r \<Longrightarrow> clock_ok m \<Longrightarrow>
   clock_ok (merge_clock r m) \<and> go_get 0 (merge_clock r m) n = max (go_get 0 r n) (go_get 0 m n)"
proof (induction r m rule: merge_clock.induct)
  case (1 m)
  then show ?case by (simp add: clock_ok_def)
next
  case (2 node t rest m)
  let ?m = "case map_of m node of None \<Rightarrow> go_set node t m
            | Some l \<Rightarrow> if t > l then go_set node t m else m"
  have r: "0 \<le> t" "node \<notin> fst ` set rest" "clock_ok rest"
    using clock_ok_Cons [OF 2(2)] by simp_all
  have get: "go_get 0 ?m j = (if j = node then max t (go_get 0 m node) else go_get 0 m j)" for j
    using r(1) by (auto simp: go_map_simps go_get_def [of 0 m] split: option.split)
  have "go_wf ?m" using 2(3) by (simp add: clock_ok_def split: option.split)
  then have "clock_ok ?m" using 2(3) r(1) by (simp add: clock_ok_def get)
  from 2(1) [OF r(3) this] show ?case
    using go_get_notin [OF r(2), of 0] 2(3) r(1)
    by (simp add: get) (simp add: go_map_simps clock_ok_def max_def)
qed

lemma merge_clock_least_upper_bound:
  assumes "clock_ok r" "clock_ok m"
  shows "clock_ok (merge_clock r m)" "clock_le r (merge_clock r m)" "clock_le m (merge_clock r m)"
    "clock_le r c \<Longrightarrow> clock_le m c \<Longrightarrow> clock_le (merge_clock r m) c"
  using go_get_merge_clock [OF assms] by (simp_all add: clock_le_def)

text \<open>Clocks are a state-based CRDT: the node's clock only depends on the set of the clocks it absorbed.\<close>

interpretation geo_clock: state_crdt sup "\<lambda>m r. merge_clock r m" "go_get 0 :: GeoClock \<Rightarrow> string \<Rightarrow> int" clock_ok
  by unfold_locales (auto simp: go_get_merge_clock sup_int_def fun_eq_iff)

lemma absorbed_clocks_agree:
  assumes "clock_ok a" "\<forall>r\<in>set rs. clock_ok r" "clock_ok b" "\<forall>r\<in>set qs. clock_ok r" "set (a # rs) = set (b # qs)"
  shows "clock_le (foldl (\<lambda>m r. merge_clock r m) a rs) (foldl (\<lambda>m r. merge_clock r m) b qs)"
  using geo_clock.deliveries_converge [OF assms] by (simp add: clock_le_def fun_eq_iff)

lemma hasConflict_iff: "hasConflict a b \<longleftrightarrow> \<not> clock_le a b \<and> \<not> clock_le b a"
proof -
  have out: "go_get 0 x n = 0" if "n \<notin> set (map fst x)" for x :: GeoClock and n
    using that by (simp add: go_get_notin)
  have "(\<exists>n\<in>set (map fst x @ map fst y). go_get 0 x n > go_get 0 y n) \<longleftrightarrow> \<not> clock_le x y" for x y :: GeoClock
    using out [of _ x] out [of _ y] unfolding clock_le_def not_le [symmetric] set_append
    by (metis UnCI order_refl)
  from this [of a b] this [of b a] show ?thesis
    by (simp add: hasConflict_def Let_def list_ex_iff Un_commute)
qed

lemma tick_clock:
  assumes "clock_ok (gs_vectorClock s)" "go_get 0 (gs_vectorClock s) (gs_NodeID s) < 2 ^ 63 - 1"
  shows "clock_ok (gs_vectorClock (tick s))" "clock_le (gs_vectorClock s) (gs_vectorClock (tick s))"
    "\<not> clock_le (gs_vectorClock (tick s)) (gs_vectorClock s)"
proof -
  let ?t = "go_get 0 (gs_vectorClock s) (gs_NodeID s)"
  have nn: "0 \<le> go_get 0 (gs_vectorClock s) n" for n using assms(1) by (simp add: clock_ok_def)
  then have "wrap64 (?t + 1) = ?t + 1"
    using nn [of "gs_NodeID s"] assms(2) by (intro wrap64_id) linarith
  then have get: "go_get 0 (gs_vectorClock (tick s)) n = (if n = gs_NodeID s then ?t + 1 else go_get 0 (gs_vectorClock s) n)" for n
    by (simp add: tick_def go_map_simps)
  show "clock_le (gs_vectorClock s) (gs_vectorClock (tick s))"
    by (simp add: clock_le_def get)
  show "\<not> clock_le (gs_vectorClock (tick s)) (gs_vectorClock s)"
    unfolding clock_le_def by (auto simp: get intro!: exI [of _ "gs_NodeID s"])
  have "0 \<le> go_get 0 (gs_vectorClock (tick s)) n" for n
    using nn [of n] nn [of "gs_NodeID s"] by (simp add: get)
  moreover have "go_wf (gs_vectorClock (tick s))" using assms(1) by (simp add: clock_ok_def tick_def)
  ultimately show "clock_ok (gs_vectorClock (tick s))" by (simp add: clock_ok_def)
qed

lemma tick_fields [simp]:
  "gs_crdts (tick s) = gs_crdts s" "gs_metadata (tick s) = gs_metadata s"
  "gs_conflicts (tick s) = gs_conflicts s" "gs_NodeID (tick s) = gs_NodeID s"
  by (simp_all add: tick_def)

section \<open>The invariant of the store\<close>

definition geo_inv :: "'c GeoStore \<Rightarrow> bool" where
  "geo_inv s \<longleftrightarrow>
     clock_ok (gs_vectorClock s) \<and>
     dom (map_of (gs_crdts s)) \<subseteq> dom (map_of (gs_metadata s)) \<and>
     (\<forall>key md. map_of (gs_metadata s) key = Some md \<longrightarrow> clock_le (gm_VectorClock md) (gs_vectorClock s)) \<and>
     (\<forall>i cf. map_of (gs_conflicts s) i = Some cf \<longrightarrow>
        cf_Key cf \<in> dom (map_of (gs_metadata s)) \<and> length (cf_Values cf) = 2)"

text \<open>The clock grows, and an object is stored together with metadata.\<close>

lemma geo_inv_store:
  assumes "geo_inv s" "clock_ok vc" "clock_le (gs_vectorClock s) vc" "clock_le (gm_VectorClock md) vc"
  shows "geo_inv (s\<lparr>gs_vectorClock := vc, gs_crdts := go_set key c (gs_crdts s),
                    gs_metadata := go_set key md (gs_metadata s)\<rparr>)"
  using assms unfolding geo_inv_def by (auto simp: go_map_simps intro: clock_le_trans [OF _ assms(3)])

lemma geo_inv_tick:
  assumes "geo_inv s" "go_get 0 (gs_vectorClock s) (gs_NodeID s) < 2 ^ 63 - 1"
  shows "geo_inv (tick s)"
proof -
  have ok: "clock_ok (gs_vectorClock s)" using assms(1) by (simp add: geo_inv_def)
  show ?thesis
    using assms(1) tick_clock(1) [OF ok assms(2)] unfolding geo_inv_def
    by (auto intro: clock_le_trans [OF _ tick_clock(2) [OF ok assms(2)]])
qed

lemma geo_inv_conflict:
  assumes "geo_inv s" "cf_Key cf \<in> dom (map_of (gs_metadata s))" "length (cf_Values cf) = 2"
  shows "geo_inv (s\<lparr>gs_conflicts := go_set i cf (gs_conflicts s)\<rparr>)"
  using assms unfolding geo_inv_def by (auto simp: go_map_simps)

lemma geo_inv_crdt:
  assumes "geo_inv s" "key \<in> dom (map_of (gs_metadata s))"
  shows "geo_inv (s\<lparr>gs_crdts := go_set key c (gs_crdts s)\<rparr>)"
  using assms unfolding geo_inv_def by (auto simp: go_map_simps)

lemma geo_inv_clock: "geo_inv s \<Longrightarrow> clock_ok (gs_vectorClock s)"
  by (simp add: geo_inv_def)

lemma geo_inv_metadata: "geo_inv s \<Longrightarrow> map_of (gs_crdts s) key = Some c \<Longrightarrow> \<exists>md. map_of (gs_metadata s) key = Some md"
  by (auto simp: geo_inv_def)

lemma geo_inv_New: "geo_inv (NewGeoStore nodeID region now)"
  by (simp add: geo_inv_def NewGeoStore_def clock_ok_def go_map_simps)

section \<open>The operations\<close>

lemma insert_crdt_inv:
  assumes "geo_inv s" "go_get 0 (gs_vectorClock s) (gs_NodeID s) < 2 ^ 63 - 1"
    "insert_crdt C Put marshal t1 t2 key typ c s w = (err, s', w')"
  shows "geo_inv s'"
proof -
  have T: "geo_inv (tick s)" using geo_inv_tick assms(1,2) by blast
  then have "go_wf (gs_vectorClock (tick s))" using geo_inv_clock clock_ok_def by blast
  from copyVectorClock_id [OF this] geo_inv_store [OF T geo_inv_clock [OF T]] assms(3)
  show ?thesis by (auto simp: insert_crdt_def Let_def split: prod.splits)
qed

lemma create_inv:
  assumes "geo_inv s" "go_get 0 (gs_vectorClock s) (gs_NodeID s) < 2 ^ 63 - 1"
  shows "CreateCounter C Put marshal t1 t2 key typ v s w = (err, s', w') \<Longrightarrow> geo_inv s'"
    "CreateSet C Put marshal t1 t2 key typ s w = (err, s', w') \<Longrightarrow> geo_inv s'"
    "CreateRegister C Put marshal t1 t2 key typ x s w = (err, s', w') \<Longrightarrow> geo_inv s'"
  using insert_crdt_inv [OF assms] assms(1)
  unfolding CreateCounter_def CreateSet_def CreateRegister_def by (metis fst_conv snd_conv)+

lemma IncrementCounter_inv:
  assumes "geo_inv s" "go_get 0 (gs_vectorClock s) (gs_NodeID s) < 2 ^ 63 - 1"
    "IncrementCounter C Put marshal now key v s w = Some (r, s', w')"
  shows "geo_inv s'"
proof -
  have T: "geo_inv (tick s)" using geo_inv_tick assms(1,2) by blast
  then have "go_wf (gs_vectorClock (tick s))" using geo_inv_clock clock_ok_def by blast
  from copyVectorClock_id [OF this] geo_inv_store [OF T geo_inv_clock [OF T]] assms(1,3) T
  show ?thesis
    by (auto simp: IncrementCounter_def Let_def split: prod.splits option.splits sum.splits)
qed

lemma MergeCRDT_adopt:
  assumes "map_of (gs_crdts s) key = None"
    "MergeCRDT C Put marshal t0 t1 t2 key remote rmd s w = Some (err, s', w')"
  shows "s' = s\<lparr>gs_crdts := go_set key (co_Clone C remote) (gs_crdts s),
                gs_metadata := go_set key rmd (gs_metadata s)\<rparr>"
  using assms by (auto simp: MergeCRDT_def Let_def split: prod.splits)

text \<open>The state that a merge reaches before its clocks are merged.\<close>

definition noted_conflict :: "'c CRDTOps \<Rightarrow> int \<Rightarrow> gotime \<Rightarrow> string \<Rightarrow> 'c \<Rightarrow> 'c \<Rightarrow> GeoClock \<Rightarrow> GeoClock \<Rightarrow> 'c GeoStore \<Rightarrow> 'c GeoStore" where
  "noted_conflict C t0 t1 key local remote lvc rvc s =
     (let cid = key @ ''_'' @ itoa t0 in
      if hasConflict lvc rvc
      then s\<lparr>gs_conflicts := go_set cid
              \<lparr>cf_ID = cid, cf_Key = key, cf_Type = co_Type C local,
               cf_Values = [co_Clone C local, co_Clone C remote], cf_DetectedAt = t1,
               cf_Resolved = False, cf_Resolution = ''''\<rparr> (gs_conflicts s)\<rparr>
      else s)"

lemma noted_conflict_fields [simp]:
  "gs_vectorClock (noted_conflict C t0 t1 key a b la ra s) = gs_vectorClock s"
  "gs_metadata (noted_conflict C t0 t1 key a b la ra s) = gs_metadata s"
  "gs_crdts (noted_conflict C t0 t1 key a b la ra s) = gs_crdts s"
  by (simp_all add: noted_conflict_def Let_def)

lemma noted_conflict_inv:
  "geo_inv s \<Longrightarrow> key \<in> dom (map_of (gs_metadata s)) \<Longrightarrow> geo_inv (noted_conflict C t0 t1 key a b la ra s)"
  by (simp add: noted_conflict_def Let_def geo_inv_conflict)

lemma MergeCRDT_existing:
  assumes "map_of (gs_crdts s) key = Some local" "map_of (gs_metadata s) key = Some lmd"
    "go_wf (gs_vectorClock s)" "clock_ok (gm_VectorClock rmd)" "clock_ok (gs_vectorClock s)"
  shows "MergeCRDT C Put marshal t0 t1 t2 key remote rmd s w =
    (let s1 = noted_conflict C t0 t1 key local remote (gm_VectorClock lmd) (gm_VectorClock rmd) s;
         vc = merge_clock (gm_VectorClock rmd) (gs_vectorClock s)
     in case co_Merge C local remote of
          (Some e, l1) \<Rightarrow> Some (Some (''failed to merge CRDT: '' @ e), s1\<lparr>gs_crdts := go_set key l1 (gs_crdts s)\<rparr>, w)
        | (None, l1) \<Rightarrow>
            (let s3 = s1\<lparr>gs_vectorClock := vc, gs_crdts := go_set key (co_SetVectorClock C vc l1) (gs_crdts s),
                        gs_metadata := go_set key (lmd\<lparr>gm_UpdatedAt := t2, gm_VectorClock := vc,
                                                       gm_Version := wrap64 (gm_Version lmd + 1)\<rparr>) (gs_metadata s)\<rparr>;
                 (e, w') = persistCRDT C Put marshal key (co_SetVectorClock C vc l1) s3 w
             in Some (e, s3, w')))"
proof -
  have "go_wf (merge_clock (gm_VectorClock rmd) (gs_vectorClock s))"
    using merge_clock_least_upper_bound(1) [OF assms(4,5)] by (simp add: clock_ok_def)
  then have copy: "copyVectorClock (x\<lparr>gs_vectorClock := merge_clock (gm_VectorClock rmd) (gs_vectorClock s)\<rparr>) =
      merge_clock (gm_VectorClock rmd) (gs_vectorClock s)" for x :: "'c GeoStore"
    by (simp add: copyVectorClock_id)
  obtain m l1 where "co_Merge C local remote = (m, l1)" by fastforce
  then show ?thesis
    unfolding MergeCRDT_def assms(1,2) option.case Let_def
    unfolding noted_conflict_def [unfolded Let_def, symmetric]
    by (cases m) (simp_all add: copy mergeVectorClock_def)
qed

lemma MergeCRDT_inv:
  assumes inv: "geo_inv s" and ok: "clock_ok (gm_VectorClock rmd)"
    and known: "map_of (gs_crdts s) key = None \<Longrightarrow> clock_le (gm_VectorClock rmd) (gs_vectorClock s)"
    and run: "MergeCRDT C Put marshal t0 t1 t2 key remote rmd s w = Some (err, s', w')"
  shows "geo_inv s'"
proof (cases "map_of (gs_crdts s) key")
  case None
  have "geo_inv (s\<lparr>gs_crdts := go_set key (co_Clone C remote) (gs_crdts s),
                  gs_metadata := go_set key rmd (gs_metadata s)\<rparr>)"
    using inv known [OF None] unfolding geo_inv_def by (auto simp: go_map_simps)
  then show ?thesis by (simp only: MergeCRDT_adopt [OF None run])
next
  case (Some local)
  obtain lmd where lmd: "map_of (gs_metadata s) key = Some lmd"
    using geo_inv_metadata [OF inv Some] ..
  note lub = merge_clock_least_upper_bound [OF ok geo_inv_clock [OF inv]]
  let ?s1 = "noted_conflict C t0 t1 key local remote (gm_VectorClock lmd) (gm_VectorClock rmd) s"
  have s1: "geo_inv ?s1" by (rule noted_conflict_inv [OF inv]) (simp add: lmd dom_def)
  have wf: "go_wf (gs_vectorClock s)" using geo_inv_clock [OF inv] by (simp add: clock_ok_def)
  show ?thesis
    using run geo_inv_crdt [OF s1, of key] geo_inv_store [OF s1 lub(1)] lub(3) lmd
    unfolding MergeCRDT_existing [OF Some lmd wf ok geo_inv_clock [OF inv]]
    by (auto simp: Let_def dom_def split: prod.splits option.splits)
qed

lemma resolve_some:
  "length vs = 2 \<Longrightarrow> resolveMV C vs \<noteq> None" "length vs = 2 \<Longrightarrow> resolveMerge C vs \<noteq> None"
  by (auto simp: resolveMV_def resolveMerge_def split: list.split)

lemma GeoResolveConflict_inv:
  assumes "geo_inv s" "GeoResolveConflict C Put marshal i strategy s w = Some (err, s', w')"
  shows "geo_inv s'"
proof -
  have cf: "cf_Key cf \<in> dom (map_of (gs_metadata s)) \<and> length (cf_Values cf) = 2"
    if "map_of (gs_conflicts s) i = Some cf" for cf
    using assms(1) that by (simp add: geo_inv_def)
  then have "geo_inv (s\<lparr>gs_crdts := go_set (cf_Key cf) c (gs_crdts s),
        gs_conflicts := go_set i (cf\<lparr>cf_Resolved := True, cf_Resolution := strategy\<rparr>) (gs_conflicts s)\<rparr>)"
    if "map_of (gs_conflicts s) i = Some cf" for cf c
    using geo_inv_conflict [OF geo_inv_crdt [OF assms(1)]] that by simp
  then show ?thesis
    using assms by (auto simp: GeoResolveConflict_def Let_def split: prod.splits option.splits if_splits)
qed

lemma fold_max_pos:
  "(0 :: int) < fold (\<lambda>(_, t) m. if t > m then t else m) clock z \<longleftrightarrow> 0 < z \<or> (\<exists>(n, t)\<in>set clock. 0 < t)"
proof (induction clock arbitrary: z)
  case (Cons x clock)
  show ?case by (cases x) (simp add: Cons.IH, linarith)
qed simp

lemma max_time_pos: "0 < max_time clock \<longleftrightarrow> (\<exists>(n, t)\<in>set clock. 0 < t)"
  by (simp add: max_time_def fold_max_pos)

lemma latest_crdt_spec:
  assumes "latest_crdt C cs (l, m) = (l', m')"
  shows "m \<le> m' \<and> (\<forall>c\<in>set cs. max_time (co_GetVectorClock C c) \<le> m') \<and>
    (l' = l \<and> m' = m \<or> (\<exists>c\<in>set cs. l' = Some c \<and> m' = max_time (co_GetVectorClock C c) \<and> m < m'))"
  using assms by (induction cs arbitrary: l m) (fastforce simp: Let_def split: if_splits)+

lemma resolveLWW_None: "resolveLWW C vs = None \<longleftrightarrow> (\<forall>c\<in>set vs. max_time (co_GetVectorClock C c) \<le> 0)"
proof -
  obtain l m where "latest_crdt C vs (None, 0) = (l, m)" by fastforce
  from latest_crdt_spec [OF this] this show ?thesis
    unfolding resolveLWW_def by auto
qed

lemma resolveLWW_Some:
  assumes "resolveLWW C vs = Some r"
  shows "\<exists>c\<in>set vs. r = co_Clone C c \<and>
    (\<forall>d\<in>set vs. max_time (co_GetVectorClock C d) \<le> max_time (co_GetVectorClock C c))"
proof -
  obtain l m where "latest_crdt C vs (None, 0) = (l, m)" by fastforce
  from latest_crdt_spec [OF this] this assms show ?thesis
    unfolding resolveLWW_def by auto
qed

section \<open>Runs of the store\<close>

text \<open>
  The calls of a node. Its own clock stays below the largest \<open>int64\<close>, remote clocks are well formed,
  and an object that the node does not hold is adopted only when its clock is already covered by the
  clock of the node.
\<close>

inductive geo_step ::
  "'c CRDTOps \<Rightarrow> 'w storage_put \<Rightarrow> (GeoMetadata option \<Rightarrow> goerror + string) \<Rightarrow>
   'c GeoStore \<times> 'w \<Rightarrow> 'c GeoStore \<times> 'w \<Rightarrow> bool" for C Put marshal where
  counter: "go_get 0 (gs_vectorClock s) (gs_NodeID s) < 2 ^ 63 - 1 \<Longrightarrow>
    CreateCounter C Put marshal t1 t2 key typ v s w = (err, s', w') \<Longrightarrow> geo_step C Put marshal (s, w) (s', w')"
| newset: "go_get 0 (gs_vectorClock s) (gs_NodeID s) < 2 ^ 63 - 1 \<Longrightarrow>
    CreateSet C Put marshal t1 t2 key typ s w = (err, s', w') \<Longrightarrow> geo_step C Put marshal (s, w) (s', w')"
| register: "go_get 0 (gs_vectorClock s) (gs_NodeID s) < 2 ^ 63 - 1 \<Longrightarrow>
    CreateRegister C Put marshal t1 t2 key typ x s w = (err, s', w') \<Longrightarrow> geo_step C Put marshal (s, w) (s', w')"
| increment: "go_get 0 (gs_vectorClock s) (gs_NodeID s) < 2 ^ 63 - 1 \<Longrightarrow>
    IncrementCounter C Put marshal t1 key v s w = Some (r, s', w') \<Longrightarrow> geo_step C Put marshal (s, w) (s', w')"
| merge: "clock_ok (gm_VectorClock rmd) \<Longrightarrow>
    map_of (gs_crdts s) key \<noteq> None \<or> clock_le (gm_VectorClock rmd) (gs_vectorClock s) \<Longrightarrow>
    MergeCRDT C Put marshal t0 t1 t2 key remote rmd s w = Some (err, s', w') \<Longrightarrow> geo_step C Put marshal (s, w) (s', w')"
| resolve: "GeoResolveConflict C Put marshal i strategy s w = Some (err, s', w') \<Longrightarrow>
    geo_step C Put marshal (s, w) (s', w')"

lemma geo_step_inv:
  assumes "geo_step C Put marshal x y" "geo_inv (fst x)"
  shows "geo_inv (fst y)"
  using assms
proof (cases rule: geo_step.cases)
  case merge
  then show ?thesis using MergeCRDT_inv assms(2) by (metis fst_conv)
qed (use assms(2) create_inv IncrementCounter_inv GeoResolveConflict_inv in \<open>fastforce+\<close>)

interpretation geo: transition_system "\<lambda>(C, Put, marshal). geo_step C Put marshal" "\<lambda>x. geo_inv (fst x)"
  by unfold_locales (auto dest: geo_step_inv)

lemma geo_reachable:
  "(geo_step C Put marshal)\<^sup>*\<^sup>* (NewGeoStore nodeID region now, w) (s, w') \<Longrightarrow> geo_inv s"
  using geo.ainv_run [of "(C, Put, marshal)" "(NewGeoStore nodeID region now, w)" "(s, w')"]
  by (simp add: geo_inv_New)

section \<open>Properties\<close>

text \<open>A CRDT for the witnesses: a counter with its clock.\<close>

definition demo_ops :: "(GeoClock \<times> int) CRDTOps" where
  "demo_ops =
     \<lparr>co_Type = \<lambda>_. ''pn_counter'', co_Merge = \<lambda>a b. (None, (fst a, max (snd a) (snd b))), co_Clone = \<lambda>c. c,
      co_GetVectorClock = fst, co_SetVectorClock = \<lambda>vc c. (vc, snd c), co_Serialize = \<lambda>_. Inr ''x'',
      co_kind = \<lambda>_. KPNCounter, co_Value = snd, co_Increment = \<lambda>_ v c. (fst c, snd c + v),
      co_Decrement = \<lambda>_ v c. (fst c, snd c - v), co_NewGCounter = \<lambda>_ v. ([], v),
      co_NewPNCounter = \<lambda>_ v. ([], v), co_NewGSet = ([], 0), co_NewTwoPSet = ([], 0),
      co_NewORSet = \<lambda>_. ([], 0), co_NewLWWRegister = \<lambda>_ _. ([], 0), co_NewMVRegister = \<lambda>_ _. ([], 0)\<rparr>"

definition demo_put :: "(string \<times> string) list storage_put" where
  "demo_put k v w = (None, (k, v) # w)"

definition demo_metadata :: GeoMetadata where
  "demo_metadata = \<lparr>gm_Type = ''pn_counter'', gm_Key = ''k'', gm_NodeID = ''b'', gm_Region = ''eu'',
     gm_CreatedAt = 0, gm_UpdatedAt = 0, gm_VectorClock = [(''b'', 5)], gm_Version = 3\<rparr>"

text \<open>In every state a node reaches, each stored object has metadata whose clock is covered by the clock
  of the node; hence \<open>IncrementCounter\<close> and \<open>MergeCRDT\<close> never dereference missing metadata, and the
  \<open>mv\<close> and \<open>merge\<close> resolutions of a conflict never dereference \<open>nil\<close>.\<close>

theorem geo_store_invariant:
  assumes "(geo_step C Put marshal)\<^sup>*\<^sup>* (NewGeoStore nodeID region now, w0) (s, w)"
  shows "(\<forall>key md. map_of (gs_metadata s) key = Some md \<longrightarrow> clock_le (gm_VectorClock md) (gs_vectorClock s)) \<and>
    IncrementCounter C Put marshal t2 key v s w \<noteq> None \<and>
    MergeCRDT C Put marshal t0 t1 t2 key remote rmd s w \<noteq> None \<and>
    (strategy \<noteq> ''lww'' \<longrightarrow> GeoResolveConflict C Put marshal i strategy s w \<noteq> None)"
proof (intro conjI impI)
  note inv = geo_reachable [OF assms]
  show "\<forall>key md. map_of (gs_metadata s) key = Some md \<longrightarrow> clock_le (gm_VectorClock md) (gs_vectorClock s)"
    using inv by (simp add: geo_inv_def)
  show "IncrementCounter C Put marshal t2 key v s w \<noteq> None"
    using geo_inv_metadata [OF inv, of key] by (cases "map_of (gs_crdts s) key")
      (auto simp: IncrementCounter_def Let_def split: option.split sum.split prod.split)
  show "MergeCRDT C Put marshal t0 t1 t2 key remote rmd s w \<noteq> None"
    using geo_inv_metadata [OF inv, of key] by (cases "map_of (gs_crdts s) key")
      (auto simp: MergeCRDT_def Let_def split: option.split prod.split)
  have two: "length (cf_Values cf) = 2" if "map_of (gs_conflicts s) i = Some cf" for cf
    using inv that by (simp add: geo_inv_def)
  assume "strategy \<noteq> ''lww''"
  then show "GeoResolveConflict C Put marshal i strategy s w \<noteq> None"
    using two resolve_some [of "cf_Values (the (map_of (gs_conflicts s) i))" C]
    by (auto simp: GeoResolveConflict_def Let_def split: option.split prod.split)
qed

theorem geo_store_invariant_witness:
  "IncrementCounter demo_ops demo_put (\<lambda>_. Inr ''m'') 9 ''k'' 4 (NewGeoStore ''a'' ''us'' 1) [] \<noteq> None"
  using geo_store_invariant [of demo_ops demo_put "\<lambda>_. Inr ''m''" "''a''" "''us''" 1 "[]" "NewGeoStore ''a'' ''us'' 1" "[]"]
  by blast


definition demo_store :: "(GeoClock \<times> int) GeoStore" where
  "demo_store = fst (snd (CreateCounter demo_ops demo_put (\<lambda>_. Inr ''m'') 1 1 ''k'' ''pn_counter'' 7 (NewGeoStore ''a'' ''us'' 1) []))"

lemma demo_store_eval:
  "demo_store = \<lparr>gs_NodeID = ''a'', gs_Region = ''us'', gs_crdts = [(''k'', [(''a'', 1)], 7)],
     gs_metadata = [(''k'', \<lparr>gm_Type = ''pn_counter'', gm_Key = ''k'', gm_NodeID = ''a'', gm_Region = ''us'',
        gm_CreatedAt = 1, gm_UpdatedAt = 1, gm_VectorClock = [(''a'', 1)], gm_Version = 1\<rparr>)],
     gs_conflicts = [], gs_vectorClock = [(''a'', 1)], gs_startTime = 1\<rparr>"
  by code_simp


text \<open>What an increment leaves in the metadata: the clock of the node, whatever clock the object had.\<close>

lemma IncrementCounter_clock:
  assumes "map_of (gs_crdts s) key = Some c" "map_of (gs_metadata s) key = Some md" "clock_ok (gs_vectorClock s)"
    "go_get 0 (gs_vectorClock s) (gs_NodeID s) < 2 ^ 63 - 1"
    "IncrementCounter C Put marshal now key v s w = Some (Inr r, s', w')"
  shows "\<exists>md'. map_of (gs_metadata s') key = Some md' \<and> gm_VectorClock md' = gs_vectorClock (tick s)"
proof -
  have "go_wf (gs_vectorClock (tick s))"
    using tick_clock(1) [OF assms(3,4)] by (simp add: clock_ok_def)
  then show ?thesis
    using assms(1,2,5) copyVectorClock_id [of "tick s"]
    by (auto simp: IncrementCounter_def Let_def go_map_simps split: sum.splits prod.splits option.splits)
qed

text \<open>An object the node does not hold is adopted with its metadata, but the clock of the node does not take the
  remote clock in. If a node \<open>n\<close> of the remote clock is ahead of what the adopting node has seen, the next
  increment overwrites the clock of the object with one that no longer covers the remote clock, although the
  object contains the remote updates.\<close>

theorem geo_adopted_clock_lost:
  assumes "geo_inv s" "map_of (gs_crdts s) key = None" "n \<noteq> gs_NodeID s"
    "go_get 0 (gs_vectorClock s) n < go_get 0 (gm_VectorClock rmd) n"
    "go_get 0 (gs_vectorClock s) (gs_NodeID s) < 2 ^ 63 - 1"
    "MergeCRDT C Put marshal t0 t1 t2 key remote rmd s w = Some (err, s1, w1)"
    "IncrementCounter C Put marshal t3 key v s1 w1 = Some (Inr r, s2, w2)"
  shows "map_of (gs_crdts s1) key = Some (co_Clone C remote) \<and> gs_vectorClock s1 = gs_vectorClock s \<and>
    (\<exists>md. map_of (gs_metadata s2) key = Some md \<and> \<not> clock_le (gm_VectorClock rmd) (gm_VectorClock md))"
proof -
  have s1: "map_of (gs_crdts s1) key = Some (co_Clone C remote)" "map_of (gs_metadata s1) key = Some rmd"
    "gs_vectorClock s1 = gs_vectorClock s" "gs_NodeID s1 = gs_NodeID s"
    using MergeCRDT_adopt [OF assms(2,6)] by (simp_all add: go_map_simps)
  obtain md where md: "map_of (gs_metadata s2) key = Some md" "gm_VectorClock md = gs_vectorClock (tick s1)"
    using IncrementCounter_clock [OF s1(1,2) _ _ assms(7)] s1(3,4) assms(5) geo_inv_clock [OF assms(1)] by auto
  have "go_get 0 (gm_VectorClock md) n = go_get 0 (gs_vectorClock s) n"
    using assms(3) s1(3,4) by (simp add: md(2) tick_def go_map_simps)
  with assms(4) have "\<not> clock_le (gm_VectorClock rmd) (gm_VectorClock md)"
    unfolding clock_le_def by (metis not_le)
  with s1 md(1) show ?thesis by blast
qed

theorem geo_adopted_clock_lost_witness:
  "\<exists>s1 w1 s2 w2 md.
     MergeCRDT demo_ops demo_put (\<lambda>_. Inr ''m'') 9 1 2 ''k'' ([(''b'', 5)], 8) demo_metadata (NewGeoStore ''a'' ''us'' 1) [] =
       Some (None, s1, w1) \<and>
     IncrementCounter demo_ops demo_put (\<lambda>_. Inr ''m'') 3 ''k'' 1 s1 w1 = Some (Inr 9, s2, w2) \<and>
     map_of (gs_metadata s2) ''k'' = Some md \<and> \<not> clock_le [(''b'', 5)] (gm_VectorClock md)"
proof -
  let ?s = "NewGeoStore ''a'' ''us'' 1 :: (GeoClock \<times> int) GeoStore"
  let ?M = "MergeCRDT demo_ops demo_put (\<lambda>_. Inr ''m'') 9 1 2 ''k'' ([(''b'', 5)], 8) demo_metadata ?s []"
  have "map_option fst ?M = Some None" by code_simp
  then obtain s1 w1 where M: "?M = Some (None, s1, w1)" by auto
  have "map_option fst (Option.bind ?M (\<lambda>(_, s1, w1). IncrementCounter demo_ops demo_put (\<lambda>_. Inr ''m'') 3 ''k'' 1 s1 w1)) = Some (Inr 9)"
    by code_simp
  then obtain s2 w2 where I: "IncrementCounter demo_ops demo_put (\<lambda>_. Inr ''m'') 3 ''k'' 1 s1 w1 = Some (Inr 9, s2, w2)"
    by (auto simp: M)
  from geo_adopted_clock_lost [OF geo_inv_New _ _ _ _ M I, of "''b''"] M I show ?thesis
    by (auto simp: NewGeoStore_def demo_metadata_def go_map_simps)
qed

text \<open>Last-writer-wins resolution returns a copy of a conflicting value whose clock has the largest entry; it
  dereferences \<open>nil\<close> exactly when no clock of the values has a positive entry.\<close>

theorem geo_lww_resolution:
  "(resolveLWW C vs = None \<longleftrightarrow> \<not> (\<exists>c\<in>set vs. \<exists>(n, t)\<in>set (co_GetVectorClock C c). 0 < t)) \<and>
   (\<forall>r. resolveLWW C vs = Some r \<longrightarrow>
      (\<exists>c\<in>set vs. r = co_Clone C c \<and>
        (\<forall>d\<in>set vs. max_time (co_GetVectorClock C d) \<le> max_time (co_GetVectorClock C c))))"
  using resolveLWW_None [of C vs] resolveLWW_Some [of C vs]
  by (auto simp: max_time_pos not_less [symmetric])

theorem geo_lww_resolution_witness:
  "resolveLWW demo_ops [([], 7), ([(''b'', 0)], 8)] = None \<and>
   resolveLWW demo_ops [([(''a'', 1)], 7), ([(''b'', 5)], 8)] = Some ([(''b'', 5)], 8)"
proof
  show "resolveLWW demo_ops [([], 7), ([(''b'', 0)], 8)] = None"
    using geo_lww_resolution [of demo_ops "[([], 7), ([(''b'', 0)], 8)]"] by (simp add: demo_ops_def)
  show "resolveLWW demo_ops [([(''a'', 1)], 7), ([(''b'', 5)], 8)] = Some ([(''b'', 5)], 8)"
    by code_simp
qed

end
