(* ===== verification/Go_XFloat.thy ===== *)
theory Go_XFloat
  imports Go_Float
begin

text \<open>
  Floating-point numbers with infinities and \<open>NaN\<close>, for values that are read from text: the arithmetic and the comparison \<open>xge\<close> that the
  scheduler and the ledger use. \<open>xfl\<close> rounds and overflows to an infinity.
\<close>

datatype xfloat = Fin float64 | PInf | NInf | NaN

definition xfl :: "rat \<Rightarrow> xfloat" where
  "xfl r = (let y = fl r in if y \<ge> 2 ^ 1024 then PInf else if y \<le> - (2 ^ 1024) then NInf else Fin y)"

fun xneg :: "xfloat \<Rightarrow> xfloat" where
  "xneg (Fin a) = Fin (- a)"
| "xneg PInf = NInf"
| "xneg NInf = PInf"
| "xneg NaN = NaN"

fun xadd :: "xfloat \<Rightarrow> xfloat \<Rightarrow> xfloat" where
  "xadd NaN _ = NaN"
| "xadd _ NaN = NaN"
| "xadd (Fin a) (Fin b) = xfl (a + b)"
| "xadd PInf NInf = NaN"
| "xadd NInf PInf = NaN"
| "xadd PInf _ = PInf"
| "xadd NInf _ = NInf"
| "xadd _ x = x"

definition xsub :: "xfloat \<Rightarrow> xfloat \<Rightarrow> xfloat" where
  "xsub a b = xadd a (xneg b)"

fun xge :: "xfloat \<Rightarrow> xfloat \<Rightarrow> bool" where
  "xge NaN _ = False"
| "xge _ NaN = False"
| "xge PInf _ = True"
| "xge _ NInf = True"
| "xge (Fin a) (Fin b) = (a \<ge> b)"
| "xge _ _ = False"

definition xint :: "int \<Rightarrow> xfloat" where
  "xint i = Fin (fl (of_int i))"

end
