(* ===== verification/Scheduler.thy ===== *)
theory Scheduler
  imports Go_XFloat Go_Env Step_Systems "HOL-Library.Multiset" "HOL-Library.Product_Lexorder"
begin

text \<open>
  The multi-tenant job scheduler, \<open>multi-tenant-scheduler/services/scheduler/main.go\<close>: submission of jobs with
  the tenant's quota, the scheduling cycle with its two orders of the queue, placement on worker nodes and
  preemption. The map of jobs and the queue share the jobs they point to: \<open>sc_heap\<close> holds the submitted
  jobs, and the map and the queue hold their positions in it. A worker node is only reached through the map of
  nodes, by its ID. \<open>ParseFloat\<close>, what \<open>strconv.ParseFloat\<close> makes of a string (\<open>None\<close> is an error), is an
  argument; its values include the infinities and \<open>NaN\<close>. etcd is the list of the values that were put.
  Of the metrics the three that count jobs are kept, the gauges of utilisation, the latency histogram and the
  log are left out. \<open>sort.Slice\<close> does not fix the order of equal elements; here they stay in queue order.

  The lemmas show that no node is ever loaded beyond its capacity, that a scheduling cycle leaves no job in the queue
  that would fit on a node, and that jobs never run, so that quotas, fair shares and preemption have no effect.
\<close>

section \<open>Data\<close>

record ResourceRequest =
  rq_CPU :: string
  rq_Memory :: string
  rq_GPU :: string
  rq_Storage :: string

record JobRetryPolicy =
  jr_MaxRetries :: int
  jr_BackoffPolicy :: string
  jr_RetryCount :: int

record Job =
  jb_ID :: string
  jb_Name :: string
  jb_TenantID :: string
  jb_Image :: string
  jb_Command :: "string list"
  jb_Resources :: ResourceRequest
  jb_Priority :: int
  jb_Status :: string
  jb_CreatedAt :: gotime
  jb_StartedAt :: "gotime option"
  jb_CompletedAt :: "gotime option"
  jb_NodeID :: string
  jb_RetryPolicy :: JobRetryPolicy
  jb_Labels :: "(string, string) gomap"
  jb_Annotations :: "(string, string) gomap"
  jb_Deadline :: "gotime option"

record ResourceQuota =
  qu_CPU :: string
  qu_Memory :: string
  qu_GPU :: string
  qu_Storage :: string
  qu_Jobs :: int

record Tenant =
  tn_ID :: string
  tn_Name :: string
  tn_ResourceQuota :: ResourceQuota
  tn_PriorityClass :: string
  tn_Policies :: jobject
  tn_CreatedAt :: gotime

record NodeResources =
  nr_CPU :: xfloat
  nr_Memory :: int
  nr_GPU :: int
  nr_Storage :: int

record WorkerNode =
  wn_ID :: string
  wn_Address :: string
  wn_Status :: string
  wn_Resources :: NodeResources
  wn_UsedResources :: NodeResources
  wn_Labels :: "(string, string) gomap"
  wn_LastHeartbeat :: gotime

datatype EtcdValue = EtcdJob Job | EtcdNode WorkerNode

record SchedulerController =
  sc_heap :: "Job list"
  sc_jobs :: "(string, nat) gomap"
  sc_tenants :: "(string, Tenant) gomap"
  sc_nodes :: "(string, WorkerNode) gomap"
  sc_jobQueue :: "nat list"
  sc_fairShareEnabled :: bool
  sc_preemptionEnabled :: bool
  sc_gangSchedulingEnabled :: bool
  sc_JobsTotal :: int
  sc_JobsScheduled :: int
  sc_QueueDepth :: int
  sc_etcd :: "(string \<times> EtcdValue) list"

abbreviation job :: "SchedulerController \<Rightarrow> nat \<Rightarrow> Job" where
  "job s a \<equiv> sc_heap s ! a"

definition NewSchedulerController :: "environ \<Rightarrow> SchedulerController" where
  "NewSchedulerController env =
     \<lparr>sc_heap = [], sc_jobs = [], sc_tenants = [], sc_nodes = [], sc_jobQueue = [],
      sc_fairShareEnabled = (env ''FAIR_SHARE_ENABLED'' = ''true''),
      sc_preemptionEnabled = (env ''PREEMPTION_ENABLED'' = ''true''),
      sc_gangSchedulingEnabled = (env ''GANG_SCHEDULING_ENABLED'' = ''true''),
      sc_JobsTotal = 0, sc_JobsScheduled = 0, sc_QueueDepth = 0, sc_etcd = []\<rparr>"

definition sample_tenants :: "gotime \<Rightarrow> Tenant list" where
  "sample_tenants now =
     [\<lparr>tn_ID = ''tenant-a'', tn_Name = ''Tenant A'',
       tn_ResourceQuota = \<lparr>qu_CPU = ''50'', qu_Memory = ''100Gi'', qu_GPU = ''5'', qu_Storage = ''500Gi'', qu_Jobs = 100\<rparr>,
       tn_PriorityClass = ''high'', tn_Policies = [], tn_CreatedAt = now\<rparr>,
      \<lparr>tn_ID = ''tenant-b'', tn_Name = ''Tenant B'',
       tn_ResourceQuota = \<lparr>qu_CPU = ''30'', qu_Memory = ''60Gi'', qu_GPU = ''2'', qu_Storage = ''300Gi'', qu_Jobs = 50\<rparr>,
       tn_PriorityClass = ''medium'', tn_Policies = [], tn_CreatedAt = now\<rparr>]"

definition sample_node :: "gotime \<Rightarrow> string \<Rightarrow> string \<Rightarrow> string \<Rightarrow> WorkerNode" where
  "sample_node now i address zone =
     \<lparr>wn_ID = i, wn_Address = address, wn_Status = ''ready'',
      wn_Resources = \<lparr>nr_CPU = Fin 8, nr_Memory = 16 * 1024 * 1024 * 1024, nr_GPU = 2, nr_Storage = 100 * 1024 * 1024 * 1024\<rparr>,
      wn_UsedResources = \<lparr>nr_CPU = Fin 0, nr_Memory = 0, nr_GPU = 0, nr_Storage = 0\<rparr>,
      wn_Labels = [(''zone'', zone)], wn_LastHeartbeat = now\<rparr>"

definition sample_nodes :: "gotime \<Rightarrow> WorkerNode list" where
  "sample_nodes now =
     [sample_node now ''worker-1'' ''worker-node-1:8080'' ''us-west-1a'',
      sample_node now ''worker-2'' ''worker-node-2:8080'' ''us-west-1b'',
      sample_node now ''worker-3'' ''worker-node-3:8080'' ''us-west-1c'']"

definition initializeSampleData :: "gotime \<Rightarrow> SchedulerController \<Rightarrow> SchedulerController" where
  "initializeSampleData now s =
     s\<lparr>sc_tenants := fold (\<lambda>t. go_set (tn_ID t) t) (sample_tenants now) (sc_tenants s),
       sc_nodes := fold (\<lambda>n. go_set (wn_ID n) n) (sample_nodes now) (sc_nodes s)\<rparr>"

section \<open>Requests and tenants\<close>

definition parseCPU :: "(string \<Rightarrow> xfloat option) \<Rightarrow> string \<Rightarrow> xfloat" where
  "parseCPU ParseFloat cpu =
     (if cpu = '''' then Fin (fl (1 / 10))
      else case ParseFloat cpu of Some v \<Rightarrow> v | None \<Rightarrow> Fin (fl (1 / 10)))"

definition parseMemory :: "string \<Rightarrow> int" where
  "parseMemory memory =
     (if memory = '''' then 128 * 1024 * 1024
      else case strconv_Atoi memory of Some v \<Rightarrow> v | None \<Rightarrow> 128 * 1024 * 1024)"

definition parseGPU :: "string \<Rightarrow> int" where
  "parseGPU gpu =
     (if gpu = '''' then 0 else case strconv_Atoi gpu of Some v \<Rightarrow> v | None \<Rightarrow> 0)"

definition getTenantPriority :: "string \<Rightarrow> int" where
  "getTenantPriority priorityClass =
     (if priorityClass = ''high'' then 100 else if priorityClass = ''medium'' then 50
      else if priorityClass = ''low'' then 10 else 25)"

definition getTenantWeight :: "string \<Rightarrow> int" where
  "getTenantWeight priorityClass =
     (if priorityClass = ''high'' then 4 else if priorityClass = ''medium'' then 2
      else if priorityClass = ''low'' then 1 else 1)"

definition checkResourceQuota :: "Tenant \<Rightarrow> SchedulerController \<Rightarrow> bool" where
  "checkResourceQuota tenant s =
     (int (length (filter (\<lambda>(_, a). jb_TenantID (job s a) = tn_ID tenant \<and> jb_Status (job s a) = ''running'')
                    (sc_jobs s)))
      < qu_Jobs (tn_ResourceQuota tenant))"

section \<open>Endpoints\<close>

text \<open>The body of a submission is what \<open>ShouldBindJSON\<close> makes of the request: its error or the job.\<close>

datatype SchedulerBody = SError string | SJob Job | SJobs "Job list" | SHealth int int

definition SubmitJob ::
  "goerror + Job \<Rightarrow> string \<Rightarrow> string \<Rightarrow> gotime \<Rightarrow> SchedulerController \<Rightarrow> (nat \<times> SchedulerBody) \<times> SchedulerController" where
  "SubmitJob body tenantID uuid now s =
     (case body of
        Inl err \<Rightarrow> ((400, SError err), s)
      | Inr job0 \<Rightarrow>
          if tenantID = '''' then ((400, SError ''X-Tenant-ID header required''), s)
          else case map_of (sc_tenants s) tenantID of
            None \<Rightarrow> ((403, SError ''Tenant not found''), s)
          | Some tenant \<Rightarrow>
              if \<not> checkResourceQuota tenant s then ((403, SError ''Resource quota exceeded''), s)
              else
                let job1 = job0\<lparr>jb_ID := uuid, jb_TenantID := tenantID, jb_Status := ''pending'', jb_CreatedAt := now,
                               jb_RetryPolicy := (jb_RetryPolicy job0)\<lparr>jr_RetryCount := 0\<rparr>\<rparr>;
                    job2 = (if jb_Priority job1 = 0
                            then job1\<lparr>jb_Priority := getTenantPriority (tn_PriorityClass tenant)\<rparr> else job1);
                    a = length (sc_heap s);
                    queue = sc_jobQueue s @ [a]
                in ((201, SJob job2),
                    s\<lparr>sc_heap := sc_heap s @ [job2], sc_jobs := go_set uuid a (sc_jobs s), sc_jobQueue := queue,
                      sc_JobsTotal := sc_JobsTotal s + 1, sc_QueueDepth := int (length queue),
                      sc_etcd := sc_etcd s @ [(''/scheduler/jobs/'' @ uuid, EtcdJob job2)]\<rparr>))"

definition GetJob :: "string \<Rightarrow> string \<Rightarrow> SchedulerController \<Rightarrow> nat \<times> SchedulerBody" where
  "GetJob jobID tenantID s =
     (case map_of (sc_jobs s) jobID of
        None \<Rightarrow> (404, SError ''Job not found'')
      | Some a \<Rightarrow>
          if jb_TenantID (job s a) \<noteq> tenantID then (403, SError ''Access denied'')
          else (200, SJob (job s a)))"

definition ListJobs :: "string \<Rightarrow> SchedulerController \<Rightarrow> nat \<times> SchedulerBody" where
  "ListJobs tenantID s =
     (if tenantID = '''' then (400, SError ''X-Tenant-ID header required'')
      else (200, SJobs (filter (\<lambda>j. jb_TenantID j = tenantID) (map (\<lambda>(_, a). job s a) (sc_jobs s)))))"

definition HealthCheck :: "SchedulerController \<Rightarrow> nat \<times> SchedulerBody" where
  "HealthCheck s = (200, SHealth (int (length (sc_jobQueue s))) (int (length (sc_nodes s))))"

section \<open>The order of the queue\<close>

definition sortByPriority :: "SchedulerController \<Rightarrow> SchedulerController" where
  "sortByPriority s =
     s\<lparr>sc_jobQueue := sort_key (\<lambda>a. (- jb_Priority (job s a), jb_CreatedAt (job s a))) (sc_jobQueue s)\<rparr>"

definition calculateFairShares :: "SchedulerController \<Rightarrow> (string, float64) gomap" where
  "calculateFairShares s =
     (let tenantUsage =
            fold (\<lambda>(_, a) m. if jb_Status (job s a) = ''running''
                             then go_set (jb_TenantID (job s a)) (go_get 0 m (jb_TenantID (job s a)) + 1) m else m)
              (sc_jobs s) ([] :: (string, int) gomap)
      in fold (\<lambda>(tenantID, tenant) m.
                 let weight = getTenantWeight (tn_PriorityClass tenant); usage = go_get 0 tenantUsage tenantID in
                 if weight > 0
                 then go_set tenantID (fl (fl (of_int usage) / fl (of_int weight))) m else m)
           (sc_tenants s) [])"

definition sortByFairShare :: "SchedulerController \<Rightarrow> SchedulerController" where
  "sortByFairShare s =
     (let tenantShares = calculateFairShares s in
      s\<lparr>sc_jobQueue :=
          sort_key (\<lambda>a. (go_get 0 tenantShares (jb_TenantID (job s a)), - jb_Priority (job s a), jb_CreatedAt (job s a)))
            (sc_jobQueue s)\<rparr>)"

definition sortJobQueue :: "SchedulerController \<Rightarrow> SchedulerController" where
  "sortJobQueue s = (if sc_fairShareEnabled s then sortByFairShare s else sortByPriority s)"

section \<open>Placement\<close>

definition nodeHasResources :: "(string \<Rightarrow> xfloat option) \<Rightarrow> WorkerNode \<Rightarrow> Job \<Rightarrow> bool" where
  "nodeHasResources ParseFloat node j =
     (let cpuReq = parseCPU ParseFloat (rq_CPU (jb_Resources j));
          memReq = parseMemory (rq_Memory (jb_Resources j));
          gpuReq = parseGPU (rq_GPU (jb_Resources j));
          availCPU = xsub (nr_CPU (wn_Resources node)) (nr_CPU (wn_UsedResources node));
          availMem = wrap64 (nr_Memory (wn_Resources node) - nr_Memory (wn_UsedResources node));
          availGPU = wrap64 (nr_GPU (wn_Resources node) - nr_GPU (wn_UsedResources node))
      in xge availCPU cpuReq \<and> availMem \<ge> memReq \<and> availGPU \<ge> gpuReq)"

definition findSuitableNode :: "(string \<Rightarrow> xfloat option) \<Rightarrow> Job \<Rightarrow> SchedulerController \<Rightarrow> string option" where
  "findSuitableNode ParseFloat j s =
     map_option fst (find (\<lambda>(_, node). wn_Status node = ''ready'' \<and> nodeHasResources ParseFloat node j) (sc_nodes s))"

definition use_resources :: "(string \<Rightarrow> xfloat option) \<Rightarrow> Job \<Rightarrow> WorkerNode \<Rightarrow> WorkerNode" where
  "use_resources ParseFloat j node =
     (let used = wn_UsedResources node in
      node\<lparr>wn_UsedResources :=
             used\<lparr>nr_CPU := xadd (nr_CPU used) (parseCPU ParseFloat (rq_CPU (jb_Resources j))),
                  nr_Memory := wrap64 (nr_Memory used + parseMemory (rq_Memory (jb_Resources j))),
                  nr_GPU := wrap64 (nr_GPU used + parseGPU (rq_GPU (jb_Resources j)))\<rparr>\<rparr>)"

text \<open>\<open>nid\<close> is the key of the node in the map of nodes; every caller passes a key of the map.\<close>

definition scheduleJobOnNode ::
  "(string \<Rightarrow> xfloat option) \<Rightarrow> gotime \<Rightarrow> nat \<Rightarrow> string \<Rightarrow> SchedulerController \<Rightarrow> bool \<times> SchedulerController" where
  "scheduleJobOnNode ParseFloat now a nid s =
     (case map_of (sc_nodes s) nid of
        None \<Rightarrow> (True, s)
      | Some node \<Rightarrow>
          let j = (job s a)\<lparr>jb_Status := ''scheduled'', jb_NodeID := wn_ID node, jb_StartedAt := Some now\<rparr>;
              node' = use_resources ParseFloat j node
          in (True,
              s\<lparr>sc_heap := (sc_heap s)[a := j], sc_nodes := go_set nid node' (sc_nodes s),
                sc_etcd := sc_etcd s @ [(''/scheduler/jobs/'' @ jb_ID j, EtcdJob j),
                                        (''/scheduler/nodes/'' @ wn_ID node', EtcdNode node')]\<rparr>))"

section \<open>Preemption\<close>

definition findPreemptibleJobs :: "WorkerNode \<Rightarrow> Job \<Rightarrow> SchedulerController \<Rightarrow> nat list" where
  "findPreemptibleJobs node j s =
     filter (\<lambda>b. b < length (sc_heap s) \<and> jb_Status (job s b) = ''running'' \<and>
                 jb_NodeID (job s b) = wn_ID node \<and> jb_Priority (job s b) < jb_Priority j)
       (map snd (sc_jobs s))"

definition wouldPreemptionWork ::
  "(string \<Rightarrow> xfloat option) \<Rightarrow> WorkerNode \<Rightarrow> Job \<Rightarrow> Job list \<Rightarrow> bool" where
  "wouldPreemptionWork ParseFloat node j preemptibleJobs =
     (let freedCPU = fold (\<lambda>p f. xadd f (parseCPU ParseFloat (rq_CPU (jb_Resources p)))) preemptibleJobs (Fin 0);
          freedMem = fold (\<lambda>p f. wrap64 (f + parseMemory (rq_Memory (jb_Resources p)))) preemptibleJobs 0;
          freedGPU = fold (\<lambda>p f. xadd f (xint (parseGPU (rq_GPU (jb_Resources p))))) preemptibleJobs (Fin 0);
          reqCPU = parseCPU ParseFloat (rq_CPU (jb_Resources j));
          reqMem = parseMemory (rq_Memory (jb_Resources j));
          reqGPU = xint (parseGPU (rq_GPU (jb_Resources j)));
          availCPU = xadd (xsub (nr_CPU (wn_Resources node)) (nr_CPU (wn_UsedResources node))) freedCPU;
          availMem = wrap64 (nr_Memory (wn_Resources node) - nr_Memory (wn_UsedResources node) + freedMem);
          availGPU = xadd (xint (wrap64 (nr_GPU (wn_Resources node) - nr_GPU (wn_UsedResources node)))) freedGPU
      in xge availCPU reqCPU \<and> availMem \<ge> reqMem \<and> xge availGPU reqGPU)"

definition preempt_job :: "nat \<Rightarrow> SchedulerController \<Rightarrow> SchedulerController" where
  "preempt_job a s =
     s\<lparr>sc_heap := (sc_heap s)[a := (job s a)\<lparr>jb_Priority := wrap64 (jb_Priority (job s a) + 10), jb_Status := ''pending'',
                                           jb_StartedAt := None, jb_CompletedAt := None, jb_NodeID := ''''\<rparr>],
       sc_jobQueue := sc_jobQueue s @ [a]\<rparr>"

definition preemptJobs :: "nat list \<Rightarrow> SchedulerController \<Rightarrow> SchedulerController" where
  "preemptJobs as s = fold preempt_job as s"

fun try_nodes ::
  "(string \<Rightarrow> xfloat option) \<Rightarrow> Job \<Rightarrow> (string \<times> WorkerNode) list \<Rightarrow> SchedulerController \<Rightarrow>
   string option \<times> SchedulerController" where
  "try_nodes ParseFloat j [] s = (None, s)"
| "try_nodes ParseFloat j ((nid, node) # nodes) s =
     (if wn_Status node \<noteq> ''ready'' then try_nodes ParseFloat j nodes s
      else let preemptibleJobs = findPreemptibleJobs node j s in
           if length preemptibleJobs = 0 then try_nodes ParseFloat j nodes s
           else if wouldPreemptionWork ParseFloat node j (map (\<lambda>b. job s b) preemptibleJobs)
           then (Some nid, preemptJobs preemptibleJobs s)
           else try_nodes ParseFloat j nodes s)"

definition tryPreemption ::
  "(string \<Rightarrow> xfloat option) \<Rightarrow> Job \<Rightarrow> SchedulerController \<Rightarrow> string option \<times> SchedulerController" where
  "tryPreemption ParseFloat j s = try_nodes ParseFloat j (sc_nodes s) s"

section \<open>The scheduling cycle\<close>

lemma wf_preempt_job [simp]: "sc_jobs (preempt_job a s) = sc_jobs s" "length (sc_heap (preempt_job a s)) = length (sc_heap s)"
  by (simp_all add: preempt_job_def)

text \<open>The number of jobs that run; preemption decreases it, placing a pending job keeps it.\<close>

definition running :: "SchedulerController \<Rightarrow> nat" where
  "running s = length (filter (\<lambda>j. jb_Status j = ''running'') (sc_heap s))"

lemma length_filter_update:
  "a < length xs \<Longrightarrow> length (filter P (xs[a := x])) + (if P (xs ! a) then 1 else 0) = length (filter P xs) + (if P x then 1 else 0)"
proof (induction xs arbitrary: a)
  case (Cons y xs)
  then show ?case by (cases a) (force split: if_splits)+
qed simp

lemma length_filter_update_le: "\<not> P x \<Longrightarrow> length (filter P (xs[a := x])) \<le> length (filter P xs)"
  using length_filter_update [of a xs P x]
  by (cases "a < length xs") (auto simp: not_less list_update_beyond split: if_splits)

lemma running_preempt_job: "running (preempt_job a s) \<le> running s"
  by (simp add: running_def preempt_job_def length_filter_update_le)

lemma running_preempt_job_less:
  "a < length (sc_heap s) \<Longrightarrow> jb_Status (job s a) = ''running'' \<Longrightarrow> running (preempt_job a s) < running s"
  using length_filter_update [of a "sc_heap s" "\<lambda>j. jb_Status j = ''running''"
      "(job s a)\<lparr>jb_Priority := wrap64 (jb_Priority (job s a) + 10), jb_Status := ''pending'', jb_StartedAt := None,
                  jb_CompletedAt := None, jb_NodeID := ''''\<rparr>"]
  by (simp add: running_def preempt_job_def)

lemma preemptJobs_measure:
  "running (preemptJobs as s) \<le> running s \<and> sc_jobs (preemptJobs as s) = sc_jobs s \<and>
   length (sc_jobQueue (preemptJobs as s)) = length (sc_jobQueue s) + length as"
proof (induction as arbitrary: s)
  case (Cons a as)
  from Cons [of "preempt_job a s"] running_preempt_job [of a s] show ?case
    by (auto simp: preemptJobs_def preempt_job_def)
qed (simp add: preemptJobs_def)

lemma try_nodes_measure:
  assumes "try_nodes ParseFloat j nodes s = (r, s')"
  shows "r = None \<and> s' = s \<or>
    r \<noteq> None \<and> running s' < running s \<and> sc_jobs s' = sc_jobs s \<and>
      length (sc_jobQueue s') \<le> length (sc_jobQueue s) + length (sc_jobs s)"
  using assms
proof (induction ParseFloat j nodes s rule: try_nodes.induct)
  case (2 ParseFloat j nid node nodes s)
  let ?p = "findPreemptibleJobs node j s"
  show ?case
  proof (cases "wn_Status node = ''ready'' \<and> ?p \<noteq> [] \<and>
      wouldPreemptionWork ParseFloat node j (map (\<lambda>b. job s b) ?p)")
    case True
    then obtain a as where p: "?p = a # as" by (cases ?p) auto
    then have "a \<in> set ?p" by simp
    then have "running (preempt_job a s) < running s"
      by (intro running_preempt_job_less) (auto simp: findPreemptibleJobs_def)
    moreover have "length ?p \<le> length (sc_jobs s)"
      unfolding findPreemptibleJobs_def by (rule order_trans [OF length_filter_le]) simp
    ultimately show ?thesis
      using True 2(4) p preemptJobs_measure [of as "preempt_job a s"] preemptJobs_measure [of ?p s]
      by (auto simp: Let_def preemptJobs_def)
  next
    case False
    then show ?thesis using 2 by (auto simp: Let_def split: if_splits)
  qed
qed simp

lemma tryPreemption_measure:
  assumes "tryPreemption ParseFloat j s = (r, s')"
  shows "r = None \<and> s' = s \<or>
    r \<noteq> None \<and> running s' < running s \<and> sc_jobs s' = sc_jobs s \<and>
      length (sc_jobQueue s') \<le> length (sc_jobQueue s) + length (sc_jobs s)"
  using try_nodes_measure assms by (simp add: tryPreemption_def)

lemma scheduleJobOnNode_measure:
  assumes "scheduleJobOnNode ParseFloat now a nid s = (r, s')"
  shows "running s' \<le> running s \<and> sc_jobs s' = sc_jobs s \<and> sc_jobQueue s' = sc_jobQueue s \<and> r"
  using assms
  by (auto simp: scheduleJobOnNode_def Let_def running_def length_filter_update_le split: option.splits)

lemma cycle_measure_less:
  fixes i q q' L r r1 r2 :: nat
  assumes "i < q" "r2 \<le> r1" "r1 < r \<and> q' \<le> q + L \<or> r1 = r \<and> q' = q"
  shows "r2 * Suc L + (q' - Suc i) < r * Suc L + (q - i)"
proof (cases "r1 = r \<and> q' = q")
  case True
  then have "r2 * Suc L \<le> r * Suc L" using assms(2) by (intro mult_le_mono1) simp
  with True assms(1) show ?thesis by linarith
next
  case False
  with assms have "Suc r2 \<le> r" "q' \<le> q + L" by auto
  from mult_le_mono1 [OF this(1), of "Suc L"] this(2) assms(1) show ?thesis by simp
qed

definition choose_node ::
  "(string \<Rightarrow> xfloat option) \<Rightarrow> Job \<Rightarrow> SchedulerController \<Rightarrow> string option \<times> SchedulerController" where
  "choose_node ParseFloat j s =
     (case findSuitableNode ParseFloat j s of
        Some nid \<Rightarrow> (Some nid, s)
      | None \<Rightarrow> if sc_preemptionEnabled s then tryPreemption ParseFloat j s else (None, s))"

lemma choose_node_measure:
  assumes "choose_node ParseFloat j s = (r, s')"
  shows "s' = s \<or>
    r \<noteq> None \<and> running s' < running s \<and> sc_jobs s' = sc_jobs s \<and>
      length (sc_jobQueue s') \<le> length (sc_jobQueue s) + length (sc_jobs s)"
  using assms tryPreemption_measure [of ParseFloat j s r s']
  by (auto simp: choose_node_def split: option.splits if_splits)

text \<open>\<open>now a\<close> is the reading of the clock when the job \<open>a\<close> is placed.\<close>

function schedule_loop ::
  "(string \<Rightarrow> xfloat option) \<Rightarrow> (nat \<Rightarrow> gotime) \<Rightarrow> nat \<Rightarrow> SchedulerController \<Rightarrow> SchedulerController" where
  "schedule_loop ParseFloat now i s =
     (if i < length (sc_jobQueue s)
      then let a = sc_jobQueue s ! i in
           if jb_Status (job s a) \<noteq> ''pending'' then schedule_loop ParseFloat now (i + 1) s
           else case choose_node ParseFloat (job s a) s of
                  (None, s1) \<Rightarrow> schedule_loop ParseFloat now (i + 1) s1
                | (Some nid, s1) \<Rightarrow>
                    (case scheduleJobOnNode ParseFloat (now a) a nid s1 of
                       (False, s2) \<Rightarrow> schedule_loop ParseFloat now (i + 1) s2
                     | (True, s2) \<Rightarrow>
                         schedule_loop ParseFloat now i
                           (s2\<lparr>sc_JobsScheduled := sc_JobsScheduled s2 + 1,
                               sc_jobQueue := take i (sc_jobQueue s2) @ drop (i + 1) (sc_jobQueue s2)\<rparr>))
      else s)"
  by pat_completeness auto
termination
proof (relation "measure (\<lambda>(ParseFloat, now, i, s). running s * Suc (length (sc_jobs s)) + (length (sc_jobQueue s) - i))", goal_cases)
  case (3 ParseFloat now i s a r s1)
  then have "s1 = s" using choose_node_measure [of ParseFloat "job s a" s None s1] by auto
  with 3(1) show ?case by simp
next
  case (4 ParseFloat now i s a r s1 nid ok s2)
  have s2: "running s2 \<le> running s1" "sc_jobs s2 = sc_jobs s1" "sc_jobQueue s2 = sc_jobQueue s1"
    using scheduleJobOnNode_measure [OF 4(6) [symmetric]] by simp_all
  have "s1 = s \<or> running s1 < running s \<and> sc_jobs s1 = sc_jobs s \<and>
      length (sc_jobQueue s1) \<le> length (sc_jobQueue s) + length (sc_jobs s)"
    using choose_node_measure [OF 4(4) [symmetric]] by blast
  then have c: "running s1 < running s \<and> length (sc_jobQueue s1) \<le> length (sc_jobQueue s) + length (sc_jobs s) \<or>
      running s1 = running s \<and> length (sc_jobQueue s1) = length (sc_jobQueue s)" "sc_jobs s1 = sc_jobs s"
    by auto
  have "running (s2\<lparr>sc_JobsScheduled := x, sc_jobQueue := y\<rparr>) = running s2" for x y
    by (simp add: running_def)
  moreover have "length (take i xs @ drop (i + 1) xs) - i = length xs - Suc i" for xs :: "nat list"
    by auto
  ultimately show ?case
    using cycle_measure_less [OF 4(1) s2(1) c(1)] s2(2,3) c(2) by simp
next
  case (5 ParseFloat now i s a r s1 nid ok s2)
  then show ?case using scheduleJobOnNode_measure [OF 5(6) [symmetric]] by simp
qed simp_all

declare schedule_loop.simps [simp del]

definition runSchedulingCycle ::
  "(string \<Rightarrow> xfloat option) \<Rightarrow> (nat \<Rightarrow> gotime) \<Rightarrow> SchedulerController \<Rightarrow> SchedulerController" where
  "runSchedulingCycle ParseFloat now s =
     (if length (sc_jobQueue s) = 0 then s
      else let s' = schedule_loop ParseFloat now 0 (sortJobQueue s)
           in s'\<lparr>sc_QueueDepth := int (length (sc_jobQueue s'))\<rparr>)"

section \<open>Requests and capacities\<close>

abbreviation cpu_req :: "(string \<Rightarrow> xfloat option) \<Rightarrow> Job \<Rightarrow> xfloat" where
  "cpu_req ParseFloat j \<equiv> parseCPU ParseFloat (rq_CPU (jb_Resources j))"

abbreviation mem_req :: "Job \<Rightarrow> int" where
  "mem_req j \<equiv> parseMemory (rq_Memory (jb_Resources j))"

abbreviation gpu_req :: "Job \<Rightarrow> int" where
  "gpu_req j \<equiv> parseGPU (rq_GPU (jb_Resources j))"

text \<open>A request for finite and non-negative amounts.\<close>

definition modest :: "(string \<Rightarrow> xfloat option) \<Rightarrow> Job \<Rightarrow> bool" where
  "modest ParseFloat j \<longleftrightarrow>
     (\<exists>r. cpu_req ParseFloat j = Fin r \<and> 0 \<le> r) \<and> 0 \<le> mem_req j \<and> 0 \<le> gpu_req j"

text \<open>A node that is not loaded beyond its capacity, for the CPU up to the rounding of the last sum.\<close>

definition within_capacity :: "WorkerNode \<Rightarrow> bool" where
  "within_capacity n \<longleftrightarrow>
     (\<exists>c u. nr_CPU (wn_Resources n) = Fin c \<and> nr_CPU (wn_UsedResources n) = Fin u \<and> 0 \<le> u \<and> fl u = u \<and>
        0 \<le> c \<and> c \<le> 2 ^ 1000 \<and> u \<le> c * (1 + 1 / 2 ^ 51)) \<and>
     0 \<le> nr_Memory (wn_UsedResources n) \<and> nr_Memory (wn_UsedResources n) \<le> nr_Memory (wn_Resources n) \<and>
     nr_Memory (wn_Resources n) < 2 ^ 63 \<and>
     0 \<le> nr_GPU (wn_UsedResources n) \<and> nr_GPU (wn_UsedResources n) \<le> nr_GPU (wn_Resources n) \<and>
     nr_GPU (wn_Resources n) < 2 ^ 63"

lemma xfl_Fin: "\<bar>x\<bar> \<le> 2 ^ 1002 \<Longrightarrow> xfl x = Fin (fl x)"
proof -
  assume "\<bar>x\<bar> \<le> 2 ^ 1002"
  then have "\<bar>x\<bar> + \<bar>x\<bar> / 2 ^ 53 \<le> 2 ^ 1002 + 2 ^ 1002 / 2 ^ 53"
    by (intro add_mono divide_right_mono) simp_all
  moreover have "\<bar>fl x\<bar> \<le> \<bar>x\<bar> + \<bar>x\<bar> / 2 ^ 53" using fl_error [of x] by linarith
  ultimately have "\<bar>fl x\<bar> \<le> 2 ^ 1002 + 2 ^ 1002 / 2 ^ 53" by order
  also have "\<dots> < 2 ^ 1024" by simp
  finally show ?thesis by (simp add: xfl_def Let_def abs_less_iff)
qed

lemma within_capacity_sub:
  assumes "0 \<le> u" "0 \<le> c" "c \<le> 2 ^ 1000" "u \<le> c * (1 + 1 / 2 ^ 51)"
  shows "xsub (Fin c) (Fin u) = Fin (fl (c - u))"
proof -
  have "c * (1 + 1 / 2 ^ 51) \<le> 2 ^ 1000 * (1 + 1 / 2 ^ 51)" using assms by (intro mult_right_mono) simp_all
  then have "\<bar>c - u\<bar> \<le> 2 ^ 1002" using assms by (simp add: abs_le_iff)
  then show ?thesis by (simp add: xsub_def xfl_Fin)
qed

text \<open>What a placement adds to the load of the CPU.\<close>

lemma cpu_placement:
  assumes "0 \<le> u" "0 \<le> c" "c \<le> 2 ^ 1000" "0 \<le> r" "r \<le> fl (c - u)"
  shows "xadd (Fin u) (Fin r) = Fin (fl (u + r))" "fl (u + r) \<le> c * (1 + 1 / 2 ^ 51)" "u + r \<le> 2 ^ 1001"
proof -
  have "0 \<le> c - u" using fl_neg [of "c - u"] assms by linarith
  then have "r \<le> (c - u) * (1 + 1 / 2 ^ 53)" using assms(5) fl_upper by (meson order_trans)
  also have "\<dots> = c - u + (c - u) / 2 ^ 53" by (simp only: distrib_left mult_1_right times_divide_eq_right)
  also have "\<dots> \<le> c - u + c / 2 ^ 53" using assms(1) by (intro add_left_mono divide_right_mono) simp_all
  finally have sum: "u + r \<le> c * (1 + 1 / 2 ^ 53)"
    by (simp only: distrib_left mult_1_right times_divide_eq_right)
  have "c * (1 + 1 / 2 ^ 53) \<le> 2 ^ 1000 * (1 + 1 / 2 ^ 53)" using assms by (intro mult_right_mono) simp_all
  with sum show small: "u + r \<le> 2 ^ 1001" by (rule order_trans [OF order_trans]) simp
  with assms(1,4) have "\<bar>u + r\<bar> \<le> 2 ^ 1002" by (simp add: abs_le_iff)
  then show "xadd (Fin u) (Fin r) = Fin (fl (u + r))" by (simp add: xfl_Fin)
  have "fl (u + r) \<le> (u + r) * (1 + 1 / 2 ^ 53)" using assms by (intro fl_upper) simp
  also have "\<dots> \<le> c * (1 + 1 / 2 ^ 53) * (1 + 1 / 2 ^ 53)" using sum by (intro mult_right_mono) simp_all
  also have "\<dots> = c * ((1 + 1 / 2 ^ 53) * (1 + 1 / 2 ^ 53))" by (simp only: mult.assoc)
  also have "\<dots> \<le> c * (1 + 1 / 2 ^ 51)" using assms(2) by (intro mult_left_mono) simp_all
  finally show "fl (u + r) \<le> c * (1 + 1 / 2 ^ 51)" .
qed

lemma fits_iff:
  assumes "within_capacity n" "nr_CPU (wn_Resources n) = Fin c" "nr_CPU (wn_UsedResources n) = Fin u"
  shows "nodeHasResources ParseFloat n j \<longleftrightarrow>
    xge (Fin (fl (c - u))) (cpu_req ParseFloat j) \<and>
    nr_Memory (wn_UsedResources n) + mem_req j \<le> nr_Memory (wn_Resources n) \<and>
    nr_GPU (wn_UsedResources n) + gpu_req j \<le> nr_GPU (wn_Resources n)"
proof -
  let ?R = "wn_Resources n" and ?U = "wn_UsedResources n"
  have "int64_range (nr_Memory ?R - nr_Memory ?U)" "int64_range (nr_GPU ?R - nr_GPU ?U)"
    using assms(1) unfolding within_capacity_def by linarith+
  then have w: "wrap64 (nr_Memory ?R - nr_Memory ?U) = nr_Memory ?R - nr_Memory ?U"
    "wrap64 (nr_GPU ?R - nr_GPU ?U) = nr_GPU ?R - nr_GPU ?U"
    by (simp_all only: wrap64_id)
  have "xsub (nr_CPU ?R) (nr_CPU ?U) = Fin (fl (c - u))"
    using assms by (auto simp: within_capacity_def intro: within_capacity_sub)
  then show ?thesis by (auto simp: nodeHasResources_def Let_def w)
qed

text \<open>A placement keeps a node within its capacity and adds exactly the requested memory and GPUs.\<close>

lemma use_resources_ok:
  assumes n: "within_capacity n" and j: "modest ParseFloat j" and fit: "nodeHasResources ParseFloat n j"
  shows "within_capacity (use_resources ParseFloat j n)"
    "nr_Memory (wn_UsedResources (use_resources ParseFloat j n)) = nr_Memory (wn_UsedResources n) + mem_req j"
    "nr_GPU (wn_UsedResources (use_resources ParseFloat j n)) = nr_GPU (wn_UsedResources n) + gpu_req j"
proof -
  obtain c u where cu: "nr_CPU (wn_Resources n) = Fin c" "nr_CPU (wn_UsedResources n) = Fin u" "0 \<le> u" "0 \<le> c" "c \<le> 2 ^ 1000"
    using n by (auto simp: within_capacity_def)
  obtain r where r: "cpu_req ParseFloat j = Fin r" "0 \<le> r" and req: "0 \<le> mem_req j" "0 \<le> gpu_req j"
    using j by (auto simp: modest_def)
  note f = fit [unfolded fits_iff [OF n cu(1,2)] r(1)]
  note cpu = cpu_placement [OF cu(3-5) r(2)]
  have "int64_range (nr_Memory (wn_UsedResources n) + mem_req j)" "int64_range (nr_GPU (wn_UsedResources n) + gpu_req j)"
    using n f req unfolding within_capacity_def by auto
  then show mem: "nr_Memory (wn_UsedResources (use_resources ParseFloat j n)) = nr_Memory (wn_UsedResources n) + mem_req j"
    and gpu: "nr_GPU (wn_UsedResources (use_resources ParseFloat j n)) = nr_GPU (wn_UsedResources n) + gpu_req j"
    by (simp_all add: use_resources_def Let_def)
  have "0 \<le> fl (u + r)" "fl (fl (u + r)) = fl (u + r)"
    using cu(3) r(2) by (simp_all add: fl_nonneg fl_idem)
  moreover have "nr_CPU (wn_UsedResources (use_resources ParseFloat j n)) = Fin (fl (u + r))"
    using cpu(1) f by (simp add: use_resources_def Let_def cu r)
  moreover have "wn_Resources (use_resources ParseFloat j n) = wn_Resources n"
    by (simp add: use_resources_def Let_def)
  ultimately show "within_capacity (use_resources ParseFloat j n)"
    using n f req cpu(2) cu unfolding within_capacity_def mem gpu by auto
qed

text \<open>A request that does not fit on a node does not fit after a placement either.\<close>

lemma unfit_stays:
  assumes n: "within_capacity n" and j: "modest ParseFloat j" and k: "modest ParseFloat k"
    and fit: "nodeHasResources ParseFloat n j" and unfit: "\<not> nodeHasResources ParseFloat n k"
  shows "\<not> nodeHasResources ParseFloat (use_resources ParseFloat j n) k"
proof -
  let ?n = "use_resources ParseFloat j n"
  obtain c u where cu: "nr_CPU (wn_Resources n) = Fin c" "nr_CPU (wn_UsedResources n) = Fin u" "0 \<le> u" "fl u = u" "0 \<le> c" "c \<le> 2 ^ 1000"
    using n by (auto simp: within_capacity_def)
  obtain r where r: "cpu_req ParseFloat j = Fin r" "0 \<le> r" and req: "0 \<le> mem_req j" "0 \<le> gpu_req j"
    using j by (auto simp: modest_def)
  obtain q where q: "cpu_req ParseFloat k = Fin q" "0 \<le> q" using k by (auto simp: modest_def)
  have R: "wn_Resources ?n = wn_Resources n" by (simp add: use_resources_def Let_def)
  have U: "nr_CPU (wn_UsedResources ?n) = Fin (fl (u + r))"
    using cpu_placement(1) [OF cu(3,5,6) r(2)] fit [unfolded fits_iff [OF n cu(1,2)] r(1)]
    by (simp add: use_resources_def Let_def cu r)
  have "u \<le> fl (u + r)" using fl_mono [of u "u + r"] cu(3,4) r(2) by simp
  then have "q \<le> fl (c - u)" if "q \<le> fl (c - fl (u + r))"
    using that q(2) fl_neg [of "c - fl (u + r)"] fl_mono [of "c - fl (u + r)" "c - u"] by fastforce
  then show ?thesis
    using unfit req use_resources_ok [OF n j fit] R
    unfolding fits_iff [OF n cu(1,2)] fits_iff [OF use_resources_ok(1) [OF n j fit] cu(1) [folded R] U] q(1)
    by auto
qed

section \<open>The invariant of the scheduler\<close>

definition placed :: "string \<Rightarrow> SchedulerController \<Rightarrow> Job list" where
  "placed nid s = filter (\<lambda>j. jb_Status j = ''scheduled'' \<and> jb_NodeID j = nid) (sc_heap s)"

definition node_inv :: "string \<Rightarrow> WorkerNode \<Rightarrow> SchedulerController \<Rightarrow> bool" where
  "node_inv nid n s \<longleftrightarrow>
     within_capacity n \<and> wn_ID n = nid \<and>
     nr_Memory (wn_UsedResources n) = sum_list (map mem_req (placed nid s)) \<and>
     nr_GPU (wn_UsedResources n) = sum_list (map gpu_req (placed nid s))"

definition job_inv :: "(string \<Rightarrow> xfloat option) \<Rightarrow> SchedulerController \<Rightarrow> Job \<Rightarrow> bool" where
  "job_inv ParseFloat s j \<longleftrightarrow>
     modest ParseFloat j \<and>
     (jb_Status j = ''pending'' \<or> jb_Status j = ''scheduled'' \<and> jb_NodeID j \<in> dom (map_of (sc_nodes s)))"

definition sched_inv :: "(string \<Rightarrow> xfloat option) \<Rightarrow> SchedulerController \<Rightarrow> bool" where
  "sched_inv ParseFloat s \<longleftrightarrow>
     distinct (sc_jobQueue s) \<and>
     set (sc_jobQueue s) = {a. a < length (sc_heap s) \<and> jb_Status (job s a) = ''pending''} \<and>
     (\<forall>a < length (sc_heap s). job_inv ParseFloat s (job s a)) \<and>
     (\<forall>a \<in> set (map snd (sc_jobs s)). a < length (sc_heap s)) \<and>
     go_wf (sc_nodes s) \<and> (\<forall>nid n. map_of (sc_nodes s) nid = Some n \<longrightarrow> node_inv nid n s)"

lemma sched_invD:
  assumes "sched_inv ParseFloat s"
  shows "distinct (sc_jobQueue s)" "a \<in> set (sc_jobQueue s) \<Longrightarrow> a < length (sc_heap s) \<and> jb_Status (job s a) = ''pending''"
    "a < length (sc_heap s) \<Longrightarrow> modest ParseFloat (job s a)" "a < length (sc_heap s) \<Longrightarrow> jb_Status (job s a) \<noteq> ''running''"
    "(k, a) \<in> set (sc_jobs s) \<Longrightarrow> a < length (sc_heap s)"
    "go_wf (sc_nodes s)" "map_of (sc_nodes s) nid = Some n \<Longrightarrow> node_inv nid n s"
  using assms unfolding sched_inv_def job_inv_def by force+

lemma suitable_Some:
  assumes "go_wf (sc_nodes s)" "findSuitableNode ParseFloat j s = Some nid"
  shows "\<exists>n. map_of (sc_nodes s) nid = Some n \<and> wn_Status n = ''ready'' \<and> nodeHasResources ParseFloat n j"
  using assms find_SomeD [of _ "sc_nodes s"]
  by (fastforce simp: findSuitableNode_def go_wf_def intro: map_of_is_SomeI)

lemma suitable_None:
  assumes "findSuitableNode ParseFloat j s = None" "map_of (sc_nodes s) nid = Some n" "wn_Status n = ''ready''"
  shows "\<not> nodeHasResources ParseFloat n j"
  using assms map_of_SomeD [OF assms(2)] by (auto simp: findSuitableNode_def find_None_iff)

text \<open>Nothing runs, so nothing can be preempted.\<close>

lemma no_preemption:
  assumes "sched_inv ParseFloat s"
  shows "tryPreemption ParseFloat j s = (None, s)" "choose_node ParseFloat j s = (findSuitableNode ParseFloat j s, s)"
proof -
  have "findPreemptibleJobs node k s = []" for node k
    using sched_invD(4,5) [OF assms] by (auto simp: findPreemptibleJobs_def filter_empty_conv)
  then have "try_nodes ParseFloat j nodes s = (None, s)" for nodes
    by (induction nodes) (auto simp: Let_def)
  then show "tryPreemption ParseFloat j s = (None, s)" by (simp add: tryPreemption_def)
  then show "choose_node ParseFloat j s = (findSuitableNode ParseFloat j s, s)"
    by (simp add: choose_node_def split: option.split)
qed

text \<open>The state after the job at position \<open>i\<close> of the queue is placed on the node \<open>nid\<close>.\<close>

definition place :: "(string \<Rightarrow> xfloat option) \<Rightarrow> gotime \<Rightarrow> nat \<Rightarrow> string \<Rightarrow> SchedulerController \<Rightarrow> SchedulerController" where
  "place ParseFloat now i nid s =
     (let s2 = snd (scheduleJobOnNode ParseFloat now (sc_jobQueue s ! i) nid s) in
      s2\<lparr>sc_JobsScheduled := sc_JobsScheduled s2 + 1,
         sc_jobQueue := take i (sc_jobQueue s2) @ drop (i + 1) (sc_jobQueue s2)\<rparr>)"

lemma schedule_loop_unfold:
  assumes "sched_inv ParseFloat s"
  shows "schedule_loop ParseFloat now i s =
    (if i < length (sc_jobQueue s)
     then case findSuitableNode ParseFloat (job s (sc_jobQueue s ! i)) s of
            None \<Rightarrow> schedule_loop ParseFloat now (i + 1) s
          | Some nid \<Rightarrow> schedule_loop ParseFloat now i (place ParseFloat (now (sc_jobQueue s ! i)) i nid s)
     else s)"
proof (cases "i < length (sc_jobQueue s)")
  case True
  let ?a = "sc_jobQueue s ! i"
  have "jb_Status (job s ?a) = ''pending''" using sched_invD(2) [OF assms, of ?a] True by simp
  moreover have "fst (scheduleJobOnNode ParseFloat t ?a nid s)" for t nid
    using scheduleJobOnNode_measure [of ParseFloat t ?a nid s] by (metis prod.collapse)
  ultimately show ?thesis
    using True by (subst schedule_loop.simps)
      (simp add: Let_def no_preemption(2) [OF assms] place_def case_prod_beta split: option.split bool.split)
qed (simp add: schedule_loop.simps)

lemma place_fields:
  assumes "map_of (sc_nodes s) nid = Some n" "wn_ID n = nid" "a = sc_jobQueue s ! i"
  shows "sc_heap (place ParseFloat now i nid s) =
      (sc_heap s)[a := (job s a)\<lparr>jb_Status := ''scheduled'', jb_NodeID := nid, jb_StartedAt := Some now\<rparr>]"
    "sc_nodes (place ParseFloat now i nid s) = go_set nid (use_resources ParseFloat (job s a) n) (sc_nodes s)"
    "sc_jobQueue (place ParseFloat now i nid s) = take i (sc_jobQueue s) @ drop (i + 1) (sc_jobQueue s)"
    "sc_JobsScheduled (place ParseFloat now i nid s) = sc_JobsScheduled s + 1"
    "sc_jobs (place ParseFloat now i nid s) = sc_jobs s"
    "sc_tenants (place ParseFloat now i nid s) = sc_tenants s"
  using assms by (simp_all add: place_def scheduleJobOnNode_def use_resources_def Let_def)

lemma sum_placed_update:
  fixes f :: "'a \<Rightarrow> int"
  assumes "a < length xs" "\<not> P (xs ! a)"
  shows "sum_list (map f (filter P (xs[a := x]))) = sum_list (map f (filter P xs)) + (if P x then f x else 0)"
  using assms
proof (induction xs arbitrary: a)
  case (Cons y xs)
  then show ?case by (cases a) auto
qed simp

lemma remove_nth:
  assumes "distinct q" "i < length q"
  shows "distinct (take i q @ drop (i + 1) q)" "set (take i q @ drop (i + 1) q) = set q - {q ! i}"
    "filter (\<lambda>b. b \<noteq> q ! i) q = take i q @ drop (i + 1) q"
proof -
  have q: "q = take i q @ q ! i # drop (i + 1) q" using id_take_nth_drop [OF assms(2)] by simp
  then have d: "distinct (take i q @ q ! i # drop (i + 1) q)" using assms(1) by simp
  moreover from q have "set q = set (take i q @ q ! i # drop (i + 1) q)" by simp
  ultimately show "distinct (take i q @ drop (i + 1) q)" "set (take i q @ drop (i + 1) q) = set q - {q ! i}" by auto
  have "filter (\<lambda>b. b \<noteq> q ! i) q = filter (\<lambda>b. b \<noteq> q ! i) (take i q @ q ! i # drop (i + 1) q)"
    using q by (rule arg_cong)
  also have "\<dots> = take i q @ drop (i + 1) q"
  proof -
    have "filter (\<lambda>b. b \<noteq> q ! i) (take i q) = take i q" "filter (\<lambda>b. b \<noteq> q ! i) (drop (i + 1) q) = drop (i + 1) q"
      using d by (auto intro!: filter_True)
    then show ?thesis by simp
  qed
  finally show "filter (\<lambda>b. b \<noteq> q ! i) q = take i q @ drop (i + 1) q" .
qed

lemma use_resources_fields [simp]:
  "wn_ID (use_resources ParseFloat j n) = wn_ID n" "wn_Status (use_resources ParseFloat j n) = wn_Status n"
  by (simp_all add: use_resources_def Let_def)

lemma place_inv:
  assumes inv: "sched_inv ParseFloat s" and i: "i < length (sc_jobQueue s)" and a: "a = sc_jobQueue s ! i"
    and n: "map_of (sc_nodes s) nid = Some n" "nodeHasResources ParseFloat n (job s a)"
  shows "sched_inv ParseFloat (place ParseFloat now i nid s)"
proof -
  let ?s = "place ParseFloat now i nid s" and ?n = "use_resources ParseFloat (job s a) n"
  let ?j = "(job s a)\<lparr>jb_Status := ''scheduled'', jb_NodeID := nid, jb_StartedAt := Some now\<rparr>"
  have ninv: "node_inv nid n s" by (rule sched_invD(7) [OF inv n(1)])
  then have wid: "wn_ID n = nid" and cap: "within_capacity n" by (simp_all add: node_inv_def)
  have pend: "a < length (sc_heap s)" "jb_Status (job s a) = ''pending''" using sched_invD(2) [OF inv, of a] i a by simp_all
  have mod: "modest ParseFloat (job s a)" by (rule sched_invD(3) [OF inv pend(1)])
  have modj: "modest ParseFloat ?j" using mod by (simp add: modest_def)
  note P = place_fields [OF n(1) wid a, of ParseFloat now]
  note U = use_resources_ok [OF cap mod n(2)]
  have jobs: "job ?s b = (if b = a then ?j else job s b)" if "b < length (sc_heap s)" for b
    using that pend(1) by (simp add: P(1))
  have plc: "sum_list (map f (placed m ?s)) = sum_list (map f (placed m s)) + (if m = nid then f ?j else 0)"
    for m and f :: "Job \<Rightarrow> int"
    using sum_placed_update [of a "sc_heap s" "\<lambda>j. jb_Status j = ''scheduled'' \<and> jb_NodeID j = m" f ?j] pend
    by (simp add: placed_def P(1))
  have "node_inv m k ?s" if "map_of (sc_nodes ?s) m = Some k" for m k
  proof (cases "m = nid")
    case True
    then have "k = ?n" using that by (simp add: P(2) go_map_simps)
    then show ?thesis using True U ninv wid by (simp add: node_inv_def plc)
  next
    case False
    then have "map_of (sc_nodes s) m = Some k" using that by (simp add: P(2) go_map_simps)
    then show ?thesis using sched_invD(7) [OF inv] False by (simp add: node_inv_def plc)
  qed
  moreover have "job_inv ParseFloat ?s (job ?s b)" if "b < length (sc_heap s)" for b
    using that inv modj n(1) unfolding jobs [OF that] by (auto simp: sched_inv_def job_inv_def P(2) go_map_simps)
  moreover have "go_wf (sc_nodes ?s)" using sched_invD(6) [OF inv] by (simp add: P(2))
  moreover have "set (sc_jobQueue ?s) = {b. b < length (sc_heap s) \<and> jb_Status (job ?s b) = ''pending''}"
    using inv jobs remove_nth(2) [OF sched_invD(1) [OF inv] i] a unfolding P(3) by (auto simp: sched_inv_def split: if_splits)
  moreover have "distinct (sc_jobQueue ?s)"
    unfolding P(3) by (rule remove_nth(1) [OF sched_invD(1) [OF inv] i])
  ultimately show ?thesis using inv by (simp add: sched_inv_def P(1,5))
qed

section \<open>What a cycle does\<close>

text \<open>No ready node has room for the job.\<close>

definition unfit :: "(string \<Rightarrow> xfloat option) \<Rightarrow> SchedulerController \<Rightarrow> nat \<Rightarrow> bool" where
  "unfit ParseFloat s a \<longleftrightarrow>
     (\<forall>nid n. map_of (sc_nodes s) nid = Some n \<and> wn_Status n = ''ready'' \<longrightarrow> \<not> nodeHasResources ParseFloat n (job s a))"

definition placed_from :: "(nat \<Rightarrow> gotime) \<Rightarrow> SchedulerController \<Rightarrow> SchedulerController \<Rightarrow> nat \<Rightarrow> bool" where
  "placed_from now s s' a \<longleftrightarrow>
     (\<exists>nid. map_option wn_Status (map_of (sc_nodes s) nid) = Some ''ready'' \<and>
        job s' a = (job s a)\<lparr>jb_Status := ''scheduled'', jb_NodeID := nid, jb_StartedAt := Some (now a)\<rparr>)"

definition cycle_rel :: "(nat \<Rightarrow> gotime) \<Rightarrow> SchedulerController \<Rightarrow> SchedulerController \<Rightarrow> bool" where
  "cycle_rel now s s' \<longleftrightarrow>
     length (sc_heap s') = length (sc_heap s) \<and> sc_jobs s' = sc_jobs s \<and> sc_tenants s' = sc_tenants s \<and>
     (\<forall>nid. map_option wn_Status (map_of (sc_nodes s') nid) = map_option wn_Status (map_of (sc_nodes s) nid)) \<and>
     sc_jobQueue s' = filter (\<lambda>a. jb_Status (job s' a) = ''pending'') (sc_jobQueue s) \<and>
     sc_JobsScheduled s' + int (length (sc_jobQueue s')) = sc_JobsScheduled s + int (length (sc_jobQueue s)) \<and>
     (\<forall>a < length (sc_heap s).
        if a \<in> set (sc_jobQueue s) - set (sc_jobQueue s') then placed_from now s s' a else job s' a = job s a)"

lemma cycle_rel_refl:
  assumes "sched_inv ParseFloat s"
  shows "cycle_rel now s s"
proof -
  have "filter (\<lambda>a. jb_Status (job s a) = ''pending'') (sc_jobQueue s) = sc_jobQueue s"
    using sched_invD(2) [OF assms] by (simp add: filter_id_conv)
  then show ?thesis by (simp add: cycle_rel_def)
qed

lemma cycle_relD:
  assumes "cycle_rel now s s'"
  shows "length (sc_heap s') = length (sc_heap s)" "sc_jobs s' = sc_jobs s" "sc_tenants s' = sc_tenants s"
    "map_option wn_Status (map_of (sc_nodes s') nid) = map_option wn_Status (map_of (sc_nodes s) nid)"
    "sc_jobQueue s' = filter (\<lambda>a. jb_Status (job s' a) = ''pending'') (sc_jobQueue s)"
    "sc_JobsScheduled s' + int (length (sc_jobQueue s')) = sc_JobsScheduled s + int (length (sc_jobQueue s))"
    "a < length (sc_heap s) \<Longrightarrow>
      if a \<in> set (sc_jobQueue s) - set (sc_jobQueue s') then placed_from now s s' a else job s' a = job s a"
  using assms unfolding cycle_rel_def by blast+

lemma cycle_relI:
  assumes "length (sc_heap s') = length (sc_heap s)" "sc_jobs s' = sc_jobs s" "sc_tenants s' = sc_tenants s"
    "\<And>nid. map_option wn_Status (map_of (sc_nodes s') nid) = map_option wn_Status (map_of (sc_nodes s) nid)"
    "sc_jobQueue s' = filter (\<lambda>a. jb_Status (job s' a) = ''pending'') (sc_jobQueue s)"
    "sc_JobsScheduled s' + int (length (sc_jobQueue s')) = sc_JobsScheduled s + int (length (sc_jobQueue s))"
    "\<And>a. a < length (sc_heap s) \<Longrightarrow>
      if a \<in> set (sc_jobQueue s) - set (sc_jobQueue s') then placed_from now s s' a else job s' a = job s a"
  shows "cycle_rel now s s'"
  unfolding cycle_rel_def using assms by blast

lemma cycle_rel_trans:
  assumes inv: "sched_inv ParseFloat s" and A: "cycle_rel now s s'" and B: "cycle_rel now s' s''"
  shows "cycle_rel now s s''"
proof (rule cycle_relI)
  note q1 = cycle_relD(5) [OF A] and q2 = cycle_relD(5) [OF B] and len = cycle_relD(1) [OF A]
  have keep: "job s'' a = job s' a" if "a < length (sc_heap s)" "a \<notin> set (sc_jobQueue s')" for a
    using cycle_relD(7) [OF B, of a] that len by (metis Diff_iff)
  have "jb_Status (job s' a) = ''pending''" if "a \<in> set (sc_jobQueue s)" "jb_Status (job s'' a) = ''pending''" for a
  proof (rule ccontr)
    assume neg: "jb_Status (job s' a) \<noteq> ''pending''"
    then have "a \<notin> set (sc_jobQueue s')" by (subst q1) simp
    then have "job s'' a = job s' a" using keep sched_invD(2) [OF inv that(1)] by blast
    with that(2) neg show False by simp
  qed
  then have "filter (\<lambda>a. jb_Status (job s'' a) = ''pending'') (sc_jobQueue s') =
      filter (\<lambda>a. jb_Status (job s'' a) = ''pending'') (sc_jobQueue s)"
    by (subst q1) (auto simp: filter_filter intro!: filter_cong)
  then show "sc_jobQueue s'' = filter (\<lambda>a. jb_Status (job s'' a) = ''pending'') (sc_jobQueue s)"
    using q2 by simp
  have sub: "set (sc_jobQueue s'') \<subseteq> set (sc_jobQueue s')" "set (sc_jobQueue s') \<subseteq> set (sc_jobQueue s)"
    by (subst q2, simp) (subst q1, simp)
  show "if a \<in> set (sc_jobQueue s) - set (sc_jobQueue s'') then placed_from now s s'' a else job s'' a = job s a"
    if a: "a < length (sc_heap s)" for a
  proof (cases "a \<in> set (sc_jobQueue s')")
    case True
    then have "job s' a = job s a" using cycle_relD(7) [OF A a] by simp
    then show ?thesis
      using True sub cycle_relD(7) [OF B, of a] a len cycle_relD(4) [OF A]
      by (auto simp: placed_from_def split: if_splits)
  next
    case False
    then have "a \<notin> set (sc_jobQueue s'')" using sub by blast
    with False show ?thesis
      using cycle_relD(7) [OF A a] keep [OF a False] by (auto simp: placed_from_def split: if_splits)
  qed
qed (use cycle_relD(1-4,6) [OF A] cycle_relD(1-4,6) [OF B] in simp_all)

lemma place_rel:
  assumes inv: "sched_inv ParseFloat s" and i: "i < length (sc_jobQueue s)" and a: "a = sc_jobQueue s ! i"
    and n: "map_of (sc_nodes s) nid = Some n" "wn_Status n = ''ready''"
  shows "cycle_rel now s (place ParseFloat (now a) i nid s)"
proof -
  let ?s = "place ParseFloat (now a) i nid s" and ?q = "sc_jobQueue s"
  have wid: "wn_ID n = nid" using sched_invD(7) [OF inv n(1)] by (simp add: node_inv_def)
  note P = place_fields [OF n(1) wid a, of ParseFloat "now a"]
  have pend: "b < length (sc_heap s)" "jb_Status (job s b) = ''pending''" if "b \<in> set ?q" for b
    using sched_invD(2) [OF inv that] by simp_all
  have aq: "a \<in> set ?q" using i a by simp
  have jobs: "job ?s b = (if b = a then (job s a)\<lparr>jb_Status := ''scheduled'', jb_NodeID := nid, jb_StartedAt := Some (now a)\<rparr>
      else job s b)" if "b < length (sc_heap s)" for b
    using that by (simp add: P(1))
  have "jb_Status (job ?s b) = ''pending'' \<longleftrightarrow> b \<noteq> a" if "b \<in> set ?q" for b
    using jobs [OF pend(1) [OF that]] pend(2) [OF that] by simp
  then have "filter (\<lambda>b. jb_Status (job ?s b) = ''pending'') ?q = filter (\<lambda>b. b \<noteq> a) ?q"
    by (intro filter_cong) auto
  also have "\<dots> = take i ?q @ drop (i + 1) ?q" unfolding a by (rule remove_nth(3) [OF sched_invD(1) [OF inv] i])
  finally have queue: "sc_jobQueue ?s = filter (\<lambda>b. jb_Status (job ?s b) = ''pending'') ?q" by (simp add: P(3))
  have "set (sc_jobQueue ?s) = set ?q - {a}"
    unfolding P(3) using remove_nth(2) [OF sched_invD(1) [OF inv] i] a by simp
  then have changed: "if b \<in> set ?q - set (sc_jobQueue ?s) then placed_from now s ?s b else job ?s b = job s b"
    if "b < length (sc_heap s)" for b
    using jobs [OF that] n aq by (auto simp: placed_from_def)
  have status: "map_option wn_Status (map_of (sc_nodes ?s) m) = map_option wn_Status (map_of (sc_nodes s) m)" for m
    using n(1) by (simp add: P(2) go_map_simps)
  have "length (sc_jobQueue ?s) + 1 = length ?q" using i by (simp add: P(3))
  then have count: "sc_JobsScheduled ?s + int (length (sc_jobQueue ?s)) = sc_JobsScheduled s + int (length ?q)"
    by (simp add: P(4))
  show ?thesis
    by (rule cycle_relI [OF _ P(5,6) status queue count changed]) (simp_all add: P(1))
qed

lemma unfit_placed:
  assumes inv: "sched_inv ParseFloat s" and i: "i < length (sc_jobQueue s)" and a: "a = sc_jobQueue s ! i"
    and n: "map_of (sc_nodes s) nid = Some n" "nodeHasResources ParseFloat n (job s a)"
    and b: "b \<noteq> a" "b < length (sc_heap s)" "unfit ParseFloat s b"
  shows "unfit ParseFloat (place ParseFloat now i nid s) b"
proof -
  have ninv: "wn_ID n = nid" "within_capacity n" using sched_invD(7) [OF inv n(1)] by (simp_all add: node_inv_def)
  have "a < length (sc_heap s)" using sched_invD(2) [OF inv, of a] i a by simp
  then have mod: "modest ParseFloat (job s a)" "modest ParseFloat (job s b)" using sched_invD(3) [OF inv] b by blast+
  note P = place_fields [OF n(1) ninv(1) a, of ParseFloat now]
  show ?thesis
    using b unfit_stays [OF ninv(2) mod n(2)] n(1)
    by (auto simp: unfit_def P(1,2) go_map_simps split: if_splits)
qed

lemma schedule_loop_spec:
  assumes "sched_inv ParseFloat s" "i \<le> length (sc_jobQueue s)" "\<forall>k < i. unfit ParseFloat s (sc_jobQueue s ! k)"
  shows "sched_inv ParseFloat (schedule_loop ParseFloat now i s) \<and> cycle_rel now s (schedule_loop ParseFloat now i s) \<and>
    (\<forall>a \<in> set (sc_jobQueue (schedule_loop ParseFloat now i s)). unfit ParseFloat (schedule_loop ParseFloat now i s) a)"
  using assms
proof (induction "length (sc_jobQueue s) - i" arbitrary: i s rule: less_induct)
  case less
  note inv = less.prems(1) and loop = schedule_loop_unfold [OF less.prems(1)]
  show ?case
  proof (cases "i < length (sc_jobQueue s)")
    case False
    then have "schedule_loop ParseFloat now i s = s" by (simp add: loop)
    then show ?thesis
      using inv cycle_rel_refl [OF inv] less.prems(2,3) False by (auto simp: in_set_conv_nth)
  next
    case True
    define a where "a = sc_jobQueue s ! i"
    show ?thesis
    proof (cases "findSuitableNode ParseFloat (job s a) s")
      case None
      then have "unfit ParseFloat s a" using suitable_None by (auto simp: unfit_def)
      then have "\<forall>k < i + 1. unfit ParseFloat s (sc_jobQueue s ! k)"
        using less.prems(3) by (auto simp: a_def less_Suc_eq)
      moreover have "schedule_loop ParseFloat now i s = schedule_loop ParseFloat now (i + 1) s"
        using True None by (subst loop) (simp add: a_def)
      ultimately show ?thesis using less.hyps [of s "i + 1"] inv True by simp
    next
      case (Some nid)
      obtain n where n: "map_of (sc_nodes s) nid = Some n" "wn_Status n = ''ready''" "nodeHasResources ParseFloat n (job s a)"
        using suitable_Some [OF sched_invD(6) [OF inv] Some] by blast
      let ?s = "place ParseFloat (now a) i nid s"
      have wid: "wn_ID n = nid" using sched_invD(7) [OF inv n(1)] by (simp add: node_inv_def)
      have q: "sc_jobQueue ?s = take i (sc_jobQueue s) @ drop (i + 1) (sc_jobQueue s)"
        by (rule place_fields(3) [OF n(1) wid a_def])
      have "unfit ParseFloat ?s (sc_jobQueue ?s ! k)" if "k < i" for k
      proof -
        have "sc_jobQueue s ! k \<noteq> a" "sc_jobQueue s ! k \<in> set (sc_jobQueue s)"
          using that True sched_invD(1) [OF inv] by (auto simp: a_def nth_eq_iff_index_eq)
        then show ?thesis
          using unfit_placed [OF inv True a_def n(1,3), of "sc_jobQueue s ! k" "now a"] sched_invD(2) [OF inv] less.prems(3) that True
          by (simp add: q nth_append)
      qed
      moreover have loop': "schedule_loop ParseFloat now i s = schedule_loop ParseFloat now i ?s"
        using True Some by (subst loop) (simp add: a_def)
      moreover have "length (sc_jobQueue ?s) - i < length (sc_jobQueue s) - i" "i \<le> length (sc_jobQueue ?s)"
        using True by (simp_all add: q)
      ultimately show ?thesis
        using less.hyps [of ?s i] place_inv [OF inv True a_def n(1,3), of "now a"]
          cycle_rel_trans [OF inv place_rel [OF inv True a_def n(1,2)]] by simp
    qed
  qed
qed

text \<open>The reference of a cycle: the jobs of a queue, one after the other, go to the first ready node that has room next
  to the jobs placed before. The result is the placements, in order, and the nodes.\<close>

fun first_fit ::
  "(string \<Rightarrow> xfloat option) \<Rightarrow> (nat \<Rightarrow> Job) \<Rightarrow> nat list \<Rightarrow> (string, WorkerNode) gomap \<Rightarrow>
   (nat \<times> string) list \<times> (string, WorkerNode) gomap" where
  "first_fit ParseFloat jobs [] nodes = ([], nodes)"
| "first_fit ParseFloat jobs (a # q) nodes =
     (case find (\<lambda>(_, n). wn_Status n = ''ready'' \<and> nodeHasResources ParseFloat n (jobs a)) nodes of
        None \<Rightarrow> first_fit ParseFloat jobs q nodes
      | Some (nid, n) \<Rightarrow>
          let (ps, nodes') = first_fit ParseFloat jobs q (go_set nid (use_resources ParseFloat (jobs a) n) nodes)
          in ((a, nid) # ps, nodes'))"

lemma first_fit_cong:
  "\<forall>a\<in>set q. jobs a = jobs' a \<Longrightarrow> first_fit ParseFloat jobs q nodes = first_fit ParseFloat jobs' q nodes"
  by (induction q arbitrary: nodes) (auto split: option.splits)

lemma first_fit_keys: "fst ` set (fst (first_fit ParseFloat jobs q nodes)) \<subseteq> set q"
proof (induction q arbitrary: nodes)
  case (Cons a q)
  show ?case
  proof (cases "find (\<lambda>(_, n). wn_Status n = ''ready'' \<and> nodeHasResources ParseFloat n (jobs a)) nodes")
    case None
    with Cons.IH [of nodes] show ?thesis by auto
  next
    case (Some x)
    with Cons.IH [of "go_set (fst x) (use_resources ParseFloat (jobs a) (snd x)) nodes"] show ?thesis
      by (auto simp: Let_def case_prod_beta)
  qed
qed simp

definition placed_at :: "gotime \<Rightarrow> string \<Rightarrow> Job \<Rightarrow> Job" where
  "placed_at now nid j = j\<lparr>jb_Status := ''scheduled'', jb_NodeID := nid, jb_StartedAt := Some now\<rparr>"

definition fit_rel ::
  "(nat \<Rightarrow> gotime) \<Rightarrow> SchedulerController \<Rightarrow> SchedulerController \<Rightarrow> (nat \<times> string) list \<times> (string, WorkerNode) gomap \<Rightarrow> bool"
where
  "fit_rel now s s' r \<longleftrightarrow>
     sc_nodes s' = snd r \<and> (\<forall>(a, nid)\<in>set (fst r). job s' a = placed_at (now a) nid (job s a)) \<and>
     sc_jobQueue s' = filter (\<lambda>a. a \<notin> fst ` set (fst r)) (sc_jobQueue s) \<and>
     (\<forall>a < length (sc_heap s). a \<notin> fst ` set (fst r) \<longrightarrow> job s' a = job s a)"

lemma fit_rel_place:
  assumes inv: "sched_inv ParseFloat s" and i: "i < length (sc_jobQueue s)" and a: "a = sc_jobQueue s ! i"
    and n: "map_of (sc_nodes s) nid = Some n" and r: "fst ` set (fst r) \<subseteq> set (drop (i + 1) (sc_jobQueue s))"
    and rel: "fit_rel now (place ParseFloat (now a) i nid s) s' r"
  shows "fit_rel now s s' ((a, nid) # fst r, snd r)"
proof -
  let ?s = "place ParseFloat (now a) i nid s" and ?q = "sc_jobQueue s"
  have wid: "wn_ID n = nid" using sched_invD(7) [OF inv n(1)] by (simp add: node_inv_def)
  note P = place_fields [OF n wid a, of ParseFloat "now a"]
  have heap: "b < length (sc_heap s)" if "b \<in> set ?q" for b using sched_invD(2) [OF inv that] by simp
  have aq: "a < length (sc_heap s)" using heap i a by simp
  have jobs: "job ?s b = (if b = a then placed_at (now a) nid (job s a) else job s b)" if "b < length (sc_heap s)" for b
    using that by (simp add: P(1) placed_at_def)
  have anot: "a \<notin> set (drop (i + 1) ?q)"
    using sched_invD(1) [OF inv] id_take_nth_drop [OF i] a by (metis Suc_eq_plus1 distinct.simps(2) distinct_append)
  then have ar: "a \<notin> fst ` set (fst r)" using r by blast
  have "take i ?q @ drop (i + 1) ?q = filter (\<lambda>b. b \<noteq> a) ?q"
    using remove_nth(3) [OF sched_invD(1) [OF inv] i] a by simp
  then have "sc_jobQueue s' = filter (\<lambda>b. b \<notin> fst ` set ((a, nid) # fst r)) ?q"
    using rel unfolding fit_rel_def P(3) by (simp add: conj_commute)
  moreover have "job s' b = placed_at (now b) m (job s b)" if "(b, m) \<in> set (fst r)" for b m
  proof -
    have "b \<in> set ?q" using that r in_set_dropD by force
    moreover have "b \<noteq> a" using that ar by force
    ultimately show ?thesis using rel that jobs [OF heap] unfolding fit_rel_def by auto
  qed
  moreover have "job s' a = placed_at (now a) nid (job s a)"
    using rel ar aq jobs [OF aq] unfolding fit_rel_def by (simp add: P(1))
  moreover have "job s' b = job s b" if "b < length (sc_heap s)" "b \<notin> fst ` set ((a, nid) # fst r)" for b
    using rel that jobs [OF that(1)] unfolding fit_rel_def by (simp add: P(1))
  ultimately show ?thesis using rel unfolding fit_rel_def by auto
qed

lemma schedule_loop_first_fit:
  assumes "sched_inv ParseFloat s" "i \<le> length (sc_jobQueue s)"
  shows "fit_rel now s (schedule_loop ParseFloat now i s)
           (first_fit ParseFloat (job s) (drop i (sc_jobQueue s)) (sc_nodes s))"
  using assms
proof (induction "length (sc_jobQueue s) - i" arbitrary: i s rule: less_induct)
  case less
  note inv = less.prems(1) and loop = schedule_loop_unfold [OF less.prems(1)]
  show ?case
  proof (cases "i < length (sc_jobQueue s)")
    case False
    then show ?thesis using less.prems(2) by (simp add: loop fit_rel_def)
  next
    case True
    define a where "a = sc_jobQueue s ! i"
    let ?P = "\<lambda>(_, n). wn_Status n = ''ready'' \<and> nodeHasResources ParseFloat n (job s a)"
    have drop: "drop i (sc_jobQueue s) = a # drop (i + 1) (sc_jobQueue s)"
      using Cons_nth_drop_Suc [OF True] by (simp add: a_def)
    show ?thesis
    proof (cases "find ?P (sc_nodes s)")
      case None
      then have "findSuitableNode ParseFloat (job s a) s = None" by (simp add: findSuitableNode_def)
      then have "schedule_loop ParseFloat now i s = schedule_loop ParseFloat now (i + 1) s"
        using True by (subst loop) (simp add: a_def)
      then show ?thesis using less.hyps [of s "i + 1"] inv True None by (simp add: drop)
    next
      case (Some x)
      obtain nid n where x: "x = (nid, n)" by (cases x)
      have suit: "findSuitableNode ParseFloat (job s a) s = Some nid" using Some by (simp add: findSuitableNode_def x)
      have n: "map_of (sc_nodes s) nid = Some n" "nodeHasResources ParseFloat n (job s a)"
        using find_SomeD [OF Some] sched_invD(6) [OF inv] by (auto simp: x go_wf_def intro: map_of_is_SomeI)
      let ?s = "place ParseFloat (now a) i nid s" and ?q = "drop (i + 1) (sc_jobQueue s)"
      have wid: "wn_ID n = nid" using sched_invD(7) [OF inv n(1)] by (simp add: node_inv_def)
      note P = place_fields [OF n(1) wid a_def, of ParseFloat "now a"]
      have "a \<notin> set ?q"
        using sched_invD(1) [OF inv] id_take_nth_drop [OF True] by (metis Suc_eq_plus1 a_def distinct.simps(2) distinct_append)
      then have "job ?s b = job s b" if "b \<in> set ?q" for b
        using that by (cases "b = a") (simp_all add: P(1))
      then have "first_fit ParseFloat (job ?s) ?q (sc_nodes ?s) = first_fit ParseFloat (job s) ?q (sc_nodes ?s)" (is "_ = ?r")
        by (intro first_fit_cong ballI)
      moreover have "fit_rel now ?s (schedule_loop ParseFloat now i ?s)
          (first_fit ParseFloat (job ?s) (drop i (sc_jobQueue ?s)) (sc_nodes ?s))"
        using less.hyps [of ?s i] place_inv [OF inv True a_def n, of "now a"] True by (simp add: P(3))
      ultimately have "fit_rel now ?s (schedule_loop ParseFloat now i ?s) ?r"
        using True by (simp add: P(3))
      then have "fit_rel now s (schedule_loop ParseFloat now i ?s) ((a, nid) # fst ?r, snd ?r)"
        using fit_rel_place [OF inv True a_def n(1) first_fit_keys] by simp
      moreover have "schedule_loop ParseFloat now i s = schedule_loop ParseFloat now i ?s"
        using True suit by (subst loop) (simp add: a_def)
      ultimately show ?thesis using Some by (simp add: drop x P(2) Let_def case_prod_beta)
    qed
  qed
qed

section \<open>Runs of the scheduler\<close>

lemma sched_inv_queue:
  "sched_inv ParseFloat s \<Longrightarrow> distinct q \<Longrightarrow> set q = set (sc_jobQueue s) \<Longrightarrow> sched_inv ParseFloat (s\<lparr>sc_jobQueue := q\<rparr>)"
  by (simp add: sched_inv_def node_inv_def job_inv_def placed_def)

lemma sched_inv_depth: "sched_inv ParseFloat (s\<lparr>sc_QueueDepth := d\<rparr>) \<longleftrightarrow> sched_inv ParseFloat s"
  by (simp add: sched_inv_def node_inv_def job_inv_def placed_def)

lemma sortJobQueue_eq:
  "\<exists>q. sortJobQueue s = s\<lparr>sc_jobQueue := q\<rparr> \<and> set q = set (sc_jobQueue s) \<and> (distinct q \<longleftrightarrow> distinct (sc_jobQueue s)) \<and>
     length q = length (sc_jobQueue s)"
  by (auto simp: sortJobQueue_def sortByPriority_def sortByFairShare_def Let_def distinct_sort)

lemma sort_inv: "sched_inv ParseFloat s \<Longrightarrow> sched_inv ParseFloat (sortJobQueue s)"
  using sortJobQueue_eq [of s] sched_inv_queue sched_invD(1) by metis

lemma cycle_inv: "sched_inv ParseFloat s \<Longrightarrow> sched_inv ParseFloat (runSchedulingCycle ParseFloat now s)"
  using schedule_loop_spec [OF sort_inv, of ParseFloat s 0 now]
  by (simp add: runSchedulingCycle_def Let_def sched_inv_depth)

lemma SubmitJob_inv:
  assumes inv: "sched_inv ParseFloat s" and req: "\<And>j. body = Inr j \<Longrightarrow> modest ParseFloat j"
    and run: "SubmitJob body tenantID uuid now s = (r, s')"
  shows "sched_inv ParseFloat s'"
proof (cases "sc_heap s' = sc_heap s")
  case True
  then have "s' = s" using run by (auto simp: SubmitJob_def Let_def split: sum.splits option.splits if_splits)
  with inv show ?thesis by simp
next
  case False
  then obtain j where s': "sc_heap s' = sc_heap s @ [j]" "sc_jobs s' = go_set uuid (length (sc_heap s)) (sc_jobs s)"
      "sc_jobQueue s' = sc_jobQueue s @ [length (sc_heap s)]" "sc_nodes s' = sc_nodes s"
      "modest ParseFloat j" "jb_Status j = ''pending''"
    using run req by (auto simp: SubmitJob_def Let_def modest_def split: sum.splits option.splits if_splits)
  have jobs: "job s' a = (if a < length (sc_heap s) then job s a else j)" if "a < Suc (length (sc_heap s))" for a
    using that by (simp add: s'(1) nth_append)
  have "placed nid s' = placed nid s" for nid by (simp add: placed_def s'(1,6))
  then have "node_inv nid n s'" if "map_of (sc_nodes s) nid = Some n" for nid n
    using sched_invD(7) [OF inv that] by (simp add: node_inv_def)
  moreover have "job_inv ParseFloat s' (job s' a)" if "a < Suc (length (sc_heap s))" for a
    using inv s'(5,6) unfolding jobs [OF that] by (simp add: sched_inv_def job_inv_def s'(4))
  moreover have "a < Suc (length (sc_heap s))" if "(k, a) \<in> set (sc_jobs s')" for k a
    using that set_go_set [of uuid "length (sc_heap s)" "sc_jobs s"] sched_invD(5) [OF inv] unfolding s'(2)
    by (auto simp: less_Suc_eq)
  moreover have "set (sc_jobQueue s') = {a. a < Suc (length (sc_heap s)) \<and> jb_Status (job s' a) = ''pending''}"
    using inv s'(6) unfolding sched_inv_def by (auto simp: s'(1,3) nth_append less_Suc_eq)
  moreover have "distinct (sc_jobQueue s')" using sched_invD(1,2) [OF inv] by (auto simp: s'(3))
  ultimately show ?thesis
    using sched_invD(6) [OF inv] by (auto simp: sched_inv_def s'(1,4))
qed

text \<open>Submissions of jobs with modest requests and scheduling cycles, in any order.\<close>

inductive sched_step :: "(string \<Rightarrow> xfloat option) \<Rightarrow> SchedulerController \<Rightarrow> SchedulerController \<Rightarrow> bool" for ParseFloat where
  submit: "(\<And>j. body = Inr j \<Longrightarrow> modest ParseFloat j) \<Longrightarrow> SubmitJob body tenantID uuid now s = (r, s') \<Longrightarrow>
    sched_step ParseFloat s s'"
| cycle: "sched_step ParseFloat s (runSchedulingCycle ParseFloat now s)"

definition sched_init :: "environ \<Rightarrow> gotime \<Rightarrow> SchedulerController" where
  "sched_init env now = initializeSampleData now (NewSchedulerController env)"

interpretation scheduler: transition_system "\<lambda>_ :: unit. sched_step ParseFloat" "sched_inv ParseFloat"
  for ParseFloat :: "string \<Rightarrow> xfloat option"
  by unfold_locales (auto elim!: sched_step.cases intro: SubmitJob_inv cycle_inv)

lemma sample_node_ok: "sc_heap s = [] \<Longrightarrow> node_inv i (sample_node now i address zone) s"
  by (simp add: node_inv_def within_capacity_def sample_node_def placed_def)

lemma sched_init_inv: "sched_inv ParseFloat (sched_init env now)"
proof -
  have nodes: "sc_nodes (sched_init env now) = map (\<lambda>n. (wn_ID n, n)) (sample_nodes now)"
    by (simp add: sched_init_def initializeSampleData_def NewSchedulerController_def sample_nodes_def sample_node_def go_set_def)
  have heap: "sc_heap (sched_init env now) = []"
    by (simp add: sched_init_def initializeSampleData_def NewSchedulerController_def)
  have wid: "wn_ID (sample_node now i address zone) = i" for i address zone
    by (simp add: sample_node_def)
  have "node_inv nid n (sched_init env now)" if "map_of (sc_nodes (sched_init env now)) nid = Some n" for nid n
    using map_of_SomeD [OF that] sample_node_ok [OF heap] unfolding nodes sample_nodes_def by (auto simp: wid)
  moreover have "go_wf (sc_nodes (sched_init env now))"
    by (simp add: nodes go_wf_def sample_nodes_def sample_node_def)
  ultimately show ?thesis
    by (simp add: sched_inv_def sched_init_def initializeSampleData_def NewSchedulerController_def)
qed

lemma sched_reachable: "(sched_step ParseFloat)\<^sup>*\<^sup>* (sched_init env t) s \<Longrightarrow> sched_inv ParseFloat s"
  using scheduler.ainv_run sched_init_inv by blast

section \<open>Nothing runs\<close>

lemma insort_key_pair: "insort_key (\<lambda>a. (z :: 'b :: linorder, f a :: 'c :: linorder)) x xs = insort_key f x xs"
  by (induction xs) simp_all

lemma sort_key_pair: "sort_key (\<lambda>a. (z :: 'b :: linorder, f a :: 'c :: linorder)) xs = sort_key f xs"
  by (induction xs) (simp_all add: insort_key_pair)

lemma fair_shares_zero:
  assumes "\<And>k a. (k, a) \<in> set (sc_jobs s) \<Longrightarrow> jb_Status (job s a) \<noteq> ''running''"
  shows "go_get 0 (calculateFairShares s) tenantID = 0"
proof -
  have "fold (\<lambda>(_, a) m. if jb_Status (job s a) = ''running''
            then go_set (jb_TenantID (job s a)) (go_get 0 m (jb_TenantID (job s a)) + 1) m else m) js m = m"
    if "set js \<subseteq> set (sc_jobs s)" for js :: "(string \<times> nat) list" and m :: "(string, int) gomap"
    using that assms by (induction js) auto
  from this [of "sc_jobs s"] have usage: "fold (\<lambda>(_, a) m. if jb_Status (job s a) = ''running''
            then go_set (jb_TenantID (job s a)) (go_get 0 m (jb_TenantID (job s a)) + 1) m else m) (sc_jobs s) ([] :: (string, int) gomap) = []"
    by simp
  have "go_get 0 (fold (\<lambda>(i, t) m. let w = getTenantWeight (tn_PriorityClass t); u = go_get 0 ([] :: (string, int) gomap) i in
            if w > 0 then go_set i (fl (fl (of_int u) / fl (of_int w))) m else m) ts m) tenantID = 0"
    if "go_get 0 m tenantID = 0" for ts :: "(string, Tenant) gomap" and m
    using that by (induction ts arbitrary: m) (auto simp: Let_def go_map_simps)
  then show ?thesis by (simp only: calculateFairShares_def Let_def usage) simp
qed

lemma fair_share_is_priority:
  assumes "\<And>k a. (k, a) \<in> set (sc_jobs s) \<Longrightarrow> jb_Status (job s a) \<noteq> ''running''"
  shows "sortByFairShare s = sortByPriority s"
  by (simp add: sortByFairShare_def sortByPriority_def Let_def fair_shares_zero [OF assms] sort_key_pair)

section \<open>Properties\<close>

definition demo_job :: Job where
  "demo_job = \<lparr>jb_ID = '''', jb_Name = ''train'', jb_TenantID = '''', jb_Image = ''img'', jb_Command = [],
     jb_Resources = \<lparr>rq_CPU = ''2'', rq_Memory = ''1024'', rq_GPU = ''1'', rq_Storage = ''''\<rparr>, jb_Priority = 0,
     jb_Status = '''', jb_CreatedAt = 0, jb_StartedAt = None, jb_CompletedAt = None, jb_NodeID = '''',
     jb_RetryPolicy = \<lparr>jr_MaxRetries = 0, jr_BackoffPolicy = '''', jr_RetryCount = 0\<rparr>, jb_Labels = [],
     jb_Annotations = [], jb_Deadline = None\<rparr>"

definition demo_float :: "string \<Rightarrow> xfloat option" where
  "demo_float cpu = map_option (\<lambda>i. Fin (of_int i)) (strconv_Atoi cpu)"

definition demo_sched :: SchedulerController where
  "demo_sched = snd (SubmitJob (Inr demo_job) ''tenant-a'' ''job-1'' 7 (sched_init (\<lambda>_. ''true'') 0))"

lemma demo_modest: "modest demo_float demo_job"
proof -
  have "cpu_req demo_float demo_job = Fin 2" "mem_req demo_job = 1024" "gpu_req demo_job = 1"
    by code_simp+
  then show ?thesis by (simp add: modest_def)
qed

lemma demo_reachable: "(sched_step demo_float)\<^sup>*\<^sup>* (sched_init (\<lambda>_. ''true'') 0) demo_sched"
proof -
  obtain r where "SubmitJob (Inr demo_job) ''tenant-a'' ''job-1'' 7 (sched_init (\<lambda>_. ''true'') 0) = (r, demo_sched)"
    unfolding demo_sched_def by (metis prod.collapse)
  then have "sched_step demo_float (sched_init (\<lambda>_. ''true'') 0) demo_sched"
    by (rule sched_step.submit [rotated]) (use demo_modest in simp)
  then show ?thesis by blast
qed

lemma demo_after_cycle: "(sched_step demo_float)\<^sup>*\<^sup>* (sched_init (\<lambda>_. ''true'') 0) (runSchedulingCycle demo_float (\<lambda>_. 9) demo_sched)"
  using demo_reachable sched_step.cycle by (meson rtranclp.rtrancl_into_rtrancl)

lemma demo_fits: "nodeHasResources demo_float (sample_node 0 i address zone) (job demo_sched 0)"
proof -
  have "xsub (Fin 8) (Fin 0) = Fin 8"
    using within_capacity_sub [of 0 8] fl_of_int [of 8] by simp
  moreover have "cpu_req demo_float (job demo_sched 0) = Fin 2" "mem_req (job demo_sched 0) = 1024" "gpu_req (job demo_sched 0) = 1"
    by code_simp+
  ultimately show ?thesis by (simp add: nodeHasResources_def sample_node_def Let_def)
qed

text \<open>The cycle places the job on the first worker.\<close>

lemma demo_cycle:
  "sc_jobQueue (runSchedulingCycle demo_float (\<lambda>_. 9) demo_sched) = [] \<and>
   (\<exists>n. map_of (sc_nodes (runSchedulingCycle demo_float (\<lambda>_. 9) demo_sched)) ''worker-1'' = Some n \<and>
      nr_Memory (wn_UsedResources n) = 1024)"
proof -
  let ?w = "sample_node 0 ''worker-1'' ''worker-node-1:8080'' ''us-west-1a''"
  have inv: "sched_inv demo_float demo_sched" using sched_reachable demo_reachable by blast
  have q: "sc_jobQueue demo_sched = [0]" and sort: "sortJobQueue demo_sched = demo_sched"
    by code_simp+
  have nodes: "sc_nodes demo_sched = map (\<lambda>n. (wn_ID n, n)) (sample_nodes 0)" by code_simp
  then have w: "map_of (sc_nodes demo_sched) ''worker-1'' = Some ?w" "wn_ID ?w = ''worker-1''" "wn_Status ?w = ''ready''"
    by (simp_all add: sample_nodes_def sample_node_def)
  have "findSuitableNode demo_float (job demo_sched 0) demo_sched = Some ''worker-1''"
    using demo_fits [of "''worker-1''"] w(2,3) by (simp add: findSuitableNode_def nodes sample_nodes_def)
  moreover have fit: "nodeHasResources demo_float ?w (job demo_sched 0)" by (rule demo_fits)
  let ?s = "place demo_float 9 0 ''worker-1'' demo_sched"
  have i: "0 < length (sc_jobQueue demo_sched)" and a: "0 = sc_jobQueue demo_sched ! 0" by (simp_all add: q)
  note P = place_fields [OF w(1,2) a, of demo_float 9]
  have "schedule_loop demo_float (\<lambda>_. 9) 0 ?s = ?s"
    using schedule_loop_unfold [OF place_inv [OF inv i a w(1) fit]] by (simp add: P(3) q)
  ultimately have cyc: "runSchedulingCycle demo_float (\<lambda>_. 9) demo_sched = ?s\<lparr>sc_QueueDepth := int (length (sc_jobQueue ?s))\<rparr>"
    using schedule_loop_unfold [OF inv, of "\<lambda>_. 9" 0] by (simp add: runSchedulingCycle_def Let_def q sort)
  have "nr_Memory (wn_UsedResources (use_resources demo_float (job demo_sched 0) ?w)) = 1024"
  proof -
    have "within_capacity ?w" using sched_invD(7) [OF inv w(1)] by (simp add: node_inv_def)
    moreover have "modest demo_float (job demo_sched 0)" using sched_invD(2,3) [OF inv, of 0] q by simp
    moreover have "mem_req (job demo_sched 0) = 1024" by code_simp
    ultimately show ?thesis using use_resources_ok(2) [OF _ _ fit] by (simp add: sample_node_def)
  qed
  then show ?thesis by (simp add: cyc P(2,3) q go_map_simps)
qed

text \<open>C14: In every run from the sample cluster with requests for finite and non-negative amounts, the memory and the
  GPUs a node has in use are exactly the sums of what the jobs placed on it asked for and never more than it has;
  its CPU is exceeded at most by the rounding of a floating-point sum, a factor of 1 + 2^-51.\<close>

theorem scheduler_never_overcommits:
  assumes "(sched_step ParseFloat)\<^sup>*\<^sup>* (sched_init env t) s" "map_of (sc_nodes s) nid = Some n"
  shows "nr_Memory (wn_UsedResources n) = sum_list (map mem_req (placed nid s)) \<and>
    nr_GPU (wn_UsedResources n) = sum_list (map gpu_req (placed nid s)) \<and>
    nr_Memory (wn_UsedResources n) \<le> nr_Memory (wn_Resources n) \<and>
    nr_GPU (wn_UsedResources n) \<le> nr_GPU (wn_Resources n) \<and>
    (\<exists>c u. nr_CPU (wn_Resources n) = Fin c \<and> nr_CPU (wn_UsedResources n) = Fin u \<and> u \<le> c * (1 + 1 / 2 ^ 51))"
  using sched_invD(7) [OF sched_reachable [OF assms(1)] assms(2)] unfolding node_inv_def within_capacity_def by blast

theorem scheduler_never_overcommits_witness:
  "\<exists>n. map_of (sc_nodes (runSchedulingCycle demo_float (\<lambda>_. 9) demo_sched)) ''worker-1'' = Some n \<and>
     nr_Memory (wn_UsedResources n) = 1024 \<and> nr_Memory (wn_UsedResources n) \<le> nr_Memory (wn_Resources n)"
proof -
  obtain n where n: "map_of (sc_nodes (runSchedulingCycle demo_float (\<lambda>_. 9) demo_sched)) ''worker-1'' = Some n"
      "nr_Memory (wn_UsedResources n) = 1024"
    using demo_cycle by blast
  with scheduler_never_overcommits [OF demo_after_cycle n(1)] show ?thesis by blast
qed

lemma sortJobQueue_order:
  assumes "sched_inv ParseFloat s"
  shows "sortJobQueue s = sortByPriority s"
  using fair_share_is_priority [of s] sched_invD(4,5) [OF assms] unfolding sortJobQueue_def by presburger



text \<open>No job is ever \<open>running\<close>: no code sets that status. So the quota of a tenant admits every submission as soon as it
  is positive, preemption never finds a job, and the order by fair share is the order by priority.\<close>

theorem scheduler_never_runs:
  assumes "(sched_step ParseFloat)\<^sup>*\<^sup>* (sched_init env t) s"
  shows "(\<forall>a < length (sc_heap s). jb_Status (job s a) \<in> {''pending'', ''scheduled''}) \<and>
    (checkResourceQuota tenant s \<longleftrightarrow> 0 < qu_Jobs (tn_ResourceQuota tenant)) \<and>
    tryPreemption ParseFloat j s = (None, s) \<and> sortByFairShare s = sortByPriority s"
proof -
  note inv = sched_reachable [OF assms]
  have "jb_Status (job s a) \<noteq> ''running''" if "(k, a) \<in> set (sc_jobs s)" for k a
    using sched_invD(4,5) [OF inv] that by blast
  then have "filter (\<lambda>(_, a). jb_TenantID (job s a) = tn_ID tenant \<and> jb_Status (job s a) = ''running'') (sc_jobs s) = []"
    and "sortByFairShare s = sortByPriority s"
    by (auto simp: filter_empty_conv intro: fair_share_is_priority)
  moreover have "\<forall>a < length (sc_heap s). jb_Status (job s a) \<in> {''pending'', ''scheduled''}"
    using inv unfolding sched_inv_def job_inv_def by blast
  ultimately show ?thesis using no_preemption(1) [OF inv] by (simp add: checkResourceQuota_def)
qed

theorem scheduler_never_runs_witness:
  "tryPreemption demo_float demo_job demo_sched = (None, demo_sched) \<and> sortByFairShare demo_sched = sortByPriority demo_sched"
  using scheduler_never_runs [OF demo_reachable] by blast

end
