(* ===== verification/Go_Strings.thy ===== *)
theory Go_Strings
  imports Go_Prelude "HOL-Library.Sublist"
begin

text \<open>
  What the components use of the package \<open>strings\<close>. A string is a list of bytes; on ASCII strings \<open>ToUpper\<close>, \<open>ToLower\<close>
  and \<open>TrimSpace\<close> are written out, on others they are the functions of the record \<open>UnicodeOps\<close>, of which
  \<open>unicode_laws\<close> says what is relied on.
\<close>

section \<open>Functions\<close>

record UnicodeOps =
  ux_ToUpper :: "string \<Rightarrow> string"
  ux_ToLower :: "string \<Rightarrow> string"
  ux_TrimSpace :: "string \<Rightarrow> string"

abbreviation ascii_string :: "string \<Rightarrow> bool" where
  "ascii_string s \<equiv> list_all (\<lambda>c. of_char c < (128 :: nat)) s"

definition lower_letter :: "char \<Rightarrow> bool" where
  "lower_letter c = (97 \<le> (of_char c :: nat) \<and> (of_char c :: nat) \<le> 122)"

definition upper_char :: "char \<Rightarrow> char" where
  "upper_char c = (if lower_letter c then char_of ((of_char c :: nat) - 32) else c)"

definition strings_ToUpper :: "UnicodeOps \<Rightarrow> string \<Rightarrow> string" where
  "strings_ToUpper U s = (if ascii_string s then map upper_char s else ux_ToUpper U s)"

definition upper_letter :: "char \<Rightarrow> bool" where
  "upper_letter c = (65 \<le> (of_char c :: nat) \<and> (of_char c :: nat) \<le> 90)"

definition lower_char :: "char \<Rightarrow> char" where
  "lower_char c = (if upper_letter c then char_of ((of_char c :: nat) + 32) else c)"

definition strings_ToLower :: "UnicodeOps \<Rightarrow> string \<Rightarrow> string" where
  "strings_ToLower U s = (if ascii_string s then map lower_char s else ux_ToLower U s)"

definition space_char :: "char \<Rightarrow> bool" where
  "space_char c = (c \<in> {CHR 0x09, CHR 0x0A, CHR 0x0B, CHR 0x0C, CHR 0x0D, CHR '' ''})"

definition trim_with :: "(char \<Rightarrow> bool) \<Rightarrow> string \<Rightarrow> string" where
  "trim_with P s = rev (dropWhile P (rev (dropWhile P s)))"

definition strings_TrimSpace :: "UnicodeOps \<Rightarrow> string \<Rightarrow> string" where
  "strings_TrimSpace U s = (if ascii_string s then trim_with space_char s else ux_TrimSpace U s)"

definition strings_Contains :: "string \<Rightarrow> string \<Rightarrow> bool" where
  "strings_Contains s t = list_ex (prefix t) (suffixes s)"

text \<open>\<open>strings.Split\<close> at a separator that is not empty.\<close>

function split_string :: "string \<Rightarrow> string \<Rightarrow> string \<Rightarrow> string list" where
  "split_string sep acc [] = [rev acc]"
| "split_string sep acc (c # cs) =
     (if sep \<noteq> [] \<and> prefix sep (c # cs)
      then rev acc # split_string sep [] (drop (length sep) (c # cs))
      else split_string sep (c # acc) cs)"
  by pat_completeness auto
termination by (relation "measure (\<lambda>(_, _, s). length s)") auto

section \<open>Laws\<close>

text \<open>What is relied on for strings that are not ASCII.\<close>

definition unicode_laws :: "UnicodeOps \<Rightarrow> bool" where
  "unicode_laws U \<longleftrightarrow>
     (\<forall>s. \<not> list_ex lower_letter (ux_ToUpper U s)) \<and> (\<forall>s. set (ux_TrimSpace U s) \<subseteq> set s)"

lemma upper_char_not_lower: "\<not> lower_letter (upper_char c)"
proof (cases "lower_letter c")
  case True
  then have "(of_char c :: nat) - 32 < 256" "(of_char c :: nat) - 32 < 97" unfolding lower_letter_def by linarith+
  then have "(of_char (char_of ((of_char c :: nat) - 32)) :: nat) < 97" by (simp add: of_char_of)
  then show ?thesis using True by (simp add: upper_char_def lower_letter_def)
qed (simp add: upper_char_def)

lemma ToUpper_no_lower: "unicode_laws U \<Longrightarrow> \<not> list_ex lower_letter (strings_ToUpper U s)"
  by (simp add: unicode_laws_def strings_ToUpper_def upper_char_not_lower list_ex_iff)

lemma trim_with_set: "set (trim_with P s) \<subseteq> set s"
  by (auto simp: trim_with_def dest!: set_dropWhileD)

lemma TrimSpace_set: "unicode_laws U \<Longrightarrow> set (strings_TrimSpace U s) \<subseteq> set s"
  using trim_with_set by (auto simp: unicode_laws_def strings_TrimSpace_def)

lemma Contains_set: "strings_Contains s t \<Longrightarrow> set t \<subseteq> set s"
  using set_mono_prefix set_mono_suffix
  by (fastforce simp: strings_Contains_def list_ex_iff)

lemma prefix_heads: "prefix (a # as) s \<Longrightarrow> prefix (b # bs) s \<Longrightarrow> a = b"
  by (auto simp: prefix_def)

lemma Contains_iff: "strings_Contains s t \<longleftrightarrow> (\<exists>a b. s = a @ t @ b)"
proof -
  have "strings_Contains s t \<longleftrightarrow> (\<exists>x. suffix x s \<and> prefix t x)"
    unfolding strings_Contains_def list_ex_iff in_set_suffixes [symmetric] by blast
  also have "\<dots> \<longleftrightarrow> (\<exists>a b. s = a @ t @ b)" by (auto simp: suffix_def prefix_def)
  finally show ?thesis .
qed

end
