(* ===== verification/Sharding_Proxy.thy ===== *)
theory Sharding_Proxy
  imports Go_Env Go_Strings "HOL-Library.Word" "HOL-Library.Multiset"
begin

text \<open>
  The sharding proxy, \<open>services/sharding-proxy/main.go\<close>: the consistent hash ring, the routing of queries and
  the shard rebalancer. \<open>md5\<close> (\<open>crypto/md5\<close>, the 16 bytes of a digest) is an argument of the definitions that
  hash. A database is reached by \<open>Query\<close>, an argument that answers with an error or none and changes a world of
  any type. The functions on strings are those of \<open>Go_Strings\<close>. \<open>None\<close> is a panic.

  The lemmas show that the bubble sort of the ring sorts, that the ring is a successor lookup, that adding a node
  moves keys only to the new node, that removing a node leaves its positions behind without a node, and that no query is
  ever routed by its sharding key, because the key is looked for in lower case after the query was put in upper case.
\<close>

section \<open>The hash ring\<close>

type_synonym uint32 = "32 word"

record ConsistentHashRing =
  hr_nodes :: "string list"
  hr_replicas :: int
  hr_ring :: "(uint32, string) gomap"
  hr_sortedKeys :: "uint32 list"

definition NewConsistentHashRing :: "int \<Rightarrow> ConsistentHashRing" where
  "NewConsistentHashRing replicas = \<lparr>hr_nodes = [], hr_replicas = replicas, hr_ring = [], hr_sortedKeys = []\<rparr>"

unbundle bit_operations_syntax

definition ring_hash :: "(string \<Rightarrow> 8 word list) \<Rightarrow> string \<Rightarrow> uint32" where
  "ring_hash md5 key =
     (let h = md5 key in
      push_bit 24 (ucast (h ! 0)) OR push_bit 16 (ucast (h ! 1)) OR push_bit 8 (ucast (h ! 2)) OR ucast (h ! 3))"

text \<open>One pass of the inner loop of \<open>sortKeys\<close> over the first \<open>m\<close> neighbours, and the outer loop.\<close>

fun bubble_pass :: "nat \<Rightarrow> 'a :: linorder list \<Rightarrow> 'a list" where
  "bubble_pass (Suc m) (x # y # zs) =
     (if x > y then y # bubble_pass m (x # zs) else x # bubble_pass m (y # zs))"
| "bubble_pass _ xs = xs"

definition bubble_sort :: "'a :: linorder list \<Rightarrow> 'a list" where
  "bubble_sort xs = (let n = length xs in fold (\<lambda>i. bubble_pass (n - i - 1)) [0..<n - 1] xs)"

definition sortKeys :: "ConsistentHashRing \<Rightarrow> ConsistentHashRing" where
  "sortKeys c = c\<lparr>hr_sortedKeys := bubble_sort (hr_sortedKeys c)\<rparr>"

definition virtual_node :: "string \<Rightarrow> int \<Rightarrow> string" where
  "virtual_node node i = node @ '':'' @ itoa i"

definition positions :: "(string \<Rightarrow> 8 word list) \<Rightarrow> string \<Rightarrow> int \<Rightarrow> uint32 list" where
  "positions md5 node replicas = map (\<lambda>i. ring_hash md5 (virtual_node node i)) [0..replicas - 1]"

definition ring_AddNode :: "(string \<Rightarrow> 8 word list) \<Rightarrow> string \<Rightarrow> ConsistentHashRing \<Rightarrow> ConsistentHashRing" where
  "ring_AddNode md5 node c0 =
     (let c1 = fold (\<lambda>key c. c\<lparr>hr_ring := go_set key node (hr_ring c), hr_sortedKeys := hr_sortedKeys c @ [key]\<rparr>)
                 (positions md5 node (hr_replicas c0)) c0;
          c2 = sortKeys c1
      in c2\<lparr>hr_nodes := hr_nodes c2 @ [node]\<rparr>)"

definition ring_RemoveNode :: "(string \<Rightarrow> 8 word list) \<Rightarrow> string \<Rightarrow> ConsistentHashRing \<Rightarrow> ConsistentHashRing" where
  "ring_RemoveNode md5 node c =
     (let ring = fold go_del (positions md5 node (hr_replicas c)) (hr_ring c);
          newKeys = filter (\<lambda>key. go_get '''' ring key \<noteq> node) (hr_sortedKeys c);
          newNodes = filter (\<lambda>n. n \<noteq> node) (hr_nodes c)
      in c\<lparr>hr_ring := ring, hr_sortedKeys := newKeys, hr_nodes := newNodes\<rparr>)"

definition GetNode :: "(string \<Rightarrow> 8 word list) \<Rightarrow> string \<Rightarrow> ConsistentHashRing \<Rightarrow> string option" where
  "GetNode md5 key c =
     (if length (hr_ring c) = 0 then Some ''''
      else let hash = ring_hash md5 key in
           case find (\<lambda>k. k \<ge> hash) (hr_sortedKeys c) of
             Some k \<Rightarrow> Some (go_get '''' (hr_ring c) k)
           | None \<Rightarrow> (case hr_sortedKeys c of [] \<Rightarrow> None | k # _ \<Rightarrow> Some (go_get '''' (hr_ring c) k)))"

section \<open>Routing\<close>

datatype Target = Primary | Replica | Shard string

type_synonym 'w db_query = "Target \<Rightarrow> string \<Rightarrow> 'w \<Rightarrow> goerror option \<times> 'w"

record ShardingProxy =
  sp_shards :: "string list"
  sp_shardRing :: ConsistentHashRing

definition NewShardingProxy :: "(string \<Rightarrow> 8 word list) \<Rightarrow> ShardingProxy" where
  "NewShardingProxy md5 =
     \<lparr>sp_shards = [''shard1'', ''shard2''],
      sp_shardRing = ring_AddNode md5 ''shard2'' (ring_AddNode md5 ''shard1'' (NewConsistentHashRing 3))\<rparr>"

text \<open>The value after the first occurrence of a column, when an equals sign follows it.\<close>

definition key_after :: "UnicodeOps \<Rightarrow> string \<Rightarrow> string \<Rightarrow> string option" where
  "key_after U column query =
     (if strings_Contains query column
      then case split_string column [] query of
             _ # part # _ \<Rightarrow>
               (case strings_TrimSpace U part of
                  c # rest \<Rightarrow>
                    if c = CHR ''='' then Some (trim_with (\<lambda>d. d = CHR 0x27 \<or> d = CHR 0x22) (strings_TrimSpace U rest))
                    else None
                | [] \<Rightarrow> None)
           | _ \<Rightarrow> None
      else None)"

definition extractShardingKey :: "UnicodeOps \<Rightarrow> string \<Rightarrow> string" where
  "extractShardingKey U query =
     (case key_after U ''user_id'' query of
        Some v \<Rightarrow> v
      | None \<Rightarrow> (case key_after U ''sku'' query of Some v \<Rightarrow> v | None \<Rightarrow> ''''))"

definition extractShardingKeyFromInsert :: "string \<Rightarrow> string" where
  "extractShardingKeyFromInsert query = ''''"

definition isAnalyticalQuery :: "string \<Rightarrow> bool" where
  "isAnalyticalQuery query =
     list_ex (strings_Contains query) [''COUNT'', ''SUM'', ''AVG'', ''GROUP BY'', ''ORDER BY'', ''HAVING'']"

definition newline :: string where
  "newline = [CHR 0x0A]"

definition executeOn :: "'w db_query \<Rightarrow> Target \<Rightarrow> string \<Rightarrow> string \<Rightarrow> 'w \<Rightarrow> (goerror + string) \<times> 'w" where
  "executeOn Query target name query w =
     (case Query target query w of
        (Some err, w') \<Rightarrow> (Inl err, w')
      | (None, w') \<Rightarrow> (Inr (''Query executed on '' @ name @ newline), w'))"

definition executeOnPrimary :: "'w db_query \<Rightarrow> string \<Rightarrow> 'w \<Rightarrow> (goerror + string) \<times> 'w" where
  "executeOnPrimary Query query w = executeOn Query Primary ''primary'' query w"

definition executeOnReplica :: "'w db_query \<Rightarrow> string \<Rightarrow> 'w \<Rightarrow> (goerror + string) \<times> 'w" where
  "executeOnReplica Query query w = executeOn Query Replica ''replica'' query w"

definition executeOnShard ::
  "'w db_query \<Rightarrow> string \<Rightarrow> string \<Rightarrow> ShardingProxy \<Rightarrow> 'w \<Rightarrow> (goerror + string) \<times> 'w" where
  "executeOnShard Query query shardName p w =
     (if shardName \<notin> set (sp_shards p) then (Inl (''shard '' @ shardName @ '' not found''), w)
      else executeOn Query (Shard shardName) shardName query w)"

fun run_on_shards :: "'w db_query \<Rightarrow> string \<Rightarrow> string list \<Rightarrow> 'w \<Rightarrow> string list \<times> 'w" where
  "run_on_shards Query query [] w = ([], w)"
| "run_on_shards Query query (shard # shards) w =
     (let (err, w1) = Query (Shard shard) query w;
          (results, w2) = run_on_shards Query query shards w1
      in (case err of Some _ \<Rightarrow> results | None \<Rightarrow> (''Executed on '' @ shard) # results, w2))"

definition executeOnAllShards :: "'w db_query \<Rightarrow> string \<Rightarrow> ShardingProxy \<Rightarrow> 'w \<Rightarrow> (goerror + string) \<times> 'w" where
  "executeOnAllShards Query query p w =
     (let (results, w') = run_on_shards Query query (sp_shards p) w
      in (Inr (strings_Join (CHR 0x0A) results @ newline), w'))"

text \<open>The shard of a key, then the query on it.\<close>

definition route_by_key ::
  "(string \<Rightarrow> 8 word list) \<Rightarrow> 'w db_query \<Rightarrow> string \<Rightarrow> string \<Rightarrow> ShardingProxy \<Rightarrow> 'w \<Rightarrow> ((goerror + string) \<times> 'w) option" where
  "route_by_key md5 Query key query p w =
     map_option (\<lambda>shard. executeOnShard Query query shard p w) (GetNode md5 key (sp_shardRing p))"

definition routeSelectQuery ::
  "(string \<Rightarrow> 8 word list) \<Rightarrow> UnicodeOps \<Rightarrow> 'w db_query \<Rightarrow> string \<Rightarrow> ShardingProxy \<Rightarrow> 'w \<Rightarrow> ((goerror + string) \<times> 'w) option" where
  "routeSelectQuery md5 U Query query p w =
     (let shardingKey = extractShardingKey U query in
      if shardingKey \<noteq> '''' then route_by_key md5 Query shardingKey query p w
      else if isAnalyticalQuery query then Some (executeOnReplica Query query w)
      else Some (executeOnPrimary Query query w))"

definition routeInsertQuery ::
  "(string \<Rightarrow> 8 word list) \<Rightarrow> 'w db_query \<Rightarrow> string \<Rightarrow> ShardingProxy \<Rightarrow> 'w \<Rightarrow> ((goerror + string) \<times> 'w) option" where
  "routeInsertQuery md5 Query query p w =
     (let shardingKey = extractShardingKeyFromInsert query in
      if shardingKey \<noteq> '''' then route_by_key md5 Query shardingKey query p w
      else Some (executeOnPrimary Query query w))"

definition routeUpdateQuery ::
  "(string \<Rightarrow> 8 word list) \<Rightarrow> UnicodeOps \<Rightarrow> 'w db_query \<Rightarrow> string \<Rightarrow> ShardingProxy \<Rightarrow> 'w \<Rightarrow> ((goerror + string) \<times> 'w) option" where
  "routeUpdateQuery md5 U Query query p w =
     (let shardingKey = extractShardingKey U query in
      if shardingKey \<noteq> '''' then route_by_key md5 Query shardingKey query p w
      else Some (executeOnAllShards Query query p w))"

definition routeDeleteQuery ::
  "(string \<Rightarrow> 8 word list) \<Rightarrow> UnicodeOps \<Rightarrow> 'w db_query \<Rightarrow> string \<Rightarrow> ShardingProxy \<Rightarrow> 'w \<Rightarrow> ((goerror + string) \<times> 'w) option" where
  "routeDeleteQuery md5 U Query query p w =
     (let shardingKey = extractShardingKey U query in
      if shardingKey \<noteq> '''' then route_by_key md5 Query shardingKey query p w
      else Some (executeOnAllShards Query query p w))"

definition routeQuery ::
  "(string \<Rightarrow> 8 word list) \<Rightarrow> UnicodeOps \<Rightarrow> 'w db_query \<Rightarrow> string \<Rightarrow> ShardingProxy \<Rightarrow> 'w \<Rightarrow> ((goerror + string) \<times> 'w) option" where
  "routeQuery md5 U Query query0 p w =
     (let query = strings_TrimSpace U (strings_ToUpper U query0) in
      if prefix ''SELECT'' query then routeSelectQuery md5 U Query query p w
      else if prefix ''INSERT'' query then routeInsertQuery md5 Query query p w
      else if prefix ''UPDATE'' query then routeUpdateQuery md5 U Query query p w
      else if prefix ''DELETE'' query then routeDeleteQuery md5 U Query query p w
      else Some (executeOnPrimary Query query w))"

text \<open>What \<open>handleConnection\<close> writes back for one query.\<close>

definition handle_query ::
  "(string \<Rightarrow> 8 word list) \<Rightarrow> UnicodeOps \<Rightarrow> 'w db_query \<Rightarrow> string \<Rightarrow> ShardingProxy \<Rightarrow> 'w \<Rightarrow> (string \<times> 'w) option" where
  "handle_query md5 U Query query p w =
     map_option (\<lambda>(r, w'). (case r of Inl err \<Rightarrow> ''ERROR: '' @ err @ newline | Inr out \<Rightarrow> out, w'))
       (routeQuery md5 U Query query p w)"

section \<open>The rebalancer\<close>

text \<open>
  The migrations that were started; the map holds the position of the last one of a shard. The goroutine of a
  migration first takes the step \<open>begin_migration\<close> and later the step \<open>end_migration\<close>.
\<close>

record KeyRange =
  kr_Start :: string
  kr_End :: string

record MigrationStatus =
  ms_FromShard :: string
  ms_ToShard :: string
  ms_KeyRange :: KeyRange
  ms_Status :: string
  ms_Progress :: int
  ms_StartedAt :: gotime
  ms_CompletedAt :: "gotime option"
  ms_ErrorMessage :: string

record ShardRebalancer =
  sr_migrations :: "MigrationStatus list"
  sr_migrationStatus :: "(string, nat) gomap"

definition detectHotShards :: "ShardRebalancer \<Rightarrow> string list" where
  "detectHotShards r = []"

definition selectTargetShard :: "string \<Rightarrow> string" where
  "selectTargetShard fromShard = (if fromShard = ''shard1'' then ''shard2'' else ''shard1'')"

definition rebalanceShard :: "gotime \<Rightarrow> string \<Rightarrow> ShardRebalancer \<Rightarrow> goerror option \<times> ShardRebalancer" where
  "rebalanceShard now shardName r =
     (if (case map_of (sr_migrationStatus r) shardName of
            None \<Rightarrow> False | Some a \<Rightarrow> ms_Status (sr_migrations r ! a) = ''IN_PROGRESS'')
      then (Some (''migration already in progress for shard '' @ shardName), r)
      else (None,
            r\<lparr>sr_migrations := sr_migrations r @
                [\<lparr>ms_FromShard = shardName, ms_ToShard = selectTargetShard shardName,
                  ms_KeyRange = \<lparr>kr_Start = '''', kr_End = ''''\<rparr>, ms_Status = ''PENDING'', ms_Progress = 0,
                  ms_StartedAt = now, ms_CompletedAt = None, ms_ErrorMessage = ''''\<rparr>],
              sr_migrationStatus := go_set shardName (length (sr_migrations r)) (sr_migrationStatus r)\<rparr>))"

definition begin_migration :: "nat \<Rightarrow> ShardRebalancer \<Rightarrow> ShardRebalancer" where
  "begin_migration a r =
     r\<lparr>sr_migrations := (sr_migrations r)[a := (sr_migrations r ! a)\<lparr>ms_Status := ''IN_PROGRESS''\<rparr>]\<rparr>"

definition end_migration :: "gotime \<Rightarrow> nat \<Rightarrow> ShardRebalancer \<Rightarrow> ShardRebalancer" where
  "end_migration now a r =
     r\<lparr>sr_migrations := (sr_migrations r)[a := (sr_migrations r ! a)
         \<lparr>ms_Status := ''COMPLETED'', ms_CompletedAt := Some now, ms_Progress := 100\<rparr>]\<rparr>"

definition checkAndRebalance :: "gotime \<Rightarrow> ShardRebalancer \<Rightarrow> ShardRebalancer" where
  "checkAndRebalance now r = fold (\<lambda>shard r. snd (rebalanceShard now shard r)) (detectHotShards r) r"

section \<open>The bubble sort\<close>

lemma bubble_pass_max:
  assumes "length xs = Suc m"
  shows "\<exists>ys. bubble_pass m (xs @ zs) = ys @ Max (set xs) # zs \<and> mset (ys @ [Max (set xs)]) = mset xs"
  using assms
proof (induction m arbitrary: xs)
  case 0
  then obtain x where "xs = [x]" by (cases xs) auto
  then show ?case by simp
next
  case (Suc m)
  then obtain x y rest where xs: "xs = x # y # rest" by (metis length_Suc_conv)
  let ?lo = "min x y" and ?hi = "max x y"
  have pass: "bubble_pass (Suc m) (xs @ zs) = ?lo # bubble_pass m ((?hi # rest) @ zs)"
    by (auto simp: xs min_def max_def)
  from Suc.IH [of "?hi # rest"] Suc.prems obtain ys where
    ys: "bubble_pass m ((?hi # rest) @ zs) = ys @ Max (set (?hi # rest)) # zs"
      "mset (ys @ [Max (set (?hi # rest))]) = mset (?hi # rest)"
    by (auto simp: xs)
  have "Max (set (?hi # rest)) = Max (set xs)"
    by (cases "rest = []") (simp_all add: xs max.assoc)
  moreover have "mset (?lo # ?hi # rest) = mset xs" by (auto simp: xs min_def max_def add_mset_commute)
  ultimately show ?case
    using ys pass by (intro exI [of _ "?lo # ys"]) simp
qed

lemma bubble_rounds:
  assumes "i \<le> length xs"
  shows "\<exists>as bs. fold (\<lambda>i. bubble_pass (length xs - i - 1)) [0..<i] xs = as @ bs \<and> length bs = i \<and> sorted bs \<and>
    (\<forall>a \<in> set as. \<forall>b \<in> set bs. a \<le> b) \<and> mset (as @ bs) = mset xs"
  using assms
proof (induction i)
  case (Suc i)
  then obtain as bs where IH: "fold (\<lambda>i. bubble_pass (length xs - i - 1)) [0..<i] xs = as @ bs" "length bs = i" "sorted bs"
      "\<forall>a \<in> set as. \<forall>b \<in> set bs. a \<le> b" "mset (as @ bs) = mset xs"
    by auto
  from IH(5) have "length (as @ bs) = length xs" by (metis size_mset)
  then have len: "length as = Suc (length xs - i - 1)" using IH(2) Suc.prems by simp
  from bubble_pass_max [OF len, of bs] obtain ys where
    ys: "bubble_pass (length xs - i - 1) (as @ bs) = ys @ Max (set as) # bs" "mset (ys @ [Max (set as)]) = mset as"
    by blast
  have set: "set ys \<subseteq> set as" "Max (set as) \<in> set as" using mset_eq_setD [OF ys(2)] by auto
  have "\<forall>y \<in> set ys. y \<le> Max (set as)" using set by auto
  moreover have "sorted (Max (set as) # bs)" using IH(3,4) set(2) by simp
  moreover have "mset (ys @ Max (set as) # bs) = mset xs" using IH(5) by (simp flip: ys(2))
  ultimately show ?case
    using IH(1,2,4) ys(1) set(1) by (intro exI [of _ ys] exI [of _ "Max (set as) # bs"]) auto
qed simp

lemma bubble_sort_sorts: "bubble_sort xs = sort xs"
proof (cases xs)
  case (Cons x rest)
  let ?n = "length xs"
  obtain as bs where r: "fold (\<lambda>i. bubble_pass (?n - i - 1)) [0..<?n - 1] xs = as @ bs" "length bs = ?n - 1" "sorted bs"
      "\<forall>a \<in> set as. \<forall>b \<in> set bs. a \<le> b" "mset (as @ bs) = mset xs"
    using bubble_rounds [of "?n - 1" xs] by auto
  from r(5) have "length (as @ bs) = ?n" by (metis size_mset)
  then obtain a where "as = [a]" using r(2) Cons by (cases as) auto
  then have "sorted (as @ bs)" using r(3,4) by simp
  then show ?thesis
    using r(1,5) properties_for_sort [of "as @ bs" xs] by (simp add: bubble_sort_def Let_def)
qed (simp add: bubble_sort_def)

section \<open>Lookup on the ring\<close>

text \<open>The first position at or after \<open>h\<close>, or the first of all.\<close>

definition successor :: "uint32 set \<Rightarrow> uint32 \<Rightarrow> uint32" where
  "successor K h = (if \<exists>k \<in> K. h \<le> k then Min {k \<in> K. h \<le> k} else Min K)"

definition ring_wf :: "ConsistentHashRing \<Rightarrow> bool" where
  "ring_wf c \<longleftrightarrow> sorted (hr_sortedKeys c) \<and> set (hr_sortedKeys c) = dom (map_of (hr_ring c))"

lemma sorted_find:
  assumes "sorted ks" "find (\<lambda>k. h \<le> k) ks = Some k"
  shows "k = Min {x \<in> set ks. h \<le> x} \<and> k \<in> set ks \<and> h \<le> k"
  using assms
proof (induction ks)
  case (Cons x ks)
  show ?case
  proof (cases "h \<le> x")
    case True
    then have "k = x" using Cons.prems by simp
    moreover have "Min {y \<in> set (x # ks). h \<le> y} = x" using Cons.prems True by (intro Min_eqI) auto
    ultimately show ?thesis using True by simp
  next
    case False
    then have "{y \<in> set (x # ks). h \<le> y} = {y \<in> set ks. h \<le> y}" by auto
    moreover have "k = Min {y \<in> set ks. h \<le> y} \<and> k \<in> set ks \<and> h \<le> k"
      by (rule Cons.IH) (use Cons.prems False in simp_all)
    ultimately show ?thesis by (metis list.set_intros(2))
  qed
qed simp

lemma GetNode_successor:
  assumes "sorted (hr_sortedKeys c)" "hr_sortedKeys c \<noteq> []" "hr_ring c \<noteq> []"
  shows "GetNode md5 key c = Some (go_get '''' (hr_ring c) (successor (set (hr_sortedKeys c)) (ring_hash md5 key)))"
proof -
  let ?h = "ring_hash md5 key" and ?ks = "hr_sortedKeys c"
  obtain k ks where ks: "?ks = k # ks" using assms(2) by (cases ?ks) auto
  show ?thesis
  proof (cases "find (\<lambda>k. ?h \<le> k) ?ks")
    case None
    moreover have "Min (set ?ks) = k" using assms(1) unfolding ks by (intro Min_eqI) auto
    moreover have "successor (set ?ks) ?h = Min (set ?ks)" using None by (simp add: successor_def find_None_iff)
    ultimately show ?thesis using assms(3) ks by (simp add: GetNode_def Let_def)
  next
    case (Some x)
    from sorted_find [OF assms(1) Some] Some show ?thesis
      using assms(3) by (auto simp: GetNode_def successor_def Let_def)
  qed
qed

lemma successor_in: "finite K \<Longrightarrow> K \<noteq> {} \<Longrightarrow> successor K h \<in> K"
  using Min_in [of "{k \<in> K. h \<le> k}"] by (auto simp: successor_def)

text \<open>New positions only take over what they now precede.\<close>

lemma successor_union:
  assumes "finite A" "finite K" "K \<noteq> {}"
  shows "successor (K \<union> A) h \<in> A \<or> successor (K \<union> A) h = successor K h"
proof -
  have fin: "finite {k \<in> K \<union> A. h \<le> k}" "finite {k \<in> K. h \<le> k}" using assms by simp_all
  show ?thesis
  proof (cases "\<exists>k \<in> K \<union> A. h \<le> k")
    case True
    have "Min {k \<in> K \<union> A. h \<le> k} \<in> {k \<in> K \<union> A. h \<le> k}" by (rule Min_in [OF fin(1)]) (use True in auto)
    moreover have "successor (K \<union> A) h = Min {k \<in> K \<union> A. h \<le> k}" using True by (simp add: successor_def)
    ultimately have m: "successor (K \<union> A) h \<in> {k \<in> K \<union> A. h \<le> k}" "\<forall>k \<in> {k \<in> K \<union> A. h \<le> k}. successor (K \<union> A) h \<le> k"
      using Min_le [OF fin(1)] by auto
    show ?thesis
    proof (cases "successor (K \<union> A) h \<in> A")
      case False
      then have K: "successor (K \<union> A) h \<in> {k \<in> K. h \<le> k}" using m(1) by blast
      then have "Min {k \<in> K. h \<le> k} = successor (K \<union> A) h" using m(2) fin(2) by (intro Min_eqI) auto
      with K show ?thesis by (auto simp: successor_def)
    qed simp
  next
    case False
    then have s: "successor (K \<union> A) h = Min (K \<union> A)" "successor K h = Min K" by (auto simp: successor_def)
    have "Min (K \<union> A) \<in> K \<union> A" using assms by (intro Min_in) auto
    moreover have "Min (K \<union> A) = Min K" if "Min (K \<union> A) \<in> K"
      using that assms by (intro antisym Min_le Min_antimono) auto
    ultimately show ?thesis using s by auto
  qed
qed

section \<open>Adding and removing nodes\<close>

lemma fold_add_fields:
  "hr_ring (fold (\<lambda>key c. c\<lparr>hr_ring := go_set key node (hr_ring c), hr_sortedKeys := hr_sortedKeys c @ [key]\<rparr>) ks c) =
     fold (\<lambda>key. go_set key node) ks (hr_ring c)"
  "hr_sortedKeys (fold (\<lambda>key c. c\<lparr>hr_ring := go_set key node (hr_ring c), hr_sortedKeys := hr_sortedKeys c @ [key]\<rparr>) ks c) =
     hr_sortedKeys c @ ks"
  "hr_replicas (fold (\<lambda>key c. c\<lparr>hr_ring := go_set key node (hr_ring c), hr_sortedKeys := hr_sortedKeys c @ [key]\<rparr>) ks c) =
     hr_replicas c"
  by (induction ks arbitrary: c) simp_all

lemma ring_AddNode_fields:
  "hr_ring (ring_AddNode md5 node c) = fold (\<lambda>key. go_set key node) (positions md5 node (hr_replicas c)) (hr_ring c)"
  "hr_sortedKeys (ring_AddNode md5 node c) = sort (hr_sortedKeys c @ positions md5 node (hr_replicas c))"
  "hr_replicas (ring_AddNode md5 node c) = hr_replicas c"
  by (simp_all add: ring_AddNode_def Let_def sortKeys_def fold_add_fields bubble_sort_sorts)

lemma map_of_fold_node:
  "map_of (fold (\<lambda>key. go_set key node) ks m) k = (if k \<in> set ks then Some node else map_of m k)"
  by (induction ks arbitrary: m) (auto simp: go_map_simps)

lemma ring_AddNode_map:
  "map_of (hr_ring (ring_AddNode md5 node c)) k =
     (if k \<in> set (positions md5 node (hr_replicas c)) then Some node else map_of (hr_ring c) k)"
  by (simp add: ring_AddNode_fields(1) map_of_fold_node)

lemma ring_AddNode_wf: "ring_wf c \<Longrightarrow> ring_wf (ring_AddNode md5 node c)"
  by (auto simp: ring_wf_def ring_AddNode_fields(2) dom_def ring_AddNode_map split: if_splits)

abbreviation build_ring :: "(string \<Rightarrow> 8 word list) \<Rightarrow> int \<Rightarrow> string list \<Rightarrow> ConsistentHashRing" where
  "build_ring md5 r nodes \<equiv> fold (ring_AddNode md5) nodes (NewConsistentHashRing r)"

lemma build_replicas: "hr_replicas (build_ring md5 r nodes) = r"
proof -
  have "hr_replicas (fold (ring_AddNode md5) nodes c) = hr_replicas c" for c
    by (induction nodes arbitrary: c) (simp_all add: ring_AddNode_fields)
  then show ?thesis by (simp add: NewConsistentHashRing_def)
qed

lemma build_wf: "ring_wf (build_ring md5 r nodes)"
proof -
  have "ring_wf c \<Longrightarrow> ring_wf (fold (ring_AddNode md5) nodes c)" for c
    by (induction nodes arbitrary: c) (simp_all add: ring_AddNode_wf)
  then show ?thesis by (simp add: ring_wf_def NewConsistentHashRing_def)
qed

lemma build_owners:
  assumes "map_of (hr_ring (build_ring md5 r nodes)) k = Some n"
  shows "n \<in> set nodes"
proof -
  have "map_of (hr_ring (fold (ring_AddNode md5) ns c)) k = Some n \<Longrightarrow> n \<in> set ns \<or> map_of (hr_ring c) k = Some n" for ns c
    by (induction ns arbitrary: c) (fastforce simp: ring_AddNode_map split: if_splits)+
  from this [OF assms] show ?thesis by (simp add: NewConsistentHashRing_def)
qed

lemma positions_nonempty: "0 < r \<Longrightarrow> positions md5 node r \<noteq> []"
  by (simp add: positions_def)

lemma build_nonempty:
  assumes "0 < r" "nodes \<noteq> []"
  shows "hr_ring (build_ring md5 r nodes) \<noteq> []" "hr_sortedKeys (build_ring md5 r nodes) \<noteq> []"
proof -
  obtain ns n where nodes: "nodes = ns @ [n]" using assms(2) by (metis rev_exhaust)
  obtain k where "k \<in> set (positions md5 n r)" using positions_nonempty [OF assms(1)] by (metis list.set_sel(1))
  then have "map_of (hr_ring (build_ring md5 r nodes)) k = Some n"
    by (simp add: nodes ring_AddNode_map build_replicas)
  then show "hr_ring (build_ring md5 r nodes) \<noteq> []" "hr_sortedKeys (build_ring md5 r nodes) \<noteq> []"
    using build_wf [of md5 nodes r] by (auto simp: ring_wf_def)
qed

lemma GetNode_wf:
  assumes "ring_wf c" "hr_ring c \<noteq> []"
  shows "GetNode md5 key c = map_of (hr_ring c) (successor (dom (map_of (hr_ring c))) (ring_hash md5 key))"
proof -
  have dom: "dom (map_of (hr_ring c)) \<noteq> {}" using assms(2) by (auto simp: dom_map_of_conv_image_fst)
  have "set (hr_sortedKeys c) \<noteq> {}" using assms(1) dom unfolding ring_wf_def by simp
  then have ks: "hr_sortedKeys c \<noteq> []" by simp
  from successor_in [OF finite_dom_map_of dom]
  obtain n where "map_of (hr_ring c) (successor (dom (map_of (hr_ring c))) (ring_hash md5 key)) = Some n" by blast
  then show ?thesis
    using GetNode_successor [of c md5 key] assms ks by (simp add: ring_wf_def go_get_def)
qed

lemma ring_AddNode_lookup:
  assumes "ring_wf c" "hr_ring c \<noteq> []"
  shows "GetNode md5 key (ring_AddNode md5 node c) = Some node \<or> GetNode md5 key (ring_AddNode md5 node c) = GetNode md5 key c"
proof -
  let ?P = "set (positions md5 node (hr_replicas c))" and ?h = "ring_hash md5 key" and ?K = "dom (map_of (hr_ring c))"
  have dom: "dom (map_of (hr_ring (ring_AddNode md5 node c))) = ?K \<union> ?P" by (auto simp: dom_def ring_AddNode_map)
  have "?K \<noteq> {}" using assms(2) by (auto simp: dom_map_of_conv_image_fst)
  from successor_union [OF _ finite_dom_map_of this, of ?P ?h]
  have s: "successor (?K \<union> ?P) ?h \<in> ?P \<or> successor (?K \<union> ?P) ?h = successor ?K ?h" by simp
  have "hr_ring (ring_AddNode md5 node c) \<noteq> []" using \<open>?K \<noteq> {}\<close> dom by fastforce
  from GetNode_wf [OF ring_AddNode_wf [OF assms(1)] this] GetNode_wf [OF assms] s show ?thesis
    unfolding dom by (auto simp: ring_AddNode_map)
qed

lemma ring_RemoveNode_fields:
  assumes "node \<noteq> ''''" "\<And>k. map_of (hr_ring c) k = Some node \<Longrightarrow> k \<in> set (positions md5 node (hr_replicas c))"
  shows "map_of (hr_ring (ring_RemoveNode md5 node c)) k =
      (if k \<in> set (positions md5 node (hr_replicas c)) then None else map_of (hr_ring c) k)"
    "hr_sortedKeys (ring_RemoveNode md5 node c) = hr_sortedKeys c"
proof -
  show m: "map_of (hr_ring (ring_RemoveNode md5 node c)) k =
      (if k \<in> set (positions md5 node (hr_replicas c)) then None else map_of (hr_ring c) k)" for k
    by (simp add: ring_RemoveNode_def Let_def map_of_fold_del)
  have "go_get '''' (hr_ring (ring_RemoveNode md5 node c)) key \<noteq> node" for key
    using assms by (auto simp: go_get_def m split: option.split)
  then show "hr_sortedKeys (ring_RemoveNode md5 node c) = hr_sortedKeys c"
    by (simp add: ring_RemoveNode_def Let_def)
qed

section \<open>Routing without keys\<close>

lemma key_after_upper:
  assumes "\<not> list_ex lower_letter query" "list_ex lower_letter column"
  shows "key_after U column query = None"
  using assms Contains_set [of query column] by (auto simp: key_after_def list_ex_iff)

lemma no_sharding_key: "\<not> list_ex lower_letter query \<Longrightarrow> extractShardingKey U query = ''''"
proof -
  have "list_ex lower_letter ''user_id''" "list_ex lower_letter ''sku''" by code_simp+
  then show "\<not> list_ex lower_letter query \<Longrightarrow> ?thesis"
    by (simp add: extractShardingKey_def key_after_upper)
qed


section \<open>Properties\<close>

text \<open>
  The bubble sort of \<open>sortKeys\<close> sorts: it leaves the positions the library's sort leaves, duplicates included, and
  changes nothing else of the ring.
\<close>

theorem sortKeys_sorts: "sortKeys c = c\<lparr>hr_sortedKeys := sort (hr_sortedKeys c)\<rparr>"
  by (simp add: sortKeys_def bubble_sort_sorts)

text \<open>
  C16: On a ring of at least one replica to which nodes were added, \<open>GetNode\<close> returns the node that owns the first
  position at or after the hash of the key, or the first position of all, and this is one of the nodes that were added;
  adding another node, colliding positions or not, leaves the key where it was or moves it to the new node.
\<close>

theorem ring_consistent_hashing:
  assumes "0 < replicas" "nodes \<noteq> []"
  shows "\<exists>n \<in> set nodes. let c = fold (ring_AddNode md5) nodes (NewConsistentHashRing replicas) in
    map_of (hr_ring c) (successor (dom (map_of (hr_ring c))) (ring_hash md5 key)) = Some n \<and>
    GetNode md5 key c = Some n \<and>
    GetNode md5 key (ring_AddNode md5 node c) \<in> {Some n, Some node}"
proof -
  let ?c = "build_ring md5 replicas nodes"
  have ne: "hr_ring ?c \<noteq> []" by (rule build_nonempty(1) [OF assms])
  then have "dom (map_of (hr_ring ?c)) \<noteq> {}" by (auto simp: dom_map_of_conv_image_fst)
  from successor_in [OF finite_dom_map_of this, of "ring_hash md5 key"] obtain n where
    n: "map_of (hr_ring ?c) (successor (dom (map_of (hr_ring ?c))) (ring_hash md5 key)) = Some n" by blast
  have "GetNode md5 key ?c = Some n" using GetNode_wf [OF build_wf ne] n by simp
  moreover from this have "GetNode md5 key (ring_AddNode md5 node ?c) \<in> {Some n, Some node}"
    using ring_AddNode_lookup [OF build_wf ne, of md5 key node] by auto
  ultimately show ?thesis
    using n build_owners [OF n] by (intro bexI [of _ n]) (simp_all add: Let_def)
qed

text \<open>A digest for the examples: the first byte of the name, then zeros.\<close>

definition sample_md5 :: "string \<Rightarrow> 8 word list" where
  "sample_md5 s = word_of_nat (of_char (hd s)) # replicate 15 0"

theorem ring_consistent_hashing_witness:
  "GetNode sample_md5 ''k'' (fold (ring_AddNode sample_md5) [''shard1''] (NewConsistentHashRing 3)) = Some ''shard1''"
  using ring_consistent_hashing [of 3 "[''shard1'']" sample_md5 "''k''"] by (simp add: Let_def)

lemma ring_RemoveNode_lookup:
  assumes "ring_wf c" "hr_ring c \<noteq> []" "node \<noteq> ''''"
    and owned: "\<And>k. map_of (hr_ring c) k = Some node \<longleftrightarrow> k \<in> set (positions md5 node (hr_replicas c))"
  shows "GetNode md5 key (ring_RemoveNode md5 node c) =
    (if GetNode md5 key c = Some node then Some '''' else GetNode md5 key c)"
proof -
  let ?P = "set (positions md5 node (hr_replicas c))" and ?c = "ring_RemoveNode md5 node c"
  let ?s = "successor (dom (map_of (hr_ring c))) (ring_hash md5 key)"
  have fields: "map_of (hr_ring ?c) k = (if k \<in> ?P then None else map_of (hr_ring c) k)"
      "hr_sortedKeys ?c = hr_sortedKeys c" for k
    by (rule ring_RemoveNode_fields [OF assms(3)], simp add: owned)+
  have dom: "dom (map_of (hr_ring c)) \<noteq> {}" using assms(2) by (auto simp: dom_map_of_conv_image_fst)
  from successor_in [OF finite_dom_map_of dom, of "ring_hash md5 key"] obtain n where
    n: "map_of (hr_ring c) ?s = Some n" by blast
  have old: "GetNode md5 key c = Some n" using GetNode_wf [OF assms(1,2)] n by simp
  have ks: "sorted (hr_sortedKeys ?c)" "set (hr_sortedKeys ?c) = dom (map_of (hr_ring c))"
    using assms(1) by (simp_all add: ring_wf_def fields(2))
  show ?thesis
  proof (cases "hr_ring ?c = []")
    case True
    then have "?s \<in> ?P" using fields(1) [of ?s] n by (simp split: if_splits)
    then have "n = node" using owned [of ?s] n by simp
    with True old show ?thesis by (simp add: GetNode_def)
  next
    case False
    have "set (hr_sortedKeys ?c) \<noteq> {}" unfolding ks(2) by (rule dom)
    then have "hr_sortedKeys ?c \<noteq> []" by simp
    from GetNode_successor [OF ks(1) this False, of md5 key]
    have "GetNode md5 key ?c = Some (go_get '''' (hr_ring ?c) ?s)" unfolding ks(2) .
    then show ?thesis using old n owned [of ?s] by (simp add: go_get_def fields(1))
  qed
qed

lemma build_owned:
  assumes "node \<in> set nodes" "\<And>n. n \<in> set nodes \<Longrightarrow> n \<noteq> node \<Longrightarrow> set (positions md5 n r) \<inter> set (positions md5 node r) = {}"
  shows "map_of (hr_ring (build_ring md5 r nodes)) k = Some node \<longleftrightarrow> k \<in> set (positions md5 node r)"
  using assms
proof (induction nodes rule: rev_induct)
  case (snoc n ns)
  have empty: "map_of (hr_ring (build_ring md5 r ns)) k \<noteq> Some node" if "node \<notin> set ns"
    using build_owners [of md5 ns r k node] that by auto
  show ?case
    using snoc empty by (cases "n = node"; cases "node \<in> set ns") (auto simp: ring_AddNode_map build_replicas)
qed simp

text \<open>
  \<open>RemoveNode\<close> filters the sorted positions by the ring from which the node was just deleted, so that all of them
  stay: after the removal of a node whose positions no other node shares, the keys of the node get the empty name, which no
  shard has, instead of a remaining node; the other keys keep their node.
\<close>

theorem removed_node_leaves_holes:
  assumes "0 < replicas" "node \<in> set nodes" "node \<noteq> ''''"
    and "\<And>n. n \<in> set nodes \<Longrightarrow> n \<noteq> node \<Longrightarrow>
      set (positions md5 n replicas) \<inter> set (positions md5 node replicas) = {}"
  shows "let c = fold (ring_AddNode md5) nodes (NewConsistentHashRing replicas); c' = ring_RemoveNode md5 node c in
    hr_sortedKeys c' = hr_sortedKeys c \<and>
    GetNode md5 key c' = (if GetNode md5 key c = Some node then Some '''' else GetNode md5 key c)"
proof -
  let ?c = "build_ring md5 replicas nodes"
  have owned: "map_of (hr_ring ?c) k = Some node \<longleftrightarrow> k \<in> set (positions md5 node (hr_replicas ?c))" for k
    unfolding build_replicas by (rule build_owned [OF assms(2,4)])
  have "nodes \<noteq> []" using assms(2) by auto
  then have "hr_ring ?c \<noteq> []" by (rule build_nonempty(1) [OF assms(1)])
  from ring_RemoveNode_lookup [OF build_wf this assms(3) owned] ring_RemoveNode_fields(2) [OF assms(3), of ?c md5] owned
  show ?thesis by (simp add: Let_def)
qed

theorem removed_node_leaves_holes_witness:
  "GetNode sample_md5 ''a'' (ring_RemoveNode sample_md5 ''a'' (ring_AddNode sample_md5 ''b'' (ring_AddNode sample_md5 ''a'' (NewConsistentHashRing 1)))) =
     Some '''' \<and> ''a'' \<noteq> ''b''"
proof -
  have old: "GetNode sample_md5 ''a'' (ring_AddNode sample_md5 ''b'' (ring_AddNode sample_md5 ''a'' (NewConsistentHashRing 1))) = Some ''a''"
    by code_simp
  have disj: "set (positions sample_md5 ''b'' 1) \<inter> set (positions sample_md5 ''a'' 1) = {}" by code_simp
  show ?thesis
    using removed_node_leaves_holes [of 1 "''a''" "[''a'', ''b'']" sample_md5 "''a''"] old disj
    by (simp add: Let_def)
qed

text \<open>
  No query is routed to the shard of its key: \<open>routeQuery\<close> puts the query in upper case and \<open>extractShardingKey\<close>
  looks for \<open>user_id\<close> and \<open>sku\<close> in lower case. A \<open>SELECT\<close> goes to the replica or the primary, an \<open>INSERT\<close> to the primary,
  an \<open>UPDATE\<close> or \<open>DELETE\<close> to every shard and never to the primary, where the inserted rows are.
\<close>

theorem queries_never_sharded:
  assumes "unicode_laws U"
  shows "routeQuery md5 U Query q p w =
    (let query = strings_TrimSpace U (strings_ToUpper U q) in
     Some (if prefix ''SELECT'' query \<and> isAnalyticalQuery query then executeOnReplica Query query w
           else if prefix ''UPDATE'' query \<or> prefix ''DELETE'' query then executeOnAllShards Query query p w
           else executeOnPrimary Query query w))"
proof -
  let ?q = "strings_TrimSpace U (strings_ToUpper U q)"
  have "\<not> list_ex lower_letter ?q"
    using ToUpper_no_lower [OF assms, of q] TrimSpace_set [OF assms, of "strings_ToUpper U q"] by (auto simp: list_ex_iff)
  then have key: "extractShardingKey U ?q = ''''" by (rule no_sharding_key)
  have "\<not> (prefix ''SELECT'' ?q \<and> prefix ''UPDATE'' ?q)" "\<not> (prefix ''SELECT'' ?q \<and> prefix ''DELETE'' ?q)"
    "\<not> (prefix ''INSERT'' ?q \<and> prefix ''UPDATE'' ?q)" "\<not> (prefix ''INSERT'' ?q \<and> prefix ''DELETE'' ?q)"
    by (auto dest: prefix_heads)
  then show ?thesis
    unfolding routeQuery_def Let_def routeSelectQuery_def routeInsertQuery_def routeUpdateQuery_def
      routeDeleteQuery_def extractShardingKeyFromInsert_def key
    by (simp only: if_cancel not_True_eq_False refl if_False split: if_split) blast
qed

text \<open>String functions for the examples, which strip what is not ASCII.\<close>

definition sample_unicode :: UnicodeOps where
  "sample_unicode = \<lparr>ux_ToUpper = filter (\<lambda>c. \<not> lower_letter c), ux_ToLower = (\<lambda>s. s), ux_TrimSpace = (\<lambda>s. s)\<rparr>"

theorem queries_never_sharded_witness:
  "unicode_laws sample_unicode \<and>
   routeQuery sample_md5 sample_unicode (\<lambda>t q w. (None, w @ [t])) ''update users set a = 1 where user_id = 'k''
     (NewShardingProxy sample_md5) [] =
   Some (Inr (''Executed on shard1'' @ newline @ ''Executed on shard2'' @ newline), [Shard ''shard1'', Shard ''shard2''])"
proof -
  have laws: "unicode_laws sample_unicode" by (auto simp: unicode_laws_def sample_unicode_def list_ex_iff)
  have eval: "(let query = strings_TrimSpace sample_unicode (strings_ToUpper sample_unicode ''update users set a = 1 where user_id = 'k'') in
     Some (if prefix ''SELECT'' query \<and> isAnalyticalQuery query
           then executeOnReplica (\<lambda>t q w. (None, w @ [t])) query []
           else if prefix ''UPDATE'' query \<or> prefix ''DELETE'' query
           then executeOnAllShards (\<lambda>t q w. (None, w @ [t])) query (NewShardingProxy sample_md5) []
           else executeOnPrimary (\<lambda>t q w. (None, w @ [t])) query [])) =
    Some (Inr (''Executed on shard1'' @ newline @ ''Executed on shard2'' @ newline), [Shard ''shard1'', Shard ''shard2''])"
    by code_simp
  show ?thesis
    unfolding queries_never_sharded [OF laws] using laws eval by (intro conjI)
qed

section \<open>The rebalancer\<close>

lemma checkAndRebalance_idle: "checkAndRebalance now r = r"
  by (simp add: checkAndRebalance_def detectHotShards_def)

text \<open>
  A migration that was started and has not taken its first step is \<open>PENDING\<close>, which the guard of \<open>rebalanceShard\<close> does
  not know: a second call starts a second migration of the shard, and both are then in progress.
\<close>

lemma two_migrations_of_one_shard:
  assumes "map_of (sr_migrationStatus r) shard = None"
  shows "let (e1, r1) = rebalanceShard t1 shard r; (e2, r2) = rebalanceShard t2 shard r1;
      n = length (sr_migrations r); r3 = begin_migration (n + 1) (begin_migration n r2)
    in e1 = None \<and> e2 = None \<and> length (sr_migrations r3) = n + 2 \<and>
       (let a = sr_migrations r3 ! n; b = sr_migrations r3 ! (n + 1)
        in ms_Status a = ''IN_PROGRESS'' \<and> ms_Status b = ''IN_PROGRESS'' \<and> ms_FromShard a = shard \<and> ms_FromShard b = shard)"
  using assms by (simp add: rebalanceShard_def begin_migration_def go_map_simps nth_append Let_def)

text \<open>Once a migration runs, the guard refuses another one of its shard until it is complete.\<close>

lemma running_migration_blocks:
  assumes "map_of (sr_migrationStatus r) shard = Some a" "a < length (sr_migrations r)"
  shows "rebalanceShard t shard (begin_migration a r) =
      (Some (''migration already in progress for shard '' @ shard), begin_migration a r)"
    "fst (rebalanceShard t shard (end_migration t' a r)) = None"
  using assms by (simp_all add: rebalanceShard_def begin_migration_def end_migration_def)

end
