(* ===== verification/Event_Ingestion.thy ===== *)
theory Event_Ingestion
  imports Go_Env "HOL-Library.Sublist" "HOL-Library.Multiset"
begin

text \<open>
  The ingestion of regulatory events, \<open>regtech-automated-reporting/services/event-ingestion/event_ingestion.go\<close>:
  events of one entity form a chain in which each event carries the hash of the one before it.

  The table, the Redis cache and audit list and the Kafka topic are fields of \<open>IngestionWorld\<close>; \<open>iw_fails\<close> is the
  schedule of its external calls, the error of the next call or none. The record \<open>EventCodec\<close> has what is not in the
  repository or not decided by the code: the digest, the JSON encoder and decoder, the layout of an instant, and what the
  database gives back for an instant and for a JSON document that were stored. Instants have no location: they are in UTC, as are
  those that the database gives back. A row has the columns of its event with
  the event data as text. Rows with equal timestamps are read in the order of insertion when ascending; no
  lemma depends on it. The \<open>Scan\<close> of a row of the table does not fail.

  The lemmas show that events submitted in the order of their timestamps keep every chain valid, that a submission
  with an earlier timestamp breaks the chain of its entity, and that two valid chains with the same last hash have
  the same events.
\<close>

section \<open>Events\<close>

record 'd RegulatoryEvent =
  re_ID :: string
  re_EventType :: string
  re_Timestamp :: gotime
  re_Source :: string
  re_EntityID :: string
  re_Jurisdiction :: string
  re_EventData :: 'd
  re_SchemaVersion :: string
  re_Hash :: string
  re_PreviousHash :: string
  re_CreatedAt :: gotime

type_synonym event_data = "jobject option"
type_synonym event = "event_data RegulatoryEvent"
type_synonym event_row = "string RegulatoryEvent"

record EventSubmissionRequest =
  sq_EventType :: string
  sq_Source :: string
  sq_EntityID :: string
  sq_Jurisdiction :: string
  sq_EventData :: event_data
  sq_Timestamp :: "gotime option"

record EventCodec =
  cd_sha256hex :: "string \<Rightarrow> string"
  cd_Format :: "gotime \<Rightarrow> string"
  cd_Marshal :: "event_data \<Rightarrow> goerror + string"
  cd_Unmarshal :: "string \<Rightarrow> goerror + event_data"
  cd_MarshalEvent :: "event \<Rightarrow> goerror + string"
  cd_UnmarshalEvent :: "string \<Rightarrow> goerror + event"
  cd_stored_time :: "gotime \<Rightarrow> gotime"
  cd_stored_json :: "string \<Rightarrow> string"

record KafkaEvent =
  ke_Key :: string
  ke_Value :: string
  ke_Headers :: "(string \<times> string) list"

record AuditEvent =
  au_EventType :: string
  au_EventID :: string
  au_UserID :: string
  au_Timestamp :: int
  au_Details :: jobject

record IngestionWorld =
  iw_clock :: gotime
  iw_table :: "event_row list"
  iw_cache :: "(string, string \<times> gotime) gomap"
  iw_kafka :: "KafkaEvent list"
  iw_audit :: "AuditEvent list"
  iw_fails :: "goerror option list"

definition ingest_call :: "IngestionWorld \<Rightarrow> goerror option \<times> IngestionWorld" where
  "ingest_call w = (case iw_fails w of [] \<Rightarrow> (None, w) | e # es \<Rightarrow> (e, w\<lparr>iw_fails := es\<rparr>))"

section \<open>Hashes\<close>

definition serializeEventData :: "EventCodec \<Rightarrow> event_data \<Rightarrow> string" where
  "serializeEventData C d = (case cd_Marshal C d of Inl _ \<Rightarrow> '''' | Inr s \<Rightarrow> s)"

definition hashInput :: "EventCodec \<Rightarrow> event \<Rightarrow> string" where
  "hashInput C e = strings_Join CHR ''|''
     [re_ID e, re_EventType e, cd_Format C (re_Timestamp e), re_Source e, re_EntityID e, re_Jurisdiction e,
      re_PreviousHash e, serializeEventData C (re_EventData e)]"

definition calculateEventHash :: "EventCodec \<Rightarrow> event \<Rightarrow> string" where
  "calculateEventHash C e = cd_sha256hex C (hashInput C e)"

section \<open>Submission\<close>

definition requiredFields :: "(string, string list) gomap" where
  "requiredFields =
     [(''TRADE_EXECUTION'', [''trade_id'', ''instrument'', ''quantity'', ''price'']),
      (''ORDER_PLACEMENT'', [''order_id'', ''instrument'', ''quantity'', ''order_type'']),
      (''SETTLEMENT'', [''settlement_id'', ''trade_id'', ''amount'', ''currency'']),
      (''COMPLIANCE_BREACH'', [''breach_type'', ''severity'', ''description''])]"

definition data_field :: "event_data \<Rightarrow> string \<Rightarrow> json option" where
  "data_field d k = (case d of None \<Rightarrow> None | Some m \<Rightarrow> map_of m k)"

definition validateEventData :: "string \<Rightarrow> event_data \<Rightarrow> goerror option" where
  "validateEventData eventType eventData =
     (case map_of requiredFields eventType of
        None \<Rightarrow> None
      | Some required \<Rightarrow>
          map_option (\<lambda>field. ''required field '' @ [CHR 0x27] @ field @ [CHR 0x27] @ '' missing for event type '' @
              [CHR 0x27] @ eventType @ [CHR 0x27])
            (find (\<lambda>field. data_field eventData field = None) required))"

definition entity_rows :: "string \<Rightarrow> event_row list \<Rightarrow> event_row list" where
  "entity_rows entityID = filter (\<lambda>r. re_EntityID r = entityID)"

definition rows_asc :: "string \<Rightarrow> event_row list \<Rightarrow> event_row list" where
  "rows_asc entityID t = sort_key re_Timestamp (entity_rows entityID t)"

definition rows_desc :: "string \<Rightarrow> event_row list \<Rightarrow> event_row list" where
  "rows_desc entityID t = sort_key (\<lambda>r. - re_Timestamp r) (entity_rows entityID t)"

definition getLastEventHash :: "string \<Rightarrow> IngestionWorld \<Rightarrow> (goerror + string) \<times> IngestionWorld" where
  "getLastEventHash entityID w0 =
     (let (err, w) = ingest_call w0 in
      case err of
        Some e \<Rightarrow> (Inl e, w)
      | None \<Rightarrow> (Inr (case rows_desc entityID (iw_table w) of [] \<Rightarrow> '''' | r # _ \<Rightarrow> re_Hash r), w))"

definition to_row :: "EventCodec \<Rightarrow> string \<Rightarrow> event \<Rightarrow> event_row" where
  "to_row C json e =
     \<lparr>re_ID = re_ID e, re_EventType = re_EventType e, re_Timestamp = cd_stored_time C (re_Timestamp e),
      re_Source = re_Source e, re_EntityID = re_EntityID e, re_Jurisdiction = re_Jurisdiction e,
      re_EventData = cd_stored_json C json, re_SchemaVersion = re_SchemaVersion e, re_Hash = re_Hash e,
      re_PreviousHash = re_PreviousHash e, re_CreatedAt = cd_stored_time C (re_CreatedAt e)\<rparr>"

definition storeEvent :: "EventCodec \<Rightarrow> event \<Rightarrow> IngestionWorld \<Rightarrow> goerror option \<times> IngestionWorld" where
  "storeEvent C event w0 =
     (case cd_Marshal C (re_EventData event) of
        Inl e \<Rightarrow> (Some (''failed to marshal event data: '' @ e), w0)
      | Inr json \<Rightarrow>
          let (err, w) = ingest_call w0 in
          case err of
            Some e \<Rightarrow> (Some (''failed to insert event: '' @ e), w)
          | None \<Rightarrow> (None, w\<lparr>iw_table := iw_table w @ [to_row C json event]\<rparr>))"

definition ingest_publishEvent :: "EventCodec \<Rightarrow> event \<Rightarrow> IngestionWorld \<Rightarrow> goerror option \<times> IngestionWorld" where
  "ingest_publishEvent C event w0 =
     (case cd_MarshalEvent C event of
        Inl e \<Rightarrow> (Some (''failed to marshal event for Kafka: '' @ e), w0)
      | Inr json \<Rightarrow>
          let (err, w) = ingest_call w0 in
          case err of
            Some e \<Rightarrow> (Some e, w)
          | None \<Rightarrow>
              (None, w\<lparr>iw_kafka := iw_kafka w @
                 [\<lparr>ke_Key = re_EntityID event, ke_Value = json,
                   ke_Headers = [(''event_type'', re_EventType event), (''jurisdiction'', re_Jurisdiction event),
                                 (''schema_version'', re_SchemaVersion event)]\<rparr>]\<rparr>))"

text \<open>The encoder's error is dropped and the empty string cached; so is the error of Redis.\<close>

definition cache_event :: "EventCodec \<Rightarrow> string \<Rightarrow> event \<Rightarrow> IngestionWorld \<Rightarrow> IngestionWorld" where
  "cache_event C eventID event w0 =
     (let json = (case cd_MarshalEvent C event of Inl _ \<Rightarrow> '''' | Inr s \<Rightarrow> s);
          (err, w) = ingest_call w0
      in case err of
           Some _ \<Rightarrow> w
         | None \<Rightarrow> w\<lparr>iw_cache := go_set (''event:'' @ eventID) (json, iw_clock w + hour) (iw_cache w)\<rparr>)"

definition logAuditEvent :: "string \<Rightarrow> string \<Rightarrow> string \<Rightarrow> jobject \<Rightarrow> IngestionWorld \<Rightarrow> IngestionWorld" where
  "logAuditEvent eventType eventID userID details w0 =
     (let (err, w) = ingest_call w0 in
      case err of
        Some _ \<Rightarrow> w
      | None \<Rightarrow> w\<lparr>iw_audit :=
          \<lparr>au_EventType = eventType, au_EventID = eventID, au_UserID = userID, au_Timestamp = time_Unix (iw_clock w),
           au_Details = details\<rparr> # iw_audit w\<rparr>)"

definition new_event :: "string \<Rightarrow> EventSubmissionRequest \<Rightarrow> string \<Rightarrow> gotime \<Rightarrow> event" where
  "new_event eventID req previousHash now =
     \<lparr>re_ID = eventID, re_EventType = sq_EventType req,
      re_Timestamp = (case sq_Timestamp req of Some t \<Rightarrow> t | None \<Rightarrow> now),
      re_Source = sq_Source req, re_EntityID = sq_EntityID req, re_Jurisdiction = sq_Jurisdiction req,
      re_EventData = sq_EventData req, re_SchemaVersion = ''1.0'', re_Hash = '''', re_PreviousHash = previousHash,
      re_CreatedAt = now\<rparr>"

text \<open>\<open>eventID\<close> is the fresh identifier of \<open>uuid.New\<close>.\<close>

definition SubmitEvent ::
  "EventCodec \<Rightarrow> string \<Rightarrow> EventSubmissionRequest \<Rightarrow> string \<Rightarrow> IngestionWorld \<Rightarrow> (goerror + event) \<times> IngestionWorld" where
  "SubmitEvent C eventID req userID w0 =
     (case validateEventData (sq_EventType req) (sq_EventData req) of
        Some e \<Rightarrow> (Inl (''event validation failed: '' @ e), w0)
      | None \<Rightarrow>
          (case getLastEventHash (sq_EntityID req) w0 of
             (Inl e, w1) \<Rightarrow> (Inl (''failed to get previous hash: '' @ e), w1)
           | (Inr previousHash, w1) \<Rightarrow>
               let event0 = new_event eventID req previousHash (iw_clock w0);
                   event = event0\<lparr>re_Hash := calculateEventHash C event0\<rparr>
               in (case storeEvent C event w1 of
                     (Some e, w2) \<Rightarrow> (Inl (''failed to store event: '' @ e), w2)
                   | (None, w2) \<Rightarrow>
                       let (_, w3) = ingest_publishEvent C event w2;
                           w4 = cache_event C eventID event w3;
                           w5 = logAuditEvent ''EVENT_SUBMITTED'' eventID userID
                                  [(''event_type'', JStr (sq_EventType req)), (''entity_id'', JStr (sq_EntityID req)),
                                   (''jurisdiction'', JStr (sq_Jurisdiction req))] w4
                       in (Inr event, w5))))"

section \<open>Queries\<close>

text \<open>A row scanned into an event; the error is that of decoding its data.\<close>

definition scan_row :: "EventCodec \<Rightarrow> event_row \<Rightarrow> goerror + event" where
  "scan_row C r =
     (case cd_Unmarshal C (re_EventData r) of
        Inl e \<Rightarrow> Inl e
      | Inr d \<Rightarrow> Inr \<lparr>re_ID = re_ID r, re_EventType = re_EventType r, re_Timestamp = re_Timestamp r, re_Source = re_Source r,
          re_EntityID = re_EntityID r, re_Jurisdiction = re_Jurisdiction r, re_EventData = d,
          re_SchemaVersion = re_SchemaVersion r, re_Hash = re_Hash r, re_PreviousHash = re_PreviousHash r,
          re_CreatedAt = re_CreatedAt r\<rparr>)"

definition cached_event :: "EventCodec \<Rightarrow> string \<Rightarrow> IngestionWorld \<Rightarrow> event option \<times> IngestionWorld" where
  "cached_event C eventID w0 =
     (let (err, w) = ingest_call w0 in
      (case err of
         Some _ \<Rightarrow> None
       | None \<Rightarrow>
           (case map_of (iw_cache w) (''event:'' @ eventID) of
              None \<Rightarrow> None
            | Some (json, expires) \<Rightarrow>
                if iw_clock w \<ge> expires then None
                else (case cd_UnmarshalEvent C json of Inl _ \<Rightarrow> None | Inr e \<Rightarrow> Some e)), w))"

definition GetEvent :: "EventCodec \<Rightarrow> string \<Rightarrow> IngestionWorld \<Rightarrow> (goerror + event) \<times> IngestionWorld" where
  "GetEvent C eventID w0 =
     (case cached_event C eventID w0 of
        (Some event, w1) \<Rightarrow> (Inr event, w1)
      | (None, w1) \<Rightarrow>
          let (err, w2) = ingest_call w1 in
          case err of
            Some e \<Rightarrow> (Inl (''failed to get event: '' @ e), w2)
          | None \<Rightarrow>
              (case find (\<lambda>r. re_ID r = eventID) (iw_table w2) of
                 None \<Rightarrow> (Inl ''event not found'', w2)
               | Some r \<Rightarrow>
                   (case scan_row C r of
                      Inl e \<Rightarrow> (Inl (''failed to parse event data: '' @ e), w2)
                    | Inr event \<Rightarrow> (Inr event, cache_event C eventID event w2))))"

text \<open>
  The rows that \<open>rows.Next\<close> delivers: when the connection fails it answers false, as at the end of the rows, and no
  code asks \<open>rows.Err\<close>.
\<close>

fun delivered :: "event_row list \<Rightarrow> IngestionWorld \<Rightarrow> event_row list \<times> IngestionWorld" where
  "delivered [] w = ([], w)"
| "delivered (r # rs) w0 =
     (let (err, w) = ingest_call w0 in
      case err of
        Some _ \<Rightarrow> ([], w)
      | None \<Rightarrow> (let (rs', w') = delivered rs w in (r # rs', w')))"

definition query_rows :: "event_row list \<Rightarrow> IngestionWorld \<Rightarrow> (goerror + event_row list) \<times> IngestionWorld" where
  "query_rows rows w0 =
     (let (err, w) = ingest_call w0 in
      case err of
        Some e \<Rightarrow> (Inl e, w)
      | None \<Rightarrow> (let (rs, w') = delivered rows w in (Inr rs, w')))"

definition parsed_rows :: "EventCodec \<Rightarrow> event_row list \<Rightarrow> event list" where
  "parsed_rows C rows = concat (map (\<lambda>r. case scan_row C r of Inl _ \<Rightarrow> [] | Inr e \<Rightarrow> [e]) rows)"

definition GetEventsByEntity ::
  "EventCodec \<Rightarrow> string \<Rightarrow> int \<Rightarrow> int \<Rightarrow> IngestionWorld \<Rightarrow> (goerror + event list) \<times> IngestionWorld" where
  "GetEventsByEntity C entityID limit offset w0 =
     (if limit < 0 then (Inl ''failed to get events: pq: LIMIT must not be negative'', w0)
      else if offset < 0 then (Inl ''failed to get events: pq: OFFSET must not be negative'', w0)
      else case query_rows (take (nat limit) (drop (nat offset) (rows_desc entityID (iw_table w0)))) w0 of
             (Inl e, w) \<Rightarrow> (Inl (''failed to get events: '' @ e), w)
           | (Inr rows, w) \<Rightarrow> (Inr (parsed_rows C rows), w))"

fun verify_rows ::
  "EventCodec \<Rightarrow> string \<Rightarrow> event_row list \<Rightarrow> IngestionWorld \<Rightarrow> (goerror + bool) \<times> IngestionWorld" where
  "verify_rows C previousHash [] w = (Inr True, w)"
| "verify_rows C previousHash (r # rs) w0 =
     (let (err, w) = ingest_call w0 in
      case err of
        Some _ \<Rightarrow> (Inr True, w)
      | None \<Rightarrow>
          (case scan_row C r of
             Inl e \<Rightarrow> (Inl (''failed to parse event data: '' @ e), w)
           | Inr event \<Rightarrow>
               if re_PreviousHash event \<noteq> previousHash
               then (Inl (''hash chain broken at event '' @ re_ID event), w)
               else if calculateEventHash C event \<noteq> re_Hash event
               then (Inl (''event hash mismatch for event '' @ re_ID event), w)
               else verify_rows C (re_Hash event) rs w))"

definition VerifyEventChain :: "EventCodec \<Rightarrow> string \<Rightarrow> IngestionWorld \<Rightarrow> (goerror + bool) \<times> IngestionWorld" where
  "VerifyEventChain C entityID w0 =
     (let (err, w) = ingest_call w0 in
      case err of
        Some e \<Rightarrow> (Inl (''failed to get events for verification: '' @ e), w)
      | None \<Rightarrow> verify_rows C '''' (rows_asc entityID (iw_table w)) w)"

section \<open>Endpoints\<close>

text \<open>A status code and a body. What gin makes of the request body is an argument.\<close>

datatype IngestBody =
  BodyError string | BodyEvent event | BodyEvents "event list" | BodyChain string bool gotime | BodyHealth string string int

definition submitEventHandler ::
  "EventCodec \<Rightarrow> string \<Rightarrow> goerror + EventSubmissionRequest \<Rightarrow> string \<Rightarrow> IngestionWorld \<Rightarrow> (int \<times> IngestBody) \<times> IngestionWorld" where
  "submitEventHandler C eventID bound header w0 =
     (case bound of
        Inl err \<Rightarrow> ((400, BodyError err), w0)
      | Inr req \<Rightarrow>
          let userID = (if header = '''' then ''system'' else header) in
          (case SubmitEvent C eventID req userID w0 of
             (Inl err, w) \<Rightarrow> ((500, BodyError err), w)
           | (Inr event, w) \<Rightarrow> ((201, BodyEvent event), w)))"

definition getEventHandler :: "EventCodec \<Rightarrow> string \<Rightarrow> IngestionWorld \<Rightarrow> (int \<times> IngestBody) \<times> IngestionWorld" where
  "getEventHandler C eventID w0 =
     (case GetEvent C eventID w0 of
        (Inl err, w) \<Rightarrow>
          (if err = ''event not found'' then ((404, BodyError ''Event not found''), w) else ((500, BodyError err), w))
      | (Inr event, w) \<Rightarrow> ((200, BodyEvent event), w))"

text \<open>
  \<open>fmt.Sscanf\<close> with \<open>%d\<close> on ASCII strings: blanks, a sign, and the digits up to the first other character. \<open>None\<close> is
  an error.
\<close>

definition Sscanf_int :: "string \<Rightarrow> int option" where
  "Sscanf_int s0 =
     (let s = dropWhile (\<lambda>c. c \<in> {CHR '' '', CHR 0x09, CHR 0x0B, CHR 0x0C, CHR 0x0D}) s0;
          (neg, t) = (case s of c # cs \<Rightarrow> if c = CHR ''-'' then (True, cs) else if c = CHR ''+'' then (False, cs) else (False, s)
                      | [] \<Rightarrow> (False, s))
      in strconv_Atoi ((if neg then ''-'' else '''') @ takeWhile is_digit t))"

definition page_number :: "string \<Rightarrow> int \<Rightarrow> int" where
  "page_number q fallback = (if q = '''' then fallback else case Sscanf_int q of None \<Rightarrow> fallback | Some n \<Rightarrow> n)"

definition getEventsByEntityHandler ::
  "EventCodec \<Rightarrow> string \<Rightarrow> string \<Rightarrow> string \<Rightarrow> IngestionWorld \<Rightarrow> (int \<times> IngestBody) \<times> IngestionWorld" where
  "getEventsByEntityHandler C entityID limitQuery offsetQuery w0 =
     (case GetEventsByEntity C entityID (page_number limitQuery 100) (page_number offsetQuery 0) w0 of
        (Inl err, w) \<Rightarrow> ((500, BodyError err), w)
      | (Inr events, w) \<Rightarrow> ((200, BodyEvents events), w))"

definition verifyEventChainHandler :: "EventCodec \<Rightarrow> string \<Rightarrow> IngestionWorld \<Rightarrow> (int \<times> IngestBody) \<times> IngestionWorld" where
  "verifyEventChainHandler C entityID w0 =
     (case VerifyEventChain C entityID w0 of
        (Inl err, w) \<Rightarrow> ((500, BodyError err), w)
      | (Inr valid, w) \<Rightarrow> ((200, BodyChain entityID valid (iw_clock w)), w))"

definition ingest_healthCheckHandler :: "gotime \<Rightarrow> int \<times> IngestBody" where
  "ingest_healthCheckHandler now = (200, BodyHealth ''healthy'' ''event-ingestion'' (time_Unix now))"

section \<open>Chains of events\<close>

text \<open>A valid chain that starts after the hash \<open>prev\<close>, and the hash it ends with.\<close>

fun chain_ok :: "EventCodec \<Rightarrow> string \<Rightarrow> event list \<Rightarrow> bool" where
  "chain_ok C prev [] = True"
| "chain_ok C prev (e # es) =
     (re_PreviousHash e = prev \<and> calculateEventHash C e = re_Hash e \<and> chain_ok C (re_Hash e) es)"

definition end_hash :: "string \<Rightarrow> 'd RegulatoryEvent list \<Rightarrow> string" where
  "end_hash prev rs = (if rs = [] then prev else re_Hash (last rs))"

definition all_parse :: "EventCodec \<Rightarrow> event_row list \<Rightarrow> bool" where
  "all_parse C rs = list_all (\<lambda>r. case scan_row C r of Inl _ \<Rightarrow> False | Inr _ \<Rightarrow> True) rs"

definition valid_rows :: "EventCodec \<Rightarrow> string \<Rightarrow> event_row list \<Rightarrow> bool" where
  "valid_rows C prev rs \<longleftrightarrow> all_parse C rs \<and> chain_ok C prev (parsed_rows C rs)"

lemma end_hash_simps [simp]:
  "end_hash p [] = p" "end_hash p (r # rs) = end_hash (re_Hash r) rs" "end_hash p (rs @ [r]) = re_Hash r"
  by (simp_all add: end_hash_def)

lemma scan_row_fields:
  assumes "scan_row C r = Inr e"
  shows "re_Hash e = re_Hash r" "re_PreviousHash e = re_PreviousHash r" "re_ID e = re_ID r" "re_EntityID e = re_EntityID r"
  using assms by (auto simp: scan_row_def split: sum.splits)

lemma parsed_rows_simps [simp]:
  "parsed_rows C [] = []"
  "scan_row C r = Inr e \<Longrightarrow> parsed_rows C (r # rs) = e # parsed_rows C rs"
  by (simp_all add: parsed_rows_def)

lemma valid_rows_simps [simp]:
  "valid_rows C p []"
  "valid_rows C p (r # rs) \<longleftrightarrow>
     (\<exists>e. scan_row C r = Inr e \<and> re_PreviousHash e = p \<and> calculateEventHash C e = re_Hash e \<and> valid_rows C (re_Hash r) rs)"
  by (auto simp: valid_rows_def all_parse_def scan_row_fields(1) split: sum.splits)

lemma valid_rows_append: "valid_rows C p (xs @ ys) \<longleftrightarrow> valid_rows C p xs \<and> valid_rows C (end_hash p xs) ys"
  by (induction xs arbitrary: p) auto

lemma ingest_call_none [simp]: "iw_fails w = [] \<Longrightarrow> ingest_call w = (None, w)"
  by (simp add: ingest_call_def)

lemma verify_rows_append:
  "valid_rows C p xs \<Longrightarrow> iw_fails w = [] \<Longrightarrow> verify_rows C p (xs @ ys) w = verify_rows C (end_hash p xs) ys w"
  by (induction xs arbitrary: p) (auto simp: scan_row_fields(1))

lemma verify_rows_valid:
  assumes "iw_fails w = []"
  shows "verify_rows C p rs w = (Inr True, w) \<longleftrightarrow> valid_rows C p rs"
  using assms by (induction rs arbitrary: p) (auto simp: scan_row_fields(1) split: sum.splits)

lemma VerifyEventChain_valid:
  assumes "iw_fails w = []"
  shows "VerifyEventChain C entity w = (Inr True, w) \<longleftrightarrow> valid_rows C '''' (rows_asc entity (iw_table w))"
  using assms by (simp add: VerifyEventChain_def verify_rows_valid)

text \<open>A failure of the connection is not noticed: it ends the verification after the rows that were read.\<close>

lemma verify_rows_prefix:
  assumes "fst (verify_rows C p rs w) = Inr True"
  shows "\<exists>xs. prefix xs rs \<and> valid_rows C p xs \<and>
    (xs = rs \<or> length xs < length (iw_fails w) \<and> iw_fails w ! length xs \<noteq> None)"
  using assms
proof (induction rs arbitrary: p w)
  case (Cons r rs)
  obtain err w1 where c: "ingest_call w = (err, w1)" by fastforce
  show ?case
  proof (cases err)
    case None
    obtain e where e: "scan_row C r = Inr e" "re_PreviousHash e = p" "calculateEventHash C e = re_Hash e"
      and rest: "fst (verify_rows C (re_Hash e) rs w1) = Inr True"
      using Cons.prems c None by (auto split: sum.splits if_splits)
    from Cons.IH [OF rest] obtain xs where
      "prefix xs rs" "valid_rows C (re_Hash e) xs" "xs = rs \<or> length xs < length (iw_fails w1) \<and> iw_fails w1 ! length xs \<noteq> None"
      by blast
    then show ?thesis
      using e c None scan_row_fields(1) [OF e(1)]
      by (intro exI [of _ "r # xs"]) (auto simp: ingest_call_def split: list.splits)
  next
    case (Some x)
    then have "0 < length (iw_fails w) \<and> iw_fails w ! 0 \<noteq> None" using c by (auto simp: ingest_call_def split: list.splits)
    then show ?thesis by (intro exI [of _ "[]"]) simp
  qed
qed simp

section \<open>Submissions\<close>

lemma ingest_call_table: "ingest_call w = (e, w') \<Longrightarrow> iw_table w' = iw_table w \<and> iw_clock w' = iw_clock w"
  by (auto simp: ingest_call_def split: list.splits)

lemma cache_event_table [simp]:
  "iw_table (cache_event C i e w) = iw_table w" "iw_clock (cache_event C i e w) = iw_clock w"
  by (auto simp: cache_event_def Let_def ingest_call_table split: prod.split option.split dest: ingest_call_table)

lemma logAuditEvent_table [simp]:
  "iw_table (logAuditEvent t i u d w) = iw_table w" "iw_clock (logAuditEvent t i u d w) = iw_clock w"
  by (auto simp: logAuditEvent_def split: prod.split option.split dest: ingest_call_table)

lemma ingest_publishEvent_table: "ingest_publishEvent C e w = (r, w') \<Longrightarrow> iw_table w' = iw_table w \<and> iw_clock w' = iw_clock w"
  by (auto simp: ingest_publishEvent_def split: prod.splits option.splits sum.splits dest: ingest_call_table)

lemma storeEvent_table:
  assumes "storeEvent C e w = (r, w')"
  shows "(\<exists>err. r = Some err \<and> iw_table w' = iw_table w) \<or>
    (\<exists>json. r = None \<and> cd_Marshal C (re_EventData e) = Inr json \<and> iw_table w' = iw_table w @ [to_row C json e])"
  using assms by (auto simp: storeEvent_def split: prod.splits option.splits sum.splits dest: ingest_call_table)

lemma getLastEventHash_table:
  assumes "getLastEventHash entity w = (r, w')"
  shows "iw_table w' = iw_table w \<and>
    (\<forall>h. r = Inr h \<longrightarrow> h = (case rows_desc entity (iw_table w) of [] \<Rightarrow> '''' | x # _ \<Rightarrow> re_Hash x))"
  using assms by (auto simp: getLastEventHash_def split: prod.splits option.splits dest: ingest_call_table)

definition hashed_event :: "EventCodec \<Rightarrow> string \<Rightarrow> EventSubmissionRequest \<Rightarrow> string \<Rightarrow> gotime \<Rightarrow> event" where
  "hashed_event C i req h now = (let e = new_event i req h now in e\<lparr>re_Hash := calculateEventHash C e\<rparr>)"

lemma SubmitEvent_table:
  assumes "SubmitEvent C i req u w = (r, w')"
  defines "event \<equiv> hashed_event C i req (case rows_desc (sq_EntityID req) (iw_table w) of [] \<Rightarrow> '''' | x # _ \<Rightarrow> re_Hash x) (iw_clock w)"
  shows "(\<exists>err. r = Inl err \<and> iw_table w' = iw_table w) \<or>
    (\<exists>json. r = Inr event \<and> cd_Marshal C (sq_EventData req) = Inr json \<and> iw_table w' = iw_table w @ [to_row C json event])"
proof (cases "validateEventData (sq_EventType req) (sq_EventData req)")
  case valid: None
  obtain rh w1 where h: "getLastEventHash (sq_EntityID req) w = (rh, w1)" by fastforce
  note t1 = getLastEventHash_table [OF h]
  show ?thesis
  proof (cases rh)
    case (Inr hash)
    with t1 have ev: "hashed_event C i req hash (iw_clock w) = event" by (simp add: event_def)
    obtain rs w2 where s: "storeEvent C event w1 = (rs, w2)" by fastforce
    have data: "re_EventData event = sq_EventData req" by (simp add: event_def hashed_event_def new_event_def Let_def)
    have rec: "(new_event i req hash (iw_clock w))\<lparr>re_Hash := calculateEventHash C (new_event i req hash (iw_clock w))\<rparr> = event"
      using ev by (simp add: hashed_event_def Let_def)
    show ?thesis
    proof (cases rs)
      case None
      obtain rp w3 where p: "ingest_publishEvent C event w2 = (rp, w3)" by fastforce
      have "r = Inr event" "iw_table w' = iw_table w2"
        using assms(1) ingest_publishEvent_table [OF p] valid h Inr s None p rec by (auto simp: SubmitEvent_def Let_def)
      then show ?thesis using storeEvent_table [OF s] t1 None data by auto
    next
      case (Some err)
      have "r = Inl (''failed to store event: '' @ err)" "w' = w2"
        using assms(1) valid h Inr s Some rec by (simp_all add: SubmitEvent_def Let_def)
      then show ?thesis using storeEvent_table [OF s] t1 Some by auto
    qed
  qed (use assms(1) t1 valid h in \<open>auto simp: SubmitEvent_def\<close>)
qed (use assms(1) in \<open>auto simp: SubmitEvent_def\<close>)

section \<open>Tables in which chains stay valid\<close>

text \<open>What is relied on of the database and of the JSON package: a column keeps an instant of whole microseconds, and a document that is stored and
  decoded encodes to the same text. An instant with a finer fraction, such as the clock gives, need not come back.\<close>

definition whole_microseconds :: "gotime \<Rightarrow> bool" where
  "whole_microseconds t \<longleftrightarrow> t mod 1000 = 0"

definition codec_laws :: "EventCodec \<Rightarrow> bool" where
  "codec_laws C \<longleftrightarrow>
     (\<forall>t. whole_microseconds t \<longrightarrow> cd_stored_time C t = t) \<and>
     (\<forall>d s. cd_Marshal C d = Inr s \<longrightarrow> (\<exists>d'. cd_Unmarshal C (cd_stored_json C s) = Inr d' \<and> cd_Marshal C d' = Inr s))"

definition table_ok :: "EventCodec \<Rightarrow> event_row list \<Rightarrow> bool" where
  "table_ok C t \<longleftrightarrow>
     (\<forall>entity. sorted_wrt (<) (map re_Timestamp (entity_rows entity t)) \<and> valid_rows C '''' (entity_rows entity t))"

lemma strict_sorted_asc:
  assumes "sorted_wrt (<) (map re_Timestamp (entity_rows entity t))"
  shows "rows_asc entity t = entity_rows entity t"
  unfolding rows_asc_def using assms by (intro sort_key_id_if_sorted) (simp add: strict_sorted_iff)

lemma strict_sorted_desc:
  assumes "sorted_wrt (<) (map re_Timestamp (entity_rows entity t))"
  shows "rows_desc entity t = rev (entity_rows entity t)"
proof -
  have "sorted (map (\<lambda>r. - re_Timestamp r) (rev (entity_rows entity t)))"
    using assms by (auto simp: sorted_wrt_map sorted_wrt_rev elim: sorted_wrt_mono_rel [rotated])
  moreover have "inj_on (\<lambda>r. - re_Timestamp r) (set (entity_rows entity t))"
    using assms by (auto simp: strict_sorted_iff distinct_map inj_on_def)
  ultimately show ?thesis unfolding rows_desc_def by (intro sort_key_inj_key_eq) simp_all
qed

lemma last_hash_read:
  assumes "sorted_wrt (<) (map re_Timestamp (entity_rows entity t))"
  shows "(case rows_desc entity t of [] \<Rightarrow> '''' | r # _ \<Rightarrow> re_Hash r) = end_hash '''' (entity_rows entity t)"
  unfolding strict_sorted_desc [OF assms] end_hash_def
  by (cases "entity_rows entity t" rule: rev_cases) simp_all

lemma hashed_event_fields:
  "re_EntityID (hashed_event C i req h now) = sq_EntityID req" "re_PreviousHash (hashed_event C i req h now) = h"
  "re_EventData (hashed_event C i req h now) = sq_EventData req" "re_ID (hashed_event C i req h now) = i"
  "re_Timestamp (hashed_event C i req h now) = (case sq_Timestamp req of Some t \<Rightarrow> t | None \<Rightarrow> now)"
  by (simp_all add: hashed_event_def new_event_def Let_def)

text \<open>The row of a new event reads back as an event with the hash and the link it was stored with.\<close>

lemma stored_event_reads_back:
  assumes "codec_laws C" "cd_Marshal C (sq_EventData req) = Inr json" "whole_microseconds (re_Timestamp (hashed_event C i req h now))"
  shows "\<exists>e'. scan_row C (to_row C json (hashed_event C i req h now)) = Inr e' \<and> re_PreviousHash e' = h \<and> calculateEventHash C e' = re_Hash e'"
proof -
  from assms(1,2) obtain d where d: "cd_Unmarshal C (cd_stored_json C json) = Inr d" "cd_Marshal C d = Inr json"
    unfolding codec_laws_def by blast
  have "cd_stored_time C (re_Timestamp (hashed_event C i req h now)) = re_Timestamp (hashed_event C i req h now)"
    using assms(1,3) unfolding codec_laws_def by blast
  then show ?thesis
    using d assms(2)
    by (simp add: scan_row_def to_row_def hashed_event_def new_event_def Let_def calculateEventHash_def hashInput_def
        serializeEventData_def)
qed

lemma entity_rows_snoc:
  "entity_rows entity (t @ [r]) = entity_rows entity t @ (if re_EntityID r = entity then [r] else [])"
  by (simp add: entity_rows_def)

lemma table_ok_submit:
  assumes "codec_laws C" "table_ok C (iw_table w)" "SubmitEvent C i req u w = (r, w')"
    and later: "\<And>row. row \<in> set (entity_rows (sq_EntityID req) (iw_table w)) \<Longrightarrow>
      re_Timestamp row < cd_stored_time C (case sq_Timestamp req of Some t \<Rightarrow> t | None \<Rightarrow> iw_clock w)"
    and whole: "whole_microseconds (case sq_Timestamp req of Some t \<Rightarrow> t | None \<Rightarrow> iw_clock w)"
  shows "table_ok C (iw_table w')"
proof -
  let ?t = "iw_table w" and ?ent = "sq_EntityID req"
  let ?event = "hashed_event C i req (end_hash '''' (entity_rows ?ent ?t)) (iw_clock w)"
  have srt: "sorted_wrt (<) (map re_Timestamp (entity_rows ?ent ?t))" using assms(2) by (simp add: table_ok_def)
  show ?thesis
  proof (cases "iw_table w' = ?t")
    case False
    with SubmitEvent_table [OF assms(3)] obtain json where
      j: "cd_Marshal C (sq_EventData req) = Inr json" "iw_table w' = ?t @ [to_row C json ?event]"
      unfolding last_hash_read [OF srt] by blast
    have row: "re_EntityID (to_row C json ?event) = ?ent"
      "re_Timestamp (to_row C json ?event) = cd_stored_time C (case sq_Timestamp req of Some t \<Rightarrow> t | None \<Rightarrow> iw_clock w)"
      "re_Hash (to_row C json ?event) = re_Hash ?event"
      by (simp_all add: to_row_def hashed_event_fields)
    have "valid_rows C (end_hash '''' (entity_rows ?ent ?t)) [to_row C json ?event]"
      using stored_event_reads_back [OF assms(1) j(1)] whole by (simp add: hashed_event_fields)
    then show ?thesis
      using assms(2) later unfolding table_ok_def j(2) entity_rows_snoc
      by (auto simp: valid_rows_append sorted_wrt_append row)
  qed (use assms(2) in simp)
qed

lemma strict_sorted_split:
  assumes "sorted_wrt (<) (map re_Timestamp xs)" "s \<notin> re_Timestamp ` set xs"
  shows "xs = filter (\<lambda>r. re_Timestamp r < s) xs @ filter (\<lambda>r. s < re_Timestamp r) xs"
  using assms
proof (induction xs)
  case (Cons x xs)
  show ?case
  proof (cases "re_Timestamp x < s")
    case False
    then have "\<forall>y \<in> set (x # xs). s < re_Timestamp y" using Cons.prems by fastforce
    then have "filter (\<lambda>r. s < re_Timestamp r) (x # xs) = x # xs" "filter (\<lambda>r. re_Timestamp r < s) (x # xs) = []"
      by (auto simp: filter_id_conv filter_empty_conv)
    then show ?thesis by simp
  qed (use Cons in auto)
qed simp

lemma late_row_position:
  assumes "sorted_wrt (<) (map re_Timestamp xs)" "re_Timestamp r \<notin> re_Timestamp ` set xs"
  shows "sort_key re_Timestamp (xs @ [r]) =
    filter (\<lambda>x. re_Timestamp x < re_Timestamp r) xs @ r # filter (\<lambda>x. re_Timestamp r < re_Timestamp x) xs" (is "_ = ?ys")
proof (rule sort_key_inj_key_eq)
  show "mset (xs @ [r]) = mset ?ys" by (subst strict_sorted_split [OF assms]) simp
  have "inj_on re_Timestamp (set xs)" using assms(1) by (simp add: strict_sorted_iff distinct_map)
  then show "inj_on re_Timestamp (set (xs @ [r]))" using assms(2) by auto
  have "sorted (map re_Timestamp (filter P xs))" for P
    using assms(1) by (simp add: sorted_filter strict_sorted_iff)
  then show "sorted (map re_Timestamp ?ys)" by (auto simp: sorted_append)
qed

lemma end_hash_last: "rs \<noteq> [] \<Longrightarrow> end_hash p rs = re_Hash (last rs)"
  by (simp add: end_hash_def)

lemma end_hash_butlast:
  assumes "zs \<noteq> []"
  shows "end_hash '''' ys \<in> insert '''' (re_Hash ` set (butlast (ys @ zs)))"
  using assms by (auto simp: end_hash_def butlast_append)

section \<open>Runs of the service\<close>

text \<open>
  A step of the service: a submission whose timestamp has whole microseconds and is later than those of its entity; a
  query; or a step of the environment, which advances the clock and fixes the outcome of further calls.
\<close>

inductive ingest_step :: "EventCodec \<Rightarrow> IngestionWorld \<Rightarrow> IngestionWorld \<Rightarrow> bool" for C where
  submit: "ingest_step C w w'"
    if "SubmitEvent C i req u w = (r, w')"
      "list_all (\<lambda>row. re_Timestamp row < cd_stored_time C (case sq_Timestamp req of Some t \<Rightarrow> t | None \<Rightarrow> iw_clock w))
        (entity_rows (sq_EntityID req) (iw_table w))"
      "whole_microseconds (case sq_Timestamp req of Some t \<Rightarrow> t | None \<Rightarrow> iw_clock w)"
| query: "ingest_step C w w'"
    if "w' \<in> {snd (GetEvent C i w), snd (GetEventsByEntity C i l k w), snd (VerifyEventChain C i w)}"
| environment: "ingest_step C w (w\<lparr>iw_clock := t, iw_fails := es\<rparr>)"

definition empty_ingestion :: IngestionWorld where
  "empty_ingestion = \<lparr>iw_clock = 0, iw_table = [], iw_cache = [], iw_kafka = [], iw_audit = [], iw_fails = []\<rparr>"

lemma GetEvent_table: "iw_table (snd (GetEvent C i w)) = iw_table w"
proof -
  obtain c w1 where c: "cached_event C i w = (c, w1)" by fastforce
  obtain e w2 where q: "ingest_call w1 = (e, w2)" by fastforce
  have "iw_table w1 = iw_table w"
    using c by (auto simp: cached_event_def split: prod.splits dest: ingest_call_table)
  then show ?thesis
    using ingest_call_table [OF q] q by (simp add: GetEvent_def c split: option.split sum.split)
qed

lemma delivered_table: "iw_table (snd (delivered rs w)) = iw_table w"
proof (induction rs arbitrary: w)
  case (Cons r rs)
  obtain e w1 where c: "ingest_call w = (e, w1)" by fastforce
  obtain rs' w2 where d: "delivered rs w1 = (rs', w2)" by fastforce
  show ?case using Cons.IH [of w1] ingest_call_table [OF c] by (simp add: c d split: option.split)
qed simp

lemma GetEventsByEntity_table: "iw_table (snd (GetEventsByEntity C i l k w)) = iw_table w"
proof -
  have "iw_table (snd (query_rows rs w)) = iw_table w" for rs
    using delivered_table by (auto simp: query_rows_def split: prod.splits option.splits dest: ingest_call_table)
      (metis ingest_call_table snd_conv)
  then show ?thesis
    by (auto simp: GetEventsByEntity_def split: prod.split sum.split) (metis snd_conv)+
qed

lemma verify_rows_table: "iw_table (snd (verify_rows C p rs w)) = iw_table w"
  by (induction rs arbitrary: p w) (auto split: prod.splits option.splits sum.splits dest: ingest_call_table)

lemma VerifyEventChain_table: "iw_table (snd (VerifyEventChain C i w)) = iw_table w"
  using verify_rows_table by (auto simp: VerifyEventChain_def split: prod.splits option.splits dest: ingest_call_table)

lemma table_ok_step:
  assumes "codec_laws C" "ingest_step C w w'" "table_ok C (iw_table w)"
  shows "table_ok C (iw_table w')"
  using assms(2)
proof cases
  case (submit i req u r)
  show ?thesis by (rule table_ok_submit [OF assms(1,3) submit(1)]) (use submit(2,3) in \<open>simp_all add: list_all_iff\<close>)
qed (use assms(3) in \<open>auto simp: GetEvent_table GetEventsByEntity_table VerifyEventChain_table\<close>)

lemma table_ok_run:
  assumes "codec_laws C" "(ingest_step C)\<^sup>*\<^sup>* empty_ingestion w"
  shows "table_ok C (iw_table w)"
  using assms(2)
proof (induction rule: rtranclp_induct)
  case base
  show ?case by (simp add: table_ok_def empty_ingestion_def entity_rows_def)
qed (rule table_ok_step [OF assms(1)])

section \<open>Properties\<close>

text \<open>
  C18: When the events of an entity are submitted one after the other in the order of their timestamps, which have whole
  microseconds and are in UTC, with queries in between and whatever external calls fail, the chain of every entity is valid: \<open>VerifyEventChain\<close> answers true
  when its own calls succeed.
\<close>

theorem ordered_submissions_verify:
  assumes "codec_laws C" "(ingest_step C)\<^sup>*\<^sup>* empty_ingestion w" "iw_fails w = []"
  shows "VerifyEventChain C entity w = (Inr True, w)"
  using table_ok_run [OF assms(1,2)]
  by (simp add: VerifyEventChain_valid [OF assms(3)] table_ok_def strict_sorted_asc)

text \<open>
  A submission that succeeds with a timestamp before the latest one of its entity is linked to the latest event but
  read before it: from then on \<open>VerifyEventChain\<close> reports a broken chain at the new event, although nothing was tampered
  with. The hash of the latest event is assumed to differ from those of the earlier ones.
\<close>

theorem late_event_breaks_chain:
  assumes "codec_laws C" "table_ok C (iw_table w)" "SubmitEvent C i req u w = (Inr event, w')"
    and "row \<in> set (entity_rows (sq_EntityID req) (iw_table w)) \<and> whole_microseconds (re_Timestamp event)"
      "cd_stored_time C (re_Timestamp event) < re_Timestamp row"
    and "cd_stored_time C (re_Timestamp event) \<notin> re_Timestamp ` set (entity_rows (sq_EntityID req) (iw_table w))"
    and "re_Hash (last (entity_rows (sq_EntityID req) (iw_table w))) \<notin>
      insert '''' (re_Hash ` set (butlast (entity_rows (sq_EntityID req) (iw_table w))))"
    and "iw_fails v = []" "iw_table v = iw_table w'"
  shows "VerifyEventChain C (sq_EntityID req) v = (Inl (''hash chain broken at event '' @ i), v)"
proof -
  let ?xs = "entity_rows (sq_EntityID req) (iw_table w)" and ?s = "cd_stored_time C (re_Timestamp event)"
  let ?lo = "filter (\<lambda>r. re_Timestamp r < ?s) ?xs" and ?hi = "filter (\<lambda>r. ?s < re_Timestamp r) ?xs"
  have srt: "sorted_wrt (<) (map re_Timestamp ?xs)" and valid: "valid_rows C '''' ?xs" using assms(2) by (simp_all add: table_ok_def)
  from SubmitEvent_table [OF assms(3)] obtain json where
    j: "cd_Marshal C (sq_EventData req) = Inr json" "iw_table w' = iw_table w @ [to_row C json event]"
      "event = hashed_event C i req (end_hash '''' ?xs) (iw_clock w)"
    unfolding last_hash_read [OF srt] by auto
  have ne: "?xs \<noteq> []" using assms(4) by auto
  have split: "?xs = ?lo @ ?hi" using srt assms(6)
    by (rule strict_sorted_split)
  have row: "re_Timestamp (to_row C json event) = ?s" "re_EntityID (to_row C json event) = sq_EntityID req"
    by (simp_all add: to_row_def j(3) hashed_event_fields)
  have rows: "rows_asc (sq_EntityID req) (iw_table v) = ?lo @ to_row C json event # ?hi"
    using late_row_position [OF srt, of "to_row C json event", unfolded row(1), OF assms(6)]
    by (simp add: rows_asc_def assms(9) j(2) entity_rows_snoc row(2))
  obtain e where e: "scan_row C (to_row C json event) = Inr e" "re_PreviousHash e = end_hash '''' ?xs"
    using stored_event_reads_back [OF assms(1) j(1)] assms(4) unfolding j(3) by blast
  have id: "re_ID e = i" using scan_row_fields(3) [OF e(1)] by (simp add: to_row_def j(3) hashed_event_fields)
  have hi: "?hi \<noteq> []" using assms(4,5) by (auto simp: filter_empty_conv)
  have "end_hash '''' ?lo \<noteq> end_hash '''' ?xs"
    using assms(7) end_hash_butlast [OF hi, of ?lo] end_hash_last [OF ne] unfolding split [symmetric] by metis
  moreover have "valid_rows C '''' ?lo" using valid by (subst (asm) split) (simp add: valid_rows_append)
  ultimately show ?thesis
    using e assms(8) id by (simp add: VerifyEventChain_def rows verify_rows_append)
qed

section \<open>Tampering\<close>

text \<open>What the hash of an event covers, and that these fields do not run into each other.\<close>

definition covered :: "EventCodec \<Rightarrow> event \<Rightarrow> string list" where
  "covered C e =
     [re_ID e, re_EventType e, cd_Format C (re_Timestamp e), re_Source e, re_EntityID e, re_Jurisdiction e,
      re_PreviousHash e, serializeEventData C (re_EventData e)]"

definition no_bars :: "EventCodec \<Rightarrow> event \<Rightarrow> bool" where
  "no_bars C e = list_all (\<lambda>s. CHR ''|'' \<notin> set s) (butlast (covered C e))"

lemma Join_butlast_inject:
  assumes "length xs = length ys" "list_all (\<lambda>s. c \<notin> set s) (butlast xs)" "list_all (\<lambda>s. c \<notin> set s) (butlast ys)"
    and "strings_Join c xs = strings_Join c ys"
  shows "xs = ys"
  using assms
proof (induction c xs arbitrary: ys rule: strings_Join.induct)
  case (2 sep x)
  then show ?case by (cases ys) auto
next
  case (3 sep x x2 xs)
  then obtain y y2 ys' where ys: "ys = y # y2 # ys'" by (metis length_Suc_conv)
  have "x @ sep # strings_Join sep (x2 # xs) = y @ sep # strings_Join sep (y2 # ys')" using 3(5) ys by simp
  moreover have "sep \<notin> set x" "sep \<notin> set y" using 3(3,4) ys by simp_all
  ultimately have "x = y \<and> strings_Join sep (x2 # xs) = strings_Join sep (y2 # ys')"
    by (intro separator_inject)
  then show ?case using 3(1) [of "y2 # ys'"] 3(2-4) ys by simp
qed simp

lemma covered_inject: "no_bars C e \<Longrightarrow> no_bars C e' \<Longrightarrow> hashInput C e = hashInput C e' \<Longrightarrow> covered C e = covered C e'"
  unfolding no_bars_def
  by (rule Join_butlast_inject [where c = "CHR ''|''"]) (simp_all add: covered_def hashInput_def)

lemma chain_ok_snoc:
  "chain_ok C p (es @ [e]) \<longleftrightarrow> chain_ok C p es \<and> re_PreviousHash e = end_hash p es \<and> calculateEventHash C e = re_Hash e"
  by (induction es arbitrary: p) auto

lemma chains_with_same_end:
  assumes "chain_ok C '''' es" "chain_ok C '''' es'" "end_hash '''' es = end_hash '''' es'"
    and "\<And>x. cd_sha256hex C x \<noteq> ''''"
    and "\<And>e e'. e \<in> set es \<Longrightarrow> e' \<in> set es' \<Longrightarrow> calculateEventHash C e = calculateEventHash C e' \<Longrightarrow> hashInput C e = hashInput C e'"
    and "\<And>e. e \<in> set es \<union> set es' \<Longrightarrow> no_bars C e"
  shows "map (covered C) es = map (covered C) es'"
  using assms
proof (induction es arbitrary: es' rule: rev_induct)
  case Nil
  show ?case
  proof (cases es' rule: rev_cases)
    case (snoc xs e)
    with Nil(2,3) have "calculateEventHash C e = ''''" by (simp add: chain_ok_snoc)
    then show ?thesis using Nil(4) by (simp add: calculateEventHash_def)
  qed simp
next
  case (snoc e es)
  show ?case
  proof (cases es' rule: rev_cases)
    case Nil
    with snoc.prems(1,3) have "calculateEventHash C e = ''''" by (simp add: chain_ok_snoc)
    then show ?thesis using snoc.prems(4) by (simp add: calculateEventHash_def)
  next
    case es': (snoc xs e')
    have "calculateEventHash C e = calculateEventHash C e'" using snoc.prems(1-3) es' by (simp add: chain_ok_snoc)
    with snoc.prems(5) es' have "hashInput C e = hashInput C e'" by simp
    with snoc.prems(6) es' have c: "covered C e = covered C e'" by (intro covered_inject) simp_all
    then have "end_hash '''' es = end_hash '''' xs" using snoc.prems(1,2) es' by (simp add: chain_ok_snoc covered_def)
    with snoc.prems es' have "map (covered C) es = map (covered C) xs"
      by (intro snoc.IH) (simp_all add: chain_ok_snoc)
    with c es' show ?thesis by simp
  qed
qed

lemma end_hash_parsed: "all_parse C rs \<Longrightarrow> end_hash p (parsed_rows C rs) = end_hash p rs"
  by (induction rs arbitrary: p) (auto simp: all_parse_def scan_row_fields(1) split: sum.splits)

text \<open>
  C17: The chain is evidence against tampering: two tables whose chains of an entity both verify and end with the same
  hash have the same events of this entity in the same order, in every field the hash covers, unless two of the events
  collide under the digest or a field contains the separator of the hash input. A digest is never empty.
\<close>

theorem chain_is_tamper_evident:
  assumes "VerifyEventChain C entity w = (Inr True, w)" "VerifyEventChain C entity w' = (Inr True, w')"
    and "iw_fails w = []" "iw_fails w' = []"
  defines "rows \<equiv> rows_asc entity (iw_table w)" and "rows' \<equiv> rows_asc entity (iw_table w')"
  assumes "end_hash '''' rows = end_hash '''' rows'"
    and "\<And>x. cd_sha256hex C x \<noteq> ''''"
    and "\<And>e e'. e \<in> set (parsed_rows C rows) \<Longrightarrow> e' \<in> set (parsed_rows C rows') \<Longrightarrow>
      calculateEventHash C e = calculateEventHash C e' \<Longrightarrow> hashInput C e = hashInput C e'"
    and "\<And>e. e \<in> set (parsed_rows C rows) \<union> set (parsed_rows C rows') \<Longrightarrow> no_bars C e"
  shows "map (covered C) (parsed_rows C rows) = map (covered C) (parsed_rows C rows')"
proof -
  have valid: "valid_rows C '''' rows" "valid_rows C '''' rows'"
    using assms(1-4) VerifyEventChain_valid unfolding rows_def rows'_def by blast+
  then show ?thesis
    using assms(7)
    by (intro chains_with_same_end assms(8-10)) (simp_all add: valid_rows_def end_hash_parsed)
qed

text \<open>
  What the hash does not cover: the version of the schema and the time of creation can be changed, and two fields
  with a separator can be traded against each other.
\<close>

lemma uncovered_fields: "calculateEventHash C (e\<lparr>re_SchemaVersion := v, re_CreatedAt := t\<rparr>) = calculateEventHash C e"
  by (simp add: calculateEventHash_def hashInput_def)

lemma traded_fields:
  "calculateEventHash C (e\<lparr>re_ID := x @ ''|'' @ y, re_EventType := z\<rparr>) =
   calculateEventHash C (e\<lparr>re_ID := x, re_EventType := y @ ''|'' @ z\<rparr>)"
  by (simp add: calculateEventHash_def hashInput_def)

section \<open>Examples\<close>

definition sample_codec :: EventCodec where
  "sample_codec =
     \<lparr>cd_sha256hex = (\<lambda>s. ''h'' @ itoa (int (length s))), cd_Format = (\<lambda>t. itoa (t div 1000)),
      cd_Marshal = (\<lambda>_. Inr ''{}''), cd_Unmarshal = (\<lambda>_. Inr (Some [])),
      cd_MarshalEvent = (\<lambda>e. Inr (re_ID e)), cd_UnmarshalEvent = (\<lambda>_. Inl ''no event''),
      cd_stored_time = (\<lambda>t. t), cd_stored_json = (\<lambda>s. s)\<rparr>"

definition sample_request :: "gotime \<Rightarrow> EventSubmissionRequest" where
  "sample_request t =
     \<lparr>sq_EventType = ''AUDIT'', sq_Source = ''desk'', sq_EntityID = ''bank'', sq_Jurisdiction = ''EU'',
      sq_EventData = Some [], sq_Timestamp = Some t\<rparr>"

definition sample_world :: IngestionWorld where
  "sample_world = snd (SubmitEvent sample_codec ''e1'' (sample_request 10000) ''u'' empty_ingestion)"

lemma sample_codec_laws: "codec_laws sample_codec"
  by (simp add: codec_laws_def sample_codec_def)

lemma sample_world_step: "ingest_step sample_codec empty_ingestion sample_world"
proof (rule ingest_step.submit)
  show "SubmitEvent sample_codec ''e1'' (sample_request 10000) ''u'' empty_ingestion =
    (fst (SubmitEvent sample_codec ''e1'' (sample_request 10000) ''u'' empty_ingestion), sample_world)"
    by (simp add: sample_world_def)
  show "list_all (\<lambda>row. re_Timestamp row < cd_stored_time sample_codec (case sq_Timestamp (sample_request 10000) of Some t \<Rightarrow> t | None \<Rightarrow> iw_clock empty_ingestion))
     (entity_rows (sq_EntityID (sample_request 10000)) (iw_table empty_ingestion))"
    by (simp add: empty_ingestion_def entity_rows_def)
  show "whole_microseconds (case sq_Timestamp (sample_request 10000) of Some t \<Rightarrow> t | None \<Rightarrow> iw_clock empty_ingestion)"
    by (simp add: whole_microseconds_def sample_request_def)
qed

lemma sample_world_run: "(ingest_step sample_codec)\<^sup>*\<^sup>* empty_ingestion sample_world"
  using sample_world_step by (rule r_into_rtranclp)

lemma sample_world_fails: "iw_fails sample_world = []"
  by code_simp

theorem ordered_submissions_verify_witness: "VerifyEventChain sample_codec ''bank'' sample_world = (Inr True, sample_world)"
  using ordered_submissions_verify [OF sample_codec_laws sample_world_run sample_world_fails] .

theorem late_event_breaks_chain_witness:
  "VerifyEventChain sample_codec ''bank'' (snd (SubmitEvent sample_codec ''e2'' (sample_request 5000) ''u'' sample_world)) =
     (Inl ''hash chain broken at event e2'', snd (SubmitEvent sample_codec ''e2'' (sample_request 5000) ''u'' sample_world))"
proof -
  let ?r = "SubmitEvent sample_codec ''e2'' (sample_request 5000) ''u'' sample_world"
  let ?event = "hashed_event sample_codec ''e2'' (sample_request 5000) (re_Hash (hd (iw_table sample_world))) (iw_clock sample_world)"
  have ok: "table_ok sample_codec (iw_table sample_world)"
    by (rule table_ok_run [OF sample_codec_laws sample_world_run])
  have sub: "?r = (Inr ?event, snd ?r)" by code_simp
  have ent: "sq_EntityID (sample_request 5000) = ''bank''" by (simp add: sample_request_def)
  have rows: "hd (iw_table sample_world) \<in> set (entity_rows (sq_EntityID (sample_request 5000)) (iw_table sample_world)) \<and>
      whole_microseconds (re_Timestamp ?event)"
    "cd_stored_time sample_codec (re_Timestamp ?event) < re_Timestamp (hd (iw_table sample_world))"
    "cd_stored_time sample_codec (re_Timestamp ?event) \<notin>
       re_Timestamp ` set (entity_rows (sq_EntityID (sample_request 5000)) (iw_table sample_world))"
    "re_Hash (last (entity_rows (sq_EntityID (sample_request 5000)) (iw_table sample_world))) \<notin>
      insert '''' (re_Hash ` set (butlast (entity_rows (sq_EntityID (sample_request 5000)) (iw_table sample_world))))"
    "iw_fails (snd ?r) = []"
    by code_simp+
  from late_event_breaks_chain [OF sample_codec_laws ok sub rows refl]
  show ?thesis unfolding ent by simp
qed

theorem chain_is_tamper_evident_witness:
  "map (covered sample_codec) (parsed_rows sample_codec (rows_asc ''bank'' (iw_table sample_world))) =
   map (covered sample_codec) (parsed_rows sample_codec (rows_asc ''bank''
     (iw_table (sample_world\<lparr>iw_table := map (\<lambda>r. r\<lparr>re_CreatedAt := 7\<rparr>) (iw_table sample_world)\<rparr>))))"
proof (rule chain_is_tamper_evident)
  let ?w = "sample_world\<lparr>iw_table := map (\<lambda>r. r\<lparr>re_CreatedAt := 7\<rparr>) (iw_table sample_world)\<rparr>"
  let ?es = "parsed_rows sample_codec (rows_asc ''bank'' (iw_table sample_world))"
  let ?es' = "parsed_rows sample_codec (rows_asc ''bank'' (iw_table ?w))"
  show fails: "iw_fails sample_world = []" "iw_fails ?w = []" using sample_world_fails by simp_all
  have "valid_rows sample_codec '''' (rows_asc ''bank'' (iw_table sample_world))"
    "valid_rows sample_codec '''' (rows_asc ''bank'' (iw_table ?w))"
    unfolding valid_rows_def all_parse_def by code_simp+
  then show "VerifyEventChain sample_codec ''bank'' sample_world = (Inr True, sample_world)"
    "VerifyEventChain sample_codec ''bank'' ?w = (Inr True, ?w)"
    using fails VerifyEventChain_valid by blast+
  show "end_hash '''' (rows_asc ''bank'' (iw_table sample_world)) = end_hash '''' (rows_asc ''bank'' (iw_table ?w))"
    by code_simp
  show "cd_sha256hex sample_codec x \<noteq> ''''" for x by (simp add: sample_codec_def)
  have "list_all (no_bars sample_codec) (?es @ ?es')" by code_simp
  then show "no_bars sample_codec e" if "e \<in> set ?es \<union> set ?es'" for e using that by (auto simp: list_all_iff)
  have "list_all (\<lambda>e. list_all (\<lambda>e'. hashInput sample_codec e = hashInput sample_codec e') ?es') ?es" by code_simp
  then show "hashInput sample_codec e = hashInput sample_codec e'" if "e \<in> set ?es" "e' \<in> set ?es'" for e e'
    using that by (auto simp: list_all_iff)
qed

end
