(* ===== verification/Wallet_Manager.thy ===== *)
theory Wallet_Manager
  imports Go_Env Step_Systems "HOL-Library.Word"
begin

text \<open>
  The custody wallet manager, \<open>custody-key-management-system/services/wallet-manager/wallet_manager.go\<close>. The tables,
  the Redis cache, the audit list and the goroutines that wait for a key generation are fields of \<open>WalletWorld\<close>;
  \<open>wm_fails\<close> is the schedule of its external calls, the error of the next call or none. A value that the code caches as
  JSON is kept decoded. The clock is read to the microseconds that the database keeps of an instant, so that a row reads back as
  it was written. Arguments are \<open>sha256\<close>, the 32 bytes of a digest, and \<open>cast_integer\<close>, the conversion of text to a
  32-bit integer in PostgreSQL. \<open>None\<close> is a panic. Every operation is one step; \<open>select_wallet\<close> and \<open>cache_wallet\<close> are
  the two halves of a read that another operation can come between.

  The lemmas show that wallets are well configured, that reads are current when operations do not overlap and no call
  fails, that they are not when a read overlaps the end of a key generation, that generated derivation paths are
  fresh, and that no address can be created.
\<close>

section \<open>Data\<close>

record Wallet =
  wa_ID :: string
  wa_WalletType :: string
  wa_Blockchain :: string
  wa_Name :: string
  wa_Description :: string
  wa_Threshold :: int
  wa_TotalSigners :: int
  wa_Status :: string
  wa_CreatedAt :: gotime
  wa_UpdatedAt :: gotime
  wa_CreatedBy :: string

record WalletAddress =
  ad_ID :: string
  ad_WalletID :: string
  ad_Address :: string
  ad_AddressType :: string
  ad_DerivationPath :: string
  ad_PublicKey :: string
  ad_IsActive :: bool
  ad_CreatedAt :: gotime

record WalletBalance =
  wb_WalletID :: string
  wb_Asset :: string
  wb_Balance :: string
  wb_LockedBalance :: string
  wb_LastUpdated :: gotime

record CreateWalletRequest =
  cw_WalletType :: string
  cw_Blockchain :: string
  cw_Name :: string
  cw_Description :: string
  cw_Threshold :: int
  cw_TotalSigners :: int

record CreateAddressRequest =
  ca_AddressType :: string
  ca_DerivationPath :: string

datatype CacheValue = CachedWallet Wallet | CachedBalances "WalletBalance list"

record WalletAudit =
  wl_EventType :: string
  wl_WalletID :: string
  wl_UserID :: string
  wl_Timestamp :: int
  wl_Details :: jobject

record WalletWorld =
  wm_clock :: gotime
  wm_wallets :: "Wallet list"
  wm_addresses :: "WalletAddress list"
  wm_balances :: "WalletBalance list"
  wm_cache :: "(string, CacheValue \<times> gotime) gomap"
  wm_audit :: "WalletAudit list"
  wm_pending :: "string list"
  wm_fails :: "goerror option list"

definition wallet_call :: "WalletWorld \<Rightarrow> goerror option \<times> WalletWorld" where
  "wallet_call w = (case wm_fails w of [] \<Rightarrow> (None, w) | e # es \<Rightarrow> (e, w\<lparr>wm_fails := es\<rparr>))"

section \<open>Cache and audit\<close>

definition redis_Get :: "string \<Rightarrow> WalletWorld \<Rightarrow> CacheValue option \<times> WalletWorld" where
  "redis_Get key w0 =
     (let (err, w) = wallet_call w0 in
      (case err of
         Some _ \<Rightarrow> None
       | None \<Rightarrow> (case map_of (wm_cache w) key of
                   None \<Rightarrow> None | Some (v, expires) \<Rightarrow> if wm_clock w \<ge> expires then None else Some v), w))"

definition redis_Set :: "string \<Rightarrow> CacheValue \<Rightarrow> duration \<Rightarrow> WalletWorld \<Rightarrow> WalletWorld" where
  "redis_Set key v ttl w0 =
     (let (err, w) = wallet_call w0 in
      case err of Some _ \<Rightarrow> w | None \<Rightarrow> w\<lparr>wm_cache := go_set key (v, wm_clock w + ttl) (wm_cache w)\<rparr>)"

definition redis_Del :: "string \<Rightarrow> WalletWorld \<Rightarrow> WalletWorld" where
  "redis_Del key w0 =
     (let (err, w) = wallet_call w0 in
      case err of Some _ \<Rightarrow> w | None \<Rightarrow> w\<lparr>wm_cache := go_del key (wm_cache w)\<rparr>)"

definition wallet_logAuditEvent :: "string \<Rightarrow> string \<Rightarrow> string \<Rightarrow> jobject \<Rightarrow> WalletWorld \<Rightarrow> WalletWorld" where
  "wallet_logAuditEvent eventType walletID userID details w0 =
     (let (err, w) = wallet_call w0 in
      case err of
        Some _ \<Rightarrow> w
      | None \<Rightarrow> w\<lparr>wm_audit :=
          \<lparr>wl_EventType = eventType, wl_WalletID = walletID, wl_UserID = userID, wl_Timestamp = time_Unix (wm_clock w),
           wl_Details = details\<rparr> # wm_audit w\<rparr>)"

section \<open>Wallets\<close>

definition validateWalletConfig :: "string \<Rightarrow> string \<Rightarrow> int \<Rightarrow> int \<Rightarrow> goerror option" where
  "validateWalletConfig walletType blockchain threshold totalSigners =
     (let validTypes = [(''SINGLE_SIG'', True), (''MULTI_SIG'', True), (''MPC'', True), (''COLD'', True), (''HOT'', True)];
          validBlockchains = [(''BITCOIN'', True), (''ETHEREUM'', True), (''LITECOIN'', True), (''CARDANO'', True),
                              (''SOLANA'', True)]
      in if \<not> go_get False validTypes walletType then Some (''invalid wallet type: '' @ walletType)
         else if \<not> go_get False validBlockchains blockchain then Some (''invalid blockchain: '' @ blockchain)
         else if walletType = ''MULTI_SIG'' \<or> walletType = ''MPC'' then
           (if threshold \<le> 0 \<or> totalSigners \<le> 0 then Some ''threshold and total signers must be positive''
            else if threshold > totalSigners then Some ''threshold cannot exceed total signers''
            else if totalSigners > 15 then Some ''maximum 15 signers supported''
            else None)
         else None)"

definition updateWalletStatus :: "string \<Rightarrow> string \<Rightarrow> WalletWorld \<Rightarrow> goerror option \<times> WalletWorld" where
  "updateWalletStatus walletID status w0 =
     (let (err, w) = wallet_call w0 in
      case err of
        Some e \<Rightarrow> (Some (''failed to update wallet status: '' @ e), w)
      | None \<Rightarrow>
          (None, redis_Del (''wallet:'' @ walletID)
             (w\<lparr>wm_wallets := map (\<lambda>r. if wa_ID r = walletID
                                      then r\<lparr>wa_Status := status, wa_UpdatedAt := wm_clock w\<rparr> else r) (wm_wallets w)\<rparr>)))"

definition initiateKeyGeneration :: "Wallet \<Rightarrow> WalletWorld \<Rightarrow> goerror option \<times> WalletWorld" where
  "initiateKeyGeneration wallet w = (None, w\<lparr>wm_pending := wm_pending w @ [wa_ID wallet]\<rparr>)"

text \<open>The goroutine of a key generation wakes up.\<close>

definition finish_key_generation :: "string \<Rightarrow> WalletWorld \<Rightarrow> WalletWorld" where
  "finish_key_generation walletID w =
     snd (updateWalletStatus walletID ''ACTIVE'' (w\<lparr>wm_pending := remove1 walletID (wm_pending w)\<rparr>))"

definition new_wallet :: "string \<Rightarrow> CreateWalletRequest \<Rightarrow> string \<Rightarrow> gotime \<Rightarrow> Wallet" where
  "new_wallet walletID req userID now =
     \<lparr>wa_ID = walletID, wa_WalletType = cw_WalletType req, wa_Blockchain = cw_Blockchain req, wa_Name = cw_Name req,
      wa_Description = cw_Description req, wa_Threshold = cw_Threshold req, wa_TotalSigners = cw_TotalSigners req,
      wa_Status = ''CREATING'', wa_CreatedAt = now, wa_UpdatedAt = now, wa_CreatedBy = userID\<rparr>"

definition CreateWallet ::
  "string \<Rightarrow> CreateWalletRequest \<Rightarrow> string \<Rightarrow> WalletWorld \<Rightarrow> (goerror + Wallet) \<times> WalletWorld" where
  "CreateWallet walletID req userID w0 =
     (case validateWalletConfig (cw_WalletType req) (cw_Blockchain req) (cw_Threshold req) (cw_TotalSigners req) of
        Some e \<Rightarrow> (Inl (''invalid wallet configuration: '' @ e), w0)
      | None \<Rightarrow>
          let wallet = new_wallet walletID req userID (wm_clock w0);
              (err, w1) = wallet_call w0
          in case err of
               Some e \<Rightarrow> (Inl (''failed to create wallet: '' @ e), w1)
             | None \<Rightarrow>
                 (case initiateKeyGeneration wallet (w1\<lparr>wm_wallets := wm_wallets w1 @ [wallet]\<rparr>) of
                    (Some e, w2) \<Rightarrow>
                      (Inl (''failed to initiate key generation: '' @ e), snd (updateWalletStatus walletID ''FAILED'' w2))
                  | (None, w2) \<Rightarrow>
                      (Inr wallet,
                       wallet_logAuditEvent ''WALLET_CREATED'' walletID userID
                         [(''wallet_type'', JStr (cw_WalletType req)), (''blockchain'', JStr (cw_Blockchain req)),
                          (''name'', JStr (cw_Name req))]
                         (redis_Set (''wallet:'' @ walletID) (CachedWallet wallet) hour w2))))"

definition select_wallet :: "string \<Rightarrow> WalletWorld \<Rightarrow> (goerror + Wallet) \<times> WalletWorld" where
  "select_wallet walletID w0 =
     (let (err, w) = wallet_call w0 in
      (case err of
         Some e \<Rightarrow> Inl (''failed to get wallet: '' @ e)
       | None \<Rightarrow> (case find (\<lambda>r. wa_ID r = walletID) (wm_wallets w) of
                   None \<Rightarrow> Inl ''wallet not found'' | Some r \<Rightarrow> Inr r), w))"

definition cache_wallet :: "string \<Rightarrow> Wallet \<Rightarrow> WalletWorld \<Rightarrow> WalletWorld" where
  "cache_wallet walletID wallet = redis_Set (''wallet:'' @ walletID) (CachedWallet wallet) hour"

definition GetWallet :: "string \<Rightarrow> WalletWorld \<Rightarrow> (goerror + Wallet) \<times> WalletWorld" where
  "GetWallet walletID w0 =
     (case redis_Get (''wallet:'' @ walletID) w0 of
        (Some (CachedWallet wallet), w1) \<Rightarrow> (Inr wallet, w1)
      | (_, w1) \<Rightarrow>
          (case select_wallet walletID w1 of
             (Inl e, w2) \<Rightarrow> (Inl e, w2)
           | (Inr wallet, w2) \<Rightarrow> (Inr wallet, cache_wallet walletID wallet w2)))"

section \<open>Addresses\<close>

text \<open>The sixth part of a path, or the empty string: \<open>SPLIT_PART\<close>.\<close>

definition split_part6 :: "string \<Rightarrow> string" where
  "split_part6 path = (let ps = strings_Split CHR ''/'' path in if length ps < 6 then '''' else ps ! 5)"

definition next_index :: "(string \<Rightarrow> int option) \<Rightarrow> string list \<Rightarrow> goerror + int" where
  "next_index cast_integer paths =
     (case those (map (cast_integer \<circ> split_part6) paths) of
        None \<Rightarrow> Inl ''pq: invalid input syntax for type integer''
      | Some is \<Rightarrow>
          let m = (case is of [] \<Rightarrow> -1 | i # is' \<Rightarrow> fold max is' i) in
          if m + 1 \<ge> 2 ^ 31 then Inl ''pq: integer out of range'' else Inr (m + 1))"

definition bip44_path :: "int \<Rightarrow> int \<Rightarrow> string" where
  "bip44_path coinType addressIndex =
     ''m/44'' @ [CHR 0x27] @ ''/'' @ itoa coinType @ [CHR 0x27] @ ''/0'' @ [CHR 0x27] @ ''/0/'' @ itoa addressIndex"

definition coin_type :: "string \<Rightarrow> int" where
  "coin_type blockchain =
     (if blockchain = ''BITCOIN'' then 0 else if blockchain = ''ETHEREUM'' then 60
      else if blockchain = ''LITECOIN'' then 2 else 0)"

definition wallet_paths :: "string \<Rightarrow> WalletWorld \<Rightarrow> string list" where
  "wallet_paths walletID w = map ad_DerivationPath (filter (\<lambda>a. ad_WalletID a = walletID) (wm_addresses w))"

definition generateDerivationPath ::
  "(string \<Rightarrow> int option) \<Rightarrow> string \<Rightarrow> string \<Rightarrow> WalletWorld \<Rightarrow> (goerror + string) \<times> WalletWorld" where
  "generateDerivationPath cast_integer walletID blockchain w0 =
     (let (err, w) = wallet_call w0 in
      (case err of
         Some e \<Rightarrow> Inl e
       | None \<Rightarrow>
           (case next_index cast_integer (wallet_paths walletID w) of
              Inl e \<Rightarrow> Inl e
            | Inr addressIndex \<Rightarrow> Inr (bip44_path (coin_type blockchain) addressIndex)), w))"

definition hex_EncodeToString :: "8 word list \<Rightarrow> string" where
  "hex_EncodeToString bs = concat (map (\<lambda>b. [hex_digit (unat b div 16), hex_digit (unat b mod 16)]) bs)"

text \<open>\<open>xs[:n]\<close>\<close>

definition slice_to :: "nat \<Rightarrow> 'a list \<Rightarrow> 'a list option" where
  "slice_to n xs = (if n \<le> length xs then Some (take n xs) else None)"

definition generateAddress ::
  "(string \<Rightarrow> 8 word list) \<Rightarrow> string \<Rightarrow> string \<Rightarrow> string \<Rightarrow> (string \<times> string) option" where
  "generateAddress sha256 walletID blockchain derivationPath =
     (let hash = sha256 (walletID @ derivationPath);
          pre = (if blockchain = ''BITCOIN'' then ''bc1q'' else if blockchain = ''ETHEREUM'' then ''0x'' else '''')
      in case slice_to 20 hash of
           None \<Rightarrow> None
         | Some h20 \<Rightarrow>
             (case slice_to 33 hash of
                None \<Rightarrow> None
              | Some h33 \<Rightarrow> Some (pre @ hex_EncodeToString h20, hex_EncodeToString h33)))"

definition CreateAddress ::
  "(string \<Rightarrow> 8 word list) \<Rightarrow> (string \<Rightarrow> int option) \<Rightarrow> string \<Rightarrow> string \<Rightarrow> CreateAddressRequest \<Rightarrow> string \<Rightarrow> WalletWorld \<Rightarrow>
   ((goerror + WalletAddress) \<times> WalletWorld) option" where
  "CreateAddress sha256 cast_integer addressID walletID req userID w0 =
     (case GetWallet walletID w0 of
        (Inl e, w1) \<Rightarrow> Some (Inl e, w1)
      | (Inr wallet, w1) \<Rightarrow>
          if wa_Status wallet \<noteq> ''ACTIVE'' then Some (Inl ''wallet is not active'', w1)
          else
            (case (if ca_DerivationPath req = '''' then generateDerivationPath cast_integer walletID (wa_Blockchain wallet) w1
                   else (Inr (ca_DerivationPath req), w1)) of
               (Inl e, w2) \<Rightarrow> Some (Inl (''failed to generate derivation path: '' @ e), w2)
             | (Inr derivationPath, w2) \<Rightarrow>
                 (case generateAddress sha256 walletID (wa_Blockchain wallet) derivationPath of
                    None \<Rightarrow> None
                  | Some (address, publicKey) \<Rightarrow>
                      let walletAddress =
                            \<lparr>ad_ID = addressID, ad_WalletID = walletID, ad_Address = address, ad_AddressType = ca_AddressType req,
                             ad_DerivationPath = derivationPath, ad_PublicKey = publicKey, ad_IsActive = True,
                             ad_CreatedAt = wm_clock w2\<rparr>;
                          (err, w3) = wallet_call w2
                      in case err of
                           Some e \<Rightarrow> Some (Inl (''failed to create address: '' @ e), w3)
                         | None \<Rightarrow>
                             Some (Inr walletAddress,
                               wallet_logAuditEvent ''ADDRESS_CREATED'' walletID userID
                                 [(''address_id'', JStr addressID), (''address'', JStr address),
                                  (''address_type'', JStr (ca_AddressType req)), (''derivation_path'', JStr derivationPath)]
                                 (w3\<lparr>wm_addresses := wm_addresses w3 @ [walletAddress]\<rparr>)))))"

section \<open>Balances\<close>

text \<open>When the connection fails, \<open>rows.Next\<close> answers false as at the end of the rows.\<close>

fun fetch_rows :: "'r list \<Rightarrow> WalletWorld \<Rightarrow> 'r list \<times> WalletWorld" where
  "fetch_rows [] w = ([], w)"
| "fetch_rows (r # rs) w0 =
     (let (err, w) = wallet_call w0 in
      case err of Some _ \<Rightarrow> ([], w) | None \<Rightarrow> (let (rs', w') = fetch_rows rs w in (r # rs', w')))"

definition GetWalletBalance :: "string \<Rightarrow> WalletWorld \<Rightarrow> (goerror + WalletBalance list) \<times> WalletWorld" where
  "GetWalletBalance walletID w0 =
     (let cacheKey = ''balance:'' @ walletID in
      case redis_Get cacheKey w0 of
        (Some (CachedBalances balances), w1) \<Rightarrow> (Inr balances, w1)
      | (_, w1) \<Rightarrow>
          let (err, w2) = wallet_call w1 in
          case err of
            Some e \<Rightarrow> (Inl (''failed to get wallet balance: '' @ e), w2)
          | None \<Rightarrow>
              (let rows = sort_key wb_Asset (filter (\<lambda>b. wb_WalletID b = walletID \<and> wb_Balance b \<noteq> ''0'') (wm_balances w2));
                   (balances, w3) = fetch_rows rows w2
               in (Inr balances, redis_Set cacheKey (CachedBalances balances) (5 * minute) w3)))"

section \<open>Endpoints\<close>

datatype WalletBody =
  WBError string | WBWallet Wallet | WBAddress WalletAddress | WBBalances "WalletBalance list" | WBHealth string string int

definition createWalletHandler ::
  "string \<Rightarrow> goerror + CreateWalletRequest \<Rightarrow> string \<Rightarrow> WalletWorld \<Rightarrow> (int \<times> WalletBody) \<times> WalletWorld" where
  "createWalletHandler walletID bound userID w0 =
     (case bound of
        Inl err \<Rightarrow> ((400, WBError err), w0)
      | Inr req \<Rightarrow>
          if userID = '''' then ((401, WBError ''User ID required''), w0)
          else (case CreateWallet walletID req userID w0 of
                  (Inl err, w) \<Rightarrow> ((500, WBError err), w)
                | (Inr wallet, w) \<Rightarrow> ((201, WBWallet wallet), w)))"

definition getWalletHandler :: "string \<Rightarrow> WalletWorld \<Rightarrow> (int \<times> WalletBody) \<times> WalletWorld" where
  "getWalletHandler walletID w0 =
     (case GetWallet walletID w0 of
        (Inl err, w) \<Rightarrow> (if err = ''wallet not found'' then (404, WBError ''Wallet not found'') else (500, WBError err), w)
      | (Inr wallet, w) \<Rightarrow> ((200, WBWallet wallet), w))"

definition createAddressHandler ::
  "(string \<Rightarrow> 8 word list) \<Rightarrow> (string \<Rightarrow> int option) \<Rightarrow> string \<Rightarrow> string \<Rightarrow> goerror + CreateAddressRequest \<Rightarrow> string \<Rightarrow> WalletWorld \<Rightarrow>
   ((int \<times> WalletBody) \<times> WalletWorld) option" where
  "createAddressHandler sha256 cast_integer addressID walletID bound userID w0 =
     (case bound of
        Inl err \<Rightarrow> Some ((400, WBError err), w0)
      | Inr req \<Rightarrow>
          if userID = '''' then Some ((401, WBError ''User ID required''), w0)
          else map_option (\<lambda>(r, w). (case r of Inl err \<Rightarrow> (500, WBError err) | Inr a \<Rightarrow> (201, WBAddress a), w))
                 (CreateAddress sha256 cast_integer addressID walletID req userID w0))"

definition getWalletBalanceHandler :: "string \<Rightarrow> WalletWorld \<Rightarrow> (int \<times> WalletBody) \<times> WalletWorld" where
  "getWalletBalanceHandler walletID w0 =
     (case GetWalletBalance walletID w0 of
        (Inl err, w) \<Rightarrow> ((500, WBError err), w)
      | (Inr balances, w) \<Rightarrow> ((200, WBBalances balances), w))"

definition wallet_healthCheckHandler :: "gotime \<Rightarrow> int \<times> WalletBody" where
  "wallet_healthCheckHandler now = (200, WBHealth ''healthy'' ''wallet-manager'' (time_Unix now))"

section \<open>Effects on the tables\<close>

lemma wallet_call_none [simp]: "wm_fails w = [] \<Longrightarrow> wallet_call w = (None, w)"
  by (simp add: wallet_call_def)

lemma wallet_call_frame:
  assumes "wallet_call w = (e, w')"
  shows "wm_wallets w' = wm_wallets w" "wm_addresses w' = wm_addresses w" "wm_pending w' = wm_pending w"
    "wm_clock w' = wm_clock w" "wm_cache w' = wm_cache w"
  using assms by (auto simp: wallet_call_def split: list.splits)

lemma redis_frame [simp]:
  "wm_wallets (redis_Set k v t w) = wm_wallets w" "wm_wallets (redis_Del k w) = wm_wallets w"
  "wm_wallets (snd (redis_Get k w)) = wm_wallets w" "wm_wallets (wallet_logAuditEvent a b c d w) = wm_wallets w"
  "wm_addresses (redis_Set k v t w) = wm_addresses w" "wm_addresses (redis_Del k w) = wm_addresses w"
  "wm_addresses (snd (redis_Get k w)) = wm_addresses w" "wm_addresses (wallet_logAuditEvent a b c d w) = wm_addresses w"
  by (auto simp: redis_Set_def redis_Del_def redis_Get_def wallet_logAuditEvent_def Let_def wallet_call_frame
      split: prod.split option.split)

lemma select_wallet_frame:
  assumes "select_wallet i w = (r, w')"
  shows "wm_wallets w' = wm_wallets w" "wm_addresses w' = wm_addresses w"
  using assms by (auto simp: select_wallet_def wallet_call_frame split: prod.splits)

lemma GetWallet_frame:
  assumes "GetWallet i w = (r, w')"
  shows "wm_wallets w' = wm_wallets w" "wm_addresses w' = wm_addresses w"
proof -
  obtain c w1 where c: "redis_Get (''wallet:'' @ i) w = (c, w1)" by fastforce
  obtain s w2 where s: "select_wallet i w1 = (s, w2)" by fastforce
  have "wm_wallets w1 = wm_wallets w" "wm_addresses w1 = wm_addresses w"
    using c redis_frame(3,7) [of "''wallet:'' @ i" w] by simp_all
  then show "wm_wallets w' = wm_wallets w" "wm_addresses w' = wm_addresses w"
    using assms c s select_wallet_frame [OF s]
    by (auto simp: GetWallet_def cache_wallet_def split: option.splits CacheValue.splits sum.splits)
qed

lemma generateDerivationPath_frame:
  assumes "generateDerivationPath ci i b w = (r, w')"
  shows "wm_wallets w' = wm_wallets w" "wm_addresses w' = wm_addresses w"
  using assms by (auto simp: generateDerivationPath_def wallet_call_frame split: prod.splits)

lemma fetch_rows_frame: "wm_wallets (snd (fetch_rows rs w)) = wm_wallets w"
proof (induction rs arbitrary: w)
  case (Cons r rs)
  obtain e w1 where c: "wallet_call w = (e, w1)" by fastforce
  obtain rs' w2 where d: "fetch_rows rs w1 = (rs', w2)" by fastforce
  show ?case using Cons.IH [of w1] wallet_call_frame(1) [OF c] by (simp add: c d split: option.split)
qed simp

lemma GetWalletBalance_frame: "wm_wallets (snd (GetWalletBalance i w)) = wm_wallets w"
proof -
  obtain c w1 where c: "redis_Get (''balance:'' @ i) w = (c, w1)" by fastforce
  obtain e w2 where q: "wallet_call w1 = (e, w2)" by fastforce
  have "wm_wallets w1 = wm_wallets w" using c redis_frame(3) [of "''balance:'' @ i" w] by simp
  moreover have "wm_wallets w2 = wm_wallets w1" by (rule wallet_call_frame [OF q])
  moreover obtain bs w3 where f: "fetch_rows (sort_key wb_Asset
      (filter (\<lambda>b. wb_WalletID b = i \<and> wb_Balance b \<noteq> ''0'') (wm_balances w2))) w2 = (bs, w3)" by fastforce
  moreover have "wm_wallets w3 = wm_wallets w2" using fetch_rows_frame f by (metis snd_conv)
  ultimately show ?thesis
    unfolding GetWalletBalance_def Let_def c by (simp add: q split: option.split CacheValue.split)
qed

section \<open>Addresses cannot be created\<close>

lemma generateAddress_panics: "length (sha256 (walletID @ path)) = 32 \<Longrightarrow> generateAddress sha256 walletID blockchain path = None"
  by (simp add: generateAddress_def slice_to_def Let_def)

lemma CreateAddress_refuses:
  assumes "\<And>x. length (sha256 x) = 32" "CreateAddress sha256 ci a walletID req u w = Some (r, w')"
  shows "\<exists>e. r = Inl e" "wm_addresses w' = wm_addresses w" "wm_wallets w' = wm_wallets w"
proof -
  obtain g w1 where g: "GetWallet walletID w = (g, w1)" by fastforce
  note f1 = GetWallet_frame [OF g]
  have "(\<exists>e. r = Inl e) \<and> wm_addresses w' = wm_addresses w \<and> wm_wallets w' = wm_wallets w"
  proof (cases g)
    case (Inr wallet)
    obtain d w2 where d: "(if ca_DerivationPath req = '''' then generateDerivationPath ci walletID (wa_Blockchain wallet) w1
        else (Inr (ca_DerivationPath req), w1)) = (d, w2)" by fastforce
    have f2: "wm_addresses w2 = wm_addresses w1" "wm_wallets w2 = wm_wallets w1"
      using d generateDerivationPath_frame by (auto split: if_splits)
    show ?thesis
      using assms(2) g Inr d f1 f2 generateAddress_panics [OF assms(1)]
      by (cases d) (auto simp: CreateAddress_def simp del: split_paired_Ex split: if_splits)
  qed (use assms(2) g f1 in \<open>auto simp: CreateAddress_def\<close>)
  then show "\<exists>e. r = Inl e" "wm_addresses w' = wm_addresses w" "wm_wallets w' = wm_wallets w" by blast+
qed

section \<open>Well-configured wallets\<close>

definition well_configured :: "Wallet \<Rightarrow> bool" where
  "well_configured r \<longleftrightarrow>
     wa_WalletType r \<in> {''SINGLE_SIG'', ''MULTI_SIG'', ''MPC'', ''COLD'', ''HOT''} \<and>
     wa_Blockchain r \<in> {''BITCOIN'', ''ETHEREUM'', ''LITECOIN'', ''CARDANO'', ''SOLANA''} \<and>
     (wa_WalletType r \<in> {''MULTI_SIG'', ''MPC''} \<longrightarrow>
        1 \<le> wa_Threshold r \<and> wa_Threshold r \<le> wa_TotalSigners r \<and> wa_TotalSigners r \<le> 15) \<and>
     wa_Status r \<in> {''CREATING'', ''ACTIVE''}"

definition wallets_ok :: "WalletWorld \<Rightarrow> bool" where
  "wallets_ok w \<longleftrightarrow> distinct (map wa_ID (wm_wallets w)) \<and> (\<forall>r \<in> set (wm_wallets w). well_configured r)"

text \<open>
  A step of the service, with the fresh identifiers as arguments: an operation, the end of a key generation, or a
  step of the environment, which lets time pass, changes the balances and fixes the outcome of further
  calls, all of them successful unless \<open>faulty\<close>.
\<close>

inductive wallet_step :: "bool \<Rightarrow> WalletWorld \<Rightarrow> WalletWorld \<Rightarrow> bool" for faulty where
  create: "wallet_step faulty w (snd (CreateWallet i req u w))" if "i \<notin> wa_ID ` set (wm_wallets w)"
| get: "wallet_step faulty w (snd (GetWallet i w))"
| address: "wallet_step faulty w w'" if "CreateAddress sha256 ci a i req u w = Some (r, w')" "\<forall>x. length (sha256 x) = 32"
| balance: "wallet_step faulty w (snd (GetWalletBalance i w))"
| generated: "wallet_step faulty w (finish_key_generation i w)" if "i \<in> set (wm_pending w)"
| environment: "wallet_step faulty w (w\<lparr>wm_clock := t, wm_balances := bs, wm_fails := es\<rparr>)" if "faulty \<or> es = []"

definition empty_wallets :: WalletWorld where
  "empty_wallets = \<lparr>wm_clock = 0, wm_wallets = [], wm_addresses = [], wm_balances = [], wm_cache = [], wm_audit = [],
     wm_pending = [], wm_fails = []\<rparr>"

lemma validated_well_configured:
  assumes "validateWalletConfig (cw_WalletType req) (cw_Blockchain req) (cw_Threshold req) (cw_TotalSigners req) = None"
  shows "well_configured (new_wallet i req u t)"
  using assms
  by (auto simp: validateWalletConfig_def well_configured_def new_wallet_def go_map_simps Let_def split: if_splits)

lemma CreateWallet_wallets:
  "wm_wallets (snd (CreateWallet i req u w)) = wm_wallets w \<or>
   validateWalletConfig (cw_WalletType req) (cw_Blockchain req) (cw_Threshold req) (cw_TotalSigners req) = None \<and>
   wm_wallets (snd (CreateWallet i req u w)) = wm_wallets w @ [new_wallet i req u (wm_clock w)]"
proof (cases "validateWalletConfig (cw_WalletType req) (cw_Blockchain req) (cw_Threshold req) (cw_TotalSigners req)")
  case None
  obtain e w1 where c: "wallet_call w = (e, w1)" by fastforce
  then show ?thesis
    using None wallet_call_frame(1) [OF c]
    by (simp add: CreateWallet_def initiateKeyGeneration_def Let_def split: option.split)
qed (simp add: CreateWallet_def)

lemma updateWalletStatus_wallets:
  "wm_wallets (snd (updateWalletStatus i s w)) = wm_wallets w \<or>
   (\<exists>t. wm_wallets (snd (updateWalletStatus i s w)) =
      map (\<lambda>r. if wa_ID r = i then r\<lparr>wa_Status := s, wa_UpdatedAt := t\<rparr> else r) (wm_wallets w))"
  using wallet_call_frame(1) [of w]
  by (cases "wallet_call w") (auto simp: updateWalletStatus_def split: option.split)

lemma well_configured_active: "well_configured r \<Longrightarrow> well_configured (r\<lparr>wa_Status := ''ACTIVE'', wa_UpdatedAt := t\<rparr>)"
  by (simp add: well_configured_def)

lemma wallets_ok_activate:
  assumes "wallets_ok w" "wm_wallets w' = map (\<lambda>r. if wa_ID r = i then r\<lparr>wa_Status := ''ACTIVE'', wa_UpdatedAt := t\<rparr> else r) (wm_wallets w)"
  shows "wallets_ok w'"
proof -
  have "map wa_ID (wm_wallets w') = map wa_ID (wm_wallets w)" unfolding assms(2) by simp
  moreover have "well_configured r" if "r \<in> set (wm_wallets w')" for r
    using that assms well_configured_active unfolding wallets_ok_def by (auto split: if_splits)
  ultimately show ?thesis using assms(1) by (simp add: wallets_ok_def)
qed

lemma wallets_ok_cong: "wallets_ok w \<Longrightarrow> wm_wallets w' = wm_wallets w \<Longrightarrow> wallets_ok w'"
  by (simp add: wallets_ok_def)

lemma wallets_ok_step: "wallet_step faulty w w' \<Longrightarrow> wallets_ok w \<Longrightarrow> wallets_ok w'"
proof (induction rule: wallet_step.induct)
  case (create i w req u)
  have id: "wa_ID (new_wallet i req u (wm_clock w)) = i" by (simp add: new_wallet_def)
  from CreateWallet_wallets [of i req u w] consider
    "wm_wallets (snd (CreateWallet i req u w)) = wm_wallets w"
  | "well_configured (new_wallet i req u (wm_clock w))"
      "wm_wallets (snd (CreateWallet i req u w)) = wm_wallets w @ [new_wallet i req u (wm_clock w)]"
    using validated_well_configured by blast
  then show ?case
    by cases (use create id in \<open>simp_all add: wallets_ok_def\<close>)
next
  case (generated i w)
  from updateWalletStatus_wallets [of i "''ACTIVE''" "w\<lparr>wm_pending := remove1 i (wm_pending w)\<rparr>"]
  show ?case
    unfolding finish_key_generation_def
    using wallets_ok_activate [OF generated(2)] wallets_ok_cong [OF generated(2)] by fastforce
next
  case (get w i)
  then show ?case using GetWallet_frame(1) [of i w] by (cases "GetWallet i w") (auto intro: wallets_ok_cong)
next
  case (address sha256 ci a i req u w r w')
  then show ?case using CreateAddress_refuses(3) [of sha256] by (auto intro: wallets_ok_cong)
qed (auto intro: wallets_ok_cong simp: GetWalletBalance_frame)

interpretation wallets: transition_system wallet_step wallets_ok
  by unfold_locales (rule wallets_ok_step)

section \<open>Reads that are current\<close>

abbreviation wallet_row :: "string \<Rightarrow> WalletWorld \<Rightarrow> Wallet option" where
  "wallet_row i w \<equiv> find (\<lambda>r. wa_ID r = i) (wm_wallets w)"

text \<open>
  No call fails, what is cached of a wallet is its row, and a wallet is being created exactly while its key generation
  has not ended.
\<close>

definition coherent :: "WalletWorld \<Rightarrow> bool" where
  "coherent w \<longleftrightarrow> wm_fails w = [] \<and>
     (\<forall>i v t. map_of (wm_cache w) (''wallet:'' @ i) = Some (v, t) \<longrightarrow> (\<exists>r. wallet_row i w = Some r \<and> v = CachedWallet r)) \<and>
     (\<forall>r \<in> set (wm_wallets w). wa_Status r = (if wa_ID r \<in> set (wm_pending w) then ''CREATING'' else ''ACTIVE'')) \<and>
     distinct (wm_pending w) \<and> set (wm_pending w) \<subseteq> wa_ID ` set (wm_wallets w)"

lemma coherentD:
  assumes "coherent w"
  shows "wm_fails w = []" "distinct (wm_pending w)" "set (wm_pending w) \<subseteq> wa_ID ` set (wm_wallets w)"
    "map_of (wm_cache w) (''wallet:'' @ i) = Some (v, t) \<Longrightarrow> \<exists>r. wallet_row i w = Some r \<and> v = CachedWallet r"
    "r \<in> set (wm_wallets w) \<Longrightarrow> wa_Status r = (if wa_ID r \<in> set (wm_pending w) then ''CREATING'' else ''ACTIVE'')"
  using assms unfolding coherent_def by blast+

lemma GetWallet_current:
  assumes "coherent w"
  shows "fst (GetWallet i w) = (case wallet_row i w of None \<Rightarrow> Inl ''wallet not found'' | Some r \<Rightarrow> Inr r)"
    "snd (GetWallet i w) = w \<or>
       (\<exists>r. wallet_row i w = Some r \<and>
         snd (GetWallet i w) = w\<lparr>wm_cache := go_set (''wallet:'' @ i) (CachedWallet r, wm_clock w + hour) (wm_cache w)\<rparr>)"
proof -
  note f = coherentD(1) [OF assms]
  have get: "redis_Get (''wallet:'' @ i) w = (case map_of (wm_cache w) (''wallet:'' @ i) of
      None \<Rightarrow> None | Some (v, t) \<Rightarrow> if wm_clock w \<ge> t then None else Some v, w)"
    unfolding redis_Get_def by (simp add: f Let_def)
  have sel: "select_wallet i w = (case wallet_row i w of None \<Rightarrow> Inl ''wallet not found'' | Some r \<Rightarrow> Inr r, w)"
    by (simp add: select_wallet_def f)
  have set: "cache_wallet i r w = w\<lparr>wm_cache := go_set (''wallet:'' @ i) (CachedWallet r, wm_clock w + hour) (wm_cache w)\<rparr>" for r
    unfolding cache_wallet_def redis_Set_def by (simp add: f Let_def)
  consider "fst (redis_Get (''wallet:'' @ i) w) = None"
    | r where "fst (redis_Get (''wallet:'' @ i) w) = Some (CachedWallet r)" "wallet_row i w = Some r"
    unfolding get using coherentD(4) [OF assms, of i] by (fastforce split: option.splits if_splits)
  then have "fst (GetWallet i w) = (case wallet_row i w of None \<Rightarrow> Inl ''wallet not found'' | Some r \<Rightarrow> Inr r) \<and>
    (snd (GetWallet i w) = w \<or> (\<exists>r. wallet_row i w = Some r \<and> snd (GetWallet i w) = cache_wallet i r w))"
  proof cases
    case 1
    then have "redis_Get (''wallet:'' @ i) w = (None, w)" unfolding get by simp
    then show ?thesis unfolding GetWallet_def by (simp add: sel split: option.split)
  next
    case (2 r)
    then have "redis_Get (''wallet:'' @ i) w = (Some (CachedWallet r), w)" unfolding get by simp
    then show ?thesis unfolding GetWallet_def using 2(2) by simp
  qed
  then show "fst (GetWallet i w) = (case wallet_row i w of None \<Rightarrow> Inl ''wallet not found'' | Some r \<Rightarrow> Inr r)"
    "snd (GetWallet i w) = w \<or>
       (\<exists>r. wallet_row i w = Some r \<and>
         snd (GetWallet i w) = w\<lparr>wm_cache := go_set (''wallet:'' @ i) (CachedWallet r, wm_clock w + hour) (wm_cache w)\<rparr>)"
    unfolding set by blast+
qed

text \<open>Caching what is in the table, or something that is no wallet, keeps a world coherent.\<close>

lemma coherent_cache:
  assumes "coherent w" "\<And>j. k = ''wallet:'' @ j \<Longrightarrow> wallet_row j w = Some r \<and> v = CachedWallet r"
  shows "coherent (w\<lparr>wm_cache := go_set k (v, t) (wm_cache w)\<rparr>)"
  using assms unfolding coherent_def by (auto simp: map_of_go_set split: if_splits)

lemma coherent_get: "coherent w \<Longrightarrow> coherent (snd (GetWallet i w))"
  using GetWallet_current(2) [of w i] coherent_cache [of w "''wallet:'' @ i"] by auto

lemma find_append_row: "find P (xs @ [x]) = (case find P xs of None \<Rightarrow> if P x then Some x else None | Some y \<Rightarrow> Some y)"
  by (induction xs) auto

lemma find_map_row:
  assumes "\<And>r. wa_ID (f r) = wa_ID r"
  shows "find (\<lambda>r. wa_ID r = j) (map f rs) = map_option f (find (\<lambda>r. wa_ID r = j) rs)"
  by (induction rs) (auto simp: assms)

lemma coherent_create:
  assumes "coherent w" "i \<notin> wa_ID ` set (wm_wallets w)"
  shows "coherent (snd (CreateWallet i req u w))"
proof (cases "validateWalletConfig (cw_WalletType req) (cw_Blockchain req) (cw_Threshold req) (cw_TotalSigners req)")
  case None
  note f = coherentD(1) [OF assms(1)]
  let ?new = "new_wallet i req u (wm_clock w)"
  let ?w1 = "w\<lparr>wm_wallets := wm_wallets w @ [?new], wm_pending := wm_pending w @ [i]\<rparr>"
  obtain a where w': "snd (CreateWallet i req u w) =
      ?w1\<lparr>wm_cache := go_set (''wallet:'' @ i) (CachedWallet ?new, wm_clock w + hour) (wm_cache w), wm_audit := a\<rparr>"
    unfolding CreateWallet_def initiateKeyGeneration_def redis_Set_def wallet_logAuditEvent_def
    using None f by (simp add: Let_def new_wallet_def)
  have new: "wa_ID ?new = i" "wa_Status ?new = ''CREATING''" by (simp_all add: new_wallet_def)
  have fresh: "i \<notin> set (wm_pending w)" using coherentD(3) [OF assms(1)] assms(2) by blast
  have row: "wallet_row j ?w1 = (if j = i then Some ?new else wallet_row j w)" for j
  proof -
    have "wallet_row i w = None" using assms(2) by (auto simp: find_None_iff)
    then show ?thesis by (auto simp: find_append_row new split: option.split)
  qed
  have "coherent ?w1"
    unfolding coherent_def
  proof (intro conjI allI impI ballI)
    fix j v t assume "map_of (wm_cache ?w1) (''wallet:'' @ j) = Some (v, t)"
    then have c: "map_of (wm_cache w) (''wallet:'' @ j) = Some (v, t)" by simp
    from coherentD(4) [OF assms(1) c] obtain r where "wallet_row j w = Some r" "v = CachedWallet r" by blast
    moreover have "wallet_row i w = None" using assms(2) by (auto simp: find_None_iff)
    ultimately show "\<exists>r. wallet_row j ?w1 = Some r \<and> v = CachedWallet r" unfolding row by auto
  next
    fix r assume "r \<in> set (wm_wallets ?w1)"
    then show "wa_Status r = (if wa_ID r \<in> set (wm_pending ?w1) then ''CREATING'' else ''ACTIVE'')"
      using coherentD(5) [OF assms(1), of r] assms(2) new by auto
  qed (use f fresh coherentD(2,3) [OF assms(1)] new in auto)
  then have "coherent (?w1\<lparr>wm_cache := go_set (''wallet:'' @ i) (CachedWallet ?new, wm_clock w + hour) (wm_cache ?w1)\<rparr>)"
    by (rule coherent_cache [where r = ?new]) (use row in auto)
  then show ?thesis unfolding w' coherent_def by simp
qed (use assms in \<open>simp add: CreateWallet_def\<close>)

lemma coherent_finish:
  assumes "coherent w" "i \<in> set (wm_pending w)"
  shows "coherent (finish_key_generation i w)"
proof -
  note f = coherentD(1) [OF assms(1)]
  let ?g = "\<lambda>r. if wa_ID r = i then r\<lparr>wa_Status := ''ACTIVE'', wa_UpdatedAt := wm_clock w\<rparr> else r"
  have w': "finish_key_generation i w =
      w\<lparr>wm_pending := remove1 i (wm_pending w), wm_wallets := map ?g (wm_wallets w), wm_cache := go_del (''wallet:'' @ i) (wm_cache w)\<rparr>"
    unfolding finish_key_generation_def updateWalletStatus_def redis_Del_def by (simp add: f Let_def)
  have id: "wa_ID (?g r) = wa_ID r" for r by simp
  have pend: "set (remove1 i (wm_pending w)) = set (wm_pending w) - {i}"
    using coherentD(2) [OF assms(1)] by simp
  show ?thesis
    unfolding coherent_def
  proof (intro conjI allI impI ballI)
    fix j v t assume "map_of (wm_cache (finish_key_generation i w)) (''wallet:'' @ j) = Some (v, t)"
    then have ji: "j \<noteq> i" and c: "map_of (wm_cache w) (''wallet:'' @ j) = Some (v, t)" by (auto simp: w' map_of_go_del split: if_splits)
    from coherentD(4) [OF assms(1) c] obtain r where r: "wallet_row j w = Some r" "v = CachedWallet r" by blast
    then have "wa_ID r = j" by (auto simp: find_Some_iff)
    with r ji show "\<exists>r. wallet_row j (finish_key_generation i w) = Some r \<and> v = CachedWallet r"
      using find_map_row [of ?g j "wm_wallets w", OF id] by (simp add: w')
  next
    fix r assume "r \<in> set (wm_wallets (finish_key_generation i w))"
    then obtain r0 where "r0 \<in> set (wm_wallets w)" "r = ?g r0" by (auto simp: w')
    then show "wa_Status r = (if wa_ID r \<in> set (wm_pending (finish_key_generation i w)) then ''CREATING'' else ''ACTIVE'')"
      using coherentD(5) [OF assms(1), of r0] pend by (simp add: w' split: if_splits)
  next
    have "map wa_ID (wm_wallets (finish_key_generation i w)) = map wa_ID (wm_wallets w)" by (simp add: w')
    then have "wa_ID ` set (wm_wallets (finish_key_generation i w)) = wa_ID ` set (wm_wallets w)" by (metis set_map)
    then show "set (wm_pending (finish_key_generation i w)) \<subseteq> wa_ID ` set (wm_wallets (finish_key_generation i w))"
      using coherentD(3) [OF assms(1)] pend by (auto simp: w')
  qed (use f coherentD(2) [OF assms(1)] in \<open>simp_all add: w'\<close>)
qed

lemma coherent_balance:
  assumes "coherent w"
  shows "coherent (snd (GetWalletBalance i w))"
proof -
  note f = coherentD(1) [OF assms]
  have fetch: "fetch_rows rs w = (rs, w)" for rs :: "WalletBalance list" by (induction rs) (simp_all add: f)
  let ?c = "\<lambda>v t. w\<lparr>wm_cache := go_set (''balance:'' @ i) (v, t) (wm_cache w)\<rparr>"
  have set: "redis_Set (''balance:'' @ i) v t w = ?c v (wm_clock w + t)" for v t
    unfolding redis_Set_def by (simp add: f Let_def)
  have ok: "coherent (redis_Set (''balance:'' @ i) v t w)" for v t
    unfolding set by (rule coherent_cache [OF assms]) simp
  obtain c where get: "redis_Get (''balance:'' @ i) w = (c, w)" unfolding redis_Get_def by (simp add: f Let_def)
  show ?thesis
    unfolding GetWalletBalance_def Let_def get
    using assms ok by (auto simp: f fetch split: option.split CacheValue.split)
qed

lemma coherent_address:
  assumes "coherent w" "CreateAddress sha256 ci a i req u w = Some (r, w')" "\<forall>x. length (sha256 x) = 32"
  shows "w' = snd (GetWallet i w)"
proof -
  obtain g w1 where g: "GetWallet i w = (g, w1)" by fastforce
  have "wm_fails w1 = []" using coherent_get [OF assms(1), of i] g by (simp add: coherentD(1))
  then have path: "\<exists>d. generateDerivationPath ci i b w1 = (d, w1)" for b by (simp add: generateDerivationPath_def)
  show ?thesis
  proof (cases g)
    case (Inr wallet)
    obtain d where d: "(if ca_DerivationPath req = '''' then generateDerivationPath ci i (wa_Blockchain wallet) w1
        else (Inr (ca_DerivationPath req), w1)) = (d, w1)" using path by fastforce
    show ?thesis
      using assms(2,3) g Inr d generateAddress_panics
      by (cases d) (auto simp: CreateAddress_def split: if_splits)
  qed (use assms(2) g in \<open>auto simp: CreateAddress_def\<close>)
qed

lemma coherent_step: "wallet_step False w w' \<Longrightarrow> coherent w \<Longrightarrow> coherent w'"
proof (induction rule: wallet_step.induct)
  case (address sha256 ci a i req u w r w')
  then show ?case using coherent_address [of w sha256 ci a i req u r w'] coherent_get [of w i] by simp
next
  case (environment es w t bs)
  then show ?case unfolding coherent_def by simp
qed (simp_all add: coherent_create coherent_get coherent_balance coherent_finish)

interpretation undisturbed: transition_system "\<lambda>_ :: unit. wallet_step False" coherent
  by unfold_locales (rule coherent_step)

section \<open>Derivation paths\<close>

lemma itoa_no_slash: "CHR ''/'' \<notin> set (itoa n)"
  using decimal_nat_digits [of "nat n"] decimal_nat_digits [of "nat (- n)"]
  by (auto simp: itoa_def list_all_iff is_digit_def)

lemma path_index: "split_part6 (bip44_path c n) = itoa n"
proof -
  let ?ps = "[''m'', ''44'' @ [CHR 0x27], itoa c @ [CHR 0x27], ''0'' @ [CHR 0x27], ''0'', itoa n]"
  have "bip44_path c n = strings_Join CHR ''/'' ?ps" by (simp add: bip44_path_def)
  moreover have "strings_Split CHR ''/'' (strings_Join CHR ''/'' ?ps) = ?ps"
    by (rule Split_Join) (simp_all add: itoa_no_slash)
  ultimately show ?thesis by (simp only: split_part6_def Let_def) simp
qed

lemma fold_max_ge: "n \<in> set (i # is) \<Longrightarrow> n \<le> fold max is (i :: int)"
  by (simp flip: Max.set_eq_fold)

lemma fold_max_in: "fold max is (i :: int) \<in> set (i # is)"
  by (simp flip: Max.set_eq_fold) (use Max_in [of "insert i (set is)"] in auto)

lemma those_map_Some: "(\<And>x. x \<in> set xs \<Longrightarrow> f x = Some (g x)) \<Longrightarrow> those (map f xs) = Some (map g xs)"
  by (induction xs) simp_all

lemma next_index_fresh:
  assumes cast: "\<And>n. 0 \<le> n \<Longrightarrow> n < 2 ^ 31 \<Longrightarrow> ci (itoa n) = Some n"
    and ps: "\<And>c n. (c, n) \<in> set ps \<Longrightarrow> 0 \<le> n \<and> n < 2 ^ 31 - 1"
  shows "\<exists>n. next_index ci (map (\<lambda>(c, n). bip44_path c n) ps) = Inr n \<and> 0 \<le> n \<and> n < 2 ^ 31 \<and> (\<forall>p \<in> set ps. snd p < n)"
proof -
  let ?is = "map snd ps"
  let ?m = "case ?is of [] \<Rightarrow> -1 | i # is \<Rightarrow> fold max is i"
  have "those (map (ci \<circ> split_part6 \<circ> (\<lambda>(c, n). bip44_path c n)) ps) = Some ?is"
    by (rule those_map_Some) (use ps cast in \<open>fastforce simp: path_index\<close>)
  then have idx: "next_index ci (map (\<lambda>(c, n). bip44_path c n) ps) = (if ?m + 1 \<ge> 2 ^ 31 then Inl ''pq: integer out of range'' else Inr (?m + 1))"
    by (simp add: next_index_def Let_def comp_assoc)
  have "-1 \<le> ?m \<and> ?m < 2 ^ 31 - 1 \<and> (\<forall>p \<in> set ps. snd p \<le> ?m)"
  proof (cases ps)
    case (Cons p qs)
    have "?m \<in> snd ` set ps" using fold_max_in [of "map snd qs" "snd p"] by (auto simp: Cons)
    then have "0 \<le> ?m \<and> ?m < 2 ^ 31 - 1" using ps by force
    moreover have "snd q \<le> ?m" if "q \<in> set ps" for q
      using fold_max_ge [of "snd q" "snd p" "map snd qs"] that by (auto simp: Cons)
    ultimately show ?thesis by auto
  qed simp
  then show ?thesis unfolding idx by auto
qed

section \<open>Properties\<close>

text \<open>
  In every run, whatever external calls fail, wallet identifiers are unique, every wallet has a known type and
  blockchain, a wallet with several signers has a threshold between one and the number of signers, which is at most fifteen,
  and the status of a wallet is \<open>CREATING\<close> or \<open>ACTIVE\<close>, never \<open>FAILED\<close>.
\<close>

theorem wallets_well_configured:
  assumes "(wallet_step faulty)\<^sup>*\<^sup>* empty_wallets w"
  shows "wallets_ok w"
  by (rule wallets.ainv_run [OF assms]) (simp add: wallets_ok_def empty_wallets_def)

text \<open>
  C19: When operations do not overlap and no call fails, a read returns the row of the wallet as it is in the table, from
  the cache or not, and reports a missing wallet exactly when there is none; a wallet is \<open>CREATING\<close> until its key
  generation ends and \<open>ACTIVE\<close> from then on.
\<close>

theorem wallet_reads_are_current:
  assumes "(wallet_step False)\<^sup>*\<^sup>* empty_wallets w"
  shows "case find (\<lambda>r. wa_ID r = i) (wm_wallets w) of
      None \<Rightarrow> fst (GetWallet i w) = Inl ''wallet not found''
    | Some r \<Rightarrow> fst (GetWallet i w) = Inr r \<and> wa_Status r = (if i \<in> set (wm_pending w) then ''CREATING'' else ''ACTIVE'')"
proof -
  have c: "coherent w"
    by (rule undisturbed.ainv_run [OF assms]) (simp add: coherent_def empty_wallets_def)
  show ?thesis
  proof (cases "wallet_row i w")
    case (Some r)
    then have "r \<in> set (wm_wallets w)" "wa_ID r = i" by (auto simp: find_Some_iff)
    then show ?thesis using GetWallet_current(1) [OF c, of i] coherentD(5) [OF c, of r] Some by simp
  qed (use GetWallet_current(1) [OF c, of i] in simp)
qed

text \<open>
  A read that selects the row of a wallet before its key generation ends and caches it afterwards leaves the old
  row in the cache: for an hour every read answers that the wallet is being created and no address can be asked for,
  although the wallet is active in the table.
\<close>

theorem stale_wallet_after_overlap:
  assumes "coherent w" "select_wallet i w = (Inr r, w)" "i \<in> set (wm_pending w)" "t < wm_clock w + hour"
  defines "w' \<equiv> (cache_wallet i r (finish_key_generation i w))\<lparr>wm_clock := t\<rparr>"
  shows "wa_Status r = ''CREATING'' \<and>
    (\<exists>r'. find (\<lambda>r. wa_ID r = i) (wm_wallets w') = Some r' \<and> wa_Status r' = ''ACTIVE'') \<and>
    GetWallet i w' = (Inr r, w') \<and>
    CreateAddress sha256 ci a i req u w' = Some (Inl ''wallet is not active'', w')"
proof -
  note f = coherentD(1) [OF assms(1)]
  let ?g = "\<lambda>r. if wa_ID r = i then r\<lparr>wa_Status := ''ACTIVE'', wa_UpdatedAt := wm_clock w\<rparr> else r"
  have row: "wallet_row i w = Some r" using assms(2) f by (auto simp: select_wallet_def split: option.splits)
  then have r: "r \<in> set (wm_wallets w)" "wa_ID r = i" by (auto simp: find_Some_iff)
  have status: "wa_Status r = ''CREATING''" using coherentD(5) [OF assms(1) r(1)] r(2) assms(3) by simp
  have w': "w' = w\<lparr>wm_pending := remove1 i (wm_pending w), wm_wallets := map ?g (wm_wallets w),
      wm_cache := go_set (''wallet:'' @ i) (CachedWallet r, wm_clock w + hour) (go_del (''wallet:'' @ i) (wm_cache w)), wm_clock := t\<rparr>"
    unfolding w'_def cache_wallet_def redis_Set_def finish_key_generation_def updateWalletStatus_def redis_Del_def
    by (simp add: f Let_def)
  have "redis_Get (''wallet:'' @ i) w' = (Some (CachedWallet r), w')"
    unfolding redis_Get_def w' using assms(4) by (simp add: f Let_def go_map_simps)
  then have get: "GetWallet i w' = (Inr r, w')" unfolding GetWallet_def by simp
  have id: "wa_ID (?g r) = wa_ID r" for r by simp
  have "find (\<lambda>r. wa_ID r = i) (wm_wallets w') = Some (?g r)"
    using find_map_row [of ?g i "wm_wallets w", OF id] row by (simp add: w')
  then show ?thesis using get status r(2) by (simp add: CreateAddress_def)
qed

text \<open>
  When the derivation paths of a wallet are the generated ones, the next generated path has an index above all of
  theirs and is different from them; the first has the index 0.
\<close>

theorem derivation_paths_fresh:
  assumes "\<And>n. 0 \<le> n \<Longrightarrow> n < 2 ^ 31 \<Longrightarrow> cast_integer (itoa n) = Some n"
    and "wallet_paths i w = map (\<lambda>(c, n). bip44_path c n) ps"
    and "\<And>c n. (c, n) \<in> set ps \<Longrightarrow> 0 \<le> n \<and> n < 2 ^ 31 - 1"
    and "wm_fails w = []"
  shows "\<exists>n. generateDerivationPath cast_integer i blockchain w = (Inr (bip44_path (coin_type blockchain) n), w) \<and>
    (\<forall>p \<in> set ps. snd p < n) \<and> (ps = [] \<longrightarrow> n = 0) \<and> bip44_path (coin_type blockchain) n \<notin> set (wallet_paths i w)"
proof -
  have "\<exists>n. next_index cast_integer (wallet_paths i w) = Inr n \<and> 0 \<le> n \<and> n < 2 ^ 31 \<and> (\<forall>p \<in> set ps. snd p < n)"
    unfolding assms(2) by (rule next_index_fresh) (erule (1) assms(1), erule assms(3))
  then obtain n where n: "next_index cast_integer (wallet_paths i w) = Inr n" "0 \<le> n" "n < 2 ^ 31" "\<forall>p \<in> set ps. snd p < n"
    by blast
  have "bip44_path c m \<noteq> bip44_path (coin_type blockchain) n" if "(c, m) \<in> set ps" for c m
  proof
    assume "bip44_path c m = bip44_path (coin_type blockchain) n"
    then have eq: "itoa m = itoa n" by (metis path_index)
    have "cast_integer (itoa m) = Some m" by (rule assms(1)) (use assms(3) [OF that] in simp_all)
    moreover have "cast_integer (itoa n) = Some n" by (rule assms(1) [OF n(2,3)])
    ultimately have "m = n" unfolding eq by simp
    then show False using n(4) that by fastforce
  qed
  then have "bip44_path (coin_type blockchain) n \<notin> set (wallet_paths i w)" unfolding assms(2) by fastforce
  moreover have "n = 0" if "ps = []" using n(1) that unfolding assms(2) by (simp add: next_index_def)
  moreover have "generateDerivationPath cast_integer i blockchain w = (Inr (bip44_path (coin_type blockchain) n), w)"
    by (simp add: generateDerivationPath_def assms(4) n(1))
  ultimately show ?thesis using n(4) by blast
qed

text \<open>
  No address can be created: \<open>generateAddress\<close> takes 33 bytes of a digest of 32, so that a request for an active wallet
  with a path panics, and a request that returns answers an error and adds no address.
\<close>

theorem no_address_is_created:
  assumes "\<And>x. length (sha256 x) = 32"
  shows "(case CreateAddress sha256 ci a i req u w of
      None \<Rightarrow> True
    | Some (r, w') \<Rightarrow> (\<exists>e. r = Inl e) \<and> wm_addresses w' = wm_addresses w) \<and>
    (\<forall>wallet w1. GetWallet i w = (Inr wallet, w1) \<longrightarrow> wa_Status wallet = ''ACTIVE'' \<longrightarrow> ca_DerivationPath req \<noteq> '''' \<longrightarrow>
      CreateAddress sha256 ci a i req u w = None)"
  using CreateAddress_refuses(1,2) [of sha256 ci a i req u w] assms generateAddress_panics
  by (auto simp: CreateAddress_def [of _ _ _ _ _ _ w] split: option.split)

section \<open>Examples\<close>

definition sample_wallet_request :: CreateWalletRequest where
  "sample_wallet_request = \<lparr>cw_WalletType = ''MPC'', cw_Blockchain = ''BITCOIN'', cw_Name = ''treasury'', cw_Description = '''',
     cw_Threshold = 2, cw_TotalSigners = 3\<rparr>"

definition sample_wallets :: WalletWorld where
  "sample_wallets = snd (CreateWallet ''w1'' sample_wallet_request ''u'' empty_wallets)"

definition sample_address :: WalletAddress where
  "sample_address = \<lparr>ad_ID = ''a1'', ad_WalletID = ''w1'', ad_Address = ''bc1q'', ad_AddressType = ''DEPOSIT'',
     ad_DerivationPath = bip44_path 0 0, ad_PublicKey = '''', ad_IsActive = True, ad_CreatedAt = 0\<rparr>"

lemma sample_wallets_run: "(wallet_step faulty)\<^sup>*\<^sup>* empty_wallets sample_wallets"
  unfolding sample_wallets_def by (rule r_into_rtranclp, rule wallet_step.create) (simp add: empty_wallets_def)

theorem wallets_well_configured_witness: "wallets_ok sample_wallets"
  by (rule wallets_well_configured [OF sample_wallets_run [of True]])

lemma sample_wallet_row:
  "find (\<lambda>r. wa_ID r = ''w1'') (wm_wallets sample_wallets) = Some (new_wallet ''w1'' sample_wallet_request ''u'' 0)"
  by code_simp

theorem wallet_reads_are_current_witness:
  "fst (GetWallet ''w1'' sample_wallets) = Inr (new_wallet ''w1'' sample_wallet_request ''u'' 0)"
  using wallet_reads_are_current [OF sample_wallets_run, of "''w1''"] unfolding sample_wallet_row by simp

theorem stale_wallet_after_overlap_witness:
  "let r = new_wallet ''w1'' sample_wallet_request ''u'' 0;
       w = (cache_wallet ''w1'' r (finish_key_generation ''w1'' sample_wallets))\<lparr>wm_clock := 100\<rparr>
   in GetWallet ''w1'' w = (Inr r, w) \<and> wa_Status r = ''CREATING''"
proof -
  have c: "coherent sample_wallets"
    by (rule undisturbed.ainv_run [OF sample_wallets_run]) (simp add: coherent_def empty_wallets_def)
  have s: "select_wallet ''w1'' sample_wallets = (Inr (new_wallet ''w1'' sample_wallet_request ''u'' 0), sample_wallets)"
    "''w1'' \<in> set (wm_pending sample_wallets)" "100 < wm_clock sample_wallets + hour"
    by code_simp+
  from stale_wallet_after_overlap [OF c s] show ?thesis by (simp add: Let_def)
qed

theorem derivation_paths_fresh_witness:
  "let w = sample_wallets\<lparr>wm_addresses := [sample_address]\<rparr>
   in \<exists>n > 0. generateDerivationPath strconv_Atoi ''w1'' ''BITCOIN'' w = (Inr (bip44_path (coin_type ''BITCOIN'') n), w)"
proof -
  let ?w = "sample_wallets\<lparr>wm_addresses := [sample_address]\<rparr>"
  have "wm_fails ?w = []" by code_simp
  moreover have "wallet_paths ''w1'' ?w = map (\<lambda>(c, n). bip44_path c n) [(0, 0)]"
    by (simp add: wallet_paths_def sample_address_def)
  ultimately have "\<exists>n. generateDerivationPath strconv_Atoi ''w1'' ''BITCOIN'' ?w = (Inr (bip44_path (coin_type ''BITCOIN'') n), ?w) \<and>
      (\<forall>p \<in> set [(0 :: int, 0 :: int)]. snd p < n) \<and> ([(0 :: int, 0 :: int)] = [] \<longrightarrow> n = 0) \<and>
      bip44_path (coin_type ''BITCOIN'') n \<notin> set (wallet_paths ''w1'' ?w)"
    by (intro derivation_paths_fresh) (simp_all add: Atoi_itoa)
  then show ?thesis by (auto simp: Let_def)
qed

theorem no_address_is_created_witness:
  "CreateAddress (\<lambda>_. replicate 32 0) strconv_Atoi ''a1'' ''w1'' \<lparr>ca_AddressType = ''DEPOSIT'', ca_DerivationPath = ''m/0''\<rparr> ''u''
     (finish_key_generation ''w1'' sample_wallets) = None"
proof -
  let ?w = "finish_key_generation ''w1'' sample_wallets"
  have "wa_Status (projr (fst (GetWallet ''w1'' ?w))) = ''ACTIVE''" "isl (fst (GetWallet ''w1'' ?w)) = False"
    by code_simp+
  then obtain wallet w1 where "GetWallet ''w1'' ?w = (Inr wallet, w1)" "wa_Status wallet = ''ACTIVE''"
    by (cases "GetWallet ''w1'' ?w"; cases "fst (GetWallet ''w1'' ?w)") auto
  then show ?thesis
    using no_address_is_created [of "\<lambda>_. replicate 32 0", where w = ?w and i = "''w1''" and a = "''a1''" and u = "''u''" and
        ci = strconv_Atoi and req = "\<lparr>ca_AddressType = ''DEPOSIT'', ca_DerivationPath = ''m/0''\<rparr>"] by simp
qed

end
