(* ===== verification/Time_Travel.thy ===== *)
theory Time_Travel
  imports Go_Prelude
begin

text \<open>
  The time-travel service of the event store, \<open>services/cqrs-event-store/internal/timetravel/service.go\<close>. The event
  store, the snapshot manager and the analytics repository are not in the repository: the record \<open>TravelOps\<close> has the
  calls the service makes to them, and the records of the package \<open>models\<close> have the fields it reads and writes. \<open>tt_show\<close>
  is the text that \<open>fmt\<close> prints for a value with \<open>%v\<close>, \<open>tt_show_time\<close> and \<open>tt_show_duration\<close> the ones of an
  instant and a duration. A \<open>nil\<close> map is \<open>None\<close>. The clock of one call is read once. A restored state shares
  the map of its snapshot and changes it: \<open>RestoreToPointInTime\<close> also gives the snapshot as it leaves it. What a later call gets from the snapshot manager,
  the changed map or a new one, is up to the manager.

  The lemmas show that a restoration from a snapshot equals one from the beginning, that the differences of two states
  patch one into the other, and that a run of the analytics counts every recent event once, provided that the batch size
  is positive: with 0 it never ends.
\<close>

section \<open>Data\<close>

record StoredEvent =
  te_ID :: string
  te_EventType :: string
  te_AggregateType :: string
  te_Version :: int
  te_Timestamp :: gotime
  te_Data :: "jobject option"

record TravelSnapshot =
  sn_Version :: int
  sn_Data :: "jobject option"
  sn_CreatedAt :: gotime

record AggregateState =
  ag_AggregateID :: string
  ag_Version :: int
  ag_Data :: "jobject option"
  ag_Timestamp :: gotime

record Milestone =
  mi_Timestamp :: gotime
  mi_EventType :: string
  mi_Description :: string
  mi_Data :: "jobject option"

record Timeline =
  tl_AggregateID :: string
  tl_StartTime :: gotime
  tl_EndTime :: gotime
  tl_Events :: "StoredEvent list"
  tl_Snapshots :: "TravelSnapshot list"
  tl_Milestones :: "Milestone list"

record StateDifference =
  df_Field :: string
  df_Type :: string
  df_OldValue :: "json option"
  df_NewValue :: "json option"

record StateComparison =
  sc_AggregateID :: string
  sc_Time1 :: gotime
  sc_Time2 :: gotime
  sc_State1 :: AggregateState
  sc_State2 :: AggregateState
  sc_Differences :: "StateDifference list"

record TravelConfig =
  tc_MaxTimeRange :: duration
  tc_BatchSize :: int

record 'w TravelOps =
  tt_GetEventsInTimeRange :: "string \<Rightarrow> int \<Rightarrow> gotime \<Rightarrow> goerror + StoredEvent list"
  tt_GetSnapshotBeforeTime :: "string \<Rightarrow> gotime \<Rightarrow> TravelSnapshot option \<times> goerror option"
  tt_GetSnapshotsInTimeRange :: "string \<Rightarrow> gotime \<Rightarrow> gotime \<Rightarrow> goerror + TravelSnapshot list"
  tt_StoreEventMetric :: "string \<Rightarrow> int \<Rightarrow> gotime \<Rightarrow> 'w \<Rightarrow> goerror option \<times> 'w"
  tt_StoreAggregateMetric :: "string \<Rightarrow> int \<Rightarrow> gotime \<Rightarrow> 'w \<Rightarrow> goerror option \<times> 'w"
  tt_show :: "json \<Rightarrow> string"
  tt_show_time :: "gotime \<Rightarrow> string"
  tt_show_duration :: "duration \<Rightarrow> string"

section \<open>Replaying events\<close>

text \<open>Assignments to the fields of the data, which is made first when it is \<open>nil\<close>.\<close>

definition put_fields :: "(string \<times> json) list \<Rightarrow> AggregateState \<Rightarrow> AggregateState" where
  "put_fields fs state =
     state\<lparr>ag_Data := Some (fold (\<lambda>(k, v). go_set k v) fs (case ag_Data state of None \<Rightarrow> [] | Some m \<Rightarrow> m))\<rparr>"

definition applyItemCreated :: "StoredEvent \<Rightarrow> AggregateState \<Rightarrow> AggregateState" where
  "applyItemCreated event = put_fields [(''status'', JStr ''created''), (''created_at'', JTime (te_Timestamp event))]"

definition applyItemUpdated :: "StoredEvent \<Rightarrow> AggregateState \<Rightarrow> AggregateState" where
  "applyItemUpdated event = put_fields [(''status'', JStr ''updated''), (''updated_at'', JTime (te_Timestamp event))]"

definition applyItemDeleted :: "StoredEvent \<Rightarrow> AggregateState \<Rightarrow> AggregateState" where
  "applyItemDeleted event = put_fields [(''status'', JStr ''deleted''), (''deleted_at'', JTime (te_Timestamp event))]"

definition applyPaymentProcessed :: "StoredEvent \<Rightarrow> AggregateState \<Rightarrow> AggregateState" where
  "applyPaymentProcessed event =
     put_fields [(''payment_status'', JStr ''processed''), (''payment_processed_at'', JTime (te_Timestamp event))]"

definition applySagaStarted :: "StoredEvent \<Rightarrow> AggregateState \<Rightarrow> AggregateState" where
  "applySagaStarted event = put_fields [(''saga_status'', JStr ''started''), (''saga_started_at'', JTime (te_Timestamp event))]"

definition applySagaCompleted :: "StoredEvent \<Rightarrow> AggregateState \<Rightarrow> AggregateState" where
  "applySagaCompleted event =
     put_fields [(''saga_status'', JStr ''completed''), (''saga_completed_at'', JTime (te_Timestamp event))]"

definition applyEventToState :: "StoredEvent \<Rightarrow> AggregateState \<Rightarrow> goerror option \<times> AggregateState" where
  "applyEventToState event state =
     (let t = te_EventType event;
          state' = (if t = ''ItemCreated'' then applyItemCreated event state
                    else if t = ''ItemUpdated'' then applyItemUpdated event state
                    else if t = ''ItemDeleted'' then applyItemDeleted event state
                    else if t = ''PaymentProcessed'' then applyPaymentProcessed event state
                    else if t = ''SagaStarted'' then applySagaStarted event state
                    else if t = ''SagaCompleted'' then applySagaCompleted event state
                    else state)
      in (None, state'\<lparr>ag_Version := te_Version event, ag_Timestamp := te_Timestamp event\<rparr>))"

fun replay :: "StoredEvent list \<Rightarrow> AggregateState \<Rightarrow> goerror + AggregateState" where
  "replay [] state = Inr state"
| "replay (event # events) state =
     (case applyEventToState event state of
        (Some e, _) \<Rightarrow> Inl (''failed to apply event '' @ te_ID event @ '': '' @ e)
      | (None, state') \<Rightarrow> replay events state')"

definition start_state :: "string \<Rightarrow> TravelSnapshot option \<Rightarrow> AggregateState \<times> int" where
  "start_state aggregateID snapshot =
     (case snapshot of
        Some sn \<Rightarrow>
          (\<lparr>ag_AggregateID = aggregateID, ag_Version = sn_Version sn, ag_Data = sn_Data sn, ag_Timestamp = sn_CreatedAt sn\<rparr>,
           wrap64 (sn_Version sn + 1))
      | None \<Rightarrow> (\<lparr>ag_AggregateID = aggregateID, ag_Version = 0, ag_Data = Some [], ag_Timestamp = 0\<rparr>, 1))"

text \<open>The snapshot after the replay: a map that is not \<open>nil\<close> is that of the state.\<close>

definition shared_snapshot :: "TravelSnapshot option \<Rightarrow> goerror + AggregateState \<Rightarrow> TravelSnapshot option" where
  "shared_snapshot snapshot r =
     (case (snapshot, r) of
        (Some sn, Inr state) \<Rightarrow> Some (if sn_Data sn = None then sn else sn\<lparr>sn_Data := ag_Data state\<rparr>)
      | _ \<Rightarrow> snapshot)"

definition RestoreToPointInTime ::
  "'w TravelOps \<Rightarrow> TravelConfig \<Rightarrow> gotime \<Rightarrow> string \<Rightarrow> gotime \<Rightarrow> (goerror + AggregateState) \<times> TravelSnapshot option" where
  "RestoreToPointInTime T cfg now aggregateID pointInTime =
     (if time_Sub now pointInTime > tc_MaxTimeRange cfg
      then (Inl (''point in time '' @ tt_show_time T pointInTime @ '' is beyond maximum allowed range of '' @
             tt_show_duration T (tc_MaxTimeRange cfg)), None)
      else
        let (snapshot, _) = tt_GetSnapshotBeforeTime T aggregateID pointInTime;
            (state, startVersion) = start_state aggregateID snapshot
        in case tt_GetEventsInTimeRange T aggregateID startVersion pointInTime of
             Inl e \<Rightarrow> (Inl (''failed to get events: '' @ e), snapshot)
           | Inr events \<Rightarrow> (let r = replay events state in (r, shared_snapshot snapshot r)))"

section \<open>Timelines\<close>

definition isMilestoneEvent :: "string \<Rightarrow> bool" where
  "isMilestoneEvent eventType =
     list_ex (\<lambda>milestone. eventType = milestone) [''ItemCreated'', ''PaymentProcessed'', ''SagaCompleted'', ''OrderFulfilled'']"

definition getMilestoneDescription :: "string \<Rightarrow> string" where
  "getMilestoneDescription eventType =
     (case map_of [(''ItemCreated'', ''Item was created in inventory''),
                   (''PaymentProcessed'', ''Payment was successfully processed''),
                   (''SagaCompleted'', ''Saga transaction completed successfully''),
                   (''OrderFulfilled'', ''Order was fulfilled and shipped'')] eventType of
        Some desc \<Rightarrow> desc
      | None \<Rightarrow> ''Event: '' @ eventType)"

definition extractMilestones :: "StoredEvent list \<Rightarrow> Milestone list" where
  "extractMilestones events =
     map (\<lambda>e. \<lparr>mi_Timestamp = te_Timestamp e, mi_EventType = te_EventType e,
               mi_Description = getMilestoneDescription (te_EventType e), mi_Data = te_Data e\<rparr>)
       (filter (\<lambda>e. isMilestoneEvent (te_EventType e)) events)"

definition GetTimeline :: "'w TravelOps \<Rightarrow> string \<Rightarrow> gotime \<Rightarrow> gotime \<Rightarrow> goerror + Timeline" where
  "GetTimeline T aggregateID startTime endTime =
     (case tt_GetEventsInTimeRange T aggregateID 0 endTime of
        Inl e \<Rightarrow> Inl (''failed to get events: '' @ e)
      | Inr events \<Rightarrow>
          let filteredEvents = filter (\<lambda>e. te_Timestamp e > startTime \<or> te_Timestamp e = startTime) events;
              snapshots = (case tt_GetSnapshotsInTimeRange T aggregateID startTime endTime of Inl _ \<Rightarrow> [] | Inr s \<Rightarrow> s)
          in Inr \<lparr>tl_AggregateID = aggregateID, tl_StartTime = startTime, tl_EndTime = endTime, tl_Events = filteredEvents,
                  tl_Snapshots = snapshots, tl_Milestones = extractMilestones filteredEvents\<rparr>)"

section \<open>Comparing states\<close>

definition deepEqual :: "'w TravelOps \<Rightarrow> json \<Rightarrow> json \<Rightarrow> bool" where
  "deepEqual T a b = (tt_show T a = tt_show T b)"

definition changed_field :: "'w TravelOps \<Rightarrow> jobject \<Rightarrow> string \<times> json \<Rightarrow> StateDifference list" where
  "changed_field T state1 kv =
     (let (key, value2) = kv in
      case map_of state1 key of
        Some value1 \<Rightarrow>
          if \<not> deepEqual T value1 value2
          then [\<lparr>df_Field = key, df_Type = ''modified'', df_OldValue = Some value1, df_NewValue = Some value2\<rparr>] else []
      | None \<Rightarrow> [\<lparr>df_Field = key, df_Type = ''added'', df_OldValue = None, df_NewValue = Some value2\<rparr>])"

definition removed_field :: "jobject \<Rightarrow> string \<times> json \<Rightarrow> StateDifference list" where
  "removed_field state2 kv =
     (let (key, value1) = kv in
      if map_of state2 key = None
      then [\<lparr>df_Field = key, df_Type = ''removed'', df_OldValue = Some value1, df_NewValue = None\<rparr>] else [])"

definition calculateDifferences :: "'w TravelOps \<Rightarrow> jobject \<Rightarrow> jobject \<Rightarrow> StateDifference list" where
  "calculateDifferences T state1 state2 =
     concat (map (changed_field T state1) state2) @ concat (map (removed_field state2) state1)"

definition data_map :: "jobject option \<Rightarrow> jobject" where
  "data_map d = (case d of None \<Rightarrow> [] | Some m \<Rightarrow> m)"

text \<open>The two states have maps of their own, as when the manager gives out a new snapshot on every call.\<close>

definition CompareStates ::
  "'w TravelOps \<Rightarrow> TravelConfig \<Rightarrow> gotime \<Rightarrow> string \<Rightarrow> gotime \<Rightarrow> gotime \<Rightarrow> goerror + StateComparison" where
  "CompareStates T cfg now aggregateID time1 time2 =
     (case fst (RestoreToPointInTime T cfg now aggregateID time1) of
        Inl e \<Rightarrow> Inl (''failed to restore state at time1: '' @ e)
      | Inr state1 \<Rightarrow>
          (case fst (RestoreToPointInTime T cfg now aggregateID time2) of
             Inl e \<Rightarrow> Inl (''failed to restore state at time2: '' @ e)
           | Inr state2 \<Rightarrow>
               Inr \<lparr>sc_AggregateID = aggregateID, sc_Time1 = time1, sc_Time2 = time2, sc_State1 = state1, sc_State2 = state2,
                    sc_Differences = calculateDifferences T (data_map (ag_Data state1)) (data_map (ag_Data state2))\<rparr>))"

section \<open>Analytics\<close>

record ('e, 'a, 'p) AnalyticsResponse =
  ar_TimeRange :: "gotime \<times> gotime"
  ar_EventAnalytics :: 'e
  ar_AggregateAnalytics :: 'a
  ar_PerformanceAnalytics :: 'p
  ar_GeneratedAt :: gotime

definition GetAnalytics ::
  "(gotime \<Rightarrow> gotime \<Rightarrow> goerror + 'e) \<Rightarrow> (gotime \<Rightarrow> gotime \<Rightarrow> goerror + 'a) \<Rightarrow> (gotime \<Rightarrow> gotime \<Rightarrow> goerror + 'p) \<Rightarrow>
   gotime \<Rightarrow> gotime \<Rightarrow> gotime \<Rightarrow> goerror + ('e, 'a, 'p) AnalyticsResponse" where
  "GetAnalytics GetEventAnalytics GetAggregateAnalytics GetPerformanceAnalytics now startTime endTime =
     (case GetEventAnalytics startTime endTime of
        Inl e \<Rightarrow> Inl (''failed to get event analytics: '' @ e)
      | Inr ev \<Rightarrow>
          (case GetAggregateAnalytics startTime endTime of
             Inl e \<Rightarrow> Inl (''failed to get aggregate analytics: '' @ e)
           | Inr ag \<Rightarrow>
               (case GetPerformanceAnalytics startTime endTime of
                  Inl e \<Rightarrow> Inl (''failed to get performance analytics: '' @ e)
                | Inr pe \<Rightarrow>
                    Inr \<lparr>ar_TimeRange = (startTime, endTime), ar_EventAnalytics = ev, ar_AggregateAnalytics = ag,
                         ar_PerformanceAnalytics = pe, ar_GeneratedAt = now\<rparr>)))"

definition count_by :: "(StoredEvent \<Rightarrow> string) \<Rightarrow> StoredEvent list \<Rightarrow> (string, int) gomap" where
  "count_by f events = fold (\<lambda>e m. go_set (f e) (go_get 0 m (f e) + 1) m) events []"

fun store_metrics ::
  "(string \<Rightarrow> int \<Rightarrow> gotime \<Rightarrow> 'w \<Rightarrow> goerror option \<times> 'w) \<Rightarrow> string \<Rightarrow> gotime \<Rightarrow> (string, int) gomap \<Rightarrow> 'w \<Rightarrow> goerror option \<times> 'w" where
  "store_metrics store what now [] w = (None, w)"
| "store_metrics store what now ((k, n) # kns) w0 =
     (case store k n now w0 of
        (Some e, w) \<Rightarrow> (Some (''failed to store '' @ what @ '' metric: '' @ e), w)
      | (None, w) \<Rightarrow> store_metrics store what now kns w)"

definition processBatch :: "'w TravelOps \<Rightarrow> gotime \<Rightarrow> StoredEvent list \<Rightarrow> 'w \<Rightarrow> goerror option \<times> 'w" where
  "processBatch T now events w0 =
     (let eventCounts = count_by te_EventType events;
          aggregateCounts = count_by te_AggregateType events
      in case store_metrics (tt_StoreEventMetric T) ''event'' now eventCounts w0 of
           (Some e, w) \<Rightarrow> (Some e, w)
         | (None, w) \<Rightarrow> store_metrics (tt_StoreAggregateMetric T) ''aggregate'' now aggregateCounts w)"

text \<open>
  The loop over the batches from the index \<open>i\<close>. \<open>None\<close> when it never ends, \<open>Some None\<close> for the panic of a slice whose
  bounds are out of order.
\<close>

partial_function (option) batch_loop ::
  "(StoredEvent list \<Rightarrow> 'w \<Rightarrow> 'w) \<Rightarrow> int \<Rightarrow> StoredEvent list \<Rightarrow> int \<Rightarrow> 'w \<Rightarrow> 'w option option" where
  "batch_loop process batchSize events i w =
     (if i < int (length events) then
        let e = min (i + batchSize) (int (length events)) in
        if e < i then Some None
        else batch_loop process batchSize events (i + batchSize)
               (process (take (nat (e - i)) (drop (nat i) events)) w)
      else Some (Some w))"

definition processAnalytics ::
  "'w TravelOps \<Rightarrow> TravelConfig \<Rightarrow> gotime \<Rightarrow> 'w \<Rightarrow> (goerror option \<times> 'w) option option" where
  "processAnalytics T cfg now w =
     (case tt_GetEventsInTimeRange T '''' 0 now of
        Inl e \<Rightarrow> Some (Some (Some (''failed to get events for analytics: '' @ e), w))
      | Inr events \<Rightarrow>
          let recentEvents = filter (\<lambda>e. te_Timestamp e > now - hour) events in
          if recentEvents = [] then Some (Some (None, w))
          else map_option (map_option (\<lambda>w'. (None, w')))
                 (batch_loop (\<lambda>batch w. snd (processBatch T now batch w)) (tc_BatchSize cfg) recentEvents 0 w))"

section \<open>Replay\<close>

abbreviation apply_event :: "StoredEvent \<Rightarrow> AggregateState \<Rightarrow> AggregateState" where
  "apply_event e s \<equiv> snd (applyEventToState e s)"

lemma replay_fold: "replay es s = Inr (fold apply_event es s)"
  by (induction es arbitrary: s) (simp_all add: applyEventToState_def Let_def)

lemma apply_event_data:
  assumes "ag_Data s = ag_Data s'"
  shows "ag_Data (apply_event e s) = ag_Data (apply_event e s')"
  using assms
  by (simp add: applyEventToState_def Let_def applyItemCreated_def applyItemUpdated_def applyItemDeleted_def
      applyPaymentProcessed_def applySagaStarted_def applySagaCompleted_def put_fields_def)

lemma fold_apply_data: "ag_Data s = ag_Data s' \<Longrightarrow> ag_Data (fold apply_event es s) = ag_Data (fold apply_event es s')"
proof (induction es arbitrary: s s')
  case (Cons e es)
  show ?case using Cons.IH [OF apply_event_data [OF Cons.prems]] by simp
qed simp

lemma fold_apply_Some: "ag_Data s \<noteq> None \<Longrightarrow> ag_Data (fold apply_event es s) \<noteq> None"
proof (induction es arbitrary: s)
  case (Cons e es)
  have "ag_Data (apply_event e s) \<noteq> None"
    using Cons.prems by (simp add: applyEventToState_def Let_def applyItemCreated_def applyItemUpdated_def applyItemDeleted_def
        applyPaymentProcessed_def applySagaStarted_def applySagaCompleted_def put_fields_def)
  then show ?case using Cons.IH by simp
qed simp

lemma fold_apply_version: "ag_Version (fold apply_event es s) = (if es = [] then ag_Version s else te_Version (last es))"
  by (cases es rule: rev_cases) (simp_all add: applyEventToState_def Let_def)

text \<open>A history in the order of versions splits at the version of a snapshot.\<close>

lemma history_split:
  assumes "sorted_wrt (<) (map te_Version es)" "\<And>e. e \<in> set es \<Longrightarrow> 1 \<le> te_Version e"
    and "\<And>e. e \<in> set es \<Longrightarrow> te_Version e \<le> v \<Longrightarrow> te_Timestamp e \<le> t"
  shows "filter (\<lambda>e. 1 \<le> te_Version e \<and> te_Timestamp e \<le> t) es =
    filter (\<lambda>e. te_Version e \<le> v) es @ filter (\<lambda>e. v + 1 \<le> te_Version e \<and> te_Timestamp e \<le> t) es"
  using assms
proof (induction es)
  case (Cons e es)
  show ?case
  proof (cases "te_Version e \<le> v")
    case False
    then have "\<forall>x \<in> set (e # es). \<not> te_Version x \<le> v" using Cons.prems(1) by force
    then have "filter (\<lambda>e. te_Version e \<le> v) (e # es) = []" by (simp add: filter_empty_conv)
    moreover have "filter (\<lambda>e. 1 \<le> te_Version e \<and> te_Timestamp e \<le> t) (e # es) =
        filter (\<lambda>e. v + 1 \<le> te_Version e \<and> te_Timestamp e \<le> t) (e # es)"
      using Cons.prems(2) \<open>\<forall>x \<in> set (e # es). \<not> te_Version x \<le> v\<close> by (intro filter_cong) force+
    ultimately show ?thesis by simp
  qed (use Cons in simp)
qed simp

section \<open>Differences\<close>

text \<open>What applying a difference does to a state.\<close>

fun patch :: "StateDifference list \<Rightarrow> jobject \<Rightarrow> jobject" where
  "patch [] m = m"
| "patch (d # ds) m =
     patch ds (case df_NewValue d of Some v \<Rightarrow> go_set (df_Field d) v m | None \<Rightarrow> go_del (df_Field d) m)"

lemma patch_append: "patch (xs @ ys) m = patch ys (patch xs m)"
  by (induction xs arbitrary: m) simp_all

lemma patch_changed:
  assumes "go_wf m2"
  shows "map_of (patch (concat (map (changed_field T m1) m2)) m) k =
    (case map_of m2 k of
       None \<Rightarrow> map_of m k
     | Some v2 \<Rightarrow> (case map_of m1 k of
                   Some v1 \<Rightarrow> if deepEqual T v1 v2 then map_of m k else Some v2
                 | None \<Rightarrow> Some v2))"
  using assms
proof (induction m2 arbitrary: m)
  case (Cons kv m2)
  obtain key v where kv: "kv = (key, v)" by (cases kv)
  have "key \<notin> fst ` set m2" using Cons.prems kv by simp
  then have "map_of m2 key = None" by (simp add: map_of_eq_None_iff)
  with Cons kv show ?case
    by (auto simp: patch_append changed_field_def map_of_go_set split: option.splits)
qed simp

lemma patch_removed:
  assumes "go_wf m1"
  shows "map_of (patch (concat (map (removed_field m2) m1)) m) k =
    (if map_of m2 k = None \<and> map_of m1 k \<noteq> None then None else map_of m k)"
  using assms
proof (induction m1 arbitrary: m)
  case (Cons kv m1)
  obtain key v where kv: "kv = (key, v)" by (cases kv)
  have "key \<notin> fst ` set m1" using Cons.prems kv by simp
  then have "map_of m1 key = None" by (simp add: map_of_eq_None_iff)
  with Cons kv show ?case
    by (auto simp: patch_append removed_field_def map_of_go_del)
qed simp

section \<open>Batches\<close>

fun chunks :: "nat \<Rightarrow> 'a list \<Rightarrow> 'a list list" where
  "chunks n xs = (if n = 0 \<or> xs = [] then [] else take n xs # chunks n (drop n xs))"

declare chunks.simps [simp del]

lemma concat_chunks: "0 < n \<Longrightarrow> concat (chunks n xs) = xs"
proof (induction n xs rule: chunks.induct)
  case (1 n xs)
  then show ?case by (subst chunks.simps) simp
qed

lemma batch_loop_chunks:
  assumes "0 < B" "0 \<le> i"
  shows "batch_loop p B es i w = Some (Some (fold p (chunks (nat B) (drop (nat i) es)) w))"
  using assms(2)
proof (induction "length es - nat i" arbitrary: i w rule: less_induct)
  case less
  show ?case
  proof (cases "i < int (length es)")
    case True
    let ?e = "min (i + B) (int (length es))"
    have take: "take (nat (?e - i)) (drop (nat i) es) = take (nat B) (drop (nat i) es)"
      using True less.prems assms(1) by (cases "i + B \<le> int (length es)") (simp_all add: min_def)
    have "batch_loop p B es (i + B) w' = Some (Some (fold p (chunks (nat B) (drop (nat (i + B)) es)) w'))" for w'
      using True less.prems assms(1) by (intro less.hyps) auto
    moreover have "drop (nat (i + B)) es = drop (nat B) (drop (nat i) es)"
      using less.prems assms(1) by (simp add: nat_add_distrib add.commute)
    moreover have "nat i < length es" "\<not> ?e < i" using True less.prems assms(1) by auto
    ultimately show ?thesis
      using True less.prems assms(1) take
      by (subst batch_loop.simps, subst chunks.simps) (simp add: Let_def)
  next
    case False
    then show ?thesis by (subst batch_loop.simps, subst chunks.simps) simp
  qed
qed

lemma batch_loop_zero:
  assumes "es \<noteq> []" "\<And>w. p [] w = w"
  shows "batch_loop p 0 es 0 w = None"
proof (rule ccontr)
  assume "batch_loop p 0 es 0 w \<noteq> None"
  then obtain y where "batch_loop p 0 es 0 w = Some y" by auto
  then have "\<not> (p = p \<and> (0 :: int) = 0 \<and> es = es \<and> (0 :: int) = 0)"
  proof (rule batch_loop.raw_induct [where P = "\<lambda>p' B es' i w y. \<not> (p' = p \<and> B = 0 \<and> es' = es \<and> i = 0)", rotated])
    fix f p' B es' i and w :: 'a and y
    assume IH: "\<And>p' B es' i w y. f p' B es' i w = Some y \<Longrightarrow> \<not> (p' = p \<and> B = 0 \<and> es' = es \<and> i = 0)"
      and eq: "(if i < int (length es') then
          let e = min (i + B) (int (length es')) in if e < i then Some None
          else f p' B es' (i + B) (p' (take (nat (e - i)) (drop (nat i) es')) w) else Some (Some w)) = Some y"
    show "\<not> (p' = p \<and> B = 0 \<and> es' = es \<and> i = 0)"
      using IH [of p 0 es 0 w y] eq assms by (auto simp: Let_def)
  qed
  then show False by simp
qed

lemma last_version:
  assumes "sorted_wrt (<) (map te_Version es)" "e \<in> set es" "te_Version e = v"
  shows "te_Version (last (filter (\<lambda>e. te_Version e \<le> v) es)) = v"
proof -
  let ?xs = "filter (\<lambda>e. te_Version e \<le> v) es"
  have "sorted_wrt (<) (map te_Version ?xs)" using assms(1) by (simp add: sorted_wrt_map sorted_wrt_filter)
  moreover have "e \<in> set ?xs" using assms(2,3) by simp
  moreover have "\<forall>x \<in> set ?xs. te_Version x \<le> v" by simp
  moreover from \<open>e \<in> set ?xs\<close> obtain ys y where ys: "?xs = ys @ [y]" by (metis empty_iff list.set(1) rev_exhaust)
  ultimately have "te_Version y \<le> v" "v \<le> te_Version y" using assms(3) unfolding ys by (auto simp: sorted_wrt_append)
  then show ?thesis unfolding ys by simp
qed

section \<open>Counting\<close>

text \<open>A repository that keeps the metrics it is given, those of event types and those of aggregate types.\<close>

type_synonym metrics = "(string \<times> int) list \<times> (string \<times> int) list"

definition keeps_metrics :: "metrics TravelOps \<Rightarrow> bool" where
  "keeps_metrics T \<longleftrightarrow>
     (\<forall>k n t a b. tt_StoreEventMetric T k n t (a, b) = (None, (a @ [(k, n)], b)) \<and>
        tt_StoreAggregateMetric T k n t (a, b) = (None, (a, b @ [(k, n)])))"

definition total :: "string \<Rightarrow> (string \<times> int) list \<Rightarrow> int" where
  "total k kns = sum_list (map snd (filter (\<lambda>p. fst p = k) kns))"

lemma total_append [simp]: "total k (xs @ ys) = total k xs + total k ys"
  by (simp add: total_def)

lemma total_map: "go_wf m \<Longrightarrow> total k m = go_get 0 m k"
proof (induction m)
  case (Cons p m)
  obtain a n where p: "p = (a, n)" by (cases p)
  with Cons.prems have "a \<notin> fst ` set m" by simp
  with Cons show ?case by (auto simp: total_def p go_map_simps go_get_notin)
qed (simp add: total_def go_map_simps)

lemma count_by_spec:
  "go_wf (count_by f es)" "go_get 0 (count_by f es) k = int (length (filter (\<lambda>e. f e = k) es))"
proof -
  let ?step = "\<lambda>e m. go_set (f e) (go_get 0 m (f e) + 1) m"
  have "go_wf m \<Longrightarrow> go_wf (fold ?step es m)" for m by (induction es arbitrary: m) simp_all
  from this [OF go_wf_Nil] show "go_wf (count_by f es)" unfolding count_by_def .
  have "go_get 0 (fold ?step es m) k = go_get 0 m k + int (length (filter (\<lambda>e. f e = k) es))" for m
    by (induction es arbitrary: m) (auto simp: go_map_simps)
  then show "go_get 0 (count_by f es) k = int (length (filter (\<lambda>e. f e = k) es))"
    by (simp add: count_by_def go_map_simps)
qed

lemma store_metrics_keeps:
  assumes "keeps_metrics T"
  shows "store_metrics (tt_StoreEventMetric T) what now kns (a, b) = (None, (a @ kns, b))"
    "store_metrics (tt_StoreAggregateMetric T) what now kns (a, b) = (None, (a, b @ kns))"
proof -
  have "tt_StoreEventMetric T k n t (a, b) = (None, (a @ [(k, n)], b))"
    "tt_StoreAggregateMetric T k n t (a, b) = (None, (a, b @ [(k, n)]))" for k n t a b
    using assms unfolding keeps_metrics_def by blast+
  then show "store_metrics (tt_StoreEventMetric T) what now kns (a, b) = (None, (a @ kns, b))"
    "store_metrics (tt_StoreAggregateMetric T) what now kns (a, b) = (None, (a, b @ kns))"
    by (induction kns arbitrary: a b) auto
qed

lemma batches_total:
  assumes "keeps_metrics T"
  shows "\<exists>a' b'. fold (\<lambda>batch w. snd (processBatch T now batch w)) bs (a, b) = (a', b') \<and>
    (\<forall>k. total k a' = total k a + int (length (filter (\<lambda>e. te_EventType e = k) (concat bs)))) \<and>
    (\<forall>k. total k b' = total k b + int (length (filter (\<lambda>e. te_AggregateType e = k) (concat bs))))"
proof (induction bs arbitrary: a b)
  case (Cons x bs)
  have step: "snd (processBatch T now x (a, b)) = (a @ count_by te_EventType x, b @ count_by te_AggregateType x)"
    by (simp add: processBatch_def store_metrics_keeps [OF assms])
  from Cons.IH [of "a @ count_by te_EventType x" "b @ count_by te_AggregateType x"] show ?case
    by (auto simp: step total_map count_by_spec)
qed simp

lemma processBatch_empty: "snd (processBatch T now [] w) = w"
  by (simp add: processBatch_def count_by_def)

section \<open>Properties\<close>

text \<open>
  C20: Restoring an aggregate from a snapshot gives the data and the version that a replay of its whole history up to
  the point in time gives. This is for a point in the allowed range, a snapshot that has the data of the replay up to
  its version, which is that of an event, where no event up to it is after the point, and an event store that returns exactly the events it is
  asked for in the order of their versions, from 1. The call leaves the restored data in the map of the snapshot, which it shares.
\<close>

theorem snapshot_restore_equals_replay:
  assumes "\<And>v. tt_GetEventsInTimeRange T aid v t = Inr (filter (\<lambda>e. v \<le> te_Version e \<and> te_Timestamp e \<le> t) es)"
    and "sorted_wrt (<) (map te_Version es)" "\<And>e. e \<in> set es \<Longrightarrow> 1 \<le> te_Version e"
    and "tt_GetSnapshotBeforeTime T aid t = (Some sn, err)" "sn_Version sn < 2 ^ 63 - 1"
    and "sn_Version sn \<in> te_Version ` set es"
    and "\<And>e. e \<in> set es \<Longrightarrow> te_Version e \<le> sn_Version sn \<Longrightarrow> te_Timestamp e \<le> t"
    and "replay (filter (\<lambda>e. te_Version e \<le> sn_Version sn) es) (fst (start_state aid None)) = Inr at_snapshot"
      "sn_Data sn = ag_Data at_snapshot"
    and "time_Sub now t \<le> tc_MaxTimeRange cfg"
  shows "\<exists>s s0. RestoreToPointInTime T cfg now aid t = (Inr s, Some (sn\<lparr>sn_Data := ag_Data s\<rparr>)) \<and>
    RestoreToPointInTime (T\<lparr>tt_GetSnapshotBeforeTime := (\<lambda>_ _. (None, None))\<rparr>) cfg now aid t = (Inr s0, None) \<and>
    ag_Data s = ag_Data s0 \<and> ag_Version s = ag_Version s0"
proof -
  let ?v = "sn_Version sn" and ?init = "fst (start_state aid None)" and ?start = "fst (start_state aid (Some sn))"
  let ?old = "filter (\<lambda>e. te_Version e \<le> ?v) es" and ?new = "filter (\<lambda>e. ?v + 1 \<le> te_Version e \<and> te_Timestamp e \<le> t) es"
  obtain e where e: "e \<in> set es" "te_Version e = ?v" using assms(6) by auto
  have "1 \<le> ?v" using assms(3) [OF e(1)] e(2) by simp
  then have wrap: "wrap64 (?v + 1) = ?v + 1" using assms(5) by (intro wrap64_id) auto
  have split: "filter (\<lambda>e. 1 \<le> te_Version e \<and> te_Timestamp e \<le> t) es = ?old @ ?new"
    by (rule history_split [OF assms(2,3,7)])
  have data: "ag_Data ?start = ag_Data (fold apply_event ?old ?init)"
    using assms(8,9) by (simp add: replay_fold start_state_def)
  have old: "?old \<noteq> []" "te_Version (last ?old) = ?v"
    using e last_version [OF assms(2) e] filter_empty_conv [of "\<lambda>e. te_Version e \<le> ?v" es] by auto
  have version: "ag_Version ?start = ag_Version (fold apply_event ?old ?init)"
    using old by (simp add: fold_apply_version start_state_def)
  have "ag_Data (fold apply_event ?old ?init) \<noteq> None" by (rule fold_apply_Some) (simp add: start_state_def)
  then have "sn_Data sn \<noteq> None" using data by (simp add: start_state_def)
  then have "RestoreToPointInTime T cfg now aid t =
      (Inr (fold apply_event ?new ?start), Some (sn\<lparr>sn_Data := ag_Data (fold apply_event ?new ?start)\<rparr>))"
    using assms(1,4,10) wrap by (auto simp: RestoreToPointInTime_def replay_fold start_state_def shared_snapshot_def Let_def)
  moreover have "RestoreToPointInTime (T\<lparr>tt_GetSnapshotBeforeTime := (\<lambda>_ _. (None, None))\<rparr>) cfg now aid t =
      (Inr (fold apply_event ?new (fold apply_event ?old ?init)), None)"
    using assms(1,10) split by (simp add: RestoreToPointInTime_def replay_fold start_state_def shared_snapshot_def Let_def)
  ultimately show ?thesis
    using fold_apply_data [OF data] version by (auto simp: fold_apply_version)
qed

text \<open>
  C21: The differences of two states patch the first into the second, up to values that print alike, and there are none
  exactly when the states have the same fields with values that print alike.
\<close>

theorem differences_patch:
  assumes "go_wf m1" "go_wf m2"
  shows "rel_option (deepEqual T) (map_of (patch (calculateDifferences T m1 m2) m1) k) (map_of m2 k) \<and>
    (calculateDifferences T m1 m2 = [] \<longleftrightarrow> (\<forall>j. rel_option (deepEqual T) (map_of m1 j) (map_of m2 j)))"
proof
  show "rel_option (deepEqual T) (map_of (patch (calculateDifferences T m1 m2) m1) k) (map_of m2 k)"
    by (auto simp: calculateDifferences_def patch_append patch_removed [OF assms(1)] patch_changed [OF assms(2)] deepEqual_def
        split: option.split)
  have changed: "concat (map (changed_field T m1) m2) = [] \<longleftrightarrow>
      (\<forall>j v2. map_of m2 j = Some v2 \<longrightarrow> (\<exists>v1. map_of m1 j = Some v1 \<and> deepEqual T v1 v2))"
    using assms(2) by (fastforce simp: changed_field_def go_wf_def split: option.splits if_splits)
  have removed: "concat (map (removed_field m2) m1) = [] \<longleftrightarrow> (\<forall>j v1. map_of m1 j = Some v1 \<longrightarrow> map_of m2 j \<noteq> None)"
    using assms(1) by (auto simp: removed_field_def go_wf_def split: if_splits)
  have rel: "rel_option (deepEqual T) x y \<longleftrightarrow>
      (\<forall>v2. y = Some v2 \<longrightarrow> (\<exists>v1. x = Some v1 \<and> deepEqual T v1 v2)) \<and> (\<forall>v1. x = Some v1 \<longrightarrow> y \<noteq> None)" for x y
    by (cases x; cases y) auto
  have "(\<forall>j. rel_option (deepEqual T) (map_of m1 j) (map_of m2 j)) \<longleftrightarrow>
      (\<forall>j v2. map_of m2 j = Some v2 \<longrightarrow> (\<exists>v1. map_of m1 j = Some v1 \<and> deepEqual T v1 v2)) \<and>
      (\<forall>j v1. map_of m1 j = Some v1 \<longrightarrow> map_of m2 j \<noteq> None)"
    unfolding rel by blast
  then show "calculateDifferences T m1 m2 = [] \<longleftrightarrow> (\<forall>j. rel_option (deepEqual T) (map_of m1 j) (map_of m2 j))"
    unfolding calculateDifferences_def using changed removed by simp
qed

text \<open>
  C22: When the events can be fetched and the metrics can be stored, with a positive batch size a run of the analytics ends, and the metrics it stores add up, for every event type and
  every aggregate type, to the number of events of the last hour: every one is counted exactly once per run.
\<close>

theorem analytics_counts_once:
  assumes "keeps_metrics T" "tt_GetEventsInTimeRange T '''' 0 now = Inr events" "0 < tc_BatchSize cfg"
  shows "\<exists>a b. processAnalytics T cfg now ([], []) = Some (Some (None, (a, b))) \<and>
    (\<forall>k. total k a = int (length (filter (\<lambda>e. te_EventType e = k \<and> te_Timestamp e > now - hour) events)) \<and>
         total k b = int (length (filter (\<lambda>e. te_AggregateType e = k \<and> te_Timestamp e > now - hour) events)))"
proof -
  let ?recent = "filter (\<lambda>e. te_Timestamp e > now - hour) events"
  let ?bs = "chunks (nat (tc_BatchSize cfg)) ?recent"
  have cat: "concat ?bs = ?recent" using assms(3) by (intro concat_chunks) simp
  obtain a b where ab: "fold (\<lambda>batch w. snd (processBatch T now batch w)) ?bs ([], []) = (a, b)"
      "\<forall>k. total k a = int (length (filter (\<lambda>e. te_EventType e = k) ?recent))"
      "\<forall>k. total k b = int (length (filter (\<lambda>e. te_AggregateType e = k) ?recent))"
    using batches_total [OF assms(1), of now ?bs "[]" "[]"] unfolding cat by (auto simp: total_def)
  have "processAnalytics T cfg now ([], []) = Some (Some (None, (a, b)))"
  proof (cases "?recent = []")
    case True
    then have "?bs = []" by (simp add: chunks.simps)
    then show ?thesis using ab(1) True assms(2) by (simp add: processAnalytics_def)
  next
    case False
    then show ?thesis
      using assms(2) batch_loop_chunks [OF assms(3), of 0 "\<lambda>batch w. snd (processBatch T now batch w)" ?recent "([], [])"] ab(1)
      by (simp add: processAnalytics_def Let_def)
  qed
  then show ?thesis using ab(2,3) by (auto simp: conj_commute)
qed

text \<open>
  With the batch size 0, which the configuration may have, a run of the analytics with a recent event never ends:
  the loop over the batches stays at its first index.
\<close>

theorem analytics_zero_batch_never_ends:
  assumes "tc_BatchSize cfg = 0" "tt_GetEventsInTimeRange T '''' 0 now = Inr events"
    and "e \<in> set events" "te_Timestamp e > now - hour"
  shows "processAnalytics T cfg now w = None"
proof -
  have "filter (\<lambda>e. te_Timestamp e > now - hour) events \<noteq> []" using assms(3,4) by (auto simp: filter_empty_conv)
  then show ?thesis
    using assms(1,2) batch_loop_zero [of _ "\<lambda>batch w. snd (processBatch T now batch w)", OF _ processBatch_empty]
    by (simp add: processAnalytics_def Let_def)
qed

section \<open>Examples\<close>

definition sample_event :: "int \<Rightarrow> string \<Rightarrow> gotime \<Rightarrow> StoredEvent" where
  "sample_event v t at = \<lparr>te_ID = itoa v, te_EventType = t, te_AggregateType = ''item'', te_Version = v, te_Timestamp = at, te_Data = None\<rparr>"

definition sample_history :: "StoredEvent list" where
  "sample_history = [sample_event 1 ''ItemCreated'' 10, sample_event 2 ''ItemUpdated'' 20]"

definition sample_snapshot :: TravelSnapshot where
  "sample_snapshot = \<lparr>sn_Version = 1, sn_Data = Some [(''status'', JStr ''created''), (''created_at'', JTime 10)], sn_CreatedAt = 15\<rparr>"

definition sample_ops :: "metrics TravelOps" where
  "sample_ops =
     \<lparr>tt_GetEventsInTimeRange = (\<lambda>_ v t. Inr (filter (\<lambda>e. v \<le> te_Version e \<and> te_Timestamp e \<le> t) sample_history)),
      tt_GetSnapshotBeforeTime = (\<lambda>_ _. (Some sample_snapshot, None)), tt_GetSnapshotsInTimeRange = (\<lambda>_ _ _. Inr []),
      tt_StoreEventMetric = (\<lambda>k n _ (a, b). (None, (a @ [(k, n)], b))),
      tt_StoreAggregateMetric = (\<lambda>k n _ (a, b). (None, (a, b @ [(k, n)]))),
      tt_show = (\<lambda>j. case j of JStr s \<Rightarrow> s | _ \<Rightarrow> ''?''), tt_show_time = itoa, tt_show_duration = itoa\<rparr>"

definition sample_config :: "int \<Rightarrow> TravelConfig" where
  "sample_config n = \<lparr>tc_MaxTimeRange = hour, tc_BatchSize = n\<rparr>"

theorem snapshot_restore_equals_replay_witness:
  "\<exists>s s0. RestoreToPointInTime sample_ops (sample_config 1) 30 ''x'' 25 = (Inr s, Some (sample_snapshot\<lparr>sn_Data := ag_Data s\<rparr>)) \<and>
    RestoreToPointInTime (sample_ops\<lparr>tt_GetSnapshotBeforeTime := (\<lambda>_ _. (None, None))\<rparr>) (sample_config 1) 30 ''x'' 25 = (Inr s0, None) \<and>
    ag_Data s = ag_Data s0 \<and> ag_Version s = ag_Version s0"
proof (rule snapshot_restore_equals_replay)
  show "tt_GetEventsInTimeRange sample_ops ''x'' v 25 = Inr (filter (\<lambda>e. v \<le> te_Version e \<and> te_Timestamp e \<le> 25) sample_history)" for v
    by (simp add: sample_ops_def)
  show "sorted_wrt (<) (map te_Version sample_history)" "sn_Version sample_snapshot \<in> te_Version ` set sample_history"
    "sn_Version sample_snapshot < 2 ^ 63 - 1" "time_Sub 30 25 \<le> tc_MaxTimeRange (sample_config 1)"
    by code_simp+
  show "1 \<le> te_Version e" if "e \<in> set sample_history" for e
    using that by (auto simp: sample_history_def sample_event_def)
  show "te_Timestamp e \<le> 25" if "e \<in> set sample_history" for e
    using that by (auto simp: sample_history_def sample_event_def)
  show "tt_GetSnapshotBeforeTime sample_ops ''x'' 25 = (Some sample_snapshot, None)" by (simp add: sample_ops_def)
  show "replay (filter (\<lambda>e. te_Version e \<le> sn_Version sample_snapshot) sample_history) (fst (start_state ''x'' None)) =
      Inr \<lparr>ag_AggregateID = ''x'', ag_Version = 1, ag_Data = sn_Data sample_snapshot, ag_Timestamp = 10\<rparr>"
    by code_simp
  show "sn_Data sample_snapshot =
      ag_Data \<lparr>ag_AggregateID = ''x'', ag_Version = 1, ag_Data = sn_Data sample_snapshot, ag_Timestamp = 10\<rparr>"
    by simp
qed

theorem differences_patch_witness:
  "rel_option (deepEqual sample_ops)
     (map_of (patch (calculateDifferences sample_ops [(''a'', JStr ''x''), (''b'', JStr ''y'')] [(''b'', JStr ''z'')])
        [(''a'', JStr ''x''), (''b'', JStr ''y'')]) ''b'') (Some (JStr ''z''))"
  using differences_patch [of "[(''a'', JStr ''x''), (''b'', JStr ''y'')]" "[(''b'', JStr ''z'')]" sample_ops "''b''"]
  by (simp add: go_wf_def)

lemma sample_events: "tt_GetEventsInTimeRange sample_ops '''' 0 30 = Inr sample_history"
  by code_simp

lemma sample_keeps: "keeps_metrics sample_ops"
  by (simp add: keeps_metrics_def sample_ops_def)

theorem analytics_counts_once_witness:
  "\<exists>a b. processAnalytics sample_ops (sample_config 1) 30 ([], []) = Some (Some (None, (a, b))) \<and>
     total ''ItemCreated'' a = 1 \<and> total ''item'' b = 2"
proof -
  obtain a b where ab: "processAnalytics sample_ops (sample_config 1) 30 ([], []) = Some (Some (None, (a, b)))"
    "\<And>k. total k a = int (length (filter (\<lambda>e. te_EventType e = k \<and> te_Timestamp e > 30 - hour) sample_history))"
    "\<And>k. total k b = int (length (filter (\<lambda>e. te_AggregateType e = k \<and> te_Timestamp e > 30 - hour) sample_history))"
    using analytics_counts_once [OF sample_keeps sample_events, of "sample_config 1"] by (auto simp: sample_config_def)
  moreover have "total ''ItemCreated'' a = 1" "total ''item'' b = 2"
    unfolding ab(2,3) by code_simp+
  ultimately show ?thesis by blast
qed

theorem analytics_zero_batch_never_ends_witness: "processAnalytics sample_ops (sample_config 0) 30 ([], []) = None"
  by (rule analytics_zero_batch_never_ends [OF _ sample_events, of _ "sample_event 1 ''ItemCreated'' 10"])
    (simp_all add: sample_config_def sample_history_def sample_event_def)

end
