(* ===== verification/Message_Validator.thy ===== *)
theory Message_Validator
  imports Go_Env Go_Strings
begin

text \<open>
  The validation of incoming messages, \<open>ai-ml-system/services/data-ingestion/validator.go\<close>. The two regular
  expressions are written out as functions on strings. \<open>marshal\<close> is the JSON encoder, \<open>now\<close> the two readings of the clock by the checks of the timestamp. A \<open>nil\<close> map is \<open>None\<close>,
  a \<open>nil\<close> value is \<open>JNull\<close> or a missing entry.

  The lemmas show that a message is accepted exactly when it satisfies the list of requirements, and that the kind of
  error is empty exactly then.
\<close>

record IncomingMessage =
  im_ID :: string
  im_Source :: string
  im_Type :: string
  im_Timestamp :: gotime
  im_Data :: "jobject option"
  im_Metadata :: "(string, string) gomap option"
  im_IdempotencyKey :: string

record ValidationResult =
  vr_IsValid :: bool
  vr_Errors :: "string list"
  vr_ErrorType :: string

section \<open>Patterns\<close>

definition letter :: "char \<Rightarrow> bool" where
  "letter c = (lower_letter c \<or> upper_letter c)"

definition phone_rest :: "string \<Rightarrow> bool" where
  "phone_rest s = (length s = 9 \<and> hd s \<in> {CHR ''3'', CHR ''|'', CHR ''5'', CHR ''7'', CHR ''8'', CHR ''9''} \<and> list_all is_digit (tl s))"

definition phoneRegex :: "string \<Rightarrow> bool" where
  "phoneRegex s = list_ex (\<lambda>p. prefix p s \<and> phone_rest (drop (length p) s)) [''+84'', ''84'', ''0'']"

definition local_char :: "char \<Rightarrow> bool" where
  "local_char c = (letter c \<or> is_digit c \<or> c \<in> {CHR ''.'', CHR ''_'', CHR ''%'', CHR ''+'', CHR ''-''})"

definition domain_char :: "char \<Rightarrow> bool" where
  "domain_char c = (letter c \<or> is_digit c \<or> c \<in> {CHR ''.'', CHR ''-''})"

text \<open>The dot before the top-level domain is the last one, since the top-level domain has only letters.\<close>

definition emailRegex :: "string \<Rightarrow> bool" where
  "emailRegex s =
     (let l = takeWhile (\<lambda>c. c \<noteq> CHR ''@'') s; d = tl (dropWhile (\<lambda>c. c \<noteq> CHR ''@'') s);
          t = takeWhile (\<lambda>c. c \<noteq> CHR ''.'') (rev d); x = tl (dropWhile (\<lambda>c. c \<noteq> CHR ''.'') (rev d))
      in CHR ''@'' \<in> set s \<and> CHR ''.'' \<in> set d \<and> l \<noteq> [] \<and> list_all local_char l \<and>
         2 \<le> length t \<and> list_all letter t \<and> x \<noteq> [] \<and> list_all domain_char x)"

section \<open>Depth of data\<close>

lemma json_size_member: "(k, v) \<in> set kvs \<Longrightarrow> size v < size (JObj kvs)" "v \<in> set vs \<Longrightarrow> size v < size (JArr vs)"
proof -
  show "(k, v) \<in> set kvs \<Longrightarrow> size v < size (JObj kvs)"
    by (induction kvs) auto
  show "v \<in> set vs \<Longrightarrow> size v < size (JArr vs)"
    by (induction vs) auto
qed

function (sequential) getJSONDepth :: "json \<Rightarrow> int" where
  "getJSONDepth (JObj kvs) = fold (\<lambda>kv m. max m (getJSONDepth (snd kv))) kvs 0 + 1"
| "getJSONDepth (JArr vs) = fold (\<lambda>v m. max m (getJSONDepth v)) vs 0 + 1"
| "getJSONDepth _ = 1"
  by pat_completeness auto
termination
  by (relation "measure size") (auto dest: json_size_member)

section \<open>Requirements\<close>

text \<open>\<open>errors = append(errors, e)\<close> under a condition.\<close>

definition req :: "bool \<Rightarrow> string \<Rightarrow> string list" where
  "req failed e = (if failed then [e] else [])"

definition data_at :: "jobject option \<Rightarrow> string \<Rightarrow> json option" where
  "data_at d k = (case d of None \<Rightarrow> None | Some m \<Rightarrow> map_of m k)"

definition is_nil :: "json option \<Rightarrow> bool" where
  "is_nil v = (case v of None \<Rightarrow> True | Some JNull \<Rightarrow> True | _ \<Rightarrow> False)"

definition meta_at :: "IncomingMessage \<Rightarrow> string \<Rightarrow> string option" where
  "meta_at msg k = (case im_Metadata msg of None \<Rightarrow> None | Some m \<Rightarrow> map_of m k)"

definition validateZaloMessage :: "IncomingMessage \<Rightarrow> string list" where
  "validateZaloMessage msg =
     req (is_nil (data_at (im_Data msg) ''user_id'')) ''Zalo messages must have user_id'' @
     req (is_nil (data_at (im_Data msg) ''conversation_id'')) ''Zalo messages must have conversation_id'' @
     req (data_at (im_Data msg) ''user_id'' = Some (JStr '''')) ''Zalo user_id cannot be empty''"

definition validateWebhookMessage :: "IncomingMessage \<Rightarrow> string list" where
  "validateWebhookMessage msg =
     req (meta_at msg ''webhook_signature'' = Some '''') ''webhook signature cannot be empty'' @
     req (meta_at msg ''webhook_source'' = None) ''webhook messages must have webhook_source in metadata''"

definition validateCSVMessage :: "IncomingMessage \<Rightarrow> string list" where
  "validateCSVMessage msg =
     req (meta_at msg ''csv_file'' = None) ''CSV messages must have csv_file in metadata'' @
     req (meta_at msg ''row_number'' = None) ''CSV messages must have row_number in metadata''"

definition validateAPIMessage :: "IncomingMessage \<Rightarrow> string list" where
  "validateAPIMessage msg = req (meta_at msg ''client_id'' = None) ''API messages should have client_id in metadata''"

definition validateChatMessage :: "IncomingMessage \<Rightarrow> string list" where
  "validateChatMessage msg =
     (if is_nil (data_at (im_Data msg) ''content'') then [''chat messages must have content'']
      else case data_at (im_Data msg) ''content'' of
             Some (JStr content) \<Rightarrow>
               req (length content = 0) ''chat message content cannot be empty'' @
               req (int (length content) > 10000) ''chat message content cannot exceed 10000 characters'' @
               req (is_nil (data_at (im_Data msg) ''sender_id'')) ''chat messages must have sender_id''
           | _ \<Rightarrow> [''chat message content must be a string''])"

definition validateUserEvent :: "IncomingMessage \<Rightarrow> string list" where
  "validateUserEvent msg =
     req (is_nil (data_at (im_Data msg) ''event_name'')) ''user events must have event_name'' @
     req (is_nil (data_at (im_Data msg) ''user_id'')) ''user events must have user_id''"

definition validateSystemEvent :: "IncomingMessage \<Rightarrow> string list" where
  "validateSystemEvent msg =
     req (is_nil (data_at (im_Data msg) ''event_type'')) ''system events must have event_type'' @
     req (is_nil (data_at (im_Data msg) ''severity'')) ''system events must have severity level''"

definition fails_string :: "(string \<Rightarrow> bool) \<Rightarrow> json option \<Rightarrow> bool" where
  "fails_string P v = (case v of Some (JStr s) \<Rightarrow> \<not> P s | _ \<Rightarrow> False)"

definition validateDataFields :: "jobject option \<Rightarrow> string list" where
  "validateDataFields data =
     req (fails_string phoneRegex (data_at data ''phone'')) ''invalid phone number format'' @
     req (fails_string emailRegex (data_at data ''email'')) ''invalid email address format'' @
     req (fails_string (\<lambda>url. prefix ''http://'' url \<or> prefix ''https://'' url) (data_at data ''url''))
       ''URL must start with http:// or https://''"

definition data_depth :: "jobject option \<Rightarrow> int" where
  "data_depth d = getJSONDepth (JObj (case d of None \<Rightarrow> [] | Some m \<Rightarrow> m))"

definition validateDataStructure :: "(jobject option \<Rightarrow> goerror + string) \<Rightarrow> IncomingMessage \<Rightarrow> string list" where
  "validateDataStructure marshal msg =
     (case marshal (im_Data msg) of Inl err \<Rightarrow> [''invalid JSON structure in data: '' @ err] | Inr _ \<Rightarrow> []) @
     (let depth = data_depth (im_Data msg) in
      req (depth > 10) (''data structure too deep (max 10 levels, got '' @ itoa depth @ '')'')) @
     (case marshal (im_Data msg) of
        Inl _ \<Rightarrow> []
      | Inr dataBytes \<Rightarrow> req (int (length dataBytes) > 1024 * 1024)
          (''data payload too large (max 1MB, got '' @ itoa (int (length dataBytes)) @ '' bytes)'')) @
     validateDataFields (im_Data msg)"

section \<open>Validation\<close>

text \<open>The errors so far and their kind, through the parts of \<open>Validate\<close>.\<close>

definition field_check :: "gotime \<times> gotime \<Rightarrow> IncomingMessage \<Rightarrow> string list \<times> string" where
  "field_check now msg =
     (let noData = (case im_Data msg of None \<Rightarrow> True | Some m \<Rightarrow> length m = 0);
          noTime = (im_Timestamp msg = 0);
          late = (\<not> noTime \<and> im_Timestamp msg > fst now + hour);
          old = (\<not> noTime \<and> im_Timestamp msg < snd now + - 30 * 24 * hour);
          errors = req (im_ID msg = '''') ''message ID is required'' @ req (im_Source msg = '''') ''message source is required'' @
            req (im_Type msg = '''') ''message type is required'' @ req noData ''message data is required'' @
            req noTime ''timestamp is required'' @ req late ''timestamp cannot be more than 1 hour in the future'' @
            req old ''timestamp cannot be older than 30 days''
      in (errors, if late \<or> old then ''invalid_timestamp'' else if errors \<noteq> [] then ''missing_required_field'' else ''''))"

definition source_check :: "IncomingMessage \<Rightarrow> string list \<times> string \<Rightarrow> string list \<times> string" where
  "source_check msg = (\<lambda>(errors, errorType).
     (let s = im_Source msg in
      if s = ''zalo'' then (errors @ validateZaloMessage msg, errorType)
      else if s = ''webhook'' then (errors @ validateWebhookMessage msg, errorType)
      else if s = ''csv'' then (errors @ validateCSVMessage msg, errorType)
      else if s = ''api'' then (errors @ validateAPIMessage msg, errorType)
      else (errors @ [''unsupported source: '' @ s], ''unsupported_source'')))"

definition type_check :: "IncomingMessage \<Rightarrow> string list \<times> string \<Rightarrow> string list \<times> string" where
  "type_check msg = (\<lambda>(errors, errorType).
     (let t = im_Type msg in
      if t = ''chat_message'' then (errors @ validateChatMessage msg, errorType)
      else if t = ''user_event'' then (errors @ validateUserEvent msg, errorType)
      else if t = ''system_event'' then (errors @ validateSystemEvent msg, errorType)
      else (errors @ [''unsupported message type: '' @ t], if errorType = '''' then ''unsupported_type'' else errorType)))"

definition structure_check ::
  "(jobject option \<Rightarrow> goerror + string) \<Rightarrow> IncomingMessage \<Rightarrow> string list \<times> string \<Rightarrow> string list \<times> string" where
  "structure_check marshal msg = (\<lambda>(errors, errorType).
     (if length errors = 0
      then let e = validateDataStructure marshal msg in
           (e, if length e > 0 \<and> errorType = '''' then ''invalid_data_structure'' else errorType)
      else (errors, errorType)))"

definition Validate :: "(jobject option \<Rightarrow> goerror + string) \<Rightarrow> gotime \<times> gotime \<Rightarrow> IncomingMessage \<Rightarrow> ValidationResult" where
  "Validate marshal now msg =
     (let (errors, errorType) = structure_check marshal msg (type_check msg (source_check msg (field_check now msg)))
      in \<lparr>vr_IsValid = (length errors = 0), vr_Errors = errors,
          vr_ErrorType = (if length errors > 0 \<and> errorType = '''' then ''validation_error'' else errorType)\<rparr>)"

section \<open>What is accepted\<close>

lemma req_empty [simp]: "req b e = [] \<longleftrightarrow> \<not> b"
  by (simp add: req_def)

text \<open>The requirements of a source, of a type and on the data, and of a message.\<close>

definition source_ok :: "IncomingMessage \<Rightarrow> bool" where
  "source_ok msg \<longleftrightarrow>
     im_Source msg = ''zalo'' \<and> \<not> is_nil (data_at (im_Data msg) ''user_id'') \<and> data_at (im_Data msg) ''user_id'' \<noteq> Some (JStr '''') \<and>
       \<not> is_nil (data_at (im_Data msg) ''conversation_id'') \<or>
     im_Source msg = ''webhook'' \<and> meta_at msg ''webhook_source'' \<noteq> None \<and> meta_at msg ''webhook_signature'' \<noteq> Some '''' \<or>
     im_Source msg = ''csv'' \<and> meta_at msg ''csv_file'' \<noteq> None \<and> meta_at msg ''row_number'' \<noteq> None \<or>
     im_Source msg = ''api'' \<and> meta_at msg ''client_id'' \<noteq> None"

definition type_ok :: "IncomingMessage \<Rightarrow> bool" where
  "type_ok msg \<longleftrightarrow>
     im_Type msg = ''chat_message'' \<and> \<not> is_nil (data_at (im_Data msg) ''sender_id'') \<and>
       (\<exists>content. data_at (im_Data msg) ''content'' = Some (JStr content) \<and> content \<noteq> [] \<and> length content \<le> 10000) \<or>
     im_Type msg = ''user_event'' \<and> \<not> is_nil (data_at (im_Data msg) ''event_name'') \<and> \<not> is_nil (data_at (im_Data msg) ''user_id'') \<or>
     im_Type msg = ''system_event'' \<and> \<not> is_nil (data_at (im_Data msg) ''event_type'') \<and> \<not> is_nil (data_at (im_Data msg) ''severity'')"

definition data_ok :: "(jobject option \<Rightarrow> goerror + string) \<Rightarrow> jobject option \<Rightarrow> bool" where
  "data_ok marshal d \<longleftrightarrow>
     data_at d \<noteq> (\<lambda>_. None) \<and> (\<exists>bytes. marshal d = Inr bytes \<and> length bytes \<le> 1048576) \<and> data_depth d \<le> 10 \<and>
     (\<forall>s. data_at d ''phone'' = Some (JStr s) \<longrightarrow> phoneRegex s) \<and> (\<forall>s. data_at d ''email'' = Some (JStr s) \<longrightarrow> emailRegex s) \<and>
     (\<forall>s. data_at d ''url'' = Some (JStr s) \<longrightarrow> prefix ''http://'' s \<or> prefix ''https://'' s)"

definition message_ok :: "(jobject option \<Rightarrow> goerror + string) \<Rightarrow> gotime \<times> gotime \<Rightarrow> IncomingMessage \<Rightarrow> bool" where
  "message_ok marshal now msg \<longleftrightarrow>
     im_ID msg \<noteq> '''' \<and> im_Timestamp msg \<noteq> 0 \<and> im_Timestamp msg \<le> fst now + hour \<and> snd now - 30 * 24 * hour \<le> im_Timestamp msg \<and>
     source_ok msg \<and> type_ok msg \<and> data_ok marshal (im_Data msg)"

definition source_errors :: "IncomingMessage \<Rightarrow> string list" where
  "source_errors msg =
     (if im_Source msg = ''zalo'' then validateZaloMessage msg else if im_Source msg = ''webhook'' then validateWebhookMessage msg
      else if im_Source msg = ''csv'' then validateCSVMessage msg else if im_Source msg = ''api'' then validateAPIMessage msg
      else [''unsupported source: '' @ im_Source msg])"

definition type_errors :: "IncomingMessage \<Rightarrow> string list" where
  "type_errors msg =
     (if im_Type msg = ''chat_message'' then validateChatMessage msg else if im_Type msg = ''user_event'' then validateUserEvent msg
      else if im_Type msg = ''system_event'' then validateSystemEvent msg else [''unsupported message type: '' @ im_Type msg])"

lemma source_errors_empty: "source_errors msg = [] \<longleftrightarrow> source_ok msg"
  by (auto simp: source_errors_def source_ok_def validateZaloMessage_def validateWebhookMessage_def validateCSVMessage_def
      validateAPIMessage_def)

lemma chat_errors_empty:
  "validateChatMessage msg = [] \<longleftrightarrow> \<not> is_nil (data_at (im_Data msg) ''sender_id'') \<and>
     (\<exists>content. data_at (im_Data msg) ''content'' = Some (JStr content) \<and> content \<noteq> [] \<and> length content \<le> 10000)"
  by (auto simp: validateChatMessage_def is_nil_def split: option.splits json.splits)

lemma type_errors_empty: "type_errors msg = [] \<longleftrightarrow> type_ok msg"
  by (auto simp: type_errors_def type_ok_def chat_errors_empty validateUserEvent_def validateSystemEvent_def)

lemma fails_string_iff: "fails_string P v \<longleftrightarrow> (\<exists>s. v = Some (JStr s) \<and> \<not> P s)"
  by (auto simp: fails_string_def split: option.splits json.splits)

lemma structure_errors_empty:
  "data_at (im_Data msg) \<noteq> (\<lambda>_. None) \<Longrightarrow> validateDataStructure marshal msg = [] \<longleftrightarrow> data_ok marshal (im_Data msg)"
  by (cases "marshal (im_Data msg)")
    (auto simp: validateDataStructure_def validateDataFields_def data_ok_def fails_string_iff not_less Let_def)

lemma no_data_iff: "(case d of None \<Rightarrow> True | Some m \<Rightarrow> length m = 0) \<longleftrightarrow> data_at d = (\<lambda>_. None)"
  by (cases d) (auto simp: data_at_def fun_eq_iff map_of_eq_None_iff)

text \<open>No kind of error is set while there is no error.\<close>

definition kind_set_late :: "string list \<times> string \<Rightarrow> bool" where
  "kind_set_late r \<longleftrightarrow> (fst r = [] \<longrightarrow> snd r = '''')"

lemma field_check_errors:
  "fst (field_check now msg) = [] \<longleftrightarrow>
     im_ID msg \<noteq> '''' \<and> im_Source msg \<noteq> '''' \<and> im_Type msg \<noteq> '''' \<and> data_at (im_Data msg) \<noteq> (\<lambda>_. None) \<and> im_Timestamp msg \<noteq> 0 \<and>
     im_Timestamp msg \<le> fst now + hour \<and> snd now - 30 * 24 * hour \<le> im_Timestamp msg"
  "kind_set_late (field_check now msg)"
  unfolding field_check_def Let_def no_data_iff kind_set_late_def by auto

lemma source_check_errors:
  "fst (source_check msg r) = fst r @ source_errors msg" "kind_set_late r \<Longrightarrow> kind_set_late (source_check msg r)"
  by (cases r; simp add: source_check_def source_errors_def kind_set_late_def Let_def)+

lemma type_check_errors:
  "fst (type_check msg r) = fst r @ type_errors msg" "kind_set_late r \<Longrightarrow> kind_set_late (type_check msg r)"
  by (cases r; simp add: type_check_def type_errors_def kind_set_late_def Let_def)+

lemma structure_check_errors:
  "fst (structure_check marshal msg r) = [] \<longleftrightarrow> fst r = [] \<and> validateDataStructure marshal msg = []"
  "kind_set_late r \<Longrightarrow> kind_set_late (structure_check marshal msg r)"
  by (cases r; auto simp: structure_check_def kind_set_late_def Let_def)+

lemma Validate_errors:
  "vr_IsValid (Validate marshal now msg) \<longleftrightarrow> fst (field_check now msg) = [] \<and>
     source_errors msg = [] \<and> type_errors msg = [] \<and> validateDataStructure marshal msg = []"
  "vr_IsValid (Validate marshal now msg) \<longleftrightarrow> vr_Errors (Validate marshal now msg) = []"
  "vr_IsValid (Validate marshal now msg) \<longleftrightarrow> vr_ErrorType (Validate marshal now msg) = ''''"
proof -
  let ?r = "structure_check marshal msg (type_check msg (source_check msg (field_check now msg)))"
  have kind: "kind_set_late ?r"
    by (intro structure_check_errors(2) type_check_errors(2) source_check_errors(2) field_check_errors(2))
  have none: "fst ?r = [] \<longleftrightarrow> fst (field_check now msg) = [] \<and> source_errors msg = [] \<and> type_errors msg = [] \<and>
      validateDataStructure marshal msg = []"
    by (auto simp: structure_check_errors(1) type_check_errors(1) source_check_errors(1))
  obtain es k where r: "?r = (es, k)" by fastforce
  show "vr_IsValid (Validate marshal now msg) \<longleftrightarrow> fst (field_check now msg) = [] \<and>
      source_errors msg = [] \<and> type_errors msg = [] \<and> validateDataStructure marshal msg = []"
    "vr_IsValid (Validate marshal now msg) \<longleftrightarrow> vr_Errors (Validate marshal now msg) = []"
    "vr_IsValid (Validate marshal now msg) \<longleftrightarrow> vr_ErrorType (Validate marshal now msg) = ''''"
    using kind none unfolding Validate_def r by (auto simp: kind_set_late_def)
qed

lemma Validate_iff: "vr_IsValid (Validate marshal now msg) \<longleftrightarrow> message_ok marshal now msg"
proof -
  have "im_Source msg \<noteq> ''''" if "source_ok msg" using that by (auto simp: source_ok_def)
  moreover have "im_Type msg \<noteq> ''''" if "type_ok msg" using that by (auto simp: type_ok_def)
  ultimately show ?thesis
    using structure_errors_empty [of msg marshal]
    unfolding Validate_errors(1) field_check_errors(1) source_errors_empty type_errors_empty message_ok_def by (auto simp: data_ok_def)
qed

section \<open>Properties\<close>

text \<open>
  C37: A message is accepted exactly when it has an identifier, a timestamp at most an hour ahead and at most thirty days old,
  the fields its source and its type require, and data that can be encoded in at most a megabyte, nests at most ten levels
  deep and has a well-formed phone number, email address and URL where it has strings there. The list of errors and the
  kind of error are empty exactly then.
\<close>
theorem validator_accepts_exactly:
  "(vr_IsValid (Validate marshal now msg) \<longleftrightarrow> message_ok marshal now msg) \<and>
   (vr_Errors (Validate marshal now msg) = [] \<longleftrightarrow> message_ok marshal now msg) \<and>
   (vr_ErrorType (Validate marshal now msg) = '''' \<longleftrightarrow> message_ok marshal now msg)"
  using Validate_iff [of marshal now msg] Validate_errors(2,3) [of marshal now msg] by simp

text \<open>The bar in the character class of the phone pattern is a character like the others.\<close>

lemma phone_with_bar: "phoneRegex ''0|12345678''"
  by code_simp

end
