(* ===== verification/Message_Normalizer.thy ===== *)
theory Message_Normalizer
  imports Message_Validator
begin

text \<open>
  The normalisation of messages, \<open>ai-ml-system/services/data-ingestion/normalizer.go\<close>. The regular expressions are
  written out as scans of the bytes of a string. The record \<open>NormalizerOps\<close> has the functions on text that is not ASCII and
  the parsing of instants: \<open>nz_Reformat layout s\<close> is \<open>s\<close>, parsed with the layout, in the format RFC 3339. The copy of the data
  through JSON equals it. A loop over a map visits the entries it had at the start in the order of their list; the entries that
  \<open>normalizeWebhookMessage\<close> adds while it runs are left as they are when they are visited.

  The lemmas show that phone numbers and event names have a normal form, that accepted phone numbers stay well formed, and
  that the identifier of a Zalo user can be lost.
\<close>

section \<open>Text\<close>

record NormalizerOps =
  nz_Unicode :: UnicodeOps
  nz_StripControl :: "string \<Rightarrow> string"
  nz_Reformat :: "string \<Rightarrow> string \<Rightarrow> string option"

definition regex_space :: "char \<Rightarrow> bool" where
  "regex_space c = (c \<in> {CHR 0x09, CHR 0x0A, CHR 0x0C, CHR 0x0D, CHR '' ''})"

text \<open>Runs of white space become one space; the flag says that the last byte was white space.\<close>

fun collapse_spaces :: "bool \<Rightarrow> string \<Rightarrow> string" where
  "collapse_spaces b [] = []"
| "collapse_spaces b (c # cs) =
     (if regex_space c then (if b then collapse_spaces True cs else CHR '' '' # collapse_spaces True cs)
      else c # collapse_spaces False cs)"

definition control_char :: "char \<Rightarrow> bool" where
  "control_char c = ((of_char c < (32 :: nat) \<or> of_char c = (127 :: nat)) \<and> c \<notin> {CHR 0x0A, CHR 0x09, CHR 0x0D})"

definition removeControlCharacters :: "NormalizerOps \<Rightarrow> string \<Rightarrow> string" where
  "removeControlCharacters N s = (if ascii_string s then filter (\<lambda>c. \<not> control_char c) s else nz_StripControl N s)"

definition normalizeUnicode :: "NormalizerOps \<Rightarrow> string \<Rightarrow> string" where
  "normalizeUnicode N s = strings_TrimSpace (nz_Unicode N) s"

definition word_char :: "char \<Rightarrow> bool" where
  "word_char c = (letter c \<or> is_digit c \<or> c = CHR ''_'')"

function extractMentions :: "string \<Rightarrow> string list" where
  "extractMentions [] = []"
| "extractMentions (c # cs) =
     (if c = CHR ''@'' \<and> takeWhile word_char cs \<noteq> []
      then takeWhile word_char cs # extractMentions (dropWhile word_char cs)
      else extractMentions cs)"
  by pat_completeness auto
termination
  by (relation "measure length") (auto simp: le_imp_less_Suc length_dropWhile_le)

text \<open>The URL at the start of a string.\<close>

definition url_at :: "string \<Rightarrow> string option" where
  "url_at s =
     (let p = (if prefix ''https://'' s then 8 else if prefix ''http://'' s then 7 else 0);
          body = takeWhile (\<lambda>c. \<not> regex_space c) (drop p s)
      in if p = 0 \<or> body = [] then None else Some (take p s @ body))"

function extractURLs :: "string \<Rightarrow> string list" where
  "extractURLs [] = []"
| "extractURLs (c # cs) =
     (case url_at (c # cs) of
        Some u \<Rightarrow> u # extractURLs (drop (length u - 1) cs)
      | None \<Rightarrow> extractURLs cs)"
  by pat_completeness auto
termination
  by (relation "measure length") auto

definition normalizeEventName :: "NormalizerOps \<Rightarrow> string \<Rightarrow> string" where
  "normalizeEventName N eventName =
     (let lowered = strings_ToLower (nz_Unicode N) eventName;
          joined = map (\<lambda>c. if c = CHR ''-'' then CHR ''_'' else c) (map (\<lambda>c. if c = CHR '' '' then CHR ''_'' else c) lowered)
      in filter (\<lambda>c. lower_letter c \<or> is_digit c \<or> c = CHR ''_'') joined)"

definition normalizePhoneNumber :: "string \<Rightarrow> string" where
  "normalizePhoneNumber phone =
     (let digits = filter is_digit phone in
      if prefix ''84'' digits \<and> length digits = 11 then ''+84'' @ drop 2 digits
      else if prefix ''0'' digits \<and> length digits = 10 then ''+84'' @ drop 1 digits
      else if length digits = 9 then ''+84'' @ digits
      else phone)"

definition normalizeTimestamp :: "NormalizerOps \<Rightarrow> string \<Rightarrow> string" where
  "normalizeTimestamp N timestamp =
     (let formats = [''2006-01-02T15:04:05Z07:00'', ''2006-01-02T15:04:05.999999999Z07:00'', ''2006-01-02 15:04:05'',
                     ''2006-01-02T15:04:05'', ''2006/01/02 15:04:05''] in
      case find (\<lambda>f. nz_Reformat N f timestamp \<noteq> None) formats of
        None \<Rightarrow> timestamp
      | Some f \<Rightarrow> the (nz_Reformat N f timestamp))"

section \<open>Fields\<close>

definition string_at :: "IncomingMessage \<Rightarrow> string \<Rightarrow> string option" where
  "string_at msg k = (case data_at (im_Data msg) k of Some (JStr s) \<Rightarrow> Some s | _ \<Rightarrow> None)"

definition set_data :: "string \<Rightarrow> json \<Rightarrow> IncomingMessage \<Rightarrow> IncomingMessage" where
  "set_data k v msg = msg\<lparr>im_Data := map_option (go_set k v) (im_Data msg)\<rparr>"

definition set_meta :: "string \<Rightarrow> string \<Rightarrow> IncomingMessage \<Rightarrow> IncomingMessage" where
  "set_meta k v msg = msg\<lparr>im_Metadata := map_option (go_set k v) (im_Metadata msg)\<rparr>"

text \<open>A field that is a string is replaced when its normal form differs; the original may be kept in a second field.\<close>

definition rewrite_field ::
  "string \<Rightarrow> (string \<Rightarrow> string) \<Rightarrow> string \<Rightarrow> string option \<Rightarrow> string list \<times> IncomingMessage \<Rightarrow> string list \<times> IncomingMessage" where
  "rewrite_field k f step original = (\<lambda>(steps, msg).
     (case string_at msg k of
        None \<Rightarrow> (steps, msg)
      | Some s \<Rightarrow>
          if f s \<noteq> s
          then (steps @ [step],
                (case original of None \<Rightarrow> (\<lambda>m. m) | Some k' \<Rightarrow> set_data k' (JStr s)) (set_data k (JStr (f s)) msg))
          else (steps, msg)))"

definition extract_field ::
  "string \<Rightarrow> (string \<Rightarrow> string list) \<Rightarrow> string \<Rightarrow> string list \<times> IncomingMessage \<Rightarrow> string list \<times> IncomingMessage" where
  "extract_field k f step = (\<lambda>(steps, msg).
     (case string_at msg ''content'' of
        None \<Rightarrow> (steps, msg)
      | Some s \<Rightarrow> if f s \<noteq> [] then (steps @ [step], set_data k (JArr (map JStr (f s))) msg) else (steps, msg)))"

definition lower_trim :: "NormalizerOps \<Rightarrow> string \<Rightarrow> string" where
  "lower_trim N s = strings_ToLower (nz_Unicode N) (strings_TrimSpace (nz_Unicode N) s)"

definition clean_content :: "NormalizerOps \<Rightarrow> string \<Rightarrow> string" where
  "clean_content N s =
     normalizeUnicode N (removeControlCharacters N (collapse_spaces False (strings_TrimSpace (nz_Unicode N) s)))"

section \<open>Messages\<close>

definition normalizeZaloMessage :: "NormalizerOps \<Rightarrow> IncomingMessage \<Rightarrow> string list \<times> IncomingMessage" where
  "normalizeZaloMessage N msg0 =
     (let (steps, msg) = rewrite_field ''conversation_id'' (strings_ToLower (nz_Unicode N)) ''normalized_conversation_id'' None
            (rewrite_field ''user_id'' (filter is_digit) ''normalized_zalo_user_id'' None ([], msg0))
      in (steps @ [''added_platform_metadata''], set_meta ''platform'' ''zalo'' msg))"

definition normalize_header ::
  "NormalizerOps \<Rightarrow> string \<times> string \<Rightarrow> string list \<times> (string, string) gomap \<Rightarrow> string list \<times> (string, string) gomap" where
  "normalize_header N kv = (\<lambda>(steps, m).
     (let (key, value) = kv; normalizedKey = strings_ToLower (nz_Unicode N) key in
      if prefix ''webhook_header_'' key \<and> normalizedKey \<noteq> key
      then (steps @ [''normalized_webhook_headers''], go_del key (go_set normalizedKey value m))
      else (steps, m)))"

definition normalizeWebhookMessage :: "NormalizerOps \<Rightarrow> string \<Rightarrow> IncomingMessage \<Rightarrow> string list \<times> IncomingMessage" where
  "normalizeWebhookMessage N now msg =
     (let m0 = (case im_Metadata msg of None \<Rightarrow> [] | Some m \<Rightarrow> m);
          (steps, m) = fold (normalize_header N) m0 ([], m0)
      in (steps @ [''added_webhook_timestamp''],
          set_meta ''webhook_processed_at'' now (msg\<lparr>im_Metadata := map_option (\<lambda>_. m) (im_Metadata msg)\<rparr>)))"

definition normalize_csv_field :: "NormalizerOps \<Rightarrow> string \<times> json \<Rightarrow> string list \<times> IncomingMessage \<Rightarrow> string list \<times> IncomingMessage" where
  "normalize_csv_field N kv = (\<lambda>(steps, msg).
     (case kv of
        (key, JStr s) \<Rightarrow>
          let trimmed = strings_TrimSpace (nz_Unicode N) s;
              (steps1, msg1) = (if trimmed \<noteq> s then (steps @ [''trimmed_csv_fields''], set_data key (JStr trimmed) msg) else (steps, msg))
          in if trimmed = '''' then (steps1 @ [''converted_empty_strings_to_nil''], set_data key JNull msg1) else (steps1, msg1)
      | _ \<Rightarrow> (steps, msg)))"

definition normalizeCSVMessage :: "NormalizerOps \<Rightarrow> IncomingMessage \<Rightarrow> string list \<times> IncomingMessage" where
  "normalizeCSVMessage N msg = fold (normalize_csv_field N) (case im_Data msg of None \<Rightarrow> [] | Some m \<Rightarrow> m) ([], msg)"

definition normalizeChatMessage :: "NormalizerOps \<Rightarrow> IncomingMessage \<Rightarrow> string list \<times> IncomingMessage" where
  "normalizeChatMessage N msg =
     extract_field ''urls'' extractURLs ''extracted_urls''
       (extract_field ''mentions'' extractMentions ''extracted_mentions''
          (rewrite_field ''sender_id'' (lower_trim N) ''normalized_sender_id'' None
             (rewrite_field ''content'' (clean_content N) ''normalized_message_content'' (Some ''original_content'') ([], msg))))"

definition normalizeUserEvent :: "NormalizerOps \<Rightarrow> IncomingMessage \<Rightarrow> string list \<times> IncomingMessage" where
  "normalizeUserEvent N msg =
     rewrite_field ''user_id'' (lower_trim N) ''normalized_user_id'' None
       (rewrite_field ''event_name'' (normalizeEventName N) ''normalized_event_name'' (Some ''original_event_name'') ([], msg))"

definition normalize_time_field :: "NormalizerOps \<Rightarrow> string \<times> json \<Rightarrow> string list \<times> IncomingMessage \<Rightarrow> string list \<times> IncomingMessage" where
  "normalize_time_field N kv = (\<lambda>(steps, msg).
     (case kv of
        (key, JStr s) \<Rightarrow>
          if (strings_Contains key ''timestamp'' \<or> strings_Contains key ''_at'') \<and> normalizeTimestamp N s \<noteq> s
          then (steps @ [''normalized_timestamp_'' @ key], set_data key (JStr (normalizeTimestamp N s)) msg)
          else (steps, msg)
      | _ \<Rightarrow> (steps, msg)))"

definition normalizeDataFields :: "NormalizerOps \<Rightarrow> IncomingMessage \<Rightarrow> string list \<times> IncomingMessage" where
  "normalizeDataFields N msg0 =
     (let (steps, msg) = rewrite_field ''email'' (lower_trim N) ''normalized_email'' None
            (rewrite_field ''phone'' normalizePhoneNumber ''normalized_phone_number'' (Some ''original_phone'') ([], msg0))
      in fold (normalize_time_field N) (case im_Data msg of None \<Rightarrow> [] | Some m \<Rightarrow> m) (steps, msg))"

text \<open>\<open>now\<close> is the current instant in the format RFC 3339.\<close>

definition Normalize :: "NormalizerOps \<Rightarrow> string \<Rightarrow> IncomingMessage \<Rightarrow> IncomingMessage \<times> string list" where
  "Normalize N now msg =
     (let msg0 = (case im_Metadata msg of None \<Rightarrow> msg\<lparr>im_Metadata := Some []\<rparr> | Some _ \<Rightarrow> msg);
          (steps1, msg1) =
            (if im_Source msg = ''zalo'' then normalizeZaloMessage N msg0
             else if im_Source msg = ''webhook'' then normalizeWebhookMessage N now msg0
             else if im_Source msg = ''csv'' then normalizeCSVMessage N msg0
             else ([], msg0));
          (steps2, msg2) =
            (if im_Type msg = ''chat_message'' then normalizeChatMessage N msg1
             else if im_Type msg = ''user_event'' then normalizeUserEvent N msg1
             else ([], msg1));
          (steps3, msg3) = normalizeDataFields N msg2
      in (set_meta ''normalization_version'' ''1.0'' (set_meta ''normalized_at'' now msg3), steps1 @ steps2 @ steps3))"

section \<open>Normal forms\<close>

lemma digits_of_international: "list_all is_digit ds \<Longrightarrow> filter is_digit (''+84'' @ ds) = ''84'' @ ds"
  by (simp add: is_digit_def filter_id_conv list_all_iff)

lemma international_fixed:
  assumes "list_all is_digit ds" "length ds = 9"
  shows "normalizePhoneNumber (''+84'' @ ds) = ''+84'' @ ds"
  unfolding normalizePhoneNumber_def Let_def digits_of_international [OF assms(1)] using assms(2) by simp

lemma normalizePhoneNumber_cases:
  "normalizePhoneNumber p = p \<or> (\<exists>ds. normalizePhoneNumber p = ''+84'' @ ds \<and> list_all is_digit ds \<and> length ds = 9)"
proof -
  have all: "list_all is_digit (drop n (filter is_digit p))" for n
    by (auto simp: list_all_iff dest: in_set_dropD)
  show ?thesis
    using all [of 0] all [of 1] all [of 2]
    by (auto simp: normalizePhoneNumber_def Let_def simp del: append.simps)
qed

lemma phoneRegex_split:
  assumes "phoneRegex p"
  obtains q r where "q \<in> {''+84'', ''84'', ''0''}" "p = q @ r" "phone_rest r"
proof -
  obtain q where q: "q \<in> set [''+84'', ''84'', ''0'']" "prefix q p" "phone_rest (drop (length q) p)"
    using assms unfolding phoneRegex_def list_ex_iff by blast
  then have "p = q @ drop (length q) p" by (auto simp: prefix_def)
  with q show thesis by (intro that) auto
qed

lemma phone_rest_digits:
  assumes "phone_rest r" "CHR ''|'' \<notin> set r"
  shows "length r = 9" "list_all is_digit r"
proof -
  show "length r = 9" using assms(1) by (simp add: phone_rest_def)
  then obtain d ds where r: "r = d # ds" by (cases r) auto
  have "d \<in> {CHR ''3'', CHR ''5'', CHR ''7'', CHR ''8'', CHR ''9''}" "list_all is_digit ds"
    using assms by (auto simp: phone_rest_def r)
  then show "list_all is_digit r" by (auto simp: r is_digit_def)
qed

lemma phone_pattern_international:
  assumes "phoneRegex p" "CHR ''|'' \<notin> set p"
  shows "\<exists>r. normalizePhoneNumber p = ''+84'' @ r \<and> length r = 9 \<and> list_all is_digit r \<and> phone_rest r"
proof -
  obtain q r where q: "q \<in> {''+84'', ''84'', ''0''}" "p = q @ r" "phone_rest r"
    using phoneRegex_split [OF assms(1)] .
  have r: "length r = 9" "list_all is_digit r" using phone_rest_digits [OF q(3)] assms(2) q(2) by auto
  then have f: "filter is_digit r = r" by (simp add: filter_id_conv list_all_iff)
  have "normalizePhoneNumber p = ''+84'' @ r"
    using q(1) r(1) f by (auto simp: q(2) normalizePhoneNumber_def Let_def is_digit_def)
  then show ?thesis using r q(3) by blast
qed

definition name_char :: "char \<Rightarrow> bool" where
  "name_char c = (lower_letter c \<or> is_digit c \<or> c = CHR ''_'')"

lemma name_char_plain:
  assumes "name_char c"
  shows "of_char c < (128 :: nat)" "lower_char c = c" "c \<noteq> CHR '' ''" "c \<noteq> CHR ''-''"
proof -
  have c: "48 \<le> (of_char c :: nat) \<and> (of_char c :: nat) \<le> 57 \<or> (of_char c :: nat) = 95 \<or> 97 \<le> (of_char c :: nat) \<and> (of_char c :: nat) \<le> 122"
    using assms by (auto simp: name_char_def lower_letter_def is_digit_def)
  then show "of_char c < (128 :: nat)" by linarith
  from c have "\<not> upper_letter c" unfolding upper_letter_def by linarith
  then show "lower_char c = c" by (simp add: lower_char_def)
  show "c \<noteq> CHR '' ''" "c \<noteq> CHR ''-''" using c by auto
qed

lemma map_fixed: "list_all P s \<Longrightarrow> (\<And>c. P c \<Longrightarrow> f c = c) \<Longrightarrow> map f s = s"
  by (simp add: list_all_iff map_idI)

lemma normalizeEventName_plain:
  assumes s: "list_all name_char s"
  shows "normalizeEventName N s = s"
proof -
  have ascii: "ascii_string s" using s by (rule list.pred_mono_strong) (rule name_char_plain(1))
  have low: "map lower_char s = s" by (rule map_fixed [OF s]) (rule name_char_plain(2))
  have other: "map (\<lambda>c. if c = d then CHR ''_'' else c) s = s" if "\<not> name_char d" for d
    using that by (intro map_fixed [OF s]) auto
  have maps: "map (\<lambda>c. if c = CHR '' '' then CHR ''_'' else c) s = s" "map (\<lambda>c. if c = CHR ''-'' then CHR ''_'' else c) s = s"
    using name_char_plain(3,4) by (blast intro: other)+
  have "filter (\<lambda>c. lower_letter c \<or> is_digit c \<or> c = CHR ''_'') s = s"
    using s by (simp add: list_all_iff name_char_def filter_id_conv)
  then show ?thesis by (simp only: normalizeEventName_def strings_ToLower_def Let_def ascii if_True low maps)
qed

lemma normalizeEventName_chars: "list_all name_char (normalizeEventName N s)"
  by (auto simp: normalizeEventName_def Let_def list_all_iff name_char_def)

section \<open>Fields that other steps leave\<close>

lemma data_at_set_data:
  "data_at (im_Data (set_data k v msg)) j = (if j = k \<and> im_Data msg \<noteq> None then Some v else data_at (im_Data msg) j)"
  by (cases "im_Data msg") (auto simp: set_data_def data_at_def map_of_go_set)

lemma set_data_simps [simp]:
  "im_Source (set_data k v msg) = im_Source msg" "im_Source (set_meta k w msg) = im_Source msg"
  "im_Data (set_meta k w msg) = im_Data msg"
  by (simp_all add: set_data_def set_meta_def)

lemma string_at_set_data:
  "k \<noteq> j \<Longrightarrow> string_at (set_data k v msg) j = string_at msg j"
  by (simp add: string_at_def data_at_set_data)

lemma rewrite_field_other:
  assumes "k \<noteq> j" "original \<noteq> Some j"
  shows "string_at (snd (rewrite_field k f step original r)) j = string_at (snd r) j"
    "im_Source (snd (rewrite_field k f step original r)) = im_Source (snd r)"
  using assms by (cases r; auto simp: rewrite_field_def string_at_set_data split: option.split)+

lemma rewrite_field_same:
  assumes "string_at (snd r) k = Some s" "original \<noteq> Some k"
  shows "string_at (snd (rewrite_field k f step original r)) k = Some (f s)"
proof -
  obtain steps msg where r: "r = (steps, msg)" by (cases r)
  have "im_Data msg \<noteq> None" using assms(1) by (cases "im_Data msg") (simp_all add: r string_at_def data_at_def)
  then show ?thesis
    using assms by (auto simp: r rewrite_field_def string_at_set_data split: option.split)
      (simp_all add: string_at_def data_at_set_data)
qed

lemma extract_field_other:
  assumes "k \<noteq> j"
  shows "string_at (snd (extract_field k f step r)) j = string_at (snd r) j"
    "im_Source (snd (extract_field k f step r)) = im_Source (snd r)"
  using assms by (cases r; auto simp: extract_field_def string_at_set_data split: option.split)+

lemma time_fields_other:
  assumes "\<not> strings_Contains j ''timestamp''" "\<not> strings_Contains j ''_at''"
  shows "string_at (snd (fold (normalize_time_field N) kvs r)) j = string_at (snd r) j"
    "im_Source (snd (fold (normalize_time_field N) kvs r)) = im_Source (snd r)"
proof -
  have step: "string_at (snd (normalize_time_field N kv r)) j = string_at (snd r) j \<and>
      im_Source (snd (normalize_time_field N kv r)) = im_Source (snd r)" for kv r
    using assms by (cases r; cases kv; cases "fst kv = j")
      (auto simp: normalize_time_field_def string_at_set_data split: json.split)
  show "string_at (snd (fold (normalize_time_field N) kvs r)) j = string_at (snd r) j"
    "im_Source (snd (fold (normalize_time_field N) kvs r)) = im_Source (snd r)"
    by (induction kvs arbitrary: r) (simp_all add: step)
qed

lemma lower_trim_empty: "lower_trim N '''' = ''''"
  by (simp add: lower_trim_def strings_ToLower_def strings_TrimSpace_def trim_with_def)

lemma user_id_is_no_time: "\<not> strings_Contains ''user_id'' ''timestamp''" "\<not> strings_Contains ''user_id'' ''_at''"
  by code_simp+

lemma zalo_step_user:
  assumes "string_at msg ''user_id'' = Some s"
  shows "string_at (snd (normalizeZaloMessage N msg)) ''user_id'' = Some (filter is_digit s)"
  using rewrite_field_same [of "([], msg)" "''user_id''" s None] assms
  by (simp add: normalizeZaloMessage_def string_at_def [of "set_meta _ _ _"] case_prod_beta)
     (simp add: string_at_def [symmetric] rewrite_field_other)

lemma type_step_user:
  assumes "string_at msg ''user_id'' = Some s"
  shows "string_at (snd (normalizeChatMessage N msg)) ''user_id'' = Some s"
    "string_at (snd (normalizeUserEvent N msg)) ''user_id'' = Some (lower_trim N s)"
    "string_at (snd (normalizeDataFields N msg)) ''user_id'' = Some s"
  using assms user_id_is_no_time
  by (simp_all add: normalizeChatMessage_def normalizeUserEvent_def normalizeDataFields_def case_prod_beta
      extract_field_other rewrite_field_other rewrite_field_same time_fields_other)

lemma steps_source [simp]:
  "im_Source (snd (normalizeChatMessage N msg)) = im_Source msg" "im_Source (snd (normalizeUserEvent N msg)) = im_Source msg"
  "im_Source (snd (normalizeDataFields N msg)) = im_Source msg" "im_Source (snd (normalizeZaloMessage N msg)) = im_Source msg"
proof -
  have field: "im_Source (snd (rewrite_field k f st orig r)) = im_Source (snd r)" for k f st orig r
    by (cases r) (auto simp: rewrite_field_def split: option.split)
  have content: "im_Source (snd (extract_field k f st r)) = im_Source (snd r)" for k f st r
    by (cases r) (auto simp: extract_field_def split: option.split)
  show "im_Source (snd (normalizeChatMessage N msg)) = im_Source msg" "im_Source (snd (normalizeUserEvent N msg)) = im_Source msg"
    "im_Source (snd (normalizeZaloMessage N msg)) = im_Source msg"
    by (simp_all add: normalizeChatMessage_def normalizeUserEvent_def normalizeZaloMessage_def case_prod_beta field content)
  have "im_Source (snd (fold (normalize_time_field N) kvs r)) = im_Source (snd r)" for kvs r
    by (rule time_fields_other(2) [of "''user_id''"]) (rule user_id_is_no_time)+
  then show "im_Source (snd (normalizeDataFields N msg)) = im_Source msg"
    by (simp add: normalizeDataFields_def case_prod_beta field)
qed

section \<open>Properties\<close>

text \<open>
  A phone number has a normal form: normalising it twice is the same as once. A number that the validator accepts and that
  has no bar becomes \<open>+84\<close> and nine digits, and the validator accepts the result.
\<close>
theorem phone_normal_form:
  "normalizePhoneNumber (normalizePhoneNumber p) = normalizePhoneNumber p \<and>
   (phoneRegex p \<and> CHR ''|'' \<notin> set p \<longrightarrow>
      phoneRegex (normalizePhoneNumber p) \<and>
      (\<exists>ds. normalizePhoneNumber p = ''+84'' @ ds \<and> length ds = 9 \<and> list_all is_digit ds))"
proof (intro conjI impI)
  show "normalizePhoneNumber (normalizePhoneNumber p) = normalizePhoneNumber p"
    using normalizePhoneNumber_cases [of p] international_fixed by (metis (no_types))
next
  assume "phoneRegex p \<and> CHR ''|'' \<notin> set p"
  then obtain r where r: "normalizePhoneNumber p = ''+84'' @ r" "length r = 9" "list_all is_digit r" "phone_rest r"
    using phone_pattern_international by blast
  then show "phoneRegex (normalizePhoneNumber p)"
    by (simp add: phoneRegex_def)
  show "\<exists>ds. normalizePhoneNumber p = ''+84'' @ ds \<and> length ds = 9 \<and> list_all is_digit ds"
    using r by blast
qed

theorem phone_normal_form_witness:
  "phoneRegex ''0912345678'' \<and> phoneRegex (normalizePhoneNumber ''0912345678'') \<and>
   normalizePhoneNumber ''0912345678'' = ''+84912345678''"
proof -
  have p: "phoneRegex ''0912345678''" "normalizePhoneNumber ''0912345678'' = ''+84912345678''" by code_simp+
  moreover have "phoneRegex (normalizePhoneNumber ''0912345678'')"
    using phone_normal_form [of "''0912345678''"] p(1) by simp
  ultimately show ?thesis by blast
qed

text \<open>
  An event name has a normal form: it has only small letters, digits and underscores, and normalising it again does not
  change it.
\<close>
theorem event_name_normal_form:
  "list_all (\<lambda>c. lower_letter c \<or> is_digit c \<or> c = CHR ''_'') (normalizeEventName N s) \<and>
   normalizeEventName N (normalizeEventName N s) = normalizeEventName N s"
  using normalizeEventName_chars [of N s] normalizeEventName_plain [OF normalizeEventName_chars]
  unfolding name_char_def [abs_def] by simp

text \<open>
  The user of a Zalo message can be lost. The validator demands a \<open>user_id\<close> that is not empty, and the normaliser then
  keeps only its digits: when it has none, what is passed on has an empty \<open>user_id\<close>, which the validator would refuse.
\<close>
theorem zalo_user_lost:
  assumes "im_Source msg = ''zalo''" "string_at msg ''user_id'' = Some s" "\<not> list_ex is_digit s"
  shows "string_at (fst (Normalize N now msg)) ''user_id'' = Some '''' \<and> \<not> source_ok (fst (Normalize N now msg))"
proof -
  define msg0 where "msg0 = (case im_Metadata msg of None \<Rightarrow> msg\<lparr>im_Metadata := Some []\<rparr> | Some _ \<Rightarrow> msg)"
  have m0: "string_at msg0 ''user_id'' = Some s" "im_Source msg0 = ''zalo''"
    using assms by (cases "im_Metadata msg"; simp add: msg0_def string_at_def)+
  have none: "filter is_digit s = ''''" using assms(3) by (simp add: list_ex_iff filter_empty_conv)
  define msg1 where "msg1 = snd (normalizeZaloMessage N msg0)"
  have m1: "string_at msg1 ''user_id'' = Some ''''" "im_Source msg1 = ''zalo''"
    using zalo_step_user [OF m0(1), of N] m0(2) by (simp_all add: msg1_def none)
  define msg2 where "msg2 = (if im_Type msg = ''chat_message'' then snd (normalizeChatMessage N msg1)
    else if im_Type msg = ''user_event'' then snd (normalizeUserEvent N msg1) else msg1)"
  have m2: "string_at msg2 ''user_id'' = Some ''''" "im_Source msg2 = ''zalo''"
    using type_step_user [OF m1(1), of N] m1 by (simp_all add: msg2_def lower_trim_empty)
  have "fst (Normalize N now msg) = set_meta ''normalization_version'' ''1.0'' (set_meta ''normalized_at'' now (snd (normalizeDataFields N msg2)))"
    using assms(1) by (cases "im_Type msg = ''chat_message''"; cases "im_Type msg = ''user_event''")
      (simp_all add: Normalize_def msg0_def msg1_def msg2_def Let_def case_prod_beta)
  then have "string_at (fst (Normalize N now msg)) ''user_id'' = Some ''''" "im_Source (fst (Normalize N now msg)) = ''zalo''"
    using type_step_user(3) [OF m2(1), of N] m2(2) by (simp_all add: string_at_def)
  then show ?thesis
    by (auto simp: source_ok_def string_at_def split: option.splits json.splits)
qed

text \<open>A message and text operations for the witness.\<close>

definition zalo_example :: IncomingMessage where
  "zalo_example = \<lparr>im_ID = ''m'', im_Source = ''zalo'', im_Type = ''user_event'', im_Timestamp = 5,
     im_Data = Some [(''user_id'', JStr ''an''), (''conversation_id'', JStr ''c'')], im_Metadata = None, im_IdempotencyKey = ''''\<rparr>"

definition plain_normalizer :: NormalizerOps where
  "plain_normalizer = \<lparr>nz_Unicode = \<lparr>ux_ToUpper = (\<lambda>s. s), ux_ToLower = (\<lambda>s. s), ux_TrimSpace = (\<lambda>s. s)\<rparr>,
     nz_StripControl = (\<lambda>s. s), nz_Reformat = (\<lambda>_ _. None)\<rparr>"

theorem zalo_user_lost_witness:
  "source_ok zalo_example \<and> string_at (fst (Normalize plain_normalizer ''now'' zalo_example)) ''user_id'' = Some '''' \<and>
   \<not> source_ok (fst (Normalize plain_normalizer ''now'' zalo_example))"
proof -
  have "im_Source zalo_example = ''zalo''" "string_at zalo_example ''user_id'' = Some ''an''" "\<not> list_ex is_digit ''an''" "source_ok zalo_example"
    by code_simp+
  then show ?thesis using zalo_user_lost [of zalo_example "''an''" plain_normalizer "''now''"] by blast
qed

end
