(* ===== verification/Data_Ingestion.thy ===== *)
theory Data_Ingestion
  imports Message_Normalizer Step_Systems
begin

text \<open>
  The data ingestion service, \<open>ai-ml-system/services/data-ingestion/main.go\<close>: idempotency keys, the cache of processed keys,
  the processing of a message and the HTTP handlers. \<open>IngestOps\<close> has the encoders and the format RFC 3339, \<open>IngestCall\<close> what one
  call reads from outside: the clock, the new identifiers and what Kafka answers. \<open>dis_acked\<close> has the messages whose write
  Kafka acknowledged, each with the value it encodes; \<open>dis_metrics\<close> has the increments of the counters. Logging and the
  histogram of durations are left out.

  The lemmas show which messages are acknowledged and what is left of the others, that two acknowledged messages with one key are more
  than a day apart when requests do not overlap, that overlapping requests are both written, and that generated keys
  identify the messages the validator accepts.
\<close>

section \<open>Data\<close>

record ProcessedMessage =
  pm_ID :: string
  pm_OriginalID :: string
  pm_Source :: string
  pm_Type :: string
  pm_Timestamp :: gotime
  pm_ProcessedAt :: gotime
  pm_Data :: "jobject option"
  pm_Metadata :: "(string, string) gomap option"
  pm_IdempotencyKey :: string
  pm_ValidationStatus :: string
  pm_NormalizationApplied :: "string list"

record KafkaMessage =
  km_Key :: string
  km_Value :: string
  km_Headers :: "(string \<times> string) list"

record DataIngestionService =
  dis_acked :: "(KafkaMessage \<times> ProcessedMessage) list"
  dis_dedupeCache :: "(string, gotime) gomap"
  dis_metrics :: "(string \<times> string list) list"

record IngestOps =
  io_Normalizer :: NormalizerOps
  io_MarshalData :: "jobject option \<Rightarrow> goerror + string"
  io_MarshalProcessed :: "ProcessedMessage \<Rightarrow> goerror + string"
  io_Format :: "gotime \<Rightarrow> string"

record IngestCall =
  ic_uuid :: string
  ic_received :: gotime
  ic_validated :: "gotime \<times> gotime"
  ic_normalized :: gotime
  ic_processed :: gotime
  ic_marked :: gotime
  ic_newID :: string
  ic_kafka :: "goerror option"

definition NewDataIngestionService :: DataIngestionService where
  "NewDataIngestionService = \<lparr>dis_acked = [], dis_dedupeCache = [], dis_metrics = []\<rparr>"

definition metric :: "string \<Rightarrow> string list \<Rightarrow> DataIngestionService \<Rightarrow> DataIngestionService" where
  "metric name labels s = s\<lparr>dis_metrics := dis_metrics s @ [(name, labels)]\<rparr>"

section \<open>Keys\<close>

text \<open>\<open>fmt.Sprintf("%x", s)\<close> of a string.\<close>

definition hex_string :: "string \<Rightarrow> string" where
  "hex_string s = concat (map (\<lambda>c. [hex_digit (of_char c div 16), hex_digit (of_char c mod 16)]) s)"

definition generateIdempotencyKey :: "IncomingMessage \<Rightarrow> string" where
  "generateIdempotencyKey msg =
     hex_string (im_Source msg @ ''-'' @ im_Type msg @ ''-'' @ im_ID msg @ ''-'' @ itoa (time_Unix (im_Timestamp msg)))"

definition isDuplicate :: "DataIngestionService \<Rightarrow> string \<Rightarrow> bool" where
  "isDuplicate s k = (map_of (dis_dedupeCache s) k \<noteq> None)"

definition markAsProcessed :: "gotime \<Rightarrow> string \<Rightarrow> DataIngestionService \<Rightarrow> DataIngestionService" where
  "markAsProcessed now k s = s\<lparr>dis_dedupeCache := go_set k now (dis_dedupeCache s)\<rparr>"

text \<open>One tick of \<open>cleanupDedupeCache\<close>.\<close>

definition cleanupDedupeCache :: "gotime \<Rightarrow> DataIngestionService \<Rightarrow> DataIngestionService" where
  "cleanupDedupeCache now s =
     (let cutoff = now - 24 * hour in
      s\<lparr>dis_dedupeCache := fold (\<lambda>(k, t) m. if t < cutoff then go_del k m else m) (dis_dedupeCache s) (dis_dedupeCache s)\<rparr>)"

section \<open>Processing\<close>

definition with_key :: "IncomingMessage \<Rightarrow> IncomingMessage" where
  "with_key msg = (if im_IdempotencyKey msg = '''' then msg\<lparr>im_IdempotencyKey := generateIdempotencyKey msg\<rparr> else msg)"

definition sprint_strings :: "string list \<Rightarrow> string" where
  "sprint_strings es = ''['' @ strings_Join CHR '' '' es @ '']''"

definition processed_message :: "IngestOps \<Rightarrow> IngestCall \<Rightarrow> IncomingMessage \<Rightarrow> ProcessedMessage" where
  "processed_message X c msg =
     (let (normalizedMsg, normalizationSteps) = Normalize (io_Normalizer X) (io_Format X (ic_normalized c)) msg in
      \<lparr>pm_ID = ic_newID c, pm_OriginalID = im_ID msg, pm_Source = im_Source msg, pm_Type = im_Type msg,
       pm_Timestamp = im_Timestamp msg, pm_ProcessedAt = ic_processed c, pm_Data = im_Data normalizedMsg,
       pm_Metadata = im_Metadata normalizedMsg, pm_IdempotencyKey = im_IdempotencyKey msg, pm_ValidationStatus = ''valid'',
       pm_NormalizationApplied = normalizationSteps\<rparr>)"

definition ingest_record :: "IngestOps \<Rightarrow> IncomingMessage \<Rightarrow> ProcessedMessage \<Rightarrow> string \<Rightarrow> KafkaMessage" where
  "ingest_record X msg pm bytes =
     \<lparr>km_Key = pm_IdempotencyKey pm, km_Value = bytes,
      km_Headers = [(''source'', im_Source msg), (''type'', im_Type msg), (''processed_at'', io_Format X (pm_ProcessedAt pm))]\<rparr>"

text \<open>What follows the check for duplicates; \<open>msg\<close> has its key.\<close>

definition process_rest ::
  "IngestOps \<Rightarrow> IngestCall \<Rightarrow> IncomingMessage \<Rightarrow> DataIngestionService \<Rightarrow> goerror option \<times> DataIngestionService" where
  "process_rest X c msg s =
     (let v = Validate (io_MarshalData X) (ic_validated c) msg in
      if \<not> vr_IsValid v
      then (Some (''validation failed: '' @ sprint_strings (vr_Errors v)),
            metric ''messages_processed'' [im_Source msg, ''validation_failed'']
              (metric ''validation_errors'' [im_Source msg, vr_ErrorType v] s))
      else let pm = processed_message X c msg in
        case io_MarshalProcessed X pm of
          Inl err \<Rightarrow> (Some err, metric ''messages_processed'' [im_Source msg, ''marshal_failed''] s)
        | Inr bytes \<Rightarrow>
            (case ic_kafka c of
               Some err \<Rightarrow> (Some err, metric ''messages_processed'' [im_Source msg, ''kafka_failed''] s)
             | None \<Rightarrow>
                 (None, metric ''messages_processed'' [im_Source msg, ''success'']
                    (markAsProcessed (ic_marked c) (im_IdempotencyKey msg)
                      (s\<lparr>dis_acked := dis_acked s @ [(ingest_record X msg pm bytes, pm)]\<rparr>)))))"

definition ProcessMessage ::
  "IngestOps \<Rightarrow> IngestCall \<Rightarrow> IncomingMessage \<Rightarrow> DataIngestionService \<Rightarrow> goerror option \<times> DataIngestionService" where
  "ProcessMessage X c msg0 s =
     (let msg = with_key msg0 in
      if isDuplicate s (im_IdempotencyKey msg) then (None, metric ''duplicates_detected'' [im_Source msg] s)
      else process_rest X c msg s)"

section \<open>Handlers\<close>

datatype ingest_body =
  IngestError string | IngestFailed string string | IngestAccepted string string string | IngestHealth string string string int

definition with_defaults :: "IngestCall \<Rightarrow> IncomingMessage \<Rightarrow> IncomingMessage" where
  "with_defaults c msg =
     (let m1 = (if im_ID msg = '''' then msg\<lparr>im_ID := ic_uuid c\<rparr> else msg);
          m2 = (if im_Timestamp m1 = 0 then m1\<lparr>im_Timestamp := ic_received c\<rparr> else m1)
      in if im_Source m2 = '''' then m2\<lparr>im_Source := ''api''\<rparr> else m2)"

definition ingestHandler ::
  "IngestOps \<Rightarrow> IngestCall \<Rightarrow> goerror + IncomingMessage \<Rightarrow> DataIngestionService \<Rightarrow> (int \<times> ingest_body) \<times> DataIngestionService" where
  "ingestHandler X c body s =
     (case body of
        Inl err \<Rightarrow> ((400, IngestError ''Invalid JSON format''), metric ''messages_received'' [''unknown'', ''invalid_json''] s)
      | Inr msg0 \<Rightarrow>
          let msg = with_defaults c msg0 in
          (case ProcessMessage X c msg (metric ''messages_received'' [im_Source msg, ''received''] s) of
             (Some err, s') \<Rightarrow> ((500, IngestFailed ''Failed to process message'' err), s')
           | (None, s') \<Rightarrow> ((202, IngestAccepted ''accepted'' (im_ID msg) (im_IdempotencyKey msg)), s')))"

definition ingest_healthHandler :: "IngestOps \<Rightarrow> gotime \<Rightarrow> DataIngestionService \<Rightarrow> int \<times> ingest_body" where
  "ingest_healthHandler X now s =
     (200, IngestHealth ''healthy'' ''data-ingestion'' (io_Format X now) (int (length (dis_dedupeCache s))))"

section \<open>What becomes of a message\<close>

lemma metric_simps [simp]:
  "dis_acked (metric n l s) = dis_acked s" "dis_dedupeCache (metric n l s) = dis_dedupeCache s"
  "isDuplicate (metric n l s) k = isDuplicate s k"
  by (simp_all add: metric_def isDuplicate_def)

lemma processed_message_simps [simp]:
  "pm_IdempotencyKey (processed_message X c msg) = im_IdempotencyKey msg"
  "pm_ProcessedAt (processed_message X c msg) = ic_processed c"
  by (simp_all add: processed_message_def case_prod_beta)

text \<open>A call acknowledges its message under this condition.\<close>

definition acknowledges :: "IngestOps \<Rightarrow> IngestCall \<Rightarrow> IncomingMessage \<Rightarrow> bool" where
  "acknowledges X c msg \<longleftrightarrow>
     vr_IsValid (Validate (io_MarshalData X) (ic_validated c) msg) \<and> \<not> isl (io_MarshalProcessed X (processed_message X c msg)) \<and>
     ic_kafka c = None"

definition acked_entry :: "IngestOps \<Rightarrow> IngestCall \<Rightarrow> IncomingMessage \<Rightarrow> KafkaMessage \<times> ProcessedMessage" where
  "acked_entry X c msg =
     (let pm = processed_message X c msg in (ingest_record X msg pm (projr (io_MarshalProcessed X pm)), pm))"

lemma process_rest_acked:
  assumes "acknowledges X c msg"
  shows "fst (process_rest X c msg s) = None"
    "dis_acked (snd (process_rest X c msg s)) = dis_acked s @ [acked_entry X c msg]"
    "dis_dedupeCache (snd (process_rest X c msg s)) = go_set (im_IdempotencyKey msg) (ic_marked c) (dis_dedupeCache s)"
  using assms unfolding acknowledges_def
  by (cases "io_MarshalProcessed X (processed_message X c msg)";
      simp add: process_rest_def acked_entry_def Let_def markAsProcessed_def)+

lemma process_rest_failed:
  assumes "\<not> acknowledges X c msg"
  shows "fst (process_rest X c msg s) \<noteq> None"
    "dis_acked (snd (process_rest X c msg s)) = dis_acked s"
    "dis_dedupeCache (snd (process_rest X c msg s)) = dis_dedupeCache s"
  using assms unfolding acknowledges_def
  by (cases "io_MarshalProcessed X (processed_message X c msg)"; cases "ic_kafka c";
      simp add: process_rest_def Let_def)+

lemmas process_rest_simps = process_rest_acked process_rest_failed

lemma acked_entry_simps [simp]:
  "km_Key (fst (acked_entry X c msg)) = im_IdempotencyKey msg" "pm_IdempotencyKey (snd (acked_entry X c msg)) = im_IdempotencyKey msg"
  "pm_ProcessedAt (snd (acked_entry X c msg)) = ic_processed c"
  by (simp_all add: acked_entry_def ingest_record_def Let_def)

section \<open>The cache over time\<close>

lemma cleanup_lookup:
  "go_wf (dis_dedupeCache s) \<Longrightarrow> map_of (dis_dedupeCache (cleanupDedupeCache now s)) k =
     (case map_of (dis_dedupeCache s) k of Some t \<Rightarrow> if t < now - 24 * hour then None else Some t | None \<Rightarrow> None)"
proof -
  have gen: "map_of (fold (\<lambda>(k, t) m. if t < cut then go_del k m else m) kvs m) k =
      (if \<exists>t. (k, t) \<in> set kvs \<and> t < cut then None else map_of m k)" for kvs and m :: "(string, gotime) gomap" and cut
    by (induction kvs arbitrary: m) (auto simp: map_of_go_del)
  assume "go_wf (dis_dedupeCache s)"
  then have mem: "(k, t) \<in> set (dis_dedupeCache s) \<longleftrightarrow> map_of (dis_dedupeCache s) k = Some t" for t
    by (simp add: go_wf_def map_of_eq_Some_iff)
  show ?thesis
    unfolding cleanupDedupeCache_def Let_def by (cases "map_of (dis_dedupeCache s) k") (simp_all add: gen mem)
qed

lemma cleanup_wf: "go_wf (dis_dedupeCache s) \<Longrightarrow> go_wf (dis_dedupeCache (cleanupDedupeCache now s))"
proof -
  have "go_wf (fold (\<lambda>(k, t) m. if t < cut then go_del k m else m) kvs m)" if "go_wf m" for kvs and m :: "(string, gotime) gomap" and cut
    using that by (induction kvs arbitrary: m) auto
  then show "go_wf (dis_dedupeCache s) \<Longrightarrow> go_wf (dis_dedupeCache (cleanupDedupeCache now s))"
    by (simp add: cleanupDedupeCache_def Let_def)
qed

text \<open>
  Requests and ticks of the cleanup one after the other; the state has the last instant read from the clock.
\<close>

inductive ingest_step :: "IngestOps \<Rightarrow> gotime \<times> DataIngestionService \<Rightarrow> gotime \<times> DataIngestionService \<Rightarrow> bool" for X where
  request: "t \<le> ic_received c \<Longrightarrow> ic_received c \<le> fst (ic_validated c) \<Longrightarrow> fst (ic_validated c) \<le> snd (ic_validated c) \<Longrightarrow>
    snd (ic_validated c) \<le> ic_normalized c \<Longrightarrow>
    ic_normalized c \<le> ic_processed c \<Longrightarrow> ic_processed c \<le> ic_marked c \<Longrightarrow>
    ingest_step X (t, s) (ic_marked c, snd (ingestHandler X c body s))"
| cleanup: "t \<le> now \<Longrightarrow> ingest_step X (t, s) (now, cleanupDedupeCache now s)"

inductive_cases ingest_stepE: "ingest_step X st st'"

text \<open>Two messages with one key are more than a day apart.\<close>

definition day_apart :: "KafkaMessage \<times> ProcessedMessage \<Rightarrow> KafkaMessage \<times> ProcessedMessage \<Rightarrow> bool" where
  "day_apart a b = (km_Key (fst a) = km_Key (fst b) \<longrightarrow> pm_ProcessedAt (snd a) + 24 * hour < pm_ProcessedAt (snd b))"

text \<open>A message is remembered, or more than a day old.\<close>

definition remembered :: "gotime \<Rightarrow> DataIngestionService \<Rightarrow> KafkaMessage \<times> ProcessedMessage \<Rightarrow> bool" where
  "remembered t s e =
     (case map_of (dis_dedupeCache s) (km_Key (fst e)) of
        Some t' \<Rightarrow> pm_ProcessedAt (snd e) \<le> t'
      | None \<Rightarrow> pm_ProcessedAt (snd e) + 24 * hour < t)"

definition ingest_ok :: "gotime \<times> DataIngestionService \<Rightarrow> bool" where
  "ingest_ok = (\<lambda>(t, s). go_wf (dis_dedupeCache s) \<and> list_all (\<lambda>e. pm_ProcessedAt (snd e) \<le> t \<and> remembered t s e) (dis_acked s) \<and>
     sorted_wrt day_apart (dis_acked s))"

lemma remembered_later: "remembered t s e \<Longrightarrow> t \<le> t' \<Longrightarrow> remembered t' s e"
  by (auto simp: remembered_def split: option.splits)

lemma remembered_cong: "dis_dedupeCache s = dis_dedupeCache s' \<Longrightarrow> remembered t s e = remembered t s' e"
  by (simp add: remembered_def)

lemma ingest_ok_same:
  assumes "ingest_ok (t, s)" "t \<le> t'" "dis_acked s' = dis_acked s" "dis_dedupeCache s' = dis_dedupeCache s"
  shows "ingest_ok (t', s')"
  using assms remembered_later remembered_cong [OF assms(4)] by (fastforce simp: ingest_ok_def list_all_iff)

lemma ingest_ok_acked:
  assumes ok: "ingest_ok (t, s)" and new: "\<not> isDuplicate s (im_IdempotencyKey msg)"
    and time: "t \<le> ic_processed c" "ic_processed c \<le> ic_marked c"
    and s': "dis_acked s' = dis_acked s @ [acked_entry X c msg]"
      "dis_dedupeCache s' = go_set (im_IdempotencyKey msg) (ic_marked c) (dis_dedupeCache s)"
  shows "ingest_ok (ic_marked c, s')"
proof -
  have old: "pm_ProcessedAt (snd e) \<le> t" "remembered t s e" if "e \<in> set (dis_acked s)" for e
    using ok that by (simp_all add: ingest_ok_def list_all_iff)
  have "day_apart e (acked_entry X c msg)" if "e \<in> set (dis_acked s)" for e
    using old [OF that] new time(1) by (auto simp: day_apart_def remembered_def isDuplicate_def split: option.splits)
  moreover have "remembered (ic_marked c) s' e" if "e \<in> set (dis_acked s)" for e
    using old [OF that] time by (auto simp: remembered_def s'(2) map_of_go_set split: option.splits)
  moreover have "remembered (ic_marked c) s' (acked_entry X c msg)"
    using time(2) by (simp add: remembered_def s'(2) map_of_go_set)
  ultimately show ?thesis
    using ok old time by (fastforce simp: ingest_ok_def list_all_iff sorted_wrt_append s')
qed

lemma ingestHandler_state:
  "snd (ingestHandler X c body s) =
     (case body of
        Inl _ \<Rightarrow> metric ''messages_received'' [''unknown'', ''invalid_json''] s
      | Inr msg \<Rightarrow> snd (ProcessMessage X c (with_defaults c msg) (metric ''messages_received'' [im_Source (with_defaults c msg), ''received''] s)))"
  by (simp add: ingestHandler_def Let_def split: sum.split prod.split option.split)

lemma ProcessMessage_ok:
  assumes "ingest_ok (t, s)" "t \<le> ic_processed c" "ic_processed c \<le> ic_marked c"
  shows "ingest_ok (ic_marked c, snd (ProcessMessage X c msg s))"
proof (cases "\<not> isDuplicate s (im_IdempotencyKey (with_key msg)) \<and> acknowledges X c (with_key msg)")
  case True
  then show ?thesis
    using assms by (intro ingest_ok_acked [of t s "with_key msg" c]) (simp_all add: ProcessMessage_def Let_def process_rest_acked)
next
  case False
  then have "dis_acked (snd (ProcessMessage X c msg s)) = dis_acked s"
    "dis_dedupeCache (snd (ProcessMessage X c msg s)) = dis_dedupeCache s"
    by (auto simp: ProcessMessage_def Let_def process_rest_failed)
  then show ?thesis using assms by (intro ingest_ok_same [OF assms(1)]) simp_all
qed

lemma cleanup_ok:
  assumes ok: "ingest_ok (t, s)" and "t \<le> now"
  shows "ingest_ok (now, cleanupDedupeCache now s)"
proof -
  have acked: "dis_acked (cleanupDedupeCache now s) = dis_acked s" by (simp add: cleanupDedupeCache_def Let_def)
  have wf: "go_wf (dis_dedupeCache s)" using ok by (simp add: ingest_ok_def)
  have "remembered now (cleanupDedupeCache now s) e" if "remembered t s e" for e
    using that \<open>t \<le> now\<close> unfolding remembered_def cleanup_lookup [OF wf] by (auto split: option.splits)
  then show ?thesis
    using ok cleanup_wf [OF wf] \<open>t \<le> now\<close> by (fastforce simp: ingest_ok_def list_all_iff acked)
qed

lemma ingest_ok_step: "ingest_step X st st' \<Longrightarrow> ingest_ok st \<Longrightarrow> ingest_ok st'"
proof (erule ingest_stepE)
  fix t c s body
  assume st: "st = (t, s)" "st' = (ic_marked c, snd (ingestHandler X c body s))" and ok: "ingest_ok st"
    and time: "t \<le> ic_received c" "ic_received c \<le> fst (ic_validated c)" "fst (ic_validated c) \<le> snd (ic_validated c)" "snd (ic_validated c) \<le> ic_normalized c"
      "ic_normalized c \<le> ic_processed c" "ic_processed c \<le> ic_marked c"
  have ok': "ingest_ok (t, metric n l s)" for n l
    using ok unfolding st(1) by (rule ingest_ok_same) simp_all
  show "ingest_ok st'"
  proof (cases body)
    case (Inl e)
    have "ingest_ok (ic_marked c, metric ''messages_received'' [''unknown'', ''invalid_json''] s)"
      using ok time unfolding st(1) by (elim ingest_ok_same) simp_all
    then show ?thesis by (simp add: st(2) ingestHandler_state Inl)
  next
    case (Inr msg)
    have "t \<le> ic_processed c" using time by linarith
    then show ?thesis using ProcessMessage_ok [OF ok' _ time(6)] by (simp add: st(2) ingestHandler_state Inr)
  qed
qed (simp add: cleanup_ok)

interpretation ingestion: transition_system ingest_step ingest_ok
  by unfold_locales (rule ingest_ok_step)

section \<open>Keys and messages\<close>

lemma hex_digit_inject: "hex_digit m = hex_digit n \<Longrightarrow> m < 16 \<Longrightarrow> n < 16 \<Longrightarrow> m = n"
proof -
  have "distinct ''0123456789abcdef''" by simp
  then show "hex_digit m = hex_digit n \<Longrightarrow> m < 16 \<Longrightarrow> n < 16 \<Longrightarrow> m = n"
    unfolding hex_digit_def by (subst (asm) nth_eq_iff_index_eq) simp_all
qed

lemma hex_string_inject: "hex_string a = hex_string b \<Longrightarrow> a = b"
proof (induction a arbitrary: b)
  case Nil
  then show ?case by (cases b) (simp_all add: hex_string_def)
next
  case (Cons x xs)
  then obtain y ys where b: "b = y # ys" by (cases b) (simp_all add: hex_string_def)
  let ?x = "of_char x :: nat" and ?y = "of_char y :: nat"
  have low: "?x mod 16 = ?y mod 16" using Cons.prems by (intro hex_digit_inject) (simp_all add: b hex_string_def)
  have high: "?x div 16 = ?y div 16"
    using Cons.prems nat_of_char_less_256 [of x] nat_of_char_less_256 [of y]
    by (intro hex_digit_inject) (simp_all add: b hex_string_def less_mult_imp_div_less)
  have "?x = ?y" using low high by (metis div_mult_mod_eq)
  moreover have "xs = ys" using Cons.prems by (intro Cons.IH) (simp add: b hex_string_def)
  ultimately show ?case by (simp add: b)
qed

lemma itoa_no_dash: "0 \<le> i \<Longrightarrow> CHR ''-'' \<notin> set (itoa i)"
  using itoa_digits [of i] by (auto simp: list_all_iff is_digit_def)

lemma last_separator_inject:
  assumes "xs @ sep # x = ys @ sep # y" "sep \<notin> set x" "sep \<notin> set y"
  shows "xs = ys \<and> x = y"
proof -
  have "rev x @ sep # rev xs = rev y @ sep # rev ys" using arg_cong [OF assms(1), of rev] by simp
  then show ?thesis using separator_inject [of "rev x" sep "rev xs" "rev y" "rev ys"] assms(2,3) by simp
qed

lemma no_dash_in_kind:
  "source_ok msg \<Longrightarrow> CHR ''-'' \<notin> set (im_Source msg)" "type_ok msg \<Longrightarrow> CHR ''-'' \<notin> set (im_Type msg)"
  by (auto simp: source_ok_def type_ok_def)

section \<open>Properties\<close>

text \<open>
  C36: While requests do not overlap, no message is passed on twice within a day: of two messages that Kafka acknowledged with the
  same idempotency key, the later one was processed more than 24 hours after the earlier one, whatever requests, failures and
  cleanups came in between.
\<close>
theorem acknowledged_keys_day_apart:
  assumes "(ingest_step X)\<^sup>*\<^sup>* (t0, NewDataIngestionService) (t, s)"
  shows "sorted_wrt (\<lambda>a b. km_Key (fst a) = km_Key (fst b) \<longrightarrow> pm_ProcessedAt (snd a) + 24 * hour < pm_ProcessedAt (snd b)) (dis_acked s)"
proof -
  have "ingest_ok (t0, NewDataIngestionService)" by (simp add: ingest_ok_def NewDataIngestionService_def)
  then have "ingest_ok (t, s)" using ingestion.ainv_run [OF assms] by simp
  then show ?thesis by (simp add: ingest_ok_def day_apart_def [abs_def])
qed

text \<open>
  A message is passed on exactly when its key is not in the cache, the validator's requirements hold, it can be encoded and
  Kafka accepts it. Then one message with its key is added and the key is in the cache. Otherwise the cache and the messages stay as
  they are, and there is an error exactly when the message is no duplicate.
\<close>
theorem ingest_outcome:
  "let m = with_key msg; pm = processed_message X c m; (err, s') = ProcessMessage X c msg s in
   if \<not> isDuplicate s (im_IdempotencyKey m) \<and> message_ok (io_MarshalData X) (ic_validated c) m \<and>
      \<not> isl (io_MarshalProcessed X pm) \<and> ic_kafka c = None
   then err = None \<and> isDuplicate s' (im_IdempotencyKey m) \<and>
        (\<exists>km. dis_acked s' = dis_acked s @ [(km, pm)] \<and> km_Key km = im_IdempotencyKey m \<and> pm_IdempotencyKey pm = im_IdempotencyKey m)
   else dis_acked s' = dis_acked s \<and> dis_dedupeCache s' = dis_dedupeCache s \<and>
        (err = None \<longleftrightarrow> isDuplicate s (im_IdempotencyKey m))"
proof -
  let ?m = "with_key msg"
  let ?pm = "processed_message X c ?m"
  obtain err s' where r: "ProcessMessage X c msg s = (err, s')" by fastforce
  have ack: "acknowledges X c ?m \<longleftrightarrow> message_ok (io_MarshalData X) (ic_validated c) ?m \<and> \<not> isl (io_MarshalProcessed X ?pm) \<and> ic_kafka c = None"
    by (simp add: acknowledges_def Validate_iff)
  consider (dup) "isDuplicate s (im_IdempotencyKey ?m)" | (ack) "\<not> isDuplicate s (im_IdempotencyKey ?m)" "acknowledges X c ?m"
    | (fail) "\<not> isDuplicate s (im_IdempotencyKey ?m)" "\<not> acknowledges X c ?m" by blast
  then show ?thesis
  proof cases
    case dup
    then have "err = None" "s' = metric ''duplicates_detected'' [im_Source ?m] s" using r by (auto simp: ProcessMessage_def Let_def)
    then show ?thesis using dup by (simp add: r)
  next
    case ack: ack
    then have s: "(err, s') = process_rest X c ?m s" using r by (simp add: ProcessMessage_def Let_def)
    have "fst (acked_entry X c ?m) = fst (acked_entry X c ?m)" "snd (acked_entry X c ?m) = ?pm" by (simp_all add: acked_entry_def Let_def)
    then have "dis_acked s' = dis_acked s @ [(fst (acked_entry X c ?m), ?pm)]"
      using process_rest_acked(2) [OF ack(2), of s] unfolding s [symmetric] by (metis prod.collapse snd_conv)
    then show ?thesis
      using ack process_rest_acked(1,3) [OF ack(2), of s] \<open>acknowledges X c ?m \<longleftrightarrow> _\<close> unfolding s [symmetric]
      by (auto simp: r isDuplicate_def map_of_go_set)
  next
    case fail
    then have s: "(err, s') = process_rest X c ?m s" using r by (simp add: ProcessMessage_def Let_def)
    show ?thesis
      using fail process_rest_failed [OF fail(2), of s] ack unfolding s [symmetric] by (auto simp: r)
  qed
qed

text \<open>
  Generated idempotency keys identify messages. For messages with the fields the validator requires and timestamps since 1970, the
  keys are equal exactly when the source, the type, the identifier and the second of the timestamp are, although the identifier
  may have dashes too.
\<close>
theorem generated_keys_identify:
  assumes "source_ok a" "type_ok a" "source_ok b" "type_ok b" "0 \<le> time_Unix (im_Timestamp a)" "0 \<le> time_Unix (im_Timestamp b)"
  shows "generateIdempotencyKey a = generateIdempotencyKey b \<longleftrightarrow>
     im_Source a = im_Source b \<and> im_Type a = im_Type b \<and> im_ID a = im_ID b \<and> time_Unix (im_Timestamp a) = time_Unix (im_Timestamp b)"
proof
  assume "generateIdempotencyKey a = generateIdempotencyKey b"
  then have whole: "im_Source a @ CHR ''-'' # im_Type a @ CHR ''-'' # im_ID a @ CHR ''-'' # itoa (time_Unix (im_Timestamp a)) =
      im_Source b @ CHR ''-'' # im_Type b @ CHR ''-'' # im_ID b @ CHR ''-'' # itoa (time_Unix (im_Timestamp b))"
    unfolding generateIdempotencyKey_def using hex_string_inject by fastforce
  note src = separator_inject [OF whole no_dash_in_kind(1) [OF assms(1)] no_dash_in_kind(1) [OF assms(3)]]
  note kind = separator_inject [OF conjunct2 [OF src] no_dash_in_kind(2) [OF assms(2)] no_dash_in_kind(2) [OF assms(4)]]
  have "im_ID a = im_ID b \<and> itoa (time_Unix (im_Timestamp a)) = itoa (time_Unix (im_Timestamp b))"
    by (rule last_separator_inject [OF conjunct2 [OF kind] itoa_no_dash [OF assms(5)] itoa_no_dash [OF assms(6)]])
  then show "im_Source a = im_Source b \<and> im_Type a = im_Type b \<and> im_ID a = im_ID b \<and> time_Unix (im_Timestamp a) = time_Unix (im_Timestamp b)"
    using src kind itoa_inject assms(5,6) by blast
qed (simp add: generateIdempotencyKey_def)

text \<open>
  Two requests that overlap are both passed on: when both have passed the check for duplicates before either is marked, Kafka
  acknowledges two messages with the same key.
\<close>
theorem overlapping_requests_both_written:
  assumes "\<not> isDuplicate s (im_IdempotencyKey (with_key msg))" "acknowledges X c1 (with_key msg)" "acknowledges X c2 (with_key msg)"
  shows "ProcessMessage X c1 msg s = process_rest X c1 (with_key msg) s \<and> ProcessMessage X c2 msg s = process_rest X c2 (with_key msg) s \<and>
     map (\<lambda>e. km_Key (fst e)) (dis_acked (snd (process_rest X c2 (with_key msg) (snd (process_rest X c1 (with_key msg) s))))) =
       map (\<lambda>e. km_Key (fst e)) (dis_acked s) @ [im_IdempotencyKey (with_key msg), im_IdempotencyKey (with_key msg)]"
  using assms by (simp add: ProcessMessage_def Let_def process_rest_acked(2))

text \<open>The response of an accepted message without a key has no key: the handler reads the field of its own copy.\<close>

lemma response_has_no_key:
  assumes "acknowledges X c (with_key (with_defaults c msg))" "im_IdempotencyKey msg = ''''"
    and "\<not> isDuplicate s (im_IdempotencyKey (with_key (with_defaults c msg)))"
  shows "fst (ingestHandler X c (Inr msg) s) = (202, IngestAccepted ''accepted'' (im_ID (with_defaults c msg)) '''')"
proof -
  have k: "im_IdempotencyKey (with_defaults c msg) = ''''" using assms(2) by (simp add: with_defaults_def Let_def)
  let ?s = "metric ''messages_received'' [im_Source (with_defaults c msg), ''received''] s"
  have "fst (ProcessMessage X c (with_defaults c msg) ?s) = None"
    using assms(1,3) by (simp add: ProcessMessage_def Let_def process_rest_acked(1))
  then obtain s' where "ProcessMessage X c (with_defaults c msg) ?s = (None, s')" by (metis prod.collapse)
  then show ?thesis by (simp add: ingestHandler_def Let_def k)
qed

section \<open>Instances\<close>

definition ingest_ops :: IngestOps where
  "ingest_ops = \<lparr>io_Normalizer = plain_normalizer, io_MarshalData = (\<lambda>_. Inr ''data''), io_MarshalProcessed = (\<lambda>_. Inr ''message''), io_Format = (\<lambda>_. ''now'')\<rparr>"

definition call_at :: "gotime \<Rightarrow> IngestCall" where
  "call_at t = \<lparr>ic_uuid = ''u'', ic_received = t, ic_validated = (t, t), ic_normalized = t, ic_processed = t, ic_marked = t, ic_newID = ''n'', ic_kafka = None\<rparr>"

definition noon :: gotime where
  "noon = 62135596805 * second"

definition api_message :: "string \<Rightarrow> IncomingMessage" where
  "api_message i = \<lparr>im_ID = i, im_Source = ''api'', im_Type = ''system_event'', im_Timestamp = noon,
     im_Data = Some [(''event_type'', JStr ''login''), (''severity'', JStr ''low'')], im_Metadata = Some [(''client_id'', ''c'')],
     im_IdempotencyKey = ''''\<rparr>"

definition two_days :: DataIngestionService where
  "two_days = snd (ingestHandler ingest_ops (call_at (noon + 25 * hour)) (Inr (api_message ''a-b''))
     (cleanupDedupeCache (noon + 25 * hour)
        (snd (ingestHandler ingest_ops (call_at noon) (Inr (api_message ''a-b'')) NewDataIngestionService))))"

lemma two_days_reached: "(ingest_step ingest_ops)\<^sup>*\<^sup>* (noon, NewDataIngestionService) (noon + 25 * hour, two_days)"
proof -
  let ?s1 = "snd (ingestHandler ingest_ops (call_at noon) (Inr (api_message ''a-b'')) NewDataIngestionService)"
  have "ingest_step ingest_ops (noon, NewDataIngestionService) (noon, ?s1)"
    using request [of noon "call_at noon" ingest_ops] by (simp add: call_at_def)
  moreover have "ingest_step ingest_ops (noon, ?s1) (noon + 25 * hour, cleanupDedupeCache (noon + 25 * hour) ?s1)"
    by (rule cleanup) simp
  moreover have "ingest_step ingest_ops (noon + 25 * hour, cleanupDedupeCache (noon + 25 * hour) ?s1) (noon + 25 * hour, two_days)"
    using request [of "noon + 25 * hour" "call_at (noon + 25 * hour)" ingest_ops] by (simp add: call_at_def two_days_def)
  ultimately show ?thesis by (meson rtranclp.rtrancl_into_rtrancl rtranclp.rtrancl_refl)
qed

theorem acknowledged_keys_day_apart_witness:
  "length (dis_acked two_days) = 2 \<and>
   pm_ProcessedAt (snd (dis_acked two_days ! 0)) + 24 * hour < pm_ProcessedAt (snd (dis_acked two_days ! 1))"
proof -
  have "length (dis_acked two_days) = 2" "km_Key (fst (dis_acked two_days ! 0)) = km_Key (fst (dis_acked two_days ! 1))"
    by code_simp+
  then show ?thesis
    using acknowledged_keys_day_apart [OF two_days_reached] by (simp add: sorted_wrt_iff_nth_less)
qed

theorem generated_keys_identify_witness:
  "generateIdempotencyKey (api_message ''a-b'') \<noteq> generateIdempotencyKey (api_message ''a'')"
proof -
  have "source_ok (api_message i)" "type_ok (api_message i)" "0 \<le> time_Unix (im_Timestamp (api_message i))" for i
    by (simp_all add: api_message_def source_ok_def type_ok_def meta_at_def data_at_def is_nil_def noon_def time_Unix_def)
  then show ?thesis
    using generated_keys_identify [of "api_message ''a-b''" "api_message ''a''"] by (simp add: api_message_def)
qed

theorem overlapping_requests_both_written_witness:
  "let m = with_key (api_message ''a''); s1 = snd (process_rest ingest_ops (call_at noon) m NewDataIngestionService) in
   ProcessMessage ingest_ops (call_at noon) (api_message ''a'') NewDataIngestionService = process_rest ingest_ops (call_at noon) m NewDataIngestionService \<and>
   map (\<lambda>e. km_Key (fst e)) (dis_acked (snd (process_rest ingest_ops (call_at noon) m s1))) = [im_IdempotencyKey m, im_IdempotencyKey m]"
proof -
  have "\<not> isDuplicate NewDataIngestionService (im_IdempotencyKey (with_key (api_message ''a'')))"
    "acknowledges ingest_ops (call_at noon) (with_key (api_message ''a''))"
    by code_simp+
  note both = overlapping_requests_both_written [OF this this(2)]
  have "dis_acked NewDataIngestionService = []" by (simp add: NewDataIngestionService_def)
  then show ?thesis using both by (simp add: Let_def)
qed

end
