(* ===== verification/Saga_Demo.thy ===== *)
theory Saga_Demo
  imports Go_Float Step_Systems
begin

text \<open>
  The in-memory saga orchestrator of \<open>demo/simple-saga-demo.go\<close>. The map of sagas is shared by the HTTP handlers and one
  goroutine for every saga; every critical section of the mutex is one definition. \<open>executeSaga\<close> composes them the way one
  goroutine does. For the interleaving of goroutines \<open>demo_pc\<close> says where a goroutine is between two critical sections, and
  \<open>demo_step\<close> lets any of them go on. The outcome of a step is drawn from the clock, as in the code; sleeping has no counterpart.

  The lemmas show what a run of a saga leaves in the map for every outcome of its steps, that this holds in every interleaving, and
  that every goroutine ends.
\<close>

section \<open>Data\<close>

datatype DemoSagaStatus = StatusPending | StatusRunning | StatusCompleted | StatusFailed | StatusCompensated

datatype DemoStepStatus = StepPending | StepRunning | StepCompleted | StepFailed

record DemoStep =
  ds_ID :: string
  ds_Type :: string
  ds_Status :: DemoStepStatus
  ds_Data :: "jobject option"
  ds_Error :: string
  ds_Duration :: duration

record DemoSaga =
  dg_ID :: string
  dg_Type :: string
  dg_Status :: DemoSagaStatus
  dg_Data :: "jobject option"
  dg_Steps :: "DemoStep list"
  dg_CreatedAt :: gotime
  dg_UpdatedAt :: gotime
  dg_Duration :: duration

type_synonym demo_sagas = "(string, DemoSaga) gomap"

definition NewSagaOrchestrator :: demo_sagas where
  "NewSagaOrchestrator = []"

definition demo_pending_step :: "string \<Rightarrow> string \<Rightarrow> DemoStep" where
  "demo_pending_step i t = \<lparr>ds_ID = i, ds_Type = t, ds_Status = StepPending, ds_Data = None, ds_Error = '''', ds_Duration = 0\<rparr>"

text \<open>\<open>uuids\<close> has the identifiers of the saga and of its three steps, \<open>t1\<close> and \<open>t2\<close> are readings of the clock.\<close>

definition demo_CreateSaga ::
  "string \<times> string \<times> string \<times> string \<Rightarrow> gotime \<Rightarrow> gotime \<Rightarrow> string \<Rightarrow> jobject option \<Rightarrow> demo_sagas \<Rightarrow> DemoSaga \<times> demo_sagas" where
  "demo_CreateSaga uuids t1 t2 sagaType data m =
     (let (u, i1, i2, i3) = uuids;
          steps = (if sagaType = ''order_processing''
                   then [demo_pending_step i1 ''reserve_inventory'', demo_pending_step i2 ''process_payment'', demo_pending_step i3 ''send_notification'']
                   else if sagaType = ''refund_processing''
                   then [demo_pending_step i1 ''validate_refund'', demo_pending_step i2 ''process_refund'', demo_pending_step i3 ''update_inventory'']
                   else []);
          saga = \<lparr>dg_ID = u, dg_Type = sagaType, dg_Status = StatusPending, dg_Data = data, dg_Steps = steps, dg_CreatedAt = t1,
                  dg_UpdatedAt = t2, dg_Duration = 0\<rparr>
      in (saga, go_set u saga m))"

definition demo_GetSaga :: "demo_sagas \<Rightarrow> string \<Rightarrow> DemoSaga option" where
  "demo_GetSaga m i = map_of m i"

definition demo_ListSagas :: "demo_sagas \<Rightarrow> DemoSaga list" where
  "demo_ListSagas m = map snd m"

section \<open>Critical sections\<close>

definition update_saga :: "string \<Rightarrow> (DemoSaga \<Rightarrow> DemoSaga) \<Rightarrow> demo_sagas \<Rightarrow> demo_sagas" where
  "update_saga i f m = (case map_of m i of None \<Rightarrow> m | Some g \<Rightarrow> go_set i (f g) m)"

definition set_saga_status :: "DemoSagaStatus \<Rightarrow> gotime \<Rightarrow> DemoSaga \<Rightarrow> DemoSaga" where
  "set_saga_status st now g = g\<lparr>dg_Status := st, dg_UpdatedAt := now\<rparr>"

definition finish_saga :: "gotime \<Rightarrow> gotime \<Rightarrow> gotime \<Rightarrow> DemoSaga \<Rightarrow> DemoSaga" where
  "finish_saga now start end g = g\<lparr>dg_Status := StatusCompleted, dg_UpdatedAt := now, dg_Duration := time_Sub end start\<rparr>"

definition begin_step :: "gotime \<Rightarrow> string \<Rightarrow> nat \<Rightarrow> demo_sagas \<Rightarrow> bool \<times> demo_sagas" where
  "begin_step now i k m =
     (case map_of m i of
        None \<Rightarrow> (False, m)
      | Some g \<Rightarrow>
          if length (dg_Steps g) \<le> k then (False, m)
          else (True, go_set i (g\<lparr>dg_Steps := (dg_Steps g)[k := (dg_Steps g ! k)\<lparr>ds_Status := StepRunning\<rparr>], dg_UpdatedAt := now\<rparr>) m))"

definition end_step_of :: "bool \<Rightarrow> duration \<Rightarrow> DemoStep \<Rightarrow> DemoStep" where
  "end_step_of success d st =
     (if success then st\<lparr>ds_Duration := d, ds_Status := StepCompleted\<rparr>
      else st\<lparr>ds_Duration := d, ds_Status := StepFailed, ds_Error := ''Step '' @ ds_Type st @ '' failed during execution''\<rparr>)"

definition end_step :: "gotime \<Rightarrow> gotime \<Rightarrow> gotime \<Rightarrow> bool \<Rightarrow> string \<Rightarrow> nat \<Rightarrow> demo_sagas \<Rightarrow> demo_sagas" where
  "end_step now start end success i k =
     update_saga i (\<lambda>g. g\<lparr>dg_Steps := (dg_Steps g)[k := end_step_of success (time_Sub end start) (dg_Steps g ! k)], dg_UpdatedAt := now\<rparr>)"

section \<open>One goroutine\<close>

definition time_UnixNano :: "gotime \<Rightarrow> int" where
  "time_UnixNano t = wrap64 (t - 62135596800 * second)"

definition simulateStepExecution :: "gotime \<Rightarrow> bool" where
  "simulateStepExecution draw =
     (let failureRate = fl (1 / 10) in go_int64 (fl (failureRate * 100)) \<le> time_UnixNano draw smod 100)"

record StepClock =
  sc_begin :: gotime
  sc_start :: gotime
  sc_draw :: gotime
  sc_end :: gotime
  sc_updated :: gotime

definition demo_executeStep :: "StepClock \<Rightarrow> string \<Rightarrow> nat \<Rightarrow> demo_sagas \<Rightarrow> bool \<times> demo_sagas" where
  "demo_executeStep c i k m =
     (case begin_step (sc_begin c) i k m of
        (False, m1) \<Rightarrow> (False, m1)
      | (True, m1) \<Rightarrow>
          let success = simulateStepExecution (sc_draw c) in
          (success, end_step (sc_updated c) (sc_start c) (sc_end c) success i k m1))"

text \<open>The result has the types of the steps that are compensated, in their order.\<close>

definition demo_compensateSaga :: "gotime \<Rightarrow> gotime \<Rightarrow> string \<Rightarrow> int \<Rightarrow> demo_sagas \<Rightarrow> string list \<times> demo_sagas" where
  "demo_compensateSaga t1 t2 i lastCompletedStep m =
     (case map_of m i of
        None \<Rightarrow> ([], m)
      | Some g \<Rightarrow>
          let m1 = update_saga i (set_saga_status StatusFailed t1) m;
              done = [ds_Type (dg_Steps g ! k). k \<leftarrow> rev [0..<nat (lastCompletedStep + 1)], ds_Status (dg_Steps g ! k) = StepCompleted]
          in (done, update_saga i (set_saga_status StatusCompensated t2) m1))"

fun execute_steps :: "(nat \<Rightarrow> StepClock) \<Rightarrow> string \<Rightarrow> nat list \<Rightarrow> demo_sagas \<Rightarrow> nat option \<times> demo_sagas" where
  "execute_steps C i [] m = (None, m)"
| "execute_steps C i (k # ks) m =
     (case demo_executeStep (C k) i k m of (True, m') \<Rightarrow> execute_steps C i ks m' | (False, m') \<Rightarrow> (Some k, m'))"

record SagaClock =
  gc_running :: gotime
  gc_start :: gotime
  gc_failed :: gotime
  gc_compensated :: gotime
  gc_completed :: gotime
  gc_end :: gotime

definition demo_executeSaga :: "SagaClock \<Rightarrow> (nat \<Rightarrow> StepClock) \<Rightarrow> string \<Rightarrow> demo_sagas \<Rightarrow> string list \<times> demo_sagas" where
  "demo_executeSaga c C i m =
     (case map_of m i of
        None \<Rightarrow> ([], m)
      | Some g \<Rightarrow>
          (case execute_steps C i [0..<length (dg_Steps g)] (update_saga i (set_saga_status StatusRunning (gc_running c)) m) of
             (Some k, m') \<Rightarrow> demo_compensateSaga (gc_failed c) (gc_compensated c) i (int k - 1) m'
           | (None, m') \<Rightarrow> ([], update_saga i (finish_saga (gc_completed c) (gc_start c) (gc_end c)) m')))"

section \<open>Handlers\<close>

datatype demo_response =
  HttpError string int | SagaBody int DemoSaga | SagasBody "DemoSaga list" | HealthBody string string string

definition demo_createSagaHandler ::
  "string \<times> string \<times> string \<times> string \<Rightarrow> gotime \<Rightarrow> gotime \<Rightarrow> string \<Rightarrow> (string \<times> jobject option) option \<Rightarrow> demo_sagas \<Rightarrow> demo_response \<times> demo_sagas" where
  "demo_createSagaHandler uuids t1 t2 httpMethod body m =
     (if httpMethod \<noteq> ''POST'' then (HttpError ''Method not allowed'' 405, m)
      else case body of
        None \<Rightarrow> (HttpError ''Invalid JSON'' 400, m)
      | Some (sagaType, data) \<Rightarrow> (let (saga, m') = demo_CreateSaga uuids t1 t2 sagaType data m in (SagaBody 201 saga, m')))"

definition demo_getSagaHandler :: "string \<Rightarrow> string \<Rightarrow> demo_sagas \<Rightarrow> demo_response" where
  "demo_getSagaHandler httpMethod path m =
     (if httpMethod \<noteq> ''GET'' then HttpError ''Method not allowed'' 405
      else let sagaID = drop (length ''/api/v1/sagas/'') path in
        if sagaID = '''' then SagasBody (demo_ListSagas m)
        else case demo_GetSaga m sagaID of None \<Rightarrow> HttpError ''Saga not found'' 404 | Some g \<Rightarrow> SagaBody 200 g)"

definition demo_healthHandler :: "(gotime \<Rightarrow> string) \<Rightarrow> gotime \<Rightarrow> demo_response" where
  "demo_healthHandler rfc3339 now = HealthBody ''healthy'' ''saga-orchestrator-demo'' (rfc3339 now)"

section \<open>What the critical sections change\<close>

abbreviation statuses :: "DemoSaga \<Rightarrow> DemoStepStatus list" where
  "statuses g \<equiv> map ds_Status (dg_Steps g)"

abbreviation step_types :: "DemoSaga \<Rightarrow> string list" where
  "step_types g \<equiv> map ds_Type (dg_Steps g)"

text \<open>The first \<open>k\<close> steps are completed, then comes \<open>st\<close>, and the last \<open>r\<close> steps are pending.\<close>

abbreviation shape :: "nat \<Rightarrow> DemoStepStatus \<Rightarrow> nat \<Rightarrow> DemoStepStatus list" where
  "shape k st r \<equiv> replicate k StepCompleted @ st # replicate r StepPending"

lemma shape_update [simp]: "(shape k a r)[k := b] = shape k b r"
  by (metis length_replicate list_update_length)

lemma shape_length: "statuses g = shape k st r \<Longrightarrow> length (dg_Steps g) = Suc (k + r)"
  by (drule arg_cong [of _ _ length]) simp

lemma map_of_update_saga: "map_of (update_saga i f m) = (map_of m)(i := map_option f (map_of m i))"
  by (auto simp: update_saga_def map_of_go_set split: option.split)

lemma map_of_update_other [simp]: "j \<noteq> i \<Longrightarrow> map_of (update_saga i f m) j = map_of m j"
  by (simp add: map_of_update_saga)

lemma set_saga_status_simps [simp]:
  "dg_Status (set_saga_status st now g) = st" "dg_Steps (set_saga_status st now g) = dg_Steps g"
  by (simp_all add: set_saga_status_def)

lemma finish_saga_simps [simp]:
  "dg_Status (finish_saga now a b g) = StatusCompleted" "dg_Steps (finish_saga now a b g) = dg_Steps g"
  by (simp_all add: finish_saga_def)

lemma end_step_of_simps [simp]:
  "ds_Status (end_step_of ok d st) = (if ok then StepCompleted else StepFailed)" "ds_Type (end_step_of ok d st) = ds_Type st"
  by (simp_all add: end_step_of_def)

lemma map_update_id [simp]: "(map f xs)[k := f (xs ! k)] = map f xs"
  by (metis list_update_id map_update)

lemma begin_step_shape:
  assumes "map_of m i = Some g" "statuses g = shape k StepPending r"
  shows "\<exists>g'. begin_step now i k m = (True, go_set i g' m) \<and> statuses g' = shape k StepRunning r \<and>
    step_types g' = step_types g \<and> dg_Status g' = dg_Status g"
proof -
  have "k < length (dg_Steps g)" using shape_length [OF assms(2)] by simp
  then show ?thesis
    using assms
    by (intro exI [of _ "g\<lparr>dg_Steps := (dg_Steps g)[k := (dg_Steps g ! k)\<lparr>ds_Status := StepRunning\<rparr>], dg_UpdatedAt := now\<rparr>"])
      (simp add: begin_step_def map_update)
qed

lemma end_step_shape:
  assumes "map_of m i = Some g" "statuses g = shape k StepRunning r"
  shows "\<exists>g'. end_step now a b ok i k m = go_set i g' m \<and> statuses g' = shape k (if ok then StepCompleted else StepFailed) r \<and>
    step_types g' = step_types g \<and> dg_Status g' = dg_Status g"
  using assms
  by (intro exI [of _ "g\<lparr>dg_Steps := (dg_Steps g)[k := end_step_of ok (time_Sub b a) (dg_Steps g ! k)], dg_UpdatedAt := now\<rparr>"])
    (simp add: end_step_def update_saga_def map_update)

section \<open>One goroutine alone\<close>

lemma executeStep_shape:
  assumes "map_of m i = Some g" "statuses g = shape k StepPending r"
  shows "\<exists>g' m'. demo_executeStep c i k m = (simulateStepExecution (sc_draw c), m') \<and> map_of m' = (map_of m)(i \<mapsto> g') \<and>
    statuses g' = shape k (if simulateStepExecution (sc_draw c) then StepCompleted else StepFailed) r \<and>
    step_types g' = step_types g \<and> dg_Status g' = dg_Status g"
proof -
  obtain g1 where g1: "begin_step (sc_begin c) i k m = (True, go_set i g1 m)" "statuses g1 = shape k StepRunning r"
    "step_types g1 = step_types g" "dg_Status g1 = dg_Status g"
    using begin_step_shape [OF assms] by blast
  have "map_of (go_set i g1 m) i = Some g1" by (simp add: map_of_go_set)
  from end_step_shape [OF this g1(2), of "sc_updated c" "sc_start c" "sc_end c" "simulateStepExecution (sc_draw c)"] g1
  show ?thesis by (auto simp: demo_executeStep_def map_of_go_set Let_def)
qed

text \<open>The first step that fails.\<close>

definition first_failure :: "(nat \<Rightarrow> StepClock) \<Rightarrow> nat list \<Rightarrow> nat option" where
  "first_failure C ks = find (\<lambda>k. \<not> simulateStepExecution (sc_draw (C k))) ks"

lemma execute_steps_shape:
  assumes "map_of m i = Some g" "statuses g = replicate k StepCompleted @ replicate r StepPending"
  shows "\<exists>g' m'. execute_steps C i [k..<k + r] m = (first_failure C [k..<k + r], m') \<and> map_of m' = (map_of m)(i \<mapsto> g') \<and>
    statuses g' = (case first_failure C [k..<k + r] of None \<Rightarrow> replicate (k + r) StepCompleted
      | Some j \<Rightarrow> shape j StepFailed (k + r - Suc j)) \<and>
    step_types g' = step_types g \<and> dg_Status g' = dg_Status g"
  using assms
proof (induction r arbitrary: k m g)
  case 0
  then show ?case by (intro exI [of _ g] exI [of _ m]) (auto simp: first_failure_def)
next
  case (Suc r)
  let ?ok = "simulateStepExecution (sc_draw (C k))"
  have "statuses g = shape k StepPending r" using Suc.prems(2) by simp
  from executeStep_shape [OF Suc.prems(1) this, of "C k"] obtain g1 m1 where
    g1: "demo_executeStep (C k) i k m = (?ok, m1)" "map_of m1 = (map_of m)(i \<mapsto> g1)"
      "statuses g1 = shape k (if ?ok then StepCompleted else StepFailed) r" "step_types g1 = step_types g" "dg_Status g1 = dg_Status g"
    by blast
  have n: "k + Suc r = Suc k + r" by simp
  have upt: "[k..<Suc k + r] = k # [Suc k..<Suc k + r]" by (simp add: upt_conv_Cons)
  show ?case
  proof (cases ?ok)
    case True
    have "map_of m1 i = Some g1" "statuses g1 = replicate (Suc k) StepCompleted @ replicate r StepPending"
      using g1(2,3) True by (simp_all add: replicate_app_Cons_same)
    from Suc.IH [OF this] obtain g2 m2 where
      g2: "execute_steps C i [Suc k..<Suc k + r] m1 = (first_failure C [Suc k..<Suc k + r], m2)" "map_of m2 = (map_of m1)(i \<mapsto> g2)"
        "statuses g2 = (case first_failure C [Suc k..<Suc k + r] of None \<Rightarrow> replicate (Suc k + r) StepCompleted
           | Some j \<Rightarrow> shape j StepFailed (Suc k + r - Suc j))" "step_types g2 = step_types g1" "dg_Status g2 = dg_Status g1"
      by blast
    have ff: "first_failure C (k # [Suc k..<Suc k + r]) = first_failure C [Suc k..<Suc k + r]" using True by (simp add: first_failure_def)
    show ?thesis
      unfolding n upt ff using g1 g2 True by (intro exI [of _ g2] exI [of _ m2]) (simp del: upt_Suc replicate.simps)
  next
    case False
    then show ?thesis unfolding n upt using g1 by (intro exI [of _ g1] exI [of _ m1]) (simp add: first_failure_def)
  qed
qed

text \<open>The steps that are compensated are the completed ones, last first.\<close>

lemma compensated_types:
  assumes "statuses g = shape k st r" "step_types g = ts"
  shows "[ds_Type (dg_Steps g ! j). j \<leftarrow> rev [0..<k], ds_Status (dg_Steps g ! j) = StepCompleted] = rev (take k ts)"
proof -
  have len: "k < length (dg_Steps g)" using shape_length [OF assms(1)] by simp
  have "ds_Status (dg_Steps g ! j) = StepCompleted" if "j < k" for j
    using that len arg_cong [OF assms(1), of "\<lambda>xs. xs ! j"] by (simp add: nth_append)
  then have all: "filter (\<lambda>j. ds_Status (dg_Steps g ! j) = StepCompleted) (rev [0..<k]) = rev [0..<k]"
    by (auto simp: filter_id_conv)
  have types: "map (\<lambda>j. ds_Type (dg_Steps g ! j)) [0..<k] = take k ts"
    using len by (intro nth_equalityI) (auto simp: assms(2) [symmetric])
  have comp: "[f j. j \<leftarrow> js, P j] = map f (filter P js)" for f :: "nat \<Rightarrow> string" and P js
    by (induction js) simp_all
  show ?thesis unfolding comp all types [symmetric] by (rule rev_map [symmetric])
qed

section \<open>Goroutines side by side\<close>

text \<open>
  Where a goroutine is: before its first critical section, before and inside a step, before the compensation, inside it, before
  the saga is completed, at its end. The instants are those its local variables hold.
\<close>

datatype demo_pc = PStart | PStep gotime nat | PIn gotime gotime nat | PFail nat | PComp | PEnd gotime | PDone

text \<open>Readings of the clock around one critical section.\<close>

type_synonym readings = "gotime \<times> gotime \<times> gotime"

definition next_step :: "gotime \<Rightarrow> nat \<Rightarrow> nat \<Rightarrow> demo_pc" where
  "next_step t0 k n = (if k < n then PStep t0 k else PEnd t0)"

definition demo_advance :: "readings \<Rightarrow> string \<Rightarrow> demo_pc \<Rightarrow> demo_sagas \<Rightarrow> demo_pc \<times> demo_sagas" where
  "demo_advance r i pc m =
     (let (r1, r2, r3) = r in
      case map_of m i of
        None \<Rightarrow> (PDone, m)
      | Some g \<Rightarrow>
          (case pc of
             PStart \<Rightarrow> (next_step r2 0 (length (dg_Steps g)), update_saga i (set_saga_status StatusRunning r1) m)
           | PStep t0 k \<Rightarrow> (let (ok, m') = begin_step r1 i k m in (if ok then PIn t0 r2 k else PFail k, m'))
           | PIn t0 ts k \<Rightarrow>
               (let ok = simulateStepExecution r1 in
                (if ok then next_step t0 (Suc k) (length (dg_Steps g)) else PFail k, end_step r3 ts r2 ok i k m))
           | PFail k \<Rightarrow> (PComp, update_saga i (set_saga_status StatusFailed r1) m)
           | PComp \<Rightarrow> (PDone, update_saga i (set_saga_status StatusCompensated r1) m)
           | PEnd t0 \<Rightarrow> (PDone, update_saga i (finish_saga r1 t0 r2) m)
           | PDone \<Rightarrow> (PDone, m)))"

record DemoState =
  dm_sagas :: demo_sagas
  dm_pcs :: "(string, demo_pc) gomap"

definition demo_init :: DemoState where
  "demo_init = \<lparr>dm_sagas = NewSagaOrchestrator, dm_pcs = []\<rparr>"

definition advance_one :: "string \<Rightarrow> readings \<Rightarrow> DemoState \<Rightarrow> DemoState" where
  "advance_one i r s =
     (case map_of (dm_pcs s) i of
        None \<Rightarrow> s
      | Some pc \<Rightarrow> (let (pc', m') = demo_advance r i pc (dm_sagas s) in s\<lparr>dm_sagas := m', dm_pcs := go_set i pc' (dm_pcs s)\<rparr>))"

definition demo_create ::
  "string \<times> string \<times> string \<times> string \<Rightarrow> gotime \<Rightarrow> gotime \<Rightarrow> string \<Rightarrow> (string \<times> jobject option) option \<Rightarrow> DemoState \<Rightarrow> DemoState" where
  "demo_create uuids t1 t2 httpMethod body s =
     (case demo_createSagaHandler uuids t1 t2 httpMethod body (dm_sagas s) of
        (SagaBody _ saga, m') \<Rightarrow> s\<lparr>dm_sagas := m', dm_pcs := go_set (dg_ID saga) PStart (dm_pcs s)\<rparr>
      | (_, m') \<Rightarrow> s\<lparr>dm_sagas := m'\<rparr>)"

inductive demo_step :: "DemoState \<Rightarrow> DemoState \<Rightarrow> bool" where
  create: "map_of (dm_sagas s) (fst uuids) = None \<Longrightarrow> demo_step s (demo_create uuids t1 t2 httpMethod body s)"
| advance: "demo_step s (advance_one i r s)"

text \<open>What the saga of a goroutine looks like.\<close>

fun pc_ok :: "demo_pc \<Rightarrow> DemoSaga \<Rightarrow> bool" where
  "pc_ok PStart g = (dg_Status g = StatusPending \<and> statuses g = replicate (length (dg_Steps g)) StepPending)"
| "pc_ok (PStep t0 k) g =
     (dg_Status g = StatusRunning \<and> k < length (dg_Steps g) \<and> statuses g = shape k StepPending (length (dg_Steps g) - Suc k))"
| "pc_ok (PIn t0 ts k) g =
     (dg_Status g = StatusRunning \<and> k < length (dg_Steps g) \<and> statuses g = shape k StepRunning (length (dg_Steps g) - Suc k))"
| "pc_ok (PFail k) g =
     (dg_Status g = StatusRunning \<and> k < length (dg_Steps g) \<and> statuses g = shape k StepFailed (length (dg_Steps g) - Suc k))"
| "pc_ok PComp g = (dg_Status g = StatusFailed \<and> (\<exists>k < length (dg_Steps g). statuses g = shape k StepFailed (length (dg_Steps g) - Suc k)))"
| "pc_ok (PEnd t0) g = (dg_Status g = StatusRunning \<and> statuses g = replicate (length (dg_Steps g)) StepCompleted)"
| "pc_ok PDone g =
     (dg_Status g = StatusCompleted \<and> statuses g = replicate (length (dg_Steps g)) StepCompleted \<or>
      dg_Status g = StatusCompensated \<and> (\<exists>k < length (dg_Steps g). statuses g = shape k StepFailed (length (dg_Steps g) - Suc k)))"

text \<open>How many critical sections a goroutine has left.\<close>

fun pc_rank :: "nat \<Rightarrow> demo_pc \<Rightarrow> nat" where
  "pc_rank n PStart = 2 * n + 3"
| "pc_rank n (PStep t0 k) = 2 * (n - k) + 2"
| "pc_rank n (PIn t0 ts k) = 2 * (n - k) + 1"
| "pc_rank n (PFail k) = 2"
| "pc_rank n PComp = 1"
| "pc_rank n (PEnd t0) = 1"
| "pc_rank n PDone = 0"

definition advanced :: "demo_pc \<Rightarrow> DemoSaga \<Rightarrow> demo_pc \<Rightarrow> DemoSaga \<Rightarrow> bool" where
  "advanced pc g pc' g' \<longleftrightarrow> pc_ok pc' g' \<and> step_types g' = step_types g \<and> length (dg_Steps g') = length (dg_Steps g) \<and>
     (if pc = PDone then pc' = PDone \<and> g' = g else pc_rank (length (dg_Steps g)) pc' < pc_rank (length (dg_Steps g)) pc)"

lemma types_length: "step_types g' = step_types g \<Longrightarrow> length (dg_Steps g') = length (dg_Steps g)"
  by (drule arg_cong [of _ _ length]) simp

lemma next_step_ok:
  assumes "dg_Status g = StatusRunning" "k \<le> length (dg_Steps g)"
    and "statuses g = replicate k StepCompleted @ replicate (length (dg_Steps g) - k) StepPending"
  shows "pc_ok (next_step t0 k (length (dg_Steps g))) g"
proof (cases "k < length (dg_Steps g)")
  case True
  then have "length (dg_Steps g) - k = Suc (length (dg_Steps g) - Suc k)" by simp
  then show ?thesis using assms True by (simp add: next_step_def)
qed (use assms in \<open>simp add: next_step_def\<close>)

lemma next_step_rank: "k \<le> n \<Longrightarrow> pc_rank n (next_step t0 k n) \<le> 2 * (n - k) + 2"
  by (simp add: next_step_def)

lemma step_advanced:
  assumes "map_of m i = Some g" "pc_ok (PStep t0 k) g"
  shows "\<exists>pc' g' m'. demo_advance r i (PStep t0 k) m = (pc', m') \<and> map_of m' = (map_of m)(i \<mapsto> g') \<and> advanced (PStep t0 k) g pc' g'"
proof -
  obtain r1 r2 r3 where r: "r = (r1, r2, r3)" by (cases r)
  obtain g' where g': "begin_step r1 i k m = (True, go_set i g' m)" "statuses g' = shape k StepRunning (length (dg_Steps g) - Suc k)"
    "step_types g' = step_types g" "dg_Status g' = dg_Status g"
    using begin_step_shape [OF assms(1), of k "length (dg_Steps g) - Suc k" r1] assms(2) by force
  show ?thesis
    using assms g' types_length [OF g'(3)]
    by (intro exI [of _ "PIn t0 r2 k"] exI [of _ g'] exI [of _ "go_set i g' m"])
      (simp add: r demo_advance_def map_of_go_set advanced_def)
qed

lemma in_advanced:
  assumes "map_of m i = Some g" "pc_ok (PIn t0 ts k) g"
  shows "\<exists>pc' g' m'. demo_advance r i (PIn t0 ts k) m = (pc', m') \<and> map_of m' = (map_of m)(i \<mapsto> g') \<and> advanced (PIn t0 ts k) g pc' g'"
proof -
  obtain r1 r2 r3 where r: "r = (r1, r2, r3)" by (cases r)
  let ?ok = "simulateStepExecution r1" and ?n = "length (dg_Steps g)"
  obtain g' where g': "end_step r3 ts r2 ?ok i k m = go_set i g' m"
    "statuses g' = shape k (if ?ok then StepCompleted else StepFailed) (?n - Suc k)"
    "step_types g' = step_types g" "dg_Status g' = dg_Status g"
    using end_step_shape [OF assms(1), of k "?n - Suc k" r3 ts r2 ?ok] assms(2) by force
  have n: "length (dg_Steps g') = ?n" "Suc k \<le> ?n" using types_length [OF g'(3)] assms(2) by simp_all
  have adv: "demo_advance r i (PIn t0 ts k) m = (if ?ok then next_step t0 (Suc k) ?n else PFail k, go_set i g' m)"
    using assms(1) g'(1) by (simp add: r demo_advance_def Let_def)
  have "pc_ok (if ?ok then next_step t0 (Suc k) ?n else PFail k) g'"
  proof (cases ?ok)
    case True
    have "statuses g' = replicate (Suc k) StepCompleted @ replicate (length (dg_Steps g') - Suc k) StepPending"
      using g'(2) True n(1) by (simp add: replicate_app_Cons_same)
    then show ?thesis using True next_step_ok [of g' "Suc k" t0] g'(4) assms(2) n by simp
  qed (use g' assms(2) n in simp)
  moreover have "pc_rank ?n (if ?ok then next_step t0 (Suc k) ?n else PFail k) < pc_rank ?n (PIn t0 ts k)"
    using next_step_rank [OF n(2), of t0] n(2) by (auto split: if_splits)
  ultimately show ?thesis using adv g'(3) n(1) by (auto simp: advanced_def map_of_go_set)
qed

lemma update_advanced:
  assumes "map_of m i = Some g" "demo_advance r i pc m = (pc', update_saga i f m)" "advanced pc g pc' (f g)"
  shows "\<exists>pc' g' m'. demo_advance r i pc m = (pc', m') \<and> map_of m' = (map_of m)(i \<mapsto> g') \<and> advanced pc g pc' g'"
  using assms by (auto simp: map_of_update_saga)

lemma demo_advance_ok:
  assumes g: "map_of m i = Some g" and ok: "pc_ok pc g"
  shows "\<exists>pc' g' m'. demo_advance r i pc m = (pc', m') \<and> map_of m' = (map_of m)(i \<mapsto> g') \<and> advanced pc g pc' g'"
proof -
  obtain r1 r2 r3 where r: "r = (r1, r2, r3)" by (cases r)
  show ?thesis
  proof (cases pc)
    case PStart
    have "pc_ok (next_step r2 0 (length (dg_Steps g))) (set_saga_status StatusRunning r1 g)"
      using next_step_ok [of "set_saga_status StatusRunning r1 g" 0 r2] ok by (simp add: PStart)
    then show ?thesis
      using g next_step_rank [of 0 "length (dg_Steps g)" r2]
      by (intro update_advanced [of m i g r pc "next_step r2 0 (length (dg_Steps g))" "set_saga_status StatusRunning r1"])
        (simp_all add: PStart r demo_advance_def advanced_def)
  next
    case (PStep t0 k)
    then show ?thesis using step_advanced g ok by blast
  next
    case (PIn t0 ts k)
    then show ?thesis using in_advanced g ok by blast
  next
    case (PFail k)
    then show ?thesis
      using g ok by (intro update_advanced [of m i g r pc PComp "set_saga_status StatusFailed r1"])
        (auto simp: r demo_advance_def advanced_def)
  next
    case PComp
    then show ?thesis
      using g ok by (intro update_advanced [of m i g r pc PDone "set_saga_status StatusCompensated r1"])
        (auto simp: r demo_advance_def advanced_def)
  next
    case (PEnd t0)
    then show ?thesis
      using g ok by (intro update_advanced [of m i g r pc PDone "finish_saga r1 t0 r2"]) (simp_all add: r demo_advance_def advanced_def)
  next
    case PDone
    then show ?thesis using g ok by (simp add: r demo_advance_def advanced_def fun_upd_idem)
  qed
qed

section \<open>The invariant of the interleaving\<close>

fun entry_ok :: "DemoSaga option \<Rightarrow> demo_pc option \<Rightarrow> bool" where
  "entry_ok None None = True"
| "entry_ok (Some g) (Some pc) = pc_ok pc g"
| "entry_ok _ _ = False"

definition demo_ok :: "DemoState \<Rightarrow> bool" where
  "demo_ok s \<longleftrightarrow> (\<forall>i. entry_ok (map_of (dm_sagas s) i) (map_of (dm_pcs s) i))"

lemma demo_okD:
  assumes "demo_ok s"
  shows "map_of (dm_sagas s) i = Some g \<Longrightarrow> \<exists>pc. map_of (dm_pcs s) i = Some pc \<and> pc_ok pc g"
    "map_of (dm_sagas s) i = None \<Longrightarrow> map_of (dm_pcs s) i = None"
proof -
  have "entry_ok (map_of (dm_sagas s) i) (map_of (dm_pcs s) i)" using assms by (simp add: demo_ok_def)
  then show "map_of (dm_sagas s) i = Some g \<Longrightarrow> \<exists>pc. map_of (dm_pcs s) i = Some pc \<and> pc_ok pc g"
    "map_of (dm_sagas s) i = None \<Longrightarrow> map_of (dm_pcs s) i = None"
    by (cases "map_of (dm_pcs s) i"; simp)+
qed

lemma advance_one_ok:
  assumes "demo_ok s"
  shows "demo_ok (advance_one i r s)"
proof (cases "map_of (dm_sagas s) i")
  case None
  then have "map_of (dm_pcs s) i = None" using demo_okD(2) [OF assms] by blast
  then show ?thesis using assms by (simp add: advance_one_def)
next
  case (Some g)
  then obtain pc where pc: "map_of (dm_pcs s) i = Some pc" "pc_ok pc g" using demo_okD(1) [OF assms] by blast
  obtain pc' g' m' where "demo_advance r i pc (dm_sagas s) = (pc', m')" "map_of m' = (map_of (dm_sagas s))(i \<mapsto> g')" "advanced pc g pc' g'"
    using demo_advance_ok [OF Some pc(2)] by blast
  then show ?thesis
    using assms pc(1) by (simp add: advance_one_def demo_ok_def map_of_go_set advanced_def)
qed

lemma create_pending:
  "pc_ok PStart (fst (demo_CreateSaga uuids t1 t2 ty d m))" "dg_ID (fst (demo_CreateSaga uuids t1 t2 ty d m)) = fst uuids"
  "snd (demo_CreateSaga uuids t1 t2 ty d m) = go_set (fst uuids) (fst (demo_CreateSaga uuids t1 t2 ty d m)) m"
  by (cases uuids; simp add: demo_CreateSaga_def demo_pending_step_def Let_def numeral_3_eq_3)+

lemma demo_create_ok:
  assumes "demo_ok s"
  shows "demo_ok (demo_create uuids t1 t2 httpMethod body s)"
proof (cases "httpMethod = ''POST'' \<and> body \<noteq> None")
  case True
  then obtain ty d where b: "httpMethod = ''POST''" "body = Some (ty, d)" by auto
  let ?g = "fst (demo_CreateSaga uuids t1 t2 ty d (dm_sagas s))"
  have "demo_create uuids t1 t2 httpMethod body s =
      s\<lparr>dm_sagas := go_set (fst uuids) ?g (dm_sagas s), dm_pcs := go_set (fst uuids) PStart (dm_pcs s)\<rparr>"
    by (simp add: demo_create_def demo_createSagaHandler_def b case_prod_beta create_pending(2,3))
  then show ?thesis
    using assms create_pending(1) [of uuids t1 t2 ty d "dm_sagas s"] by (simp add: demo_ok_def map_of_go_set)
qed (use assms in \<open>auto simp: demo_create_def demo_createSagaHandler_def split: option.split\<close>)

interpretation demo: transition_system "\<lambda>_ :: unit. demo_step" demo_ok
  by unfold_locales (auto elim!: demo_step.cases intro: demo_create_ok advance_one_ok)

lemma demo_init_ok: "demo_ok demo_init"
  by (simp add: demo_ok_def demo_init_def NewSagaOrchestrator_def)

text \<open>A schedule: turns of the goroutines, each for one critical section, and requests. A request whose new identifier is taken does not happen.\<close>

datatype demo_event =
  Turn string readings
| Request "string \<times> string \<times> string \<times> string" gotime gotime string "(string \<times> jobject option) option"

fun do_event :: "demo_event \<Rightarrow> DemoState \<Rightarrow> DemoState" where
  "do_event (Turn i r) s = advance_one i r s"
| "do_event (Request uuids t1 t2 httpMethod body) s =
     (if map_of (dm_sagas s) (fst uuids) = None then demo_create uuids t1 t2 httpMethod body s else s)"

fun is_turn :: "string \<Rightarrow> demo_event \<Rightarrow> bool" where
  "is_turn i (Turn j r) \<longleftrightarrow> j = i"
| "is_turn i (Request uuids t1 t2 httpMethod body) \<longleftrightarrow> False"

lemma do_event_steps: "demo_step\<^sup>*\<^sup>* s (do_event e s)"
  by (cases e) (auto intro: demo_step.intros)

lemma do_events_steps: "demo_step\<^sup>*\<^sup>* s (fold do_event es s)"
  by (induction es arbitrary: s) (auto intro: rtranclp_trans do_event_steps)

lemma do_event_ok: "demo_ok s \<Longrightarrow> demo_ok (do_event e s)"
  by (cases e) (simp_all add: demo_create_ok advance_one_ok)

lemma turn_advances:
  assumes "demo_ok s" "map_of (dm_sagas s) i = Some g" "map_of (dm_pcs s) i = Some pc"
  shows "\<exists>pc' g'. map_of (dm_sagas (advance_one i r s)) = (map_of (dm_sagas s))(i \<mapsto> g') \<and>
    map_of (dm_pcs (advance_one i r s)) = (map_of (dm_pcs s))(i \<mapsto> pc') \<and> advanced pc g pc' g'"
proof -
  have "pc_ok pc g" using demo_okD(1) [OF assms(1,2)] assms(3) by simp
  from demo_advance_ok [OF assms(2) this, of r] obtain pc' g' m' where
    "demo_advance r i pc (dm_sagas s) = (pc', m')" "map_of m' = (map_of (dm_sagas s))(i \<mapsto> g')" "advanced pc g pc' g'"
    by blast
  then show ?thesis
    using assms(3) by (intro exI [of _ pc'] exI [of _ g']) (simp add: advance_one_def map_of_go_set)
qed

text \<open>What is not a turn of a saga does not touch it.\<close>

lemma other_event_keeps:
  assumes ok: "demo_ok s" and i: "map_of (dm_sagas s) i = Some g" and e: "\<not> is_turn i e"
  shows "map_of (dm_sagas (do_event e s)) i = map_of (dm_sagas s) i \<and> map_of (dm_pcs (do_event e s)) i = map_of (dm_pcs s) i"
proof (cases e)
  case (Turn j r)
  show ?thesis
  proof (cases "map_of (dm_sagas s) j")
    case None
    then show ?thesis using demo_okD(2) [OF ok] by (simp add: Turn advance_one_def)
  next
    case (Some h)
    obtain pc where "map_of (dm_pcs s) j = Some pc" using demo_okD(1) [OF ok Some] by blast
    from turn_advances [OF ok Some this, of r] show ?thesis using e by (auto simp: Turn)
  qed
next
  case (Request uuids t1 t2 httpMethod body)
  show ?thesis
  proof (cases "map_of (dm_sagas s) (fst uuids) = None \<and> httpMethod = ''POST'' \<and> body \<noteq> None")
    case True
    then have "fst uuids \<noteq> i" using i by auto
    then show ?thesis
      using True by (auto simp: Request demo_create_def demo_createSagaHandler_def case_prod_beta create_pending(2,3) map_of_go_set)
  next
    case False
    then show ?thesis by (auto simp: Request demo_create_def demo_createSagaHandler_def split: option.split)
  qed
qed

text \<open>A goroutine that gets enough turns ends, whatever happens between them.\<close>

lemma goroutine_ends:
  assumes "demo_ok s" "map_of (dm_sagas s) i = Some g" "map_of (dm_pcs s) i = Some pc"
    and "pc_rank (length (dg_Steps g)) pc \<le> length (filter (is_turn i) es)"
  shows "\<exists>g'. map_of (dm_sagas (fold do_event es s)) i = Some g' \<and> pc_ok PDone g' \<and> step_types g' = step_types g"
  using assms
proof (induction es arbitrary: s g pc)
  case Nil
  then have "pc = PDone" by (cases pc) simp_all
  then show ?case using Nil demo_okD(1) by fastforce
next
  case (Cons e es)
  note ok = do_event_ok [OF Cons.prems(1), of e]
  show ?case
  proof (cases "is_turn i e")
    case True
    then obtain r where e: "e = Turn i r" by (cases e) auto
    obtain pc' g' where a: "map_of (dm_sagas (do_event e s)) i = Some g'" "map_of (dm_pcs (do_event e s)) i = Some pc'" "advanced pc g pc' g'"
      using turn_advances [OF Cons.prems(1-3), of r] by (auto simp: e)
    have "pc_rank (length (dg_Steps g')) pc' \<le> length (filter (is_turn i) es)"
      using a(3) Cons.prems(4) by (auto simp: e advanced_def split: if_splits)
    from Cons.IH [OF ok a(1,2) this] a(3) show ?thesis by (auto simp: advanced_def)
  next
    case False
    then show ?thesis
      using Cons.IH [OF ok, of g pc] Cons.prems other_event_keeps [OF Cons.prems(1,2) False] by simp
  qed
qed

section \<open>Properties\<close>

text \<open>
  What one goroutine makes of a saga whose steps are pending. When no step fails the saga and all its steps are completed. Otherwise
  the saga is compensated, the steps before the first failing one are compensated last first but keep the status completed, the failing
  one has failed and the others stay pending. Other sagas are not touched.
\<close>
theorem demo_saga_outcome:
  assumes "map_of m i = Some g" "list_all (\<lambda>st. ds_Status st = StepPending) (dg_Steps g)"
  shows "\<exists>g' comp m'. demo_executeSaga c C i m = (comp, m') \<and> map_of m' = (map_of m)(i \<mapsto> g') \<and> step_types g' = step_types g \<and>
    (case first_failure C [0..<length (dg_Steps g)] of
       None \<Rightarrow> dg_Status g' = StatusCompleted \<and> statuses g' = replicate (length (dg_Steps g)) StepCompleted \<and> comp = []
     | Some k \<Rightarrow> dg_Status g' = StatusCompensated \<and> comp = rev (take k (step_types g)) \<and>
         statuses g' = replicate k StepCompleted @ StepFailed # replicate (length (dg_Steps g) - Suc k) StepPending)"
proof -
  let ?n = "length (dg_Steps g)" and ?m = "update_saga i (set_saga_status StatusRunning (gc_running c)) m"
  have "map ds_Status xs = replicate (length xs) StepPending" if "list_all (\<lambda>st. ds_Status st = StepPending) xs" for xs
    using that by (induction xs) simp_all
  then have "statuses (set_saga_status StatusRunning (gc_running c) g) = replicate 0 StepCompleted @ replicate ?n StepPending"
    using assms(2) by simp
  from execute_steps_shape [OF _ this, of ?m i C, unfolded add_0] assms(1) obtain g1 m1 where
    g1: "execute_steps C i [0..<?n] ?m = (first_failure C [0..<?n], m1)" "map_of m1 = (map_of m)(i \<mapsto> g1)"
      "statuses g1 = (case first_failure C [0..<?n] of None \<Rightarrow> replicate ?n StepCompleted | Some j \<Rightarrow> shape j StepFailed (?n - Suc j))"
      "step_types g1 = step_types g"
    by (auto simp: map_of_update_saga)
  show ?thesis
  proof (cases "first_failure C [0..<?n]")
    case None
    then show ?thesis
      using assms(1) g1
      by (intro exI [of _ "finish_saga (gc_completed c) (gc_start c) (gc_end c) g1"] exI [of _ "[]"]
            exI [of _ "update_saga i (finish_saga (gc_completed c) (gc_start c) (gc_end c)) m1"])
        (simp add: demo_executeSaga_def map_of_update_saga)
  next
    case (Some k)
    have s1: "statuses g1 = shape k StepFailed (?n - Suc k)" using g1(3) Some by simp
    have comp: "demo_compensateSaga (gc_failed c) (gc_compensated c) i (int k - 1) m1 =
        (rev (take k (step_types g)), update_saga i (set_saga_status StatusCompensated (gc_compensated c))
           (update_saga i (set_saga_status StatusFailed (gc_failed c)) m1))"
      using compensated_types [OF s1 g1(4)] g1(2) by (simp add: demo_compensateSaga_def Let_def)
    show ?thesis
      using assms(1) g1 Some comp s1
      by (intro exI [of _ "set_saga_status StatusCompensated (gc_compensated c) (set_saga_status StatusFailed (gc_failed c) g1)"]
            exI [of _ "rev (take k (step_types g))"] exI [of _ "snd (demo_compensateSaga (gc_failed c) (gc_compensated c) i (int k - 1) m1)"])
        (simp add: demo_executeSaga_def map_of_update_saga)
  qed
qed

text \<open>Readings for the witnesses: a draw at \<open>n\<close> nanoseconds after 1970 fails for \<open>n < 10\<close>.\<close>

definition draw_at :: "int \<Rightarrow> gotime" where
  "draw_at n = 62135596800 * second + n"

definition sample_clock :: SagaClock where
  "sample_clock = \<lparr>gc_running = 1, gc_start = 1, gc_failed = 1, gc_compensated = 1, gc_completed = 1, gc_end = 1\<rparr>"

definition step_clock :: "int list \<Rightarrow> nat \<Rightarrow> StepClock" where
  "step_clock ds k = \<lparr>sc_begin = 1, sc_start = 1, sc_draw = draw_at (ds ! k), sc_end = 1, sc_updated = 1\<rparr>"

definition sample_sagas :: demo_sagas where
  "sample_sagas = snd (demo_CreateSaga (''s'', ''a'', ''b'', ''c'') 1 1 ''order_processing'' None NewSagaOrchestrator)"

theorem demo_saga_outcome_witness:
  "\<exists>g'. map_of (snd (demo_executeSaga sample_clock (step_clock [50, 60, 7]) ''s'' sample_sagas)) ''s'' = Some g' \<and>
     dg_Status g' = StatusCompensated \<and> statuses g' = [StepCompleted, StepCompleted, StepFailed] \<and>
     fst (demo_executeSaga sample_clock (step_clock [50, 60, 7]) ''s'' sample_sagas) = [''process_payment'', ''reserve_inventory'']"
proof -
  let ?g = "fst (demo_CreateSaga (''s'', ''a'', ''b'', ''c'') 1 1 ''order_processing'' None NewSagaOrchestrator)"
  have g: "map_of sample_sagas ''s'' = Some ?g" by code_simp
  have p: "list_all (\<lambda>st. ds_Status st = StepPending) (dg_Steps ?g)" by code_simp
  have f: "first_failure (step_clock [50, 60, 7]) [0..<3] = Some 2" by code_simp
  have t: "length (dg_Steps ?g) = 3" "rev (take 2 (step_types ?g)) = [''process_payment'', ''reserve_inventory'']" by code_simp+
  show ?thesis
    using demo_saga_outcome [OF g p, of sample_clock "step_clock [50, 60, 7]"] unfolding t(1) f option.case t(2)
    by (auto simp: numeral_2_eq_2)
qed

text \<open>
  C34: However requests and goroutines interleave, every saga settles. From every reachable state, in every schedule of further requests and turns of the
  goroutines in which the goroutine of a saga with \<open>n\<close> steps gets at least \<open>2n + 3\<close> turns, wherever they stand in it, the saga is in the end completed with all its
  steps or compensated with one failed step after completed ones and before pending ones.
\<close>
theorem demo_sagas_settle:
  assumes "demo_step\<^sup>*\<^sup>* demo_init s" "map_of (dm_sagas s) i = Some g"
    and "2 * length (dg_Steps g) + 3 \<le> length (filter (is_turn i) es)"
  shows "\<exists>g'. map_of (dm_sagas (fold do_event es s)) i = Some g' \<and> step_types g' = step_types g \<and>
    (dg_Status g' = StatusCompleted \<and> statuses g' = replicate (length (dg_Steps g')) StepCompleted \<or>
     dg_Status g' = StatusCompensated \<and>
       (\<exists>k < length (dg_Steps g'). statuses g' = replicate k StepCompleted @ StepFailed # replicate (length (dg_Steps g') - Suc k) StepPending))"
proof -
  have ok: "demo_ok s" using demo.ainv_run [OF assms(1) demo_init_ok] .
  then obtain pc where pc: "map_of (dm_pcs s) i = Some pc" using demo_okD(1) assms(2) by blast
  have "pc_rank (length (dg_Steps g)) pc \<le> length (filter (is_turn i) es)" using assms(3) by (cases pc) auto
  from goroutine_ends [OF ok assms(2) pc this] show ?thesis by auto
qed

text \<open>Two sagas that take turns.\<close>

definition two_sagas :: DemoState where
  "two_sagas = fold do_event
     [Request (''s'', ''a'', ''b'', ''c'') 1 1 ''POST'' (Some (''refund_processing'', None)),
      Request (''t'', ''d'', ''e'', ''f'') 1 1 ''POST'' (Some (''order_processing'', None))] demo_init"

definition turns :: "demo_event list" where
  "turns = concat (replicate 9 [Turn ''s'' (draw_at 99, 1, 1), Turn ''t'' (draw_at 7, 1, 1)])"

theorem demo_sagas_settle_witness:
  "map_option dg_Status (map_of (dm_sagas (fold do_event turns two_sagas)) ''s'') \<in> {Some StatusCompleted, Some StatusCompensated}"
proof -
  have r: "demo_step\<^sup>*\<^sup>* demo_init two_sagas" unfolding two_sagas_def by (rule do_events_steps)
  obtain g where g: "map_of (dm_sagas two_sagas) ''s'' = Some g" "length (dg_Steps g) = 3"
    by (simp add: two_sagas_def demo_create_def demo_createSagaHandler_def demo_CreateSaga_def demo_init_def NewSagaOrchestrator_def
        map_of_go_set Let_def)
  have "length (filter (is_turn ''s'') turns) = 9" by code_simp
  then show ?thesis
    using demo_sagas_settle [OF r g(1), of turns] g(2) by auto
qed

end
