(* ===== verification/Commit_Log_Config.thy ===== *)
theory Commit_Log_Config
  imports Go_Env Go_Strings
begin

text \<open>
  The configuration of the commit log broker, \<open>commit-log-service/services/commitlog-broker/internal/config/config.go\<close>: loading
  from the environment, validation, the choice of the leader of a partition and the other nodes of the cluster. A loop over a string
  visits its code points, which \<open>utf8_runes\<close> decodes; \<open>int\<close> has 64 bits.

  The lemmas show that a loaded configuration is well formed, that a partition has exactly one leader when the ports tell the brokers
  apart and the hash does not overflow, and what happens otherwise: with one port for all brokers, and with a negative hash.
\<close>

record BrokerConfig =
  bc_BrokerID :: int
  bc_ClusterNodes :: "string list"
  bc_HTTPPort :: int
  bc_GRPCPort :: int
  bc_DataDir :: string
  bc_LogSegmentSize :: int
  bc_IndexInterval :: int
  bc_LogRetentionHours :: int
  bc_LogRetentionBytes :: int
  bc_ReplicationFactor :: int
  bc_MinInSyncReplicas :: int
  bc_ReplicaFetchMaxWait :: duration
  bc_ReplicaFetchMinBytes :: int
  bc_ProducerBatchSize :: int
  bc_ProducerLingerMs :: duration
  bc_ProducerMaxRequestSize :: int
  bc_ProducerAcks :: string
  bc_ConsumerSessionTimeoutMs :: duration
  bc_ConsumerHeartbeatInterval :: duration
  bc_ConsumerMaxPollRecords :: int
  bc_ConsumerFetchMinBytes :: int
  bc_ConsumerFetchMaxWait :: duration
  bc_EnableLogCompaction :: bool
  bc_LogCompactionInterval :: duration
  bc_LogCompactionMinLag :: duration
  bc_LogCompactionDeleteRetention :: duration
  bc_NumNetworkThreads :: int
  bc_NumIOThreads :: int
  bc_SocketSendBufferBytes :: int
  bc_SocketReceiveBufferBytes :: int
  bc_PrometheusPort :: int
  bc_JaegerEndpoint :: string
  bc_EnableSSL :: bool
  bc_SSLKeystore :: string
  bc_SSLKeystorePassword :: string
  bc_EnableSASL :: bool
  bc_SASLMechanism :: string
  bc_EnableTransactions :: bool
  bc_TransactionTimeoutMs :: duration
  bc_TransactionAbortTimeoutMs :: duration

section \<open>Loading\<close>

abbreviation millisecond :: duration where "millisecond \<equiv> 1000000"

text \<open>The defaults, each replaced by its variable where it is set and can be read.\<close>

definition broker_env_config :: "environ \<Rightarrow> BrokerConfig" where
  "broker_env_config env =
     \<lparr>bc_BrokerID = getEnvInt env ''BROKER_ID'' 1,
      bc_ClusterNodes = (if env ''CLUSTER_NODES'' \<noteq> '''' then strings_Split CHR '','' (env ''CLUSTER_NODES'') else [''localhost:9090'']),
      bc_HTTPPort = getEnvInt env ''HTTP_PORT'' 8080,
      bc_GRPCPort = getEnvInt env ''GRPC_PORT'' 9090,
      bc_DataDir = getEnv env ''DATA_DIR'' ''/data'',
      bc_LogSegmentSize = getEnvInt env ''LOG_SEGMENT_SIZE'' (1024 * 1024 * 1024),
      bc_IndexInterval = 4096,
      bc_LogRetentionHours = getEnvInt env ''LOG_RETENTION_HOURS'' 168,
      bc_LogRetentionBytes = getEnvInt env ''LOG_RETENTION_BYTES'' (- 1),
      bc_ReplicationFactor = getEnvInt env ''REPLICATION_FACTOR'' 1,
      bc_MinInSyncReplicas = getEnvInt env ''MIN_INSYNC_REPLICAS'' 1,
      bc_ReplicaFetchMaxWait = 500 * millisecond,
      bc_ReplicaFetchMinBytes = 1,
      bc_ProducerBatchSize = 16384,
      bc_ProducerLingerMs = 0,
      bc_ProducerMaxRequestSize = 1024 * 1024,
      bc_ProducerAcks = getEnv env ''PRODUCER_ACKS'' ''1'',
      bc_ConsumerSessionTimeoutMs = 30 * second,
      bc_ConsumerHeartbeatInterval = 3 * second,
      bc_ConsumerMaxPollRecords = 500,
      bc_ConsumerFetchMinBytes = 1,
      bc_ConsumerFetchMaxWait = 500 * millisecond,
      bc_EnableLogCompaction = getEnvBool env ''ENABLE_LOG_COMPACTION'' False,
      bc_LogCompactionInterval =
        (case (if env ''LOG_COMPACTION_INTERVAL_MS'' \<noteq> '''' then strconv_Atoi (env ''LOG_COMPACTION_INTERVAL_MS'') else None) of
           Some interval \<Rightarrow> wrap64 (interval * millisecond) | None \<Rightarrow> 5 * minute),
      bc_LogCompactionMinLag = 1 * minute,
      bc_LogCompactionDeleteRetention = 24 * hour,
      bc_NumNetworkThreads = 3,
      bc_NumIOThreads = 8,
      bc_SocketSendBufferBytes = 102400,
      bc_SocketReceiveBufferBytes = 102400,
      bc_PrometheusPort = getEnvInt env ''PROMETHEUS_PORT'' 8080,
      bc_JaegerEndpoint = getEnv env ''JAEGER_ENDPOINT'' ''http://jaeger:14268/api/traces'',
      bc_EnableSSL = getEnvBool env ''ENABLE_SSL'' False,
      bc_SSLKeystore = '''',
      bc_SSLKeystorePassword = '''',
      bc_EnableSASL = getEnvBool env ''ENABLE_SASL'' False,
      bc_SASLMechanism = ''PLAIN'',
      bc_EnableTransactions = getEnvBool env ''ENABLE_TRANSACTIONS'' False,
      bc_TransactionTimeoutMs = 60 * second,
      bc_TransactionAbortTimeoutMs = 60 * second\<rparr>"

text \<open>A string in single quotes.\<close>

definition quote :: "string \<Rightarrow> string" where
  "quote s = CHR 0x27 # s @ [CHR 0x27]"

definition broker_Validate :: "BrokerConfig \<Rightarrow> goerror option" where
  "broker_Validate c =
     (if bc_BrokerID c \<le> 0 then Some ''broker_id must be positive''
      else if length (bc_ClusterNodes c) = 0 then Some ''cluster_nodes cannot be empty''
      else if bc_HTTPPort c \<le> 0 \<or> bc_HTTPPort c > 65535 then Some ''http_port must be between 1 and 65535''
      else if bc_GRPCPort c \<le> 0 \<or> bc_GRPCPort c > 65535 then Some ''grpc_port must be between 1 and 65535''
      else if bc_DataDir c = '''' then Some ''data_dir cannot be empty''
      else if bc_LogSegmentSize c \<le> 0 then Some ''log_segment_size must be positive''
      else if bc_ReplicationFactor c \<le> 0 then Some ''replication_factor must be positive''
      else if bc_MinInSyncReplicas c \<le> 0 \<or> bc_MinInSyncReplicas c > bc_ReplicationFactor c
      then Some ''min_insync_replicas must be positive and <= replication_factor''
      else if bc_ProducerAcks c \<noteq> ''0'' \<and> bc_ProducerAcks c \<noteq> ''1'' \<and> bc_ProducerAcks c \<noteq> ''all''
      then Some (''producer_acks must be '' @ quote ''0'' @ '', '' @ quote ''1'' @ '', or '' @ quote ''all'')
      else if bc_ConsumerSessionTimeoutMs c \<le> 0 then Some ''consumer_session_timeout_ms must be positive''
      else if bc_ConsumerHeartbeatInterval c \<le> 0 then Some ''consumer_heartbeat_interval must be positive''
      else if bc_ConsumerHeartbeatInterval c \<ge> bc_ConsumerSessionTimeoutMs c
      then Some ''consumer_heartbeat_interval must be less than session_timeout''
      else None)"

definition LoadConfig :: "environ \<Rightarrow> goerror + BrokerConfig" where
  "LoadConfig env =
     (let config = broker_env_config env in
      case broker_Validate config of Some err \<Rightarrow> Inl (''invalid configuration: '' @ err) | None \<Rightarrow> Inr config)"

definition GetRetentionDuration :: "BrokerConfig \<Rightarrow> duration" where
  "GetRetentionDuration c = wrap64 (bc_LogRetentionHours c * hour)"

section \<open>Leaders\<close>

text \<open>
  The code points of a string; a byte that does not start a valid encoding is the code point \<open>U+FFFD\<close>.
\<close>

abbreviation byte :: "char \<Rightarrow> int" where "byte c \<equiv> of_char c"

definition cont :: "int \<Rightarrow> int \<Rightarrow> char \<Rightarrow> bool" where
  "cont lo hi c = (lo \<le> byte c \<and> byte c \<le> hi)"

fun decode_rune :: "string \<Rightarrow> int \<times> nat" where
  "decode_rune [] = (65533, 0)"
| "decode_rune (a # s) =
     (let x = byte a in
      if x < 128 then (x, 1)
      else case s of
        [] \<Rightarrow> (65533, 1)
      | b # s' \<Rightarrow>
          if 194 \<le> x \<and> x \<le> 223 \<and> cont 128 191 b then ((x - 192) * 64 + (byte b - 128), 2)
          else case s' of
            [] \<Rightarrow> (65533, 1)
          | c # s'' \<Rightarrow>
              if 224 \<le> x \<and> x \<le> 239 \<and> cont (if x = 224 then 160 else 128) (if x = 237 then 159 else 191) b \<and> cont 128 191 c
              then ((x - 224) * 4096 + (byte b - 128) * 64 + (byte c - 128), 3)
              else case s'' of
                [] \<Rightarrow> (65533, 1)
              | d # _ \<Rightarrow>
                  if 240 \<le> x \<and> x \<le> 244 \<and> cont (if x = 240 then 144 else 128) (if x = 244 then 143 else 191) b \<and> cont 128 191 c \<and> cont 128 191 d
                  then ((x - 240) * 262144 + (byte b - 128) * 4096 + (byte c - 128) * 64 + (byte d - 128), 4)
                  else (65533, 1))"

function utf8_runes :: "string \<Rightarrow> int list" where
  "utf8_runes [] = []"
| "utf8_runes (a # s) = (let (r, n) = decode_rune (a # s) in r # utf8_runes (drop (n - 1) s))"
  by pat_completeness auto
termination
  by (relation "measure length") auto

definition topic_hash :: "string \<Rightarrow> int" where
  "topic_hash topic = fold (\<lambda>b hash. wrap64 (wrap64 (hash * 31) + b)) (utf8_runes topic) 0"

definition partition_hash :: "string \<Rightarrow> int \<Rightarrow> int" where
  "partition_hash topic part = wrap64 (topic_hash topic + part)"

definition grpc_suffix :: "int \<Rightarrow> string" where
  "grpc_suffix port = CHR '':'' # itoa port"

text \<open>The position of the first node that mentions the port, \<open>-1\<close> when there is none.\<close>

fun our_index :: "string \<Rightarrow> string list \<Rightarrow> int \<Rightarrow> int" where
  "our_index p [] i = - 1"
| "our_index p (node # nodes) i = (if strings_Contains node p then i else our_index p nodes (i + 1))"

text \<open>\<open>None\<close> is the panic of a division by zero.\<close>

definition IsLeader :: "BrokerConfig \<Rightarrow> string \<Rightarrow> int \<Rightarrow> bool option" where
  "IsLeader c topic part =
     (if bc_ClusterNodes c = [] then None
      else let leaderIndex = partition_hash topic part smod int (length (bc_ClusterNodes c))
           in Some (our_index (grpc_suffix (bc_GRPCPort c)) (bc_ClusterNodes c) 0 = leaderIndex))"

definition GetClusterSize :: "BrokerConfig \<Rightarrow> int" where
  "GetClusterSize c = int (length (bc_ClusterNodes c))"

definition GetOtherNodes :: "BrokerConfig \<Rightarrow> string list" where
  "GetOtherNodes c = filter (\<lambda>node. \<not> strings_Contains node (grpc_suffix (bc_GRPCPort c))) (bc_ClusterNodes c)"

definition broker_String :: "BrokerConfig \<Rightarrow> string" where
  "broker_String c =
     ''Broker{ID:'' @ itoa (bc_BrokerID c) @ '', HTTP:'' @ itoa (bc_HTTPPort c) @ '', gRPC:'' @ itoa (bc_GRPCPort c) @ '', DataDir:'' @
     bc_DataDir c @ '', Cluster:['' @ strings_Join CHR '' '' (bc_ClusterNodes c) @ '']}''"

section \<open>Well-formed configurations\<close>

text \<open>What a configuration that passes the validation satisfies.\<close>

definition broker_ok :: "BrokerConfig \<Rightarrow> bool" where
  "broker_ok c \<longleftrightarrow>
     0 < bc_BrokerID c \<and> bc_ClusterNodes c \<noteq> [] \<and> bc_HTTPPort c \<in> {1..65535} \<and> bc_GRPCPort c \<in> {1..65535} \<and> bc_DataDir c \<noteq> '''' \<and>
     0 < bc_LogSegmentSize c \<and> 0 < bc_MinInSyncReplicas c \<and> bc_MinInSyncReplicas c \<le> bc_ReplicationFactor c \<and>
     bc_ProducerAcks c \<in> {''0'', ''1'', ''all''} \<and> 0 < bc_ConsumerHeartbeatInterval c \<and>
     bc_ConsumerHeartbeatInterval c < bc_ConsumerSessionTimeoutMs c"

lemma broker_Validate_iff: "broker_Validate c = None \<longleftrightarrow> broker_ok c"
  unfolding broker_Validate_def broker_ok_def by (simp split: if_split)

section \<open>Which node a port means\<close>

definition node_address :: "string \<times> int \<Rightarrow> string" where
  "node_address hp = fst hp @ grpc_suffix (snd hp)"

lemma colon_inject:
  assumes "h @ CHR '':'' # x = a @ CHR '':'' # y" "CHR '':'' \<notin> set h" "CHR '':'' \<notin> set x"
  shows "x = y"
  using assms by (auto simp: append_eq_append_conv2 Cons_eq_append_conv append_eq_Cons_conv)

lemma node_mentions_port:
  assumes "CHR '':'' \<notin> set h" "0 \<le> q"
  shows "strings_Contains (node_address (h, q)) (grpc_suffix p) \<longleftrightarrow> prefix (itoa p) (itoa q)"
proof
  assume "strings_Contains (node_address (h, q)) (grpc_suffix p)"
  then obtain a b where "h @ CHR '':'' # itoa q = a @ CHR '':'' # (itoa p @ b)"
    by (auto simp: Contains_iff node_address_def grpc_suffix_def)
  moreover have "CHR '':'' \<notin> set (itoa q)" using itoa_digits [OF assms(2)] by (auto simp: list_all_iff is_digit_def)
  ultimately have "itoa q = itoa p @ b" using colon_inject assms(1) by blast
  then show "prefix (itoa p) (itoa q)" by (simp add: prefix_def)
next
  assume "prefix (itoa p) (itoa q)"
  then obtain b where "itoa q = itoa p @ b" by (auto simp: prefix_def)
  then have "node_address (h, q) = h @ grpc_suffix p @ b" by (simp add: node_address_def grpc_suffix_def)
  then show "strings_Contains (node_address (h, q)) (grpc_suffix p)" by (auto simp: Contains_iff)
qed

lemma our_index_first:
  assumes "k < length nodes" "strings_Contains (nodes ! k) p" "\<And>j. j < k \<Longrightarrow> \<not> strings_Contains (nodes ! j) p"
  shows "our_index p nodes i = i + int k"
  using assms
proof (induction nodes arbitrary: i k)
  case (Cons node nodes)
  show ?case
  proof (cases k)
    case (Suc k')
    have "\<not> strings_Contains node p" using Cons.prems(3) [of 0] Suc by simp
    moreover have "our_index p nodes (i + 1) = (i + 1) + int k'"
      by (rule Cons.IH) (use Cons.prems Suc in force)+
    ultimately show ?thesis by (simp add: Suc)
  qed (use Cons.prems in simp)
qed simp

text \<open>Brokers that their ports tell apart: hosts without colons, different ports with equally many digits.\<close>

definition ports_apart :: "(string \<times> int) list \<Rightarrow> bool" where
  "ports_apart hs \<longleftrightarrow> list_all (\<lambda>hp. CHR '':'' \<notin> set (fst hp) \<and> 0 \<le> snd hp \<and> length (itoa (snd hp)) = length (itoa (snd (hd hs)))) hs \<and>
     distinct (map snd hs)"

lemma ports_apart_index:
  assumes "ports_apart hs" "k < length hs"
  shows "our_index (grpc_suffix (snd (hs ! k))) (map node_address hs) 0 = int k"
proof -
  have hs: "CHR '':'' \<notin> set (fst (hs ! j))" "0 \<le> snd (hs ! j)" "length (itoa (snd (hs ! j))) = length (itoa (snd (hd hs)))" if "j < length hs" for j
    using assms(1) that by (auto simp: ports_apart_def list_all_length)
  have "\<not> strings_Contains (map node_address hs ! j) (grpc_suffix (snd (hs ! k)))" if "j < k" for j
  proof
    assume "strings_Contains (map node_address hs ! j) (grpc_suffix (snd (hs ! k)))"
    then have "prefix (itoa (snd (hs ! k))) (itoa (snd (hs ! j)))"
      using node_mentions_port [OF hs(1,2) [of j]] that assms(2) by (cases "hs ! j") simp
    then have "itoa (snd (hs ! k)) = itoa (snd (hs ! j))"
      using hs(3) [of j] hs(3) [OF assms(2)] that assms(2) by (auto simp: prefix_def)
    then have "snd (hs ! k) = snd (hs ! j)" using itoa_inject hs(2) [of j] hs(2) [OF assms(2)] that assms(2) by simp
    then show False using assms that by (auto simp: ports_apart_def distinct_conv_nth)
  qed
  moreover have "strings_Contains (map node_address hs ! k) (grpc_suffix (snd (hs ! k)))"
    using node_mentions_port [OF hs(1,2) [OF assms(2)]] assms(2) by (cases "hs ! k") simp
  ultimately show ?thesis using our_index_first [of k "map node_address hs"] assms(2) by simp
qed

section \<open>Properties\<close>

text \<open>
  A configuration is loaded from the environment exactly when it is well formed. In particular the brokers that must have a message
  are at most its replicas, and several heartbeats fit into a session.
\<close>
theorem loaded_broker_config:
  "(case LoadConfig env of
      Inr c \<Rightarrow> c = broker_env_config env \<and> broker_ok c
    | Inl err \<Rightarrow> prefix ''invalid configuration: '' err \<and> \<not> broker_ok (broker_env_config env))"
  using broker_Validate_iff [of "broker_env_config env"]
  by (cases "broker_Validate (broker_env_config env)") (simp_all add: LoadConfig_def Let_def)

text \<open>
  C35: A partition has exactly one leader among the brokers of a cluster, when the ports tell the brokers apart and the hash of
  the topic and the partition is not negative.
\<close>
theorem partition_has_one_leader:
  assumes "hs \<noteq> []" "ports_apart hs" "bc_ClusterNodes c = map node_address hs" "0 \<le> partition_hash topic part"
  shows "\<exists>!k. k < length hs \<and> IsLeader (c\<lparr>bc_GRPCPort := snd (hs ! k)\<rparr>) topic part = Some True"
proof -
  let ?l = "partition_hash topic part smod int (length hs)"
  have l: "0 \<le> ?l" "?l < int (length hs)" using smod_int_compares(1,2) [OF assms(4), of "int (length hs)"] assms(1) by simp_all
  have leads: "IsLeader (c\<lparr>bc_GRPCPort := snd (hs ! k)\<rparr>) topic part = Some (int k = ?l)" if "k < length hs" for k
    using assms(1,3) ports_apart_index [OF assms(2) that] by (simp add: IsLeader_def Let_def)
  show ?thesis
  proof (rule ex1I [of _ "nat ?l"])
    show "nat ?l < length hs \<and> IsLeader (c\<lparr>bc_GRPCPort := snd (hs ! nat ?l)\<rparr>) topic part = Some True"
      using l leads [of "nat ?l"] by (simp add: nat_less_iff)
    show "k = nat ?l" if "k < length hs \<and> IsLeader (c\<lparr>bc_GRPCPort := snd (hs ! k)\<rparr>) topic part = Some True" for k
      using that leads [of k] by simp
  qed
qed

text \<open>A cluster, and a configuration with it.\<close>

definition three_brokers :: "(string \<times> int) list" where
  "three_brokers = [(''a'', 9090), (''b'', 9091), (''c'', 9092)]"

definition three_config :: BrokerConfig where
  "three_config = (broker_env_config (\<lambda>_. ''''))\<lparr>bc_ClusterNodes := map node_address three_brokers\<rparr>"

lemma itoa_ports: "itoa 9090 = ''9090''" "itoa 9091 = ''9091''" "itoa 9092 = ''9092''"
  by (simp_all add: itoa_def decimal_nat.simps decimal_digit_def char_of_def bit_Suc_0_iff)

lemma three_config_simps:
  "bc_ClusterNodes three_config = [''a:9090'', ''b:9091'', ''c:9092'']" "bc_GRPCPort three_config = 9090" "grpc_suffix 9090 = '':9090''"
  by (simp_all add: three_config_def three_brokers_def node_address_def grpc_suffix_def itoa_ports broker_env_config_def getEnvInt_def)

theorem partition_has_one_leader_witness:
  "\<exists>!k. k < length three_brokers \<and> IsLeader (three_config\<lparr>bc_GRPCPort := snd (three_brokers ! k)\<rparr>) ''orders'' 0 = Some True"
proof -
  have "three_brokers \<noteq> []" "bc_ClusterNodes three_config = map node_address three_brokers"
    by (simp_all add: three_brokers_def three_config_def)
  moreover have "0 \<le> partition_hash ''orders'' 0" by code_simp
  moreover have "ports_apart three_brokers" by (simp add: ports_apart_def three_brokers_def itoa_ports)
  ultimately show ?thesis using partition_has_one_leader by blast
qed

text \<open>
  A partition whose hash is negative, through overflow, has no leader in its cluster unless the number of nodes divides the hash: the
  remainder is negative, and a broker that is in the list never compares equal to it.
\<close>
theorem negative_hash_no_leader:
  assumes "partition_hash topic part < 0" "partition_hash topic part smod int (length (bc_ClusterNodes c)) \<noteq> 0"
    and "list_ex (\<lambda>node. strings_Contains node (grpc_suffix (bc_GRPCPort c))) (bc_ClusterNodes c)"
  shows "IsLeader c topic part = Some False"
proof -
  have index: "i \<le> our_index p nodes i" if "list_ex (\<lambda>node. strings_Contains node p) nodes" for p nodes i
    using that by (induction nodes arbitrary: i) (auto, smt (verit))
  have n: "bc_ClusterNodes c \<noteq> []" using assms(3) by auto
  have "partition_hash topic part smod int (length (bc_ClusterNodes c)) \<le> 0"
    using smod_int_compares(4) [of "partition_hash topic part" "int (length (bc_ClusterNodes c))"] assms(1) n by simp
  then show ?thesis using index [OF assms(3), of 0] assms(2) n by (auto simp: IsLeader_def Let_def)
qed

theorem negative_hash_no_leader_witness: "IsLeader three_config ''inventory-updates'' 0 = Some False"
proof -
  have "partition_hash ''inventory-updates'' 0 < 0" by code_simp
  moreover have "partition_hash ''inventory-updates'' 0 smod 3 \<noteq> 0" by code_simp
  then have "partition_hash ''inventory-updates'' 0 smod int (length (bc_ClusterNodes three_config)) \<noteq> 0" by (simp add: three_config_simps)
  moreover have "strings_Contains ''a:9090'' '':9090''" by code_simp
  then have "list_ex (\<lambda>node. strings_Contains node (grpc_suffix (bc_GRPCPort three_config))) (bc_ClusterNodes three_config)"
    by (simp add: three_config_simps)
  ultimately show ?thesis by (rule negative_hash_no_leader)
qed

text \<open>
  When the brokers have the same port on different hosts, each takes itself for the first node: all of them lead the partitions of the
  first node, nobody leads the others, and nobody knows another node.
\<close>
theorem same_port_same_leader:
  assumes "bc_ClusterNodes c \<noteq> []" "list_all (\<lambda>node. strings_Contains node (grpc_suffix (bc_GRPCPort c))) (bc_ClusterNodes c)"
  shows "IsLeader c topic part = Some (partition_hash topic part smod int (length (bc_ClusterNodes c)) = 0) \<and> GetOtherNodes c = []"
proof -
  have "our_index (grpc_suffix (bc_GRPCPort c)) (bc_ClusterNodes c) 0 = 0"
    using assms by (cases "bc_ClusterNodes c") simp_all
  then show ?thesis using assms by (auto simp: IsLeader_def Let_def GetOtherNodes_def filter_empty_conv list_all_iff)
qed

theorem same_port_same_leader_witness:
  "let c = three_config\<lparr>bc_ClusterNodes := [''broker1:9090'', ''broker2:9090'']\<rparr> in
   IsLeader c ''orders'' 0 = Some False \<and> GetOtherNodes c = []"
proof -
  let ?c = "three_config\<lparr>bc_ClusterNodes := [''broker1:9090'', ''broker2:9090'']\<rparr>"
  have "strings_Contains ''broker1:9090'' '':9090''" "strings_Contains ''broker2:9090'' '':9090''" by code_simp+
  then have "list_all (\<lambda>node. strings_Contains node (grpc_suffix (bc_GRPCPort ?c))) (bc_ClusterNodes ?c)"
    by (simp add: three_config_simps)
  moreover have "partition_hash ''orders'' 0 smod 2 \<noteq> 0" by code_simp
  ultimately show ?thesis using same_port_same_leader [of ?c "''orders''" 0] by (simp add: Let_def)
qed

text \<open>The retention overflows for more hours than fit into a duration.\<close>

lemma retention_exact: "0 \<le> bc_LogRetentionHours c \<Longrightarrow> bc_LogRetentionHours c \<le> 2562047 \<Longrightarrow> GetRetentionDuration c = bc_LogRetentionHours c * hour"
  unfolding GetRetentionDuration_def wrap64_def by simp

lemma retention_overflow: "GetRetentionDuration (three_config\<lparr>bc_LogRetentionHours := 2562048\<rparr>) < 0"
  by (simp add: GetRetentionDuration_def wrap64_def)

end
