(* ===== verification/ETL_Pipeline.thy ===== *)
theory ETL_Pipeline
  imports Go_Prelude Step_Systems "HOL-Library.Multiset"
begin

text \<open>
  The analytics pipeline, \<open>services/analytics-etl/internal/pipeline/etl_pipeline.go\<close>: the processing of events, the batches with their
  ten parallel workers, the aggregations and the state of the pipeline. The processors and the service it calls are not in the
  repository: \<open>EtlOps\<close> has their functions on a world of an arbitrary type, \<open>etl_laws\<close> what is relied on. A batch is a step relation:
  the batch goroutine sends the events into a channel and closes it, and each worker takes an event from the channel, makes the calls of
  \<open>processRealTimeEvent\<close> one by one and sends the error into a second channel, all of them interleaved. Both channels have their capacities, and a send into a full channel waits.
  Logging and the histograms of durations are left out.

  The lemmas show that a worker alone does what \<open>processRealTimeEvent\<close> does, that every batch ends with exactly one outcome for every
  event and loads exactly what the outcomes say, and that two copies of one event in a batch can both be loaded.
\<close>

section \<open>Services\<close>

record ('c, 'v, 'p, 't, 'w) EtlOps =
  eo_ParseCDC :: "string \<Rightarrow> 'c option"
  eo_ParseEvent :: "string \<Rightarrow> 'v option"
  eo_ProcessCDCEvent :: "'c \<Rightarrow> goerror + 'p"
  eo_ProcessEvent :: "'v \<Rightarrow> goerror + 'p"
  eo_ID :: "'p \<Rightarrow> string"
  eo_Timestamp :: "'p \<Rightarrow> gotime"
  eo_TransformCDCEvent :: "'p \<Rightarrow> goerror + 't"
  eo_TransformEvent :: "'p \<Rightarrow> goerror + 't"
  eo_IsDuplicate :: "string \<Rightarrow> gotime \<Rightarrow> 'w \<Rightarrow> (goerror + bool) \<times> 'w"
  eo_MarkProcessed :: "string \<Rightarrow> gotime \<Rightarrow> 'w \<Rightarrow> goerror option \<times> 'w"
  eo_LoadEvent :: "'t \<Rightarrow> 'w \<Rightarrow> goerror option \<times> 'w"
  eo_GetPendingEvents :: "int \<Rightarrow> 'w \<Rightarrow> (goerror + 'v list) \<times> 'w"
  eo_ProcessAggregation :: "string \<Rightarrow> 'w \<Rightarrow> goerror option \<times> 'w"

text \<open>
  The pipeline: the world, the increments of the counters, and the channels that stop workers, each with whether it is closed.
\<close>

record 'w ETLPipeline =
  ep_world :: 'w
  ep_metrics :: "(string \<times> string list) list"
  ep_isRunning :: bool
  ep_stopChannels :: "(string, nat) gomap"
  ep_closed :: "bool list"

definition NewETLPipeline :: "'w \<Rightarrow> 'w ETLPipeline" where
  "NewETLPipeline w = \<lparr>ep_world = w, ep_metrics = [], ep_isRunning = False, ep_stopChannels = [], ep_closed = []\<rparr>"

definition etl_inc :: "string \<Rightarrow> string list \<Rightarrow> 'w ETLPipeline \<Rightarrow> 'w ETLPipeline" where
  "etl_inc name labels s = s\<lparr>ep_metrics := ep_metrics s @ [(name, labels)]\<rparr>"

section \<open>Single events\<close>

text \<open>The steps after the event is processed; they are the same for both kinds of events but for the transformation.\<close>

definition load_and_mark ::
  "('c, 'v, 'p, 't, 'w) EtlOps \<Rightarrow> ('p \<Rightarrow> goerror + 't) \<Rightarrow> string \<Rightarrow> 'p \<Rightarrow> 'w ETLPipeline \<Rightarrow> goerror option \<times> 'w ETLPipeline" where
  "load_and_mark E transform topic p s =
     (case eo_IsDuplicate E (eo_ID E p) (eo_Timestamp E p) (ep_world s) of
        (Inl err, w1) \<Rightarrow> (Some (''deduplication check failed: '' @ err), s\<lparr>ep_world := w1\<rparr>)
      | (Inr isDuplicate, w1) \<Rightarrow>
          if isDuplicate then (None, etl_inc ''duplicate_events_skipped'' [topic] (s\<lparr>ep_world := w1\<rparr>))
          else case transform p of
            Inl err \<Rightarrow> (Some (''transformation failed: '' @ err), s\<lparr>ep_world := w1\<rparr>)
          | Inr t \<Rightarrow>
              (case eo_LoadEvent E t w1 of
                 (Some err, w2) \<Rightarrow> (Some (''loading to ClickHouse failed: '' @ err), s\<lparr>ep_world := w2\<rparr>)
               | (None, w2) \<Rightarrow> (None, s\<lparr>ep_world := snd (eo_MarkProcessed E (eo_ID E p) (eo_Timestamp E p) w2)\<rparr>)))"

definition processCDCEvent :: "('c, 'v, 'p, 't, 'w) EtlOps \<Rightarrow> 'c \<Rightarrow> string \<Rightarrow> 'w ETLPipeline \<Rightarrow> goerror option \<times> 'w ETLPipeline" where
  "processCDCEvent E event topic s =
     (case eo_ProcessCDCEvent E event of
        Inl err \<Rightarrow> (Some (''event processing failed: '' @ err), s)
      | Inr p \<Rightarrow> load_and_mark E (eo_TransformCDCEvent E) topic p s)"

definition processRealTimeEvent :: "('c, 'v, 'p, 't, 'w) EtlOps \<Rightarrow> 'v \<Rightarrow> string \<Rightarrow> 'w ETLPipeline \<Rightarrow> goerror option \<times> 'w ETLPipeline" where
  "processRealTimeEvent E event topic s =
     (case eo_ProcessEvent E event of
        Inl err \<Rightarrow> (Some (''event processing failed: '' @ err), s)
      | Inr p \<Rightarrow> load_and_mark E (eo_TransformEvent E) topic p s)"

section \<open>Workers and their channels\<close>

definition register_worker :: "string \<Rightarrow> 'w ETLPipeline \<Rightarrow> nat \<times> 'w ETLPipeline" where
  "register_worker name s =
     (length (ep_closed s), s\<lparr>ep_stopChannels := go_set name (length (ep_closed s)) (ep_stopChannels s), ep_closed := ep_closed s @ [False]\<rparr>)"

definition cdc_topics :: "string list" where
  "cdc_topics = [''postgres.saga.saga_instances'', ''postgres.saga.saga_steps'', ''postgres.saga.outbox_events'', ''postgres.inventory.items'',
     ''postgres.inventory.reservations'', ''postgres.payment.payments'', ''postgres.notification.notifications'']"

definition realtime_topics :: "string list" where
  "realtime_topics = [''saga-events'', ''inventory-events'', ''payment-events'', ''notification-events'']"

text \<open>The handlers of messages of the two consumers; \<open>ch\<close> is the channel made when the consumer started.\<close>

definition cdc_handler ::
  "('c, 'v, 'p, 't, 'w) EtlOps \<Rightarrow> nat \<Rightarrow> string \<Rightarrow> string \<Rightarrow> 'w ETLPipeline \<Rightarrow> goerror option \<times> 'w ETLPipeline" where
  "cdc_handler E ch message topic s =
     (if ep_closed s ! ch then (Some ''consumer stopped'', s)
      else case eo_ParseCDC E message of
        None \<Rightarrow> (None, etl_inc ''cdc_events_processed'' [topic, ''parse_error''] s)
      | Some event \<Rightarrow>
          (case processCDCEvent E event topic s of
             (Some err, s') \<Rightarrow> (None, etl_inc ''cdc_events_processed'' [topic, ''process_error''] s')
           | (None, s') \<Rightarrow> (None, etl_inc ''cdc_events_processed'' [topic, ''success''] s')))"

definition realtime_handler ::
  "('c, 'v, 'p, 't, 'w) EtlOps \<Rightarrow> nat \<Rightarrow> string \<Rightarrow> string \<Rightarrow> 'w ETLPipeline \<Rightarrow> goerror option \<times> 'w ETLPipeline" where
  "realtime_handler E ch message topic s =
     (if ep_closed s ! ch then (Some ''processor stopped'', s)
      else case eo_ParseEvent E message of
        None \<Rightarrow> (None, etl_inc ''realtime_events_processed'' [topic, ''parse_error''] s)
      | Some event \<Rightarrow>
          (case processRealTimeEvent E event topic s of
             (Some err, s') \<Rightarrow> (None, etl_inc ''realtime_events_processed'' [topic, ''process_error''] s')
           | (None, s') \<Rightarrow> (None, etl_inc ''realtime_events_processed'' [topic, ''success''] s')))"

definition StartCDCConsumer :: "'w ETLPipeline \<Rightarrow> (nat \<times> string list) \<times> 'w ETLPipeline" where
  "StartCDCConsumer s = (let (ch, s') = register_worker ''cdc_consumer'' s in ((ch, cdc_topics), s'))"

definition StartRealTimeProcessor :: "'w ETLPipeline \<Rightarrow> (nat \<times> string list) \<times> 'w ETLPipeline" where
  "StartRealTimeProcessor s = (let (ch, s') = register_worker ''realtime_processor'' s in ((ch, realtime_topics), s'))"

definition StartBatchProcessor :: "'w ETLPipeline \<Rightarrow> nat \<times> 'w ETLPipeline" where
  "StartBatchProcessor s = register_worker ''batch_processor'' s"

definition StartAggregationProcessor :: "'w ETLPipeline \<Rightarrow> nat \<times> 'w ETLPipeline" where
  "StartAggregationProcessor s = register_worker ''aggregation_processor'' s"

definition aggregation_types :: "string list" where
  "aggregation_types = [''saga_metrics'', ''inventory_metrics'', ''payment_metrics'', ''notification_metrics'']"

definition processAggregations :: "('c, 'v, 'p, 't, 'w) EtlOps \<Rightarrow> 'w ETLPipeline \<Rightarrow> goerror option \<times> 'w ETLPipeline" where
  "processAggregations E s =
     (None, fold (\<lambda>a s. case eo_ProcessAggregation E a (ep_world s) of
          (Some err, w) \<Rightarrow> etl_inc ''aggregation_errors'' [a] (s\<lparr>ep_world := w\<rparr>)
        | (None, w) \<Rightarrow> etl_inc ''aggregations_processed'' [a] (s\<lparr>ep_world := w\<rparr>)) aggregation_types s)"

definition etl_Start :: "'w ETLPipeline \<Rightarrow> goerror option \<times> 'w ETLPipeline" where
  "etl_Start s = (if ep_isRunning s then (Some ''pipeline is already running'', s) else (None, s\<lparr>ep_isRunning := True\<rparr>))"

definition etl_Stop :: "'w ETLPipeline \<Rightarrow> goerror option \<times> 'w ETLPipeline" where
  "etl_Stop s =
     (if \<not> ep_isRunning s then (Some ''pipeline is not running'', s)
      else (None, s\<lparr>ep_closed := fold (\<lambda>kv c. c[snd kv := True]) (ep_stopChannels s) (ep_closed s), ep_stopChannels := [], ep_isRunning := False\<rparr>))"

definition etl_IsRunning :: "'w ETLPipeline \<Rightarrow> bool" where
  "etl_IsRunning s = ep_isRunning s"

definition etl_GetStatus :: "gotime \<Rightarrow> 'w ETLPipeline \<Rightarrow> bool \<times> (string, bool) gomap \<times> gotime" where
  "etl_GetStatus now s = (ep_isRunning s, map (\<lambda>kv. (fst kv, True)) (ep_stopChannels s), now)"

section \<open>Batches\<close>

text \<open>What became of an event: skipped, failed, or loaded, marked or not.\<close>

datatype 't outcome = Skipped | Failed goerror | Loaded 't bool

datatype ('v, 'p, 't) worker =
  WIdle | WProcessing 'v | WChecking 'v 'p | WTransforming 'v 'p | WLoading 'v 'p 't | WMarking 'v 'p 't | WReporting 'v goerror | WDone

text \<open>The state of a batch: the events that are not sent yet, the two channels, with the capacity that both have, the workers and the world.
  \<open>bs_done\<close> records the outcomes; the program does not keep it.\<close>

record ('v, 'p, 't, 'w) BatchState =
  bs_unsent :: "'v list"
  bs_capacity :: nat
  bs_queue :: "'v list"
  bs_closed :: bool
  bs_errors :: "goerror list"
  bs_workers :: "('v, 'p, 't) worker list"
  bs_world :: 'w
  bs_done :: "('v \<times> 't outcome) list"

definition finish :: "'v \<Rightarrow> 't outcome \<Rightarrow> ('v, 'p, 't, 'w) BatchState \<Rightarrow> ('v, 'p, 't) worker \<times> ('v, 'p, 't, 'w) BatchState" where
  "finish v r s = (WIdle, s\<lparr>bs_done := bs_done s @ [(v, r)]\<rparr>)"

text \<open>One step of a worker: it receives an event or sees that the channel is closed and empty, makes one call, or sends an error. \<open>None\<close>
  while it waits, for an event or for room in the channel of errors, and after its end.\<close>

fun advance_worker ::
  "('c, 'v, 'p, 't, 'w) EtlOps \<Rightarrow> ('v, 'p, 't) worker \<Rightarrow> ('v, 'p, 't, 'w) BatchState \<Rightarrow> (('v, 'p, 't) worker \<times> ('v, 'p, 't, 'w) BatchState) option" where
  "advance_worker E WIdle s =
     (case bs_queue s of
        [] \<Rightarrow> if bs_closed s then Some (WDone, s) else None
      | v # q \<Rightarrow> Some (WProcessing v, s\<lparr>bs_queue := q\<rparr>))"
| "advance_worker E (WProcessing v) s =
     Some (case eo_ProcessEvent E v of
        Inl err \<Rightarrow> (WReporting v (''event processing failed: '' @ err), s)
      | Inr p \<Rightarrow> (WChecking v p, s))"
| "advance_worker E (WChecking v p) s =
     Some (case eo_IsDuplicate E (eo_ID E p) (eo_Timestamp E p) (bs_world s) of
        (Inl err, w) \<Rightarrow> (WReporting v (''deduplication check failed: '' @ err), s\<lparr>bs_world := w\<rparr>)
      | (Inr True, w) \<Rightarrow> finish v Skipped (s\<lparr>bs_world := w\<rparr>)
      | (Inr False, w) \<Rightarrow> (WTransforming v p, s\<lparr>bs_world := w\<rparr>))"
| "advance_worker E (WTransforming v p) s =
     Some (case eo_TransformEvent E p of
        Inl err \<Rightarrow> (WReporting v (''transformation failed: '' @ err), s)
      | Inr t \<Rightarrow> (WLoading v p t, s))"
| "advance_worker E (WLoading v p t) s =
     Some (case eo_LoadEvent E t (bs_world s) of
        (Some err, w) \<Rightarrow> (WReporting v (''loading to ClickHouse failed: '' @ err), s\<lparr>bs_world := w\<rparr>)
      | (None, w) \<Rightarrow> (WMarking v p t, s\<lparr>bs_world := w\<rparr>))"
| "advance_worker E (WMarking v p t) s =
     Some (case eo_MarkProcessed E (eo_ID E p) (eo_Timestamp E p) (bs_world s) of
        (err, w) \<Rightarrow> finish v (Loaded t (err = None)) (s\<lparr>bs_world := w\<rparr>))"
| "advance_worker E (WReporting v err) s =
     (if length (bs_errors s) < bs_capacity s
      then Some (finish v (Failed err) (s\<lparr>bs_errors := bs_errors s @ [err]\<rparr>)) else None)"
| "advance_worker E WDone s = None"

text \<open>One step of the batch goroutine: it sends the next event, if the channel has room, or closes the channel after the last;
  then it waits for the workers.\<close>

definition advance_sender :: "('v, 'p, 't, 'w) BatchState \<Rightarrow> ('v, 'p, 't, 'w) BatchState option" where
  "advance_sender s =
     (case bs_unsent s of
        v # vs \<Rightarrow> if length (bs_queue s) < bs_capacity s
                  then Some (s\<lparr>bs_unsent := vs, bs_queue := bs_queue s @ [v]\<rparr>) else None
      | [] \<Rightarrow> if bs_closed s then None else Some (s\<lparr>bs_closed := True\<rparr>))"

definition maxWorkers :: nat where
  "maxWorkers = 10"

definition batch_start :: "'v list \<Rightarrow> 'w \<Rightarrow> ('v, 'p, 't, 'w) BatchState" where
  "batch_start events w =
     \<lparr>bs_unsent = events, bs_capacity = length events, bs_queue = [], bs_closed = False, bs_errors = [],
      bs_workers = replicate maxWorkers WIdle, bs_world = w, bs_done = []\<rparr>"

text \<open>The wait of the batch goroutine is over: it has sent everything, and all workers have ended.\<close>

definition batch_finished :: "('v, 'p, 't, 'w) BatchState \<Rightarrow> bool" where
  "batch_finished s \<longleftrightarrow> bs_unsent s = [] \<and> bs_queue s = [] \<and> bs_closed s \<and> list_all (\<lambda>wk. wk = WDone) (bs_workers s)"

inductive batch_step ::
  "('c, 'v, 'p, 't, 'w) EtlOps \<Rightarrow> ('v, 'p, 't, 'w) BatchState \<Rightarrow> ('v, 'p, 't, 'w) BatchState \<Rightarrow> bool" for E where
  sender: "advance_sender s = Some s' \<Longrightarrow> batch_step E s s'"
| worker: "i < length (bs_workers s) \<Longrightarrow> advance_worker E (bs_workers s ! i) s = Some (wk, s') \<Longrightarrow>
   batch_step E s (s'\<lparr>bs_workers := (bs_workers s')[i := wk]\<rparr>)"

text \<open>After the wait the errors are read from their channel; they are only logged.\<close>

definition done_errors :: "('v \<times> 't outcome) list \<Rightarrow> goerror list" where
  "done_errors d = List.map_filter (\<lambda>(v, r). case r of Failed e \<Rightarrow> Some e | _ \<Rightarrow> None) d"

definition skipped_count :: "('v, 'p, 't, 'w) BatchState \<Rightarrow> nat" where
  "skipped_count s = length (filter (\<lambda>(v, r). r = Skipped) (bs_done s))"

inductive etl_processBatch :: "('c, 'v, 'p, 't, 'w) EtlOps \<Rightarrow> 'w ETLPipeline \<Rightarrow> goerror option \<Rightarrow> 'w ETLPipeline \<Rightarrow> bool" for E where
  pending_failed: "eo_GetPendingEvents E 1000 (ep_world s) = (Inl err, w) \<Longrightarrow>
    etl_processBatch E s (Some (''failed to get pending events: '' @ err)) (s\<lparr>ep_world := w\<rparr>)"
| nothing: "eo_GetPendingEvents E 1000 (ep_world s) = (Inr [], w) \<Longrightarrow> etl_processBatch E s None (s\<lparr>ep_world := w\<rparr>)"
| batch: "eo_GetPendingEvents E 1000 (ep_world s) = (Inr events, w) \<Longrightarrow> events \<noteq> [] \<Longrightarrow>
    (batch_step E)\<^sup>*\<^sup>* (batch_start events w) b \<Longrightarrow> batch_finished b \<Longrightarrow>
    etl_processBatch E s None (s\<lparr>ep_world := bs_world b,
      ep_metrics := ep_metrics s @ replicate (skipped_count b) (''duplicate_events_skipped'', [''batch'']) @
        replicate (length events) (''batch_events_processed'', [])\<rparr>)"

section \<open>What a worker does in one call\<close>

lemma sum_list_update:
  fixes f :: "'a \<Rightarrow> 'b :: comm_monoid_add"
  shows "i < length xs \<Longrightarrow> sum_list (map f (xs[i := y])) + f (xs ! i) = sum_list (map f xs) + f y"
proof (induction xs arbitrary: i)
  case (Cons x xs)
  show ?case
  proof (cases i)
    case (Suc j)
    then show ?thesis using Cons.IH [of j] Cons.prems by (simp add: add.assoc)
  qed (simp add: ac_simps)
qed simp

fun worker_event :: "('v, 'p, 't) worker \<Rightarrow> 'v multiset" where
  "worker_event WIdle = {#}"
| "worker_event (WProcessing v) = {#v#}"
| "worker_event (WChecking v p) = {#v#}"
| "worker_event (WTransforming v p) = {#v#}"
| "worker_event (WLoading v p t) = {#v#}"
| "worker_event (WMarking v p t) = {#v#}"
| "worker_event (WReporting v err) = {#v#}"
| "worker_event WDone = {#}"

fun worker_load :: "('v, 'p, 't) worker \<Rightarrow> 't multiset" where
  "worker_load (WMarking v p t) = {#t#}"
| "worker_load _ = {#}"

text \<open>The steps that a worker can still make without a further event.\<close>

fun worker_rank :: "('v, 'p, 't) worker \<Rightarrow> nat" where
  "worker_rank WDone = 0"
| "worker_rank WIdle = 1"
| "worker_rank (WReporting v err) = 2"
| "worker_rank (WMarking v p t) = 2"
| "worker_rank (WLoading v p t) = 3"
| "worker_rank (WTransforming v p) = 4"
| "worker_rank (WChecking v p) = 5"
| "worker_rank (WProcessing v) = 6"

fun outcome_load :: "'t outcome \<Rightarrow> 't multiset" where
  "outcome_load (Loaded t b) = {#t#}"
| "outcome_load _ = {#}"

text \<open>What the outcomes say is loaded.\<close>

definition done_loads :: "('v \<times> 't outcome) list \<Rightarrow> 't multiset" where
  "done_loads d = sum_list (map (\<lambda>vr. outcome_load (snd vr)) d)"

text \<open>What is relied on: only \<open>LoadEvent\<close> loads, and exactly when it reports no error.\<close>

definition load_laws :: "('c, 'v, 'p, 't, 'w) EtlOps \<Rightarrow> ('w \<Rightarrow> 't multiset) \<Rightarrow> bool" where
  "load_laws E loaded \<longleftrightarrow>
     (\<forall>i t w. loaded (snd (eo_IsDuplicate E i t w)) = loaded w) \<and> (\<forall>i t w. loaded (snd (eo_MarkProcessed E i t w)) = loaded w) \<and>
     (\<forall>t w. loaded (snd (eo_LoadEvent E t w)) = (if fst (eo_LoadEvent E t w) = None then add_mset t (loaded w) else loaded w))"

lemma advance_worker_events:
  assumes "advance_worker E wk s = Some (wk', s')"
  shows "mset (bs_queue s') + worker_event wk' + mset (map fst (bs_done s')) = mset (bs_queue s) + worker_event wk + mset (map fst (bs_done s))"
    "6 * length (bs_queue s') + worker_rank wk' < 6 * length (bs_queue s) + worker_rank wk"
    "bs_workers s' = bs_workers s" "bs_unsent s' = bs_unsent s" "bs_capacity s' = bs_capacity s" "bs_closed s' = bs_closed s"
    "bs_errors s = done_errors (bs_done s) \<Longrightarrow> bs_errors s' = done_errors (bs_done s')"
    "bs_queue s = [] \<Longrightarrow> bs_queue s' = []" "wk' = WDone \<Longrightarrow> bs_closed s \<and> bs_queue s' = []"
  using assms
  by (cases wk; auto simp: finish_def done_errors_def List.map_filter_def split: list.splits sum.splits prod.splits option.splits if_splits bool.splits)+

lemma advance_sender_events:
  assumes "advance_sender s = Some s'"
  shows "mset (bs_unsent s') + mset (bs_queue s') = mset (bs_unsent s) + mset (bs_queue s)"
    "7 * length (bs_unsent s') + 6 * length (bs_queue s') + of_bool (\<not> bs_closed s') <
     7 * length (bs_unsent s) + 6 * length (bs_queue s) + of_bool (\<not> bs_closed s)"
    "bs_workers s' = bs_workers s" "bs_capacity s' = bs_capacity s" "bs_errors s' = bs_errors s" "bs_done s' = bs_done s"
    "bs_world s' = bs_world s" "bs_closed s' \<Longrightarrow> bs_closed s \<or> bs_unsent s' = []" "bs_closed s \<Longrightarrow> bs_unsent s \<noteq> []"
  using assms by (auto simp: advance_sender_def split: list.splits if_splits)

lemma advance_worker_loads:
  assumes "load_laws E loaded" "advance_worker E wk s = Some (wk', s')"
  shows "loaded (bs_world s') + worker_load wk + done_loads (bs_done s) = loaded (bs_world s) + worker_load wk' + done_loads (bs_done s')"
proof -
  have same: "loaded (snd (eo_IsDuplicate E i t w)) = loaded w" "loaded (snd (eo_MarkProcessed E i t w)) = loaded w" for i t w
    using assms(1) by (simp_all add: load_laws_def)
  have load: "loaded (snd (eo_LoadEvent E t w)) = (if fst (eo_LoadEvent E t w) = None then add_mset t (loaded w) else loaded w)" for t w
    using assms(1) by (simp add: load_laws_def)
  show ?thesis
  proof (cases wk)
    case WIdle
    then show ?thesis using assms(2) by (auto split: list.splits if_splits)
  next
    case (WProcessing v)
    then show ?thesis using assms(2) by (auto split: sum.splits)
  next
    case (WChecking v p)
    then show ?thesis
      using assms(2) same(1) [of "eo_ID E p" "eo_Timestamp E p" "bs_world s"]
      by (auto simp: finish_def done_loads_def split: sum.splits prod.splits bool.splits)
  next
    case (WTransforming v p)
    then show ?thesis using assms(2) by (auto split: sum.splits)
  next
    case (WLoading v p t)
    then show ?thesis
      using assms(2) load [of t "bs_world s"] by (auto split: prod.splits option.splits)
  next
    case (WMarking v p t)
    then show ?thesis
      using assms(2) same(2) [of "eo_ID E p" "eo_Timestamp E p" "bs_world s"]
      by (auto simp: finish_def done_loads_def split: prod.splits)
  next
    case (WReporting v err)
    then show ?thesis using assms(2) by (auto simp: finish_def done_loads_def split: if_splits)
  next
    case WDone
    then show ?thesis using assms(2) by simp
  qed
qed

section \<open>Batches\<close>

definition batch_events :: "('v, 'p, 't, 'w) BatchState \<Rightarrow> 'v multiset" where
  "batch_events s =
     mset (bs_unsent s) + (mset (bs_queue s) + sum_list (map worker_event (bs_workers s)) + mset (map fst (bs_done s)))"

definition batch_rank :: "('v, 'p, 't, 'w) BatchState \<Rightarrow> nat" where
  "batch_rank s =
     7 * length (bs_unsent s) + 6 * length (bs_queue s) + of_bool (\<not> bs_closed s) + sum_list (map worker_rank (bs_workers s))"

text \<open>The channels are large enough: no batch has more events than either has room for. The channel of errors holds the errors of the failed events, and the
  channel of events is closed after the last; a worker ends when it is closed and empty.\<close>

definition batch_inv :: "'v multiset \<Rightarrow> ('v, 'p, 't, 'w) BatchState \<Rightarrow> bool" where
  "batch_inv evs s \<longleftrightarrow> batch_events s = evs \<and> bs_capacity s = size evs \<and> bs_errors s = done_errors (bs_done s) \<and>
     (bs_closed s \<longrightarrow> bs_unsent s = []) \<and> (WDone \<in> set (bs_workers s) \<longrightarrow> bs_closed s \<and> bs_queue s = []) \<and>
     length (bs_workers s) = maxWorkers"

text \<open>The loads are accounted for, compared with \<open>base\<close> before the batch.\<close>

definition loads_balance :: "('w \<Rightarrow> 't multiset) \<Rightarrow> 't multiset \<Rightarrow> ('v, 'p, 't, 'w) BatchState \<Rightarrow> bool" where
  "loads_balance loaded base s \<longleftrightarrow>
     loaded (bs_world s) = base + sum_list (map worker_load (bs_workers s)) + done_loads (bs_done s)"

text \<open>Exchanging one summand on both sides.\<close>

lemma exchange_events:
  fixes q :: "'a :: cancel_comm_monoid_add"
  assumes "q' + e' + d' = q + e + d" "S' + e = S + e'"
  shows "q' + S' + d' = q + S + d"
proof -
  have "(q' + S' + d') + (e + e') = (q' + e' + d') + (S' + e)" by (simp add: ac_simps)
  also have "\<dots> = (q + S + d) + (e + e')" unfolding assms by (simp add: ac_simps)
  finally show ?thesis by simp
qed

lemma exchange_loads:
  fixes L :: "'a :: cancel_comm_monoid_add"
  assumes "L' + e + d = L + e' + d'" "S' + e = S + e'" "L = b + S + d"
  shows "L' = b + S' + d'"
proof -
  have "L' + (e + d) = b + (S + e') + (d + d')" using assms(1) by (simp add: assms(3) ac_simps)
  also have "\<dots> = (b + S' + d') + (e + d)" unfolding assms(2) [symmetric] by (simp add: ac_simps)
  finally show ?thesis by simp
qed

lemma batch_step_rank: "batch_step E s s' \<Longrightarrow> batch_rank s' < batch_rank s"
proof (induction rule: batch_step.induct)
  case (sender s s')
  then show ?case using advance_sender_events(2,3) [OF sender] by (simp add: batch_rank_def)
next
  case (worker i s wk s')
  note w = advance_worker_events [OF worker(2)]
  show ?case using w(2) sum_list_update [OF worker(1), of worker_rank wk] by (simp add: batch_rank_def w(3,4,6))
qed

lemma batch_step_inv: "batch_step E s s' \<Longrightarrow> batch_inv evs s \<Longrightarrow> batch_inv evs s'"
proof (induction rule: batch_step.induct)
  case (sender s s')
  note a = advance_sender_events [OF sender(1)]
  have "batch_events s' = batch_events s" by (simp add: batch_events_def a(3,6) add.assoc [symmetric] a(1))
  moreover have "\<not> bs_closed s" "WDone \<notin> set (bs_workers s)" using sender(2) a(9) by (auto simp: batch_inv_def)
  ultimately show ?case using sender(2) a(3-6,8) by (auto simp: batch_inv_def)
next
  case (worker i s wk s')
  note w = advance_worker_events [OF worker(2)]
  have "batch_events (s'\<lparr>bs_workers := (bs_workers s')[i := wk]\<rparr>) = batch_events s"
    using exchange_events [OF w(1) sum_list_update [OF worker(1), of worker_event wk]] by (simp add: batch_events_def w(3,4))
  moreover have "bs_closed s \<and> bs_queue s' = []" if "WDone \<in> set ((bs_workers s)[i := wk])"
    using subsetD [OF set_update_subset_insert that] worker(3) w(8,9) by (auto simp: batch_inv_def)
  ultimately show ?case using worker(3) w(3-7) by (simp add: batch_inv_def)
qed

lemma batch_step_loads:
  assumes "load_laws E loaded" "batch_step E s s'" "loads_balance loaded base s"
  shows "loads_balance loaded base s'"
  using assms(2,3)
proof (induction rule: batch_step.induct)
  case (sender s s')
  then show ?case using advance_sender_events [OF sender(1)] by (simp add: loads_balance_def)
next
  case (worker i s wk s')
  show ?case
    using exchange_loads [OF advance_worker_loads [OF assms(1) worker(2)] sum_list_update [OF worker(1), of worker_load wk]] worker(3)
    by (simp add: loads_balance_def advance_worker_events(3) [OF worker(2)])
qed

interpretation batches: transition_system batch_step "batch_inv evs" for evs
  by unfold_locales (rule batch_step_inv)

lemma sum_list_replicate_empty [simp]: "sum_list (replicate n {#}) = {#}"
  by (induction n) simp_all

lemma batch_start_simps [simp]:
  "batch_inv (mset evs) (batch_start evs w)" "batch_rank (batch_start evs w) = 7 * length evs + 11"
  "loads_balance loaded (loaded w) (batch_start evs w)"
  by (simp_all add: batch_start_def batch_inv_def batch_events_def batch_rank_def loads_balance_def done_loads_def done_errors_def
      List.map_filter_def maxWorkers_def sum_list_replicate)

lemma ended_sum: "list_all (\<lambda>wk. wk = WDone) ws \<Longrightarrow> f WDone = (0 :: 'b :: comm_monoid_add) \<Longrightarrow> sum_list (map f ws) = 0"
  by (induction ws) simp_all

lemma done_errors_length: "length (done_errors d) \<le> length d"
  by (simp add: done_errors_def List.map_filter_def)

text \<open>No send waits for room.\<close>

lemma batch_room:
  assumes "batch_inv evs s"
  shows "bs_unsent s \<noteq> [] \<Longrightarrow> length (bs_queue s) < bs_capacity s"
    "WReporting v err \<in> set (bs_workers s) \<Longrightarrow> length (bs_errors s) < bs_capacity s"
proof -
  have "size (batch_events s) = bs_capacity s" using assms by (simp add: batch_inv_def)
  then have sum: "length (bs_unsent s) + (length (bs_queue s) + size (sum_list (map worker_event (bs_workers s))) + length (bs_done s)) =
      bs_capacity s"
    by (simp add: batch_events_def)
  then show "bs_unsent s \<noteq> [] \<Longrightarrow> length (bs_queue s) < bs_capacity s" by (cases "bs_unsent s") simp_all
  assume "WReporting v err \<in> set (bs_workers s)"
  then obtain xs ys where "bs_workers s = xs @ WReporting v err # ys" by (auto simp: in_set_conv_decomp)
  then have "0 < size (sum_list (map worker_event (bs_workers s)))" by simp
  moreover have "length (bs_errors s) \<le> length (bs_done s)" using assms done_errors_length by (auto simp: batch_inv_def)
  ultimately show "length (bs_errors s) < bs_capacity s" using sum by linarith
qed

text \<open>Something goes on as long as the batch is not finished.\<close>

lemma batch_stuck_iff:
  assumes "batch_inv evs s"
  shows "(\<nexists>s'. batch_step E s s') \<longleftrightarrow> batch_finished s"
proof
  assume fin: "batch_finished s"
  have "\<not> batch_step E s s'" for s'
  proof
    assume "batch_step E s s'"
    then show False
      using fin by (induction rule: batch_step.induct) (auto simp: batch_finished_def advance_sender_def list_all_length)
  qed
  then show "\<nexists>s'. batch_step E s s'" by blast
next
  assume stuck: "\<nexists>s'. batch_step E s s'"
  have "advance_sender s = None" using stuck batch_step.sender by (metis not_Some_eq)
  then have sent: "bs_unsent s = []" "bs_closed s"
    using batch_room(1) [OF assms] by (auto simp: advance_sender_def split: list.splits if_splits)
  have none: "advance_worker E wk s = None" if wk: "wk \<in> set (bs_workers s)" for wk
  proof (rule ccontr)
    assume "advance_worker E wk s \<noteq> None"
    then obtain wk' s' where "advance_worker E wk s = Some (wk', s')" by fastforce
    moreover obtain i where "i < length (bs_workers s)" "bs_workers s ! i = wk" using wk by (auto simp: in_set_conv_nth)
    ultimately show False using stuck batch_step.worker [of i s E wk' s'] by blast
  qed
  have ended: "wk = WDone" if wk: "wk \<in> set (bs_workers s)" for wk
    using none [OF wk] batch_room(2) [OF assms] wk sent by (cases wk) (auto split: list.splits)
  have "bs_workers s \<noteq> []" using assms by (auto simp: batch_inv_def maxWorkers_def)
  then have "WDone \<in> set (bs_workers s)" using ended by (cases "bs_workers s") auto
  then have "bs_queue s = []" using assms by (simp add: batch_inv_def)
  then show "batch_finished s"
    using sent ended by (simp add: batch_finished_def list_all_iff)
qed

section \<open>Properties\<close>

text \<open>A worker that is not interrupted, until it is idle again.\<close>

fun solo_run ::
  "nat \<Rightarrow> ('c, 'v, 'p, 't, 'w) EtlOps \<Rightarrow> ('v, 'p, 't) worker \<Rightarrow> ('v, 'p, 't, 'w) BatchState \<Rightarrow> ('v, 'p, 't) worker \<times> ('v, 'p, 't, 'w) BatchState" where
  "solo_run 0 E wk s = (wk, s)"
| "solo_run (Suc n) E wk s =
     (case advance_worker E wk s of
        None \<Rightarrow> (wk, s)
      | Some (wk', s') \<Rightarrow> if wk' = WIdle then (WIdle, s') else solo_run n E wk' s')"

lemma solo_run_6: "solo_run 6 E wk s = solo_run (Suc (Suc (Suc (Suc (Suc (Suc 0)))))) E wk s"
  by (simp add: numeral_eq_Suc)

text \<open>
  The calls of a worker are those of \<open>processRealTimeEvent\<close>: a worker that is not interrupted takes the next event and leaves the
  world that \<open>processRealTimeEvent\<close> leaves, and it sends the same error if there is room for it.
\<close>
theorem worker_is_processRealTimeEvent:
  assumes "bs_queue s = v # q" "ep_world ps = bs_world s" "length (bs_errors s) < bs_capacity s"
  shows "\<exists>s' r. solo_run 6 E WIdle s = (WIdle, s') \<and> bs_queue s' = q \<and> bs_done s' = bs_done s @ [(v, r)] \<and>
    bs_world s' = ep_world (snd (processRealTimeEvent E v topic ps)) \<and>
    fst (processRealTimeEvent E v topic ps) = (case r of Failed e \<Rightarrow> Some e | _ \<Rightarrow> None)"
proof -
  note defs = processRealTimeEvent_def load_and_mark_def etl_inc_def finish_def Let_def assms
  show ?thesis
  proof (cases "eo_ProcessEvent E v")
    case (Inl e)
    then show ?thesis by (simp add: solo_run_6 defs)
  next
    case p: (Inr p)
    obtain d w1 where d: "eo_IsDuplicate E (eo_ID E p) (eo_Timestamp E p) (bs_world s) = (d, w1)" by fastforce
    show ?thesis
    proof (cases d)
      case (Inl e)
      then show ?thesis using p d by (simp add: solo_run_6 defs)
    next
      case b: (Inr b)
      show ?thesis
      proof (cases b)
        case True
        then show ?thesis using p d b by (simp add: solo_run_6 defs)
      next
        case False
        show ?thesis
        proof (cases "eo_TransformEvent E p")
          case (Inl e)
          then show ?thesis using p d b False by (simp add: solo_run_6 defs)
        next
          case t: (Inr t)
          obtain l w2 where l: "eo_LoadEvent E t w1 = (l, w2)" by fastforce
          obtain k w3 where "eo_MarkProcessed E (eo_ID E p) (eo_Timestamp E p) w2 = (k, w3)" by fastforce
          then show ?thesis using p d b False t l by (cases l) (simp_all add: solo_run_6 defs)
        qed
      qed
    qed
  qed
qed

text \<open>
  C27: Every batch ends, provided that the calls return. However the batch goroutine and the ten workers interleave, a batch of \<open>n\<close> events makes at most \<open>7n + 11\<close> steps: each event
  is sent and received and then takes at most five calls, or four and the report of an error; the channel is closed, and the ten workers end. The batch can only stop when everything is sent and
  all workers have ended, so that no worker waits for ever to report an error.
\<close>
theorem batch_terminates:
  assumes "(batch_step E ^^ n) (batch_start events w) s"
  shows "n \<le> 7 * length events + 11 \<and> ((\<nexists>s'. batch_step E s s') \<longleftrightarrow> batch_finished s)"
proof -
  have "n + batch_rank s \<le> batch_rank s0" if "(batch_step E ^^ n) s0 s" for n s0
    using that
  proof (induction n arbitrary: s)
    case (Suc n)
    then obtain s1 where s1: "(batch_step E ^^ n) s0 s1" "batch_step E s1 s" by auto
    then show ?case using Suc.IH [OF s1(1)] batch_step_rank [OF s1(2)] by simp
  qed simp
  from this [OF assms] have "n \<le> 7 * length events + 11" by simp
  moreover have "batch_inv (mset events) s"
    using batches.ainv_run [OF relpowp_imp_rtranclp [OF assms]] by simp
  ultimately show ?thesis using batch_stuck_iff by blast
qed

text \<open>
  C26: A batch accounts for every event. When it has ended every event of the batch, counted with multiplicity, has exactly one outcome, and
  what was loaded into the store is exactly what the outcomes say.
\<close>
theorem batch_accounts:
  assumes "load_laws E loaded" "(batch_step E)\<^sup>*\<^sup>* (batch_start events w) s" "batch_finished s"
  shows "mset (map fst (bs_done s)) = mset events \<and>
    loaded (bs_world s) = loaded w + sum_list (map (\<lambda>vr. outcome_load (snd vr)) (bs_done s))"
proof -
  have over: "bs_unsent s = []" "bs_queue s = []" "list_all (\<lambda>wk. wk = WDone) (bs_workers s)"
    using assms(3) by (simp_all add: batch_finished_def)
  have "batch_inv (mset events) s" using batches.ainv_run [OF assms(2)] by simp
  then have "batch_events s = mset events" by (simp add: batch_inv_def)
  then have "mset (map fst (bs_done s)) = mset events" by (simp add: batch_events_def over(1,2) ended_sum [OF over(3)])
  moreover have "loads_balance loaded (loaded w) s"
    using assms(2) by (induction rule: rtranclp_induct) (simp_all add: batch_step_loads [OF assms(1)])
  ultimately show ?thesis by (simp add: loads_balance_def ended_sum [OF over(3)] done_loads_def)
qed

text \<open>Services on lists: a world is the marked keys and the loaded events, and nothing fails.\<close>

type_synonym list_world = "(string \<times> gotime) list \<times> string list"

definition list_services :: "(string, string, string, string, list_world) EtlOps" where
  "list_services =
     \<lparr>eo_ParseCDC = Some, eo_ParseEvent = Some, eo_ProcessCDCEvent = Inr, eo_ProcessEvent = Inr, eo_ID = (\<lambda>p. p), eo_Timestamp = (\<lambda>_. 1),
      eo_TransformCDCEvent = Inr, eo_TransformEvent = Inr, eo_IsDuplicate = (\<lambda>i t w. (Inr ((i, t) \<in> set (fst w)), w)),
      eo_MarkProcessed = (\<lambda>i t w. (None, ((i, t) # fst w, snd w))), eo_LoadEvent = (\<lambda>t w. (None, (fst w, snd w @ [t]))),
      eo_GetPendingEvents = (\<lambda>n w. (Inr [], w)), eo_ProcessAggregation = (\<lambda>a w. (None, w))\<rparr>"

lemma list_services_laws: "load_laws list_services (\<lambda>w. mset (snd w))"
  by (simp add: load_laws_def list_services_def)

text \<open>The move of the worker \<open>i\<close> for \<open>Some i\<close>, and of the batch goroutine for \<open>None\<close>.\<close>

definition move_of :: "('c, 'v, 'p, 't, 'w) EtlOps \<Rightarrow> nat option \<Rightarrow> ('v, 'p, 't, 'w) BatchState \<Rightarrow> ('v, 'p, 't, 'w) BatchState" where
  "move_of E m s =
     (case m of
        None \<Rightarrow> (case advance_sender s of None \<Rightarrow> s | Some s' \<Rightarrow> s')
      | Some i \<Rightarrow>
          (if i < length (bs_workers s)
           then case advance_worker E (bs_workers s ! i) s of None \<Rightarrow> s | Some (wk, s') \<Rightarrow> s'\<lparr>bs_workers := (bs_workers s')[i := wk]\<rparr>
           else s))"

lemma move_of_run: "(batch_step E)\<^sup>*\<^sup>* s (move_of E m s)"
  by (auto simp: move_of_def split: option.split intro: batch_step.intros)

lemma moves_run: "(batch_step E)\<^sup>*\<^sup>* s (fold (move_of E) ms s)"
  by (induction ms arbitrary: s) (auto intro: rtranclp_trans move_of_run)

text \<open>Two copies of one event, taken by two workers that both check before either marks.\<close>

definition twice :: "(string, string, string, list_world) BatchState" where
  "twice = fold (move_of list_services) ([None, None, None] @ concat (replicate 6 [Some 0, Some 1]) @ map Some [0..<10])
     (batch_start [''a'', ''a''] ([], []))"

lemma twice_reached: "(batch_step list_services)\<^sup>*\<^sup>* (batch_start [''a'', ''a''] ([], [])) twice" "batch_finished twice"
proof -
  show "(batch_step list_services)\<^sup>*\<^sup>* (batch_start [''a'', ''a''] ([], [])) twice"
    unfolding twice_def by (rule moves_run)
  show "batch_finished twice" by code_simp
qed

theorem batch_accounts_witness:
  "mset (map fst (bs_done twice)) = {#''a'', ''a''#} \<and> mset (snd (bs_world twice)) = sum_list (map (\<lambda>vr. outcome_load (snd vr)) (bs_done twice))"
  using batch_accounts [OF list_services_laws twice_reached] by simp

theorem batch_terminates_witness: "\<exists>s'. batch_step list_services (batch_start [''a''] ([], [])) s'"
proof -
  have start: "(batch_step list_services ^^ 0) (batch_start [''a''] ([], [])) (batch_start [''a''] ([], []))" by simp
  have "\<not> batch_finished (batch_start [''a''] ([], []) :: (string, string, string, list_world) BatchState)"
    by (simp add: batch_finished_def batch_start_def)
  then show ?thesis using batch_terminates [OF start] by blast
qed

text \<open>
  Deduplication does not hold inside a batch. Two copies of one event in a batch are both loaded when two workers check
  them before either is marked.
\<close>
theorem duplicate_in_batch_loaded_twice:
  "\<exists>s. (batch_step list_services)\<^sup>*\<^sup>* (batch_start [''a'', ''a''] ([], [])) s \<and> batch_finished s \<and> snd (bs_world s) = [''a'', ''a'']"
proof -
  have "snd (bs_world twice) = [''a'', ''a'']" by code_simp
  then show ?thesis using twice_reached by blast
qed

definition one_sent :: "(string, string, string, list_world) BatchState" where
  "one_sent = move_of list_services None (batch_start [''a''] ([], []))"

theorem worker_is_processRealTimeEvent_witness:
  "\<exists>s' r. solo_run 6 list_services WIdle one_sent = (WIdle, s') \<and> bs_done s' = [(''a'', r)] \<and>
     bs_world s' = ([(''a'', 1)], [''a''])"
proof -
  have "ep_world (snd (processRealTimeEvent list_services ''a'' ''t'' (NewETLPipeline ([], [])))) = ([(''a'', 1)], [''a''])" by code_simp
  moreover have "bs_queue one_sent = ''a'' # []" "bs_done one_sent = []" "length (bs_errors one_sent) < bs_capacity one_sent"
    "ep_world (NewETLPipeline ([], []) :: list_world ETLPipeline) = bs_world one_sent"
    by (simp_all add: one_sent_def batch_start_def NewETLPipeline_def move_of_def advance_sender_def)
  ultimately show ?thesis
    using worker_is_processRealTimeEvent [of one_sent "''a''" "[]" "NewETLPipeline ([], [])" list_services "''t''"]
    by fastforce
qed

text \<open>A worker that is started twice is not stopped: the pipeline forgets its first channel.\<close>

lemma restarted_worker_not_stopped:
  assumes "ep_isRunning s" "ep_stopChannels s = []"
  shows "\<exists>ch s1 s2. StartBatchProcessor s = (ch, s1) \<and> s2 = snd (etl_Stop (snd (StartBatchProcessor s1))) \<and> \<not> ep_closed s2 ! ch"
  using assms by (simp add: StartBatchProcessor_def register_worker_def etl_Stop_def go_set_def nth_append)

end
