(* ===== verification/Online_Migration.thy ===== *)
theory Online_Migration
  imports Go_Float Go_Env Go_Strings
begin

text \<open>
  The engine for online schema migrations, \<open>services/schema-migration/internal/migration/online_engine.go\<close>. The database is
  \<open>SqlOps\<close> on a world of an arbitrary type; \<open>me_log\<close> has the statements the engine has sent to it, each with the error that came back, and \<open>me_progress\<close> the values of
  the progress metric. The helpers that the code leaves as placeholders are modelled as they stand. \<open>None\<close> as a result
  says that the loop over the chunks does not end; sleeping, logging and the histogram of durations are left out.

  The lemmas show which statements every kind of migration sends, that the chunks of a backfill partition the rows, and what the
  placeholders and the spelling of the keywords lead to.
\<close>

section \<open>Data\<close>

record Migration =
  mg_Name :: string
  mg_UpSQL :: string

record OnlineMigrationConfig =
  oc_ChunkSize :: int
  oc_ThrottleDelay :: duration
  oc_MaxLag :: duration
  oc_ReplicationTimeout :: duration
  oc_LockTimeout :: duration
  oc_MaxRetries :: int
  oc_PerformanceThreshold :: float64

record 'w SqlOps =
  so_Exec :: "string \<Rightarrow> 'w \<Rightarrow> goerror option \<times> 'w"
  so_QueryCount :: "string \<Rightarrow> 'w \<Rightarrow> (goerror + int) \<times> 'w"

record 'w OnlineEngine =
  me_world :: 'w
  me_log :: "(string \<times> goerror option) list"
  me_progress :: "(string \<times> float64) list"
  me_chunks :: "(int \<times> int) list"

definition executeSQL :: "'w SqlOps \<Rightarrow> string \<Rightarrow> 'w OnlineEngine \<Rightarrow> goerror option \<times> 'w OnlineEngine" where
  "executeSQL D sql e = (let (err, w) = so_Exec D sql (me_world e) in (err, e\<lparr>me_world := w, me_log := me_log e @ [(sql, err)]\<rparr>))"

section \<open>Text\<close>

text \<open>\<open>strings.Replace(s, old, new, 1)\<close> for an old text that is not empty.\<close>

fun replace_first :: "string \<Rightarrow> string \<Rightarrow> string \<Rightarrow> string" where
  "replace_first old new [] = []"
| "replace_first old new (c # cs) =
     (if prefix old (c # cs) then new @ drop (length old) (c # cs) else c # replace_first old new cs)"

definition detectMigrationType :: "UnicodeOps \<Rightarrow> string \<Rightarrow> string" where
  "detectMigrationType U sql =
     (let upperSQL = strings_ToUpper U sql in
      if strings_Contains upperSQL ''ADD COLUMN'' then ''ADD_COLUMN''
      else if strings_Contains upperSQL ''DROP COLUMN'' then ''DROP_COLUMN''
      else if strings_Contains upperSQL ''CREATE INDEX'' then ''ADD_INDEX''
      else if strings_Contains upperSQL ''DROP INDEX'' then ''DROP_INDEX''
      else if strings_Contains upperSQL ''ALTER COLUMN'' then ''MODIFY_COLUMN''
      else if strings_Contains upperSQL ''ADD CONSTRAINT'' then ''ADD_CONSTRAINT''
      else if strings_Contains upperSQL ''DROP CONSTRAINT'' then ''DROP_CONSTRAINT''
      else ''GENERIC'')"

definition hasDefaultValue :: "UnicodeOps \<Rightarrow> string \<Rightarrow> bool" where
  "hasDefaultValue U sql = strings_Contains (strings_ToUpper U sql) ''DEFAULT''"

definition parseDropColumn :: "string \<Rightarrow> string \<times> string" where
  "parseDropColumn sql = (''table_name'', ''column_name'')"

definition getTableColumns :: "string \<Rightarrow> goerror + string list" where
  "getTableColumns tableName = Inr [''id'', ''name'', ''email'']"

definition parseModifyColumn :: "string \<Rightarrow> string \<times> string \<times> string" where
  "parseModifyColumn sql = (''table_name'', ''old_column'', ''new_column'')"

definition backfillModifiedColumn :: "string \<Rightarrow> string \<Rightarrow> string \<Rightarrow> goerror option" where
  "backfillModifiedColumn tableName oldColumn newColumn = None"

definition createSyncTriggers :: "string \<Rightarrow> string \<Rightarrow> string \<Rightarrow> goerror option" where
  "createSyncTriggers tableName oldColumn newColumn = None"

definition extractConstraintName :: "string \<Rightarrow> string" where
  "extractConstraintName sql = ''constraint_name''"

definition extractTableName :: "string \<Rightarrow> string" where
  "extractTableName sql = ''table_name''"

definition mightCauseLocks :: "UnicodeOps \<Rightarrow> string \<Rightarrow> bool" where
  "mightCauseLocks U sql =
     list_ex (strings_Contains (strings_ToUpper U sql)) [''ALTER TABLE'', ''CREATE TABLE'', ''DROP TABLE'', ''TRUNCATE'']"

definition checkPerformanceImpact :: "goerror option" where
  "checkPerformanceImpact = None"

definition processBackfillChunk :: "string \<Rightarrow> int \<Rightarrow> int \<Rightarrow> goerror option" where
  "processBackfillChunk tableName offset chunkSize = None"

section \<open>Backfill\<close>

text \<open>\<open>me_chunks\<close> has the chunks for which \<open>processBackfillChunk\<close> was called.\<close>

definition progress_of :: "int \<Rightarrow> int \<Rightarrow> float64" where
  "progress_of offset totalRows = fl (fl (fl (of_int offset) / fl (of_int totalRows)) * 100)"

partial_function (option) backfill_loop ::
  "string \<Rightarrow> string \<Rightarrow> int \<Rightarrow> int \<Rightarrow> int \<Rightarrow> 'w OnlineEngine \<Rightarrow> (goerror option \<times> 'w OnlineEngine) option" where
  "backfill_loop name tableName chunk totalRows offset e =
     (if \<not> offset < totalRows then Some (None, e)
      else
        let chunkSize = (if wrap64 (offset + chunk) > totalRows then wrap64 (totalRows - offset) else chunk);
            e' = e\<lparr>me_chunks := me_chunks e @ [(offset, chunkSize)]\<rparr>
        in case processBackfillChunk tableName offset chunkSize of
             Some err \<Rightarrow> Some (Some (''failed to process backfill chunk: '' @ err), e')
           | None \<Rightarrow>
               let offset' = wrap64 (offset + chunkSize) in
               backfill_loop name tableName chunk totalRows offset' (e'\<lparr>me_progress := me_progress e' @ [(name, progress_of offset' totalRows)]\<rparr>))"

definition backfillColumn ::
  "'w SqlOps \<Rightarrow> OnlineMigrationConfig \<Rightarrow> Migration \<Rightarrow> 'w OnlineEngine \<Rightarrow> (goerror option \<times> 'w OnlineEngine) option" where
  "backfillColumn D cfg m e =
     (let tableName = extractTableName (mg_UpSQL m); sql = ''SELECT COUNT(*) FROM '' @ tableName in
      case so_QueryCount D sql (me_world e) of
        (Inl err, w) \<Rightarrow> Some (Some (''failed to get row count: '' @ err), e\<lparr>me_world := w, me_log := me_log e @ [(sql, Some err)]\<rparr>)
      | (Inr totalRows, w) \<Rightarrow>
          let e1 = e\<lparr>me_world := w, me_log := me_log e @ [(sql, None)]\<rparr> in
          if totalRows = 0 then Some (None, e1) else backfill_loop (mg_Name m) tableName (oc_ChunkSize cfg) totalRows 0 e1)"

section \<open>Migrations\<close>

definition executeAddColumn ::
  "UnicodeOps \<Rightarrow> 'w SqlOps \<Rightarrow> OnlineMigrationConfig \<Rightarrow> Migration \<Rightarrow> 'w OnlineEngine \<Rightarrow> (goerror option \<times> 'w OnlineEngine) option" where
  "executeAddColumn U D cfg m e =
     (case executeSQL D (mg_UpSQL m) e of
        (Some err, e1) \<Rightarrow> Some (Some (''failed to add column: '' @ err), e1)
      | (None, e1) \<Rightarrow>
          if hasDefaultValue U (mg_UpSQL m)
          then (case backfillColumn D cfg m e1 of
                  None \<Rightarrow> None
                | Some (Some err, e2) \<Rightarrow> Some (Some (''failed to backfill column: '' @ err), e2)
                | Some (None, e2) \<Rightarrow> Some (None, e2))
          else Some (None, e1))"

fun join_sep :: "string \<Rightarrow> string list \<Rightarrow> string" where
  "join_sep sep [] = []"
| "join_sep sep [x] = x"
| "join_sep sep (x # y # xs) = x @ sep @ join_sep sep (y # xs)"

definition executeDropColumn :: "'w SqlOps \<Rightarrow> Migration \<Rightarrow> 'w OnlineEngine \<Rightarrow> goerror option \<times> 'w OnlineEngine" where
  "executeDropColumn D m e =
     (let (tableName, columnName) = parseDropColumn (mg_UpSQL m); viewName = tableName @ ''_migration_view'' in
      case getTableColumns tableName of
        Inl err \<Rightarrow> (Some (''failed to get table columns: '' @ err), e)
      | Inr columns \<Rightarrow>
          let remainingColumns = filter (\<lambda>col. col \<noteq> columnName) columns;
              createViewSQL = ''CREATE OR REPLACE VIEW '' @ viewName @ '' AS SELECT '' @ join_sep '', '' remainingColumns @ '' FROM '' @ tableName
          in case executeSQL D createViewSQL e of
               (Some err, e1) \<Rightarrow> (Some (''failed to create migration view: '' @ err), e1)
             | (None, e1) \<Rightarrow>
                 (case executeSQL D (mg_UpSQL m) e1 of
                    (Some err, e2) \<Rightarrow> (Some (''failed to drop column: '' @ err), e2)
                  | (None, e2) \<Rightarrow> (None, snd (executeSQL D (''DROP VIEW IF EXISTS '' @ viewName) e2))))"

definition executeAddIndex :: "'w SqlOps \<Rightarrow> Migration \<Rightarrow> 'w OnlineEngine \<Rightarrow> goerror option \<times> 'w OnlineEngine" where
  "executeAddIndex D m e =
     (case executeSQL D (replace_first ''CREATE INDEX'' ''CREATE INDEX CONCURRENTLY'' (mg_UpSQL m)) e of
        (Some err, e1) \<Rightarrow> (Some (''failed to create index: '' @ err), e1) | (None, e1) \<Rightarrow> (None, e1))"

definition executeDropIndex :: "'w SqlOps \<Rightarrow> Migration \<Rightarrow> 'w OnlineEngine \<Rightarrow> goerror option \<times> 'w OnlineEngine" where
  "executeDropIndex D m e =
     (case executeSQL D (replace_first ''DROP INDEX'' ''DROP INDEX CONCURRENTLY'' (mg_UpSQL m)) e of
        (Some err, e1) \<Rightarrow> (Some (''failed to drop index: '' @ err), e1) | (None, e1) \<Rightarrow> (None, e1))"

definition executeModifyColumn :: "'w SqlOps \<Rightarrow> Migration \<Rightarrow> 'w OnlineEngine \<Rightarrow> goerror option \<times> 'w OnlineEngine" where
  "executeModifyColumn D m e =
     (let (tableName, oldColumn, newColumn) = parseModifyColumn (mg_UpSQL m) in
      case executeSQL D (''ALTER TABLE '' @ tableName @ '' ADD COLUMN '' @ newColumn) e of
        (Some err, e1) \<Rightarrow> (Some (''failed to add new column: '' @ err), e1)
      | (None, e1) \<Rightarrow>
          (case backfillModifiedColumn tableName oldColumn newColumn of
             Some err \<Rightarrow> (Some (''failed to backfill modified column: '' @ err), e1)
           | None \<Rightarrow>
               (case createSyncTriggers tableName oldColumn newColumn of
                  Some err \<Rightarrow> (Some (''failed to create sync triggers: '' @ err), e1)
                | None \<Rightarrow> (None, e1))))"

definition executeAddConstraint :: "UnicodeOps \<Rightarrow> 'w SqlOps \<Rightarrow> Migration \<Rightarrow> 'w OnlineEngine \<Rightarrow> goerror option \<times> 'w OnlineEngine" where
  "executeAddConstraint U D m e =
     (if strings_Contains (strings_ToUpper U (mg_UpSQL m)) ''FOREIGN KEY''
      then case executeSQL D (replace_first '';'' '' NOT VALID;'' (mg_UpSQL m)) e of
             (Some err, e1) \<Rightarrow> (Some (''failed to add constraint as NOT VALID: '' @ err), e1)
           | (None, e1) \<Rightarrow>
               (case executeSQL D (''ALTER TABLE '' @ extractTableName (mg_UpSQL m) @ '' VALIDATE CONSTRAINT '' @ extractConstraintName (mg_UpSQL m)) e1 of
                  (Some err, e2) \<Rightarrow> (Some (''failed to validate constraint: '' @ err), e2)
                | (None, e2) \<Rightarrow> (None, e2))
      else case executeSQL D (mg_UpSQL m) e of
             (Some err, e1) \<Rightarrow> (Some (''failed to add constraint: '' @ err), e1) | (None, e1) \<Rightarrow> (None, e1))"

definition executeDropConstraint :: "'w SqlOps \<Rightarrow> Migration \<Rightarrow> 'w OnlineEngine \<Rightarrow> goerror option \<times> 'w OnlineEngine" where
  "executeDropConstraint D m e =
     (case executeSQL D (mg_UpSQL m) e of
        (Some err, e1) \<Rightarrow> (Some (''failed to drop constraint: '' @ err), e1) | (None, e1) \<Rightarrow> (None, e1))"

definition executeGenericMigration :: "'w SqlOps \<Rightarrow> Migration \<Rightarrow> 'w OnlineEngine \<Rightarrow> goerror option \<times> 'w OnlineEngine" where
  "executeGenericMigration D m e =
     (case executeSQL D (mg_UpSQL m) e of
        (Some err, e1) \<Rightarrow> (Some (''failed to execute migration: '' @ err), e1) | (None, e1) \<Rightarrow> (None, e1))"

definition ExecuteOnlineMigration ::
  "UnicodeOps \<Rightarrow> 'w SqlOps \<Rightarrow> OnlineMigrationConfig \<Rightarrow> Migration \<Rightarrow> 'w OnlineEngine \<Rightarrow> (goerror option \<times> 'w OnlineEngine) option" where
  "ExecuteOnlineMigration U D cfg m e =
     (let migrationType = detectMigrationType U (mg_UpSQL m) in
      if migrationType = ''ADD_COLUMN'' then executeAddColumn U D cfg m e
      else if migrationType = ''DROP_COLUMN'' then Some (executeDropColumn D m e)
      else if migrationType = ''ADD_INDEX'' then Some (executeAddIndex D m e)
      else if migrationType = ''DROP_INDEX'' then Some (executeDropIndex D m e)
      else if migrationType = ''MODIFY_COLUMN'' then Some (executeModifyColumn D m e)
      else if migrationType = ''ADD_CONSTRAINT'' then Some (executeAddConstraint U D m e)
      else if migrationType = ''DROP_CONSTRAINT'' then Some (executeDropConstraint D m e)
      else Some (executeGenericMigration D m e))"

section \<open>Chunks\<close>

text \<open>The rows of a list of chunks.\<close>

definition chunk_rows :: "(int \<times> int) list \<Rightarrow> int list" where
  "chunk_rows cs = concat (map (\<lambda>(offset, size). [offset..offset + size - 1]) cs)"

lemma wrap64_small: "int64_range i \<Longrightarrow> wrap64 i = i"
  by (simp add: wrap64_def)

lemma progress_full: "0 < n \<Longrightarrow> progress_of n n = 100"
proof -
  assume "0 < n"
  then have "fl (of_int n) \<noteq> 0" using fl_lower [of "of_int n"] by (auto simp: field_simps)
  moreover have "fl 1 = 1" "fl 100 = 100" using fl_of_int [of 1] fl_of_int [of 100] by simp_all
  ultimately show ?thesis by (simp add: progress_of_def)
qed

lemma backfill_loop_chunks:
  assumes "0 < chunk" "0 \<le> offset" "offset \<le> n" "n + chunk < 2 ^ 63"
  shows "\<exists>cs ps. backfill_loop name tn chunk n offset e =
      Some (None, e\<lparr>me_chunks := me_chunks e @ cs, me_progress := me_progress e @ ps\<rparr>) \<and>
    chunk_rows cs = [offset..n - 1] \<and> list_all (\<lambda>c. 0 < snd c \<and> snd c \<le> chunk) cs \<and>
    (if offset < n then ps \<noteq> [] \<and> last ps = (name, 100) else ps = [])"
  using assms(2,3)
proof (induction "nat (n - offset)" arbitrary: offset e rule: less_induct)
  case less
  show ?case
  proof (cases "offset < n")
    case False
    then have "backfill_loop name tn chunk n offset e = Some (None, e)" by (subst backfill_loop.simps) simp
    then show ?thesis using False less.prems by (intro exI [of _ "[]"]) (simp add: chunk_rows_def)
  next
    case True
    define c where "c = (if offset + chunk > n then n - offset else chunk)"
    have c: "0 < c" "c \<le> chunk" "offset + c \<le> n" using True assms(1) by (auto simp: c_def)
    have w: "wrap64 (offset + chunk) = offset + chunk" "wrap64 (n - offset) = n - offset" "wrap64 (offset + c) = offset + c"
      using less.prems assms c by (auto intro!: wrap64_small)
    have size: "(if wrap64 (offset + chunk) > n then wrap64 (n - offset) else chunk) = c" by (simp add: w c_def)
    let ?e = "e\<lparr>me_chunks := me_chunks e @ [(offset, c)], me_progress := me_progress e @ [(name, progress_of (offset + c) n)]\<rparr>"
    have step: "backfill_loop name tn chunk n offset e = backfill_loop name tn chunk n (offset + c) ?e"
      by (subst backfill_loop.simps) (simp only: size Let_def processBackfillChunk_def option.case w(3) True not_True_eq_False if_False, simp)
    have "nat (n - (offset + c)) < nat (n - offset)" "0 \<le> offset + c" using c less.prems by auto
    from less.hyps [OF this c(3), of ?e] obtain cs ps where
      r: "backfill_loop name tn chunk n (offset + c) ?e = Some (None, ?e\<lparr>me_chunks := me_chunks ?e @ cs, me_progress := me_progress ?e @ ps\<rparr>)"
        "chunk_rows cs = [offset + c..n - 1]" "list_all (\<lambda>c. 0 < snd c \<and> snd c \<le> chunk) cs"
        "if offset + c < n then ps \<noteq> [] \<and> last ps = (name, 100) else ps = []"
      by blast
    have rows: "[offset..n - 1] = [offset..offset + c - 1] @ [offset + c..n - 1]"
      using upto_split2 [of offset "offset + c - 1" "n - 1"] c by simp
    have last: "last ((name, progress_of (offset + c) n) # ps) = (name, 100)"
    proof (cases "offset + c < n")
      case False
      then have "offset + c = n" using c(3) by simp
      then show ?thesis using True less.prems r(4) by (simp add: progress_full)
    qed (use r(4) in simp)
    show ?thesis
      using r c last True unfolding step rows
      by (intro exI [of _ "(offset, c) # cs"] exI [of _ "(name, progress_of (offset + c) n) # ps"]) (simp add: chunk_rows_def)
  qed
qed

lemma backfill_loop_zero:
  assumes "offset < n" "int64_range offset"
  shows "backfill_loop name tn 0 n offset e = None"
proof (rule ccontr)
  assume "backfill_loop name tn 0 n offset e \<noteq> None"
  then obtain y where "backfill_loop name tn 0 n offset e = Some y" by auto
  then have "\<not> ((0 :: int) = 0 \<and> n = n \<and> offset = offset)"
  proof (rule backfill_loop.raw_induct [where P = "\<lambda>name tn chunk n' offset' e y. \<not> (chunk = 0 \<and> n' = n \<and> offset' = offset)", rotated])
    fix f name' tn' chunk n' offset' and e :: "'a OnlineEngine" and y
    assume IH: "\<And>name tn chunk n' offset' e y. f name tn chunk n' offset' e = Some y \<Longrightarrow> \<not> (chunk = 0 \<and> n' = n \<and> offset' = offset)"
      and eq: "(if \<not> offset' < n' then Some (None, e)
        else let chunkSize = if wrap64 (offset' + chunk) > n' then wrap64 (n' - offset') else chunk;
                 e' = e\<lparr>me_chunks := me_chunks e @ [(offset', chunkSize)]\<rparr>
             in case processBackfillChunk tn' offset' chunkSize of
                  None \<Rightarrow> let offset'' = wrap64 (offset' + chunkSize)
                    in f name' tn' chunk n' offset'' (e'\<lparr>me_progress := me_progress e' @ [(name', progress_of offset'' n')]\<rparr>)
                | Some err \<Rightarrow> Some (Some (''failed to process backfill chunk: '' @ err), e')) = Some y"
    show "\<not> (chunk = 0 \<and> n' = n \<and> offset' = offset)"
    proof
      assume h: "chunk = 0 \<and> n' = n \<and> offset' = offset"
      have "f name' tn' 0 n offset (e\<lparr>me_chunks := me_chunks e @ [(offset, 0)], me_progress := me_progress e @ [(name', progress_of offset n)]\<rparr>) = Some y"
        using eq h assms by (simp add: Let_def processBackfillChunk_def wrap64_small)
      then show False using IH by blast
    qed
  qed
  then show False by simp
qed

section \<open>Statements\<close>

text \<open>The statements of a migration when nothing fails.\<close>

definition drop_view :: string where
  "drop_view = ''DROP VIEW IF EXISTS table_name_migration_view''"

definition migration_plan :: "UnicodeOps \<Rightarrow> string \<Rightarrow> string list" where
  "migration_plan U sql =
     (let t = detectMigrationType U sql in
      if t = ''ADD_COLUMN'' then sql # (if hasDefaultValue U sql then [''SELECT COUNT(*) FROM table_name''] else [])
      else if t = ''DROP_COLUMN''
      then [''CREATE OR REPLACE VIEW table_name_migration_view AS SELECT id, name, email FROM table_name'', sql, drop_view]
      else if t = ''ADD_INDEX'' then [replace_first ''CREATE INDEX'' ''CREATE INDEX CONCURRENTLY'' sql]
      else if t = ''DROP_INDEX'' then [replace_first ''DROP INDEX'' ''DROP INDEX CONCURRENTLY'' sql]
      else if t = ''MODIFY_COLUMN'' then [''ALTER TABLE table_name ADD COLUMN new_column'']
      else if t = ''ADD_CONSTRAINT'' \<and> strings_Contains (strings_ToUpper U sql) ''FOREIGN KEY''
      then [replace_first '';'' '' NOT VALID;'' sql, ''ALTER TABLE table_name VALIDATE CONSTRAINT constraint_name'']
      else [sql])"

text \<open>\<open>sent\<close> is what a migration with the result \<open>r\<close> sent: a first part of its plan, where nothing follows a statement that failed. No
  error is reported only when everything was sent and nothing failed, but for the removal of the view; an error that is reported comes from the
  last statement.\<close>

definition fail_stop :: "string list \<Rightarrow> (string \<times> goerror option) list \<Rightarrow> goerror option \<Rightarrow> bool" where
  "fail_stop plan sent r \<longleftrightarrow>
     sent \<noteq> [] \<and> prefix (map fst sent) plan \<and> list_all (\<lambda>x. snd x = None) (butlast sent) \<and>
     (case r of
        None \<Rightarrow> map fst sent = plan \<and> (snd (last sent) = None \<or> fst (last sent) = drop_view)
      | Some err \<Rightarrow> \<exists>x. snd (last sent) = Some x \<and> suffix x err)"

definition follows_plan :: "string list \<Rightarrow> 'w OnlineEngine \<Rightarrow> goerror option \<times> 'w OnlineEngine \<Rightarrow> bool" where
  "follows_plan plan e r \<longleftrightarrow> (\<exists>sent. me_log (snd r) = me_log e @ sent \<and> fail_stop plan sent (fst r))"

lemma follows_planI: "me_log (snd r) = me_log e @ sent \<Longrightarrow> fail_stop plan sent (fst r) \<Longrightarrow> follows_plan plan e r"
  unfolding follows_plan_def by blast

lemma executeSQL_cases:
  obtains err e1 where "executeSQL D sql e = (err, e1)" "me_log e1 = me_log e @ [(sql, err)]"
  by (rule that [of "fst (executeSQL D sql e)" "snd (executeSQL D sql e)"]) (simp_all add: executeSQL_def case_prod_beta)

lemma one_statement:
  "follows_plan [sql] e (case executeSQL D sql e of (Some err, e1) \<Rightarrow> (Some (msg @ err), e1) | (None, e1) \<Rightarrow> (None, e1))"
  by (rule executeSQL_cases [of D sql e])
    (auto simp: fail_stop_def suffix_def split: option.split intro!: follows_planI)

lemma backfill_loop_log:
  assumes "backfill_loop name tn chunk n offset e = Some y"
  shows "me_log (snd y) = me_log e"
  using assms
proof (rule backfill_loop.raw_induct [where P = "\<lambda>name tn chunk n offset e y. me_log (snd y) = me_log e", rotated])
  fix f name tn chunk n offset and e :: "'a OnlineEngine" and y
  assume IH: "\<And>name tn chunk n offset e y. f name tn chunk n offset e = Some y \<Longrightarrow> me_log (snd y) = me_log e"
    and eq: "(if \<not> offset < n then Some (None, e)
      else let chunkSize = if wrap64 (offset + chunk) > n then wrap64 (n - offset) else chunk;
               e' = e\<lparr>me_chunks := me_chunks e @ [(offset, chunkSize)]\<rparr>
           in case processBackfillChunk tn offset chunkSize of
                None \<Rightarrow> let offset' = wrap64 (offset + chunkSize)
                  in f name tn chunk n offset' (e'\<lparr>me_progress := me_progress e' @ [(name, progress_of offset' n)]\<rparr>)
              | Some err \<Rightarrow> Some (Some (''failed to process backfill chunk: '' @ err), e')) = Some y"
  show "me_log (snd y) = me_log e"
  proof (cases "offset < n")
    case True
    let ?c = "if wrap64 (offset + chunk) > n then wrap64 (n - offset) else chunk"
    have "f name tn chunk n (wrap64 (offset + ?c)) (e\<lparr>me_chunks := me_chunks e @ [(offset, ?c)],
        me_progress := me_progress e @ [(name, progress_of (wrap64 (offset + ?c)) n)]\<rparr>) = Some y"
      using eq True unfolding Let_def processBackfillChunk_def by simp
    from IH [OF this] show ?thesis by simp
  qed (use eq in auto)
qed

lemma backfill_loop_ok:
  assumes "backfill_loop name tn chunk n offset e = Some y"
  shows "fst y = None"
  using assms
proof (rule backfill_loop.raw_induct [where P = "\<lambda>name tn chunk n offset e y. fst y = None", rotated])
  fix f name tn chunk n offset and e :: "'a OnlineEngine" and y
  assume IH: "\<And>name tn chunk n offset e y. f name tn chunk n offset e = Some y \<Longrightarrow> fst y = None"
    and eq: "(if \<not> offset < n then Some (None, e)
      else let chunkSize = if wrap64 (offset + chunk) > n then wrap64 (n - offset) else chunk;
               e' = e\<lparr>me_chunks := me_chunks e @ [(offset, chunkSize)]\<rparr>
           in case processBackfillChunk tn offset chunkSize of
                None \<Rightarrow> let offset' = wrap64 (offset + chunkSize)
                  in f name tn chunk n offset' (e'\<lparr>me_progress := me_progress e' @ [(name, progress_of offset' n)]\<rparr>)
              | Some err \<Rightarrow> Some (Some (''failed to process backfill chunk: '' @ err), e')) = Some y"
  then show "fst y = None" by (cases "offset < n") (auto simp: Let_def processBackfillChunk_def dest: IH)
qed

lemma backfillColumn_log:
  assumes "backfillColumn D cfg m e = Some y"
  shows "\<exists>x. me_log (snd y) = me_log e @ [(''SELECT COUNT(*) FROM table_name'', x)] \<and>
    fst y = map_option (\<lambda>err. ''failed to get row count: '' @ err) x"
proof -
  obtain c w where c: "so_QueryCount D ''SELECT COUNT(*) FROM table_name'' (me_world e) = (c, w)" by fastforce
  show ?thesis
  proof (cases c)
    case (Inl err)
    then show ?thesis using assms c by (auto simp: backfillColumn_def extractTableName_def Let_def)
  next
    case (Inr n)
    let ?e = "e\<lparr>me_world := w, me_log := me_log e @ [(''SELECT COUNT(*) FROM table_name'', None)]\<rparr>"
    have "y = (None, ?e) \<or> backfill_loop (mg_Name m) ''table_name'' (oc_ChunkSize cfg) n 0 ?e = Some y"
      using assms c Inr by (auto simp: backfillColumn_def extractTableName_def Let_def split: if_splits)
    then have "fst y = None \<and> me_log (snd y) = me_log ?e"
    proof
      assume loop: "backfill_loop (mg_Name m) ''table_name'' (oc_ChunkSize cfg) n 0 ?e = Some y"
      show ?thesis by (rule conjI [OF backfill_loop_ok [OF loop] backfill_loop_log [OF loop]])
    qed simp
    then show ?thesis by simp
  qed
qed

lemma addColumn_follows:
  assumes "executeAddColumn U D cfg m e = Some r"
  shows "follows_plan (mg_UpSQL m # (if hasDefaultValue U (mg_UpSQL m) then [''SELECT COUNT(*) FROM table_name''] else [])) e r"
proof -
  obtain err e1 where e1: "executeSQL D (mg_UpSQL m) e = (err, e1)" "me_log e1 = me_log e @ [(mg_UpSQL m, err)]"
    by (rule executeSQL_cases)
  consider (failed) x where "err = Some x" | (plain) "err = None" "\<not> hasDefaultValue U (mg_UpSQL m)"
    | (backfill) "err = None" "hasDefaultValue U (mg_UpSQL m)" by (cases err) auto
  then show ?thesis
  proof cases
    case backfill
    then obtain x e2 where b: "backfillColumn D cfg m e1 = Some (x, e2)" "snd r = e2" "fst r = map_option (\<lambda>err. ''failed to backfill column: '' @ err) x"
      using assms e1(1) by (auto simp: executeAddColumn_def split: option.splits)
    obtain y where y: "me_log e2 = me_log e1 @ [(''SELECT COUNT(*) FROM table_name'', y)]" "x = map_option (\<lambda>err. ''failed to get row count: '' @ err) y"
      using backfillColumn_log [OF b(1)] by auto
    show ?thesis
      by (rule follows_planI [of _ _ "[(mg_UpSQL m, None), (''SELECT COUNT(*) FROM table_name'', y)]"])
        (use backfill e1(2) b y in \<open>auto simp: fail_stop_def suffix_def split: option.split\<close>)
  qed (use assms e1 in \<open>auto simp: executeAddColumn_def fail_stop_def suffix_def intro!: follows_planI\<close>)
qed

lemma dropColumn_follows:
  "follows_plan [''CREATE OR REPLACE VIEW table_name_migration_view AS SELECT id, name, email FROM table_name'', mg_UpSQL m, drop_view]
     e (executeDropColumn D m e)"
proof -
  let ?view = "''CREATE OR REPLACE VIEW table_name_migration_view AS SELECT id, name, email FROM table_name''"
  obtain x1 e1 where e1: "executeSQL D ?view e = (x1, e1)" "me_log e1 = me_log e @ [(?view, x1)]" by (rule executeSQL_cases)
  obtain x2 e2 where e2: "executeSQL D (mg_UpSQL m) e1 = (x2, e2)" "me_log e2 = me_log e1 @ [(mg_UpSQL m, x2)]" by (rule executeSQL_cases)
  obtain x3 e3 where e3: "executeSQL D drop_view e2 = (x3, e3)" "me_log e3 = me_log e2 @ [(drop_view, x3)]" by (rule executeSQL_cases)
  have d: "executeDropColumn D m e =
      (case x1 of Some err \<Rightarrow> (Some (''failed to create migration view: '' @ err), e1)
       | None \<Rightarrow> (case x2 of Some err \<Rightarrow> (Some (''failed to drop column: '' @ err), e2) | None \<Rightarrow> (None, e3)))"
    using e1(1) e2(1) e3(1)
    by (simp add: executeDropColumn_def parseDropColumn_def getTableColumns_def drop_view_def split: option.split)
  show ?thesis
    unfolding d using e1(2) e2(2) e3(2)
    by (auto simp: fail_stop_def suffix_def split: option.split intro!: follows_planI)
qed

lemma addConstraint_follows:
  "follows_plan (if strings_Contains (strings_ToUpper U (mg_UpSQL m)) ''FOREIGN KEY''
      then [replace_first '';'' '' NOT VALID;'' (mg_UpSQL m), ''ALTER TABLE table_name VALIDATE CONSTRAINT constraint_name'']
      else [mg_UpSQL m]) e (executeAddConstraint U D m e)"
proof (cases "strings_Contains (strings_ToUpper U (mg_UpSQL m)) ''FOREIGN KEY''")
  case True
  let ?first = "replace_first '';'' '' NOT VALID;'' (mg_UpSQL m)" and ?second = "''ALTER TABLE table_name VALIDATE CONSTRAINT constraint_name''"
  obtain x1 e1 where e1: "executeSQL D ?first e = (x1, e1)" "me_log e1 = me_log e @ [(?first, x1)]" by (rule executeSQL_cases)
  obtain x2 e2 where e2: "executeSQL D ?second e1 = (x2, e2)" "me_log e2 = me_log e1 @ [(?second, x2)]" by (rule executeSQL_cases)
  have d: "executeAddConstraint U D m e =
      (case x1 of Some err \<Rightarrow> (Some (''failed to add constraint as NOT VALID: '' @ err), e1)
       | None \<Rightarrow> (case x2 of Some err \<Rightarrow> (Some (''failed to validate constraint: '' @ err), e2) | None \<Rightarrow> (None, e2)))"
    using True e1(1) e2(1) by (simp add: executeAddConstraint_def extractTableName_def extractConstraintName_def split: option.split)
  show ?thesis
    unfolding d using e1(2) e2(2) True
    by (auto simp: fail_stop_def suffix_def split: option.split intro!: follows_planI)
next
  case False
  then show ?thesis unfolding executeAddConstraint_def by (simp add: one_statement)
qed

lemma modifyColumn_follows: "follows_plan [''ALTER TABLE table_name ADD COLUMN new_column''] e (executeModifyColumn D m e)"
proof -
  have "executeModifyColumn D m e =
      (case executeSQL D ''ALTER TABLE table_name ADD COLUMN new_column'' e of
         (Some err, e1) \<Rightarrow> (Some (''failed to add new column: '' @ err), e1) | (None, e1) \<Rightarrow> (None, e1))"
    by (simp add: executeModifyColumn_def parseModifyColumn_def backfillModifiedColumn_def createSyncTriggers_def split: prod.split option.split)
  then show ?thesis by (simp add: one_statement)
qed

lemma migration_statements:
  assumes "ExecuteOnlineMigration U D cfg m e = Some (r, e')"
  shows "\<exists>sent. me_log e' = me_log e @ sent \<and> fail_stop (migration_plan U (mg_UpSQL m)) sent r"
proof -
  define t where "t = detectMigrationType U (mg_UpSQL m)"
  have "follows_plan (migration_plan U (mg_UpSQL m)) e (r, e')"
  proof (cases "t = ''ADD_COLUMN''")
    case True
    then show ?thesis using assms addColumn_follows [of U D cfg m e] by (simp add: ExecuteOnlineMigration_def migration_plan_def t_def Let_def)
  next
    case False
    have sent: "(r, e') =
      (if t = ''DROP_COLUMN'' then executeDropColumn D m e else if t = ''ADD_INDEX'' then executeAddIndex D m e
       else if t = ''DROP_INDEX'' then executeDropIndex D m e else if t = ''MODIFY_COLUMN'' then executeModifyColumn D m e
       else if t = ''ADD_CONSTRAINT'' then executeAddConstraint U D m e else if t = ''DROP_CONSTRAINT'' then executeDropConstraint D m e
       else executeGenericMigration D m e)"
      using assms False by (simp add: ExecuteOnlineMigration_def t_def [symmetric] Let_def split: if_splits)
    show ?thesis
      unfolding sent migration_plan_def Let_def t_def [symmetric]
      using False dropColumn_follows [of m e D] modifyColumn_follows [of e D m] addConstraint_follows [of U m e D]
      by (simp add: executeAddIndex_def executeDropIndex_def executeDropConstraint_def executeGenericMigration_def one_statement)
  qed
  then show ?thesis by (simp add: follows_plan_def)
qed

lemma backfillColumn_returns:
  assumes "0 < oc_ChunkSize cfg"
    and "\<And>n w. so_QueryCount D ''SELECT COUNT(*) FROM table_name'' (me_world e) = (Inr n, w) \<Longrightarrow> n + oc_ChunkSize cfg < 2 ^ 63"
  shows "backfillColumn D cfg m e \<noteq> None"
proof (cases "so_QueryCount D ''SELECT COUNT(*) FROM table_name'' (me_world e)")
  case (Pair r w)
  show ?thesis
  proof (cases r)
    case (Inr n)
    let ?e = "e\<lparr>me_world := w, me_log := me_log e @ [(''SELECT COUNT(*) FROM table_name'', None)]\<rparr>"
    have "backfill_loop (mg_Name m) ''table_name'' (oc_ChunkSize cfg) n 0 ?e \<noteq> None"
    proof (cases "0 \<le> n")
      case True
      then show ?thesis using backfill_loop_chunks [OF assms(1) order_refl True, of "mg_Name m" "''table_name''" ?e] assms(2) Pair Inr by auto
    next
      case False
      then show ?thesis by (subst backfill_loop.simps) simp
    qed
    then show ?thesis using Pair Inr by (simp add: backfillColumn_def extractTableName_def Let_def)
  qed (simp add: backfillColumn_def extractTableName_def Pair Let_def)
qed

lemma addColumn_returns:
  assumes "0 < oc_ChunkSize cfg"
    and "\<And>n v w. so_QueryCount D ''SELECT COUNT(*) FROM table_name'' v = (Inr n, w) \<Longrightarrow> n + oc_ChunkSize cfg < 2 ^ 63"
  shows "executeAddColumn U D cfg m e \<noteq> None"
proof -
  have "backfillColumn D cfg m e1 \<noteq> None" for e1 by (rule backfillColumn_returns [OF assms])
  then show ?thesis by (simp add: executeAddColumn_def split: prod.split option.split) (metis option.distinct(1))
qed

section \<open>Properties\<close>

text \<open>
  C28: A migration ends when the chunk size is positive and the rows of the table plus one chunk can be counted in 64 bits. It sends the statements of its
  kind to the database in the order of its plan, and nothing after a statement that failed. It reports an error exactly when a
  statement failed, with the text of the database at the end, except that a failure to remove the temporary view of a dropped column, the last statement, is ignored.
\<close>
theorem migration_follows_plan:
  assumes "0 < oc_ChunkSize cfg"
    and "\<And>n v w. so_QueryCount D ''SELECT COUNT(*) FROM table_name'' v = (Inr n, w) \<Longrightarrow> n + oc_ChunkSize cfg < 2 ^ 63"
  shows "\<exists>r e' sent. ExecuteOnlineMigration U D cfg m e = Some (r, e') \<and> me_log e' = me_log e @ sent \<and> sent \<noteq> [] \<and>
    prefix (map fst sent) (migration_plan U (mg_UpSQL m)) \<and> list_all (\<lambda>x. snd x = None) (butlast sent) \<and>
    (case r of
       None \<Rightarrow> map fst sent = migration_plan U (mg_UpSQL m) \<and> (snd (last sent) = None \<or> fst (last sent) = drop_view)
     | Some err \<Rightarrow> \<exists>x. snd (last sent) = Some x \<and> suffix x err)"
proof -
  have "ExecuteOnlineMigration U D cfg m e \<noteq> None"
    using addColumn_returns [OF assms, where U = U and m = m and e = e] by (simp add: ExecuteOnlineMigration_def Let_def)
  then obtain r e' where "ExecuteOnlineMigration U D cfg m e = Some (r, e')" by fastforce
  with migration_statements [OF this] show ?thesis unfolding fail_stop_def by blast
qed

text \<open>A database on which everything works, one that refuses every change, and a text without letters outside ASCII.\<close>

definition read_only_db :: "unit SqlOps" where
  "read_only_db = \<lparr>so_Exec = (\<lambda>_ w. (Some ''read only'', w)), so_QueryCount = (\<lambda>_ w. (Inr 5, w))\<rparr>"

definition plain_db :: "unit SqlOps" where
  "plain_db = \<lparr>so_Exec = (\<lambda>_ w. (None, w)), so_QueryCount = (\<lambda>_ w. (Inr 5, w))\<rparr>"

definition plain_text :: UnicodeOps where
  "plain_text = \<lparr>ux_ToUpper = (\<lambda>s. s), ux_ToLower = (\<lambda>s. s), ux_TrimSpace = (\<lambda>s. s)\<rparr>"

definition migration_config :: "int \<Rightarrow> OnlineMigrationConfig" where
  "migration_config chunk = \<lparr>oc_ChunkSize = chunk, oc_ThrottleDelay = 0, oc_MaxLag = 0, oc_ReplicationTimeout = 0, oc_LockTimeout = 0,
     oc_MaxRetries = 0, oc_PerformanceThreshold = 0\<rparr>"

definition new_engine :: "unit OnlineEngine" where
  "new_engine = \<lparr>me_world = (), me_log = [], me_progress = [], me_chunks = []\<rparr>"

theorem migration_follows_plan_witness:
  "\<exists>e' err. ExecuteOnlineMigration plain_text read_only_db (migration_config 2) \<lparr>mg_Name = ''m'', mg_UpSQL = ''drop index i''\<rparr> new_engine = Some (Some err, e') \<and>
     suffix ''read only'' err \<and> map fst (me_log e') = migration_plan plain_text ''drop index i''"
proof -
  let ?m = "\<lparr>mg_Name = ''m'', mg_UpSQL = ''drop index i''\<rparr>" and ?s = "replace_first ''DROP INDEX'' ''DROP INDEX CONCURRENTLY'' ''drop index i''"
  have t: "detectMigrationType plain_text ''drop index i'' = ''DROP_INDEX''" by code_simp
  have p: "migration_plan plain_text ''drop index i'' = [?s]" unfolding migration_plan_def t by simp
  have run: "ExecuteOnlineMigration plain_text read_only_db (migration_config 2) ?m new_engine =
      Some (Some (''failed to drop index: '' @ ''read only''), new_engine\<lparr>me_log := [(?s, Some ''read only'')]\<rparr>)"
    unfolding ExecuteOnlineMigration_def by (simp add: t executeDropIndex_def executeSQL_def read_only_db_def new_engine_def)
  have "0 < oc_ChunkSize (migration_config 2)" by (simp add: migration_config_def)
  moreover have "n + oc_ChunkSize (migration_config 2) < 2 ^ 63"
    if "so_QueryCount read_only_db ''SELECT COUNT(*) FROM table_name'' v = (Inr n, w)" for n v w
    using that by (simp add: read_only_db_def migration_config_def)
  ultimately obtain r e' sent where "ExecuteOnlineMigration plain_text read_only_db (migration_config 2) ?m new_engine = Some (r, e')"
      "me_log e' = me_log new_engine @ sent"
      "case r of None \<Rightarrow> True | Some err \<Rightarrow> \<exists>x. snd (last sent) = Some x \<and> suffix x err"
    using migration_follows_plan [of "migration_config 2" read_only_db plain_text ?m new_engine] by (auto split: option.splits)
  then show ?thesis unfolding run by (auto simp: p new_engine_def)
qed

text \<open>
  C29: A backfill asks for every row exactly once. With a positive chunk size, when the rows can be counted and their number plus one chunk fits into 64 bits, it
  ends without an error, the chunks in their order are consecutive and together the rows of the table, and none is empty or larger
  than the chunk size. For a table with rows the progress ends at 100; for an empty one there are no chunks and it is never set.
\<close>
theorem backfill_partitions_rows:
  assumes "so_QueryCount D ''SELECT COUNT(*) FROM table_name'' (me_world e) = (Inr n, w)"
    and "0 < oc_ChunkSize cfg" "0 \<le> n" "n + oc_ChunkSize cfg < 2 ^ 63"
  shows "\<exists>e' cs ps. backfillColumn D cfg m e = Some (None, e') \<and> me_chunks e' = me_chunks e @ cs \<and> me_progress e' = me_progress e @ ps \<and>
    chunk_rows cs = [0..n - 1] \<and> list_all (\<lambda>c. 0 < snd c \<and> snd c \<le> oc_ChunkSize cfg) cs \<and>
    (if 0 < n then ps \<noteq> [] \<and> last ps = (mg_Name m, 100) else cs = [] \<and> ps = [])"
proof (cases "n = 0")
  case True
  then show ?thesis using assms(1) by (auto simp: backfillColumn_def extractTableName_def Let_def chunk_rows_def intro!: exI [of _ "[]"])
next
  case False
  then have pos: "0 < n" using assms(3) by simp
  let ?e = "e\<lparr>me_world := w, me_log := me_log e @ [(''SELECT COUNT(*) FROM table_name'', None)]\<rparr>"
  obtain cs ps where r: "backfill_loop (mg_Name m) ''table_name'' (oc_ChunkSize cfg) n 0 ?e =
      Some (None, ?e\<lparr>me_chunks := me_chunks ?e @ cs, me_progress := me_progress ?e @ ps\<rparr>)"
    "chunk_rows cs = [0..n - 1]" "list_all (\<lambda>c. 0 < snd c \<and> snd c \<le> oc_ChunkSize cfg) cs"
    "if 0 < n then ps \<noteq> [] \<and> last ps = (mg_Name m, 100) else ps = []"
    using backfill_loop_chunks [OF assms(2) order_refl assms(3,4)] by blast
  then show ?thesis
    using assms(1) False pos by (intro exI [of _ "?e\<lparr>me_chunks := me_chunks ?e @ cs, me_progress := me_progress ?e @ ps\<rparr>"] exI [of _ cs] exI [of _ ps])
      (simp add: backfillColumn_def extractTableName_def Let_def split: if_splits)
qed

theorem backfill_partitions_rows_witness:
  "\<exists>e'. backfillColumn plain_db (migration_config 2) \<lparr>mg_Name = ''m'', mg_UpSQL = ''''\<rparr> new_engine = Some (None, e') \<and>
     chunk_rows (me_chunks e') = [0, 1, 2, 3, 4]"
proof -
  have "so_QueryCount plain_db ''SELECT COUNT(*) FROM table_name'' (me_world new_engine) = (Inr 5, ())" by (simp add: plain_db_def)
  from backfill_partitions_rows [OF this, of "migration_config 2" "\<lparr>mg_Name = ''m'', mg_UpSQL = ''''\<rparr>"]
  show ?thesis by (auto simp: migration_config_def new_engine_def upto.simps)
qed

text \<open>
  With the chunk size 0 a backfill of a table with rows never ends: the offset stays where it is.
\<close>
theorem zero_chunk_never_ends:
  assumes "so_QueryCount D ''SELECT COUNT(*) FROM table_name'' (me_world e) = (Inr n, w)" "0 < n" "oc_ChunkSize cfg = 0"
  shows "backfillColumn D cfg m e = None"
  using assms backfill_loop_zero [of 0 n] by (simp add: backfillColumn_def extractTableName_def Let_def)

theorem zero_chunk_never_ends_witness: "backfillColumn plain_db (migration_config 0) \<lparr>mg_Name = ''m'', mg_UpSQL = ''''\<rparr> new_engine = None"
  by (rule zero_chunk_never_ends [of _ _ 5 "()"]) (simp_all add: plain_db_def migration_config_def)

lemma replace_first_absent: "\<not> strings_Contains s old \<Longrightarrow> replace_first old new s = s"
proof (induction s)
  case (Cons c cs)
  have "\<not> prefix old (c # cs)" "\<not> strings_Contains cs old"
    using Cons.prems by (auto simp: strings_Contains_def)
  then show ?case using Cons.IH by simp
qed simp

text \<open>
  An index whose keywords are not in capital letters is recognised as an index but created without the keyword that avoids the
  lock: the statement is sent as it stands.
\<close>
theorem lower_case_index_locks:
  assumes "detectMigrationType U (mg_UpSQL m) = ''ADD_INDEX''" "\<not> strings_Contains (mg_UpSQL m) ''CREATE INDEX''"
  shows "\<exists>r e'. ExecuteOnlineMigration U D cfg m e = Some (r, e') \<and> map fst (me_log e') = map fst (me_log e) @ [mg_UpSQL m]"
proof -
  obtain err e1 where "executeSQL D (mg_UpSQL m) e = (err, e1)" "me_log e1 = me_log e @ [(mg_UpSQL m, err)]" by (rule executeSQL_cases)
  then show ?thesis
    using assms by (cases err) (simp_all add: ExecuteOnlineMigration_def executeAddIndex_def replace_first_absent Let_def)
qed

theorem lower_case_index_locks_witness:
  "\<exists>r e'. ExecuteOnlineMigration plain_text plain_db (migration_config 1) \<lparr>mg_Name = ''m'', mg_UpSQL = ''create index i on t (c)''\<rparr> new_engine = Some (r, e') \<and>
     map fst (me_log e') = [''create index i on t (c)'']"
proof -
  let ?m = "\<lparr>mg_Name = ''m'', mg_UpSQL = ''create index i on t (c)''\<rparr>"
  have "detectMigrationType plain_text (mg_UpSQL ?m) = ''ADD_INDEX''" "\<not> strings_Contains (mg_UpSQL ?m) ''CREATE INDEX''" by code_simp+
  from lower_case_index_locks [OF this, of plain_db "migration_config 1" new_engine] show ?thesis by (simp add: new_engine_def)
qed

end
