(* ===== verification/Jepsen_Framework.thy ===== *)
theory Jepsen_Framework
  imports Go_Prelude Step_Systems
begin

text \<open>
  The consistency testing framework, \<open>services/consistency-testing/internal/jepsen/framework.go\<close>: starting a test, its clients, the analysis
  of its history and its end. Workloads, nemeses and repositories are not in the repository. A workload and a nemesis are their
  names, what their calls and those of a repository answer is an argument, and \<open>fw_calls\<close> has the calls of the repositories with what
  they are given. The goroutines of the tests and of their clients interleave in \<open>jepsen_step\<close>; the analysis of a history, which reads only its own
  test, is one step. Logging and metrics are left out.

  The lemmas show that no more tests run than configured, what is stored for a test, that the histories are grouped without
  loss, and that no analysis ever reports a violation.
\<close>

section \<open>Data\<close>

datatype TestStatus = TestStatusRunning | TestStatusCompleted | TestStatusFailed

datatype OperationStatus = OperationStatusInvoked | OperationStatusCompleted | OperationStatusFailed

datatype ResultStatus = ResultStatusAnalyzing | ResultStatusCompleted

record jepsen_Operation =
  op_Type :: string
  op_Data :: jobject
  op_ClientID :: string
  op_InvokedAt :: gotime
  op_CompletedAt :: "gotime option"
  op_Duration :: duration
  op_Status :: OperationStatus
  op_Result :: "json option"
  op_Error :: string

record Violation =
  vi_ID :: string
  vi_Type :: string
  vi_Description :: string
  vi_Operations :: "jepsen_Operation list"

record TestConfig =
  cf_Name :: string
  cf_Description :: string
  cf_WorkloadName :: string
  cf_NemesisName :: string
  cf_ConsistencyModel :: string
  cf_Duration :: duration
  cf_ClientCount :: int
  cf_CreatedBy :: string

record Test =
  tst_ID :: string
  tst_Name :: string
  tst_Description :: string
  tst_Config :: TestConfig
  tst_Status :: TestStatus
  tst_StartedAt :: gotime
  tst_CreatedBy :: string
  tst_ErrorMessage :: string
  tst_CompletedAt :: "gotime option"

record TestResult =
  rs_ID :: string
  rs_TestID :: string
  rs_Status :: ResultStatus
  rs_OperationCount :: int
  rs_StartedAt :: gotime
  rs_CompletedAt :: gotime
  rs_AnalysisStarted :: gotime
  rs_ViolationCount :: int
  rs_Violations :: "Violation list"
  rs_AnalysisCompleted :: "gotime option"

text \<open>An execution; \<open>te_Phase\<close> says where its goroutine is: before the initialization of the workload, waiting while the clients run, after the
  clients have stopped, before the update of the record, and with only the deferred removal from the map left.\<close>

datatype TestPhase = PhaseStarting | PhaseRunning | PhaseStopped | PhaseFinishing TestStatus string | PhaseFinished

record TestExecution =
  te_Test :: Test
  te_History :: "jepsen_Operation list"
  te_Clients :: "string list"
  te_NemesisName :: string
  te_WorkloadName :: string
  te_StartTime :: gotime
  te_Status :: TestStatus
  te_Phase :: TestPhase

datatype repo_call =
  CreateTest Test | UpdateTest Test | CreateResult TestResult | SaveHistory string "jepsen_Operation list" | UpdateResult TestResult

record Framework =
  fw_workloads :: "string list"
  fw_nemeses :: "string list"
  fw_MaxConcurrentTests :: int
  fw_runningTests :: "(string, TestExecution) gomap"
  fw_calls :: "repo_call list"

definition NewFramework :: "string list \<Rightarrow> string list \<Rightarrow> int \<Rightarrow> Framework" where
  "NewFramework ws ns maxTests = \<lparr>fw_workloads = ws, fw_nemeses = ns, fw_MaxConcurrentTests = maxTests, fw_runningTests = [], fw_calls = []\<rparr>"

definition call_repo :: "repo_call \<Rightarrow> Framework \<Rightarrow> Framework" where
  "call_repo c f = f\<lparr>fw_calls := fw_calls f @ [c]\<rparr>"

section \<open>Starting a test\<close>

definition new_test :: "string \<Rightarrow> gotime \<Rightarrow> TestConfig \<Rightarrow> Test" where
  "new_test uuid now cfg =
     \<lparr>tst_ID = uuid, tst_Name = cf_Name cfg, tst_Description = cf_Description cfg, tst_Config = cfg, tst_Status = TestStatusRunning,
      tst_StartedAt = now, tst_CreatedBy = cf_CreatedBy cfg, tst_ErrorMessage = '''', tst_CompletedAt = None\<rparr>"

definition new_execution :: "Test \<Rightarrow> gotime \<Rightarrow> TestConfig \<Rightarrow> TestExecution" where
  "new_execution test now cfg =
     \<lparr>te_Test = test, te_History = [], te_Clients = map (\<lambda>i. ''client-'' @ itoa i) [0..cf_ClientCount cfg - 1],
      te_NemesisName = cf_NemesisName cfg, te_WorkloadName = cf_WorkloadName cfg, te_StartTime = now,
      te_Status = TestStatusRunning, te_Phase = PhaseStarting\<rparr>"

text \<open>\<open>created\<close> is what \<open>CreateTest\<close> answers; the outer \<open>None\<close> is the panic of \<open>make\<close> with a negative length.\<close>

definition StartTest ::
  "string \<Rightarrow> gotime \<Rightarrow> gotime \<Rightarrow> goerror option \<Rightarrow> TestConfig \<Rightarrow> Framework \<Rightarrow> ((goerror + Test) \<times> Framework) option" where
  "StartTest uuid t1 t2 created cfg f =
     (if int (length (fw_runningTests f)) \<ge> fw_MaxConcurrentTests f
      then Some (Inl (''maximum concurrent tests reached: '' @ itoa (fw_MaxConcurrentTests f)), f)
      else let test = new_test uuid t1 cfg; f1 = call_repo (CreateTest test) f in
        case created of
          Some err \<Rightarrow> Some (Inl (''failed to create test record: '' @ err), f1)
        | None \<Rightarrow>
            if cf_WorkloadName cfg \<notin> set (fw_workloads f) then Some (Inl (''workload not found: '' @ cf_WorkloadName cfg), f1)
            else if cf_NemesisName cfg \<notin> set (fw_nemeses f) then Some (Inl (''nemesis not found: '' @ cf_NemesisName cfg), f1)
            else if cf_ClientCount cfg < 0 then None
            else Some (Inr test, f1\<lparr>fw_runningTests := go_set uuid (new_execution test t2 cfg) (fw_runningTests f1)\<rparr>))"

section \<open>Clients\<close>

definition jepsen_AddOperation :: "jepsen_Operation \<Rightarrow> TestExecution \<Rightarrow> TestExecution" where
  "jepsen_AddOperation op x = x\<lparr>te_History := te_History x @ [op]\<rparr>"

definition jepsen_GetOperations :: "TestExecution \<Rightarrow> jepsen_Operation list" where
  "jepsen_GetOperations x = te_History x"

text \<open>
  \<open>generated\<close> is the operation that the workload generates and \<open>answer\<close> what its execution gives; \<open>t0\<close>, \<open>start\<close> and \<open>t1\<close> are readings
  of the clock before, at the beginning and at the end of the execution.
\<close>

definition executeClientOperation ::
  "goerror + jepsen_Operation \<Rightarrow> gotime \<Rightarrow> gotime \<Rightarrow> gotime \<Rightarrow> json option \<times> goerror option \<Rightarrow> TestExecution \<Rightarrow> TestExecution" where
  "executeClientOperation generated t0 start t1 answer x =
     (case generated of
        Inl err \<Rightarrow> x
      | Inr op \<Rightarrow>
          let op1 = op\<lparr>op_InvokedAt := t0, op_Status := OperationStatusInvoked\<rparr>;
              op2 = op1\<lparr>op_CompletedAt := Some start, op_Duration := time_Sub t1 start, op_Result := fst answer\<rparr>
          in jepsen_AddOperation
               (case snd answer of
                  Some err \<Rightarrow> op2\<lparr>op_Status := OperationStatusFailed, op_Error := err\<rparr>
                | None \<Rightarrow> op2\<lparr>op_Status := OperationStatusCompleted\<rparr>) x)"

section \<open>Analysis\<close>

definition extractKey :: "jepsen_Operation \<Rightarrow> string" where
  "extractKey op = (case map_of (op_Data op) ''key'' of Some (JStr key) \<Rightarrow> key | _ \<Rightarrow> ''default'')"

text \<open>The loop that groups operations into a map of slices.\<close>

definition group_operations :: "(jepsen_Operation \<Rightarrow> string) \<Rightarrow> jepsen_Operation list \<Rightarrow> (string, jepsen_Operation list) gomap" where
  "group_operations key ops = fold (\<lambda>op m. go_set (key op) (go_get [] m (key op) @ [op]) m) ops []"

definition checkKeyLinearizability :: "string \<Rightarrow> jepsen_Operation list \<Rightarrow> Violation list" where
  "checkKeyLinearizability key ops = []"

definition hasValidSequentialOrdering :: "(string, jepsen_Operation list) gomap \<Rightarrow> bool" where
  "hasValidSequentialOrdering m = True"

definition extractFinalStates :: "jepsen_Operation list \<Rightarrow> jobject" where
  "extractFinalStates ops = []"

definition areStatesEventuallyConsistent :: "jobject \<Rightarrow> bool" where
  "areStatesEventuallyConsistent states = True"

definition checkLinearizability :: "jepsen_Operation list \<Rightarrow> Violation list" where
  "checkLinearizability ops = concat (map (\<lambda>(key, keyOps). checkKeyLinearizability key keyOps) (group_operations extractKey ops))"

definition checkSequentialConsistency :: "string \<Rightarrow> jepsen_Operation list \<Rightarrow> Violation list" where
  "checkSequentialConsistency uuid ops =
     (if \<not> hasValidSequentialOrdering (group_operations op_ClientID ops)
      then [\<lparr>vi_ID = uuid, vi_Type = ''sequential_consistency'', vi_Description = ''No valid sequential ordering found'', vi_Operations = ops\<rparr>]
      else [])"

definition checkEventualConsistency :: "string \<Rightarrow> jepsen_Operation list \<Rightarrow> Violation list" where
  "checkEventualConsistency uuid ops =
     (if \<not> areStatesEventuallyConsistent (extractFinalStates ops)
      then [\<lparr>vi_ID = uuid, vi_Type = ''eventual_consistency'', vi_Description = ''Final states are not eventually consistent'', vi_Operations = ops\<rparr>]
      else [])"

definition checkConsistency :: "string \<Rightarrow> jepsen_Operation list \<Rightarrow> string \<Rightarrow> Violation list" where
  "checkConsistency uuid ops consistencyModel =
     (if consistencyModel = ''linearizability'' then checkLinearizability ops
      else if consistencyModel = ''sequential'' then checkSequentialConsistency uuid ops
      else if consistencyModel = ''eventual'' then checkEventualConsistency uuid ops
      else [])"

text \<open>What one end of a test reads from outside: identifiers, the clock, and the answers of \<open>CreateResult\<close>.\<close>

record FinishCall =
  fc_resultID :: string
  fc_violationID :: string
  fc_completed :: gotime
  fc_analysisStarted :: gotime
  fc_analysisCompleted :: gotime
  fc_created :: "goerror option"

definition analyzeTestResults :: "FinishCall \<Rightarrow> TestExecution \<Rightarrow> Framework \<Rightarrow> Framework" where
  "analyzeTestResults c x f =
     (let operations = jepsen_GetOperations x;
          result = \<lparr>rs_ID = fc_resultID c, rs_TestID = tst_ID (te_Test x), rs_Status = ResultStatusAnalyzing,
            rs_OperationCount = int (length operations), rs_StartedAt = te_StartTime x, rs_CompletedAt = fc_completed c,
            rs_AnalysisStarted = fc_analysisStarted c, rs_ViolationCount = 0, rs_Violations = [], rs_AnalysisCompleted = None\<rparr>;
          f1 = call_repo (CreateResult result) f
      in case fc_created c of
           Some err \<Rightarrow> f1
         | None \<Rightarrow>
             let f2 = call_repo (SaveHistory (tst_ID (te_Test x)) operations) f1;
                 violations = checkConsistency (fc_violationID c) operations (cf_ConsistencyModel (tst_Config (te_Test x)))
             in call_repo (UpdateResult (result\<lparr>rs_Status := ResultStatusCompleted, rs_ViolationCount := int (length violations),
                  rs_Violations := violations, rs_AnalysisCompleted := Some (fc_analysisCompleted c)\<rparr>)) f2)"

text \<open>The record of the test is the one that the execution points to.\<close>

definition finishTest :: "gotime \<Rightarrow> TestStatus \<Rightarrow> string \<Rightarrow> TestExecution \<Rightarrow> Framework \<Rightarrow> TestExecution \<times> Framework" where
  "finishTest now status errorMessage x f =
     (let test = (te_Test x)\<lparr>tst_Status := status, tst_ErrorMessage := errorMessage, tst_CompletedAt := Some now\<rparr>
      in (x\<lparr>te_Status := status, te_Test := test\<rparr>, call_repo (UpdateTest test) f))"

section \<open>The goroutine of a test\<close>

text \<open>
  It initializes the workload, waits until the context is done and the clients have stopped, analyses the history, and updates the record of the
  test. The deferred function then removes the test from the map; other goroutines run between these steps.
\<close>

definition put_test :: "TestExecution \<Rightarrow> Framework \<Rightarrow> Framework" where
  "put_test x f = f\<lparr>fw_runningTests := go_set (tst_ID (te_Test x)) x (fw_runningTests f)\<rparr>"

definition executeTest_begin :: "goerror option \<Rightarrow> TestExecution \<Rightarrow> Framework \<Rightarrow> Framework" where
  "executeTest_begin initialized x f =
     put_test (x\<lparr>te_Phase := (case initialized of Some err \<Rightarrow> PhaseFinishing TestStatusFailed err | None \<Rightarrow> PhaseRunning)\<rparr>) f"

definition executeTest_wait :: "TestExecution \<Rightarrow> Framework \<Rightarrow> Framework" where
  "executeTest_wait x f = put_test (x\<lparr>te_Phase := PhaseStopped\<rparr>) f"

definition executeTest_analyze :: "FinishCall \<Rightarrow> TestExecution \<Rightarrow> Framework \<Rightarrow> Framework" where
  "executeTest_analyze c x f = put_test (x\<lparr>te_Phase := PhaseFinishing TestStatusCompleted ''''\<rparr>) (analyzeTestResults c x f)"

definition executeTest_end :: "gotime \<Rightarrow> TestStatus \<Rightarrow> string \<Rightarrow> TestExecution \<Rightarrow> Framework \<Rightarrow> Framework" where
  "executeTest_end now status errorMessage x f =
     (let (x', f') = finishTest now status errorMessage x f in put_test (x'\<lparr>te_Phase := PhaseFinished\<rparr>) f')"

definition remove_test :: "TestExecution \<Rightarrow> Framework \<Rightarrow> Framework" where
  "remove_test x f = f\<lparr>fw_runningTests := go_del (tst_ID (te_Test x)) (fw_runningTests f)\<rparr>"

text \<open>A new identifier of \<open>uuid.New\<close> is none that a record was created with, and the clock does not go back within a step.\<close>

definition created_ids :: "repo_call list \<Rightarrow> string list" where
  "created_ids cs = concat (map (\<lambda>c. case c of CreateTest t \<Rightarrow> [tst_ID t] | _ \<Rightarrow> []) cs)"

definition finished_ids :: "repo_call list \<Rightarrow> string list" where
  "finished_ids cs = concat (map (\<lambda>c. case c of UpdateTest t \<Rightarrow> [tst_ID t] | _ \<Rightarrow> []) cs)"

inductive jepsen_step :: "Framework \<Rightarrow> Framework \<Rightarrow> bool" where
  start: "uuid \<notin> set (created_ids (fw_calls f)) \<Longrightarrow> StartTest uuid t1 t2 created cfg f = Some (r, f') \<Longrightarrow> jepsen_step f f'"
| begin_test: "map_of (fw_runningTests f) i = Some x \<Longrightarrow> te_Phase x = PhaseStarting \<Longrightarrow> jepsen_step f (executeTest_begin initialized x f)"
| client: "map_of (fw_runningTests f) i = Some x \<Longrightarrow> te_Phase x = PhaseRunning \<Longrightarrow> te_Clients x \<noteq> [] \<Longrightarrow> t0 \<le> start \<Longrightarrow> start \<le> t1 \<Longrightarrow>
    jepsen_step f (put_test (executeClientOperation generated t0 start t1 answer x) f)"
| wait_test: "map_of (fw_runningTests f) i = Some x \<Longrightarrow> te_Phase x = PhaseRunning \<Longrightarrow> jepsen_step f (executeTest_wait x f)"
| analyze_test: "map_of (fw_runningTests f) i = Some x \<Longrightarrow> te_Phase x = PhaseStopped \<Longrightarrow> jepsen_step f (executeTest_analyze c x f)"
| end_test: "map_of (fw_runningTests f) i = Some x \<Longrightarrow> te_Phase x = PhaseFinishing status msg \<Longrightarrow>
    jepsen_step f (executeTest_end now status msg x f)"
| remove: "map_of (fw_runningTests f) i = Some x \<Longrightarrow> te_Phase x = PhaseFinished \<Longrightarrow> jepsen_step f (remove_test x f)"

section \<open>Grouping of histories\<close>

lemma map_of_group_fold:
  "map_of (fold (\<lambda>op m. go_set (key op) (go_get [] m (key op) @ [op]) m) ops m) k =
     (case filter (\<lambda>op. key op = k) ops of
        [] \<Rightarrow> map_of m k
      | xs \<Rightarrow> Some (go_get [] m k @ xs))"
  by (induction ops arbitrary: m) (auto simp: go_map_simps split: list.splits)

lemma map_of_group_operations:
  "map_of (group_operations key ops) k =
     (if \<exists>op\<in>set ops. key op = k then Some (filter (\<lambda>op. key op = k) ops) else None)"
proof (cases "filter (\<lambda>op. key op = k) ops")
  case Nil
  then show ?thesis by (auto simp: group_operations_def map_of_group_fold filter_empty_conv)
next
  case (Cons op xs)
  then have "op \<in> set (filter (\<lambda>op. key op = k) ops)" by simp
  then have "\<exists>op\<in>set ops. key op = k" by auto
  with Cons show ?thesis by (simp add: group_operations_def map_of_group_fold)
qed

lemma checkConsistency_empty: "checkConsistency uuid ops cm = []"
  by (simp add: checkConsistency_def checkLinearizability_def checkSequentialConsistency_def checkEventualConsistency_def
      checkKeyLinearizability_def hasValidSequentialOrdering_def areStatesEventuallyConsistent_def split: prod.splits)

section \<open>The invariant of the framework\<close>

definition recorded_operation :: "jepsen_Operation \<Rightarrow> bool" where
  "recorded_operation op \<longleftrightarrow> op_Status op \<noteq> OperationStatusInvoked \<and>
     (case op_CompletedAt op of Some s \<Rightarrow> op_InvokedAt op \<le> s | None \<Rightarrow> False) \<and> 0 \<le> op_Duration op"

fun call_ok :: "repo_call \<Rightarrow> bool" where
  "call_ok (CreateTest t) = (tst_Status t = TestStatusRunning)"
| "call_ok (UpdateTest t) = (tst_Status t \<noteq> TestStatusRunning \<and> tst_CompletedAt t \<noteq> None)"
| "call_ok (CreateResult r) = (rs_Violations r = [])"
| "call_ok (SaveHistory i ops) = list_all recorded_operation ops"
| "call_ok (UpdateResult r) = (rs_Violations r = [] \<and> rs_ViolationCount r = 0)"

definition exec_ok :: "repo_call list \<Rightarrow> string \<Rightarrow> TestExecution \<Rightarrow> bool" where
  "exec_ok cs i x \<longleftrightarrow>
     tst_ID (te_Test x) = i \<and> list_all recorded_operation (te_History x) \<and> i \<in> set (created_ids cs) \<and>
     (i \<in> set (finished_ids cs) \<longleftrightarrow> te_Phase x = PhaseFinished) \<and>
     (case te_Phase x of PhaseFinishing status msg \<Rightarrow> status \<noteq> TestStatusRunning | _ \<Rightarrow> True)"

definition framework_ok :: "Framework \<Rightarrow> bool" where
  "framework_ok f \<longleftrightarrow>
     go_wf (fw_runningTests f) \<and>
     int (length (fw_runningTests f)) \<le> max 0 (fw_MaxConcurrentTests f) \<and>
     (\<forall>i x. map_of (fw_runningTests f) i = Some x \<longrightarrow> exec_ok (fw_calls f) i x) \<and>
     list_all call_ok (fw_calls f) \<and>
     distinct (created_ids (fw_calls f)) \<and> distinct (finished_ids (fw_calls f)) \<and>
     set (finished_ids (fw_calls f)) \<subseteq> set (created_ids (fw_calls f))"

lemma ids_append [simp]:
  "created_ids (cs @ ds) = created_ids cs @ created_ids ds" "finished_ids (cs @ ds) = finished_ids cs @ finished_ids ds"
  by (simp_all add: created_ids_def finished_ids_def)

lemma ids_Cons [simp]:
  "created_ids (c # cs) = (case c of CreateTest t \<Rightarrow> [tst_ID t] | _ \<Rightarrow> []) @ created_ids cs"
  "finished_ids (c # cs) = (case c of UpdateTest t \<Rightarrow> [tst_ID t] | _ \<Rightarrow> []) @ finished_ids cs"
  "created_ids [] = []" "finished_ids [] = []"
  by (simp_all add: created_ids_def finished_ids_def)

lemma call_repo_simps [simp]:
  "fw_runningTests (call_repo c f) = fw_runningTests f" "fw_MaxConcurrentTests (call_repo c f) = fw_MaxConcurrentTests f"
  "fw_calls (call_repo c f) = fw_calls f @ [c]"
  by (simp_all add: call_repo_def)

lemma go_set_at: "i \<in> fst ` set m \<Longrightarrow> length (go_set i v m) = length m \<and> fst ` set (go_set i v m) = fst ` set m"
  by (induction m) (auto simp: go_set_def image_iff)

lemma go_del_length: "length (go_del i m) \<le> length m"
  by (simp add: go_del_def AList.length_delete_le)

lemma go_del_keys: "fst ` set (go_del i m) = fst ` set m - {i}" "set (go_del i m) \<subseteq> set m"
  by (auto simp: go_del_def AList.delete_eq)

lemma analyzeTestResults_frame:
  "fw_runningTests (analyzeTestResults c x f) = fw_runningTests f"
  "fw_MaxConcurrentTests (analyzeTestResults c x f) = fw_MaxConcurrentTests f"
  "created_ids (fw_calls (analyzeTestResults c x f)) = created_ids (fw_calls f)"
  "finished_ids (fw_calls (analyzeTestResults c x f)) = finished_ids (fw_calls f)"
  by (simp_all add: analyzeTestResults_def Let_def split: option.splits)

lemma analyzeTestResults_calls:
  assumes "list_all call_ok (fw_calls f)" "list_all recorded_operation (te_History x)"
  shows "list_all call_ok (fw_calls (analyzeTestResults c x f))"
  using assms by (simp add: analyzeTestResults_def Let_def checkConsistency_empty jepsen_GetOperations_def split: option.splits)

lemma running_ok:
  assumes ok: "framework_ok f" and x: "map_of (fw_runningTests f) i = Some x"
  shows "exec_ok (fw_calls f) i x" "tst_ID (te_Test x) = i" "list_all recorded_operation (te_History x)"
proof -
  show "exec_ok (fw_calls f) i x" using ok x by (simp add: framework_ok_def)
  then show "tst_ID (te_Test x) = i" "list_all recorded_operation (te_History x)" by (simp_all add: exec_ok_def)
qed

text \<open>An execution changed in place.\<close>

lemma framework_ok_update:
  assumes ok: "framework_ok f" and x: "map_of (fw_runningTests f) i = Some x" and y: "exec_ok (fw_calls f) i y"
  shows "framework_ok (put_test y f)"
proof -
  have i: "i \<in> fst ` set (fw_runningTests f)" using x by (metis map_of_eq_None_iff option.distinct(1))
  have "tst_ID (te_Test y) = i" using y by (simp add: exec_ok_def)
  then show ?thesis
    using ok go_set_at [OF i, of y] y by (simp add: framework_ok_def put_test_def go_map_simps)
qed

text \<open>The update of the record.\<close>

lemma framework_ok_finish:
  assumes ok: "framework_ok f" and x: "map_of (fw_runningTests f) i = Some x" and ph: "te_Phase x = PhaseFinishing status msg"
  shows "framework_ok (executeTest_end now status msg x f)"
proof -
  note R = running_ok [OF ok x]
  let ?t = "(te_Test x)\<lparr>tst_Status := status, tst_ErrorMessage := msg, tst_CompletedAt := Some now\<rparr>"
  let ?y = "x\<lparr>te_Status := status, te_Test := ?t, te_Phase := PhaseFinished\<rparr>" and ?f = "call_repo (UpdateTest ?t) f"
  have i: "i \<in> fst ` set (fw_runningTests f)" using x by (metis map_of_eq_None_iff option.distinct(1))
  have st: "status \<noteq> TestStatusRunning" "i \<notin> set (finished_ids (fw_calls f))" "i \<in> set (created_ids (fw_calls f))"
    using R(1) ph by (simp_all add: exec_ok_def)
  have others: "exec_ok (fw_calls ?f) j z" if "map_of (go_set i ?y (fw_runningTests f)) j = Some z" for j z
    using that running_ok(1) [OF ok, of j z] R st by (auto simp: exec_ok_def go_map_simps split: if_splits)
  have "executeTest_end now status msg x f = f\<lparr>fw_runningTests := go_set i ?y (fw_runningTests f), fw_calls := fw_calls f @ [UpdateTest ?t]\<rparr>"
    using R(2) by (simp add: executeTest_end_def finishTest_def put_test_def call_repo_def Let_def)
  then show ?thesis
    using ok others go_set_at [OF i, of ?y] st R(2) by (simp add: framework_ok_def)
qed

text \<open>The removal from the map.\<close>

lemma framework_ok_remove: "framework_ok f \<Longrightarrow> framework_ok (remove_test x f)"
  using go_del_length [of "tst_ID (te_Test x)" "fw_runningTests f"]
  by (auto simp: framework_ok_def remove_test_def go_map_simps split: if_splits)

lemma framework_ok_analyze:
  assumes "framework_ok f" "map_of (fw_runningTests f) i = Some x"
  shows "framework_ok (analyzeTestResults c x f)"
  using assms(1) running_ok [OF assms] analyzeTestResults_calls [of f x c]
  by (auto simp: framework_ok_def analyzeTestResults_frame exec_ok_def)

lemma framework_ok_create:
  assumes "framework_ok f" "tst_ID t \<notin> set (created_ids (fw_calls f))" "tst_Status t = TestStatusRunning"
  shows "framework_ok (call_repo (CreateTest t) f)"
  using assms by (auto simp: framework_ok_def exec_ok_def)

lemma framework_ok_insert:
  assumes "framework_ok f" "exec_ok (fw_calls f) i x" "i \<notin> fst ` set (fw_runningTests f)"
    "int (length (fw_runningTests f)) < fw_MaxConcurrentTests f"
  shows "framework_ok (f\<lparr>fw_runningTests := go_set i x (fw_runningTests f)\<rparr>)"
  using assms by (auto simp: framework_ok_def go_set_fresh go_wf_def split: if_splits)

lemma StartTest_state:
  assumes "StartTest uuid t1 t2 created cfg f = Some (r, f')"
  obtains "f' = f" | "f' = call_repo (CreateTest (new_test uuid t1 cfg)) f"
  | "int (length (fw_runningTests f)) < fw_MaxConcurrentTests f"
    "f' = (call_repo (CreateTest (new_test uuid t1 cfg)) f)
       \<lparr>fw_runningTests := go_set uuid (new_execution (new_test uuid t1 cfg) t2 cfg) (fw_runningTests f)\<rparr>"
proof (cases "fw_MaxConcurrentTests f \<le> int (length (fw_runningTests f))")
  case True
  then show ?thesis using assms that(1) by (simp add: StartTest_def)
next
  case False
  then show ?thesis using assms that(2,3) by (simp add: StartTest_def Let_def split: if_split_asm option.split_asm)
qed

lemma running_is_created:
  assumes "framework_ok f" "i \<in> fst ` set (fw_runningTests f)"
  shows "i \<in> set (created_ids (fw_calls f))"
proof -
  obtain x where "map_of (fw_runningTests f) i = Some x" using assms(2) by (metis map_of_eq_None_iff not_None_eq)
  then show ?thesis using running_ok(1) [OF assms(1)] by (simp add: exec_ok_def)
qed

lemma framework_ok_start:
  assumes ok: "framework_ok f" and new: "uuid \<notin> set (created_ids (fw_calls f))"
    and r: "StartTest uuid t1 t2 created cfg f = Some (r, f')"
  shows "framework_ok f'"
proof -
  have fresh: "uuid \<notin> fst ` set (fw_runningTests f)" "uuid \<notin> set (finished_ids (fw_calls f))"
    using ok new running_is_created by (auto simp: framework_ok_def)
  have created: "framework_ok (call_repo (CreateTest (new_test uuid t1 cfg)) f)"
    by (rule framework_ok_create [OF ok]) (simp_all add: new_test_def new)
  from r show ?thesis
  proof (cases rule: StartTest_state)
    case 3
    then show ?thesis
      using framework_ok_insert [OF created, of uuid "new_execution (new_test uuid t1 cfg) t2 cfg"] fresh
      by (simp add: new_test_def new_execution_def exec_ok_def)
  qed (simp_all add: ok created)
qed

lemma executeClientOperation_keeps [simp]:
  "te_Test (executeClientOperation generated t0 start t1 answer x) = te_Test x"
  "te_Phase (executeClientOperation generated t0 start t1 answer x) = te_Phase x"
  by (simp_all add: executeClientOperation_def jepsen_AddOperation_def Let_def split: sum.splits)

lemma executeClientOperation_ok:
  assumes "list_all recorded_operation (te_History x)" "t0 \<le> start" "start \<le> t1"
  shows "list_all recorded_operation (te_History (executeClientOperation generated t0 start t1 answer x))"
  using assms by (simp add: executeClientOperation_def jepsen_AddOperation_def recorded_operation_def Let_def time_Sub_def
      split: sum.splits option.splits)

lemma framework_ok_step:
  assumes "jepsen_step f f'" "framework_ok f"
  shows "framework_ok f'"
  using assms
proof (induction rule: jepsen_step.induct)
  case (start uuid f t1 t2 created cfg r f')
  then show ?case by (blast intro: framework_ok_start)
next
  case (begin_test f i x initialized)
  show ?case
    unfolding executeTest_begin_def
    by (rule framework_ok_update [OF begin_test(3,1)])
      (use running_ok(1) [OF begin_test(3,1)] begin_test(2) in \<open>auto simp: exec_ok_def split: option.splits\<close>)
next
  case (client f i x t0 start t1 generated answer)
  show ?case
    by (rule framework_ok_update [OF client(6,1)])
      (use running_ok(1) [OF client(6,1)] in \<open>simp add: exec_ok_def executeClientOperation_ok client\<close>)
next
  case (wait_test f i x)
  show ?case
    unfolding executeTest_wait_def
    by (rule framework_ok_update [OF wait_test(3,1)]) (use running_ok(1) [OF wait_test(3,1)] wait_test(2) in \<open>simp add: exec_ok_def\<close>)
next
  case (analyze_test f i x c)
  have x: "map_of (fw_runningTests (analyzeTestResults c x f)) i = Some x"
    using analyze_test by (simp add: analyzeTestResults_frame)
  show ?case
    unfolding executeTest_analyze_def
    by (rule framework_ok_update [OF framework_ok_analyze [OF analyze_test(3,1)] x])
      (use running_ok(1) [OF analyze_test(3,1)] analyze_test(2) in \<open>simp add: exec_ok_def analyzeTestResults_frame\<close>)
next
  case (end_test f i x status msg now)
  then show ?case by (blast intro: framework_ok_finish)
next
  case (remove f i x)
  then show ?case by (blast intro: framework_ok_remove)
qed

interpretation jepsen: transition_system "\<lambda>_::unit. jepsen_step" framework_ok
  by unfold_locales (rule framework_ok_step)

lemma framework_ok_new: "framework_ok (NewFramework ws ns k)"
  by (simp add: framework_ok_def NewFramework_def go_wf_def)

section \<open>Records without an end\<close>

text \<open>A record that was created and neither runs nor was updated stays so.\<close>

definition abandoned :: "string \<Rightarrow> Framework \<Rightarrow> bool" where
  "abandoned i f \<longleftrightarrow> framework_ok f \<and> i \<in> set (created_ids (fw_calls f)) \<and> i \<notin> set (finished_ids (fw_calls f)) \<and>
     map_of (fw_runningTests f) i = None"

lemma abandoned_step:
  assumes "jepsen_step f f'" "abandoned i f"
  shows "abandoned i f'"
proof -
  from assms have "framework_ok f'" by (auto simp: abandoned_def intro: framework_ok_step)
  with assms(1) show ?thesis using assms(2)
  proof (induction rule: jepsen_step.induct)
    case (start uuid f t1 t2 created cfg r f')
    then have "uuid \<noteq> i" by (auto simp: abandoned_def)
    from start(2) show ?case
      using start(3,4) \<open>uuid \<noteq> i\<close> by (cases rule: StartTest_state) (auto simp: abandoned_def go_map_simps)
  next
    case (begin_test f j x initialized)
    then have "j \<noteq> i" "tst_ID (te_Test x) = j" using running_ok(2) [of f j x] by (auto simp: abandoned_def)
    then show ?case using begin_test
      by (auto simp: abandoned_def executeTest_begin_def put_test_def go_map_simps)
  next
    case (client f j x t0 start t1 generated answer)
    then have "j \<noteq> i" "tst_ID (te_Test x) = j" using running_ok(2) [of f j x] by (auto simp: abandoned_def)
    then show ?case using client
      by (auto simp: abandoned_def put_test_def go_map_simps executeClientOperation_ok)
  next
    case (wait_test f j x)
    then have "j \<noteq> i" "tst_ID (te_Test x) = j" using running_ok(2) [of f j x] by (auto simp: abandoned_def)
    then show ?case using wait_test by (auto simp: abandoned_def executeTest_wait_def put_test_def go_map_simps)
  next
    case (analyze_test f j x c)
    then have "j \<noteq> i" "tst_ID (te_Test x) = j" using running_ok(2) [of f j x] by (auto simp: abandoned_def)
    then show ?case using analyze_test
      by (auto simp: abandoned_def executeTest_analyze_def put_test_def analyzeTestResults_frame go_map_simps)
  next
    case (end_test f j x status msg now)
    then have "j \<noteq> i" "tst_ID (te_Test x) = j" using running_ok(2) [of f j x] by (auto simp: abandoned_def)
    then show ?case using end_test
      by (auto simp: abandoned_def executeTest_end_def put_test_def finishTest_def Let_def go_map_simps)
  next
    case (remove f j x)
    then show ?case by (auto simp: abandoned_def remove_test_def go_map_simps)
  qed
qed

interpretation abandoned: transition_system "\<lambda>_::unit. jepsen_step" "abandoned i"
  by unfold_locales (rule abandoned_step)

section \<open>Properties\<close>

text \<open>
  C30: However its tests and clients interleave, a framework runs no more tests than configured, has a record for every test that
  runs, and finishes each record at most once, with a status other than running. A test in the map has a finished record only when its
  goroutine has nothing left to do but to remove it, and always then. Every saved history holds only operations that ended. None of
  the results it stores has a violation: the checkers of all the models are stubs.
\<close>

theorem jepsen_tests_recorded:
  assumes "jepsen_step\<^sup>*\<^sup>* (NewFramework ws ns k) f"
  shows "int (length (fw_runningTests f)) \<le> max 0 (fw_MaxConcurrentTests f) \<and>
    (\<forall>i x. map_of (fw_runningTests f) i = Some x \<longrightarrow>
       i \<in> set (created_ids (fw_calls f)) \<and> (i \<in> set (finished_ids (fw_calls f)) \<longleftrightarrow> te_Phase x = PhaseFinished)) \<and>
    distinct (created_ids (fw_calls f)) \<and> distinct (finished_ids (fw_calls f)) \<and>
    set (finished_ids (fw_calls f)) \<subseteq> set (created_ids (fw_calls f)) \<and> list_all call_ok (fw_calls f)"
  using jepsen.ainv_run [OF assms framework_ok_new] by (simp add: framework_ok_def exec_ok_def)

text \<open>
  a test of a workload that does not exist is refused only after its record was saved as running, and no later step of the
  framework ever finishes that record.
\<close>

theorem refused_test_stays_running:
  assumes "jepsen_step\<^sup>*\<^sup>* (NewFramework ws ns k) f" "int (length (fw_runningTests f)) < fw_MaxConcurrentTests f"
    and "uuid \<notin> set (created_ids (fw_calls f))" "cf_WorkloadName cfg \<notin> set (fw_workloads f)"
  shows "\<exists>f'. StartTest uuid t1 t2 None cfg f = Some (Inl (''workload not found: '' @ cf_WorkloadName cfg), f') \<and>
    (\<forall>g. jepsen_step\<^sup>*\<^sup>* f' g \<longrightarrow> CreateTest (new_test uuid t1 cfg) \<in> set (fw_calls f') \<and> uuid \<notin> set (finished_ids (fw_calls g)))"
proof -
  let ?f = "call_repo (CreateTest (new_test uuid t1 cfg)) f"
  have ok: "framework_ok f" by (rule jepsen.ainv_run [OF assms(1) framework_ok_new])
  have "StartTest uuid t1 t2 None cfg f = Some (Inl (''workload not found: '' @ cf_WorkloadName cfg), ?f)"
    using assms(2,4) by (simp add: StartTest_def Let_def)
  moreover have "uuid \<notin> fst ` set (fw_runningTests f)" "uuid \<notin> set (finished_ids (fw_calls f))"
    using ok assms(3) running_is_created [OF ok] by (auto simp: framework_ok_def)
  then have "abandoned uuid ?f" using framework_ok_create [OF ok, of "new_test uuid t1 cfg"] assms(3)
    by (simp add: abandoned_def new_test_def map_of_eq_None_iff)
  then have "\<forall>g. jepsen_step\<^sup>*\<^sup>* ?f g \<longrightarrow> uuid \<notin> set (finished_ids (fw_calls g))"
    using abandoned.ainv_run unfolding abandoned_def by blast
  ultimately show ?thesis by (intro exI [of _ ?f]) simp
qed

text \<open>
  the linearizability check sees, for every key, exactly the operations on that key in the order of the history; a test over
  no operation of a key has no group for it.
\<close>

theorem histories_grouped_by_key:
  "map_of (group_operations extractKey ops) k =
     (if k \<in> extractKey ` set ops then Some (filter (\<lambda>op. extractKey op = k) ops) else None)"
  by (auto simp: map_of_group_operations)

section \<open>Witnesses\<close>

definition counter_cfg :: TestConfig where
  "counter_cfg = \<lparr>cf_Name = ''t'', cf_Description = '''', cf_WorkloadName = ''bank'', cf_NemesisName = ''kill'',
     cf_ConsistencyModel = ''sequential'', cf_Duration = 60, cf_ClientCount = 1, cf_CreatedBy = ''me''\<rparr>"

definition sample_finish :: FinishCall where
  "sample_finish = \<lparr>fc_resultID = ''r'', fc_violationID = ''v'', fc_completed = 9, fc_analysisStarted = 9, fc_analysisCompleted = 10,
     fc_created = None\<rparr>"

definition sample_op :: jepsen_Operation where
  "sample_op = \<lparr>op_Type = ''read'', op_Data = [(''key'', JStr ''a'')], op_ClientID = ''client-0'', op_InvokedAt = 0, op_CompletedAt = None,
     op_Duration = 0, op_Status = OperationStatusInvoked, op_Result = None, op_Error = ''''\<rparr>"

text \<open>A test that is started, initialized, runs one operation and ends.\<close>

definition started_fw :: Framework where
  "started_fw = (case StartTest ''u'' 1 2 None counter_cfg (NewFramework [''bank''] [''kill''] 2) of Some (_, f) \<Rightarrow> f)"

definition the_test :: "Framework \<Rightarrow> TestExecution" where
  "the_test f = snd (hd (fw_runningTests f))"

definition initialized_fw :: Framework where
  "initialized_fw = executeTest_begin None (the_test started_fw) started_fw"

definition operated_fw :: Framework where
  "operated_fw = put_test (executeClientOperation (Inr sample_op) 4 5 7 (None, None) (the_test initialized_fw)) initialized_fw"

definition stopped_fw :: Framework where
  "stopped_fw = executeTest_wait (the_test operated_fw) operated_fw"

definition analyzed_fw :: Framework where
  "analyzed_fw = executeTest_analyze sample_finish (the_test stopped_fw) stopped_fw"

definition finished_fw :: Framework where
  "finished_fw = executeTest_end 11 TestStatusCompleted '''' (the_test analyzed_fw) analyzed_fw"

definition ended_fw :: Framework where
  "ended_fw = remove_test (the_test finished_fw) finished_fw"

lemma sample_run: "jepsen_step\<^sup>*\<^sup>* (NewFramework [''bank''] [''kill''] 2) ended_fw"
proof -
  have "jepsen_step (NewFramework [''bank''] [''kill''] 2) started_fw"
    by (rule jepsen_step.start [of "''u''" _ 1 2 None counter_cfg "Inr (new_test ''u'' 1 counter_cfg)"]) code_simp+
  moreover have "jepsen_step started_fw initialized_fw"
    unfolding initialized_fw_def by (rule jepsen_step.begin_test [of _ "''u''"]) code_simp+
  moreover have "jepsen_step initialized_fw operated_fw"
    unfolding operated_fw_def by (rule jepsen_step.client [of _ "''u''"]) code_simp+
  moreover have "jepsen_step operated_fw stopped_fw"
    unfolding stopped_fw_def by (rule jepsen_step.wait_test [of _ "''u''"]) code_simp+
  moreover have "jepsen_step stopped_fw analyzed_fw"
    unfolding analyzed_fw_def by (rule jepsen_step.analyze_test [of _ "''u''"]) code_simp+
  moreover have "jepsen_step analyzed_fw finished_fw"
    unfolding finished_fw_def by (rule jepsen_step.end_test [of _ "''u''"]) code_simp+
  moreover have "jepsen_step finished_fw ended_fw"
    unfolding ended_fw_def by (rule jepsen_step.remove [of _ "''u''"]) code_simp+
  ultimately show ?thesis by (meson converse_rtranclp_into_rtranclp rtranclp.rtrancl_refl)
qed

theorem jepsen_tests_recorded_witness:
  "length (fw_calls ended_fw) = 5 \<and> finished_ids (fw_calls ended_fw) = [''u''] \<and> fw_runningTests ended_fw = [] \<and>
   list_all call_ok (fw_calls ended_fw)"
proof -
  have "list_all call_ok (fw_calls ended_fw)" using jepsen_tests_recorded [OF sample_run] by blast
  moreover have "length (fw_calls ended_fw) = 5" "finished_ids (fw_calls ended_fw) = [''u'']" "fw_runningTests ended_fw = []"
    by code_simp+
  ultimately show ?thesis by blast
qed

theorem refused_test_stays_running_witness:
  "\<exists>f'. StartTest ''w'' 12 12 None (counter_cfg\<lparr>cf_WorkloadName := ''none''\<rparr>) ended_fw = Some (Inl ''workload not found: none'', f') \<and>
     ''w'' \<notin> set (finished_ids (fw_calls f'))"
proof -
  have "int (length (fw_runningTests ended_fw)) < fw_MaxConcurrentTests ended_fw" by code_simp
  moreover have "''w'' \<notin> set (created_ids (fw_calls ended_fw))" by code_simp
  moreover have "cf_WorkloadName (counter_cfg\<lparr>cf_WorkloadName := ''none''\<rparr>) \<notin> set (fw_workloads ended_fw)" by code_simp
  ultimately show ?thesis using refused_test_stays_running [OF sample_run, of "''w''" "counter_cfg\<lparr>cf_WorkloadName := ''none''\<rparr>" 12 12]
    by fastforce
qed

end
