(* ===== verification/Backup_Manager.thy ===== *)
theory Backup_Manager
  imports Go_Env
begin

text \<open>
  The backup manager of the disaster recovery service, \<open>services/disaster-recovery/internal/backup/manager.go\<close>: backups, restores,
  verification and the removal of old backups. The repository of records and the object storage are not in the repository; their
  calls are the parameter \<open>BackupOps\<close> on a world \<open>'w\<close>, and \<open>storage_laws\<close> says what the manager relies on. The goroutine of a backup
  or a restore runs as a whole. Logging and metrics are left out. The calls of \<open>pg_dump\<close> and \<open>pg_restore\<close>, compression and encryption are
  stubs of the source; a restore returns the data that \<open>executePgRestore\<close> was given.

  The lemmas show what a backup uploads and records in every case, that a completed backup can be restored, and what the removal
  of old backups deletes.
\<close>

section \<open>Data\<close>

datatype BackupType = BackupTypeFull | BackupTypeOther string

datatype BackupStatus = BackupStatusInProgress | BackupStatusCompleted | BackupStatusFailed

datatype RestoreStatus = RestoreStatusInProgress | RestoreStatusCompleted | RestoreStatusFailed

datatype VerificationStatus = VerificationStatusInProgress | VerificationStatusPassed | VerificationStatusFailed

record BackupConfig =
  bg_ScheduleInterval :: duration
  bg_RetentionDays :: int
  bg_CompressionEnabled :: bool
  bg_EncryptionEnabled :: bool
  bg_EncryptionKey :: string
  bg_MaxConcurrentBackups :: int
  bg_BackupTimeout :: duration
  bg_S3Bucket :: string
  bg_S3Prefix :: string

record Backup =
  bk_ID :: string
  bk_Type :: BackupType
  bk_Status :: BackupStatus
  bk_Databases :: "string list"
  bk_StartedAt :: gotime
  bk_CompletedAt :: "gotime option"
  bk_CreatedBy :: string
  bk_Compressed :: bool
  bk_Encrypted :: bool
  bk_Size :: int
  bk_BackupPaths :: "string list"
  bk_ErrorMessage :: string

record Restore =
  rt_ID :: string
  rt_BackupID :: string
  rt_TargetDatabase :: string
  rt_Status :: RestoreStatus
  rt_StartedAt :: gotime
  rt_CompletedAt :: "gotime option"
  rt_CreatedBy :: string
  rt_ErrorMessage :: string

record BackupVerification =
  vr_ID :: string
  vr_BackupID :: string
  vr_Status :: VerificationStatus
  vr_StartedAt :: gotime
  vr_CompletedAt :: "gotime option"
  vr_Issues :: "string list"

record 'w BackupOps =
  bo_CreateBackup :: "Backup \<Rightarrow> 'w \<Rightarrow> goerror option \<times> 'w"
  bo_UpdateBackup :: "Backup \<Rightarrow> 'w \<Rightarrow> goerror option \<times> 'w"
  bo_GetBackup :: "string \<Rightarrow> 'w \<Rightarrow> goerror + Backup"
  bo_DeleteBackup :: "string \<Rightarrow> 'w \<Rightarrow> goerror option \<times> 'w"
  bo_GetBackupsOlderThan :: "gotime \<Rightarrow> 'w \<Rightarrow> goerror + Backup list"
  bo_CreateRestore :: "Restore \<Rightarrow> 'w \<Rightarrow> goerror option \<times> 'w"
  bo_UpdateRestore :: "Restore \<Rightarrow> 'w \<Rightarrow> goerror option \<times> 'w"
  bo_Upload :: "string \<Rightarrow> string \<Rightarrow> 'w \<Rightarrow> goerror option \<times> 'w"
  bo_Download :: "string \<Rightarrow> 'w \<Rightarrow> goerror + string"
  bo_Delete :: "string \<Rightarrow> 'w \<Rightarrow> goerror option \<times> 'w"
  bo_StatusText :: "BackupStatus \<Rightarrow> string"

section \<open>Paths\<close>

text \<open>\<open>filepath.Clean\<close> and \<open>filepath.Join\<close> on Unix: the elements are walked from the left, with the cleaned ones reversed.\<close>

fun clean_parts :: "bool \<Rightarrow> string list \<Rightarrow> string list \<Rightarrow> string list" where
  "clean_parts rooted acc [] = rev acc"
| "clean_parts rooted acc (p # ps) =
     (if p = '''' \<or> p = ''.'' then clean_parts rooted acc ps
      else if p = ''..'' then
        (case acc of
           [] \<Rightarrow> clean_parts rooted (if rooted then [] else [''..'']) ps
         | q # qs \<Rightarrow> if q = ''..'' then clean_parts rooted (p # acc) ps else clean_parts rooted qs ps)
      else clean_parts rooted (p # acc) ps)"

definition filepath_Clean :: "string \<Rightarrow> string" where
  "filepath_Clean s =
     (let rooted = (case s of c # _ \<Rightarrow> c = CHR ''/'' | [] \<Rightarrow> False);
          out = (if rooted then ''/'' else '''') @ strings_Join CHR ''/'' (clean_parts rooted [] (strings_Split CHR ''/'' s))
      in if out = '''' then ''.'' else out)"

definition filepath_Join :: "string list \<Rightarrow> string" where
  "filepath_Join es =
     (case filter (\<lambda>e. e \<noteq> '''') es of [] \<Rightarrow> '''' | xs \<Rightarrow> filepath_Clean (strings_Join CHR ''/'' xs))"

section \<open>Stubs\<close>

definition buildPgDumpCommand :: "string \<Rightarrow> string \<Rightarrow> string list" where
  "buildPgDumpCommand database filename =
     [''pg_dump'', ''-h'', ''postgres-primary'', ''-U'', ''postgres'', ''-d'', database, ''-f'', filename]"

definition executePgDump :: "string list \<Rightarrow> goerror + string" where
  "executePgDump cmd = Inr ''-- PostgreSQL dump data''"

definition executePgRestore :: "string \<Rightarrow> string \<Rightarrow> goerror option" where
  "executePgRestore data database = None"

definition compressData :: "string \<Rightarrow> goerror + string" where
  "compressData data = Inr data"

definition decompressData :: "string \<Rightarrow> goerror + string" where
  "decompressData data = Inr data"

definition encryptData :: "string \<Rightarrow> goerror + string" where
  "encryptData data = Inr data"

definition decryptData :: "string \<Rightarrow> goerror + string" where
  "decryptData data = Inr data"

definition verifyBackupPath :: "string \<Rightarrow> Backup \<Rightarrow> goerror option" where
  "verifyBackupPath backupPath backup = None"

section \<open>Backups\<close>

text \<open>An optional step of the data on its way, whose error is reported with a prefix.\<close>

definition data_step :: "bool \<Rightarrow> string \<Rightarrow> (string \<Rightarrow> goerror + string) \<Rightarrow> string \<Rightarrow> goerror + string" where
  "data_step enabled what f data =
     (if enabled then (case f data of Inl err \<Rightarrow> Inl (what @ '' failed: '' @ err) | Inr d \<Rightarrow> Inr d) else Inr data)"

definition backup_filename :: "BackupConfig \<Rightarrow> string \<Rightarrow> string \<Rightarrow> string \<Rightarrow> string" where
  "backup_filename cfg backupID database timestamp =
     database @ ''_'' @ backupID @ ''_'' @ timestamp @ ''.sql'' @ (if bg_CompressionEnabled cfg then ''.gz'' else '''')"

definition backup_path :: "BackupConfig \<Rightarrow> string \<Rightarrow> string \<Rightarrow> string \<Rightarrow> string" where
  "backup_path cfg backupID database timestamp =
     filepath_Join [bg_S3Prefix cfg, ''databases'', backup_filename cfg backupID database timestamp]"

definition backup_data :: "BackupConfig \<Rightarrow> string list \<Rightarrow> goerror + string" where
  "backup_data cfg dumpCmd =
     (case executePgDump dumpCmd of
        Inl err \<Rightarrow> Inl (''pg_dump failed: '' @ err)
      | Inr d \<Rightarrow>
          (case data_step (bg_CompressionEnabled cfg) ''compression'' compressData d of
             Inl err \<Rightarrow> Inl err
           | Inr d' \<Rightarrow> data_step (bg_EncryptionEnabled cfg) ''encryption'' encryptData d'))"

text \<open>\<open>timestamp\<close> is the text of the time of the call.\<close>

definition backupDatabase ::
  "'w BackupOps \<Rightarrow> BackupConfig \<Rightarrow> string \<Rightarrow> string \<Rightarrow> string \<Rightarrow> 'w \<Rightarrow> (goerror + string \<times> int) \<times> 'w" where
  "backupDatabase B cfg backupID database timestamp w =
     (let filename = backup_filename cfg backupID database timestamp; path = backup_path cfg backupID database timestamp in
      case backup_data cfg (buildPgDumpCommand database filename) of
        Inl err \<Rightarrow> (Inl err, w)
      | Inr backupData \<Rightarrow>
          (case bo_Upload B path backupData w of
             (Some err, w') \<Rightarrow> (Inl (''upload failed: '' @ err), w')
           | (None, w') \<Rightarrow> (Inr (path, int (length backupData)), w')))"

fun backup_databases ::
  "'w BackupOps \<Rightarrow> BackupConfig \<Rightarrow> string \<Rightarrow> (string \<times> string) list \<Rightarrow> string list \<Rightarrow> int \<Rightarrow> 'w \<Rightarrow> (goerror + string list \<times> int) \<times> 'w" where
  "backup_databases B cfg backupID [] paths totalSize w = (Inr (paths, totalSize), w)"
| "backup_databases B cfg backupID ((database, timestamp) # rest) paths totalSize w =
     (case backupDatabase B cfg backupID database timestamp w of
        (Inl err, w') \<Rightarrow> (Inl err, w')
      | (Inr (path, n), w') \<Rightarrow> backup_databases B cfg backupID rest (paths @ [path]) (wrap64 (totalSize + n)) w')"

section \<open>Removal of old backups\<close>

fun delete_files :: "'w BackupOps \<Rightarrow> string list \<Rightarrow> 'w \<Rightarrow> goerror option \<times> 'w" where
  "delete_files B [] w = (None, w)"
| "delete_files B (p # ps) w = (case bo_Delete B p w of (Some err, w') \<Rightarrow> (Some err, w') | (None, w') \<Rightarrow> delete_files B ps w')"

definition deleteBackup :: "'w BackupOps \<Rightarrow> Backup \<Rightarrow> 'w \<Rightarrow> goerror option \<times> 'w" where
  "deleteBackup B backup w =
     (case delete_files B (bk_BackupPaths backup) w of
        (Some err, w') \<Rightarrow> (Some err, w') | (None, w') \<Rightarrow> bo_DeleteBackup B (bk_ID backup) w')"

text \<open>A day has 24 hours, as in UTC.\<close>

definition cleanupOldBackups :: "'w BackupOps \<Rightarrow> BackupConfig \<Rightarrow> gotime \<Rightarrow> 'w \<Rightarrow> goerror option \<times> 'w" where
  "cleanupOldBackups B cfg now w =
     (let cutoffDate = now - bg_RetentionDays cfg * (24 * hour) in
      case bo_GetBackupsOlderThan B cutoffDate w of
        Inl err \<Rightarrow> (Some err, w)
      | Inr oldBackups \<Rightarrow> (None, fold (\<lambda>backup v. snd (deleteBackup B backup v)) oldBackups w))"

section \<open>The goroutine of a backup\<close>

text \<open>
  \<open>stamp\<close> has the text of the time for every database, \<open>start\<close> and \<open>now\<close> are the clock at the start and before the removal of old
  backups. The record is updated by the deferred function, after everything else.
\<close>

definition stamped :: "(nat \<Rightarrow> string) \<Rightarrow> string list \<Rightarrow> (string \<times> string) list" where
  "stamped stamp dbs = map (\<lambda>(k, db). (db, stamp k)) (enumerate 0 dbs)"

definition performBackup ::
  "'w BackupOps \<Rightarrow> BackupConfig \<Rightarrow> (nat \<Rightarrow> string) \<Rightarrow> gotime \<Rightarrow> gotime \<Rightarrow> Backup \<Rightarrow> 'w \<Rightarrow> Backup \<times> 'w" where
  "performBackup B cfg stamp start now backup w =
     (case backup_databases B cfg (bk_ID backup) (stamped stamp (bk_Databases backup)) [] 0 w of
        (Inl err, w1) \<Rightarrow>
          let b = backup\<lparr>bk_Status := BackupStatusFailed, bk_ErrorMessage := err, bk_CompletedAt := Some start\<rparr>
          in (b, snd (bo_UpdateBackup B b w1))
      | (Inr (paths, totalSize), w1) \<Rightarrow>
          let b = backup\<lparr>bk_Status := BackupStatusCompleted, bk_Size := totalSize, bk_BackupPaths := paths, bk_CompletedAt := Some start\<rparr>
          in (b, snd (bo_UpdateBackup B b (snd (cleanupOldBackups B cfg now w1)))))"

definition new_backup :: "BackupConfig \<Rightarrow> string \<Rightarrow> gotime \<Rightarrow> BackupType \<Rightarrow> string list \<Rightarrow> Backup" where
  "new_backup cfg uuid now backupType databases =
     \<lparr>bk_ID = uuid, bk_Type = backupType, bk_Status = BackupStatusInProgress, bk_Databases = databases, bk_StartedAt = now,
      bk_CompletedAt = None, bk_CreatedBy = ''system'', bk_Compressed = bg_CompressionEnabled cfg, bk_Encrypted = bg_EncryptionEnabled cfg,
      bk_Size = 0, bk_BackupPaths = [], bk_ErrorMessage = ''''\<rparr>"

text \<open>A backup that is returned is the one whose goroutine was started.\<close>

definition CreateBackup ::
  "'w BackupOps \<Rightarrow> BackupConfig \<Rightarrow> string \<Rightarrow> gotime \<Rightarrow> BackupType \<Rightarrow> string list \<Rightarrow> 'w \<Rightarrow> (goerror + Backup) \<times> 'w" where
  "CreateBackup B cfg uuid now backupType databases w =
     (let backup = new_backup cfg uuid now backupType databases in
      case bo_CreateBackup B backup w of
        (Some err, w') \<Rightarrow> (Inl (''failed to create backup record: '' @ err), w')
      | (None, w') \<Rightarrow> (Inr backup, w'))"

definition performScheduledBackup ::
  "'w BackupOps \<Rightarrow> BackupConfig \<Rightarrow> string \<Rightarrow> gotime \<Rightarrow> 'w \<Rightarrow> (goerror + Backup) \<times> 'w" where
  "performScheduledBackup B cfg uuid now w =
     CreateBackup B cfg uuid now BackupTypeFull [''microservices'', ''microservices_shard1'', ''microservices_shard2''] w"

section \<open>Restores\<close>

definition restored_data :: "Backup \<Rightarrow> string \<Rightarrow> goerror + string" where
  "restored_data backup data =
     (case data_step (bk_Encrypted backup) ''decryption'' decryptData data of
        Inl err \<Rightarrow> Inl err
      | Inr d \<Rightarrow> data_step (bk_Compressed backup) ''decompression'' decompressData d)"

text \<open>The data that the restore was executed with, or the error.\<close>

definition restoreFromPath :: "'w BackupOps \<Rightarrow> string \<Rightarrow> string \<Rightarrow> Backup \<Rightarrow> 'w \<Rightarrow> goerror + string" where
  "restoreFromPath B backupPath targetDatabase backup w =
     (case bo_Download B backupPath w of
        Inl err \<Rightarrow> Inl (''download failed: '' @ err)
      | Inr backupData \<Rightarrow>
          (case restored_data backup backupData of
             Inl err \<Rightarrow> Inl err
           | Inr d \<Rightarrow> (case executePgRestore d targetDatabase of Some err \<Rightarrow> Inl (''pg_restore failed: '' @ err) | None \<Rightarrow> Inr d)))"

fun restore_paths :: "'w BackupOps \<Rightarrow> string \<Rightarrow> Backup \<Rightarrow> string list \<Rightarrow> 'w \<Rightarrow> goerror option \<times> string list" where
  "restore_paths B targetDatabase backup [] w = (None, [])"
| "restore_paths B targetDatabase backup (p # ps) w =
     (case restoreFromPath B p targetDatabase backup w of
        Inl err \<Rightarrow> (Some err, [])
      | Inr d \<Rightarrow> (let (r, ds) = restore_paths B targetDatabase backup ps w in (r, d # ds)))"

definition performRestore ::
  "'w BackupOps \<Rightarrow> gotime \<Rightarrow> Backup \<Rightarrow> Restore \<Rightarrow> 'w \<Rightarrow> Restore \<times> string list \<times> 'w" where
  "performRestore B start backup restore w =
     (let (r, ds) = restore_paths B (rt_TargetDatabase restore) backup (bk_BackupPaths backup) w;
          restore' = (case r of
             Some err \<Rightarrow> restore\<lparr>rt_Status := RestoreStatusFailed, rt_ErrorMessage := err, rt_CompletedAt := Some start\<rparr>
           | None \<Rightarrow> restore\<lparr>rt_Status := RestoreStatusCompleted, rt_CompletedAt := Some start\<rparr>)
      in (restore', ds, snd (bo_UpdateRestore B restore' w)))"

text \<open>A restore that is returned, with its backup, is the one whose goroutine was started.\<close>

definition RestoreBackup ::
  "'w BackupOps \<Rightarrow> string \<Rightarrow> gotime \<Rightarrow> string \<Rightarrow> string \<Rightarrow> 'w \<Rightarrow> (goerror + Backup \<times> Restore) \<times> 'w" where
  "RestoreBackup B uuid now backupID targetDatabase w =
     (case bo_GetBackup B backupID w of
        Inl err \<Rightarrow> (Inl (''failed to get backup: '' @ err), w)
      | Inr backup \<Rightarrow>
          if bk_Status backup \<noteq> BackupStatusCompleted
          then (Inl (''backup is not in completed status: '' @ bo_StatusText B (bk_Status backup)), w)
          else let restore = \<lparr>rt_ID = uuid, rt_BackupID = backupID, rt_TargetDatabase = targetDatabase, rt_Status = RestoreStatusInProgress,
                     rt_StartedAt = now, rt_CompletedAt = None, rt_CreatedBy = ''system'', rt_ErrorMessage = ''''\<rparr>
               in case bo_CreateRestore B restore w of
                    (Some err, w') \<Rightarrow> (Inl (''failed to create restore record: '' @ err), w')
                  | (None, w') \<Rightarrow> (Inr (backup, restore), w'))"

definition path_issue :: "Backup \<Rightarrow> string \<Rightarrow> string list" where
  "path_issue backup p = (case verifyBackupPath p backup of Some err \<Rightarrow> [''Path '' @ p @ '': '' @ err] | None \<Rightarrow> [])"

definition VerifyBackup ::
  "'w BackupOps \<Rightarrow> string \<Rightarrow> gotime \<Rightarrow> gotime \<Rightarrow> string \<Rightarrow> 'w \<Rightarrow> goerror + BackupVerification" where
  "VerifyBackup B uuid t1 t2 backupID w =
     (case bo_GetBackup B backupID w of
        Inl err \<Rightarrow> Inl (''failed to get backup: '' @ err)
      | Inr backup \<Rightarrow>
          let issues = concat (map (path_issue backup) (bk_BackupPaths backup))
          in Inr \<lparr>vr_ID = uuid, vr_BackupID = backupID,
               vr_Status = (if issues \<noteq> [] then VerificationStatusFailed else VerificationStatusPassed), vr_StartedAt = t1,
               vr_CompletedAt = Some t2, vr_Issues = issues\<rparr>)"

section \<open>Uploads\<close>

definition dump :: string where
  "dump = ''-- PostgreSQL dump data''"

lemma backup_data_dump: "backup_data cfg cmd = Inr dump"
  by (simp add: backup_data_def executePgDump_def data_step_def compressData_def encryptData_def dump_def)

lemma restored_data_id: "restored_data b d = Inr d"
  by (simp add: restored_data_def data_step_def decryptData_def decompressData_def)

definition uploads :: "'w BackupOps \<Rightarrow> string list \<Rightarrow> 'w \<Rightarrow> 'w" where
  "uploads B ps w = fold (\<lambda>p v. snd (bo_Upload B p dump v)) ps w"

definition paths_of :: "BackupConfig \<Rightarrow> string \<Rightarrow> (string \<times> string) list \<Rightarrow> string list" where
  "paths_of cfg i dbs = map (\<lambda>(db, t). backup_path cfg i db t) dbs"

text \<open>The first upload that fails, and its error.\<close>

fun failing_upload :: "'w BackupOps \<Rightarrow> string list \<Rightarrow> 'w \<Rightarrow> (nat \<times> goerror) option" where
  "failing_upload B [] w = None"
| "failing_upload B (p # ps) w =
     (case bo_Upload B p dump w of
        (Some err, _) \<Rightarrow> Some (0, err)
      | (None, w') \<Rightarrow> map_option (\<lambda>(k, err). (Suc k, err)) (failing_upload B ps w'))"

lemma backup_databases_uploads:
  "backup_databases B cfg i dbs ps (wrap64 n) w =
     (case failing_upload B (paths_of cfg i dbs) w of
        None \<Rightarrow> (Inr (ps @ paths_of cfg i dbs, wrap64 (n + int (length dbs) * int (length dump))), uploads B (paths_of cfg i dbs) w)
      | Some (k, err) \<Rightarrow> (Inl (''upload failed: '' @ err), uploads B (take (Suc k) (paths_of cfg i dbs)) w))"
proof (induction dbs arbitrary: ps n w)
  case (Cons x dbs)
  obtain db t where x: "x = (db, t)" by fastforce
  let ?p = "backup_path cfg i db t"
  obtain r w1 where w1: "bo_Upload B ?p dump w = (r, w1)" by fastforce
  show ?case
  proof (cases r)
    case None
    then show ?thesis using Cons.IH [of "ps @ [?p]" "n + int (length dump)" w1]
      by (simp add: x backupDatabase_def Let_def backup_data_dump w1 wrap64_step paths_of_def uploads_def algebra_simps
          split: option.splits)
  qed (simp add: x backupDatabase_def Let_def backup_data_dump w1 paths_of_def uploads_def)
qed (simp add: paths_of_def uploads_def)

lemma failing_upload_range: "failing_upload B ps w = Some (k, err) \<Longrightarrow> k < length ps"
  by (induction ps arbitrary: w k) (auto split: prod.splits option.splits)

section \<open>The storage\<close>

text \<open>
  What the manager relies on: \<open>content\<close> says what the storage holds. An upload or a deletion that succeeds does what it says, one that
  fails touches no other object, a stored object can be read, and records are kept apart from objects.
\<close>

definition storage_laws :: "'w BackupOps \<Rightarrow> ('w \<Rightarrow> string \<Rightarrow> string option) \<Rightarrow> bool" where
  "storage_laws B content \<longleftrightarrow>
     (\<forall>p d w. content (snd (bo_Upload B p d w)) = (content w)(p := (if fst (bo_Upload B p d w) = None then Some d else content (snd (bo_Upload B p d w)) p))) \<and>
     (\<forall>p w. content (snd (bo_Delete B p w)) = (content w)(p := (if fst (bo_Delete B p w) = None then None else content (snd (bo_Delete B p w)) p))) \<and>
     (\<forall>p d w. content w p = Some d \<longrightarrow> bo_Download B p w = Inr d) \<and>
     (\<forall>b w. content (snd (bo_UpdateBackup B b w)) = content w) \<and> (\<forall>i w. content (snd (bo_DeleteBackup B i w)) = content w)"

lemma storage_lawsD:
  assumes "storage_laws B content"
  shows "bo_Upload B p d w = (None, w') \<Longrightarrow> content w' = (content w)(p \<mapsto> d)"
    and "bo_Delete B p w = (None, w') \<Longrightarrow> content w' = (content w)(p := None)"
    and "q \<noteq> p \<Longrightarrow> content (snd (bo_Delete B p w)) q = content w q"
    and "content w p = Some d \<Longrightarrow> bo_Download B p w = Inr d"
    and "content (snd (bo_UpdateBackup B b w)) = content w" "content (snd (bo_DeleteBackup B i w)) = content w"
proof -
  from assms have
    U: "content (snd (bo_Upload B p d w)) = (content w)(p := (if fst (bo_Upload B p d w) = None then Some d else content (snd (bo_Upload B p d w)) p))"
    and D: "content (snd (bo_Delete B p w)) = (content w)(p := (if fst (bo_Delete B p w) = None then None else content (snd (bo_Delete B p w)) p))"
    and R: "content w p = Some d \<longrightarrow> bo_Download B p w = Inr d"
      "content (snd (bo_UpdateBackup B b w)) = content w" "content (snd (bo_DeleteBackup B i w)) = content w"
    unfolding storage_laws_def by blast+
  show "bo_Upload B p d w = (None, w') \<Longrightarrow> content w' = (content w)(p \<mapsto> d)" using U by simp
  show "bo_Delete B p w = (None, w') \<Longrightarrow> content w' = (content w)(p := None)" using D by simp
  show "q \<noteq> p \<Longrightarrow> content (snd (bo_Delete B p w)) q = content w q" using fun_cong [OF D, of q] by simp
  show "content w p = Some d \<Longrightarrow> bo_Download B p w = Inr d" "content (snd (bo_UpdateBackup B b w)) = content w"
    "content (snd (bo_DeleteBackup B i w)) = content w"
    using R by simp_all
qed

lemma uploads_content:
  assumes "storage_laws B content" "failing_upload B ps w = None"
  shows "content (uploads B ps w) q = (if q \<in> set ps then Some dump else content w q)"
  using assms(2)
proof (induction ps arbitrary: w)
  case (Cons p ps)
  then obtain w1 where w1: "bo_Upload B p dump w = (None, w1)" "failing_upload B ps w1 = None"
    by (auto split: prod.splits option.splits)
  then show ?case using Cons.IH [OF w1(2)] storage_lawsD(1) [OF assms(1) w1(1)] by (simp add: uploads_def)
qed (simp add: uploads_def)

lemma delete_files_content:
  assumes "storage_laws B content" "delete_files B ps w = (r, w')"
  shows "q \<notin> set ps \<Longrightarrow> content w' q = content w q" and "r = None \<Longrightarrow> q \<in> set ps \<Longrightarrow> content w' q = None"
proof -
  have "(q \<notin> set ps \<longrightarrow> content w' q = content w q) \<and> (r = None \<longrightarrow> content w' q = (if q \<in> set ps then None else content w q))"
    using assms(2)
  proof (induction ps arbitrary: w)
    case (Cons p ps)
    obtain r1 w1 where d: "bo_Delete B p w = (r1, w1)" by fastforce
    show ?case
    proof (cases r1)
      case None
      with d Cons.prems have "delete_files B ps w1 = (r, w')" by simp
      from Cons.IH [OF this] show ?thesis using storage_lawsD(2) [OF assms(1)] d None by auto
    next
      case (Some err)
      then show ?thesis using d Cons.prems storage_lawsD(3) [OF assms(1), of q p w] by auto
    qed
  qed simp
  then show "q \<notin> set ps \<Longrightarrow> content w' q = content w q" "r = None \<Longrightarrow> q \<in> set ps \<Longrightarrow> content w' q = None" by simp_all
qed

lemma deleteBackup_content:
  assumes "storage_laws B content" "q \<notin> set (bk_BackupPaths b)"
  shows "content (snd (deleteBackup B b w)) q = content w q"
proof (cases "delete_files B (bk_BackupPaths b) w")
  case (Pair r w1)
  then show ?thesis using delete_files_content(1) [OF assms(1) Pair assms(2)] storage_lawsD(6) [OF assms(1)]
    by (simp add: deleteBackup_def split: option.split)
qed

lemma cleanup_content:
  assumes "storage_laws B content"
    and "\<And>old b. bo_GetBackupsOlderThan B (now - bg_RetentionDays cfg * (24 * hour)) w = Inr old \<Longrightarrow> b \<in> set old \<Longrightarrow> q \<notin> set (bk_BackupPaths b)"
  shows "content (snd (cleanupOldBackups B cfg now w)) q = content w q"
proof (cases "bo_GetBackupsOlderThan B (now - bg_RetentionDays cfg * (24 * hour)) w")
  case (Inr old)
  have "content (fold (\<lambda>b v. snd (deleteBackup B b v)) bs v) q = content v q" if "set bs \<subseteq> set old" for bs v
    using that assms(2) [OF Inr] by (induction bs arbitrary: v) (simp_all add: deleteBackup_content [OF assms(1)])
  then show ?thesis using Inr by (simp add: cleanupOldBackups_def Let_def)
qed (simp add: cleanupOldBackups_def Let_def)

lemma restore_paths_ok:
  assumes "\<And>p. p \<in> set ps \<Longrightarrow> bo_Download B p w = Inr dump"
  shows "restore_paths B target b ps w = (None, replicate (length ps) dump)"
  using assms by (induction ps) (simp_all add: restoreFromPath_def restored_data_id executePgRestore_def)

lemma performBackup_uploads:
  "performBackup B cfg stamp start now b w =
     (let ps = paths_of cfg (bk_ID b) (stamped stamp (bk_Databases b)) in
      case failing_upload B ps w of
        None \<Rightarrow>
          let b' = b\<lparr>bk_Status := BackupStatusCompleted, bk_Size := wrap64 (int (length (bk_Databases b)) * int (length dump)), bk_BackupPaths := ps,
            bk_CompletedAt := Some start\<rparr>
          in (b', snd (bo_UpdateBackup B b' (snd (cleanupOldBackups B cfg now (uploads B ps w)))))
      | Some (k, err) \<Rightarrow>
          let b' = b\<lparr>bk_Status := BackupStatusFailed, bk_ErrorMessage := ''upload failed: '' @ err, bk_CompletedAt := Some start\<rparr>
          in (b', snd (bo_UpdateBackup B b' (uploads B (take (Suc k) ps) w))))"
  using backup_databases_uploads [of B cfg "bk_ID b" "stamped stamp (bk_Databases b)" "[]" 0 w]
  by (simp add: performBackup_def Let_def stamped_def wrap64_def split: option.splits)

section \<open>Properties\<close>

text \<open>
  a backup uploads its databases in their order and stops at the first upload that fails. Without a failure its record is completed,
  with the path of every database and the size of all uploads; then old backups are removed, and the record is updated last. After a
  failure the record is failed with the error and has none of the paths, although the earlier uploads stay in the storage.
\<close>
theorem backup_outcome:
  assumes "performBackup B cfg stamp start now (new_backup cfg uuid t ty dbs) w = (b, w')"
  shows "let ps = paths_of cfg uuid (stamped stamp dbs) in
    length ps = length dbs \<and> bk_CompletedAt b = Some start \<and>
    (case failing_upload B ps w of
       None \<Rightarrow> bk_Status b = BackupStatusCompleted \<and> bk_BackupPaths b = ps \<and> bk_Size b = wrap64 (int (length dbs) * 23) \<and>
         w' = snd (bo_UpdateBackup B b (snd (cleanupOldBackups B cfg now (uploads B ps w))))
     | Some (k, err) \<Rightarrow> k < length dbs \<and> bk_Status b = BackupStatusFailed \<and> bk_BackupPaths b = [] \<and>
         bk_ErrorMessage b = ''upload failed: '' @ err \<and> w' = snd (bo_UpdateBackup B b (uploads B (take (Suc k) ps) w)))"
proof -
  let ?ps = "paths_of cfg uuid (stamped stamp dbs)"
  have "length ?ps = length dbs" by (simp add: paths_of_def stamped_def)
  then show ?thesis using assms failing_upload_range [of B ?ps w]
    by (auto simp: performBackup_uploads new_backup_def Let_def dump_def split: option.splits)
qed

text \<open>
  C31: a completed backup can be restored. As long as no old backup shares a file with it and nothing changes its files afterwards, the
  restore of its record ends completed, with one dump for each of its databases.
\<close>
theorem completed_backup_restores:
  assumes laws: "storage_laws B content"
    and b: "performBackup B cfg stamp start now (new_backup cfg uuid t ty dbs) w = (b, w')" "bk_Status b = BackupStatusCompleted"
    and old: "\<And>old c. bo_GetBackupsOlderThan B (now - bg_RetentionDays cfg * (24 * hour)) (uploads B (bk_BackupPaths b) w) = Inr old \<Longrightarrow>
      c \<in> set old \<Longrightarrow> set (bk_BackupPaths c) \<inter> set (bk_BackupPaths b) = {}"
    and later: "\<And>p. p \<in> set (bk_BackupPaths b) \<Longrightarrow> content w2 p = content w' p"
  shows "\<exists>r w3. performRestore B start2 b restore w2 = (r, replicate (length dbs) dump, w3) \<and> rt_Status r = RestoreStatusCompleted"
proof -
  let ?b = "new_backup cfg uuid t ty dbs"
  let ?ps = "paths_of cfg uuid (stamped stamp dbs)"
  have ok: "failing_upload B ?ps w = None"
    using b by (auto simp: performBackup_uploads new_backup_def Let_def split: option.splits)
  then have ps: "bk_BackupPaths b = ?ps" and w': "w' = snd (bo_UpdateBackup B b (snd (cleanupOldBackups B cfg now (uploads B ?ps w))))"
    using b(1) by (auto simp: performBackup_uploads new_backup_def Let_def)
  have "bo_Download B p w2 = Inr dump" if p: "p \<in> set ?ps" for p
  proof (rule storage_lawsD(4) [OF laws])
    have "content (snd (cleanupOldBackups B cfg now (uploads B ?ps w))) p = content (uploads B ?ps w) p"
      by (rule cleanup_content [OF laws]) (use old [unfolded ps] p in blast)
    then show "content w2 p = Some dump"
      using later [of p] p uploads_content [OF laws ok, of p] by (simp add: ps w' storage_lawsD(5) [OF laws])
  qed
  from restore_paths_ok [of ?ps B w2, OF this] have "restore_paths B (rt_TargetDatabase restore) b ?ps w2 = (None, replicate (length dbs) dump)"
    by (simp add: paths_of_def stamped_def)
  then show ?thesis by (simp add: performRestore_def ps Let_def)
qed

text \<open>A deletion removes the record of a backup only after all of its files; when a file cannot be deleted the record stays.\<close>

lemma deleteBackup_outcome:
  assumes "storage_laws B content" "deleteBackup B b w = (r, w')"
  shows "r = None \<Longrightarrow> p \<in> set (bk_BackupPaths b) \<Longrightarrow> content w' p = None"
    and "fst (delete_files B (bk_BackupPaths b) w) = Some err \<Longrightarrow> r = Some err \<and> w' = snd (delete_files B (bk_BackupPaths b) w)"
proof -
  obtain r1 w1 where d: "delete_files B (bk_BackupPaths b) w = (r1, w1)" by fastforce
  show "content w' p = None" if "r = None" "p \<in> set (bk_BackupPaths b)"
    using assms(2) that d delete_files_content(2) [OF assms(1) d] storage_lawsD(6) [OF assms(1), of "bk_ID b" w1]
    by (auto simp: deleteBackup_def split: option.splits)
  show "r = Some err \<and> w' = snd (delete_files B (bk_BackupPaths b) w)" if "fst (delete_files B (bk_BackupPaths b) w) = Some err"
    using assms(2) that d by (simp add: deleteBackup_def)
qed

text \<open>Every verification of a backup that is found passes, whatever the storage holds.\<close>

lemma verification_always_passes:
  "bo_GetBackup B i w = Inr b \<Longrightarrow> \<exists>v. VerifyBackup B uuid t1 t2 i w = Inr v \<and> vr_Status v = VerificationStatusPassed"
  by (simp add: VerifyBackup_def Let_def path_issue_def verifyBackupPath_def)

section \<open>A list of records and a map of objects\<close>

type_synonym backup_world = "Backup list \<times> (string, string) gomap"

definition list_storage :: "backup_world BackupOps" where
  "list_storage =
     \<lparr>bo_CreateBackup = (\<lambda>b w. (None, (fst w @ [b], snd w))),
      bo_UpdateBackup = (\<lambda>b w. (None, (map (\<lambda>c. if bk_ID c = bk_ID b then b else c) (fst w), snd w))),
      bo_GetBackup = (\<lambda>i w. case find (\<lambda>c. bk_ID c = i) (fst w) of Some b \<Rightarrow> Inr b | None \<Rightarrow> Inl ''not found''),
      bo_DeleteBackup = (\<lambda>i w. (None, (filter (\<lambda>c. bk_ID c \<noteq> i) (fst w), snd w))),
      bo_GetBackupsOlderThan = (\<lambda>t w. Inr (filter (\<lambda>c. bk_StartedAt c < t) (fst w))),
      bo_CreateRestore = (\<lambda>r w. (None, w)), bo_UpdateRestore = (\<lambda>r w. (None, w)),
      bo_Upload = (\<lambda>p d w. (None, (fst w, go_set p d (snd w)))),
      bo_Download = (\<lambda>p w. case map_of (snd w) p of Some d \<Rightarrow> Inr d | None \<Rightarrow> Inl ''no such object''),
      bo_Delete = (\<lambda>p w. (None, (fst w, go_del p (snd w)))), bo_StatusText = (\<lambda>_. ''in progress'')\<rparr>"

lemma list_storage_laws: "storage_laws list_storage (\<lambda>w. map_of (snd w))"
  by (simp add: storage_laws_def list_storage_def go_map_simps)

definition sample_backup_config :: "int \<Rightarrow> BackupConfig" where
  "sample_backup_config days = \<lparr>bg_ScheduleInterval = 0, bg_RetentionDays = days, bg_CompressionEnabled = True, bg_EncryptionEnabled = True,
     bg_EncryptionKey = ''k'', bg_MaxConcurrentBackups = 1, bg_BackupTimeout = 0, bg_S3Bucket = ''b'', bg_S3Prefix = ''p''\<rparr>"

definition sample_backup :: "int \<Rightarrow> Backup \<times> backup_world" where
  "sample_backup days =
     (case CreateBackup list_storage (sample_backup_config days) ''u'' 10 BackupTypeFull [''a'', ''b''] ([], []) of
        (Inr b, w) \<Rightarrow> performBackup list_storage (sample_backup_config days) (\<lambda>k. ''t'') 11 12 b w)"

text \<open>
  with a retention of no days a backup removes its own record. The removal of old backups comes before the update of the record, so
  that the record is still in progress and names no file: it is deleted, its files stay, and the backup cannot be restored.
\<close>
theorem zero_retention_loses_backup:
  "bk_Status (fst (sample_backup 0)) = BackupStatusCompleted \<and> length (snd (snd (sample_backup 0))) = 2 \<and>
   RestoreBackup list_storage ''r'' 13 ''u'' ''a'' (snd (sample_backup 0)) = (Inl ''failed to get backup: not found'', snd (sample_backup 0))"
  by code_simp

theorem backup_outcome_witness:
  "bk_Size (fst (sample_backup 7)) = 46 \<and> bk_BackupPaths (fst (sample_backup 7)) = [''p/databases/a_u_t.sql.gz'', ''p/databases/b_u_t.sql.gz'']"
proof -
  let ?c = "sample_backup_config 7" and ?w = "([new_backup (sample_backup_config 7) ''u'' 10 BackupTypeFull [''a'', ''b'']], [])"
  have s: "sample_backup 7 = performBackup list_storage ?c (\<lambda>k. ''t'') 11 12 (new_backup ?c ''u'' 10 BackupTypeFull [''a'', ''b'']) ?w"
    by (simp add: sample_backup_def CreateBackup_def list_storage_def Let_def)
  have ps: "paths_of ?c ''u'' (stamped (\<lambda>k. ''t'') [''a'', ''b'']) = [''p/databases/a_u_t.sql.gz'', ''p/databases/b_u_t.sql.gz'']" by code_simp
  have f: "failing_upload list_storage [''p/databases/a_u_t.sql.gz'', ''p/databases/b_u_t.sql.gz''] ?w = None"
    by (simp add: list_storage_def)
  have "performBackup list_storage ?c (\<lambda>k. ''t'') 11 12 (new_backup ?c ''u'' 10 BackupTypeFull [''a'', ''b'']) ?w =
      (fst (sample_backup 7), snd (sample_backup 7))"
    by (simp add: s)
  from backup_outcome [OF this] show ?thesis unfolding Let_def ps f by (simp add: wrap64_def)
qed

theorem completed_backup_restores_witness:
  "\<exists>r w3. performRestore list_storage 14 (fst (sample_backup 7))
     \<lparr>rt_ID = ''r'', rt_BackupID = ''u'', rt_TargetDatabase = ''a'', rt_Status = RestoreStatusInProgress, rt_StartedAt = 13, rt_CompletedAt = None,
      rt_CreatedBy = ''system'', rt_ErrorMessage = ''''\<rparr> (snd (sample_backup 7)) = (r, [dump, dump], w3) \<and> rt_Status r = RestoreStatusCompleted"
proof -
  let ?c = "sample_backup_config 7" and ?w = "([new_backup (sample_backup_config 7) ''u'' 10 BackupTypeFull [''a'', ''b'']], [])"
  have s: "performBackup list_storage ?c (\<lambda>k. ''t'') 11 12 (new_backup ?c ''u'' 10 BackupTypeFull [''a'', ''b'']) ?w =
      (fst (sample_backup 7), snd (sample_backup 7))"
    by (simp add: sample_backup_def CreateBackup_def list_storage_def Let_def)
  have "bk_Status (fst (sample_backup 7)) = BackupStatusCompleted" by code_simp
  moreover have "bo_GetBackupsOlderThan list_storage (12 - bg_RetentionDays ?c * (24 * hour)) (uploads list_storage (bk_BackupPaths (fst (sample_backup 7))) ?w) = Inr []"
    by code_simp
  ultimately show ?thesis
    using completed_backup_restores [OF list_storage_laws s, where ?w2.0 = "snd (sample_backup 7)"] by (simp add: numeral_2_eq_2)
qed

end
