(* ===== verification/WebApp_Operator.thy ===== *)
theory WebApp_Operator
  imports Go_Prelude
begin

text \<open>
  The reconciler of the Kubernetes operator, \<open>k8s-operator-sre/operator/main.go\<close>. The cluster client, the helpers of the controller runtime
  (\<open>CreateOrUpdate\<close>, owner references, finalizers) and the reconcilers of the optional resources, which the file calls and does not
  declare, are the parameter \<open>ClusterOps\<close> on a cluster \<open>'w\<close>; \<open>cluster_laws\<close> says what a cluster does when no call fails. Logging is left out.

  The lemmas show the two rounds in which a web application becomes ready and that further rounds change nothing, what a failing
  round leaves, and the generation that is not observed.
\<close>

section \<open>Data\<close>

datatype WebAppPhase = WebAppPhaseUnset | WebAppPhaseReady | WebAppPhaseFailed

record WebAppSpec =
  sp_Replicas :: int
  sp_Version :: string
  sp_Image :: string
  sp_Resources :: json
  sp_Env :: "(string \<times> string) list"
  sp_Config :: "json option"
  sp_Autoscaling :: "bool option"
  sp_PodDisruptionBudget :: "json option"
  sp_Monitoring :: "bool option"
  sp_Ingress :: "json option"

record WebAppStatus =
  st_Phase :: WebAppPhase
  st_Message :: string
  st_ObservedGeneration :: int

record WebApp =
  wa_Name :: string
  wa_Namespace :: string
  wa_Generation :: int
  wa_DeletionTimestamp :: "gotime option"
  wa_Finalizers :: "string list"
  wa_Spec :: WebAppSpec
  wa_Status :: WebAppStatus

text \<open>The parts of a deployment and of a service that the reconciler writes; \<open>dp_Owner\<close> and \<open>sv_Owner\<close> are the owner references.\<close>

record Probe =
  pb_Path :: string
  pb_Port :: string
  pb_InitialDelaySeconds :: int
  pb_PeriodSeconds :: int

record Container =
  ct_Name :: string
  ct_Image :: string
  ct_Ports :: "(string \<times> int \<times> string) list"
  ct_Resources :: json
  ct_Env :: "(string \<times> string) list"
  ct_LivenessProbe :: Probe
  ct_ReadinessProbe :: Probe

record PodSecurityContext =
  sc_RunAsNonRoot :: bool
  sc_RunAsUser :: int
  sc_FSGroup :: int

record DeploymentSpec =
  dp_Replicas :: int
  dp_MatchLabels :: "(string, string) gomap"
  dp_Labels :: "(string, string) gomap"
  dp_Annotations :: "(string, string) gomap"
  dp_Containers :: "Container list"
  dp_SecurityContext :: PodSecurityContext

record Deployment =
  dp_Owner :: "string list"
  dp_Spec :: "DeploymentSpec option"

record ServiceSpec =
  sv_Selector :: "(string, string) gomap"
  sv_Ports :: "(string \<times> int \<times> string \<times> string) list"
  sv_Type :: string

record Service =
  sv_Owner :: "string list"
  sv_Spec :: "ServiceSpec option"

datatype get_error = NotFound | GetError goerror

text \<open>What an event recorder is told: the type of the event, its reason and its message.\<close>

type_synonym recorded = "string \<times> string \<times> string"

type_synonym namespaced = "string \<times> string"

record 'w ClusterOps =
  co_Get :: "namespaced \<Rightarrow> 'w \<Rightarrow> get_error + WebApp"
  co_Update :: "WebApp \<Rightarrow> 'w \<Rightarrow> goerror option \<times> 'w"
  co_StatusUpdate :: "WebApp \<Rightarrow> 'w \<Rightarrow> goerror option \<times> 'w"
  co_ContainsFinalizer :: "WebApp \<Rightarrow> bool"
  co_AddFinalizer :: "WebApp \<Rightarrow> WebApp"
  co_RemoveFinalizer :: "WebApp \<Rightarrow> WebApp"
  co_SetControllerReference :: "WebApp \<Rightarrow> string list \<Rightarrow> goerror + string list"
  co_CreateOrUpdateDeployment :: "namespaced \<Rightarrow> (Deployment \<Rightarrow> goerror + Deployment) \<Rightarrow> 'w \<Rightarrow> goerror option \<times> 'w"
  co_CreateOrUpdateService :: "namespaced \<Rightarrow> (Service \<Rightarrow> goerror + Service) \<Rightarrow> 'w \<Rightarrow> goerror option \<times> 'w"
  co_reconcileConfigMap :: "WebApp \<Rightarrow> 'w \<Rightarrow> goerror option \<times> 'w"
  co_reconcileHPA :: "WebApp \<Rightarrow> 'w \<Rightarrow> goerror option \<times> 'w"
  co_reconcilePDB :: "WebApp \<Rightarrow> 'w \<Rightarrow> goerror option \<times> 'w"
  co_reconcileServiceMonitor :: "WebApp \<Rightarrow> 'w \<Rightarrow> goerror option \<times> 'w"
  co_reconcileIngress :: "WebApp \<Rightarrow> 'w \<Rightarrow> goerror option \<times> 'w"
  co_Event :: "WebApp \<Rightarrow> recorded \<Rightarrow> 'w \<Rightarrow> 'w"

record ctrl_Result =
  cr_Requeue :: bool
  cr_RequeueAfter :: duration

definition no_result :: ctrl_Result where
  "no_result = \<lparr>cr_Requeue = False, cr_RequeueAfter = 0\<rparr>"

section \<open>The desired state\<close>

definition desired_container :: "WebApp \<Rightarrow> Container" where
  "desired_container app =
     \<lparr>ct_Name = wa_Name app, ct_Image = sp_Image (wa_Spec app), ct_Ports = [(''http'', 8080, ''TCP'')],
      ct_Resources = sp_Resources (wa_Spec app), ct_Env = sp_Env (wa_Spec app),
      ct_LivenessProbe = \<lparr>pb_Path = ''/health'', pb_Port = ''http'', pb_InitialDelaySeconds = 30, pb_PeriodSeconds = 10\<rparr>,
      ct_ReadinessProbe = \<lparr>pb_Path = ''/ready'', pb_Port = ''http'', pb_InitialDelaySeconds = 5, pb_PeriodSeconds = 5\<rparr>\<rparr>"

definition desired_deployment :: "WebApp \<Rightarrow> DeploymentSpec" where
  "desired_deployment app =
     (let labels = [(''app'', wa_Name app), (''version'', sp_Version (wa_Spec app))] in
      \<lparr>dp_Replicas = sp_Replicas (wa_Spec app), dp_MatchLabels = labels, dp_Labels = labels,
       dp_Annotations = [(''prometheus.io/scrape'', ''true''), (''prometheus.io/port'', ''8080''), (''prometheus.io/path'', ''/metrics'')],
       dp_Containers = [desired_container app],
       dp_SecurityContext = \<lparr>sc_RunAsNonRoot = True, sc_RunAsUser = 1000, sc_FSGroup = 2000\<rparr>\<rparr>)"

definition desired_service :: "WebApp \<Rightarrow> ServiceSpec" where
  "desired_service app =
     \<lparr>sv_Selector = [(''app'', wa_Name app)], sv_Ports = [(''http'', 80, ''http'', ''TCP'')], sv_Type = ''ClusterIP''\<rparr>"

section \<open>Reconcilers\<close>

definition mutate_deployment :: "'w ClusterOps \<Rightarrow> WebApp \<Rightarrow> Deployment \<Rightarrow> goerror + Deployment" where
  "mutate_deployment K app d =
     (case co_SetControllerReference K app (dp_Owner d) of
        Inl err \<Rightarrow> Inl err | Inr owner \<Rightarrow> Inr (d\<lparr>dp_Owner := owner, dp_Spec := Some (desired_deployment app)\<rparr>))"

definition reconcileDeployment :: "'w ClusterOps \<Rightarrow> WebApp \<Rightarrow> 'w \<Rightarrow> goerror option \<times> 'w" where
  "reconcileDeployment K app w = co_CreateOrUpdateDeployment K (wa_Namespace app, wa_Name app) (mutate_deployment K app) w"

definition mutate_service :: "'w ClusterOps \<Rightarrow> WebApp \<Rightarrow> Service \<Rightarrow> goerror + Service" where
  "mutate_service K app s =
     (case co_SetControllerReference K app (sv_Owner s) of
        Inl err \<Rightarrow> Inl err | Inr owner \<Rightarrow> Inr (s\<lparr>sv_Owner := owner, sv_Spec := Some (desired_service app)\<rparr>))"

definition reconcileService :: "'w ClusterOps \<Rightarrow> WebApp \<Rightarrow> 'w \<Rightarrow> goerror option \<times> 'w" where
  "reconcileService K app w = co_CreateOrUpdateService K (wa_Namespace app, wa_Name app) (mutate_service K app) w"

text \<open>The calls of \<open>reconcileWebApp\<close> in their order, each with the condition on the specification; the first error ends them.\<close>

definition web_app_steps :: "'w ClusterOps \<Rightarrow> WebApp \<Rightarrow> (bool \<times> (WebApp \<Rightarrow> 'w \<Rightarrow> goerror option \<times> 'w)) list" where
  "web_app_steps K app =
     [(True, reconcileDeployment K), (True, reconcileService K), (sp_Config (wa_Spec app) \<noteq> None, co_reconcileConfigMap K),
      (sp_Autoscaling (wa_Spec app) = Some True, co_reconcileHPA K), (sp_PodDisruptionBudget (wa_Spec app) \<noteq> None, co_reconcilePDB K),
      (sp_Monitoring (wa_Spec app) = Some True, co_reconcileServiceMonitor K), (sp_Ingress (wa_Spec app) \<noteq> None, co_reconcileIngress K)]"

fun run_steps :: "(bool \<times> ('a \<Rightarrow> 'w \<Rightarrow> goerror option \<times> 'w)) list \<Rightarrow> 'a \<Rightarrow> 'w \<Rightarrow> goerror option \<times> 'w" where
  "run_steps [] app w = (None, w)"
| "run_steps ((wanted, f) # fs) app w =
     (if wanted then (case f app w of (Some err, w') \<Rightarrow> (Some err, w') | (None, w') \<Rightarrow> run_steps fs app w') else run_steps fs app w)"

definition reconcileWebApp :: "'w ClusterOps \<Rightarrow> WebApp \<Rightarrow> 'w \<Rightarrow> (ctrl_Result \<times> goerror option) \<times> 'w" where
  "reconcileWebApp K app w = (let (r, w') = run_steps (web_app_steps K app) app w in ((no_result, r), w'))"

definition handleDeletion :: "'w ClusterOps \<Rightarrow> WebApp \<Rightarrow> 'w \<Rightarrow> (ctrl_Result \<times> goerror option) \<times> 'w" where
  "handleDeletion K app w =
     (let app' = co_RemoveFinalizer K app in
      case co_Update K app' w of
        (Some err, w') \<Rightarrow> ((no_result, Some err), w')
      | (None, w') \<Rightarrow> ((no_result, None), co_Event K app' (''Normal'', ''Deleted'', ''WebApp deleted successfully'') w'))"

definition ready_status :: "WebApp \<Rightarrow> WebApp" where
  "ready_status app = app\<lparr>wa_Status := \<lparr>st_Phase = WebAppPhaseReady, st_Message = ''WebApp is ready'', st_ObservedGeneration = wa_Generation app\<rparr>\<rparr>"

definition failed_status :: "goerror \<Rightarrow> WebApp \<Rightarrow> WebApp" where
  "failed_status err app = app\<lparr>wa_Status := (wa_Status app)\<lparr>st_Phase := WebAppPhaseFailed, st_Message := err\<rparr>\<rparr>"

definition finish_reconcile :: "'w ClusterOps \<Rightarrow> duration \<Rightarrow> WebApp \<Rightarrow> 'w \<Rightarrow> (ctrl_Result \<times> goerror option) \<times> 'w" where
  "finish_reconcile K interval app w =
     (if st_Phase (wa_Status app) \<noteq> WebAppPhaseReady
      then (case co_StatusUpdate K (ready_status app) w of
              (Some err, w') \<Rightarrow> ((no_result, Some err), w')
            | (None, w') \<Rightarrow> ((no_result\<lparr>cr_RequeueAfter := interval\<rparr>, None), co_Event K (ready_status app) (''Normal'', ''Ready'', ''WebApp is ready'') w'))
      else ((no_result\<lparr>cr_RequeueAfter := interval\<rparr>, None), w))"

definition Reconcile :: "'w ClusterOps \<Rightarrow> duration \<Rightarrow> namespaced \<Rightarrow> 'w \<Rightarrow> (ctrl_Result \<times> goerror option) \<times> 'w" where
  "Reconcile K interval key w =
     (case co_Get K key w of
        Inl NotFound \<Rightarrow> ((no_result, None), w)
      | Inl (GetError err) \<Rightarrow> ((no_result, Some err), w)
      | Inr app \<Rightarrow>
          if wa_DeletionTimestamp app \<noteq> None then handleDeletion K app w
          else if \<not> co_ContainsFinalizer K app
          then (case co_Update K (co_AddFinalizer K app) w of
                  (Some err, w') \<Rightarrow> ((no_result, Some err), w')
                | (None, w') \<Rightarrow> ((no_result\<lparr>cr_Requeue := True\<rparr>, None), w'))
          else (case reconcileWebApp K app w of
                  ((result, Some err), w1) \<Rightarrow>
                    let app' = failed_status err app; (_, w2) = co_StatusUpdate K app' w1
                    in ((result, Some err), co_Event K app' (''Warning'', ''ReconcileError'', err) w2)
                | ((result, None), w1) \<Rightarrow> finish_reconcile K interval app w1))"

section \<open>A cluster without failures\<close>

record Cluster =
  cl_apps :: "namespaced \<rightharpoonup> WebApp"
  cl_deps :: "namespaced \<rightharpoonup> Deployment"
  cl_svcs :: "namespaced \<rightharpoonup> Service"

definition key_of :: "WebApp \<Rightarrow> namespaced" where
  "key_of app = (wa_Namespace app, wa_Name app)"

definition dep_or_new :: "Deployment option \<Rightarrow> Deployment" where
  "dep_or_new x = (case x of Some d \<Rightarrow> d | None \<Rightarrow> \<lparr>dp_Owner = [], dp_Spec = None\<rparr>)"

definition svc_or_new :: "Service option \<Rightarrow> Service" where
  "svc_or_new x = (case x of Some d \<Rightarrow> d | None \<Rightarrow> \<lparr>sv_Owner = [], sv_Spec = None\<rparr>)"

text \<open>A call that succeeds and leaves the cluster \<open>v\<close>; a reconciler that succeeds and leaves it alone.\<close>

definition yields :: "('w \<Rightarrow> Cluster) \<Rightarrow> goerror option \<times> 'w \<Rightarrow> Cluster \<Rightarrow> bool" where
  "yields view r v \<longleftrightarrow> fst r = None \<and> view (snd r) = v"

lemma yieldsE:
  assumes "yields view r v"
  obtains w' where "r = (None, w')" "view w' = v"
  using assms by (cases r) (simp add: yields_def)

definition benign :: "('w \<Rightarrow> Cluster) \<Rightarrow> (WebApp \<Rightarrow> 'w \<Rightarrow> goerror option \<times> 'w) \<Rightarrow> bool" where
  "benign view f \<longleftrightarrow> (\<forall>a w. yields view (f a w) (view w))"

text \<open>
  What the reconciler relies on when no call fails: a read gives the stored application; an update of the finalizers and one of the
  status store what they are given; \<open>CreateOrUpdate\<close> stores what the mutation makes of the object that exists or of a new one, unless
  it changes the selector of a deployment, which is immutable and makes the call fail; an object
  without an owner or with the application as its owner can be claimed; the optional reconcilers and the recorder leave these objects alone.
\<close>

definition read_law :: "'w ClusterOps \<Rightarrow> ('w \<Rightarrow> Cluster) \<Rightarrow> bool" where
  "read_law K view \<longleftrightarrow> (\<forall>k w. co_Get K k w = (case cl_apps (view w) k of None \<Rightarrow> Inl NotFound | Some a \<Rightarrow> Inr a))"

definition finalizer_law :: "'w ClusterOps \<Rightarrow> bool" where
  "finalizer_law K \<longleftrightarrow>
     (\<forall>a. co_ContainsFinalizer K (co_AddFinalizer K a) \<and> (\<exists>fs. co_AddFinalizer K a = a\<lparr>wa_Finalizers := fs\<rparr>)) \<and>
     (\<forall>a s. co_ContainsFinalizer K (a\<lparr>wa_Status := s\<rparr>) = co_ContainsFinalizer K a)"

definition update_law :: "'w ClusterOps \<Rightarrow> ('w \<Rightarrow> Cluster) \<Rightarrow> bool" where
  "update_law K view \<longleftrightarrow>
     (\<forall>a w fs. cl_apps (view w) (key_of a) = Some a \<longrightarrow> yields view (co_Update K (a\<lparr>wa_Finalizers := fs\<rparr>) w)
        ((view w)\<lparr>cl_apps := (cl_apps (view w))(key_of a \<mapsto> a\<lparr>wa_Finalizers := fs\<rparr>)\<rparr>)) \<and>
     (\<forall>a w s. cl_apps (view w) (key_of a) = Some a \<longrightarrow> yields view (co_StatusUpdate K (a\<lparr>wa_Status := s\<rparr>) w)
        ((view w)\<lparr>cl_apps := (cl_apps (view w))(key_of a \<mapsto> a\<lparr>wa_Status := s\<rparr>)\<rparr>))"

definition owner_law :: "'w ClusterOps \<Rightarrow> bool" where
  "owner_law K \<longleftrightarrow> (\<forall>a os. os = [] \<or> os = [wa_Name a] \<longrightarrow> co_SetControllerReference K a os = Inr [wa_Name a])"

definition same_selector :: "Deployment \<Rightarrow> Deployment \<Rightarrow> bool" where
  "same_selector d e \<longleftrightarrow>
     (case (dp_Spec d, dp_Spec e) of (Some s, Some t) \<Rightarrow> dp_MatchLabels s = dp_MatchLabels t | _ \<Rightarrow> True)"

definition object_law :: "'w ClusterOps \<Rightarrow> ('w \<Rightarrow> Cluster) \<Rightarrow> bool" where
  "object_law K view \<longleftrightarrow>
     (\<forall>k f w d. f (dep_or_new (cl_deps (view w) k)) = Inr d \<longrightarrow> same_selector (dep_or_new (cl_deps (view w) k)) d \<longrightarrow>
        yields view (co_CreateOrUpdateDeployment K k f w) ((view w)\<lparr>cl_deps := (cl_deps (view w))(k \<mapsto> d)\<rparr>)) \<and>
     (\<forall>k f w d. f (dep_or_new (cl_deps (view w) k)) = Inr d \<longrightarrow> \<not> same_selector (dep_or_new (cl_deps (view w) k)) d \<longrightarrow>
        (\<exists>err. co_CreateOrUpdateDeployment K k f w = (Some err, w))) \<and>
     (\<forall>k f w s. f (svc_or_new (cl_svcs (view w) k)) = Inr s \<longrightarrow>
        yields view (co_CreateOrUpdateService K k f w) ((view w)\<lparr>cl_svcs := (cl_svcs (view w))(k \<mapsto> s)\<rparr>))"

definition other_law :: "'w ClusterOps \<Rightarrow> ('w \<Rightarrow> Cluster) \<Rightarrow> bool" where
  "other_law K view \<longleftrightarrow>
     benign view (co_reconcileConfigMap K) \<and> benign view (co_reconcileHPA K) \<and> benign view (co_reconcilePDB K) \<and>
     benign view (co_reconcileServiceMonitor K) \<and> benign view (co_reconcileIngress K) \<and> (\<forall>a e w. view (co_Event K a e w) = view w)"

definition cluster_laws :: "'w ClusterOps \<Rightarrow> ('w \<Rightarrow> Cluster) \<Rightarrow> bool" where
  "cluster_laws K view \<longleftrightarrow>
     read_law K view \<and> finalizer_law K \<and> update_law K view \<and> owner_law K \<and> object_law K view \<and> other_law K view"

lemma cluster_lawsD:
  assumes "cluster_laws K view"
  shows "read_law K view" "finalizer_law K" "update_law K view" "owner_law K" "object_law K view" "other_law K view"
  using assms by (simp_all add: cluster_laws_def)

lemma Get_stored: "read_law K view \<Longrightarrow> cl_apps (view w) k = Some app \<Longrightarrow> co_Get K k w = Inr app"
  unfolding read_law_def by (metis option.simps(5))

lemma AddFinalizer_fields: "finalizer_law K \<Longrightarrow> \<exists>fs. co_AddFinalizer K app = app\<lparr>wa_Finalizers := fs\<rparr>"
  unfolding finalizer_law_def by blast

lemma run_steps_benign:
  assumes "list_all (\<lambda>(_, f). benign view f) fs"
  shows "yields view (run_steps fs app w) (view w)"
  using assms
proof (induction fs arbitrary: w)
  case (Cons x fs)
  obtain b f where x: "x = (b, f)" by fastforce
  then have "yields view (f app w) (view w)" using Cons.prems by (simp add: benign_def)
  then obtain w1 where "f app w = (None, w1)" "view w1 = view w" by (rule yieldsE)
  then show ?case using Cons x Cons.IH [of w1] by (cases b) simp_all
qed (simp add: yields_def)

section \<open>One round\<close>

definition owned_deployment :: "WebApp \<Rightarrow> Deployment" where
  "owned_deployment app = \<lparr>dp_Owner = [wa_Name app], dp_Spec = Some (desired_deployment app)\<rparr>"

definition owned_service :: "WebApp \<Rightarrow> Service" where
  "owned_service app = \<lparr>sv_Owner = [wa_Name app], sv_Spec = Some (desired_service app)\<rparr>"

definition claimable :: "WebApp \<Rightarrow> Cluster \<Rightarrow> bool" where
  "claimable app v \<longleftrightarrow>
     dp_Owner (dep_or_new (cl_deps v (key_of app))) \<in> {[], [wa_Name app]} \<and>
     same_selector (dep_or_new (cl_deps v (key_of app))) (owned_deployment app) \<and> sv_Owner (svc_or_new (cl_svcs v (key_of app))) \<in> {[], [wa_Name app]}"

definition reconciled :: "WebApp \<Rightarrow> Cluster \<Rightarrow> Cluster" where
  "reconciled app v = v\<lparr>cl_deps := (cl_deps v)(key_of app \<mapsto> owned_deployment app), cl_svcs := (cl_svcs v)(key_of app \<mapsto> owned_service app)\<rparr>"

lemma reconcileWebApp_ok:
  assumes laws: "cluster_laws K view" and c: "claimable app (view w)"
  shows "\<exists>w'. reconcileWebApp K app w = ((no_result, None), w') \<and> view w' = reconciled app (view w)"
proof -
  note L = cluster_lawsD [OF laws]
  have "mutate_deployment K app (dep_or_new (cl_deps (view w) (key_of app))) = Inr (owned_deployment app)"
    using c L(4) by (auto simp: mutate_deployment_def claimable_def owner_law_def owned_deployment_def)
  moreover have "same_selector (dep_or_new (cl_deps (view w) (key_of app))) (owned_deployment app)" using c by (simp add: claimable_def)
  ultimately have "yields view (reconcileDeployment K app w) ((view w)\<lparr>cl_deps := (cl_deps (view w))(key_of app \<mapsto> owned_deployment app)\<rparr>)"
    using L(5) unfolding object_law_def reconcileDeployment_def key_of_def by blast
  then obtain w1 where w1: "reconcileDeployment K app w = (None, w1)"
    "view w1 = (view w)\<lparr>cl_deps := (cl_deps (view w))(key_of app \<mapsto> owned_deployment app)\<rparr>" by (rule yieldsE)
  have "mutate_service K app (svc_or_new (cl_svcs (view w1) (key_of app))) = Inr (owned_service app)"
    using c L(4) w1(2) by (auto simp: mutate_service_def claimable_def owner_law_def owned_service_def)
  then have "yields view (reconcileService K app w1) ((view w1)\<lparr>cl_svcs := (cl_svcs (view w1))(key_of app \<mapsto> owned_service app)\<rparr>)"
    using L(5) unfolding object_law_def reconcileService_def key_of_def by blast
  then obtain w2 where w2: "reconcileService K app w1 = (None, w2)"
    "view w2 = (view w1)\<lparr>cl_svcs := (cl_svcs (view w1))(key_of app \<mapsto> owned_service app)\<rparr>" by (rule yieldsE)
  have "list_all (\<lambda>(_, f). benign view f) (drop 2 (web_app_steps K app))"
    using L(6) by (simp add: web_app_steps_def other_law_def)
  from run_steps_benign [OF this, of app w2] obtain w3 where
    w3: "run_steps (drop 2 (web_app_steps K app)) app w2 = (None, w3)" "view w3 = view w2" by (rule yieldsE)
  have "run_steps (web_app_steps K app) app w = (None, w3)"
    using w1(1) w2(1) w3(1) by (simp add: web_app_steps_def)
  then show ?thesis using w1(2) w2(2) w3(2) by (simp add: reconcileWebApp_def reconciled_def)
qed

definition became_ready :: "WebApp \<Rightarrow> WebApp" where
  "became_ready app = (if st_Phase (wa_Status app) = WebAppPhaseReady then app else ready_status app)"

definition managed :: "'w ClusterOps \<Rightarrow> WebApp \<Rightarrow> Cluster \<Rightarrow> bool" where
  "managed K app v \<longleftrightarrow> cl_apps v (key_of app) = Some app \<and> wa_DeletionTimestamp app = None \<and> co_ContainsFinalizer K app \<and> claimable app v"

lemma became_ready_simps:
  "key_of (became_ready app) = key_of app" "wa_Spec (became_ready app) = wa_Spec app" "wa_Name (became_ready app) = wa_Name app"
  "wa_DeletionTimestamp (became_ready app) = wa_DeletionTimestamp app" "st_Phase (wa_Status (became_ready app)) = WebAppPhaseReady"
  "became_ready (became_ready app) = became_ready app"
  by (auto simp: became_ready_def ready_status_def key_of_def)

lemma owned_simps:
  "owned_deployment (became_ready app) = owned_deployment app" "owned_service (became_ready app) = owned_service app"
  by (simp_all add: owned_deployment_def owned_service_def desired_deployment_def desired_container_def desired_service_def became_ready_simps)

lemma round_managed:
  assumes laws: "cluster_laws K view" and m: "managed K app (view w)"
  shows "\<exists>w'. Reconcile K iv (key_of app) w = ((no_result\<lparr>cr_RequeueAfter := iv\<rparr>, None), w') \<and>
    view w' = (reconciled app (view w))\<lparr>cl_apps := (cl_apps (view w))(key_of app \<mapsto> became_ready app)\<rparr>"
proof -
  note L = cluster_lawsD [OF laws]
  have "claimable app (view w)" using m by (simp add: managed_def)
  from reconcileWebApp_ok [OF laws this] obtain w1 where
    w1: "reconcileWebApp K app w = ((no_result, None), w1)" "view w1 = reconciled app (view w)" by blast
  have R: "Reconcile K iv (key_of app) w = finish_reconcile K iv app w1"
    using m Get_stored [OF L(1), of w "key_of app" app] w1(1) by (simp add: Reconcile_def managed_def)
  have stored: "cl_apps (view w1) (key_of app) = Some app" using m w1(2) by (simp add: reconciled_def managed_def)
  show ?thesis
  proof (cases "st_Phase (wa_Status app) = WebAppPhaseReady")
    case True
    then show ?thesis using R w1(2) stored
      by (simp add: finish_reconcile_def became_ready_def reconciled_def fun_upd_idem)
  next
    case False
    have "yields view (co_StatusUpdate K (ready_status app) w1) ((view w1)\<lparr>cl_apps := (cl_apps (view w1))(key_of app \<mapsto> ready_status app)\<rparr>)"
      using L(3) stored unfolding update_law_def ready_status_def by blast
    then obtain w2 where "co_StatusUpdate K (ready_status app) w1 = (None, w2)"
      "view w2 = (view w1)\<lparr>cl_apps := (cl_apps (view w1))(key_of app \<mapsto> ready_status app)\<rparr>" by (rule yieldsE)
    then show ?thesis using R w1(2) False L(6) by (simp add: finish_reconcile_def became_ready_def reconciled_def other_law_def)
  qed
qed

lemma managed_stays:
  assumes laws: "cluster_laws K view" and m: "managed K app v"
  shows "managed K (became_ready app) ((reconciled app v)\<lparr>cl_apps := (cl_apps v)(key_of app \<mapsto> became_ready app)\<rparr>)"
proof -
  have "co_ContainsFinalizer K (became_ready app)"
    using m cluster_lawsD(2) [OF laws] by (auto simp: managed_def became_ready_def ready_status_def finalizer_law_def)
  then show ?thesis using m
    by (simp add: managed_def claimable_def became_ready_simps owned_simps reconciled_def dep_or_new_def svc_or_new_def)
      (simp add: owned_deployment_def owned_service_def same_selector_def)
qed

lemma round_fixpoint:
  "(reconciled (became_ready app) ((reconciled app v)\<lparr>cl_apps := m\<rparr>)) = (reconciled app v)\<lparr>cl_apps := m\<rparr>"
  by (simp add: reconciled_def became_ready_simps owned_simps)

lemma round_unmanaged:
  assumes laws: "cluster_laws K view" and a: "cl_apps (view w) (key_of app) = Some app" "wa_DeletionTimestamp app = None"
    and n: "\<not> co_ContainsFinalizer K app"
  shows "\<exists>w'. Reconcile K iv (key_of app) w = ((no_result\<lparr>cr_Requeue := True\<rparr>, None), w') \<and>
    view w' = (view w)\<lparr>cl_apps := (cl_apps (view w))(key_of app \<mapsto> co_AddFinalizer K app)\<rparr>"
proof -
  note L = cluster_lawsD [OF laws]
  obtain fs where fs: "co_AddFinalizer K app = app\<lparr>wa_Finalizers := fs\<rparr>" using AddFinalizer_fields [OF L(2)] by blast
  have "yields view (co_Update K (co_AddFinalizer K app) w) ((view w)\<lparr>cl_apps := (cl_apps (view w))(key_of app \<mapsto> co_AddFinalizer K app)\<rparr>)"
    using L(3) a(1) unfolding update_law_def fs by blast
  then obtain w' where "co_Update K (co_AddFinalizer K app) w = (None, w')"
    "view w' = (view w)\<lparr>cl_apps := (cl_apps (view w))(key_of app \<mapsto> co_AddFinalizer K app)\<rparr>" by (rule yieldsE)
  then show ?thesis using a n Get_stored [OF L(1) a(1)] by (simp add: Reconcile_def)
qed

lemma managed_after_finalizer:
  assumes laws: "cluster_laws K view" and a: "wa_DeletionTimestamp app = None" "claimable app v"
  shows "managed K (co_AddFinalizer K app) (v\<lparr>cl_apps := (cl_apps v)(key_of app \<mapsto> co_AddFinalizer K app)\<rparr>)"
    and "key_of (co_AddFinalizer K app) = key_of app" "wa_Spec (co_AddFinalizer K app) = wa_Spec app"
      "wa_Name (co_AddFinalizer K app) = wa_Name app"
proof -
  have L: "finalizer_law K" by (rule cluster_lawsD [OF laws])
  obtain fs where fs: "co_AddFinalizer K app = app\<lparr>wa_Finalizers := fs\<rparr>" using AddFinalizer_fields [OF L] by blast
  show "key_of (co_AddFinalizer K app) = key_of app" "wa_Spec (co_AddFinalizer K app) = wa_Spec app" "wa_Name (co_AddFinalizer K app) = wa_Name app"
    by (simp_all add: fs key_of_def)
  have "co_ContainsFinalizer K (app\<lparr>wa_Finalizers := fs\<rparr>)" using L unfolding finalizer_law_def fs [symmetric] by blast
  then show "managed K (co_AddFinalizer K app) (v\<lparr>cl_apps := (cl_apps v)(key_of app \<mapsto> co_AddFinalizer K app)\<rparr>)"
    using a unfolding fs
    by (simp add: managed_def claimable_def key_of_def owned_deployment_def desired_deployment_def desired_container_def same_selector_def)
qed

lemma rounds_managed:
  assumes laws: "cluster_laws K view" and m: "managed K app (view w)"
    and w': "w' = snd (Reconcile K iv (key_of app) w)"
  shows "managed K (became_ready app) (view w')" "cl_deps (view w') (key_of app) = Some (owned_deployment app)"
    "cl_svcs (view w') (key_of app) = Some (owned_service app)"
    "\<exists>w''. Reconcile K iv (key_of app) w' = ((no_result\<lparr>cr_RequeueAfter := iv\<rparr>, None), w'') \<and> view w'' = view w'"
proof -
  from round_managed [OF laws m, of iv] w' have v: "view w' = (reconciled app (view w))\<lparr>cl_apps := (cl_apps (view w))(key_of app \<mapsto> became_ready app)\<rparr>"
    by auto
  show m': "managed K (became_ready app) (view w')" unfolding v by (rule managed_stays [OF laws m])
  show "cl_deps (view w') (key_of app) = Some (owned_deployment app)" "cl_svcs (view w') (key_of app) = Some (owned_service app)"
    by (simp_all add: v reconciled_def)
  from round_managed [OF laws m', of iv] show "\<exists>w''. Reconcile K iv (key_of app) w' = ((no_result\<lparr>cr_RequeueAfter := iv\<rparr>, None), w'') \<and> view w'' = view w'"
    unfolding became_ready_simps by (simp add: v round_fixpoint)
qed

section \<open>Properties\<close>

text \<open>
  C32: in a cluster without failures two rounds of the reconciler make an application that is not being deleted ready, whatever its deployment and service looked
  like, as long as no one else owns them and the deployment is of the same version: the finalizer is set, both objects have the specification of the application and it as their
  owner, and a further round asks to be called again after the interval and changes nothing.
\<close>
theorem web_app_becomes_ready:
  assumes laws: "cluster_laws K view" and a: "cl_apps (view w) (key_of app) = Some app" "wa_DeletionTimestamp app = None"
    and c: "claimable app (view w)" and w2: "w2 = snd (Reconcile K iv (key_of app) (snd (Reconcile K iv (key_of app) w)))"
  shows "\<exists>app' w3. cl_apps (view w2) (key_of app) = Some app' \<and> co_ContainsFinalizer K app' \<and> wa_Spec app' = wa_Spec app \<and>
    st_Phase (wa_Status app') = WebAppPhaseReady \<and> cl_deps (view w2) (key_of app) = Some (owned_deployment app) \<and>
    cl_svcs (view w2) (key_of app) = Some (owned_service app) \<and>
    Reconcile K iv (key_of app) w2 = ((no_result\<lparr>cr_RequeueAfter := iv\<rparr>, None), w3) \<and> view w3 = view w2"
proof (cases "co_ContainsFinalizer K app")
  case True
  with a c have m: "managed K app (view w)" by (simp add: managed_def)
  note R = rounds_managed [OF laws m refl, of iv]
  from R(4) obtain w1 where w1: "Reconcile K iv (key_of app) (snd (Reconcile K iv (key_of app) w)) = ((no_result\<lparr>cr_RequeueAfter := iv\<rparr>, None), w1)"
    "view w1 = view (snd (Reconcile K iv (key_of app) w))" by blast
  with w2 have "view w2 = view (snd (Reconcile K iv (key_of app) w))" by simp
  with R(1-3) have m2: "managed K (became_ready app) (view w2)" and o: "cl_deps (view w2) (key_of app) = Some (owned_deployment app)"
    "cl_svcs (view w2) (key_of app) = Some (owned_service app)" by simp_all
  have "\<exists>w3. Reconcile K iv (key_of app) w2 = ((no_result\<lparr>cr_RequeueAfter := iv\<rparr>, None), w3) \<and> view w3 = view w2"
    using rounds_managed(4) [OF laws R(1), of w2 iv] w2 by (simp add: became_ready_simps)
  then show ?thesis using m2 o by (auto simp: managed_def became_ready_simps intro!: exI [of _ "became_ready app"])
next
  case False
  let ?app = "co_AddFinalizer K app" and ?w1 = "snd (Reconcile K iv (key_of app) w)"
  have "view ?w1 = (view w)\<lparr>cl_apps := (cl_apps (view w))(key_of app \<mapsto> ?app)\<rparr>"
    using round_unmanaged [OF laws a False, of iv] by auto
  with managed_after_finalizer(1) [OF laws a(2) c] have m: "managed K ?app (view ?w1)" by simp
  note F = managed_after_finalizer(2-4) [OF laws a(2) c]
  have o: "owned_deployment ?app = owned_deployment app" "owned_service ?app = owned_service app"
    by (simp_all add: owned_deployment_def owned_service_def desired_deployment_def desired_container_def desired_service_def F)
  from rounds_managed [OF laws m, of w2 iv] w2 show ?thesis
    by (auto simp: managed_def became_ready_simps F o intro!: exI [of _ "became_ready ?app"])
qed

text \<open>
  once an application is ready, a new generation is never recorded as observed. A round brings deployment and service up to date
  but leaves the status as it is, however many rounds follow.
\<close>
theorem new_generation_not_observed:
  assumes laws: "cluster_laws K view" and m: "managed K app (view w)" and r: "st_Phase (wa_Status app) = WebAppPhaseReady"
  shows "cl_apps (view (((\<lambda>w. snd (Reconcile K iv (key_of app) w)) ^^ n) w)) (key_of app) = Some app"
proof -
  have b: "became_ready app = app" using r by (simp add: became_ready_def)
  have "managed K app (view (((\<lambda>w. snd (Reconcile K iv (key_of app) w)) ^^ n) w))"
  proof (induction n)
    case (Suc n)
    from rounds_managed(1) [OF laws Suc refl, of iv] show ?case by (simp add: b)
  qed (simp add: m)
  then show ?thesis by (simp add: managed_def)
qed

text \<open>
  C33: an application cannot change its version. The version is part of the selector of the deployment, which cannot be changed, so that
  the round fails, the old deployment stays and the application is marked as failed.
\<close>
theorem version_change_refused:
  assumes laws: "cluster_laws K view" and a: "cl_apps (view w) (key_of app) = Some app" "wa_DeletionTimestamp app = None" "co_ContainsFinalizer K app"
    and d: "cl_deps (view w) (key_of app) = Some d" "dp_Owner d = [wa_Name app]" "dp_Spec d = Some sp"
    and v: "map_of (dp_MatchLabels sp) ''version'' \<noteq> Some (sp_Version (wa_Spec app))"
  shows "\<exists>err w'. Reconcile K iv (key_of app) w = ((no_result, Some err), w') \<and> cl_deps (view w') = cl_deps (view w) \<and>
    cl_apps (view w') (key_of app) = Some (failed_status err app)"
proof -
  note L = cluster_lawsD [OF laws]
  have "mutate_deployment K app (dep_or_new (cl_deps (view w) (key_of app))) = Inr (owned_deployment app)"
    using d L(4) by (auto simp: mutate_deployment_def dep_or_new_def owner_law_def owned_deployment_def)
  moreover have "\<not> same_selector (dep_or_new (cl_deps (view w) (key_of app))) (owned_deployment app)"
    using d v by (auto simp: same_selector_def dep_or_new_def owned_deployment_def desired_deployment_def Let_def)
  ultimately obtain err where "reconcileDeployment K app w = (Some err, w)"
    using L(5) unfolding object_law_def reconcileDeployment_def key_of_def by blast
  then have steps: "run_steps (web_app_steps K app) app w = (Some err, w)" by (simp add: web_app_steps_def)
  have "yields view (co_StatusUpdate K (failed_status err app) w) ((view w)\<lparr>cl_apps := (cl_apps (view w))(key_of app \<mapsto> failed_status err app)\<rparr>)"
    using L(3) a(1) unfolding update_law_def failed_status_def by blast
  then obtain w2 where w2: "co_StatusUpdate K (failed_status err app) w = (None, w2)"
    "view w2 = (view w)\<lparr>cl_apps := (cl_apps (view w))(key_of app \<mapsto> failed_status err app)\<rparr>" by (rule yieldsE)
  have "Reconcile K iv (key_of app) w = ((no_result, Some err), co_Event K (failed_status err app) (''Warning'', ''ReconcileError'', err) w2)"
    using Get_stored [OF L(1) a(1)] a(2,3) steps w2(1) by (simp add: Reconcile_def reconcileWebApp_def Let_def)
  then show ?thesis using w2(2) L(6) by (simp add: other_law_def)
qed

text \<open>A round in which a reconciler fails records the failure in the status and the events, and reports the error.\<close>

lemma failing_round:
  assumes "co_Get K key w = Inr app" "wa_DeletionTimestamp app = None" "co_ContainsFinalizer K app"
    and "run_steps (web_app_steps K app) app w = (Some err, w1)" "co_StatusUpdate K (failed_status err app) w1 = (r, w2)"
  shows "Reconcile K iv key w = ((no_result, Some err), co_Event K (failed_status err app) (''Warning'', ''ReconcileError'', err) w2)"
  using assms by (simp add: Reconcile_def reconcileWebApp_def Let_def)

section \<open>A cluster of maps\<close>

definition map_cluster :: "Cluster ClusterOps" where
  "map_cluster =
     \<lparr>co_Get = (\<lambda>k w. case cl_apps w k of None \<Rightarrow> Inl NotFound | Some a \<Rightarrow> Inr a),
      co_Update = (\<lambda>a w. (None, w\<lparr>cl_apps := (cl_apps w)(key_of a \<mapsto> a)\<rparr>)),
      co_StatusUpdate = (\<lambda>a w. (None, w\<lparr>cl_apps := (cl_apps w)(key_of a \<mapsto> a)\<rparr>)),
      co_ContainsFinalizer = (\<lambda>a. ''f'' \<in> set (wa_Finalizers a)), co_AddFinalizer = (\<lambda>a. a\<lparr>wa_Finalizers := wa_Finalizers a @ [''f'']\<rparr>),
      co_RemoveFinalizer = (\<lambda>a. a\<lparr>wa_Finalizers := removeAll ''f'' (wa_Finalizers a)\<rparr>),
      co_SetControllerReference = (\<lambda>a os. if os = [] \<or> os = [wa_Name a] then Inr [wa_Name a] else Inl ''already owned''),
      co_CreateOrUpdateDeployment = (\<lambda>k f w. case f (dep_or_new (cl_deps w k)) of
         Inl err \<Rightarrow> (Some err, w)
       | Inr d \<Rightarrow> if same_selector (dep_or_new (cl_deps w k)) d then (None, w\<lparr>cl_deps := (cl_deps w)(k \<mapsto> d)\<rparr>)
                else (Some ''field is immutable'', w)),
      co_CreateOrUpdateService = (\<lambda>k f w. case f (svc_or_new (cl_svcs w k)) of
         Inl err \<Rightarrow> (Some err, w) | Inr d \<Rightarrow> (None, w\<lparr>cl_svcs := (cl_svcs w)(k \<mapsto> d)\<rparr>)),
      co_reconcileConfigMap = (\<lambda>a w. (None, w)), co_reconcileHPA = (\<lambda>a w. (None, w)), co_reconcilePDB = (\<lambda>a w. (None, w)),
      co_reconcileServiceMonitor = (\<lambda>a w. (None, w)), co_reconcileIngress = (\<lambda>a w. (None, w)), co_Event = (\<lambda>a e w. w)\<rparr>"

lemma map_cluster_laws: "cluster_laws map_cluster (\<lambda>w. w)"
proof -
  have "read_law map_cluster (\<lambda>w. w)" by (simp add: read_law_def map_cluster_def)
  moreover have "finalizer_law map_cluster" by (auto simp: finalizer_law_def map_cluster_def)
  moreover have "update_law map_cluster (\<lambda>w. w)" by (simp add: update_law_def map_cluster_def yields_def key_of_def)
  moreover have "owner_law map_cluster" by (simp add: owner_law_def map_cluster_def)
  moreover have "object_law map_cluster (\<lambda>w. w)" by (simp add: object_law_def map_cluster_def yields_def)
  moreover have "other_law map_cluster (\<lambda>w. w)" by (simp add: other_law_def benign_def yields_def map_cluster_def)
  ultimately show ?thesis by (simp add: cluster_laws_def)
qed

definition sample_app :: "WebAppPhase \<Rightarrow> string list \<Rightarrow> WebApp" where
  "sample_app phase fs =
     \<lparr>wa_Name = ''shop'', wa_Namespace = ''default'', wa_Generation = 2, wa_DeletionTimestamp = None, wa_Finalizers = fs,
      wa_Spec = \<lparr>sp_Replicas = 3, sp_Version = ''v1'', sp_Image = ''shop:1'', sp_Resources = JNull, sp_Env = [], sp_Config = None,
        sp_Autoscaling = Some True, sp_PodDisruptionBudget = None, sp_Monitoring = None, sp_Ingress = None\<rparr>,
      wa_Status = \<lparr>st_Phase = phase, st_Message = '''', st_ObservedGeneration = 1\<rparr>\<rparr>"

definition sample_cluster :: "WebApp \<Rightarrow> Cluster" where
  "sample_cluster app = \<lparr>cl_apps = [key_of app \<mapsto> app], cl_deps = Map.empty, cl_svcs = Map.empty\<rparr>"

lemma sample_claimable: "claimable app (sample_cluster app)"
  by (simp add: claimable_def sample_cluster_def dep_or_new_def svc_or_new_def same_selector_def)

theorem web_app_becomes_ready_witness:
  "\<exists>app'. cl_apps (snd (Reconcile map_cluster 30 (''default'', ''shop'') (snd (Reconcile map_cluster 30 (''default'', ''shop'')
       (sample_cluster (sample_app WebAppPhaseUnset [])))))) (''default'', ''shop'') = Some app' \<and>
     st_Phase (wa_Status app') = WebAppPhaseReady \<and> co_ContainsFinalizer map_cluster app'"
proof -
  let ?a = "sample_app WebAppPhaseUnset []"
  have k: "key_of ?a = (''default'', ''shop'')" by (simp add: key_of_def sample_app_def)
  have "cl_apps (sample_cluster ?a) (key_of ?a) = Some ?a" "wa_DeletionTimestamp ?a = None"
    by (simp_all add: sample_cluster_def sample_app_def)
  from web_app_becomes_ready [OF map_cluster_laws this sample_claimable refl, of 30] show ?thesis unfolding k by blast
qed

theorem new_generation_not_observed_witness:
  "cl_apps (((\<lambda>w. snd (Reconcile map_cluster 30 (''default'', ''shop'') w)) ^^ 5) (sample_cluster (sample_app WebAppPhaseReady [''f'']))) (''default'', ''shop'') =
     Some (sample_app WebAppPhaseReady [''f'']) \<and>
   st_ObservedGeneration (wa_Status (sample_app WebAppPhaseReady [''f''])) < wa_Generation (sample_app WebAppPhaseReady [''f''])"
proof -
  let ?a = "sample_app WebAppPhaseReady [''f'']"
  have k: "key_of ?a = (''default'', ''shop'')" by (simp add: key_of_def sample_app_def)
  have "managed map_cluster ?a (sample_cluster ?a)"
    using sample_claimable [of ?a] by (simp add: managed_def) (simp add: sample_cluster_def sample_app_def map_cluster_def)
  from new_generation_not_observed [OF map_cluster_laws this, where iv = 30 and n = 5] have
    "cl_apps (((\<lambda>w. snd (Reconcile map_cluster 30 (key_of ?a) w)) ^^ 5) (sample_cluster ?a)) (key_of ?a) = Some ?a"
    by (simp add: sample_app_def)
  then show ?thesis unfolding k by (simp add: sample_app_def)
qed

theorem version_change_refused_witness:
  "\<exists>err w'. Reconcile map_cluster 30 (''default'', ''shop'')
     ((sample_cluster (sample_app WebAppPhaseReady [''f'']))\<lparr>cl_deps := [(''default'', ''shop'') \<mapsto> \<lparr>dp_Owner = [''shop''],
        dp_Spec = Some ((desired_deployment (sample_app WebAppPhaseReady [''f'']))\<lparr>dp_MatchLabels := [(''version'', ''v0'')]\<rparr>)\<rparr>]\<rparr>) =
     ((no_result, Some err), w')"
proof -
  let ?a = "sample_app WebAppPhaseReady [''f'']"
  let ?sp = "(desired_deployment ?a)\<lparr>dp_MatchLabels := [(''version'', ''v0'')]\<rparr>"
  let ?w = "(sample_cluster ?a)\<lparr>cl_deps := [(''default'', ''shop'') \<mapsto> \<lparr>dp_Owner = [''shop''], dp_Spec = Some ?sp\<rparr>]\<rparr>"
  have k: "key_of ?a = (''default'', ''shop'')" by (simp add: key_of_def sample_app_def)
  have "cl_apps ?w (key_of ?a) = Some ?a" "wa_DeletionTimestamp ?a = None" "co_ContainsFinalizer map_cluster ?a"
    by (simp_all add: sample_cluster_def sample_app_def map_cluster_def)
  moreover have "cl_deps ?w (key_of ?a) = Some \<lparr>dp_Owner = [''shop''], dp_Spec = Some ?sp\<rparr>" by (simp add: k)
  ultimately show ?thesis
    using version_change_refused [OF map_cluster_laws, of ?w ?a "\<lparr>dp_Owner = [''shop''], dp_Spec = Some ?sp\<rparr>" ?sp 30] unfolding k
    by (auto simp: sample_app_def)
qed

end
