(* ===== verification/Cache_Node.thy ===== *)
theory Cache_Node
  imports Go_Float
begin

text \<open>
  The HTTP handlers of the cache node, \<open>distributed-cache/services/cache-node/main.go\<close>. The cache, the hash ring, the detector of hot keys, the circuit breakers
  and the replication are packages that are not in the repository; their calls are the parameter \<open>CacheOps\<close> on a world \<open>'w\<close>. \<open>cn_counts\<close> has the
  labels of the counter of operations. What gin makes of a body is an argument, with the error of a failed binding; the latency histogram, the
  gauges and the wiring are left out.

  The lemmas show that single operations and batches implement a map when the cache does, that every operation is counted once, and where
  batches go around the protection of hot keys.
\<close>

section \<open>Data\<close>

record hot_key_Config =
  hk_ThresholdRPS :: int
  hk_WindowSeconds :: int
  hk_Strategy :: string

record circuit_breaker_Config =
  cb_FailureThreshold :: int
  cb_SuccessThreshold :: int
  cb_Timeout :: duration

record BreakerStatus =
  bs_state :: string
  bs_failure_count :: int
  bs_success_count :: int
  bs_last_failure :: gotime

record ('w, 'i) CacheOps =
  ca_IsHealthy :: "'w \<Rightarrow> bool"
  ca_RingHealthy :: "'w \<Rightarrow> bool"
  ca_Uptime :: "gotime \<Rightarrow> 'w \<Rightarrow> string"
  ca_Get :: "string \<Rightarrow> 'w \<Rightarrow> (goerror + json option) \<times> 'w"
  ca_Put :: "string \<Rightarrow> json \<Rightarrow> duration \<Rightarrow> 'w \<Rightarrow> goerror option \<times> 'w"
  ca_Delete :: "string \<Rightarrow> 'w \<Rightarrow> goerror option \<times> 'w"
  ca_Exists :: "string \<Rightarrow> 'w \<Rightarrow> bool"
  ca_Expire :: "string \<Rightarrow> duration \<Rightarrow> 'w \<Rightarrow> goerror option \<times> 'w"
  ca_TTL :: "string \<Rightarrow> 'w \<Rightarrow> goerror + duration"
  ca_Flush :: "'w \<Rightarrow> goerror option \<times> 'w"
  ca_IsHotKey :: "string \<Rightarrow> 'w \<Rightarrow> bool"
  ca_RecordAccess :: "string \<Rightarrow> 'w \<Rightarrow> 'w"
  ca_GetHotKeys :: "'w \<Rightarrow> string list"
  ca_UpdateHotKeyConfig :: "hot_key_Config \<Rightarrow> 'w \<Rightarrow> goerror option \<times> 'w"
  ca_IsOpen :: "string \<Rightarrow> 'w \<Rightarrow> bool"
  ca_GetAllBreakers :: "'w \<Rightarrow> (string, BreakerStatus) gomap"
  ca_UpdateBreakerConfig :: "circuit_breaker_Config \<Rightarrow> 'w \<Rightarrow> goerror option \<times> 'w"
  ca_WriteThrough :: "string \<Rightarrow> json \<Rightarrow> duration \<Rightarrow> 'w \<Rightarrow> goerror option \<times> 'w"
  ca_Rebalance :: "'w \<Rightarrow> goerror option \<times> 'w"
  ca_AddNode :: "string \<Rightarrow> string \<Rightarrow> 'w \<Rightarrow> goerror option \<times> 'w"
  ca_RemoveNode :: "string \<Rightarrow> 'w \<Rightarrow> goerror option \<times> 'w"
  ca_Info :: "string \<Rightarrow> 'w \<Rightarrow> 'i"

record 'w CacheNode =
  cn_NodeID :: string
  cn_world :: 'w
  cn_counts :: "(string \<times> string) list"

text \<open>The result of one operation of a batch.\<close>

datatype batch_result = BatchError string | BatchValue json | BatchSuccess

record cache_BatchOp =
  bt_Op :: string
  bt_Key :: string
  bt_Value :: json
  bt_TTL :: int

datatype 'i cache_body =
  CacheError string | CacheStatus string | CacheHealth string string string string | CacheValue string json | CacheMessage string
  | CacheKeyMessage string string | CacheResults "(string \<times> string \<times> batch_result) list" | CacheExists string bool | CacheTTLSet string string int
  | CacheTTL string int | CacheHotKeys "string list" | CacheBreakers "(string, BreakerStatus) gomap" | CacheInfo 'i

section \<open>Single operations\<close>

definition count_op :: "string \<Rightarrow> string \<Rightarrow> 'w CacheNode \<Rightarrow> 'w CacheNode" where
  "count_op op status s = s\<lparr>cn_counts := cn_counts s @ [(op, status)]\<rparr>"

text \<open>A duration of whole seconds, in 64 bits.\<close>

definition ttl_duration :: "int \<Rightarrow> duration" where
  "ttl_duration ttl = wrap64 (ttl * second)"

definition record_access :: "('w, 'i) CacheOps \<Rightarrow> string \<Rightarrow> 'w CacheNode \<Rightarrow> 'w CacheNode" where
  "record_access C key s = s\<lparr>cn_world := ca_RecordAccess C key (cn_world s)\<rparr>"

definition handleHealth :: "('w, 'i) CacheOps \<Rightarrow> gotime \<Rightarrow> 'w CacheNode \<Rightarrow> int \<times> 'i cache_body" where
  "handleHealth C now s =
     (if \<not> ca_IsHealthy C (cn_world s) \<or> \<not> ca_RingHealthy C (cn_world s) then (503, CacheStatus ''unhealthy'')
      else (200, CacheHealth ''healthy'' (cn_NodeID s) (ca_Uptime C now (cn_world s)) ''1.0.0''))"

definition handleGet :: "('w, 'i) CacheOps \<Rightarrow> string \<Rightarrow> 'w CacheNode \<Rightarrow> (int \<times> 'i cache_body) \<times> 'w CacheNode" where
  "handleGet C key s =
     (if ca_IsHotKey C key (cn_world s) \<and> ca_IsOpen C key (cn_world s)
      then ((503, CacheError ''Circuit breaker open for hot key''), count_op ''get'' ''circuit_breaker_open'' s)
      else case ca_Get C key (cn_world s) of
        (Inl err, w) \<Rightarrow> ((500, CacheError err), count_op ''get'' ''error'' (s\<lparr>cn_world := w\<rparr>))
      | (Inr None, w) \<Rightarrow> ((404, CacheError ''Key not found''), count_op ''get'' ''miss'' (s\<lparr>cn_world := w\<rparr>))
      | (Inr (Some value), w) \<Rightarrow> ((200, CacheValue key value), record_access C key (count_op ''get'' ''hit'' (s\<lparr>cn_world := w\<rparr>))))"

text \<open>A value that is absent or null does not bind.\<close>

definition bind_put :: "(json option \<times> int) option \<Rightarrow> (json \<times> int) option" where
  "bind_put body = (case body of Some (Some v, ttl) \<Rightarrow> if v = JNull then None else Some (v, ttl) | _ \<Rightarrow> None)"

definition store_key :: "('w, 'i) CacheOps \<Rightarrow> string \<Rightarrow> json \<Rightarrow> int \<Rightarrow> 'w CacheNode \<Rightarrow> (int \<times> 'i cache_body) \<times> 'w CacheNode" where
  "store_key C key value ttl s =
     (case ca_Put C key value (ttl_duration ttl) (cn_world s) of
        (Some err, w) \<Rightarrow> ((500, CacheError err), count_op ''put'' ''error'' (s\<lparr>cn_world := w\<rparr>))
      | (None, w) \<Rightarrow>
          ((200, CacheKeyMessage ''Key stored successfully'' key), record_access C key (count_op ''put'' ''success'' (s\<lparr>cn_world := w\<rparr>))))"

definition handlePut ::
  "('w, 'i) CacheOps \<Rightarrow> string \<Rightarrow> string \<Rightarrow> (json option \<times> int) option \<Rightarrow> 'w CacheNode \<Rightarrow> (int \<times> 'i cache_body) \<times> 'w CacheNode" where
  "handlePut C bindErr key body s =
     (case bind_put body of
        None \<Rightarrow> ((400, CacheError bindErr), s)
      | Some (value, ttl) \<Rightarrow>
          if ca_IsHotKey C key (cn_world s)
          then (case ca_WriteThrough C key value (ttl_duration ttl) (cn_world s) of
                  (Some err, w) \<Rightarrow> ((500, CacheError err), count_op ''put'' ''write_through_error'' (s\<lparr>cn_world := w\<rparr>))
                | (None, w) \<Rightarrow> store_key C key value ttl (s\<lparr>cn_world := w\<rparr>))
          else store_key C key value ttl s)"

definition handleDelete :: "('w, 'i) CacheOps \<Rightarrow> string \<Rightarrow> 'w CacheNode \<Rightarrow> (int \<times> 'i cache_body) \<times> 'w CacheNode" where
  "handleDelete C key s =
     (case ca_Delete C key (cn_world s) of
        (Some err, w) \<Rightarrow> ((500, CacheError err), count_op ''delete'' ''error'' (s\<lparr>cn_world := w\<rparr>))
      | (None, w) \<Rightarrow> ((200, CacheKeyMessage ''Key deleted successfully'' key), count_op ''delete'' ''success'' (s\<lparr>cn_world := w\<rparr>)))"

definition handleExists :: "('w, 'i) CacheOps \<Rightarrow> string \<Rightarrow> 'w CacheNode \<Rightarrow> (int \<times> 'i cache_body) \<times> 'w CacheNode" where
  "handleExists C key s = ((200, CacheExists key (ca_Exists C key (cn_world s))), count_op ''exists'' ''success'' s)"

text \<open>A TTL of 0 does not bind: a required number must not be zero.\<close>

definition handleExpire ::
  "('w, 'i) CacheOps \<Rightarrow> string \<Rightarrow> string \<Rightarrow> int option \<Rightarrow> 'w CacheNode \<Rightarrow> (int \<times> 'i cache_body) \<times> 'w CacheNode" where
  "handleExpire C bindErr key body s =
     (case body of
        None \<Rightarrow> ((400, CacheError bindErr), s)
      | Some ttl \<Rightarrow>
          if ttl = 0 then ((400, CacheError bindErr), s)
          else case ca_Expire C key (ttl_duration ttl) (cn_world s) of
            (Some err, w) \<Rightarrow> ((500, CacheError err), count_op ''expire'' ''error'' (s\<lparr>cn_world := w\<rparr>))
          | (None, w) \<Rightarrow> ((200, CacheTTLSet ''TTL set successfully'' key ttl), count_op ''expire'' ''success'' (s\<lparr>cn_world := w\<rparr>)))"

definition handleTTL :: "('w, 'i) CacheOps \<Rightarrow> string \<Rightarrow> 'w CacheNode \<Rightarrow> (int \<times> 'i cache_body) \<times> 'w CacheNode" where
  "handleTTL C key s =
     (case ca_TTL C key (cn_world s) of
        Inl err \<Rightarrow> ((500, CacheError err), count_op ''ttl'' ''error'' s)
      | Inr ttl \<Rightarrow> ((200, CacheTTL key (go_int64 (Seconds ttl))), count_op ''ttl'' ''success'' s))"

section \<open>Batches\<close>

definition batch_get :: "('w, 'i) CacheOps \<Rightarrow> string \<Rightarrow> 'w CacheNode \<Rightarrow> batch_result \<times> 'w CacheNode" where
  "batch_get C key s =
     (case ca_Get C key (cn_world s) of
        (Inl err, w) \<Rightarrow> (BatchError err, count_op ''batch_get'' ''error'' (s\<lparr>cn_world := w\<rparr>))
      | (Inr None, w) \<Rightarrow> (BatchError ''Key not found'', count_op ''batch_get'' ''miss'' (s\<lparr>cn_world := w\<rparr>))
      | (Inr (Some value), w) \<Rightarrow> (BatchValue value, count_op ''batch_get'' ''hit'' (s\<lparr>cn_world := w\<rparr>)))"

definition batch_write :: "string \<Rightarrow> goerror option \<times> 'w \<Rightarrow> 'w CacheNode \<Rightarrow> batch_result \<times> 'w CacheNode" where
  "batch_write op r s =
     (case r of
        (Some err, w) \<Rightarrow> (BatchError err, count_op op ''error'' (s\<lparr>cn_world := w\<rparr>))
      | (None, w) \<Rightarrow> (BatchSuccess, count_op op ''success'' (s\<lparr>cn_world := w\<rparr>)))"

definition batch_op :: "('w, 'i) CacheOps \<Rightarrow> cache_BatchOp \<Rightarrow> 'w CacheNode \<Rightarrow> batch_result \<times> 'w CacheNode" where
  "batch_op C p s =
     (if bt_Op p = ''get'' then batch_get C (bt_Key p) s
      else if bt_Op p = ''put'' then batch_write ''batch_put'' (ca_Put C (bt_Key p) (bt_Value p) (ttl_duration (bt_TTL p)) (cn_world s)) s
      else if bt_Op p = ''delete'' then batch_write ''batch_delete'' (ca_Delete C (bt_Key p) (cn_world s)) s
      else (BatchError ''Unknown operation'', s))"

fun batch_ops :: "('w, 'i) CacheOps \<Rightarrow> cache_BatchOp list \<Rightarrow> 'w CacheNode \<Rightarrow> (string \<times> string \<times> batch_result) list \<times> 'w CacheNode" where
  "batch_ops C [] s = ([], s)"
| "batch_ops C (p # ps) s =
     (let (r, s1) = batch_op C p s; (rs, s2) = batch_ops C ps (record_access C (bt_Key p) s1) in ((bt_Op p, bt_Key p, r) # rs, s2))"

definition handleBatch ::
  "('w, 'i) CacheOps \<Rightarrow> string \<Rightarrow> cache_BatchOp list option \<Rightarrow> 'w CacheNode \<Rightarrow> (int \<times> 'i cache_body) \<times> 'w CacheNode" where
  "handleBatch C bindErr body s =
     (case body of
        None \<Rightarrow> ((400, CacheError bindErr), s)
      | Some ops \<Rightarrow> (let (results, s') = batch_ops C ops s in ((200, CacheResults results), s')))"

section \<open>Administration\<close>

definition info_handler :: "string \<Rightarrow> ('w, 'i) CacheOps \<Rightarrow> 'w CacheNode \<Rightarrow> int \<times> 'i cache_body" where
  "info_handler what C s = (200, CacheInfo (ca_Info C what (cn_world s)))"

definition handleHotKeys :: "('w, 'i) CacheOps \<Rightarrow> 'w CacheNode \<Rightarrow> int \<times> 'i cache_body" where
  "handleHotKeys C s = (200, CacheHotKeys (ca_GetHotKeys C (cn_world s)))"

definition handleCircuitBreakers :: "('w, 'i) CacheOps \<Rightarrow> 'w CacheNode \<Rightarrow> int \<times> 'i cache_body" where
  "handleCircuitBreakers C s = (200, CacheBreakers (ca_GetAllBreakers C (cn_world s)))"

text \<open>An administrative call answers with its error or with a message.\<close>

definition admin_answer :: "'i cache_body \<Rightarrow> goerror option \<times> 'w \<Rightarrow> 'w CacheNode \<Rightarrow> (int \<times> 'i cache_body) \<times> 'w CacheNode" where
  "admin_answer body r s =
     (case r of (Some err, w) \<Rightarrow> ((500, CacheError err), s\<lparr>cn_world := w\<rparr>) | (None, w) \<Rightarrow> ((200, body), s\<lparr>cn_world := w\<rparr>))"

definition handleRebalance :: "('w, 'i) CacheOps \<Rightarrow> 'w CacheNode \<Rightarrow> (int \<times> 'i cache_body) \<times> 'w CacheNode" where
  "handleRebalance C s = admin_answer (CacheMessage ''Rebalancing initiated'') (ca_Rebalance C (cn_world s)) s"

definition handleFlush :: "('w, 'i) CacheOps \<Rightarrow> 'w CacheNode \<Rightarrow> (int \<times> 'i cache_body) \<times> 'w CacheNode" where
  "handleFlush C s = admin_answer (CacheMessage ''Cache flushed successfully'') (ca_Flush C (cn_world s)) s"

definition handleHotKeyConfig ::
  "('w, 'i) CacheOps \<Rightarrow> string \<Rightarrow> (int \<times> int \<times> string) option \<Rightarrow> 'w CacheNode \<Rightarrow> (int \<times> 'i cache_body) \<times> 'w CacheNode" where
  "handleHotKeyConfig C bindErr body s =
     (case body of
        None \<Rightarrow> ((400, CacheError bindErr), s)
      | Some (rps, window, strategy) \<Rightarrow>
          admin_answer (CacheMessage ''Hot key configuration updated'')
            (ca_UpdateHotKeyConfig C \<lparr>hk_ThresholdRPS = rps, hk_WindowSeconds = window, hk_Strategy = strategy\<rparr> (cn_world s)) s)"

definition handleCircuitBreakerConfig ::
  "('w, 'i) CacheOps \<Rightarrow> string \<Rightarrow> (int \<times> int \<times> int) option \<Rightarrow> 'w CacheNode \<Rightarrow> (int \<times> 'i cache_body) \<times> 'w CacheNode" where
  "handleCircuitBreakerConfig C bindErr body s =
     (case body of
        None \<Rightarrow> ((400, CacheError bindErr), s)
      | Some (failures, successes, timeout) \<Rightarrow>
          admin_answer (CacheMessage ''Circuit breaker configuration updated'')
            (ca_UpdateBreakerConfig C \<lparr>cb_FailureThreshold = failures, cb_SuccessThreshold = successes, cb_Timeout = ttl_duration timeout\<rparr> (cn_world s)) s)"

definition handleJoinCluster ::
  "('w, 'i) CacheOps \<Rightarrow> string \<Rightarrow> (string \<times> string) option \<Rightarrow> 'w CacheNode \<Rightarrow> (int \<times> 'i cache_body) \<times> 'w CacheNode" where
  "handleJoinCluster C bindErr body s =
     (case body of
        None \<Rightarrow> ((400, CacheError bindErr), s)
      | Some (nodeID, address) \<Rightarrow>
          if nodeID = '''' \<or> address = '''' then ((400, CacheError bindErr), s)
          else admin_answer (CacheKeyMessage ''Node joined cluster'' nodeID) (ca_AddNode C nodeID address (cn_world s)) s)"

definition handleLeaveCluster ::
  "('w, 'i) CacheOps \<Rightarrow> string \<Rightarrow> string option \<Rightarrow> 'w CacheNode \<Rightarrow> (int \<times> 'i cache_body) \<times> 'w CacheNode" where
  "handleLeaveCluster C bindErr body s =
     (case body of
        None \<Rightarrow> ((400, CacheError bindErr), s)
      | Some nodeID \<Rightarrow>
          if nodeID = '''' then ((400, CacheError bindErr), s)
          else admin_answer (CacheKeyMessage ''Node left cluster'' nodeID) (ca_RemoveNode C nodeID (cn_world s)) s)"

section \<open>The map that a cache keeps\<close>

text \<open>
  What the handlers rely on when the cache does not fail and evicts nothing: \<open>view\<close> is the map that the cache keeps; detecting hot keys and
  writing to replicas leave it alone.
\<close>

definition cache_laws :: "('w, 'i) CacheOps \<Rightarrow> ('w \<Rightarrow> string \<rightharpoonup> json) \<Rightarrow> bool" where
  "cache_laws C view \<longleftrightarrow>
     (\<forall>k w. fst (ca_Get C k w) = Inr (view w k) \<and> view (snd (ca_Get C k w)) = view w) \<and>
     (\<forall>k v d w. fst (ca_Put C k v d w) = None \<and> view (snd (ca_Put C k v d w)) = (view w)(k \<mapsto> v)) \<and>
     (\<forall>k w. fst (ca_Delete C k w) = None \<and> view (snd (ca_Delete C k w)) = (view w)(k := None)) \<and>
     (\<forall>k w. view (ca_RecordAccess C k w) = view w) \<and> (\<forall>k v d w. view (snd (ca_WriteThrough C k v d w)) = view w)"

lemma cache_lawsD:
  assumes "cache_laws C view"
  obtains "\<And>k w. \<exists>w'. ca_Get C k w = (Inr (view w k), w') \<and> view w' = view w"
    "\<And>k v d w. \<exists>w'. ca_Put C k v d w = (None, w') \<and> view w' = (view w)(k \<mapsto> v)"
    "\<And>k w. \<exists>w'. ca_Delete C k w = (None, w') \<and> view w' = (view w)(k := None)"
    "\<And>k w. view (ca_RecordAccess C k w) = view w" "\<And>k v d w. view (snd (ca_WriteThrough C k v d w)) = view w"
proof (rule that)
  show "\<exists>w'. ca_Get C k w = (Inr (view w k), w') \<and> view w' = view w" for k w
    using assms by (intro exI [of _ "snd (ca_Get C k w)"]) (simp add: cache_laws_def prod_eq_iff)
  show "\<exists>w'. ca_Put C k v d w = (None, w') \<and> view w' = (view w)(k \<mapsto> v)" for k v d w
    using assms by (intro exI [of _ "snd (ca_Put C k v d w)"]) (simp add: cache_laws_def prod_eq_iff)
  show "\<exists>w'. ca_Delete C k w = (None, w') \<and> view w' = (view w)(k := None)" for k w
    using assms by (intro exI [of _ "snd (ca_Delete C k w)"]) (simp add: cache_laws_def prod_eq_iff)
qed (use assms in \<open>simp_all add: cache_laws_def\<close>)

text \<open>The operations of a batch on a map.\<close>

definition cache_map_op :: "cache_BatchOp \<Rightarrow> (string \<rightharpoonup> json) \<Rightarrow> batch_result \<times> (string \<rightharpoonup> json)" where
  "cache_map_op p m =
     (if bt_Op p = ''get'' then (case m (bt_Key p) of Some v \<Rightarrow> BatchValue v | None \<Rightarrow> BatchError ''Key not found'', m)
      else if bt_Op p = ''put'' then (BatchSuccess, m(bt_Key p \<mapsto> bt_Value p))
      else if bt_Op p = ''delete'' then (BatchSuccess, m(bt_Key p := None))
      else (BatchError ''Unknown operation'', m))"

fun cache_map_ops :: "cache_BatchOp list \<Rightarrow> (string \<rightharpoonup> json) \<Rightarrow> (string \<times> string \<times> batch_result) list \<times> (string \<rightharpoonup> json)" where
  "cache_map_ops [] m = ([], m)"
| "cache_map_ops (p # ps) m = (let (r, m1) = cache_map_op p m; (rs, m2) = cache_map_ops ps m1 in ((bt_Op p, bt_Key p, r) # rs, m2))"

definition known_op :: "cache_BatchOp \<Rightarrow> bool" where
  "known_op p \<longleftrightarrow> bt_Op p \<in> {''get'', ''put'', ''delete''}"

lemma batch_op_refines:
  assumes "cache_laws C view"
  shows "\<exists>s' c. batch_op C p s = (fst (cache_map_op p (view (cn_world s))), s') \<and> view (cn_world s') = snd (cache_map_op p (view (cn_world s))) \<and>
    cn_counts s' = cn_counts s @ c \<and> length c = (if known_op p then 1 else 0)"
proof -
  obtain w1 where g: "ca_Get C (bt_Key p) (cn_world s) = (Inr (view (cn_world s) (bt_Key p)), w1)" "view w1 = view (cn_world s)"
    by (rule cache_lawsD [OF assms]) blast
  obtain w2 where u: "ca_Put C (bt_Key p) (bt_Value p) (ttl_duration (bt_TTL p)) (cn_world s) = (None, w2)"
    "view w2 = (view (cn_world s))(bt_Key p \<mapsto> bt_Value p)"
    by (rule cache_lawsD [OF assms]) blast
  obtain w3 where d: "ca_Delete C (bt_Key p) (cn_world s) = (None, w3)" "view w3 = (view (cn_world s))(bt_Key p := None)"
    by (rule cache_lawsD [OF assms]) blast
  show ?thesis using g u d
    by (cases "view (cn_world s) (bt_Key p)")
      (simp_all add: batch_op_def batch_get_def batch_write_def cache_map_op_def count_op_def known_op_def)
qed

lemma batch_ops_refine:
  assumes "cache_laws C view"
  shows "\<exists>s' c. batch_ops C ps s = (fst (cache_map_ops ps (view (cn_world s))), s') \<and> view (cn_world s') = snd (cache_map_ops ps (view (cn_world s))) \<and>
    cn_counts s' = cn_counts s @ c \<and> length c = length (filter known_op ps)"
proof (induction ps arbitrary: s)
  case (Cons p ps)
  obtain s1 c where s1: "batch_op C p s = (fst (cache_map_op p (view (cn_world s))), s1)" "view (cn_world s1) = snd (cache_map_op p (view (cn_world s)))"
    "cn_counts s1 = cn_counts s @ c" "length c = (if known_op p then 1 else 0)"
    using batch_op_refines [OF assms, of p s] by blast
  have v: "view (cn_world (record_access C (bt_Key p) s1)) = view (cn_world s1)" "cn_counts (record_access C (bt_Key p) s1) = cn_counts s1"
    using assms by (simp_all add: record_access_def cache_laws_def)
  obtain s2 c2 where s2: "batch_ops C ps (record_access C (bt_Key p) s1) = (fst (cache_map_ops ps (view (cn_world s1))), s2)"
    "view (cn_world s2) = snd (cache_map_ops ps (view (cn_world s1)))" "cn_counts s2 = cn_counts s1 @ c2" "length c2 = length (filter known_op ps)"
    using Cons.IH [of "record_access C (bt_Key p) s1"] v by auto
  show ?case using s1 s2 by (intro exI [of _ s2] exI [of _ "c @ c2"]) (simp add: Let_def split: prod.split)
qed simp

section \<open>Properties\<close>

text \<open>
  C24: a batch implements the operations on a map, one after the other. When the cache keeps a map, the results are those of the map
  operations in the order of the batch, the cache keeps the map that they leave, and exactly the known operations are counted, each once.
\<close>
theorem batch_refines_map:
  assumes "cache_laws C view"
  shows "\<exists>s' c. handleBatch C bindErr (Some ops) s = ((200, CacheResults (fst (cache_map_ops ops (view (cn_world s))))), s') \<and>
    view (cn_world s') = snd (cache_map_ops ops (view (cn_world s))) \<and> cn_counts s' = cn_counts s @ c \<and> length c = length (filter known_op ops)"
  using batch_ops_refine [OF assms, of ops s] by (auto simp: handleBatch_def)

text \<open>
  a stored value is read back. When the cache keeps a map, a value that binds and whose write-through does not fail is stored with the
  answer 200, and the next read of its key answers it, unless the key is hot by then and its circuit breaker open.
\<close>
theorem put_then_get:
  assumes laws: "cache_laws C view" and v: "v \<noteq> JNull"
    and through: "ca_IsHotKey C key (cn_world s) \<Longrightarrow> fst (ca_WriteThrough C key v (ttl_duration ttl) (cn_world s)) = None"
    and p: "handlePut C bindErr key (Some (Some v, ttl)) s = (r, s1)"
    and closed: "\<not> (ca_IsHotKey C key (cn_world s1) \<and> ca_IsOpen C key (cn_world s1))"
  shows "fst r = 200 \<and> fst (handleGet C key s1) = (200, CacheValue key v)"
proof -
  have stored: "\<exists>s'. store_key C key v ttl s0 = ((200, CacheKeyMessage ''Key stored successfully'' key), s') \<and> view (cn_world s') key = Some v" for s0
  proof -
    obtain w where "ca_Put C key v (ttl_duration ttl) (cn_world s0) = (None, w)" "view w = (view (cn_world s0))(key \<mapsto> v)"
      by (rule cache_lawsD [OF laws]) blast
    moreover have "view (ca_RecordAccess C key w) = view w" for w using laws by (simp add: cache_laws_def)
    ultimately show ?thesis by (simp add: store_key_def record_access_def count_op_def)
  qed
  obtain s0 where "handlePut C bindErr key (Some (Some v, ttl)) s = store_key C key v ttl s0"
  proof (cases "ca_IsHotKey C key (cn_world s)")
    case True
    then obtain w where "ca_WriteThrough C key v (ttl_duration ttl) (cn_world s) = (None, w)"
      using through by (cases "ca_WriteThrough C key v (ttl_duration ttl) (cn_world s)") simp
    then show thesis using that [of "s\<lparr>cn_world := w\<rparr>"] True v by (simp add: handlePut_def bind_put_def)
  next
    case False
    then show thesis using that [of s] v by (simp add: handlePut_def bind_put_def)
  qed
  with stored [of s0] p have r: "fst r = 200" "view (cn_world s1) key = Some v" by auto
  obtain w where "ca_Get C key (cn_world s1) = (Inr (view (cn_world s1) key), w)" by (rule cache_lawsD [OF laws]) blast
  then show ?thesis using r closed by (simp add: handleGet_def)
qed

text \<open>
  a batch goes around the protection of hot keys. A read that is refused with 503 because the key is hot and its circuit breaker
  open is answered when it comes in a batch, and a write of a hot key in a batch is not written through to the replicas.
\<close>
theorem batch_bypasses_hot_keys:
  assumes "ca_IsHotKey C key (cn_world s)" "ca_IsOpen C key (cn_world s)" "ca_Get C key (cn_world s) = (Inr (Some v), w)"
    and "ca_Put C key u (ttl_duration ttl) (cn_world s) = (None, w')"
  shows "fst (fst (handleGet C key s)) = 503 \<and>
    fst (handleBatch C e (Some [\<lparr>bt_Op = ''get'', bt_Key = key, bt_Value = JNull, bt_TTL = 0\<rparr>]) s) = (200, CacheResults [(''get'', key, BatchValue v)]) \<and>
    cn_world (snd (handleBatch C e (Some [\<lparr>bt_Op = ''put'', bt_Key = key, bt_Value = u, bt_TTL = ttl\<rparr>]) s)) = ca_RecordAccess C key w'"
  using assms by (simp add: handleGet_def handleBatch_def batch_op_def batch_get_def batch_write_def record_access_def count_op_def)

section \<open>A cache of one map\<close>

text \<open>The map and the keys that are hot; a hot key has an open breaker when its value is \<open>true\<close>.\<close>

type_synonym map_world = "(string \<rightharpoonup> json) \<times> string list"

definition map_cache :: "(map_world, unit) CacheOps" where
  "map_cache =
     \<lparr>ca_IsHealthy = (\<lambda>_. True), ca_RingHealthy = (\<lambda>_. True), ca_Uptime = (\<lambda>_ _. ''1s''), ca_Get = (\<lambda>k w. (Inr (fst w k), w)),
      ca_Put = (\<lambda>k v d w. (None, ((fst w)(k \<mapsto> v), snd w))), ca_Delete = (\<lambda>k w. (None, ((fst w)(k := None), snd w))),
      ca_Exists = (\<lambda>k w. fst w k \<noteq> None), ca_Expire = (\<lambda>k d w. (None, w)), ca_TTL = (\<lambda>k w. Inr 0), ca_Flush = (\<lambda>w. (None, (Map.empty, snd w))),
      ca_IsHotKey = (\<lambda>k w. k \<in> set (snd w)), ca_RecordAccess = (\<lambda>k w. w), ca_GetHotKeys = snd, ca_UpdateHotKeyConfig = (\<lambda>_ w. (None, w)),
      ca_IsOpen = (\<lambda>k w. fst w k = Some (JBool True)), ca_GetAllBreakers = (\<lambda>_. []), ca_UpdateBreakerConfig = (\<lambda>_ w. (None, w)),
      ca_WriteThrough = (\<lambda>k v d w. (None, w)), ca_Rebalance = (\<lambda>w. (None, w)), ca_AddNode = (\<lambda>_ _ w. (None, w)),
      ca_RemoveNode = (\<lambda>_ w. (None, w)), ca_Info = (\<lambda>_ _. ())\<rparr>"

lemma map_cache_laws: "cache_laws map_cache fst"
  by (simp add: cache_laws_def map_cache_def)

definition sample_cache_node :: "map_world CacheNode" where
  "sample_cache_node = \<lparr>cn_NodeID = ''n1'', cn_world = ([''k'' \<mapsto> JBool True], [''k'']), cn_counts = []\<rparr>"

theorem batch_refines_map_witness:
  "\<exists>s'. handleBatch map_cache ''bad'' (Some [\<lparr>bt_Op = ''delete'', bt_Key = ''k'', bt_Value = JNull, bt_TTL = 0\<rparr>,
       \<lparr>bt_Op = ''get'', bt_Key = ''k'', bt_Value = JNull, bt_TTL = 0\<rparr>]) sample_cache_node =
     ((200, CacheResults [(''delete'', ''k'', BatchSuccess), (''get'', ''k'', BatchError ''Key not found'')]), s')"
  using batch_refines_map [OF map_cache_laws, of "''bad''" "[\<lparr>bt_Op = ''delete'', bt_Key = ''k'', bt_Value = JNull, bt_TTL = 0\<rparr>,
       \<lparr>bt_Op = ''get'', bt_Key = ''k'', bt_Value = JNull, bt_TTL = 0\<rparr>]" sample_cache_node]
  by (auto simp: cache_map_op_def sample_cache_node_def)

theorem put_then_get_witness:
  "fst (handleGet map_cache ''k'' (snd (handlePut map_cache ''bad'' ''k'' (Some (Some (JStr ''v''), 60)) sample_cache_node))) = (200, CacheValue ''k'' (JStr ''v''))"
proof -
  let ?p = "handlePut map_cache ''bad'' ''k'' (Some (Some (JStr ''v''), 60)) sample_cache_node"
  have "fst (cn_world (snd ?p)) ''k'' = Some (JStr ''v'')"
    by (simp add: handlePut_def bind_put_def store_key_def record_access_def count_op_def map_cache_def sample_cache_node_def)
  then have "\<not> ca_IsOpen map_cache ''k'' (cn_world (snd ?p))" by (simp add: map_cache_def)
  moreover have "fst (ca_WriteThrough map_cache ''k'' (JStr ''v'') (ttl_duration 60) (cn_world sample_cache_node)) = None" by (simp add: map_cache_def)
  ultimately show ?thesis using put_then_get [OF map_cache_laws, of "JStr ''v''" "''k''" sample_cache_node 60 "''bad''" "fst ?p" "snd ?p"] by simp
qed

theorem batch_bypasses_hot_keys_witness:
  "fst (fst (handleGet map_cache ''k'' sample_cache_node)) = 503 \<and>
   fst (handleBatch map_cache ''bad'' (Some [\<lparr>bt_Op = ''get'', bt_Key = ''k'', bt_Value = JNull, bt_TTL = 0\<rparr>]) sample_cache_node) =
     (200, CacheResults [(''get'', ''k'', BatchValue (JBool True))])"
proof -
  let ?w = "cn_world sample_cache_node"
  have "ca_IsHotKey map_cache ''k'' ?w" "ca_IsOpen map_cache ''k'' ?w" "ca_Get map_cache ''k'' ?w = (Inr (Some (JBool True)), ?w)"
    by (simp_all add: map_cache_def sample_cache_node_def)
  moreover have "ca_Put map_cache ''k'' JNull (ttl_duration 0) ?w = (None, ((fst ?w)(''k'' \<mapsto> JNull), snd ?w))" by (simp add: map_cache_def)
  ultimately show ?thesis using batch_bypasses_hot_keys [of map_cache "''k''" sample_cache_node "JBool True" ?w JNull 0 "((fst ?w)(''k'' \<mapsto> JNull), snd ?w)" "''bad''"] by simp
qed

end
