(* ===== verification/Geo_Server.thy ===== *)
theory Geo_Server
  imports Geo_Store
begin

text \<open>
  The HTTP handlers of a node of the geo-replicated data store, \<open>geo-replicated-datastore/services/geodatastore-node/main.go\<close>, on the
  store of \<open>Geo_Store\<close>. The gossip, replication and anti-entropy managers are not in the repository: they are the record
  \<open>GeoManagers\<close>, and since they share the store with the handlers they act on the store and the world. A handler returns the status
  and the body of its answer with the server it leaves; \<open>None\<close> is a panic. The body of a request is \<open>None\<close> when it cannot
  be decoded, and \<open>bindErr\<close> is the text of the error then. Durations of operations, the wiring and the shutdown are left out.

  The theorems follow a counter through any sequence of counter requests.
\<close>

section \<open>Data\<close>

record ('c, 'w, 'i) GeoManagers =
  mg_gossip_IsHealthy :: "'c GeoStore \<times> 'w \<Rightarrow> bool"
  mg_replication_IsHealthy :: "'c GeoStore \<times> 'w \<Rightarrow> bool"
  mg_KnownRegions :: "'c GeoStore \<times> 'w \<Rightarrow> 'i"
  mg_ReplicationLag :: "'c GeoStore \<times> 'w \<Rightarrow> 'i"
  mg_gossip_Status :: "'c GeoStore \<times> 'w \<Rightarrow> 'i"
  mg_replication_Status :: "'c GeoStore \<times> 'w \<Rightarrow> 'i"
  mg_anti_entropy_Status :: "'c GeoStore \<times> 'w \<Rightarrow> 'i"
  mg_TriggerFullSync :: "'c GeoStore \<times> 'w \<Rightarrow> goerror option \<times> 'c GeoStore \<times> 'w"
  mg_TriggerRegionSync :: "string \<Rightarrow> 'c GeoStore \<times> 'w \<Rightarrow> goerror option \<times> 'c GeoStore \<times> 'w"

record 'i GeoConfig =
  gc_Datacenter :: string
  gc_ClusterNodes :: 'i
  gc_RegionNodes :: 'i

text \<open>The counters \<open>crdtOperationsTotal\<close> and \<open>conflictsResolvedTotal\<close> are the lists of their increments.\<close>

record ('c, 'w, 'i) GeoServer =
  sv_config :: "'i GeoConfig"
  sv_store :: "'c GeoStore"
  sv_world :: 'w
  sv_operations :: "(string \<times> string) list"
  sv_resolutions :: "(string \<times> string) list"

datatype ('c, 'i) geo_body =
    GeoError goerror
  | GeoStatusText string
  | GeoHealthy string string string int
  | GeoStatusReport string string "'i GeoConfig" 'i 'i 'i GeoStats
  | GeoInfo string 'i
  | GeoConflicts "(string, 'c Conflict) gomap"
  | GeoClocks "(string, GeoClock) gomap"
  | GeoMessage string "(string \<times> string) list"
  | GeoCounter string int GeoMetadata
  | GeoIncremented string int int

type_synonym ('c, 'i) geo_answer = "int \<times> ('c, 'i) geo_body"

abbreviation sv_state :: "('c, 'w, 'i) GeoServer \<Rightarrow> 'c GeoStore \<times> 'w" where
  "sv_state sv \<equiv> (sv_store sv, sv_world sv)"

section \<open>Administration\<close>

definition geo_handleHealth :: "('c, 'w, 'i) GeoManagers \<Rightarrow> gotime \<Rightarrow> ('c, 'w, 'i) GeoServer \<Rightarrow> ('c, 'i) geo_answer" where
  "geo_handleHealth M now sv =
     (if \<not> mg_gossip_IsHealthy M (sv_state sv) \<or> \<not> mg_replication_IsHealthy M (sv_state sv)
      then (503, GeoStatusText ''unhealthy'')
      else (200, GeoHealthy (gs_NodeID (sv_store sv)) (gs_Region (sv_store sv)) (gc_Datacenter (sv_config sv))
                   (time_Sub now (gs_startTime (sv_store sv)))))"

definition geo_handleStatus :: "('c, 'w, 'i) GeoManagers \<Rightarrow> ('c, 'w, 'i) GeoServer \<Rightarrow> ('c, 'i) geo_answer" where
  "geo_handleStatus M sv =
     (200, GeoStatusReport (gs_NodeID (sv_store sv)) (gs_Region (sv_store sv)) (sv_config sv) (mg_gossip_Status M (sv_state sv))
        (mg_replication_Status M (sv_state sv)) (mg_anti_entropy_Status M (sv_state sv)) (GeoGetStats (sv_store sv)))"

definition handleListRegions :: "('c, 'w, 'i) GeoManagers \<Rightarrow> ('c, 'w, 'i) GeoServer \<Rightarrow> ('c, 'i) geo_answer" where
  "handleListRegions M sv = (200, GeoInfo ''regions'' (mg_KnownRegions M (sv_state sv)))"

definition handleReplicationLag :: "('c, 'w, 'i) GeoManagers \<Rightarrow> ('c, 'w, 'i) GeoServer \<Rightarrow> ('c, 'i) geo_answer" where
  "handleReplicationLag M sv = (200, GeoInfo ''replication_lag'' (mg_ReplicationLag M (sv_state sv)))"

definition handleGossipStatus :: "('c, 'w, 'i) GeoManagers \<Rightarrow> ('c, 'w, 'i) GeoServer \<Rightarrow> ('c, 'i) geo_answer" where
  "handleGossipStatus M sv = (200, GeoInfo '''' (mg_gossip_Status M (sv_state sv)))"

definition handleFullSync ::
  "('c, 'w, 'i) GeoManagers \<Rightarrow> ('c, 'w, 'i) GeoServer \<Rightarrow> ('c, 'i) geo_answer \<times> ('c, 'w, 'i) GeoServer" where
  "handleFullSync M sv =
     (let (err, s, w) = mg_TriggerFullSync M (sv_state sv); sv' = sv\<lparr>sv_store := s, sv_world := w\<rparr> in
      case err of
        Some e \<Rightarrow> ((500, GeoError e), sv')
      | None \<Rightarrow> ((200, GeoMessage ''Full synchronization triggered'' []), sv'))"

definition handleSyncRegion ::
  "('c, 'w, 'i) GeoManagers \<Rightarrow> string \<Rightarrow> ('c, 'w, 'i) GeoServer \<Rightarrow> ('c, 'i) geo_answer \<times> ('c, 'w, 'i) GeoServer" where
  "handleSyncRegion M region sv =
     (let (err, s, w) = mg_TriggerRegionSync M region (sv_state sv); sv' = sv\<lparr>sv_store := s, sv_world := w\<rparr> in
      case err of
        Some e \<Rightarrow> ((500, GeoError e), sv')
      | None \<Rightarrow> ((200, GeoMessage ''Region synchronization triggered'' [(''region'', region)]), sv'))"

definition handleListConflicts :: "('c, 'w, 'i) GeoServer \<Rightarrow> ('c, 'i) geo_answer" where
  "handleListConflicts sv = (200, GeoConflicts (GetConflicts (sv_store sv)))"

definition handleVectorClocks :: "('c, 'w, 'i) GeoServer \<Rightarrow> ('c, 'i) geo_answer" where
  "handleVectorClocks sv = (200, GeoClocks (GetVectorClocks (sv_store sv)))"

definition handleResolveConflict ::
  "'c CRDTOps \<Rightarrow> 'w storage_put \<Rightarrow> (GeoMetadata option \<Rightarrow> goerror + string) \<Rightarrow> goerror \<Rightarrow> string \<Rightarrow> string option \<Rightarrow>
   ('c, 'w, 'i) GeoServer \<Rightarrow> (('c, 'i) geo_answer \<times> ('c, 'w, 'i) GeoServer) option" where
  "handleResolveConflict C Put marshal bindErr conflictID body sv =
     (case body of
        None \<Rightarrow> Some ((400, GeoError bindErr), sv)
      | Some strategy \<Rightarrow>
          if strategy = '''' then Some ((400, GeoError bindErr), sv)
          else
            (case GeoResolveConflict C Put marshal conflictID strategy (sv_store sv) (sv_world sv) of
               None \<Rightarrow> None
             | Some (Some err, s, w) \<Rightarrow> Some ((500, GeoError err), sv\<lparr>sv_store := s, sv_world := w\<rparr>)
             | Some (None, s, w) \<Rightarrow>
                 Some ((200, GeoMessage ''Conflict resolved'' [(''conflict_id'', conflictID), (''strategy'', strategy)]),
                       sv\<lparr>sv_store := s, sv_world := w, sv_resolutions := sv_resolutions sv @ [(''unknown'', strategy)]\<rparr>)))"

section \<open>Counters\<close>

definition handleCreateCounter ::
  "'c CRDTOps \<Rightarrow> 'w storage_put \<Rightarrow> (GeoMetadata option \<Rightarrow> goerror + string) \<Rightarrow> goerror \<Rightarrow> gotime \<Rightarrow> gotime \<Rightarrow> string \<Rightarrow>
   (string \<times> int) option \<Rightarrow> ('c, 'w, 'i) GeoServer \<Rightarrow> ('c, 'i) geo_answer \<times> ('c, 'w, 'i) GeoServer" where
  "handleCreateCounter C Put marshal bindErr t1 t2 key body sv =
     (case body of
        None \<Rightarrow> ((400, GeoError bindErr), sv)
      | Some (typ, initialValue) \<Rightarrow>
          if typ = '''' then ((400, GeoError bindErr), sv)
          else
            (case CreateCounter C Put marshal t1 t2 key typ initialValue (sv_store sv) (sv_world sv) of
               (Some err, s, w) \<Rightarrow> ((500, GeoError err), sv\<lparr>sv_store := s, sv_world := w\<rparr>)
             | (None, s, w) \<Rightarrow>
                 ((201, GeoMessage ''Counter created successfully'' [(''key'', key), (''type'', typ)]),
                  sv\<lparr>sv_store := s, sv_world := w, sv_operations := sv_operations sv @ [(typ, ''create'')]\<rparr>)))"

definition handleGetCounter ::
  "'c CRDTOps \<Rightarrow> string \<Rightarrow> ('c, 'w, 'i) GeoServer \<Rightarrow> ('c, 'i) geo_answer \<times> ('c, 'w, 'i) GeoServer" where
  "handleGetCounter C key sv =
     (case GetCounter C key (sv_store sv) of
        Inl err \<Rightarrow> ((404, GeoError err), sv)
      | Inr (value, metadata) \<Rightarrow>
          ((200, GeoCounter key value metadata), sv\<lparr>sv_operations := sv_operations sv @ [(gm_Type metadata, ''get'')]\<rparr>))"

definition increment_of :: "int \<Rightarrow> int" where
  "increment_of v = (if v = 0 then 1 else v)"

definition handleIncrementCounter ::
  "'c CRDTOps \<Rightarrow> 'w storage_put \<Rightarrow> (GeoMetadata option \<Rightarrow> goerror + string) \<Rightarrow> goerror \<Rightarrow> gotime \<Rightarrow> string \<Rightarrow> int option \<Rightarrow>
   ('c, 'w, 'i) GeoServer \<Rightarrow> (('c, 'i) geo_answer \<times> ('c, 'w, 'i) GeoServer) option" where
  "handleIncrementCounter C Put marshal bindErr now key body sv =
     (case body of
        None \<Rightarrow> Some ((400, GeoError bindErr), sv)
      | Some v \<Rightarrow>
          (case IncrementCounter C Put marshal now key (increment_of v) (sv_store sv) (sv_world sv) of
             None \<Rightarrow> None
           | Some (Inl err, s, w) \<Rightarrow> Some ((500, GeoError err), sv\<lparr>sv_store := s, sv_world := w\<rparr>)
           | Some (Inr newValue, s, w) \<Rightarrow>
               Some ((200, GeoIncremented key (increment_of v) newValue),
                     sv\<lparr>sv_store := s, sv_world := w, sv_operations := sv_operations sv @ [(''counter'', ''increment'')]\<rparr>)))"

text \<open>The requests for counters, with the readings of the clock, one after the other.\<close>

datatype counter_request = ReqCreate gotime gotime "(string \<times> int) option" | ReqGet | ReqIncrement gotime "int option"

definition counter_handler ::
  "'c CRDTOps \<Rightarrow> 'w storage_put \<Rightarrow> (GeoMetadata option \<Rightarrow> goerror + string) \<Rightarrow> goerror \<Rightarrow> string \<times> counter_request \<Rightarrow>
   ('c, 'w, 'i) GeoServer \<Rightarrow> (('c, 'i) geo_answer \<times> ('c, 'w, 'i) GeoServer) option" where
  "counter_handler C Put marshal bindErr r sv =
     (case snd r of
        ReqCreate t1 t2 body \<Rightarrow> Some (handleCreateCounter C Put marshal bindErr t1 t2 (fst r) body sv)
      | ReqGet \<Rightarrow> Some (handleGetCounter C (fst r) sv)
      | ReqIncrement now body \<Rightarrow> handleIncrementCounter C Put marshal bindErr now (fst r) body sv)"

fun serve_counters ::
  "'c CRDTOps \<Rightarrow> 'w storage_put \<Rightarrow> (GeoMetadata option \<Rightarrow> goerror + string) \<Rightarrow> goerror \<Rightarrow> (string \<times> counter_request) list \<Rightarrow>
   ('c, 'w, 'i) GeoServer \<Rightarrow> (('c, 'i) geo_answer list \<times> ('c, 'w, 'i) GeoServer) option" where
  "serve_counters C Put marshal bindErr [] sv = Some ([], sv)"
| "serve_counters C Put marshal bindErr (r # rs) sv =
     (case counter_handler C Put marshal bindErr r sv of
        None \<Rightarrow> None
      | Some (a, sv1) \<Rightarrow>
          (case serve_counters C Put marshal bindErr rs sv1 of
             None \<Rightarrow> None
           | Some (as, sv2) \<Rightarrow> Some (a # as, sv2)))"

section \<open>The value of a counter\<close>

text \<open>
  What the counters of the missing package promise: a new counter has its initial value, an increment and a decrement by an amount
  that is not negative add and subtract it in \<open>int64\<close>, and the clock of a counter has no influence on its value.
\<close>

definition counter_laws :: "'c CRDTOps \<Rightarrow> bool" where
  "counter_laws C \<longleftrightarrow>
     (\<forall>n v. co_kind C (co_NewGCounter C n v) = KGCounter \<and> (0 \<le> v \<longrightarrow> co_Value C (co_NewGCounter C n v) = v)) \<and>
     (\<forall>n v. co_kind C (co_NewPNCounter C n v) = KPNCounter \<and> co_Value C (co_NewPNCounter C n v) = v) \<and>
     (\<forall>n v c. 0 \<le> v \<longrightarrow> co_kind C c \<noteq> KOther \<longrightarrow>
        co_kind C (co_Increment C n v c) = co_kind C c \<and> co_Value C (co_Increment C n v c) = wrap64 (co_Value C c + v)) \<and>
     (\<forall>n v c. 0 \<le> v \<longrightarrow> co_kind C c = KPNCounter \<longrightarrow>
        co_kind C (co_Decrement C n v c) = KPNCounter \<and> co_Value C (co_Decrement C n v c) = wrap64 (co_Value C c - v)) \<and>
     (\<forall>vc c. co_kind C (co_SetVectorClock C vc c) = co_kind C c \<and> co_Value C (co_SetVectorClock C vc c) = co_Value C c)"

text \<open>What a request adds to the counter of a key: nothing when it is not an increment of that key or a decrement of a growing counter.\<close>

definition counter_delta :: "string \<Rightarrow> CRDTKind \<Rightarrow> string \<times> counter_request \<Rightarrow> int" where
  "counter_delta key k r =
     (case r of
        (key', ReqIncrement _ (Some v)) \<Rightarrow>
          if key' = key \<and> \<not> (k = KGCounter \<and> v < 0) then (if v = 0 then 1 else v) else 0
      | _ \<Rightarrow> 0)"

definition request_ok :: "string \<times> counter_request \<Rightarrow> bool" where
  "request_ok r \<longleftrightarrow> (case snd r of ReqIncrement _ (Some v) \<Rightarrow> - (2 ^ 63) < v \<and> v < 2 ^ 63 | _ \<Rightarrow> True)"

text \<open>Every object has metadata.\<close>

definition geo_paired :: "'c GeoStore \<Rightarrow> bool" where
  "geo_paired s \<longleftrightarrow> dom (map_of (gs_crdts s)) \<subseteq> dom (map_of (gs_metadata s))"

text \<open>A key holds a counter of a kind with a value.\<close>

definition holds_counter :: "'c CRDTOps \<Rightarrow> string \<Rightarrow> CRDTKind \<Rightarrow> int \<Rightarrow> 'c GeoStore \<Rightarrow> bool" where
  "holds_counter C key k x s \<longleftrightarrow>
     geo_paired s \<and> (case map_of (gs_crdts s) key of None \<Rightarrow> False | Some c \<Rightarrow> co_kind C c = k \<and> co_Value C c = x)"

lemma geo_inv_paired: "geo_inv s \<Longrightarrow> geo_paired s"
  by (simp add: geo_inv_def geo_paired_def)

lemma geo_paired_metadata: "geo_paired s \<Longrightarrow> map_of (gs_crdts s) key = Some c \<Longrightarrow> \<exists>md. map_of (gs_metadata s) key = Some md"
  by (auto simp: geo_paired_def)

lemma geo_paired_set:
  "geo_paired s \<Longrightarrow> gs_crdts s' = go_set key c (gs_crdts s) \<Longrightarrow> gs_metadata s' = go_set key md (gs_metadata s) \<Longrightarrow> geo_paired s'"
  by (auto simp: geo_paired_def go_map_simps)

lemma counter_lawsD:
  assumes "counter_laws C"
  shows "co_kind C (co_SetVectorClock C vc c) = co_kind C c" "co_Value C (co_SetVectorClock C vc c) = co_Value C c"
    "co_kind C (co_NewGCounter C n v) = KGCounter" "0 \<le> v \<Longrightarrow> co_Value C (co_NewGCounter C n v) = v"
    "co_kind C (co_NewPNCounter C n v) = KPNCounter" "co_Value C (co_NewPNCounter C n v) = v"
    "0 \<le> v \<Longrightarrow> co_kind C c \<noteq> KOther \<Longrightarrow>
       co_kind C (co_Increment C n v c) = co_kind C c \<and> co_Value C (co_Increment C n v c) = wrap64 (co_Value C c + v)"
    "0 \<le> v \<Longrightarrow> co_kind C c = KPNCounter \<Longrightarrow>
       co_kind C (co_Decrement C n v c) = KPNCounter \<and> co_Value C (co_Decrement C n v c) = wrap64 (co_Value C c - v)"
  using assms by (simp_all add: counter_laws_def)

lemma change_counter_Inl: "change_counter C n key v c = Inl e \<Longrightarrow> co_kind C c \<noteq> KOther \<Longrightarrow> co_kind C c = KGCounter \<and> v < 0"
  by (cases "co_kind C c") (simp_all add: change_counter_def split: if_splits)

lemma change_counter_Inr:
  assumes laws: "counter_laws C" and v: "- (2 ^ 63) < v" and c1: "change_counter C n key v c = Inr c1"
  shows "\<not> (co_kind C c = KGCounter \<and> v < 0) \<and> co_kind C c1 = co_kind C c \<and> co_Value C c1 = wrap64 (co_Value C c + v)"
proof (cases "v < 0")
  case True
  then have w: "wrap64 (- v) = - v" using v by (intro wrap64_id) simp
  then have "co_kind C c = KPNCounter \<and> c1 = co_Decrement C n (- v) c"
    using c1 True by (cases "co_kind C c") (simp_all add: change_counter_def split: if_splits)
  then show ?thesis using counter_lawsD(8) [OF laws, of "- v" c n] True by simp
next
  case False
  then have "co_kind C c \<noteq> KOther \<and> c1 = co_Increment C n v c"
    using c1 by (cases "co_kind C c") (simp_all add: change_counter_def)
  then show ?thesis using counter_lawsD(7) [OF laws, of v c n] False by simp
qed

lemma insert_crdt_store:
  assumes "insert_crdt C Put marshal t1 t2 key typ c s w = (err, s', w')"
  shows "\<exists>vc md. gs_crdts s' = go_set key (co_SetVectorClock C vc c) (gs_crdts s) \<and> gs_metadata s' = go_set key md (gs_metadata s)"
  using assms by (auto simp: insert_crdt_def Let_def split: prod.splits)

lemma CreateCounter_store:
  assumes "CreateCounter C Put marshal t1 t2 key typ v s w = (err, s', w')" "counter_laws C"
  shows "s' = s \<and> err \<noteq> None \<or>
    (\<exists>c md. map_of (gs_crdts s) key = None \<and> typ \<in> {''g_counter'', ''pn_counter''} \<and>
       co_kind C c = (if typ = ''g_counter'' then KGCounter else KPNCounter) \<and>
       (typ = ''pn_counter'' \<or> 0 \<le> v \<longrightarrow> co_Value C c = v) \<and>
       gs_crdts s' = go_set key c (gs_crdts s) \<and> gs_metadata s' = go_set key md (gs_metadata s))"
proof (cases "map_of (gs_crdts s) key = None \<and> typ \<in> {''g_counter'', ''pn_counter''}")
  case True
  let ?c = "if typ = ''g_counter'' then co_NewGCounter C (gs_NodeID s) v else co_NewPNCounter C (gs_NodeID s) v"
  have "insert_crdt C Put marshal t1 t2 key typ ?c s w = (err, s', w')"
    using assms(1) True by (auto simp: CreateCounter_def split: if_splits)
  from insert_crdt_store [OF this] obtain vc md where
    "gs_crdts s' = go_set key (co_SetVectorClock C vc ?c) (gs_crdts s)" "gs_metadata s' = go_set key md (gs_metadata s)" by blast
  moreover have "co_kind C (co_SetVectorClock C vc ?c) = (if typ = ''g_counter'' then KGCounter else KPNCounter)"
    "typ = ''pn_counter'' \<or> 0 \<le> v \<Longrightarrow> co_Value C (co_SetVectorClock C vc ?c) = v"
    by (auto simp: counter_lawsD [OF assms(2)])
  ultimately show ?thesis using True by blast
next
  case False
  then show ?thesis using assms(1) by (auto simp: CreateCounter_def split: if_splits)
qed

lemma holds_counter_insert:
  assumes "holds_counter C key k x s" "map_of (gs_crdts s) key' = None" "gs_crdts s' = go_set key' c (gs_crdts s)"
    "gs_metadata s' = go_set key' md (gs_metadata s)"
  shows "holds_counter C key k x s'"
proof -
  have "key' \<noteq> key" using assms(1,2) by (auto simp: holds_counter_def)
  then show ?thesis using assms(1,3) geo_paired_set [OF _ assms(3,4)] by (simp add: holds_counter_def go_map_simps)
qed

lemma CreateCounter_holds:
  assumes "CreateCounter C Put marshal t1 t2 key' ty v s w = (err, s', w')" "counter_laws C" "holds_counter C key k x s"
  shows "holds_counter C key k x s'"
  using CreateCounter_store [OF assms(1,2)] holds_counter_insert [OF assms(3)] assms(3) by blast

lemma IncrementCounter_store:
  assumes "geo_paired s" "map_of (gs_crdts s) key = Some c" "change_counter C (gs_NodeID s) key v c = Inr c1"
  shows "\<exists>vc md r w'. IncrementCounter C Put marshal now key v s w = Some (r, (tick s)\<lparr>gs_crdts := go_set key (co_SetVectorClock C vc c1) (gs_crdts s),
    gs_metadata := go_set key md (gs_metadata s)\<rparr>, w')"
proof -
  obtain md where md: "map_of (gs_metadata s) key = Some md" using geo_paired_metadata [OF assms(1,2)] ..
  show ?thesis
    unfolding IncrementCounter_def Let_def assms(2,3) md tick_fields option.case sum.case case_prod_beta by (intro exI) (rule refl)
qed

lemma IncrementCounter_holds:
  assumes laws: "counter_laws C" and h: "holds_counter C key k x s" and k: "k \<noteq> KOther" and x: "int64_range x" and v: "- (2 ^ 63) < v"
  shows "\<exists>r s' w'. IncrementCounter C Put marshal now key' v s w = Some (r, s', w') \<and>
    holds_counter C key k (wrap64 (x + (if key' = key \<and> \<not> (k = KGCounter \<and> v < 0) then v else 0))) s'"
proof (cases "map_of (gs_crdts s) key'")
  case None
  then have "key' \<noteq> key" using h by (auto simp: holds_counter_def)
  then show ?thesis using None h x by (simp add: IncrementCounter_def)
next
  case (Some c)
  have p: "geo_paired s" using h by (simp add: holds_counter_def)
  have c: "co_kind C c = k \<and> co_Value C c = x" if "key' = key" using h Some that by (simp add: holds_counter_def)
  show ?thesis
  proof (cases "change_counter C (gs_NodeID s) key' v c")
    case (Inl e)
    then have "\<not> (key' = key \<and> \<not> (k = KGCounter \<and> v < 0))" using change_counter_Inl [OF Inl] c k by blast
    moreover have "holds_counter C key k x (tick s)" using h by (simp add: holds_counter_def geo_paired_def)
    ultimately show ?thesis using Some Inl x by (auto simp: IncrementCounter_def Let_def)
  next
    case (Inr c1)
    from IncrementCounter_store [OF p Some Inr, of Put marshal now w] obtain vc md r w' where
      run: "IncrementCounter C Put marshal now key' v s w = Some (r, (tick s)\<lparr>gs_crdts := go_set key' (co_SetVectorClock C vc c1) (gs_crdts s),
        gs_metadata := go_set key' md (gs_metadata s)\<rparr>, w')" by blast
    have "holds_counter C key k (wrap64 (x + (if key' = key then v else 0))) ((tick s)\<lparr>gs_crdts := go_set key' (co_SetVectorClock C vc c1) (gs_crdts s),
        gs_metadata := go_set key' md (gs_metadata s)\<rparr>)"
      using change_counter_Inr [OF laws v Inr] c h p x
      by (cases "key' = key") (auto simp: holds_counter_def geo_paired_def go_map_simps counter_lawsD(1,2) [OF laws])
    moreover have "(if key' = key \<and> \<not> (k = KGCounter \<and> v < 0) then v else 0) = (if key' = key then v else 0)"
      using change_counter_Inr [OF laws v Inr] c by auto
    ultimately show ?thesis using run by auto
  qed
qed

lemma IncrementCounter_persisted:
  assumes "IncrementCounter C Put marshal now key v s w = Some (Inr n, s', w')"
  shows "\<exists>c t. fst (persistCRDT C Put marshal key c t w) = None"
proof -
  obtain c c1 md where "map_of (gs_crdts s) key = Some c" "change_counter C (gs_NodeID s) key v c = Inr c1" "map_of (gs_metadata s) key = Some md"
    using assms by (auto simp: IncrementCounter_def Let_def split: option.splits sum.splits)
  with assms show ?thesis unfolding IncrementCounter_def Let_def by (auto simp: case_prod_beta split: option.splits)
qed

lemma counter_handler_holds:
  assumes laws: "counter_laws C" and h: "holds_counter C key k x (sv_store sv)" and k: "k \<noteq> KOther" and x: "int64_range x" and r: "request_ok r"
  shows "\<exists>a sv'. counter_handler C Put marshal bindErr r sv = Some (a, sv') \<and>
    holds_counter C key k (wrap64 (x + counter_delta key k r)) (sv_store sv')"
proof (cases r)
  case (Pair key' q)
  show ?thesis
  proof (cases q)
    case (ReqCreate t1 t2 body)
    have d: "wrap64 (x + counter_delta key k r) = x" using x by (simp add: counter_delta_def Pair ReqCreate)
    have "holds_counter C key k x (sv_store (snd (handleCreateCounter C Put marshal bindErr t1 t2 key' body sv)))"
    proof (cases body)
      case None
      then show ?thesis using h by (simp add: handleCreateCounter_def)
    next
      case (Some p)
      obtain ty v where p: "p = (ty, v)" by (cases p)
      obtain err s' w' where run: "CreateCounter C Put marshal t1 t2 key' ty v (sv_store sv) (sv_world sv) = (err, s', w')" by (rule prod_cases3)
      show ?thesis using CreateCounter_holds [OF run laws h] h run
        by (cases err) (simp_all add: handleCreateCounter_def Some p)
    qed
    then show ?thesis
      using d unfolding counter_handler_def Pair ReqCreate snd_conv fst_conv counter_request.case
      by (metis prod.collapse)
  next
    case ReqGet
    then show ?thesis using h x
      by (auto simp: counter_delta_def counter_handler_def handleGetCounter_def Pair split: sum.split)
  next
    case (ReqIncrement now body)
    show ?thesis
    proof (cases body)
      case None
      then show ?thesis using h x by (simp add: counter_delta_def counter_handler_def handleIncrementCounter_def Pair ReqIncrement)
    next
      case (Some v)
      have v: "- (2 ^ 63) < increment_of v"
        using r by (simp add: request_ok_def Pair ReqIncrement Some increment_of_def)
      have d: "counter_delta key k r = (if key' = key \<and> \<not> (k = KGCounter \<and> increment_of v < 0) then increment_of v else 0)"
        by (simp add: counter_delta_def Pair ReqIncrement Some increment_of_def)
      from IncrementCounter_holds [OF laws h k x v, of Put marshal now key' "sv_world sv"] obtain i s' w' where
        "IncrementCounter C Put marshal now key' (increment_of v) (sv_store sv) (sv_world sv) = Some (i, s', w')"
        "holds_counter C key k (wrap64 (x + counter_delta key k r)) s'"
        unfolding d by blast
      then show ?thesis
        by (cases i) (simp_all add: counter_handler_def handleIncrementCounter_def Pair ReqIncrement Some)
    qed
  qed
qed

lemma serve_counters_holds:
  assumes laws: "counter_laws C" and k: "k \<noteq> KOther"
  shows "holds_counter C key k x (sv_store sv) \<Longrightarrow> int64_range x \<Longrightarrow> \<forall>r\<in>set rs. request_ok r \<Longrightarrow>
    \<exists>as sv'. serve_counters C Put marshal bindErr rs sv = Some (as, sv') \<and> length as = length rs \<and>
      holds_counter C key k (wrap64 (x + sum_list (map (counter_delta key k) rs))) (sv_store sv')"
proof (induction rs arbitrary: x sv)
  case (Cons r rs)
  have r: "request_ok r" "\<forall>r\<in>set rs. request_ok r" using Cons.prems(3) by simp_all
  obtain a sv1 where a: "counter_handler C Put marshal bindErr r sv = Some (a, sv1)"
    "holds_counter C key k (wrap64 (x + counter_delta key k r)) (sv_store sv1)"
    using counter_handler_holds [OF laws Cons.prems(1) k Cons.prems(2) r(1), of Put marshal bindErr] by blast
  from Cons.IH [OF a(2) wrap64_range r(2)] a(1) show ?case by (auto simp: wrap64_step add.assoc)
qed simp

lemma handleGetCounter_holds:
  assumes "holds_counter C key k x (sv_store sv)" "k \<noteq> KOther"
  shows "\<exists>md. fst (handleGetCounter C key sv) = (200, GeoCounter key x md)"
proof -
  obtain c where c: "map_of (gs_crdts (sv_store sv)) key = Some c" "co_kind C c = k" "co_Value C c = x" and p: "geo_paired (sv_store sv)"
    using assms(1) by (auto simp: holds_counter_def split: option.splits)
  obtain md where "map_of (gs_metadata (sv_store sv)) key = Some md" using geo_paired_metadata [OF p c(1)] ..
  then show ?thesis using c assms(2) by (cases k) (simp_all add: handleGetCounter_def GetCounter_def)
qed

section \<open>Properties\<close>

text \<open>
  C11: a counter counts. After its creation over HTTP was answered with 201, any sequence of counter requests, for this and for other
  keys, is answered without a panic, and the next read answers 200 with the initial value plus the increments of the key in \<open>int64\<close>: a
  request without a value or with value 0 adds 1, a negative value is ignored by a growing counter, and an increment counts whether or not
  it could be persisted.
\<close>
theorem counter_over_http:
  assumes laws: "counter_laws C" and paired: "geo_paired (sv_store sv)" and range: "int64_range v" and pos: "typ = ''g_counter'' \<longrightarrow> 0 \<le> v"
    and created: "handleCreateCounter C Put marshal bindErr t1 t2 key (Some (typ, v)) sv = ((201, b), sv1)"
    and ok: "\<forall>r\<in>set rs. request_ok r"
  shows "\<exists>as sv2 md. serve_counters C Put marshal bindErr rs sv1 = Some (as, sv2) \<and> length as = length rs \<and>
    fst (handleGetCounter C key sv2) =
      (200, GeoCounter key (wrap64 (v + sum_list (map (counter_delta key (if typ = ''g_counter'' then KGCounter else KPNCounter)) rs))) md)"
proof -
  let ?k = "if typ = ''g_counter'' then KGCounter else KPNCounter"
  obtain s w where c: "CreateCounter C Put marshal t1 t2 key typ v (sv_store sv) (sv_world sv) = (None, s, w)" and s: "sv_store sv1 = s"
    using created by (auto simp: handleCreateCounter_def split: if_splits prod.splits option.splits)
  have "holds_counter C key ?k v (sv_store sv1)"
    using CreateCounter_store [OF c laws] pos geo_paired_set [OF paired]
    by (auto simp: s holds_counter_def go_map_simps split: if_splits)
  moreover have k: "?k \<noteq> KOther" by simp
  ultimately obtain as sv2 where
    "serve_counters C Put marshal bindErr rs sv1 = Some (as, sv2)" "length as = length rs"
    "holds_counter C key ?k (wrap64 (v + sum_list (map (counter_delta key ?k) rs))) (sv_store sv2)"
    using serve_counters_holds [OF laws k _ range ok, of key sv1 Put marshal bindErr] by blast
  then show ?thesis using handleGetCounter_holds [OF _ k, of C key _ sv2] by blast
qed

text \<open>
  an increment that is answered with 500 can have been applied. When the storage refuses the new value of a counter, the increment is
  answered with 500, and the next read shows it all the same, so that a client that repeats it counts twice.
\<close>
theorem failed_increment_counts:
  assumes laws: "counter_laws C" and h: "holds_counter C key k x (sv_store sv)" and k: "k \<noteq> KOther" and x: "int64_range x" and v: "0 < v" "v < 2 ^ 63"
    and fails: "\<And>data w. \<exists>e w'. Put (''crdt:'' @ key) data w = (Some e, w')"
  shows "\<exists>e sv' md. handleIncrementCounter C Put marshal bindErr now key (Some v) sv = Some ((500, GeoError e), sv') \<and>
    fst (handleGetCounter C key sv') = (200, GeoCounter key (wrap64 (x + v)) md)"
proof -
  have i: "increment_of v = v" using v by (simp add: increment_of_def)
  have "- (2 ^ 63) < v" using v by simp
  from IncrementCounter_holds [OF laws h k x this, of Put marshal now key "sv_world sv"] v obtain r s' w' where
    run: "IncrementCounter C Put marshal now key v (sv_store sv) (sv_world sv) = Some (r, s', w')" "holds_counter C key k (wrap64 (x + v)) s'" by auto
  have p: "fst (persistCRDT C Put marshal key c s w) \<noteq> None" for c s w
    using fails [of "projr (co_Serialize C c)" w] by (auto simp: persistCRDT_def split: sum.split)
  have "\<exists>e. r = Inl e"
    using run(1) p IncrementCounter_persisted [of C Put marshal now key v "sv_store sv" "sv_world sv"] by (cases r) blast+
  then obtain e where "handleIncrementCounter C Put marshal bindErr now key (Some v) sv = Some ((500, GeoError e), sv\<lparr>sv_store := s', sv_world := w'\<rparr>)"
    using run(1) by (auto simp: handleIncrementCounter_def i)
  moreover obtain md where "fst (handleGetCounter C key (sv\<lparr>sv_store := s', sv_world := w'\<rparr>)) = (200, GeoCounter key (wrap64 (x + v)) md)"
    using handleGetCounter_holds [of C key k "wrap64 (x + v)" "sv\<lparr>sv_store := s', sv_world := w'\<rparr>"] run(2) k by auto
  ultimately show ?thesis by blast
qed

text \<open>
  a conflict is resolved once. After a resolution was answered with 200, every further resolution of the conflict that names a strategy is
  answered with 500 and changes nothing.
\<close>
theorem conflict_resolved_once:
  assumes "handleResolveConflict C Put marshal bindErr cid (Some strategy) sv = Some ((200, b), sv1)" "strategy' \<noteq> ''''"
  shows "handleResolveConflict C Put marshal bindErr cid (Some strategy') sv1 =
    Some ((500, GeoError (''conflict '' @ cid @ '' already resolved'')), sv1)"
proof -
  obtain s w where run: "GeoResolveConflict C Put marshal cid strategy (sv_store sv) (sv_world sv) = Some (None, s, w)" and s: "sv_store sv1 = s"
    using assms(1) by (auto simp: handleResolveConflict_def split: if_splits option.splits prod.splits)
  from run have "\<exists>cf. map_of (gs_conflicts s) cid = Some cf \<and> cf_Resolved cf"
    by (auto simp: GeoResolveConflict_def Let_def go_map_simps split: option.splits if_splits prod.splits)
  then show ?thesis using assms(2) s by (auto simp: handleResolveConflict_def GeoResolveConflict_def)
qed

section \<open>Witnesses\<close>

text \<open>Counters with a kind and a clock, and a storage that refuses everything.\<close>

definition tally_ops :: "(GeoClock \<times> CRDTKind \<times> int) CRDTOps" where
  "tally_ops =
     \<lparr>co_Type = \<lambda>_. ''counter'', co_Merge = \<lambda>a b. (None, a), co_Clone = \<lambda>c. c,
      co_GetVectorClock = fst, co_SetVectorClock = \<lambda>vc c. (vc, snd c), co_Serialize = \<lambda>_. Inr ''x'',
      co_kind = \<lambda>c. fst (snd c), co_Value = \<lambda>c. snd (snd c),
      co_Increment = \<lambda>_ v c. (fst c, fst (snd c), wrap64 (snd (snd c) + v)),
      co_Decrement = \<lambda>_ v c. (fst c, fst (snd c), wrap64 (snd (snd c) - v)),
      co_NewGCounter = \<lambda>_ v. ([], KGCounter, v), co_NewPNCounter = \<lambda>_ v. ([], KPNCounter, v),
      co_NewGSet = ([], KOther, 0), co_NewTwoPSet = ([], KOther, 0), co_NewORSet = \<lambda>_. ([], KOther, 0),
      co_NewLWWRegister = \<lambda>_ _. ([], KOther, 0), co_NewMVRegister = \<lambda>_ _. ([], KOther, 0)\<rparr>"

lemma tally_laws: "counter_laws tally_ops"
  by (simp add: counter_laws_def tally_ops_def)

definition refusing_put :: "(string \<times> string) list storage_put" where
  "refusing_put k v w = (Some ''disk full'', w)"

definition tally_server :: "(GeoClock \<times> CRDTKind \<times> int, (string \<times> string) list, unit) GeoServer" where
  "tally_server = \<lparr>sv_config = \<lparr>gc_Datacenter = ''dc1'', gc_ClusterNodes = (), gc_RegionNodes = ()\<rparr>, sv_store = NewGeoStore ''a'' ''us'' 1,
     sv_world = [], sv_operations = [], sv_resolutions = []\<rparr>"

abbreviation tally_created :: "(GeoClock \<times> CRDTKind \<times> int, (string \<times> string) list, unit) GeoServer" where
  "tally_created \<equiv> snd (handleCreateCounter tally_ops demo_put (\<lambda>_. Inr ''m'') ''bad'' 1 1 ''k'' (Some (''pn_counter'', 7)) tally_server)"

lemma tally_created_201:
  "handleCreateCounter tally_ops demo_put (\<lambda>_. Inr ''m'') ''bad'' 1 1 ''k'' (Some (''pn_counter'', 7)) tally_server =
     ((201, GeoMessage ''Counter created successfully'' [(''key'', ''k''), (''type'', ''pn_counter'')]), tally_created)"
proof -
  have "fst (handleCreateCounter tally_ops demo_put (\<lambda>_. Inr ''m'') ''bad'' 1 1 ''k'' (Some (''pn_counter'', 7)) tally_server) =
     (201, GeoMessage ''Counter created successfully'' [(''key'', ''k''), (''type'', ''pn_counter'')])"
    by code_simp
  then show ?thesis by (metis prod.collapse)
qed

lemma tally_paired: "geo_paired (sv_store tally_server)"
  by (simp add: tally_server_def geo_paired_def NewGeoStore_def)

lemma tally_created_holds: "holds_counter tally_ops ''k'' KPNCounter 7 (sv_store tally_created)"
proof -
  obtain e s w where run: "CreateCounter tally_ops demo_put (\<lambda>_. Inr ''m'') 1 1 ''k'' ''pn_counter'' 7 (sv_store tally_server) (sv_world tally_server) = (e, s, w)"
    by (rule prod_cases3)
  have e: "e = None" using tally_created_201 run by (simp add: handleCreateCounter_def split: option.splits)
  with CreateCounter_store [OF run tally_laws] geo_paired_set [OF tally_paired]
  have "holds_counter tally_ops ''k'' KPNCounter 7 s" by (auto simp: holds_counter_def go_map_simps)
  then show ?thesis using run e by (simp add: handleCreateCounter_def)
qed

theorem counter_over_http_witness:
  "\<exists>as sv2 md. serve_counters tally_ops demo_put (\<lambda>_. Inr ''m'') ''bad''
       [(''k'', ReqIncrement 2 (Some 0)), (''j'', ReqIncrement 3 (Some 4)), (''k'', ReqIncrement 4 (Some (- 5))), (''k'', ReqGet)] tally_created = Some (as, sv2) \<and>
     length as = 4 \<and> fst (handleGetCounter tally_ops ''k'' sv2) = (200, GeoCounter ''k'' 3 md)"
  using counter_over_http [OF tally_laws tally_paired _ _ tally_created_201,
    of "[(''k'', ReqIncrement 2 (Some 0)), (''j'', ReqIncrement 3 (Some 4)), (''k'', ReqIncrement 4 (Some (- 5))), (''k'', ReqGet)]"]
  by (simp add: request_ok_def counter_delta_def increment_of_def eval_nat_numeral)

theorem failed_increment_counts_witness:
  "\<exists>e sv' md. handleIncrementCounter tally_ops refusing_put (\<lambda>_. Inr ''m'') ''bad'' 2 ''k'' (Some 3) tally_created = Some ((500, GeoError e), sv') \<and>
     fst (handleGetCounter tally_ops ''k'' sv') = (200, GeoCounter ''k'' 10 md)"
  using failed_increment_counts [OF tally_laws tally_created_holds, of 3 refusing_put "\<lambda>_. Inr ''m''" "''bad''" 2]
  by (simp add: refusing_put_def)

end
