(* ===== verification/Spec2Isabelle.thy ===== *)
theory Spec2Isabelle
  imports Saga_Handler Saga_Overlap Sync_Registry Outbox_Publisher Rate_Limiter Raft_Storage KV_Store Event_Bus Geo_Store Scheduler Sharding_Proxy Event_Ingestion Wallet_Manager Time_Travel Data_Ingestion Saga_Demo Commit_Log_Config Authorization ETL_Pipeline Online_Migration Jepsen_Framework Backup_Manager WebApp_Operator Ledger_Service Cache_Node Geo_Server
begin

text \<open>
  \<^bold>\<open>A verification of the distributed-systems simulations.\<close>

  The repository is a collection of Go services that simulate distributed systems. The development models the
  services whose own code carries the logic, each as executable definitions translated from the source, and
  proves what makes them correct; where the code does not do what it means to, the theorem says what it
  does instead.

  \<^bold>\<open>The parts and where they are modelled.\<close>

  \<^item> \<^emph>\<open>Go itself.\<close> \<open>Go_Prelude\<close>: maps as association lists with distinct keys (\<open>go_get\<close>, \<open>go_set\<close>,
    \<open>go_del\<close>), instants and durations in nanoseconds, \<open>int\<close> and \<open>int64\<close> as integers passed through \<open>wrap64\<close> where
    they can overflow, shifts and division with their panics, decimal numerals, decoded JSON.
    \<open>Go_Float\<close>: \<open>float64\<close> as rationals with an explicit rounding \<open>fl\<close> to 53 bits, its error bounds, and the
    conversion to \<open>int64\<close>; \<open>Go_XFloat\<close> adds infinities and NaN where the code can meet them. \<open>Go_Env\<close>: parsing of numbers and strings, the environment, and the cluster lists that
    two services read from it. \<open>Go_Strings\<close>: the functions of \<open>strings\<close> on ASCII text, with those on other text as
    a parameter and its laws.

  \<^item> \<^emph>\<open>Interfaces.\<close> \<open>CRDT_Interface\<close>: the contract of a state-based CRDT (locale \<open>state_crdt\<close>), with
    convergence proved once. \<open>Step_Systems\<close>: invariants of transition systems and of event handlers (locales
    \<open>transition_system\<close> and \<open>event_machine\<close>). \<open>Saga_Repository\<close> adds \<open>row_table\<close>, the contract of a table
    whose rows are addressed by a key. Every locale is interpreted on definitions of the model.

  \<^item> \<^emph>\<open>The saga orchestrator\<close> (\<open>services/saga-orchestrator\<close>). A saga is a row with ordered steps; HTTP handlers
    create, compensate and retry sagas, a processing loop starts the next step of every open saga by a Kafka
    event, a consumer completes or fails steps by the events that come back, and an outbox publishes stored
    events. \<open>Saga_Models\<close> (\<open>models/saga.go\<close>) has the records and the \<open>World\<close> of tables, Kafka log and Redis keys
    that every operation takes and returns; \<open>Saga_Repository\<close> the SQL statements; \<open>Saga_Services\<close> events,
    idempotency keys and compensation; \<open>Saga_Orchestrator\<close> the operations of \<open>orchestrator.go\<close>, \<open>processor.go\<close> and
    \<open>consumer.go\<close>; \<open>Saga_Outbox\<close> those of \<open>outbox.go\<close>; \<open>Saga_Handler\<close> the HTTP handlers. \<open>Saga_Spec\<close>
    is the abstract specification (the life cycles of sagas and steps as a step relation), \<open>Saga_Refinement\<close>
    proves that every operation refines it, \<open>Saga_System\<close> puts all operations together, and
    \<open>Saga_Properties\<close> holds the properties, for operations that do not overlap: consistent tables over every run, finality of completed sagas,
    idempotent creation, the effect of every branch of failure, retry, timeout and completion, and the outbox's
    at-least-once delivery. \<open>Saga_Overlap\<close> shows the limits: the steps of a saga have \<open>NULL\<close> columns that cannot be
    scanned, so that none is ever started, and an operation that runs between two statements of another can complete a saga
    with pending steps and overwrite a completed one.

  \<^item> \<^emph>\<open>The sync service\<close> (\<open>services/sync-service/internal/crdt\<close>). \<open>Sync_CRDT\<close>: last-writer-wins register and
    counters, their convergence and values; \<open>Sync_Registry\<close>: vector clocks with their comparison, the operation
    log, conflict resolution.

  \<^item> \<^emph>\<open>The outbox publisher\<close> (\<open>services/outbox-publisher/internal/domain/outbox_event.go\<close>). \<open>Outbox_Publisher\<close>:
    the life cycle of an event as an invariant over every sequence of its methods, that retries end, and the
    range in which the exponential backoff is exact.

  \<^item> \<^emph>\<open>The rate limiter\<close> (\<open>distributed-rate-limiter/services/rate-limiter/main.go\<close>). \<open>Rate_Limiter\<close>: token bucket,
    sliding window, adaptive limiter, circuit breaker, load shedder and the controller. The bound on admitted
    tokens, for any interval and requests that are served one after the other and not negative, includes the rounding of the refill; the circuit breaker is shown to follow its automaton.

  \<^item> \<^emph>\<open>The Raft node\<close> (\<open>raft-consensus/services/raft-node\<close>). \<open>Raft_Config\<close>: its configuration; \<open>Raft_Node\<close>
    (\<open>internal/raft/node.go\<close> and the endpoints of \<open>main.go\<close>): timeouts, elections and client operations, with the
    goroutines as pending steps that interleave in any order, the vote of a peer as an argument and a history of the votes that were granted;
    the select of the event loop panics as long as a timer is \<open>nil\<close>, which is how the node starts as shipped;
    \<open>Raft_Storage\<close> (\<open>internal/storage/storage.go\<close>): the log, the snapshot and the state machine on RocksDB.

  \<^item> \<^emph>\<open>The key-value store\<close> (\<open>distributed-kv-store/services/kvstore-node\<close>). \<open>KV_Store\<close>: validation of quorums and
    consistency modes, and the dispatch of every operation to the engine its level asks for.

  \<^item> \<^emph>\<open>The event bus\<close> (\<open>cross-system-integration\<close>). \<open>Event_Bus\<close>: unified events, filters, transformations, and
    the router with its rules in Redis; every call of a client meets its own outcome, and a failed one does not stop the others.
    A copy of an event is what its JSON text denotes.

  \<^item> \<^emph>\<open>The geo-replicated store\<close> (\<open>geo-replicated-datastore/services/geodatastore-node/internal/crdt/store.go\<close>).
    \<open>Geo_Store\<close>: objects with metadata and vector clocks, merging, conflicts and their resolution; the clocks
    are an instance of \<open>state_crdt\<close>, the runs of a node one of \<open>transition_system\<close>. \<open>Geo_Server\<close> (\<open>main.go\<close>): the HTTP handlers on the
    store; a counter has the value that its requests add up to, and an increment that is answered with an error can have been applied.

  \<^item> \<^emph>\<open>The multi-tenant scheduler\<close> (\<open>multi-tenant-scheduler/services/scheduler/main.go\<close>). \<open>Scheduler\<close>: submission,
    queue orders, placement and preemption, with jobs in an explicit store that the map and the queue share. In every
    run with requests for finite and non-negative amounts nodes stay within their capacity up to the rounding of CPU shares, a cycle is a first fit in the order of
    priority that leaves only jobs for which no node has room, and no job is ever running.

  \<^item> \<^emph>\<open>The sharding proxy\<close> (\<open>services/sharding-proxy/main.go\<close>). \<open>Sharding_Proxy\<close>: the hash ring, the routing of
    queries and the rebalancer. The ring is a successor lookup that moves keys only to a new node; a removed node
    leaves holes, and no query is routed by its key.

  \<^item> \<^emph>\<open>The regulatory event ingestion\<close> (\<open>regtech-automated-reporting/services/event-ingestion\<close>). \<open>Event_Ingestion\<close>:
    the hash chain of the events of an entity, its verification, the queries and the endpoints; chains of timestamps in whole
    microseconds stay valid while events come in order.

  \<^item> \<^emph>\<open>The wallet manager\<close> (\<open>custody-key-management-system/services/wallet-manager\<close>). \<open>Wallet_Manager\<close>: wallets and
    their cache, key generations as goroutines that end later, derivation paths, addresses and balances.

  \<^item> \<^emph>\<open>Time travel\<close> (\<open>services/cqrs-event-store/internal/timetravel/service.go\<close>). \<open>Time_Travel\<close>: restoration from
    snapshots, timelines, comparison of states and the analytics over batches.

  \<^item> \<^emph>\<open>The data ingestion\<close> (\<open>ai-ml-system/services/data-ingestion\<close>). \<open>Message_Validator\<close> (\<open>validator.go\<close>): the validator
    accepts exactly the messages that satisfy a list of requirements. \<open>Message_Normalizer\<close> (\<open>normalizer.go\<close>): phone numbers and
    event names have a normal form; a Zalo user can be lost. \<open>Data_Ingestion\<close> (\<open>main.go\<close>): which messages are passed on, that
    messages with one key are more than a day apart while requests do not overlap and are written twice when they do, and that
    generated keys identify the accepted messages.

  \<^item> \<^emph>\<open>The analytics pipeline\<close> (\<open>services/analytics-etl/internal/pipeline/etl_pipeline.go\<close>). \<open>ETL_Pipeline\<close>: the consumers, the
    aggregations and the batches, whose sender and ten workers interleave call by call over channels with their capacities; a batch ends, no send waits for ever, and it accounts for every event, and
    duplicates inside a batch can be loaded twice.

  \<^item> \<^emph>\<open>The schema migration\<close> (\<open>services/schema-migration/internal/migration/online_engine.go\<close>). \<open>Online_Migration\<close>: the
    statements of every kind of migration with their outcomes, what is reported when one fails, and the backfill by chunks, which partitions the rows of the table.

  \<^item> \<^emph>\<open>The consistency tests\<close> (\<open>services/consistency-testing/internal/jepsen/framework.go\<close>). \<open>Jepsen_Framework\<close>: the tests,
    their clients and the analysis of histories as interleaved steps, with the records they leave.

  \<^item> \<^emph>\<open>The backup manager\<close> (\<open>services/disaster-recovery/internal/backup/manager.go\<close>). \<open>Backup_Manager\<close>: backups, restores,
    verification and retention; what a backup uploads and records, and that a completed one can be restored.

  \<^item> \<^emph>\<open>The operator\<close> (\<open>k8s-operator-sre/operator/main.go\<close>). \<open>WebApp_Operator\<close>: the reconciler of web applications; two rounds make
    an application ready and further rounds change nothing, but a new version is refused.

  \<^item> \<^emph>\<open>The commit log\<close> (\<open>commit-log-service/services/commitlog-broker/internal/config/config.go\<close>). \<open>Commit_Log_Config\<close>: its
    configuration and the choice of leaders, exactly one for a partition while ports differ and hashes are not negative.

  \<^item> \<^emph>\<open>The authorization service\<close> (\<open>payments-acquiring-gateway/services/authorization-service/main.go\<close>). \<open>Authorization\<close>: the
    processing of payments, every one of which is authorized.

  \<^item> \<^emph>\<open>The core banking ledger\<close> (\<open>core-banking-ledger/services/ledger-service/internal\<close>). \<open>Ledger_Service\<close>: the configuration
    (\<open>config.go\<close>), the database wrapper (\<open>connection.go\<close>) and the JSON columns of \<open>models.go\<close>; a transaction takes effect as a
    whole or not at all, but the error of a commit is lost.

  \<^item> \<^emph>\<open>The cache node\<close> (\<open>distributed-cache/services/cache-node/main.go\<close>). \<open>Cache_Node\<close>: the handlers; a batch implements the
    operations on a map in order, a stored value is read back, and a batch goes around the protection of hot keys.

  \<^item> \<^emph>\<open>The saga demo\<close> (\<open>demo/simple-saga-demo.go\<close>). \<open>Saga_Demo\<close>: a saga as one run and as a goroutine among others; every
    saga that gets its turns settles, completed or compensated, whatever runs in between.

  \<^bold>\<open>State, errors and effects.\<close> An operation takes the state of its component and returns it updated with
  what the Go function returns. An error is a string (\<open>goerror\<close>) in an option or a sum; where the code
  can panic the result is an option and \<open>None\<close> is the panic. An external call (database, Kafka, Redis) consults
  a schedule of failures in the world, so every theorem without an assumption on the schedule holds for
  all failures. Readings of the clock and random draws are arguments. A method that holds a lock is one atomic step;
  mutexes have no other counterpart. The operations of the saga orchestrator are steps too, although they hold no lock: the
  properties about them are for operations that do not overlap.

  \<^bold>\<open>Code that is not in the repository\<close> is a parameter: the UUID generator and the JSON decoder of order
  data (\<open>Env\<close>), RocksDB and the codec of log entries (records \<open>RocksDB\<close> and \<open>Codec\<close>, with \<open>rocks_laws\<close> for what the
  storage relies on, shown to hold of a concrete list-based database), the consensus and quorum engines
  (\<open>Engines\<close>), the CRDTs and the storage of the geo-replicated store (\<open>CRDTOps\<close>,
  with \<open>counter_laws\<close>) and its managers (\<open>GeoManagers\<close>), the digests \<open>md5\<close> and \<open>sha256\<close>,
  what a table gives back and the encoders of regulatory events (\<open>EventCodec\<close>, with \<open>codec_laws\<close>), the event store and
  the snapshots (\<open>TravelOps\<close>), the case of text that is not ASCII (\<open>UnicodeOps\<close>, \<open>NormalizerOps\<close>), the encoders of the data ingestion (\<open>IngestOps\<close>), the
  processors of the analytics pipeline (\<open>EtlOps\<close>, with \<open>load_laws\<close>), the database of a migration (\<open>SqlOps\<close>), the records and objects of backups
  (\<open>BackupOps\<close>, with \<open>storage_laws\<close>), the cluster of the operator (\<open>ClusterOps\<close>, with \<open>cluster_laws\<close>), the database of the
  ledger (\<open>LedgerDb\<close>, with \<open>tx_laws\<close>), the cache behind the cache node (\<open>CacheOps\<close>, with \<open>cache_laws\<close>), what \<open>ParseFloat\<close> makes of
  an amount, and the answers of the repositories of the consistency tests.

  \<^bold>\<open>Bounds.\<close> No definition needs fuel: every loop of the modelled code is structural or has a measure,
  except endless service loops, whose body is the step of a relation, and the loops over the batches of the event analytics and the
  chunks of a backfill, which are \<open>partial_function\<close>s whose result \<open>None\<close> says that they never end. Machine integers are 64 bits wide, and
  a theorem that needs a value to stay in range says so.

  \<^bold>\<open>Not modelled.\<close> Construction of clients, servers, routes, metric collectors and tracing (input and output
  only). The servers of the other services (the stream processor, the commit log broker and the \<open>main.go\<close> of most services
  above) wire packages that are not in the repository and pass requests on to them. The models of the
  inventory service and most structs of the ledger are data that no code of the repository changes.
\<close>

end
